(* ===== verification/Prelude.thy ===== *)
theory Prelude
  imports Main "HOL-Library.Word"
begin

text \<open>
  Shared vocabulary of the development. It holds the machine integers of the Rust sources as
  words, results as sums (\<open>Inl\<close> is \<open>Err\<close>, \<open>Inr\<close> is \<open>Ok\<close>), the few combinators of
  \<^verbatim>\<open>Result\<close> the sources chain, and the operations of \<^verbatim>\<open>str\<close> they call.

  A Rust \<^verbatim>\<open>&str\<close> is a UTF-8 byte sequence. It is modelled as an Isabelle \<open>string\<close>, a
  list of bytes: \<open>length\<close> is \<^verbatim>\<open>len()\<close>. Operations that look at ASCII bytes only
  (\<^verbatim>\<open>split_once(':')\<close>, \<^verbatim>\<open>is_ascii_digit\<close>) work on the bytes directly, since no byte of
  a multi-byte character is below 128; the ones that see Unicode scalar values
  (\<^verbatim>\<open>trim\<close>, \<^verbatim>\<open>char::is_whitespace\<close>, \<^verbatim>\<open>char::is_control\<close>) go through
  \<open>str_chars\<close>, which cuts the bytes at character boundaries.
\<close>

unbundle bit_operations_syntax

named_theorems result_simps \<open>equations of the Result combinators\<close>
named_theorems str_simps \<open>equations of the string operations\<close>
named_theorems codec_simps \<open>facts the wire codecs share\<close>

type_synonym u8 = "8 word"
type_synonym u16 = "16 word"
type_synonym u32 = "32 word"
type_synonym u64 = "64 word"
type_synonym u128 = "128 word"
type_synonym bytes = "u8 list"

subsection \<open>Results\<close>

definition ok_or :: "'e \<Rightarrow> 'a option \<Rightarrow> 'e + 'a" where
  "ok_or e x = (case x of None \<Rightarrow> Inl e | Some v \<Rightarrow> Inr v)"

definition map_err :: "('e \<Rightarrow> 'f) \<Rightarrow> 'e + 'a \<Rightarrow> 'f + 'a" where
  "map_err f r = (case r of Inl e \<Rightarrow> Inl (f e) | Inr v \<Rightarrow> Inr v)"

definition result_ok :: "'e + 'a \<Rightarrow> 'a option" where
  "result_ok r = (case r of Inl _ \<Rightarrow> None | Inr v \<Rightarrow> Some v)"

text \<open>The \<^verbatim>\<open>?\<close> operator: the rest of the function runs on success only.\<close>

definition and_then :: "'e + 'a \<Rightarrow> ('a \<Rightarrow> 'e + 'b) \<Rightarrow> 'e + 'b" where
  "and_then r f = (case r of Inl e \<Rightarrow> Inl e | Inr v \<Rightarrow> f v)"

text \<open>\<^verbatim>\<open>Option<Result<T, E>>::transpose\<close> after a map.\<close>

definition transpose_map :: "('a \<Rightarrow> 'e + 'b) \<Rightarrow> 'a option \<Rightarrow> 'e + 'b option" where
  "transpose_map f x = (case x of None \<Rightarrow> Inr None | Some v \<Rightarrow> map_sum id Some (f v))"

text \<open>\<^verbatim>\<open>iter().map(f).collect::<Result<Vec<_>, _>>()\<close>: the first error wins.\<close>

fun try_map :: "('a \<Rightarrow> 'e + 'b) \<Rightarrow> 'a list \<Rightarrow> 'e + 'b list" where
  "try_map f [] = Inr []"
| "try_map f (x # xs) =
     (case f x of Inl e \<Rightarrow> Inl e
      | Inr y \<Rightarrow> (case try_map f xs of Inl e \<Rightarrow> Inl e | Inr ys \<Rightarrow> Inr (y # ys)))"

text \<open>\<^verbatim>\<open>iter().enumerate()\<close>, from a given index.\<close>

fun enumerate_from :: "nat \<Rightarrow> 'a list \<Rightarrow> (nat \<times> 'a) list" where
  "enumerate_from n [] = []"
| "enumerate_from n (x # xs) = (n, x) # enumerate_from (Suc n) xs"

fun find_first :: "('a \<Rightarrow> bool) \<Rightarrow> 'a list \<Rightarrow> 'a option" where
  "find_first P [] = None"
| "find_first P (x # xs) = (if P x then Some x else find_first P xs)"

subsection \<open>ASCII characters\<close>

definition char_code :: "char \<Rightarrow> nat" where
  "char_code c = of_char c"

definition is_ascii_digit :: "char \<Rightarrow> bool" where
  "is_ascii_digit c \<longleftrightarrow> 48 \<le> char_code c \<and> char_code c \<le> 57"

definition is_ascii_uppercase :: "char \<Rightarrow> bool" where
  "is_ascii_uppercase c \<longleftrightarrow> 65 \<le> char_code c \<and> char_code c \<le> 90"

definition is_ascii_lowercase :: "char \<Rightarrow> bool" where
  "is_ascii_lowercase c \<longleftrightarrow> 97 \<le> char_code c \<and> char_code c \<le> 122"

definition is_ascii_alphabetic :: "char \<Rightarrow> bool" where
  "is_ascii_alphabetic c \<longleftrightarrow> is_ascii_uppercase c \<or> is_ascii_lowercase c"

definition is_ascii_alphanumeric :: "char \<Rightarrow> bool" where
  "is_ascii_alphanumeric c \<longleftrightarrow> is_ascii_alphabetic c \<or> is_ascii_digit c"

definition ascii_lower_char :: "char \<Rightarrow> char" where
  "ascii_lower_char c = (if is_ascii_uppercase c then char_of (char_code c + 32) else c)"

definition to_ascii_lowercase :: "string \<Rightarrow> string" where
  "to_ascii_lowercase s = map ascii_lower_char s"

definition eq_ignore_ascii_case :: "string \<Rightarrow> string \<Rightarrow> bool" where
  "eq_ignore_ascii_case a b \<longleftrightarrow> to_ascii_lowercase a = to_ascii_lowercase b"

subsection \<open>Cutting strings\<close>

definition split_once_at :: "char \<Rightarrow> string \<Rightarrow> (string \<times> string) option" where
  "split_once_at c s =
     (case dropWhile (\<lambda>d. d \<noteq> c) s of
        [] \<Rightarrow> None
      | _ # rest \<Rightarrow> Some (takeWhile (\<lambda>d. d \<noteq> c) s, rest))"

definition rsplit_once_at :: "char \<Rightarrow> string \<Rightarrow> (string \<times> string) option" where
  "rsplit_once_at c s =
     (case split_once_at c (rev s) of
        None \<Rightarrow> None
      | Some (r, l) \<Rightarrow> Some (rev l, rev r))"

definition strip_prefix :: "string \<Rightarrow> string \<Rightarrow> string option" where
  "strip_prefix p s = (if take (length p) s = p then Some (drop (length p) s) else None)"

definition strip_suffix :: "string \<Rightarrow> string \<Rightarrow> string option" where
  "strip_suffix p s = map_option rev (strip_prefix (rev p) (rev s))"

definition ends_with :: "string \<Rightarrow> string \<Rightarrow> bool" where
  "ends_with s p \<longleftrightarrow> strip_suffix p s \<noteq> None"

definition starts_with :: "string \<Rightarrow> string \<Rightarrow> bool" where
  "starts_with s p \<longleftrightarrow> strip_prefix p s \<noteq> None"

definition str_contains :: "string \<Rightarrow> string \<Rightarrow> bool" where
  "str_contains part s \<longleftrightarrow> list_ex (\<lambda>n. starts_with (drop n s) part) [0..<Suc (length s)]"

text \<open>\<^verbatim>\<open>str::split(c)\<close>: always at least one piece.\<close>

fun split_on :: "char \<Rightarrow> string \<Rightarrow> string list" where
  "split_on c [] = [[]]"
| "split_on c (d # s) =
     (if d = c then [] # split_on c s
      else (case split_on c s of [] \<Rightarrow> [[d]] | p # ps \<Rightarrow> (d # p) # ps))"

fun join_with :: "string \<Rightarrow> string list \<Rightarrow> string" where
  "join_with sep [] = []"
| "join_with sep [x] = x"
| "join_with sep (x # y # xs) = x @ sep @ join_with sep (y # xs)"

subsection \<open>Unicode scalar values\<close>

text \<open>The length of a UTF-8 sequence, from its first byte.\<close>

definition utf8_len :: "char \<Rightarrow> nat" where
  "utf8_len c =
     (let n = char_code c in
      if n < 128 then 1 else if n < 224 then 2 else if n < 240 then 3 else 4)"

fun str_chars :: "string \<Rightarrow> string list" where
  "str_chars [] = []"
| "str_chars (c # cs) =
     (c # take (utf8_len c - 1) cs) # str_chars (drop (utf8_len c - 1) cs)"

text \<open>The members of \<^verbatim>\<open>White_Space\<close> outside ASCII, in UTF-8.\<close>

definition unicode_whitespace :: "nat list list" where
  "unicode_whitespace =
     [[0xC2, 0x85], [0xC2, 0xA0], [0xE1, 0x9A, 0x80]] @
     map (\<lambda>b. [0xE2, 0x80, b]) [0x80, 0x81, 0x82, 0x83, 0x84, 0x85, 0x86, 0x87, 0x88, 0x89, 0x8A,
       0xA8, 0xA9, 0xAF] @
     [[0xE2, 0x81, 0x9F], [0xE3, 0x80, 0x80]]"

definition char_is_whitespace :: "string \<Rightarrow> bool" where
  "char_is_whitespace u =
     (case u of
        [c] \<Rightarrow> (9 \<le> char_code c \<and> char_code c \<le> 13) \<or> char_code c = 32
      | _ \<Rightarrow> map char_code u \<in> set unicode_whitespace)"

definition char_is_control :: "string \<Rightarrow> bool" where
  "char_is_control u =
     (case u of
        [c] \<Rightarrow> char_code c < 32 \<or> char_code c = 127
      | [c, d] \<Rightarrow> char_code c = 0xC2 \<and> 0x80 \<le> char_code d \<and> char_code d \<le> 0x9F
      | _ \<Rightarrow> False)"

definition str_trim :: "string \<Rightarrow> string" where
  "str_trim s =
     concat (rev (dropWhile char_is_whitespace
       (rev (dropWhile char_is_whitespace (str_chars s)))))"

text \<open>Well-formed UTF-8, as \<^verbatim>\<open>String::from_utf8\<close> checks it.\<close>

definition utf8_cont :: "nat \<Rightarrow> bool" where
  "utf8_cont b \<longleftrightarrow> 0x80 \<le> b \<and> b \<le> 0xBF"

fun utf8_valid :: "nat list \<Rightarrow> bool" where
  "utf8_valid [] = True"
| "utf8_valid (a # r) =
     (if a < 0x80 then utf8_valid r
      else if 0xC2 \<le> a \<and> a \<le> 0xDF then
        (case r of b # r' \<Rightarrow> utf8_cont b \<and> utf8_valid r' | _ \<Rightarrow> False)
      else if 0xE0 \<le> a \<and> a \<le> 0xEF then
        (case r of b # c # r' \<Rightarrow>
           (if a = 0xE0 then 0xA0 \<le> b \<and> b \<le> 0xBF
            else if a = 0xED then 0x80 \<le> b \<and> b \<le> 0x9F
            else utf8_cont b) \<and> utf8_cont c \<and> utf8_valid r'
         | _ \<Rightarrow> False)
      else if 0xF0 \<le> a \<and> a \<le> 0xF4 then
        (case r of b # c # d # r' \<Rightarrow>
           (if a = 0xF0 then 0x90 \<le> b \<and> b \<le> 0xBF
            else if a = 0xF4 then 0x80 \<le> b \<and> b \<le> 0x8F
            else utf8_cont b) \<and> utf8_cont c \<and> utf8_cont d \<and> utf8_valid r'
         | _ \<Rightarrow> False)
      else False)"

definition str_valid :: "string \<Rightarrow> bool" where
  "str_valid s = utf8_valid (map char_code s)"

definition is_ascii_str :: "string \<Rightarrow> bool" where
  "is_ascii_str s = list_all (\<lambda>c. char_code c < 128) s"

subsection \<open>Numbers as text\<close>

definition digit_char :: "nat \<Rightarrow> char" where
  "digit_char d = char_of (48 + d)"

definition digit_val :: "char \<Rightarrow> nat" where
  "digit_val c = char_code c - 48"

text \<open>\<^verbatim>\<open>Display\<close> of an unsigned integer.\<close>

fun nat_to_string :: "nat \<Rightarrow> string" where
  "nat_to_string n =
     (if n < 10 then [digit_char n] else nat_to_string (n div 10) @ [digit_char (n mod 10)])"

definition digits_val :: "string \<Rightarrow> nat" where
  "digits_val s = foldl (\<lambda>acc c. 10 * acc + digit_val c) 0 s"

text \<open>\<^verbatim>\<open>LowerHex\<close> of an unsigned integer.\<close>

definition hex_char :: "nat \<Rightarrow> char" where
  "hex_char d = (if d < 10 then digit_char d else char_of (87 + d))"

fun nat_to_hex :: "nat \<Rightarrow> string" where
  "nat_to_hex n =
     (if n < 16 then [hex_char n] else nat_to_hex (n div 16) @ [hex_char (n mod 16)])"

definition is_hex_digit :: "char \<Rightarrow> bool" where
  "is_hex_digit c \<longleftrightarrow>
     is_ascii_digit c \<or> (97 \<le> char_code c \<and> char_code c \<le> 102) \<or> (65 \<le> char_code c \<and> char_code c \<le> 70)"

definition hex_val :: "char \<Rightarrow> nat" where
  "hex_val c =
     (if is_ascii_digit c then char_code c - 48
      else if 97 \<le> char_code c then char_code c - 87 else char_code c - 55)"

definition hex_digits_val :: "string \<Rightarrow> nat" where
  "hex_digits_val s = foldl (\<lambda>acc c. 16 * acc + hex_val c) 0 s"

text \<open>
  \<^verbatim>\<open>FromStr\<close> of an unsigned integer with greatest value \<open>m\<close>: one leading \<^verbatim>\<open>+\<close> is
  accepted, the rest is one or more decimal digits, and a value above \<open>m\<close> is an error.
\<close>

definition parse_unsigned :: "nat \<Rightarrow> string \<Rightarrow> nat option" where
  "parse_unsigned m s =
     (let digits = (case s of c # rest \<Rightarrow> if c = CHR ''+'' then rest else s | [] \<Rightarrow> [])
      in if digits \<noteq> [] \<and> list_all is_ascii_digit digits \<and> digits_val digits \<le> m
         then Some (digits_val digits) else None)"

definition parse_u8 :: "string \<Rightarrow> u8 option" where
  "parse_u8 s = map_option of_nat (parse_unsigned 255 s)"

definition parse_u16 :: "string \<Rightarrow> u16 option" where
  "parse_u16 s = map_option of_nat (parse_unsigned 65535 s)"

definition parse_u64 :: "string \<Rightarrow> u64 option" where
  "parse_u64 s = map_option of_nat (parse_unsigned (2 ^ 64 - 1) s)"

subsection \<open>Facts about results and lists\<close>

lemma ok_or_simps [simp, result_simps]:
  "ok_or e None = Inl e"
  "ok_or e (Some v) = Inr v"
  by (simp_all add: ok_or_def)

lemma map_err_simps [simp, result_simps]:
  "map_err f (Inl e) = Inl (f e)"
  "map_err f (Inr v) = Inr v"
  by (simp_all add: map_err_def)

lemma result_ok_simps [simp, result_simps]:
  "result_ok (Inl e) = None"
  "result_ok (Inr v) = Some v"
  by (simp_all add: result_ok_def)

lemma and_then_simps [simp, result_simps]:
  "and_then (Inl e) f = Inl e"
  "and_then (Inr v) f = f v"
  by (simp_all add: and_then_def)

lemma and_then_Inr_iff: "and_then r f = Inr y \<longleftrightarrow> (\<exists>v. r = Inr v \<and> f v = Inr y)"
  by (cases r) auto

lemma map_err_Inr_iff [simp]: "map_err f r = Inr y \<longleftrightarrow> r = Inr y"
  by (cases r) auto

lemma transpose_map_Inr_iff:
  "transpose_map f x = Inr y \<longleftrightarrow>
     (x = None \<and> y = None) \<or> (\<exists>v w. x = Some v \<and> f v = Inr w \<and> y = Some w)"
  by (cases x; cases "f (the x)") (auto simp: transpose_map_def)

lemma try_map_Inr_iff:
  "try_map f xs = Inr ys \<longleftrightarrow> list_all2 (\<lambda>x y. f x = Inr y) xs ys"
proof (induction xs arbitrary: ys)
  case Nil
  show ?case by auto
next
  case (Cons x xs)
  show ?case
    by (cases ys) (auto simp flip: Cons.IH split: sum.splits)
qed

lemma try_map_ConsE:
  assumes "try_map f (x # xs) = Inr ys"
  obtains y zs where "f x = Inr y" "try_map f xs = Inr zs" "ys = y # zs"
  using assms by (auto split: sum.splits)

lemma list_all2_rightD: "list_all2 P xs ys \<Longrightarrow> y \<in> set ys \<Longrightarrow> \<exists>x \<in> set xs. P x y"
  by (induction rule: list_all2_induct) auto

lemma list_all2_leftD: "list_all2 P xs ys \<Longrightarrow> x \<in> set xs \<Longrightarrow> \<exists>y \<in> set ys. P x y"
  by (induction rule: list_all2_induct) auto

lemma try_map_length: "try_map f xs = Inr ys \<Longrightarrow> length ys = length xs"
  by (simp add: try_map_Inr_iff list_all2_lengthD)

lemma try_map_Inr_map:
  "(\<And>x. x \<in> set xs \<Longrightarrow> f x = Inr (g x)) \<Longrightarrow> try_map f xs = Inr (map g xs)"
  by (induction xs) auto

lemma enumerate_from_conv: "enumerate_from n xs = List.enumerate n xs"
  by (induction xs arbitrary: n) auto

lemma find_first_Some_iff:
  "find_first P xs = Some x \<longleftrightarrow>
     (\<exists>ys zs. xs = ys @ x # zs \<and> P x \<and> (\<forall>y \<in> set ys. \<not> P y))"
proof (induction xs)
  case Nil
  show ?case by simp
next
  case (Cons y ys)
  show ?case
  proof (cases "P y")
    case True
    then show ?thesis by (auto simp: Cons_eq_append_conv)
  next
    case False
    then have "find_first P (y # ys) = Some x \<longleftrightarrow>
        (\<exists>us zs. ys = us @ x # zs \<and> P x \<and> (\<forall>u \<in> set us. \<not> P u))"
      by (simp add: Cons.IH)
    also have "\<dots> \<longleftrightarrow> (\<exists>us zs. y # ys = us @ x # zs \<and> P x \<and> (\<forall>u \<in> set us. \<not> P u))"
    proof
      assume "\<exists>us zs. ys = us @ x # zs \<and> P x \<and> (\<forall>u \<in> set us. \<not> P u)"
      then obtain us zs where "y # ys = (y # us) @ x # zs" "P x" "\<forall>u \<in> set (y # us). \<not> P u"
        using False by auto
      then show "\<exists>us zs. y # ys = us @ x # zs \<and> P x \<and> (\<forall>u \<in> set us. \<not> P u)"
        by blast
    qed (use False in \<open>auto simp: Cons_eq_append_conv\<close>)
    finally show ?thesis .
  qed
qed

lemma find_first_None_iff: "find_first P xs = None \<longleftrightarrow> (\<forall>x \<in> set xs. \<not> P x)"
  by (induction xs) auto

lemma find_first_SomeD: "find_first P xs = Some x \<Longrightarrow> x \<in> set xs \<and> P x"
  by (induction xs) (auto split: if_splits)

subsection \<open>Facts about characters and numbers\<close>

lemma char_code_less [simp]: "char_code c < 256"
  by (simp add: char_code_def)

lemma char_code_char_of: "n < 256 \<Longrightarrow> char_code (char_of n) = n"
  by (simp add: char_code_def)

lemma char_code_inject [simp]: "char_code c = char_code d \<longleftrightarrow> c = d"
  by (simp add: char_code_def)

lemma char_of_char_code [simp]: "char_of (char_code c) = c"
  by (simp add: char_code_def)

lemma char_eq_code: "c = d \<longleftrightarrow> char_code c = char_code d"
  by simp

lemma char_code_lower:
  "char_code (ascii_lower_char c) =
     (if 65 \<le> char_code c \<and> char_code c \<le> 90 then char_code c + 32 else char_code c)"
  by (simp add: ascii_lower_char_def is_ascii_uppercase_def char_code_char_of)

lemma alphanumeric_code:
  "is_ascii_alphanumeric c \<longleftrightarrow>
     (48 \<le> char_code c \<and> char_code c \<le> 57) \<or> (65 \<le> char_code c \<and> char_code c \<le> 90) \<or>
     (97 \<le> char_code c \<and> char_code c \<le> 122)"
  by (auto simp: is_ascii_alphanumeric_def is_ascii_alphabetic_def is_ascii_uppercase_def
      is_ascii_lowercase_def is_ascii_digit_def)

text \<open>Codes of literal characters.\<close>

lemma char_code_Char [simp]:
  "char_code (Char b0 b1 b2 b3 b4 b5 b6 b7) = of_char (Char b0 b1 b2 b3 b4 b5 b6 b7)"
  by (simp add: char_code_def)

lemma is_ascii_digit_digit_char [simp]: "d < 10 \<Longrightarrow> is_ascii_digit (digit_char d)"
  by (simp add: is_ascii_digit_def digit_char_def char_code_char_of)

lemma digit_val_digit_char [simp]: "d < 10 \<Longrightarrow> digit_val (digit_char d) = d"
  by (simp add: digit_val_def digit_char_def char_code_char_of)

lemma digit_val_less: "is_ascii_digit c \<Longrightarrow> digit_val c < 10"
  by (auto simp: digit_val_def is_ascii_digit_def)

lemma is_hex_digit_hex_char [simp]: "d < 16 \<Longrightarrow> is_hex_digit (hex_char d)"
  by (simp add: is_hex_digit_def hex_char_def is_ascii_digit_def digit_char_def char_code_char_of)

lemma hex_val_hex_char [simp]: "d < 16 \<Longrightarrow> hex_val (hex_char d) = d"
  by (simp add: hex_val_def hex_char_def is_ascii_digit_def digit_char_def char_code_char_of)

lemma hex_val_less: "is_hex_digit c \<Longrightarrow> hex_val c < 16"
  by (auto simp: hex_val_def is_hex_digit_def is_ascii_digit_def)

declare nat_to_hex.simps [simp del]

lemma nat_to_hex_digits: "list_all is_hex_digit (nat_to_hex n)"
proof (induction n rule: nat_to_hex.induct)
  case (1 n)
  then show ?case by (subst nat_to_hex.simps) (auto simp: list_all_append)
qed

lemma nat_to_hex_not_Nil [simp]: "nat_to_hex n \<noteq> []"
  by (subst nat_to_hex.simps) simp

lemma hex_digits_val_nat_to_hex [simp]: "hex_digits_val (nat_to_hex n) = n"
proof (induction n rule: nat_to_hex.induct)
  case (1 n)
  show ?case
  proof (cases "n < 16")
    case True
    then show ?thesis
      by (subst nat_to_hex.simps) (simp add: hex_digits_val_def)
  next
    case False
    then have "hex_digits_val (nat_to_hex n) = 16 * (n div 16) + n mod 16"
      using "1.IH" by (subst nat_to_hex.simps) (simp add: hex_digits_val_def)
    then show ?thesis by simp
  qed
qed

declare nat_to_string.simps [simp del]

lemma nat_to_string_digits: "list_all is_ascii_digit (nat_to_string n)"
proof (induction n rule: nat_to_string.induct)
  case (1 n)
  then show ?case by (subst nat_to_string.simps) (auto simp: list_all_append)
qed

lemma nat_to_string_not_Nil [simp]: "nat_to_string n \<noteq> []"
  by (subst nat_to_string.simps) simp

lemma digits_val_append_single: "digits_val (s @ [c]) = 10 * digits_val s + digit_val c"
  by (simp add: digits_val_def)

lemma digits_val_nat_to_string [simp]: "digits_val (nat_to_string n) = n"
proof (induction n rule: nat_to_string.induct)
  case (1 n)
  show ?case
  proof (cases "n < 10")
    case True
    then show ?thesis
      by (subst nat_to_string.simps) (simp add: digits_val_def)
  next
    case False
    then have "digits_val (nat_to_string n) = 10 * (n div 10) + n mod 10"
      by (subst nat_to_string.simps) (simp add: digits_val_append_single "1.IH")
    then show ?thesis by simp
  qed
qed

lemma digit_char_eq_0: "d < 10 \<Longrightarrow> digit_char d = CHR ''0'' \<longleftrightarrow> d = 0"
  by (auto simp: digit_char_def simp flip: char_code_inject simp: char_code_char_of char_code_def)

lemma nat_to_string_hd_0: "hd (nat_to_string n) = CHR ''0'' \<longleftrightarrow> n = 0"
proof (induction n rule: nat_to_string.induct)
  case (1 n)
  show ?case
  proof (cases "n < 10")
    case True
    then show ?thesis by (subst nat_to_string.simps) (simp add: digit_char_eq_0)
  next
    case False
    then have "hd (nat_to_string n) = hd (nat_to_string (n div 10))"
      by (subst nat_to_string.simps) simp
    then show ?thesis using "1.IH" [OF False] False by simp
  qed
qed

lemma nat_to_string_length: "n < 10 ^ Suc k \<Longrightarrow> length (nat_to_string n) \<le> Suc k"
proof (induction k arbitrary: n)
  case 0
  then show ?case by (subst nat_to_string.simps) simp
next
  case (Suc k)
  then have "n div 10 < 10 ^ Suc k" by (simp add: div_less_iff_less_mult)
  then show ?case using Suc.IH [of "n div 10"] by (subst nat_to_string.simps) simp
qed

lemma digit_not_plus: "is_ascii_digit c \<Longrightarrow> c \<noteq> CHR ''+''"
  by (auto simp: is_ascii_digit_def char_code_def)

lemma parse_unsigned_nat_to_string [simp]: "n \<le> m \<Longrightarrow> parse_unsigned m (nat_to_string n) = Some n"
proof -
  assume "n \<le> m"
  obtain c rest where s: "nat_to_string n = c # rest"
    by (cases "nat_to_string n") auto
  have "c \<noteq> CHR ''+''"
    using nat_to_string_digits [of n] s by (auto dest: digit_not_plus)
  then have "parse_unsigned m (c # rest) =
      (if list_all is_ascii_digit (c # rest) \<and> digits_val (c # rest) \<le> m
       then Some (digits_val (c # rest)) else None)"
    by (simp add: parse_unsigned_def Let_def)
  moreover have "list_all is_ascii_digit (c # rest)" "digits_val (c # rest) = n"
    using nat_to_string_digits [of n] digits_val_nat_to_string [of n] unfolding s by auto
  ultimately show ?thesis using \<open>n \<le> m\<close> unfolding s by simp
qed

lemma parse_unsigned_le: "parse_unsigned m s = Some n \<Longrightarrow> n \<le> m"
  by (auto simp: parse_unsigned_def Let_def split: if_splits)

lemma parse_u16_nat_to_string [simp]: "parse_u16 (nat_to_string (unat w)) = Some w"
proof -
  have "unat w \<le> 65535" using unsigned_less [of w, where 'a = nat] by simp
  then show ?thesis by (simp add: parse_u16_def)
qed

lemma parse_u8_nat_to_string [simp]: "parse_u8 (nat_to_string (unat w)) = Some w"
proof -
  have "unat w \<le> 255" using unsigned_less [of w, where 'a = nat] by simp
  then show ?thesis by (simp add: parse_u8_def)
qed

subsection \<open>Facts about cutting strings\<close>

lemma split_once_at_None_iff [str_simps]: "split_once_at c s = None \<longleftrightarrow> c \<notin> set s"
proof (cases "dropWhile (\<lambda>d. d \<noteq> c) s")
  case Nil
  then have "\<forall>d \<in> set s. d \<noteq> c" by (simp only: dropWhile_eq_Nil_conv)
  with Nil show ?thesis by (auto simp: split_once_at_def simp del: dropWhile_eq_Nil_conv)
next
  case (Cons d r)
  then have "c \<in> set s" using hd_dropWhile [of "\<lambda>d. d \<noteq> c" s] set_dropWhileD [of d "\<lambda>d. d \<noteq> c" s]
    by auto
  with Cons show ?thesis by (simp add: split_once_at_def)
qed

lemma split_once_at_append:
  "c \<notin> set l \<Longrightarrow> split_once_at c (l @ c # r) = Some (l, r)"
  by (induction l) (auto simp: split_once_at_def split: list.splits)

lemma split_once_at_SomeD:
  "split_once_at c s = Some (l, r) \<Longrightarrow> s = l @ c # r \<and> c \<notin> set l"
  by (induction s arbitrary: l) (auto simp: split_once_at_def split: list.splits if_splits)

lemma rsplit_once_at_append:
  "c \<notin> set r \<Longrightarrow> rsplit_once_at c (l @ c # r) = Some (l, r)"
  by (simp add: rsplit_once_at_def split_once_at_append)

lemma rsplit_once_at_SomeD:
  assumes "rsplit_once_at c s = Some (l, r)"
  shows "s = l @ c # r \<and> c \<notin> set r"
proof -
  from assms have "split_once_at c (rev s) = Some (rev r, rev l)"
    by (auto simp: rsplit_once_at_def split: option.splits)
  then have "rev s = rev r @ c # rev l" "c \<notin> set r"
    by (auto dest: split_once_at_SomeD)
  then show ?thesis by (metis append.assoc append_Cons append_Nil rev_append rev_rev_ident rev_singleton_conv rev.simps(2))
qed

lemma rsplit_once_at_None_iff [str_simps]: "rsplit_once_at c s = None \<longleftrightarrow> c \<notin> set s"
proof -
  have "rsplit_once_at c s = None \<longleftrightarrow> split_once_at c (rev s) = None"
    by (auto simp: rsplit_once_at_def split: option.splits)
  then show ?thesis by (simp add: split_once_at_None_iff)
qed

lemma strip_prefix_append [simp, str_simps]: "strip_prefix p (p @ s) = Some s"
  by (simp add: strip_prefix_def)

lemma strip_prefix_Nil [simp, str_simps]: "strip_prefix [] s = Some s"
  by (simp add: strip_prefix_def)

lemma strip_prefix_SomeD: "strip_prefix p s = Some r \<Longrightarrow> s = p @ r"
  by (auto simp: strip_prefix_def split: if_splits) (metis append_take_drop_id)

lemma strip_prefix_Cons [str_simps]:
  "strip_prefix [c] s = (case s of [] \<Rightarrow> None | d # r \<Rightarrow> if d = c then Some r else None)"
  by (cases s) (auto simp: strip_prefix_def)

lemma strip_suffix_append [simp, str_simps]: "strip_suffix p (s @ p) = Some s"
  by (simp add: strip_suffix_def)

lemma strip_suffix_SomeD: "strip_suffix p s = Some r \<Longrightarrow> s = r @ p"
  by (auto simp: strip_suffix_def dest!: strip_prefix_SomeD)
     (metis rev_append rev_rev_ident)

lemma ends_with_iff: "ends_with s p \<longleftrightarrow> (\<exists>r. s = r @ p)"
  by (auto simp: ends_with_def dest: strip_suffix_SomeD)

lemma starts_with_iff: "starts_with s p \<longleftrightarrow> (\<exists>r. s = p @ r)"
  by (auto simp: starts_with_def dest: strip_prefix_SomeD)

lemma split_on_not_Nil [simp]: "split_on c s \<noteq> []"
  by (induction s) (auto split: list.splits)

lemma split_on_no_sep: "c \<notin> set s \<Longrightarrow> split_on c s = [s]"
  by (induction s) auto

lemma split_on_append: "c \<notin> set l \<Longrightarrow> split_on c (l @ c # r) = l # split_on c r"
  by (induction l) auto

lemma to_ascii_lowercase_length [simp]: "length (to_ascii_lowercase s) = length s"
  by (simp add: to_ascii_lowercase_def)

lemma ascii_lower_char_idem [simp]: "ascii_lower_char (ascii_lower_char c) = ascii_lower_char c"
  by (auto simp: ascii_lower_char_def is_ascii_uppercase_def char_code_char_of)

lemma to_ascii_lowercase_idem [simp]:
  "to_ascii_lowercase (to_ascii_lowercase s) = to_ascii_lowercase s"
  by (simp add: to_ascii_lowercase_def)

lemma eq_ignore_ascii_case_refl [simp]: "eq_ignore_ascii_case s s"
  by (simp add: eq_ignore_ascii_case_def)

lemma str_chars_concat [simp]: "concat (str_chars s) = s"
  by (induction s rule: str_chars.induct) auto

lemma str_chars_ascii: "is_ascii_str s \<Longrightarrow> str_chars s = map (\<lambda>c. [c]) s"
  by (induction s) (auto simp: is_ascii_str_def utf8_len_def)

lemma is_ascii_str_simps [simp]:
  "is_ascii_str []"
  "is_ascii_str (c # s) \<longleftrightarrow> char_code c < 128 \<and> is_ascii_str s"
  "is_ascii_str (s @ t) \<longleftrightarrow> is_ascii_str s \<and> is_ascii_str t"
  by (auto simp: is_ascii_str_def)

lemma utf8_valid_ascii: "list_all (\<lambda>n. n < 128) ns \<Longrightarrow> utf8_valid ns"
  by (induction ns) auto

lemma str_valid_ascii: "is_ascii_str s \<Longrightarrow> str_valid s"
  by (simp add: str_valid_def is_ascii_str_def utf8_valid_ascii list_all_iff)

text \<open>
  The first character of well-formed UTF-8: the continuation bytes its first byte asks for, and
  well-formed text after them.
\<close>

definition utf8_more :: "nat \<Rightarrow> nat" where
  "utf8_more a = (if a < 128 then 0 else if a < 224 then 1 else if a < 240 then 2 else 3)"

definition utf8_head :: "nat \<Rightarrow> nat list \<Rightarrow> bool" where
  "utf8_head a h \<longleftrightarrow> length h = utf8_more a \<and> utf8_valid (a # h)"

lemma utf8_valid_Cons:
  "utf8_valid (a # r) \<longleftrightarrow> utf8_head a (take (utf8_more a) r) \<and> utf8_valid (drop (utf8_more a) r)"
proof -
  consider "a < 128" | "128 \<le> a" "a < 0xC2" | "0xC2 \<le> a" "a \<le> 0xDF" | "0xE0 \<le> a" "a \<le> 0xEF"
    | "0xF0 \<le> a" "a \<le> 0xF4" | "0xF4 < a" by linarith
  then show ?thesis
  proof cases
    case 3
    then show ?thesis by (cases r) (simp_all add: utf8_head_def utf8_more_def)
  next
    case 4
    then show ?thesis
      by (cases r; cases "tl r") (simp_all add: utf8_head_def utf8_more_def)
  next
    case 5
    then show ?thesis
      by (cases r; cases "tl r"; cases "tl (tl r)") (simp_all add: utf8_head_def utf8_more_def)
  qed (auto simp: utf8_head_def utf8_more_def)
qed

lemma utf8_head_high: "utf8_head a h \<Longrightarrow> b \<in> set h \<Longrightarrow> 128 \<le> b"
proof -
  assume h: "utf8_head a h" and b: "b \<in> set h"
  then have v: "utf8_valid (a # h)" "length h = utf8_more a"
    by (simp_all add: utf8_head_def del: utf8_valid.simps)
  have high: "h = [c] \<Longrightarrow> 128 \<le> c" "h = [c, d] \<Longrightarrow> 128 \<le> c \<and> 128 \<le> d"
    "h = [c, d, e] \<Longrightarrow> 128 \<le> c \<and> 128 \<le> d \<and> 128 \<le> e" for c d e
    using v by (auto simp: utf8_cont_def utf8_more_def split: if_splits)
  have "length h \<le> 3" using v(2) by (simp add: utf8_more_def split: if_splits)
  then consider "h = []" | c where "h = [c]" | c d where "h = [c, d]" | c d e where "h = [c, d, e]"
    by (cases h; cases "tl h"; cases "tl (tl h)") auto
  then show ?thesis using b high by cases auto
qed

lemma utf8_valid_snoc: "utf8_valid (ns @ [n]) \<Longrightarrow> n < 128 \<Longrightarrow> utf8_valid ns"
proof (induction "length ns" arbitrary: ns rule: less_induct)
  case less
  show ?case
  proof (cases ns)
    case (Cons a r)
    let ?k = "utf8_more a"
    have v: "utf8_head a (take ?k (r @ [n]))" "utf8_valid (drop ?k (r @ [n]))"
      using less.prems(1) utf8_valid_Cons [of a "r @ [n]"] by (simp_all add: Cons del: utf8_valid.simps)
    have k: "?k \<le> length r"
    proof (rule ccontr)
      assume "\<not> ?k \<le> length r"
      then have "n \<in> set (take ?k (r @ [n]))" by simp
      with utf8_head_high [OF v(1)] less.prems(2) show False by fastforce
    qed
    then have "utf8_valid (drop ?k r)"
      using less.hyps [of "drop ?k r"] v(2) less.prems(2) by (simp add: Cons)
    then show ?thesis using v(1) k by (simp add: Cons utf8_valid_Cons del: utf8_valid.simps)
  qed simp
qed

lemma utf8_len_more: "utf8_len c - Suc 0 = utf8_more (char_code c)"
  by (simp add: utf8_len_def utf8_more_def Let_def)

lemma str_chars_has_ascii:
  "str_valid s \<Longrightarrow> c \<in> set s \<Longrightarrow> char_code c < 128 \<Longrightarrow> [c] \<in> set (str_chars s)"
proof (induction s rule: str_chars.induct)
  case step: (2 d cs)
  let ?k = "utf8_more (char_code d)"
  have v: "utf8_head (char_code d) (take ?k (map char_code cs))"
    "utf8_valid (drop ?k (map char_code cs))"
    using step.prems(1) utf8_valid_Cons [of "char_code d" "map char_code cs"]
    by (simp_all add: str_valid_def del: utf8_valid.simps)
  have "c \<notin> set (take ?k cs)"
    using utf8_head_high [OF v(1), of "char_code c"] step.prems(3) by (auto simp: take_map)
  then consider "c = d" | "c \<in> set (drop ?k cs)"
    using step.prems(2) by (metis append_take_drop_id Un_iff set_append set_ConsD)
  then show ?case
  proof cases
    case 1
    then show ?thesis using step.prems(3) by (simp add: utf8_len_def)
  next
    case 2
    then show ?thesis using step.IH v(2) step.prems(3)
      by (simp add: utf8_len_more str_valid_def drop_map)
  qed
qed simp

text \<open>A string of visible ASCII bytes is its own trimmed form.\<close>

definition is_graphic_str :: "string \<Rightarrow> bool" where
  "is_graphic_str s = list_all (\<lambda>c. 32 < char_code c \<and> char_code c < 127) s"

lemma str_trim_graphic: "is_graphic_str s \<Longrightarrow> str_trim s = s"
proof -
  assume g: "is_graphic_str s"
  then have "is_ascii_str s"
    by (auto simp: is_graphic_str_def is_ascii_str_def list_all_iff)
  then have chars: "str_chars s = map (\<lambda>c. [c]) s"
    by (rule str_chars_ascii)
  have nows: "\<not> char_is_whitespace u" if "u \<in> set (str_chars s)" for u
    using g that by (auto simp: chars is_graphic_str_def list_all_iff char_is_whitespace_def)
  have "dropWhile char_is_whitespace (str_chars s) = str_chars s"
    by (rule dropWhile_eq_self_iff [THEN iffD2]) (use nows in \<open>auto\<close>)
  moreover have "dropWhile char_is_whitespace (rev (str_chars s)) = rev (str_chars s)"
    by (rule dropWhile_eq_self_iff [THEN iffD2]) (use nows in \<open>auto simp: hd_rev\<close>)
  ultimately show ?thesis by (simp add: str_trim_def)
qed

end
