(* ===== verification/Wire_Bytes.thy ===== *)
theory Wire_Bytes
  imports Prelude
begin

text \<open>
  Byte buffers. \<^verbatim>\<open>Bytes\<close>, \<^verbatim>\<open>BytesMut\<close> and \<^verbatim>\<open>&[u8]\<close> are lists of bytes; appending to a
  buffer is list append. \<open>be_bytes\<close> is the big-endian layout that \<^verbatim>\<open>put_u16\<close>,
  \<^verbatim>\<open>put_u32\<close>, \<^verbatim>\<open>put_u64\<close> and \<^verbatim>\<open>octets()\<close> produce and \<open>be_word\<close> its inverse.
  The two locales state what a wire format promises its callers: a decoder that returns what was
  encoded together with the untouched rest, and one whose answer does not depend on how many
  further bytes have already arrived.
\<close>

subsection \<open>Big-endian integers\<close>

definition be_bytes :: "nat \<Rightarrow> 'a::len word \<Rightarrow> bytes" where
  "be_bytes n w = map (\<lambda>i. ucast (drop_bit (8 * i) w)) (rev [0..<n])"

definition be_nat :: "bytes \<Rightarrow> nat" where
  "be_nat bs = foldl (\<lambda>v b. v * 256 + unat b) 0 bs"

definition be_word :: "bytes \<Rightarrow> 'a::len word" where
  "be_word bs = of_nat (be_nat bs)"

definition put_u8 :: "u8 \<Rightarrow> bytes \<Rightarrow> bytes" where
  "put_u8 w out = out @ [w]"

definition put_u16 :: "u16 \<Rightarrow> bytes \<Rightarrow> bytes" where
  "put_u16 w out = out @ be_bytes 2 w"

definition put_u32 :: "u32 \<Rightarrow> bytes \<Rightarrow> bytes" where
  "put_u32 w out = out @ be_bytes 4 w"

definition put_u64 :: "u64 \<Rightarrow> bytes \<Rightarrow> bytes" where
  "put_u64 w out = out @ be_bytes 8 w"

lemma be_nat_Nil [simp]: "be_nat [] = 0"
  by (simp add: be_nat_def)

lemma be_nat_snoc [simp]: "be_nat (bs @ [b]) = be_nat bs * 256 + unat b"
  by (simp add: be_nat_def)

lemma be_nat_append: "be_nat (as @ bs) = be_nat as * 256 ^ length bs + be_nat bs"
proof (induction bs rule: rev_induct)
  case Nil
  show ?case by simp
next
  case (snoc b bs)
  have "be_nat (as @ bs @ [b]) = be_nat ((as @ bs) @ [b])" by simp
  also have "\<dots> = be_nat (as @ bs) * 256 + unat b" by (rule be_nat_snoc)
  finally show ?case by (simp add: snoc.IH algebra_simps)
qed

lemma be_nat_Cons: "be_nat (b # bs) = unat b * 256 ^ length bs + be_nat bs"
  using be_nat_append [of "[b]" bs] by (simp add: be_nat_def)

lemma u8_unat_less: "unat (b :: u8) < 256"
  using unsigned_less [of b, where 'a = nat] by simp

lemma be_nat_less: "be_nat bs < 256 ^ length bs"
proof (induction bs rule: rev_induct)
  case Nil
  show ?case by simp
next
  case (snoc b bs)
  have "be_nat bs * 256 + unat b < (be_nat bs + 1) * 256" using u8_unat_less [of b] by simp
  also have "\<dots> \<le> 256 ^ length bs * 256" using snoc.IH by (intro mult_right_mono) auto
  finally show ?case by (simp add: mult.commute)
qed

lemma be_bytes_length [simp]: "length (be_bytes n w) = n"
  by (simp add: be_bytes_def)

lemma be_bytes_0 [simp]: "be_bytes 0 w = []"
  by (simp add: be_bytes_def)

lemma be_bytes_Suc: "be_bytes (Suc n) w = ucast (drop_bit (8 * n) w) # be_bytes n w"
  by (simp add: be_bytes_def)

lemma unat_byte_of: "unat (ucast (drop_bit k (w :: 'a::len word)) :: u8) = unat w div 2 ^ k mod 256"
proof -
  have "unat (ucast (drop_bit k w) :: u8) = unat (drop_bit k w) mod 256"
    by (simp add: unsigned_ucast_eq take_bit_eq_mod)
  also have "unat (drop_bit k w) = unat w div 2 ^ k"
    by (simp only: unat_drop_bit_eq) (simp only: drop_bit_eq_div)
  finally show ?thesis .
qed

lemma be_nat_be_bytes: "be_nat (be_bytes n w) = unat w mod 256 ^ n"
proof (induction n)
  case 0
  show ?case by simp
next
  case (Suc n)
  have p: "(2::nat) ^ (8 * n) = 256 ^ n" by (simp add: power_mult)
  have "be_nat (be_bytes (Suc n) w) = unat w div 256 ^ n mod 256 * 256 ^ n + unat w mod 256 ^ n"
    by (simp add: be_bytes_Suc be_nat_Cons unat_byte_of p Suc.IH)
  also have "\<dots> = unat w mod (256 ^ n * 256)"
    by (simp only: mod_mult2_eq) simp
  finally show ?case by (simp add: mult.commute)
qed

lemma be_word_be_bytes:
  assumes "LENGTH('a) \<le> 8 * n"
  shows "be_word (be_bytes n (w :: 'a::len word)) = w"
proof -
  have "unat w < 2 ^ LENGTH('a)" by (rule unsigned_less)
  also have "(2::nat) ^ LENGTH('a) \<le> 2 ^ (8 * n)" using assms by (intro power_increasing) auto
  finally have "unat w < 256 ^ n" by (simp add: power_mult)
  then show ?thesis by (simp add: be_word_def be_nat_be_bytes)
qed

lemma be_nat_inject:
  "length as = length bs \<Longrightarrow> be_nat as = be_nat bs \<Longrightarrow> as = bs"
proof (induction as arbitrary: bs rule: rev_induct)
  case Nil
  then show ?case by simp
next
  case (snoc a as)
  then obtain b cs where bs: "bs = cs @ [b]" "length cs = length as"
    by (cases bs rule: rev_cases) auto
  have eq: "be_nat as * 256 + unat a = be_nat cs * 256 + unat b"
    using snoc.prems bs by simp
  have "unat a = unat b"
    using arg_cong [OF eq, of "\<lambda>n. n mod 256"] by (simp add: mod_less u8_unat_less)
  moreover from this eq have "be_nat as = be_nat cs" by simp
  ultimately show ?case using snoc.IH [of cs] bs by (simp add: word_unat_eq_iff)
qed

lemma be_bytes_be_word:
  assumes "length bs = n" "8 * n \<le> LENGTH('a)"
  shows "be_bytes n (be_word bs :: 'a::len word) = bs"
proof (rule be_nat_inject)
  have "be_nat bs < 2 ^ (8 * n)" using be_nat_less [of bs] assms by (simp add: power_mult)
  also have "\<dots> \<le> (2::nat) ^ LENGTH('a)" using assms by (intro power_increasing) auto
  finally have "unat (of_nat (be_nat bs) :: 'a word) = be_nat bs"
    by (simp add: unat_of_nat take_bit_eq_mod)
  then show "be_nat (be_bytes n (be_word bs :: 'a word)) = be_nat bs"
    using be_nat_less [of bs] assms by (simp add: be_nat_be_bytes be_word_def)
qed (simp add: assms)

lemma unat_word_or_disjoint:
  "a AND b = 0 \<Longrightarrow> unat a + unat b < 2 ^ LENGTH('a) \<Longrightarrow> unat (a OR b) = unat a + unat (b :: 'a::len word)"
  by (metis disjunctive_add_eq_or unat_add_lem)

subsection \<open>Strings as bytes\<close>

definition as_bytes :: "string \<Rightarrow> bytes" where
  "as_bytes s = map (\<lambda>c. of_nat (char_code c)) s"

definition from_bytes :: "bytes \<Rightarrow> string" where
  "from_bytes b = map (\<lambda>w. char_of (unat w)) b"

lemma from_bytes_as_bytes [simp]: "from_bytes (as_bytes s) = s"
proof -
  have "unat (of_nat (char_code c) :: u8) = char_code c" for c by (simp add: unat_of_nat)
  then show ?thesis by (simp add: from_bytes_def as_bytes_def comp_def)
qed

lemma as_bytes_inject: "as_bytes a = as_bytes b \<longleftrightarrow> a = b"
  by (metis from_bytes_as_bytes)

lemma as_bytes_from_bytes [simp]: "as_bytes (from_bytes b) = b"
  by (simp add: from_bytes_def as_bytes_def comp_def char_code_char_of u8_unat_less)

lemma length_as_bytes [simp]: "length (as_bytes s) = length s" "length (from_bytes b) = length b"
  by (simp_all add: as_bytes_def from_bytes_def)

subsection \<open>Contracts of wire formats\<close>

locale prefix_codec =
  fixes enc :: "'a \<Rightarrow> 'b list"
    and dec :: "'b list \<Rightarrow> 'e + ('a \<times> 'b list)"
    and valid :: "'a \<Rightarrow> bool"
  assumes dec_enc: "valid v \<Longrightarrow> dec (enc v @ rest) = Inr (v, rest)"
begin

lemma enc_inject: "valid v \<Longrightarrow> valid w \<Longrightarrow> enc v = enc w \<Longrightarrow> v = w"
  using dec_enc [of v "[]"] dec_enc [of w "[]"] by simp

lemma enc_prefix_free:
  assumes "valid v" "valid w" "enc v @ r = enc w @ s"
  shows "v = w \<and> r = s"
proof -
  have "dec (enc w @ s) = Inr (v, r)" using dec_enc [OF assms(1), of r] by (simp only: assms(3))
  then show ?thesis using dec_enc [OF assms(2), of s] by simp
qed

end

text \<open>
  A decoder for a stream: an answer is final, whatever arrives behind it, and an answer consumes
  at least one byte.
\<close>

locale stream_decoder =
  fixes step :: "'b list \<Rightarrow> 'e + ('a \<times> 'b list) option"
    and drain :: "'b list \<Rightarrow> 'a list \<times> 'b list \<times> 'e option"
  assumes step_more: "step b = Inr (Some (v, r)) \<Longrightarrow> step (b @ x) = Inr (Some (v, r @ x))"
    and step_err_more: "step b = Inl e \<Longrightarrow> step (b @ x) = Inl e"
    and step_shrinks: "step b = Inr (Some (v, r)) \<Longrightarrow> length r < length b"
    and drain_eq: "drain b = (case step b of
          Inl e \<Rightarrow> ([], b, Some e)
        | Inr None \<Rightarrow> ([], b, None)
        | Inr (Some (v, r)) \<Rightarrow> (case drain r of (vs, rest, e) \<Rightarrow> (v # vs, rest, e)))"
begin

lemma drain_append:
  "drain (b @ x) = (case drain b of
      (vs, r, Some e) \<Rightarrow> (vs, r @ x, Some e)
    | (vs, r, None) \<Rightarrow> (case drain (r @ x) of (ws, r', e) \<Rightarrow> (vs @ ws, r', e)))"
proof (induction b rule: length_induct)
  case (1 b)
  consider (err) e where "step b = Inl e" | (wait) "step b = Inr None"
    | (item) v r where "step b = Inr (Some (v, r))"
    by (metis old.sum.exhaust option.exhaust surj_pair)
  then show ?case
  proof cases
    case err
    then show ?thesis by (simp add: drain_eq [of b] drain_eq [of "b @ x"] step_err_more)
  next
    case wait
    then show ?thesis by (simp add: drain_eq [of b] split: prod.splits)
  next
    case item
    then have "drain (r @ x) = (case drain r of
        (vs, s, Some e) \<Rightarrow> (vs, s @ x, Some e)
      | (vs, s, None) \<Rightarrow> (case drain (s @ x) of (ws, r', e) \<Rightarrow> (vs @ ws, r', e)))"
      using 1 step_shrinks by blast
    then show ?thesis
      using item
      by (simp add: drain_eq [of b] drain_eq [of "b @ x"] step_more split: prod.splits option.splits)
  qed
qed

lemma drain_rest_waits: "drain b = (vs, r, None) \<Longrightarrow> step r = Inr None"
proof (induction b arbitrary: vs rule: length_induct)
  case (1 b)
  then show ?case
    by (subst (asm) (2) drain_eq) (auto split: sum.splits option.splits prod.splits dest: step_shrinks)
qed

end

end
