(* ===== verification/Varint.thy ===== *)
theory Varint
  imports Wire_Bytes
begin

text \<open>
  QUIC variable-length integers, \<^verbatim>\<open>src/crates/skimasque-core/src/varint.rs\<close>. The two high
  bits of the first byte give the length, 1, 2, 4 or 8. A value is a 64-bit word; an input slice
  is a byte list, and the \<open>take\<close> functions, which advance their input on success only, return
  the remaining bytes.
\<close>

datatype varint_error = Varint_Overflow u64 | Varint_UnexpectedEnd

definition varint_MAX :: u64 where
  "varint_MAX = push_bit 62 1 - 1"

definition varint_encoded_len :: "u64 \<Rightarrow> nat" where
  "varint_encoded_len value =
     (if value < push_bit 6 1 then 1
      else if value < push_bit 14 1 then 2
      else if value < push_bit 30 1 then 4
      else 8)"

definition varint_encode :: "u64 \<Rightarrow> bytes \<Rightarrow> varint_error + bytes" where
  "varint_encode value out =
     (if value > varint_MAX then Inl (Varint_Overflow value)
      else Inr
        (let n = varint_encoded_len value in
         if n = 1 then put_u8 (ucast value) out
         else if n = 2 then put_u16 (ucast value OR push_bit 14 1) out
         else if n = 4 then put_u32 (ucast value OR push_bit 30 2) out
         else put_u64 (value OR push_bit 62 3) out))"

definition varint_decode_slice :: "bytes \<Rightarrow> varint_error + (u64 \<times> nat)" where
  "varint_decode_slice input =
     (case input of
        [] \<Rightarrow> Inl Varint_UnexpectedEnd
      | first # _ \<Rightarrow>
          (let len = 2 ^ unat (drop_bit 6 first) in
           if length input < len then Inl Varint_UnexpectedEnd
           else Inr (foldl (\<lambda>value byte. push_bit 8 value OR ucast byte)
                       (ucast (first AND 0x3f)) (take (len - 1) (drop 1 input)), len)))"

definition varint_take_slice :: "bytes \<Rightarrow> varint_error + (u64 \<times> bytes)" where
  "varint_take_slice input =
     (case varint_decode_slice input of
        Inl e \<Rightarrow> Inl e
      | Inr (value, len) \<Rightarrow> Inr (value, drop len input))"

text \<open>\<^verbatim>\<open>take\<close> works on an owned buffer; on failure the buffer is left as it was.\<close>

definition varint_take :: "bytes \<Rightarrow> (varint_error + u64) \<times> bytes" where
  "varint_take buf =
     (case varint_decode_slice buf of
        Inl e \<Rightarrow> (Inl e, buf)
      | Inr (value, len) \<Rightarrow> (Inr value, drop len buf))"

text \<open>The bytes one value takes, for a value that fits.\<close>

definition varint_bytes :: "u64 \<Rightarrow> bytes" where
  "varint_bytes value = (case varint_encode value [] of Inr bs \<Rightarrow> bs | Inl _ \<Rightarrow> [])"

subsection \<open>Arithmetic reading of the decoder\<close>

lemma shift_in_byte:
  assumes "unat (v :: u64) < 2 ^ 56"
  shows "unat (push_bit 8 v OR ucast (b :: u8)) = unat v * 256 + unat b"
proof -
  have p: "unat (push_bit 8 v) = unat v * 256"
    using assms by (simp only: unsigned_push_bit_eq) (simp add: push_bit_eq_mult take_bit_eq_mod)
  have u: "unat (ucast b :: u64) = unat b"
    using u8_unat_less [of b] by (simp add: unsigned_ucast_eq take_bit_eq_mod)
  have "push_bit 8 v AND ucast b = 0"
    by (rule bit_word_eqI) (auto simp: bit_simps dest: bit_imp_le_length)
  then show ?thesis
    using assms u8_unat_less [of b] by (subst unat_word_or_disjoint) (simp_all add: p u)
qed

lemma foldl_shift_in:
  assumes "length bs \<le> 7" "unat (v :: u64) < 2 ^ (8 * (8 - length bs))"
  shows "unat (foldl (\<lambda>value byte. push_bit 8 value OR ucast byte) v bs) =
    unat v * 256 ^ length bs + be_nat bs"
  using assms
proof (induction bs arbitrary: v)
  case Nil
  then show ?case by simp
next
  case (Cons b bs)
  have le: "8 * (8 - length (b # bs)) \<le> 56" by simp
  have v: "unat v < 2 ^ 56"
    using Cons.prems(2) power_increasing [OF le, of "2::nat"] by linarith
  let ?w = "push_bit 8 v OR ucast b :: u64"
  have w: "unat ?w = unat v * 256 + unat b" by (rule shift_in_byte [OF v])
  have "8 * (8 - length bs) = 8 * (8 - length (b # bs)) + 8" using Cons.prems(1) by simp
  then have "(2::nat) ^ (8 * (8 - length bs)) = 2 ^ (8 * (8 - length (b # bs))) * 256"
    by (simp only: power_add) simp
  then have "unat ?w < 2 ^ (8 * (8 - length bs))"
    using Cons.prems(2) u8_unat_less [of b] unfolding w by linarith
  then show ?case using Cons.IH [of ?w] Cons.prems(1)
    by (simp add: w be_nat_Cons algebra_simps)
qed

lemma first_byte_parts:
  "unat (drop_bit 6 (b :: u8)) = unat b div 64"
  "unat (ucast (b AND 0x3f) :: u64) = unat b mod 64"
proof -
  show "unat (drop_bit 6 b) = unat b div 64"
    by (simp only: unat_drop_bit_eq) (simp add: drop_bit_eq_div)
  have "b AND 0x3f = take_bit 6 b"
    by (simp add: take_bit_eq_mask mask_eq_exp_minus_1)
  then show "unat (ucast (b AND 0x3f) :: u64) = unat b mod 64"
    by (simp add: unsigned_ucast_eq take_bit_eq_mod unat_mod_distrib)
qed

lemma varint_decode_be:
  assumes "length (b # bs) = 2 ^ (unat b div 64)"
  shows "varint_decode_slice ((b # bs) @ rest) =
    Inr (of_nat (be_nat (b # bs) mod 2 ^ (8 * length (b # bs) - 2)), length (b # bs))"
proof -
  let ?n = "length bs"
  let ?f = "foldl (\<lambda>value byte. push_bit 8 value OR ucast byte) (ucast (b AND 0x3f) :: u64) bs"
  have "unat b div 64 \<le> 3" using u8_unat_less [of b] by linarith
  then have "unat b div 64 \<in> {0, 1, 2, 3}" by auto
  then have n: "?n \<in> {0, 1, 3, 7}" using assms by auto
  have "unat b mod 64 < 64" by simp
  also have "(64::nat) < 2 ^ (8 * (8 - ?n))" using n by auto
  finally have "unat ?f = unat b mod 64 * 256 ^ ?n + be_nat bs"
    using n foldl_shift_in [of bs "ucast (b AND 0x3f)"] by (auto simp: first_byte_parts)
  moreover have "be_nat (b # bs) mod (64 * 256 ^ ?n) = unat b mod 64 * 256 ^ ?n + be_nat bs"
  proof -
    have "be_nat (b # bs) mod (256 ^ ?n * 64) =
        256 ^ ?n * (be_nat (b # bs) div 256 ^ ?n mod 64) + be_nat (b # bs) mod 256 ^ ?n"
      by (rule mod_mult2_eq)
    then show ?thesis using be_nat_less [of bs] by (simp add: be_nat_Cons mult.commute)
  qed
  moreover have "(64::nat) * 256 ^ ?n = 2 ^ (8 * length (b # bs) - 2)" using n by auto
  moreover have "?f = of_nat (unat ?f)" by simp
  ultimately have "?f = of_nat (be_nat (b # bs) mod 2 ^ (8 * length (b # bs) - 2))" by argo
  moreover have "2 ^ (unat b div 64) = Suc ?n" using assms by simp
  ultimately show ?thesis
    by (simp add: varint_decode_slice_def Let_def first_byte_parts)
qed

subsection \<open>Shape of an encoding\<close>

text \<open>A tagged word of \<open>n = 2 ^ k\<close> bytes: the tag \<open>k\<close> sits above \<open>8 * n - 2\<close> value bits.\<close>

lemma unat_tagged:
  assumes "unat v < 2 ^ m" "m + 2 = LENGTH('a)" "k < 4" "LENGTH('a) \<le> 64"
  shows "unat ((ucast (v :: u64) :: 'a::len word) OR push_bit m (of_nat k)) = unat v + k * 2 ^ m"
proof -
  have L: "(2::nat) ^ LENGTH('a) = 4 * 2 ^ m" by (simp flip: assms(2))
  have u: "unat (ucast v :: 'a word) = unat v"
    using assms L by (simp add: unsigned_ucast_eq take_bit_eq_mod)
  have k: "k * 2 ^ m < (2::nat) ^ LENGTH('a)" using assms(3) L by simp
  then have p: "unat (push_bit m (of_nat k) :: 'a word) = k * 2 ^ m"
    using assms(3) L less_le_trans [of k 4 "2 ^ LENGTH('a)"]
    by (simp only: unsigned_push_bit_eq)
       (simp add: push_bit_eq_mult take_bit_eq_mod unat_of_nat mod_less)
  have "(ucast v :: 'a word) AND push_bit m (of_nat k) = 0"
  proof (rule bit_word_eqI)
    fix i
    have "\<not> bit (unat v) i" if "m \<le> i"
    proof -
      have "(2::nat) ^ m \<le> 2 ^ i" using that by (intro power_increasing) auto
      then have "unat v div 2 ^ i = 0" using assms(1) by (intro div_less) linarith
      then show ?thesis by (simp only: bit_iff_odd) simp
    qed
    then show "bit ((ucast v :: 'a word) AND push_bit m (of_nat k)) i = bit (0 :: 'a word) i"
      by (auto simp: bit_simps)
  qed
  moreover have "unat v + k * 2 ^ m < 2 ^ LENGTH('a)"
  proof -
    have "unat v + k * 2 ^ m < (1 + k) * 2 ^ m" using assms(1) by simp
    also have "\<dots> \<le> 4 * 2 ^ m" using assms(3) by (intro mult_right_mono) auto
    finally show ?thesis by (simp add: L)
  qed
  ultimately show ?thesis by (subst unat_word_or_disjoint) (simp_all add: u p)
qed

lemma varint_MAX_le: "value > varint_MAX \<longleftrightarrow> \<not> unat value < 2 ^ 62"
  by (auto simp: varint_MAX_def word_less_nat_alt not_less)

lemma varint_encode_Inl:
  "unat value \<ge> 2 ^ 62 \<Longrightarrow> varint_encode value out = Inl (Varint_Overflow value)"
  by (simp add: varint_encode_def varint_MAX_le)

lemma varint_encode_shape:
  assumes "unat value < 2 ^ 62"
  obtains k where "varint_encoded_len value = 2 ^ k" "k < 4" "unat value < 2 ^ (8 * 2 ^ k - 2)"
    "varint_encode value out = Inr (out @ varint_bytes value)"
    "length (varint_bytes value) = 2 ^ k"
    "be_nat (varint_bytes value) = unat value + k * 2 ^ (8 * 2 ^ k - 2)"
proof -
  have fits: "\<not> value > varint_MAX" using assms by (simp add: varint_MAX_le)
  have mod8: "unat value mod 256 = unat value" if "unat value < 64" using that by simp
  consider "unat value < 2 ^ 6" | "2 ^ 6 \<le> unat value" "unat value < 2 ^ 14"
    | "2 ^ 14 \<le> unat value" "unat value < 2 ^ 30" | "2 ^ 30 \<le> unat value" "unat value < 2 ^ 62"
    using assms by linarith
  then show ?thesis
  proof cases
    case 1
    then have "varint_encoded_len value = 1"
      by (simp add: varint_encoded_len_def word_less_nat_alt)
    then show ?thesis using 1 fits
      by (intro that [of 0])
         (simp_all add: varint_encode_def varint_bytes_def put_u8_def be_nat_def
           unsigned_ucast_eq take_bit_eq_mod)
  next
    case 2
    then have "varint_encoded_len value = 2"
      by (simp add: varint_encoded_len_def word_less_nat_alt)
    then show ?thesis using 2 fits unat_tagged [of "value" 14 1, where 'a = 16]
      by (intro that [of 1])
         (simp_all add: varint_encode_def varint_bytes_def put_u16_def be_nat_be_bytes)
  next
    case 3
    then have "varint_encoded_len value = 4"
      by (simp add: varint_encoded_len_def word_less_nat_alt)
    then show ?thesis using 3 fits unat_tagged [of "value" 30 2, where 'a = 32]
      by (intro that [of 2])
         (simp_all add: varint_encode_def varint_bytes_def put_u32_def be_nat_be_bytes)
  next
    case 4
    then have "varint_encoded_len value = 8"
      by (simp add: varint_encoded_len_def word_less_nat_alt)
    then show ?thesis using 4 fits unat_tagged [of "value" 62 3, where 'a = 64]
      by (intro that [of 3])
         (simp_all add: varint_encode_def varint_bytes_def put_u64_def be_nat_be_bytes)
  qed
qed

lemma varint_roundtrip:
  assumes "unat value < 2 ^ 62"
  shows "varint_decode_slice (varint_bytes value @ rest) = Inr (value, varint_encoded_len value)"
proof -
  from assms obtain k where k: "varint_encoded_len value = 2 ^ k" "k < 4"
      "unat value < 2 ^ (8 * 2 ^ k - 2)" "length (varint_bytes value) = 2 ^ k"
      "be_nat (varint_bytes value) = unat value + k * 2 ^ (8 * 2 ^ k - 2)"
    by (rule varint_encode_shape)
  then obtain b bs where b: "varint_bytes value = b # bs" by (cases "varint_bytes value") auto
  have tag: "unat b div 64 = k"
  proof -
    let ?n = "length bs"
    have "Suc ?n = 2 ^ k" using k(4) b by simp
    then have e: "(2::nat) ^ (8 * 2 ^ k - 2) = 64 * 256 ^ ?n"
      by (simp flip: \<open>Suc ?n = 2 ^ k\<close> add: power_add power_mult)
    have "be_nat (b # bs) div (256 ^ ?n * 64) = unat b div 64"
      using be_nat_less [of bs] by (simp add: div_mult2_eq be_nat_Cons)
    moreover have "be_nat (b # bs) div (256 ^ ?n * 64) = k"
      using k(3, 5) unfolding b e by (simp add: mult.commute)
    ultimately show ?thesis by simp
  qed
  have "be_nat (b # bs) mod 2 ^ (8 * 2 ^ k - 2) = unat value" using k(3, 5) b by simp
  then show ?thesis
    using varint_decode_be [of b bs rest] k b tag by simp
qed

lemma varint_bytes_length:
  "unat value < 2 ^ 62 \<Longrightarrow> length (varint_bytes value) = varint_encoded_len value"
  by (erule varint_encode_shape) simp

lemma varint_encode_Inr:
  "unat value < 2 ^ 62 \<Longrightarrow> varint_encode value out = Inr (out @ varint_bytes value)"
  by (erule varint_encode_shape)

lemma varint_take_roundtrip:
  "unat value < 2 ^ 62 \<Longrightarrow> varint_take_slice (varint_bytes value @ rest) = Inr (value, rest)"
  by (simp add: varint_take_slice_def varint_roundtrip flip: varint_bytes_length)

interpretation varint: prefix_codec varint_bytes varint_take_slice "\<lambda>v. unat v < 2 ^ 62"
  by unfold_locales (rule varint_take_roundtrip)

lemma varint_decode_Inr_length:
  "varint_decode_slice input = Inr (v, n) \<Longrightarrow> 0 < n \<and> n \<le> length input \<and> n \<le> 8"
proof (cases input)
  case (Cons b bs)
  assume "varint_decode_slice input = Inr (v, n)"
  then have n: "n = 2 ^ (unat b div 64)" "n \<le> length input"
    using Cons by (auto simp: varint_decode_slice_def Let_def first_byte_parts split: if_splits)
  have "unat b div 64 \<le> 3" using u8_unat_less [of b] by linarith
  then have "(2::nat) ^ (unat b div 64) \<le> 2 ^ 3" by (intro power_increasing) auto
  with n show ?thesis by simp
qed (simp add: varint_decode_slice_def)

lemma varint_decode_more:
  assumes "varint_decode_slice input = Inr (v, n)"
  shows "varint_decode_slice (input @ more) = Inr (v, n)"
proof (cases input)
  case (Cons b bs)
  then show ?thesis using assms
    by (auto simp: varint_decode_slice_def Let_def split: if_splits)
qed (use assms in \<open>simp add: varint_decode_slice_def\<close>)

lemma varint_decode_take:
  assumes "varint_decode_slice input = Inr (v, n)"
  shows "varint_decode_slice (take n input) = Inr (v, n)"
proof (cases input)
  case (Cons b bs)
  then show ?thesis using assms
    by (auto simp: varint_decode_slice_def Let_def take_Cons' split: if_splits)
qed (use assms in \<open>simp add: varint_decode_slice_def\<close>)

lemma varint_decode_bounded:
  assumes "varint_decode_slice input = Inr (v, n)"
  shows "unat v < 2 ^ 62 \<and> n \<in> {1, 2, 4, 8}"
proof (cases input)
  case (Cons b bs)
  then have n: "n = 2 ^ (unat b div 64)" "n \<le> length input"
    using assms by (auto simp: varint_decode_slice_def Let_def first_byte_parts split: if_splits)
  have "unat b div 64 \<le> 3" using u8_unat_less [of b] by linarith
  then have "unat b div 64 \<in> {0, 1, 2, 3}" by auto
  then have n8: "n \<in> {1, 2, 4, 8}" using n(1) by auto
  obtain cs where t: "take n input = b # cs" using Cons n8 by (cases n) auto
  have "length (b # cs) = 2 ^ (unat b div 64)"
    using arg_cong [OF t, of length] n by simp
  with varint_decode_be [of b cs "[]"] varint_decode_take [OF assms] t
  have v: "v = of_nat (be_nat (b # cs) mod 2 ^ (8 * length (b # cs) - 2))"
      and "length (b # cs) = n"
    by auto
  have "(2::nat) ^ (8 * length (b # cs) - 2) \<le> 2 ^ 62"
    using n8 \<open>length (b # cs) = n\<close> by (intro power_increasing) auto
  then have "be_nat (b # cs) mod 2 ^ (8 * length (b # cs) - 2) < 2 ^ 62"
    by (meson less_le_trans mod_less_divisor zero_less_numeral zero_less_power)
  then show ?thesis using n8 v by (simp add: unat_of_nat)
qed (use assms in \<open>simp add: varint_decode_slice_def\<close>)

lemma varint_decode_Inl:
  "varint_decode_slice input = Inl e \<longleftrightarrow>
     e = Varint_UnexpectedEnd \<and> (input = [] \<or> length input < 2 ^ (unat (hd input) div 64))"
  by (cases input) (auto simp: varint_decode_slice_def Let_def first_byte_parts)

subsection \<open>Properties\<close>

text \<open>
  Encoding and decoding agree on every 64-bit value: a value above \<open>2 ^ 62 - 1\<close> is refused
  with its overflow error, and any other value is encoded in \<open>varint_encoded_len\<close> bytes from
  which \<open>varint_take_slice\<close>, whatever bytes follow, recovers the value and exactly those
  following bytes.
\<close>

theorem varint_encode_decode:
  "case varint_encode v [] of
     Inl e \<Rightarrow> 2 ^ 62 \<le> unat v \<and> e = Varint_Overflow v
   | Inr bs \<Rightarrow> unat v < 2 ^ 62 \<and> length bs = varint_encoded_len v \<and>
       varint_take_slice (bs @ rest) = Inr (v, rest)"
proof (cases "unat v < 2 ^ 62")
  case True
  then show ?thesis
    by (simp add: varint_encode_Inr varint_bytes_length varint.dec_enc)
next
  case False
  then show ?thesis by (simp add: varint_encode_Inl)
qed

text \<open>
  \<open>varint_take\<close> on any buffer: it fails exactly when the buffer is shorter than the length
  its first byte announces, and then leaves the buffer untouched; otherwise it removes exactly 1,
  2, 4 or 8 bytes and returns a value below \<open>2 ^ 62\<close>.
\<close>

theorem varint_take_total:
  "case varint_take buf of
     (Inl e, b) \<Rightarrow> b = buf \<and> e = Varint_UnexpectedEnd \<and>
       (buf = [] \<or> length buf < 2 ^ (unat (hd buf) div 64))
   | (Inr v, b) \<Rightarrow> unat v < 2 ^ 62 \<and>
       (\<exists>n \<in> {1, 2, 4, 8}. n \<le> length buf \<and> b = drop n buf)"
proof (cases "varint_decode_slice buf")
  case (Inl e)
  then show ?thesis using varint_decode_Inl [of buf e] by (simp add: varint_take_def)
next
  case (Inr vn)
  then obtain v n where "varint_decode_slice buf = Inr (v, n)" by (cases vn) auto
  then show ?thesis
    using varint_decode_bounded [of buf v n] varint_decode_Inr_length [of buf v n]
    by (auto simp: varint_take_def)
qed

end
