(* ===== verification/Capsule.thy ===== *)
theory Capsule
  imports Varint
begin

text \<open>
  The Capsule Protocol, \<^verbatim>\<open>src/crates/skimasque-core/src/capsule.rs\<close>: type, length and value
  of a capsule, and the decoder that reassembles capsules from stream chunks. Methods that take
  \<^verbatim>\<open>&mut self\<close> return the decoder they leave behind. \<^verbatim>\<open>usize\<close> is 64 bits wide and a
  length is a natural number; \<open>None\<close> is the panic of \<^verbatim>\<open>expect\<close>.
\<close>

datatype capsule_type = CapsuleType (type_code: u64)

record capsule =
  cap_kind :: capsule_type
  cap_value :: bytes

datatype capsule_error =
    ValueTooLarge capsule_type u64 nat
  | IncompleteAtEndOfStream nat
  | Capsule_Malformed string

definition DEFAULT_MAX_VALUE_LEN :: nat where
  "DEFAULT_MAX_VALUE_LEN = 64 * 1024"

definition DATAGRAM :: capsule_type where "DATAGRAM = CapsuleType 0x00"
definition ADDRESS_ASSIGN :: capsule_type where "ADDRESS_ASSIGN = CapsuleType 0x01"
definition ADDRESS_REQUEST :: capsule_type where "ADDRESS_REQUEST = CapsuleType 0x02"
definition ROUTE_ADVERTISEMENT :: capsule_type where "ROUTE_ADVERTISEMENT = CapsuleType 0x03"

definition capsule_type_name :: "capsule_type \<Rightarrow> string option" where
  "capsule_type_name k =
     (if type_code k = 0x00 then Some ''DATAGRAM''
      else if type_code k = 0x01 then Some ''ADDRESS_ASSIGN''
      else if type_code k = 0x02 then Some ''ADDRESS_REQUEST''
      else if type_code k = 0x03 then Some ''ROUTE_ADVERTISEMENT''
      else None)"

definition capsule_type_display :: "capsule_type \<Rightarrow> string" where
  "capsule_type_display k =
     (case capsule_type_name k of
        Some name \<Rightarrow> name
      | None \<Rightarrow> ''0x'' @ nat_to_hex (unat (type_code k)))"

definition capsule_new :: "capsule_type \<Rightarrow> bytes \<Rightarrow> capsule" where
  "capsule_new kind v = \<lparr>cap_kind = kind, cap_value = v\<rparr>"

definition capsule_datagram :: "bytes \<Rightarrow> capsule" where
  "capsule_datagram payload = capsule_new DATAGRAM payload"

definition capsule_encoded_len :: "capsule_type \<Rightarrow> nat \<Rightarrow> nat" where
  "capsule_encoded_len kind value_len =
     varint_encoded_len (type_code kind) + varint_encoded_len (of_nat value_len) + value_len"

definition write_header :: "capsule_type \<Rightarrow> nat \<Rightarrow> bytes \<Rightarrow> bytes option" where
  "write_header kind value_len out =
     (case varint_encode (type_code kind) out of
        Inl _ \<Rightarrow> None
      | Inr out1 \<Rightarrow> result_ok (varint_encode (of_nat value_len) out1))"

definition capsule_encode_into :: "capsule \<Rightarrow> bytes \<Rightarrow> bytes option" where
  "capsule_encode_into c out =
     (case write_header (cap_kind c) (length (cap_value c)) out of
        None \<Rightarrow> None
      | Some out1 \<Rightarrow> Some (out1 @ cap_value c))"

definition capsule_encode :: "capsule \<Rightarrow> bytes option" where
  "capsule_encode c = capsule_encode_into c []"

record capsule_decoder =
  cd_buf :: bytes
  cd_max_value_len :: nat

definition with_max_value_len :: "nat \<Rightarrow> capsule_decoder" where
  "with_max_value_len m = \<lparr>cd_buf = [], cd_max_value_len = m\<rparr>"

definition decoder_new :: capsule_decoder where
  "decoder_new = with_max_value_len DEFAULT_MAX_VALUE_LEN"

definition decoder_push :: "bytes \<Rightarrow> capsule_decoder \<Rightarrow> capsule_decoder" where
  "decoder_push chunk d = d\<lparr>cd_buf := cd_buf d @ chunk\<rparr>"

definition buffered :: "capsule_decoder \<Rightarrow> nat" where
  "buffered d = length (cd_buf d)"

definition next_capsule ::
  "capsule_decoder \<Rightarrow> (capsule_error + capsule option) \<times> capsule_decoder" where
  "next_capsule d =
     (case varint_decode_slice (cd_buf d) of
        Inl _ \<Rightarrow> (Inr None, d)
      | Inr (kind, type_len) \<Rightarrow>
          (case varint_decode_slice (drop type_len (cd_buf d)) of
             Inl _ \<Rightarrow> (Inr None, d)
           | Inr (value_len, len_len) \<Rightarrow>
               if value_len > of_nat (cd_max_value_len d)
               then (Inl (ValueTooLarge (CapsuleType kind) value_len (cd_max_value_len d)), d)
               else
                 let header_len = type_len + len_len;
                     total = header_len + unat value_len
                 in if length (cd_buf d) < total then (Inr None, d)
                    else
                      let body = drop header_len (cd_buf d)
                      in (Inr (Some \<lparr>cap_kind = CapsuleType kind,
                                    cap_value = take (unat value_len) body\<rparr>),
                          d\<lparr>cd_buf := drop (unat value_len) body\<rparr>)))"

definition decoder_finish :: "capsule_decoder \<Rightarrow> capsule_error + unit" where
  "decoder_finish d =
     (if cd_buf d = [] then Inr () else Inl (IncompleteAtEndOfStream (length (cd_buf d))))"

subsection \<open>Encoding\<close>

text \<open>A capsule whose type code and length are varints, as every capsule on the wire is.\<close>

definition capsule_fits :: "capsule \<Rightarrow> bool" where
  "capsule_fits c \<longleftrightarrow> unat (type_code (cap_kind c)) < 2 ^ 62 \<and> length (cap_value c) < 2 ^ 62"

definition capsule_bytes :: "capsule \<Rightarrow> bytes" where
  "capsule_bytes c = varint_bytes (type_code (cap_kind c)) @
     varint_bytes (of_nat (length (cap_value c))) @ cap_value c"

lemma unat_of_nat_u64: "n < 2 ^ 62 \<Longrightarrow> unat (of_nat n :: u64) = n"
  by (simp add: unat_of_nat)

lemma capsule_encode_into_eq:
  "capsule_fits c \<Longrightarrow> capsule_encode_into c out = Some (out @ capsule_bytes c)"
  by (simp add: capsule_encode_into_def write_header_def capsule_fits_def capsule_bytes_def
      varint_encode_Inr unat_of_nat_u64)

lemma capsule_encode_eq: "capsule_fits c \<Longrightarrow> capsule_encode c = Some (capsule_bytes c)"
  by (simp add: capsule_encode_def capsule_encode_into_eq)

lemma capsule_bytes_length:
  "capsule_fits c \<Longrightarrow>
    length (capsule_bytes c) = capsule_encoded_len (cap_kind c) (length (cap_value c))"
  by (simp add: capsule_bytes_def capsule_encoded_len_def capsule_fits_def varint_bytes_length
      unat_of_nat_u64)

subsection \<open>Decoding\<close>

lemma next_capsule_roundtrip:
  assumes "capsule_fits c" "length (cap_value c) \<le> m" "m < 2 ^ 64"
  shows "next_capsule \<lparr>cd_buf = capsule_bytes c @ rest, cd_max_value_len = m\<rparr> =
    (Inr (Some c), \<lparr>cd_buf = rest, cd_max_value_len = m\<rparr>)"
proof -
  let ?k = "type_code (cap_kind c)" and ?n = "of_nat (length (cap_value c)) :: u64"
  have f: "unat ?k < 2 ^ 62" "unat ?n < 2 ^ 62" "unat ?n = length (cap_value c)"
    using assms(1) by (simp_all add: capsule_fits_def unat_of_nat_u64)
  have "unat (of_nat m :: u64) = m" using assms(3) by (simp add: unat_of_nat)
  then have "\<not> ?n > of_nat m" using assms(2) f(3) by (simp add: word_less_nat_alt)
  then show ?thesis
    using f by (simp add: next_capsule_def capsule_bytes_def varint_roundtrip Let_def
        flip: varint_bytes_length)
qed

lemma next_capsule_max: "snd (next_capsule d) = d\<lparr>cd_buf := cd_buf (snd (next_capsule d))\<rparr>"
  by (auto simp: next_capsule_def Let_def split: sum.splits prod.splits)

lemma next_capsule_SomeD:
  assumes "next_capsule d = (Inr (Some c), d')"
  shows "length (cd_buf d') < length (cd_buf d)"
    and "cd_max_value_len d' = cd_max_value_len d"
    and "next_capsule (decoder_push x d) = (Inr (Some c), decoder_push x d')"
    and "length (cap_value c) \<le> cd_max_value_len d \<or> cd_max_value_len d \<ge> 2 ^ 64"
proof -
  obtain k t v l where
    dec: "varint_decode_slice (cd_buf d) = Inr (k, t)"
      "varint_decode_slice (drop t (cd_buf d)) = Inr (v, l)"
    and ok: "\<not> v > of_nat (cd_max_value_len d)" "t + l + unat v \<le> length (cd_buf d)"
    and c: "c = \<lparr>cap_kind = CapsuleType k, cap_value = take (unat v) (drop (t + l) (cd_buf d))\<rparr>"
      "d' = d\<lparr>cd_buf := drop (unat v) (drop (t + l) (cd_buf d))\<rparr>"
    using assms by (auto simp: next_capsule_def Let_def split: sum.splits if_splits)
  have t: "0 < t" "t \<le> length (cd_buf d)" using varint_decode_Inr_length [OF dec(1)] by auto
  then show "length (cd_buf d') < length (cd_buf d)" using c(2) by simp
  show "cd_max_value_len d' = cd_max_value_len d" using c(2) by simp
  have "varint_decode_slice (cd_buf d @ x) = Inr (k, t)"
    "varint_decode_slice (drop t (cd_buf d) @ x) = Inr (v, l)"
    using dec by (auto intro: varint_decode_more)
  then show "next_capsule (decoder_push x d) = (Inr (Some c), decoder_push x d')"
    using t ok c by (auto simp: next_capsule_def decoder_push_def Let_def)
  show "length (cap_value c) \<le> cd_max_value_len d \<or> cd_max_value_len d \<ge> 2 ^ 64"
  proof (cases "cd_max_value_len d < 2 ^ 64")
    case True
    then have "unat (of_nat (cd_max_value_len d) :: u64) = cd_max_value_len d"
      by (simp add: unat_of_nat)
    then show ?thesis using ok(1) c(1) by (auto simp: word_less_nat_alt)
  qed simp
qed

lemma next_capsule_InlD:
  assumes "next_capsule d = (Inl e, d')"
  shows "d' = d" and "next_capsule (decoder_push x d) = (Inl e, decoder_push x d)"
proof -
  obtain k t where dec1: "varint_decode_slice (cd_buf d) = Inr (k, t)"
    using assms by (cases "varint_decode_slice (cd_buf d)") (auto simp: next_capsule_def)
  obtain v l where dec2: "varint_decode_slice (drop t (cd_buf d)) = Inr (v, l)"
    using assms dec1
    by (cases "varint_decode_slice (drop t (cd_buf d))") (auto simp: next_capsule_def)
  note dec = dec1 dec2
  have big: "v > of_nat (cd_max_value_len d)"
    and e: "e = ValueTooLarge (CapsuleType k) v (cd_max_value_len d)" "d' = d"
    using assms dec by (auto simp: next_capsule_def Let_def split: if_splits)
  show "d' = d" by (rule e(2))
  have "varint_decode_slice (cd_buf d @ x) = Inr (k, t)"
    "varint_decode_slice (drop t (cd_buf d) @ x) = Inr (v, l)"
    using dec by (auto intro: varint_decode_more)
  moreover have "t \<le> length (cd_buf d)" using varint_decode_Inr_length [OF dec(1)] by auto
  ultimately show "next_capsule (decoder_push x d) = (Inl e, decoder_push x d)"
    using big e by (simp add: next_capsule_def decoder_push_def)
qed

lemma next_capsule_NoneD: "next_capsule d = (Inr None, d') \<Longrightarrow> d' = d"
  by (auto simp: next_capsule_def Let_def split: sum.splits if_splits)

text \<open>The loop every reader of the decoder runs: take capsules until more bytes are needed.\<close>

function drain_capsules ::
  "capsule_decoder \<Rightarrow> capsule list \<times> capsule_decoder \<times> capsule_error option" where
  "drain_capsules d =
     (case next_capsule d of
        (Inl e, d') \<Rightarrow> ([], d', Some e)
      | (Inr None, d') \<Rightarrow> ([], d', None)
      | (Inr (Some c), d') \<Rightarrow>
          (case drain_capsules d' of (cs, d'', e) \<Rightarrow> (c # cs, d'', e)))"
  by auto
termination
  by (relation "measure (\<lambda>d. length (cd_buf d))") (auto dest!: next_capsule_SomeD(1) [OF sym])

declare drain_capsules.simps [simp del]

definition capsule_step :: "nat \<Rightarrow> bytes \<Rightarrow> capsule_error + (capsule \<times> bytes) option" where
  "capsule_step m buf =
     (case next_capsule \<lparr>cd_buf = buf, cd_max_value_len = m\<rparr> of
        (Inl e, _) \<Rightarrow> Inl e
      | (Inr None, _) \<Rightarrow> Inr None
      | (Inr (Some c), d) \<Rightarrow> Inr (Some (c, cd_buf d)))"

definition capsule_drain :: "nat \<Rightarrow> bytes \<Rightarrow> capsule list \<times> bytes \<times> capsule_error option" where
  "capsule_drain m buf =
     (case drain_capsules \<lparr>cd_buf = buf, cd_max_value_len = m\<rparr> of
        (cs, d, e) \<Rightarrow> (cs, cd_buf d, e))"

interpretation capsules: stream_decoder "capsule_step m" "capsule_drain m" for m
proof
  fix b x v r e
  let ?d = "\<lambda>b. \<lparr>cd_buf = b, cd_max_value_len = m\<rparr>"
  have push: "decoder_push x (?d b) = ?d (b @ x)" by (simp add: decoder_push_def)
  show "capsule_step m (b @ x) = Inr (Some (v, r @ x))" if "capsule_step m b = Inr (Some (v, r))"
    using that next_capsule_SomeD(3) [of "?d b" v _ x, unfolded push]
    by (auto simp: capsule_step_def decoder_push_def split: prod.splits sum.splits option.splits)
  show "capsule_step m (b @ x) = Inl e" if "capsule_step m b = Inl e"
    using that next_capsule_InlD(2) [of "?d b" e _ x, unfolded push]
    by (auto simp: capsule_step_def split: prod.splits sum.splits option.splits)
  show "length r < length b" if "capsule_step m b = Inr (Some (v, r))"
    using that by (auto simp: capsule_step_def dest: next_capsule_SomeD(1)
        split: prod.splits sum.splits option.splits)
next
  fix b
  let ?d = "\<lambda>b. \<lparr>cd_buf = b, cd_max_value_len = m\<rparr>"
  have same: "d = ?d (cd_buf d)" if "next_capsule (?d b) = (x, d)" for x d
    using next_capsule_max [of "?d b"] that by simp
  show "capsule_drain m b = (case capsule_step m b of
          Inl e \<Rightarrow> ([], b, Some e)
        | Inr None \<Rightarrow> ([], b, None)
        | Inr (Some (v, r)) \<Rightarrow> (case capsule_drain m r of (vs, rest, e) \<Rightarrow> (v # vs, rest, e)))"
    unfolding capsule_drain_def capsule_step_def
    by (subst drain_capsules.simps)
       (auto dest: next_capsule_InlD(1) next_capsule_NoneD same
         split: prod.splits sum.splits option.splits)
qed

end
