(* ===== verification/Capsule_Pump.thy ===== *)
theory Capsule_Pump
  imports Capsule
begin

text \<open>
  The capsule reader of a request stream, \<^verbatim>\<open>src/crates/skimasque/src/capsules.rs\<close>. A queue
  to another task is a channel: the messages accepted so far, in order, and whether the receiver
  still exists; a send to a dropped receiver fails and leaves the queue as it was.
\<close>

record 'a channel =
  ch_sent :: "'a list"
  ch_open :: bool

definition channel_send :: "'a \<Rightarrow> 'a channel \<Rightarrow> bool \<times> 'a channel" where
  "channel_send m ch = (if ch_open ch then (True, ch\<lparr>ch_sent := ch_sent ch @ [m]\<rparr>) else (False, ch))"

datatype control_flow = Continue | Break

record capsule_pump =
  cp_decoder :: capsule_decoder
  cp_datagrams :: "bytes channel"
  cp_control :: "capsule channel option"

definition pump_new :: "bytes channel \<Rightarrow> capsule_pump" where
  "pump_new datagrams =
     \<lparr>cp_decoder = decoder_new, cp_datagrams = datagrams, cp_control = None\<rparr>"

definition pump_with_control :: "bytes channel \<Rightarrow> capsule channel \<Rightarrow> capsule_pump" where
  "pump_with_control datagrams control =
     \<lparr>cp_decoder = decoder_new, cp_datagrams = datagrams, cp_control = Some control\<rparr>"

text \<open>What the loop does with one capsule; \<open>False\<close> when the queue's reader is gone.\<close>

definition pump_route :: "capsule \<Rightarrow> capsule_pump \<Rightarrow> bool \<times> capsule_pump" where
  "pump_route c p =
     (if cap_kind c = DATAGRAM then
        (case channel_send (cap_value c) (cp_datagrams p) of
           (ok, ch) \<Rightarrow> (ok, p\<lparr>cp_datagrams := ch\<rparr>))
      else
        (case cp_control p of
           Some control \<Rightarrow>
             (case channel_send c control of (ok, ch) \<Rightarrow> (ok, p\<lparr>cp_control := Some ch\<rparr>))
         | None \<Rightarrow> (True, p)))"

lemma pump_route_decoder: "pump_route c p = (ok, p') \<Longrightarrow> cp_decoder p' = cp_decoder p"
  by (auto simp: pump_route_def split: prod.splits option.splits if_splits)

function pump_loop :: "capsule_pump \<Rightarrow> control_flow \<times> capsule_pump" where
  "pump_loop p =
     (case next_capsule (cp_decoder p) of
        (Inr (Some capsule), d) \<Rightarrow>
          (let (ok, p') = pump_route capsule (p\<lparr>cp_decoder := d\<rparr>)
           in if ok then pump_loop p' else (Break, p'))
      | (Inr None, d) \<Rightarrow> (Continue, p\<lparr>cp_decoder := d\<rparr>)
      | (Inl _, d) \<Rightarrow> (Break, p\<lparr>cp_decoder := d\<rparr>))"
  by auto
termination
  by (relation "measure (\<lambda>p. length (cd_buf (cp_decoder p)))")
     (auto dest!: next_capsule_SomeD(1) [OF sym] pump_route_decoder [OF sym])

declare pump_loop.simps [simp del]

definition pump_push :: "bytes \<Rightarrow> capsule_pump \<Rightarrow> control_flow \<times> capsule_pump" where
  "pump_push chunk p = pump_loop (p\<lparr>cp_decoder := decoder_push chunk (cp_decoder p)\<rparr>)"

definition pump_finish :: "capsule_pump \<Rightarrow> capsule_error option" where
  "pump_finish p = (case decoder_finish (cp_decoder p) of Inl e \<Rightarrow> Some e | Inr _ \<Rightarrow> None)"

subsection \<open>The pump as a function of the byte stream\<close>

text \<open>The read loop of a stream: push chunks until the pump asks to stop.\<close>

fun pump_feed :: "bytes list \<Rightarrow> capsule_pump \<Rightarrow> control_flow \<times> capsule_pump" where
  "pump_feed [] p = (Continue, p)"
| "pump_feed (c # cs) p =
     (case pump_push c p of
        (Break, p') \<Rightarrow> (Break, p')
      | (Continue, p') \<Rightarrow> pump_feed cs p')"

definition pump_open :: "capsule_pump \<Rightarrow> bool" where
  "pump_open p \<longleftrightarrow> ch_open (cp_datagrams p) \<and> (case cp_control p of None \<Rightarrow> True | Some ch \<Rightarrow> ch_open ch)"

definition is_datagram :: "capsule \<Rightarrow> bool" where
  "is_datagram c \<longleftrightarrow> cap_kind c = DATAGRAM"

text \<open>The pump after capsules \<open>cs\<close>, with \<open>buf\<close> left over.\<close>

definition pump_after :: "capsule list \<Rightarrow> bytes \<Rightarrow> capsule_pump \<Rightarrow> capsule_pump" where
  "pump_after cs buf p =
     p\<lparr>cp_decoder := (cp_decoder p)\<lparr>cd_buf := buf\<rparr>,
       cp_datagrams := (cp_datagrams p)\<lparr>ch_sent :=
         ch_sent (cp_datagrams p) @ map cap_value (filter is_datagram cs)\<rparr>,
       cp_control := map_option (\<lambda>ch. ch\<lparr>ch_sent := ch_sent ch @ filter (\<lambda>c. \<not> is_datagram c) cs\<rparr>)
         (cp_control p)\<rparr>"

lemma pump_route_open:
  "pump_open p \<Longrightarrow> pump_route c p = (True, pump_after [c] (cd_buf (cp_decoder p)) p)"
  by (auto simp: pump_open_def pump_route_def channel_send_def pump_after_def is_datagram_def
      split: option.splits)

lemma pump_after_open [simp]: "pump_open (pump_after cs buf p) = pump_open p"
  by (auto simp: pump_open_def pump_after_def split: option.splits)

lemma pump_after_after: "pump_after cs2 b2 (pump_after cs1 b1 p) = pump_after (cs1 @ cs2) b2 p"
  by (cases "cp_control p") (simp_all add: pump_after_def)

lemma pump_after_decoder [simp]:
  "cp_decoder (pump_after cs buf p) = (cp_decoder p)\<lparr>cd_buf := buf\<rparr>"
  by (simp add: pump_after_def)

lemma pump_after_Nil [simp]: "pump_after [] (cd_buf (cp_decoder p)) p = p"
  by (cases "cp_control p") (simp_all add: pump_after_def)

lemma pump_loop_drain:
  assumes "pump_open p"
  shows "pump_loop p =
    (case capsule_drain (cd_max_value_len (cp_decoder p)) (cd_buf (cp_decoder p)) of
       (cs, buf, e) \<Rightarrow> (if e = None then Continue else Break, pump_after cs buf p))"
  using assms
proof (induction p rule: pump_loop.induct)
  case (1 p)
  let ?d = "cp_decoder p"
  have d: "?d = \<lparr>cd_buf = cd_buf ?d, cd_max_value_len = cd_max_value_len ?d\<rparr>" by simp
  obtain r d' where st: "next_capsule ?d = (r, d')" by force
  have d': "d' = ?d\<lparr>cd_buf := cd_buf d'\<rparr>" using next_capsule_max [of ?d] st by simp
  consider (err) e where "r = Inl e" | (wait) "r = Inr None" | (item) c where "r = Inr (Some c)"
    by (metis old.sum.exhaust option.exhaust)
  then show ?case
  proof cases
    case err
    then have "next_capsule ?d = (Inl e, ?d)" using st next_capsule_InlD(1) by auto
    then show ?thesis
      by (subst pump_loop.simps, subst capsules.drain_eq) (simp add: capsule_step_def flip: d)
  next
    case wait
    then have "next_capsule ?d = (Inr None, ?d)" using st next_capsule_NoneD by auto
    then show ?thesis
      by (subst pump_loop.simps, subst capsules.drain_eq) (simp add: capsule_step_def flip: d)
  next
    case item
    let ?p = "p\<lparr>cp_decoder := d'\<rparr>"
    have op: "pump_open ?p" using "1.prems" by (simp add: pump_open_def)
    note route = pump_route_open [OF op, of c]
    have m: "cd_max_value_len d' = cd_max_value_len ?d" using d' by (metis capsule_decoder.select_convs(2) capsule_decoder.surjective capsule_decoder.update_convs(1))
    have after: "pump_after cs buf ?p = pump_after cs buf p" for cs buf
      using m by (simp add: pump_after_def)
    have "pump_loop p = pump_loop (pump_after [c] (cd_buf d') ?p)"
      using st item by (subst pump_loop.simps) (simp add: route)
    also have "\<dots> = (case capsule_drain (cd_max_value_len ?d) (cd_buf d') of
         (cs, buf, e) \<Rightarrow> (if e = None then Continue else Break, pump_after (c # cs) buf p))"
      using "1.IH" [OF st [symmetric] item refl, of "(True, _)" True] op m "1.prems"
      by (simp add: route pump_after_after after)
    finally show ?thesis
      using st item by (subst capsules.drain_eq) (simp add: capsule_step_def case_prod_unfold flip: d)
  qed
qed

lemma pump_push_drain:
  assumes "pump_open p"
  shows "pump_push chunk p =
    (case capsule_drain (cd_max_value_len (cp_decoder p)) (cd_buf (cp_decoder p) @ chunk) of
       (cs, buf, e) \<Rightarrow> (if e = None then Continue else Break, pump_after cs buf p))"
proof -
  let ?p = "p\<lparr>cp_decoder := decoder_push chunk (cp_decoder p)\<rparr>"
  have "pump_open ?p" using assms by (simp add: pump_open_def)
  moreover have "pump_after cs buf ?p = pump_after cs buf p" for cs buf
    by (simp add: pump_after_def decoder_push_def)
  ultimately show ?thesis
    by (simp add: pump_push_def pump_loop_drain) (simp add: decoder_push_def)
qed

lemma pump_feed_drain:
  assumes "pump_open p" "capsule_step (cd_max_value_len (cp_decoder p)) (cd_buf (cp_decoder p)) = Inr None"
    and "capsule_drain (cd_max_value_len (cp_decoder p)) (cd_buf (cp_decoder p) @ concat chunks) =
      (cs, buf, None)"
  shows "pump_feed chunks p = (Continue, pump_after cs buf p)"
  using assms
proof (induction chunks arbitrary: p cs)
  case Nil
  then have "capsule_drain (cd_max_value_len (cp_decoder p)) (cd_buf (cp_decoder p)) =
      ([], cd_buf (cp_decoder p), None)"
    by (subst capsules.drain_eq) simp
  with Nil show ?case by auto
next
  case (Cons c chunks)
  let ?m = "cd_max_value_len (cp_decoder p)" and ?b = "cd_buf (cp_decoder p)"
  obtain cs1 b1 e1 where one: "capsule_drain ?m (?b @ c) = (cs1, b1, e1)"
    by (metis prod_cases3)
  have all: "capsule_drain ?m ((?b @ c) @ concat chunks) = (cs, buf, None)"
    using Cons.prems(3) by simp
  then have e1: "e1 = None"
    using one by (subst (asm) capsules.drain_append) (auto split: option.splits)
  obtain cs2 where two: "capsule_drain ?m (b1 @ concat chunks) = (cs2, buf, None)" "cs = cs1 @ cs2"
    using all one e1 by (subst (asm) capsules.drain_append) (auto split: prod.splits)
  have "pump_push c p = (Continue, pump_after cs1 b1 p)"
    using pump_push_drain [OF Cons.prems(1)] one e1 by simp
  moreover have "capsule_step ?m b1 = Inr None"
    using capsules.drain_rest_waits one e1 by blast
  ultimately show ?case
    using Cons.IH [of "pump_after cs1 b1 p" cs2] Cons.prems(1) two
    by (simp add: pump_after_after)
qed

lemma capsule_drain_bytes:
  assumes "list_all (\<lambda>c. capsule_fits c \<and> length (cap_value c) \<le> m) cs" "m < 2 ^ 64"
  shows "capsule_drain m (concat (map capsule_bytes cs)) = (cs, [], None)"
  using assms
proof (induction cs)
  case Nil
  have "capsule_step m [] = Inr None"
    by (simp add: capsule_step_def next_capsule_def varint_decode_slice_def)
  then show ?case by (subst capsules.drain_eq) simp
next
  case (Cons c cs)
  then have "capsule_step m (capsule_bytes c @ concat (map capsule_bytes cs)) =
      Inr (Some (c, concat (map capsule_bytes cs)))"
    by (simp add: capsule_step_def next_capsule_roundtrip)
  then show ?case using Cons by (subst capsules.drain_eq) simp
qed

subsection \<open>Properties\<close>

text \<open>
  C36. Reassembly does not depend on how the stream was cut: if the chunks of a stream together are
  the encodings of a sequence of capsules within the size limit, then feeding them one by one to a
  fresh pump with live readers ends with nothing buffered and no end-of-stream error, having queued
  exactly the DATAGRAM values and exactly the control capsules, each in order.
\<close>

theorem pump_reassembles_capsules:
  assumes "concat chunks = concat (map capsule_bytes cs)"
    and "list_all (\<lambda>c. capsule_fits c \<and> length (cap_value c) \<le> DEFAULT_MAX_VALUE_LEN) cs"
  shows "\<exists>p. pump_feed chunks (pump_with_control \<lparr>ch_sent = [], ch_open = True\<rparr> \<lparr>ch_sent = [], ch_open = True\<rparr>)
      = (Continue, p) \<and>
    ch_sent (cp_datagrams p) = map cap_value (filter is_datagram cs) \<and>
    map_option ch_sent (cp_control p) = Some (filter (\<lambda>c. \<not> is_datagram c) cs) \<and>
    pump_finish p = None"
proof -
  let ?p = "pump_with_control \<lparr>ch_sent = [], ch_open = True\<rparr> \<lparr>ch_sent = [], ch_open = True\<rparr>"
  have "pump_open ?p" by (simp add: pump_open_def pump_with_control_def)
  moreover have "capsule_step (cd_max_value_len (cp_decoder ?p)) (cd_buf (cp_decoder ?p)) = Inr None"
    by (simp add: capsule_step_def next_capsule_def varint_decode_slice_def pump_with_control_def
        decoder_new_def with_max_value_len_def)
  moreover have "capsule_drain (cd_max_value_len (cp_decoder ?p))
      (cd_buf (cp_decoder ?p) @ concat chunks) = (cs, [], None)"
    using capsule_drain_bytes [OF assms(2)] assms(1)
    by (simp add: pump_with_control_def decoder_new_def with_max_value_len_def DEFAULT_MAX_VALUE_LEN_def)
  ultimately have "pump_feed chunks ?p = (Continue, pump_after cs [] ?p)"
    by (rule pump_feed_drain)
  then show ?thesis
    by (simp add: pump_after_def pump_with_control_def pump_finish_def decoder_finish_def)
qed

theorem pump_reassembles_capsules_witness:
  "\<exists>p. pump_feed [[0], [2, 7], [8, 1, 1, 9]]
      (pump_with_control \<lparr>ch_sent = [], ch_open = True\<rparr> \<lparr>ch_sent = [], ch_open = True\<rparr>)
      = (Continue, p) \<and>
    ch_sent (cp_datagrams p) = map cap_value (filter is_datagram
      [capsule_new DATAGRAM [7, 8], capsule_new ADDRESS_ASSIGN [9]]) \<and>
    map_option ch_sent (cp_control p) = Some (filter (\<lambda>c. \<not> is_datagram c)
      [capsule_new DATAGRAM [7, 8], capsule_new ADDRESS_ASSIGN [9]]) \<and>
    pump_finish p = None"
  by (rule pump_reassembles_capsules)
     (simp_all add: capsule_bytes_def capsule_new_def DATAGRAM_def ADDRESS_ASSIGN_def
       varint_bytes_def varint_encode_def varint_MAX_def varint_encoded_len_def put_u8_def
       capsule_fits_def DEFAULT_MAX_VALUE_LEN_def)

text \<open>
  The decoder never buffers a capsule it will refuse: as soon as the type and length fields of
  a capsule have arrived and the length exceeds the limit, the decoder reports the capsule type,
  the length and the limit, keeps its buffer, and repeats that answer whatever arrives later.
\<close>

theorem oversized_capsule_fails_fast:
  assumes "unat k < 2 ^ 62" "unat n < 2 ^ 62" "m < unat n"
  shows "next_capsule (decoder_push later \<lparr>cd_buf = varint_bytes k @ varint_bytes n, cd_max_value_len = m\<rparr>) =
    (Inl (ValueTooLarge (CapsuleType k) n m),
     \<lparr>cd_buf = varint_bytes k @ varint_bytes n @ later, cd_max_value_len = m\<rparr>)"
proof -
  have "unat (of_nat m :: u64) = m" using assms by (simp add: unat_of_nat)
  then have "n > of_nat m" using assms(3) by (simp add: word_less_nat_alt)
  then show ?thesis
    using assms by (simp add: next_capsule_def decoder_push_def varint_roundtrip
        flip: varint_bytes_length)
qed

theorem oversized_capsule_fails_fast_witness:
  "next_capsule (decoder_push [1, 2] \<lparr>cd_buf = varint_bytes 0 @ varint_bytes 70000, cd_max_value_len = 65536\<rparr>) =
    (Inl (ValueTooLarge (CapsuleType 0) 70000 65536),
     \<lparr>cd_buf = varint_bytes 0 @ varint_bytes 70000 @ [1, 2], cd_max_value_len = 65536\<rparr>)"
  by (rule oversized_capsule_fails_fast) simp_all

end
