(* ===== verification/Rust_Net.thy ===== *)
theory Rust_Net
  imports Wire_Bytes
begin

text \<open>
  The part of \<^verbatim>\<open>std::net\<close> the sources use: addresses, their textual forms and the address
  categories. An IPv4 address is a 32-bit word and an IPv6 address a 128-bit word, most significant
  octet first. The parser follows the standard library's: an attempt either yields a value and
  the unread rest or leaves the input alone.
\<close>

datatype ip_addr = V4 u32 | V6 u128

datatype socket_addr = SocketAddr (sa_ip: ip_addr) (sa_port: u16)

definition octets4 :: "u32 \<Rightarrow> bytes" where
  "octets4 a = be_bytes 4 a"

definition octets6 :: "u128 \<Rightarrow> bytes" where
  "octets6 a = be_bytes 16 a"

definition segments6 :: "u128 \<Rightarrow> u16 list" where
  "segments6 a = map (\<lambda>i. ucast (drop_bit (16 * i) a)) (rev [0..<8])"

definition word_of_segments :: "u16 list \<Rightarrow> u128" where
  "word_of_segments gs = foldl (\<lambda>acc g. push_bit 16 acc OR ucast g) 0 gs"

definition is_ipv4 :: "ip_addr \<Rightarrow> bool" where
  "is_ipv4 a = (case a of V4 _ \<Rightarrow> True | V6 _ \<Rightarrow> False)"

definition to_ipv4_mapped :: "u128 \<Rightarrow> u32 option" where
  "to_ipv4_mapped a = (if drop_bit 32 a = 0xffff then Some (ucast a) else None)"

subsection \<open>Reading addresses\<close>

text \<open>A decimal octet: at most three digits, no leading zero, at most 255.\<close>

definition read_octet :: "string \<Rightarrow> (nat \<times> string) option" where
  "read_octet s =
     (let ds = takeWhile is_ascii_digit s; rest = dropWhile is_ascii_digit s
      in if ds = [] \<or> 3 < length ds \<or> 255 < digits_val ds \<or> (hd ds = CHR ''0'' \<and> 1 < length ds)
         then None else Some (digits_val ds, rest))"

definition read_char :: "char \<Rightarrow> string \<Rightarrow> string option" where
  "read_char c s = (case s of [] \<Rightarrow> None | d # r \<Rightarrow> if d = c then Some r else None)"

fun read_octets :: "nat \<Rightarrow> string \<Rightarrow> (nat list \<times> string) option" where
  "read_octets 0 s = Some ([], s)"
| "read_octets (Suc n) s =
     (case read_char (CHR ''.'') s of
        None \<Rightarrow> None
      | Some s1 \<Rightarrow>
          (case read_octet s1 of
             None \<Rightarrow> None
           | Some (o1, s2) \<Rightarrow>
               (case read_octets n s2 of None \<Rightarrow> None | Some (os, s3) \<Rightarrow> Some (o1 # os, s3))))"

definition read_ipv4 :: "string \<Rightarrow> (u32 \<times> string) option" where
  "read_ipv4 s =
     (case read_octet s of
        None \<Rightarrow> None
      | Some (o1, s1) \<Rightarrow>
          (case read_octets 3 s1 of
             None \<Rightarrow> None
           | Some (os, s2) \<Rightarrow> Some (be_word (map of_nat (o1 # os)), s2)))"

text \<open>A hexadecimal group: one to four digits.\<close>

definition read_group :: "string \<Rightarrow> (u16 \<times> string) option" where
  "read_group s =
     (let ds = takeWhile is_hex_digit s; rest = dropWhile is_hex_digit s
      in if ds = [] \<or> 4 < length ds then None else Some (of_nat (hex_digits_val ds), rest))"

definition read_separated ::
  "nat \<Rightarrow> (string \<Rightarrow> ('a \<times> string) option) \<Rightarrow> string \<Rightarrow> ('a \<times> string) option" where
  "read_separated i f s =
     (if i = 0 then f s
      else (case read_char (CHR '':'') s of None \<Rightarrow> None | Some s1 \<Rightarrow> f s1))"

text \<open>
  \<^verbatim>\<open>read_groups\<close>: the groups read, whether they end in an embedded IPv4 address, and the rest.
\<close>

function read_groups :: "nat \<Rightarrow> nat \<Rightarrow> string \<Rightarrow> u16 list \<times> bool \<times> string" where
  "read_groups limit i s =
     (if limit \<le> i then ([], False, s)
      else
        case (if i < limit - 1 then read_separated i read_ipv4 s else None) of
          Some (a, s1) \<Rightarrow> ([ucast (drop_bit 16 a), ucast a], True, s1)
        | None \<Rightarrow>
            (case read_separated i read_group s of
               None \<Rightarrow> ([], False, s)
             | Some (g, s1) \<Rightarrow>
                 (case read_groups limit (Suc i) s1 of (gs, v4, s2) \<Rightarrow> (g # gs, v4, s2))))"
  by auto
termination by (relation "measure (\<lambda>(limit, i, _). limit - i)") auto

declare read_groups.simps [simp del]

definition read_ipv6 :: "string \<Rightarrow> (u128 \<times> string) option" where
  "read_ipv6 s =
     (case read_groups 8 0 s of (head, v4, s1) \<Rightarrow>
        if length head = 8 then Some (word_of_segments head, s1)
        else if v4 then None
        else
          case strip_prefix ''::'' s1 of
            None \<Rightarrow> None
          | Some s2 \<Rightarrow>
              (case read_groups (8 - (length head + 1)) 0 s2 of (tail, _, s3) \<Rightarrow>
                 Some (word_of_segments
                   (head @ replicate (8 - length head - length tail) 0 @ tail), s3)))"

definition parse_ipv4 :: "string \<Rightarrow> u32 option" where
  "parse_ipv4 s = (case read_ipv4 s of Some (a, []) \<Rightarrow> Some a | _ \<Rightarrow> None)"

definition parse_ipv6 :: "string \<Rightarrow> u128 option" where
  "parse_ipv6 s = (case read_ipv6 s of Some (a, []) \<Rightarrow> Some a | _ \<Rightarrow> None)"

definition parse_ip :: "string \<Rightarrow> ip_addr option" where
  "parse_ip s =
     (case read_ipv4 s of
        Some (a, rest) \<Rightarrow> if rest = [] then Some (V4 a) else None
      | None \<Rightarrow> map_option V6 (parse_ipv6 s))"

subsection \<open>Printing addresses\<close>

definition display_ipv4 :: "u32 \<Rightarrow> string" where
  "display_ipv4 a = join_with ''.'' (map (nat_to_string \<circ> unat) (octets4 a))"

text \<open>
  The first longest run of zero groups, as a start and a length. The scan carries the best and the
  current run.
\<close>

fun longest_zeroes :: "nat \<Rightarrow> nat \<times> nat \<Rightarrow> nat \<times> nat \<Rightarrow> u16 list \<Rightarrow> nat \<times> nat" where
  "longest_zeroes i best cur [] = best"
| "longest_zeroes i best cur (g # gs) =
     (if g = 0 then
        let cur' = (if snd cur = 0 then i else fst cur, Suc (snd cur))
        in longest_zeroes (Suc i) (if snd cur' > snd best then cur' else best) cur' gs
      else longest_zeroes (Suc i) best (0, 0) gs)"

definition display_groups :: "u16 list \<Rightarrow> string" where
  "display_groups gs = join_with '':'' (map (nat_to_hex \<circ> unat) gs)"

definition display_ipv6 :: "u128 \<Rightarrow> string" where
  "display_ipv6 a =
     (case to_ipv4_mapped a of
        Some v4 \<Rightarrow> ''::ffff:'' @ display_ipv4 v4
      | None \<Rightarrow>
          (case longest_zeroes 0 (0, 0) (0, 0) (segments6 a) of (start, n) \<Rightarrow>
             if n > 1 then
               display_groups (take start (segments6 a)) @ ''::'' @
               display_groups (drop (start + n) (segments6 a))
             else display_groups (segments6 a)))"

definition display_ip :: "ip_addr \<Rightarrow> string" where
  "display_ip a = (case a of V4 w \<Rightarrow> display_ipv4 w | V6 w \<Rightarrow> display_ipv6 w)"

definition display_socket_addr :: "socket_addr \<Rightarrow> string" where
  "display_socket_addr s =
     (case sa_ip s of
        V4 a \<Rightarrow> display_ipv4 a @ '':'' @ nat_to_string (unat (sa_port s))
      | V6 a \<Rightarrow> ''['' @ display_ipv6 a @ '']:'' @ nat_to_string (unat (sa_port s)))"

subsection \<open>Categories\<close>

definition v4_octet :: "nat \<Rightarrow> u32 \<Rightarrow> nat" where
  "v4_octet i a = unat a div 256 ^ (3 - i) mod 256"

definition v4_is_unspecified :: "u32 \<Rightarrow> bool" where
  "v4_is_unspecified a \<longleftrightarrow> a = 0"

definition v4_is_loopback :: "u32 \<Rightarrow> bool" where
  "v4_is_loopback a \<longleftrightarrow> v4_octet 0 a = 127"

definition v4_is_private :: "u32 \<Rightarrow> bool" where
  "v4_is_private a \<longleftrightarrow>
     v4_octet 0 a = 10 \<or>
     (v4_octet 0 a = 172 \<and> 16 \<le> v4_octet 1 a \<and> v4_octet 1 a \<le> 31) \<or>
     (v4_octet 0 a = 192 \<and> v4_octet 1 a = 168)"

definition v4_is_link_local :: "u32 \<Rightarrow> bool" where
  "v4_is_link_local a \<longleftrightarrow> v4_octet 0 a = 169 \<and> v4_octet 1 a = 254"

definition v4_is_multicast :: "u32 \<Rightarrow> bool" where
  "v4_is_multicast a \<longleftrightarrow> 224 \<le> v4_octet 0 a \<and> v4_octet 0 a \<le> 239"

definition v4_is_broadcast :: "u32 \<Rightarrow> bool" where
  "v4_is_broadcast a \<longleftrightarrow> a = - 1"

definition v6_is_unspecified :: "u128 \<Rightarrow> bool" where
  "v6_is_unspecified a \<longleftrightarrow> a = 0"

definition v6_is_loopback :: "u128 \<Rightarrow> bool" where
  "v6_is_loopback a \<longleftrightarrow> a = 1"

definition v6_is_multicast :: "u128 \<Rightarrow> bool" where
  "v6_is_multicast a \<longleftrightarrow> drop_bit 120 a = 0xff"

subsection \<open>Printing and reading IPv4\<close>

lemma takeWhile_digits_number:
  assumes "rest = [] \<or> \<not> is_ascii_digit (hd rest)"
  shows "takeWhile is_ascii_digit (nat_to_string n @ rest) = nat_to_string n"
    and "dropWhile is_ascii_digit (nat_to_string n @ rest) = rest"
proof -
  have "\<forall>c \<in> set (nat_to_string n). is_ascii_digit c"
    using nat_to_string_digits [of n] by (simp add: list_all_iff)
  then show "takeWhile is_ascii_digit (nat_to_string n @ rest) = nat_to_string n"
    and "dropWhile is_ascii_digit (nat_to_string n @ rest) = rest"
    using assms by (cases rest; simp add: takeWhile_append2 dropWhile_append2)+
qed

lemma read_octet_number:
  assumes "n < 256" "rest = [] \<or> \<not> is_ascii_digit (hd rest)"
  shows "read_octet (nat_to_string n @ rest) = Some (n, rest)"
proof -
  have "length (nat_to_string n) \<le> 3" using nat_to_string_length [of n 2] assms(1) by simp
  moreover have "\<not> (hd (nat_to_string n) = CHR ''0'' \<and> 1 < length (nat_to_string n))"
    using nat_to_string_length [of n 0] by (auto simp: nat_to_string_hd_0)
  ultimately show ?thesis
    using assms(1) takeWhile_digits_number [OF assms(2), of n] by (auto simp: read_octet_def Let_def)
qed

lemma read_octets_numbers:
  assumes "list_all (\<lambda>n. n < 256) ns" "rest = [] \<or> \<not> is_ascii_digit (hd rest)"
  shows "read_octets (length ns) (concat (map (\<lambda>n. CHR ''.'' # nat_to_string n) ns) @ rest) =
    Some (ns, rest)"
  using assms(1)
proof (induction ns)
  case Nil
  show ?case by simp
next
  case (Cons n ns)
  let ?r = "concat (map (\<lambda>n. CHR ''.'' # nat_to_string n) ns) @ rest"
  have "?r = [] \<or> \<not> is_ascii_digit (hd ?r)"
    using assms(2) by (cases ns) (auto simp: is_ascii_digit_def char_code_def)
  then show ?case using Cons by (simp add: read_char_def read_octet_number)
qed

lemma octets4_parts:
  obtains a b c d where "octets4 w = map of_nat [a, b, c, d]" "a < 256" "b < 256" "c < 256" "d < 256"
    "map unat (octets4 w) = [a, b, c, d]"
proof -
  obtain a b c d where o: "octets4 w = [a, b, c, d]"
    by (simp add: octets4_def be_bytes_def eval_nat_numeral)
  show ?thesis
    by (rule that [of "unat a" "unat b" "unat c" "unat d"]) (simp_all add: o u8_unat_less)
qed

lemma read_ipv4_display:
  assumes "rest = [] \<or> \<not> is_ascii_digit (hd rest)"
  shows "read_ipv4 (display_ipv4 w @ rest) = Some (w, rest)"
proof -
  obtain a b c d where o: "octets4 w = map of_nat [a, b, c, d]"
      and lt: "a < 256" "b < 256" "c < 256" "d < 256"
      and u: "map unat (octets4 w) = [a, b, c, d]"
    by (rule octets4_parts)
  let ?r = "concat (map (\<lambda>n. CHR ''.'' # nat_to_string n) [b, c, d]) @ rest"
  have "display_ipv4 w = join_with ''.'' (map nat_to_string (map unat (octets4 w)))"
    by (simp add: display_ipv4_def)
  then have disp: "display_ipv4 w @ rest = nat_to_string a @ ?r" by (simp add: u)
  have "\<not> is_ascii_digit (hd ?r)" by (simp add: is_ascii_digit_def char_code_def)
  then have "read_octet (display_ipv4 w @ rest) = Some (a, ?r)"
    unfolding disp by (intro read_octet_number lt(1)) simp
  moreover have "read_octets 3 ?r = Some ([b, c, d], rest)"
    using read_octets_numbers [of "[b, c, d]" rest] lt assms by (simp add: eval_nat_numeral)
  moreover have "be_word (map of_nat [a, b, c, d]) = w"
    using be_word_be_bytes [of 4 w] o by (simp add: octets4_def)
  ultimately show ?thesis by (simp add: read_ipv4_def)
qed

lemma parse_ip_display_ipv4 [simp]: "parse_ip (display_ipv4 w) = Some (V4 w)"
  using read_ipv4_display [of "[]" w] by (simp add: parse_ip_def)

lemma parse_ipv4_display [simp]: "parse_ipv4 (display_ipv4 w) = Some w"
  using read_ipv4_display [of "[]" w] by (simp add: parse_ipv4_def)

end
