(* ===== verification/Rust_Net_V6.thy ===== *)
theory Rust_Net_V6
  imports Rust_Net
begin

text \<open>
  The textual form of IPv6 addresses reads back as the address: the embedded IPv4 form, the full
  form, and the form with the longest run of zero groups cut to a double colon.
\<close>

subsection \<open>Groups and words\<close>

lemma foldl_segments:
  "foldl (\<lambda>acc g. push_bit 16 acc OR ucast g) acc
     (map (\<lambda>i. ucast (drop_bit (16 * i) (a :: u128)) :: u16) (rev [0..<n])) =
   push_bit (16 * n) acc OR take_bit (16 * n) a"
proof (induction n arbitrary: acc)
  case 0
  show ?case by simp
next
  case (Suc n)
  let ?x = "push_bit 16 acc OR ucast (ucast (drop_bit (16 * n) a) :: u16) :: u128"
  have "push_bit (16 * n) ?x OR take_bit (16 * n) a =
      push_bit (16 * Suc n) acc OR take_bit (16 * Suc n) a"
  proof (rule bit_word_eqI)
    fix k :: nat
    assume "k < LENGTH(128)"
    then show "bit (push_bit (16 * n) ?x OR take_bit (16 * n) a) k =
        bit (push_bit (16 * Suc n) acc OR take_bit (16 * Suc n) a) k"
      by (auto simp: bit_simps not_le not_less algebra_simps)
  qed
  then show ?case by (simp add: Suc.IH)
qed

lemma word_of_segments_segments6: "word_of_segments (segments6 a) = a"
proof -
  have "word_of_segments (segments6 a) = push_bit (16 * 8) 0 OR take_bit (16 * 8) a"
    unfolding word_of_segments_def segments6_def by (rule foldl_segments)
  also have "\<dots> = a" by (simp add: take_bit_word_eq_self)
  finally show ?thesis .
qed

lemma segments6_length [simp]: "length (segments6 a) = 8"
  by (simp add: segments6_def)

subsection \<open>Reading groups\<close>

lemma nat_to_hex_length: "n < 16 ^ Suc k \<Longrightarrow> length (nat_to_hex n) \<le> Suc k"
proof (induction k arbitrary: n)
  case 0
  then show ?case by (subst nat_to_hex.simps) simp
next
  case (Suc k)
  then have "n div 16 < 16 ^ Suc k" by (simp add: div_less_iff_less_mult)
  then show ?case using Suc.IH [of "n div 16"] by (subst nat_to_hex.simps) simp
qed

lemma read_group_hex:
  assumes "rest = [] \<or> \<not> is_hex_digit (hd rest)"
  shows "read_group (nat_to_hex (unat g) @ rest) = Some (g, rest)"
proof -
  have all: "\<And>c. c \<in> set (nat_to_hex (unat g)) \<Longrightarrow> is_hex_digit c"
    using nat_to_hex_digits [of "unat g"] by (simp add: list_all_iff)
  have "takeWhile is_hex_digit rest = []" "dropWhile is_hex_digit rest = rest"
    using assms by (cases rest; auto)+
  then have "takeWhile is_hex_digit (nat_to_hex (unat g) @ rest) = nat_to_hex (unat g)"
    "dropWhile is_hex_digit (nat_to_hex (unat g) @ rest) = rest"
    using all by (simp_all add: takeWhile_append2 dropWhile_append2)
  moreover have "length (nat_to_hex (unat g)) \<le> 4"
    using nat_to_hex_length [of "unat g" 3] unsigned_less [of g, where 'a = nat] by simp
  ultimately show ?thesis by (simp add: read_group_def Let_def)
qed

lemma read_ipv4_no_dot:
  assumes "CHR ''.'' \<notin> set s"
  shows "read_ipv4 s = None"
proof (cases "read_octet s")
  case (Some p)
  obtain a s1 where p: "p = (a, s1)" by force
  have "s1 = dropWhile is_ascii_digit s"
    using Some p by (auto simp: read_octet_def Let_def split: if_splits)
  then have "CHR ''.'' \<notin> set s1" using assms set_dropWhileD by metis
  then have "read_octets 3 s1 = None"
    by (cases s1) (auto simp: eval_nat_numeral read_char_def)
  then show ?thesis using Some p by (simp add: read_ipv4_def)
qed (simp add: read_ipv4_def)

definition sep :: "nat \<Rightarrow> string" where
  "sep i = (if i = 0 then [] else '':'')"

lemma read_separated_sep: "read_separated i f (sep i @ s) = f s"
  by (simp add: read_separated_def sep_def read_char_def)

lemma hex_no_colon: "is_hex_digit c \<Longrightarrow> c \<noteq> CHR '':'' \<and> c \<noteq> CHR ''.''"
  by (auto simp: is_hex_digit_def is_ascii_digit_def)

lemma nat_to_hex_no_dot: "CHR ''.'' \<notin> set (nat_to_hex n)" "CHR '':'' \<notin> set (nat_to_hex n)"
  using nat_to_hex_digits [of n] hex_no_colon by (auto simp: list_all_iff)

lemma display_groups_no_dot: "CHR ''.'' \<notin> set (display_groups gs)"
proof -
  have "CHR ''.'' \<notin> set (join_with '':'' ss)" if "\<forall>s \<in> set ss. CHR ''.'' \<notin> set s" for ss
    using that by (induction "'':''" ss rule: join_with.induct) auto
  then show ?thesis unfolding display_groups_def using nat_to_hex_no_dot by fastforce
qed

text \<open>A rest at which group reading stops without consuming anything.\<close>

definition group_stop :: "string \<Rightarrow> bool" where
  "group_stop rest \<longleftrightarrow> (rest = [] \<or> take 2 rest = ''::'') \<and> CHR ''.'' \<notin> set rest"

lemma read_groups_stop:
  assumes "group_stop rest"
  shows "read_groups limit i rest = ([], False, rest)"
proof -
  have "read_separated i read_ipv4 rest = None"
    using assms read_ipv4_no_dot [of rest] read_ipv4_no_dot [of "tl rest"]
    by (cases rest) (auto simp: read_separated_def read_char_def group_stop_def)
  moreover have "\<not> is_hex_digit (CHR '':'')" using hex_no_colon by blast
  then have "read_separated i read_group rest = None"
    using assms by (cases rest; cases "tl rest")
      (auto simp: read_separated_def read_char_def group_stop_def read_group_def)
  ultimately show ?thesis by (simp add: read_groups.simps)
qed

lemma group_stop_hd: "group_stop rest \<Longrightarrow> rest = [] \<or> \<not> is_hex_digit (hd rest)"
  using hex_no_colon by (cases rest) (auto simp: group_stop_def)

lemma read_groups_display:
  assumes "gs \<noteq> []" "i + length gs \<le> limit" "group_stop rest"
  shows "read_groups limit i (sep i @ display_groups gs @ rest) = (gs, False, rest)"
  using assms
proof (induction gs arbitrary: i)
  case (Cons g gs)
  let ?tail = "(if gs = [] then [] else '':'' @ display_groups gs) @ rest"
  have disp: "display_groups (g # gs) @ rest = nat_to_hex (unat g) @ ?tail"
    by (cases gs) (simp_all add: display_groups_def)
  have nodot: "CHR ''.'' \<notin> set (nat_to_hex (unat g) @ ?tail)"
    using nat_to_hex_no_dot display_groups_no_dot [of gs] Cons.prems(3) by (auto simp: group_stop_def)
  have v4: "read_separated i read_ipv4 (sep i @ nat_to_hex (unat g) @ ?tail) = None"
    using read_ipv4_no_dot [OF nodot] by (simp add: read_separated_sep)
  have "?tail = [] \<or> \<not> is_hex_digit (hd ?tail)"
    using group_stop_hd [OF Cons.prems(3)] hex_no_colon by (cases gs) auto
  then have grp: "read_separated i read_group (sep i @ nat_to_hex (unat g) @ ?tail) = Some (g, ?tail)"
    by (simp only: read_separated_sep read_group_hex)
  have "read_groups limit (Suc i) ?tail = (gs, False, rest)"
  proof (cases "gs = []")
    case True
    then show ?thesis using read_groups_stop [OF Cons.prems(3)] by simp
  next
    case False
    then show ?thesis using Cons.IH [of "Suc i"] Cons.prems by (simp add: sep_def)
  qed
  then show ?case
    unfolding disp using Cons.prems(2)
    by (subst read_groups.simps) (simp only: v4 grp if_cancel option.case prod.case, simp)
qed simp

subsection \<open>The compressed form\<close>

definition zero_run :: "u16 list \<Rightarrow> nat \<times> nat \<Rightarrow> bool" where
  "zero_run gs r \<longleftrightarrow> fst r + snd r \<le> length gs \<and> (\<forall>k. fst r \<le> k \<and> k < fst r + snd r \<longrightarrow> gs ! k = 0)"

lemma longest_zeroes_run:
  assumes "zero_run pre best" "zero_run pre cur" "snd cur = 0 \<or> fst cur + snd cur = length pre"
  shows "zero_run (pre @ gs) (longest_zeroes (length pre) best cur gs)"
  using assms
proof (induction gs arbitrary: pre best cur)
  case Nil
  then show ?case by simp
next
  case (Cons g gs)
  have ext: "zero_run (pre @ [g]) r" if "zero_run pre r" for r
    using that by (auto simp: zero_run_def nth_append)
  show ?case
  proof (cases "g = 0")
    case True
    let ?c = "(if snd cur = 0 then length pre else fst cur, Suc (snd cur))"
    have c: "zero_run (pre @ [g]) ?c"
      using Cons.prems(2,3) True by (auto simp: zero_run_def nth_append less_Suc_eq)
    have e: "fst ?c + snd ?c = length (pre @ [g])" using Cons.prems(3) by auto
    show ?thesis
      using Cons.IH [of "pre @ [g]" "if snd ?c > snd best then ?c else best" ?c] c e
        ext [OF Cons.prems(1)] True
      by (simp add: Let_def)
  next
    case False
    have z: "zero_run (pre @ [g]) (0, 0)" by (simp add: zero_run_def)
    show ?thesis
      using Cons.IH [of "pre @ [g]" best "(0, 0)"] ext [OF Cons.prems(1)] z False by simp
  qed
qed

lemma zero_run_split:
  assumes "zero_run gs (start, n)"
  shows "gs = take start gs @ replicate n 0 @ drop (start + n) gs"
proof -
  have "take n (drop start gs) = replicate n 0"
    using assms by (intro nth_equalityI) (auto simp: zero_run_def)
  then have "drop start gs = replicate n 0 @ drop (start + n) gs"
    by (metis append_take_drop_id drop_drop add.commute)
  then show ?thesis by (metis append_take_drop_id)
qed

lemma read_ipv6_compressed:
  assumes "gs = l @ replicate n 0 @ r" "length gs = 8" "1 < n"
  shows "read_ipv6 (display_groups l @ ''::'' @ display_groups r) = Some (word_of_segments gs, [])"
proof -
  have stop: "group_stop (''::'' @ display_groups r)"
    using display_groups_no_dot [of r] by (simp add: group_stop_def)
  have len: "length l + n + length r = 8" using assms(1,2) by simp
  have "read_groups 8 0 (display_groups l @ ''::'' @ display_groups r) =
      (l, False, ''::'' @ display_groups r)"
  proof (cases "l = []")
    case True
    then show ?thesis using read_groups_stop [OF stop, of 8 0] by (simp add: display_groups_def)
  next
    case False
    then show ?thesis using read_groups_display [OF _ _ stop, of l 0 8] len by (simp add: sep_def)
  qed
  moreover have "read_groups (8 - (length l + 1)) 0 (display_groups r) = (r, False, [])"
  proof (cases "r = []")
    case True
    then show ?thesis
      using read_groups_stop [of "[]"] by (simp add: display_groups_def group_stop_def)
  next
    case False
    then show ?thesis
      using read_groups_display [of r 0 "8 - (length l + 1)" "[]"] len assms(3)
      by (simp add: sep_def group_stop_def)
  qed
  moreover have "8 - length l - length r = n" using len by simp
  ultimately show ?thesis
    using len assms(1,3) by (simp add: read_ipv6_def strip_prefix_def)
qed

lemma read_ipv6_full:
  assumes "length gs = 8"
  shows "read_ipv6 (display_groups gs) = Some (word_of_segments gs, [])"
proof -
  have "gs \<noteq> []" using assms by auto
  then show ?thesis
    using read_groups_display [of gs 0 8 "[]"] assms
    by (simp add: read_ipv6_def sep_def group_stop_def)
qed

lemma read_ipv6_mapped:
  "read_ipv6 (''::ffff:'' @ display_ipv4 w) =
     Some (word_of_segments ([0, 0, 0, 0, 0, 0xffff, ucast (drop_bit 16 w), ucast w]), [])"
proof -
  have hex: "is_hex_digit (CHR ''f'')" "\<not> is_hex_digit (CHR '':'')" "\<not> is_ascii_digit (CHR ''f'')"
    "\<not> is_ascii_digit (CHR '':'')"
    by (simp_all add: is_hex_digit_def is_ascii_digit_def)
  have h: "read_groups 8 0 (''::ffff:'' @ display_ipv4 w) = ([], False, ''::ffff:'' @ display_ipv4 w)"
    using hex by (subst read_groups.simps)
      (simp add: read_separated_def read_ipv4_def read_octet_def read_group_def)
  have v: "hex_val (CHR ''f'') = 15" by (simp add: hex_val_def is_ascii_digit_def)
  have g: "read_group (''ffff:'' @ display_ipv4 w) = Some (0xffff, '':'' @ display_ipv4 w)"
    using hex v by (simp add: read_group_def hex_digits_val_def)
  have "read_ipv4 (display_ipv4 w) = Some (w, [])" using read_ipv4_display [of "[]" w] by simp
  then have t2: "read_groups 7 1 ('':'' @ display_ipv4 w) = ([ucast (drop_bit 16 w), ucast w], True, [])"
    by (subst read_groups.simps) (simp add: read_separated_def read_char_def)
  have "read_groups 7 0 (''ffff:'' @ display_ipv4 w) = ([0xffff, ucast (drop_bit 16 w), ucast w], True, [])"
    using hex g t2 by (subst read_groups.simps)
      (simp add: read_separated_def read_ipv4_def read_octet_def)
  then show ?thesis using h by (simp add: read_ipv6_def strip_prefix_def eval_nat_numeral)
qed

lemma mapped_segments:
  assumes "to_ipv4_mapped a = Some w"
  shows "segments6 a = [0, 0, 0, 0, 0, 0xffff, ucast (drop_bit 16 w), ucast w]"
proof -
  have d: "drop_bit 32 a = 0xffff" and w: "w = ucast a"
    using assms by (auto simp: to_ipv4_mapped_def split: if_splits)
  have hi: "ucast (drop_bit (32 + k) a) = (ucast (drop_bit k (0xffff :: u128)) :: u16)" for k
    by (simp flip: d add: drop_bit_drop_bit add.commute)
  have lo: "ucast (drop_bit 16 (ucast a :: u32)) = (ucast (drop_bit 16 a) :: u16)"
    "ucast (ucast a :: u32) = (ucast a :: u16)"
    by (rule bit_word_eqI; auto simp: bit_simps)+
  have "segments6 a = map (\<lambda>i. ucast (drop_bit (16 * i) a)) [7, 6, 5, 4, 3, 2, 1, 0]"
    by (simp add: segments6_def eval_nat_numeral)
  then show ?thesis
    using hi [of 80] hi [of 64] hi [of 48] hi [of 32] hi [of 16] hi [of 0] lo w
    by (simp add: drop_bit_eq_div)
qed

lemma read_ipv6_display: "read_ipv6 (display_ipv6 a) = Some (a, [])"
proof (cases "to_ipv4_mapped a")
  case (Some w)
  then show ?thesis
    using read_ipv6_mapped [of w] mapped_segments [OF Some] word_of_segments_segments6 [of a]
    by (simp add: display_ipv6_def)
next
  case None
  obtain start n where run: "longest_zeroes 0 (0, 0) (0, 0) (segments6 a) = (start, n)" by force
  have zr: "zero_run (segments6 a) (start, n)"
    using longest_zeroes_run [of "[]" "(0, 0)" "(0, 0)" "segments6 a"] run by (simp add: zero_run_def)
  show ?thesis
  proof (cases "1 < n")
    case True
    then show ?thesis
      using read_ipv6_compressed [OF zero_run_split [OF zr]] word_of_segments_segments6 [of a] None run
      by (simp add: display_ipv6_def)
  next
    case False
    then show ?thesis
      using read_ipv6_full [of "segments6 a"] word_of_segments_segments6 [of a] None run
      by (simp add: display_ipv6_def)
  qed
qed

subsection \<open>Characters of an address\<close>

definition addr_char :: "char \<Rightarrow> bool" where
  "addr_char c \<longleftrightarrow> is_hex_digit c \<or> c = CHR '':'' \<or> c = CHR ''.''"

lemma join_with_chars:
  "list_all P sp \<Longrightarrow> list_all (list_all P) ss \<Longrightarrow> list_all P (join_with sp ss)"
  by (induction sp ss rule: join_with.induct) auto

lemma display_groups_chars: "list_all addr_char (display_groups gs)"
proof -
  have "list_all addr_char (nat_to_hex n)" for n
    using nat_to_hex_digits [of n] by (simp add: list_all_iff addr_char_def)
  then show ?thesis
    unfolding display_groups_def by (intro join_with_chars) (simp_all add: addr_char_def list_all_iff)
qed

lemma display_ipv4_chars: "list_all addr_char (display_ipv4 w)"
proof -
  have "list_all addr_char (nat_to_string n)" for n
    using nat_to_string_digits [of n] by (simp add: list_all_iff addr_char_def is_hex_digit_def)
  then show ?thesis
    unfolding display_ipv4_def by (intro join_with_chars) (simp_all add: addr_char_def list_all_iff)
qed

lemma display_ipv6_chars: "list_all addr_char (display_ipv6 a)"
proof -
  have f: "addr_char (CHR '':'')" "addr_char (CHR ''f'')"
    by (simp_all add: addr_char_def is_hex_digit_def is_ascii_digit_def)
  then show ?thesis
    by (auto simp: display_ipv6_def display_groups_chars display_ipv4_chars split: option.split prod.split)
qed

lemma display_ipv6_not_ipv4: "read_ipv4 (display_ipv6 a) = None"
proof (cases "to_ipv4_mapped a")
  case (Some w)
  then show ?thesis
    by (simp add: display_ipv6_def read_ipv4_def read_octet_def is_ascii_digit_def)
next
  case None
  have "CHR ''.'' \<notin> set (display_ipv6 a)"
    using None display_groups_no_dot by (auto simp: display_ipv6_def split: prod.splits)
  then show ?thesis by (rule read_ipv4_no_dot)
qed

lemma parse_ip_display_ipv6 [simp]: "parse_ip (display_ipv6 a) = Some (V6 a)"
  by (simp add: parse_ip_def parse_ipv6_def display_ipv6_not_ipv4 read_ipv6_display)

lemma parse_ip_display: "parse_ip (display_ip a) = Some a"
  by (cases a) (simp_all add: display_ip_def)

lemma parse_ip_Nil [simp]: "parse_ip [] = None"
  by (simp add: parse_ip_def read_ipv4_def read_octet_def parse_ipv6_def read_ipv6_def
      read_groups.simps read_separated_def read_group_def strip_prefix_def)

lemma display_ip_not_Nil [simp]: "display_ipv6 a \<noteq> []" "display_ipv4 w \<noteq> []"
  using parse_ip_display_ipv6 [of a] parse_ip_display_ipv4 [of w] by force+

subsection \<open>What an IPv4 literal looks like\<close>

definition v4_char :: "char \<Rightarrow> bool" where
  "v4_char c \<longleftrightarrow> is_ascii_digit c \<or> c = CHR ''.''"

lemma read_octet_consumes: "read_octet s = Some (n, r) \<Longrightarrow> \<exists>p. s = p @ r \<and> list_all v4_char p"
proof -
  assume "read_octet s = Some (n, r)"
  then have "r = dropWhile is_ascii_digit s"
    by (auto simp: read_octet_def Let_def split: if_splits)
  then have "s = takeWhile is_ascii_digit s @ r" by simp
  moreover have "list_all v4_char (takeWhile is_ascii_digit s)"
    by (auto simp: list_all_iff v4_char_def dest: set_takeWhileD)
  ultimately show ?thesis by blast
qed

lemma read_octets_consumes: "read_octets k s = Some (os, r) \<Longrightarrow> \<exists>p. s = p @ r \<and> list_all v4_char p"
proof (induction k s arbitrary: os r rule: read_octets.induct)
  case (1 s)
  then show ?case by simp
next
  case (2 n s)
  obtain s1 where s1: "s = CHR ''.'' # s1" "read_char (CHR ''.'') s = Some s1"
    using "2.prems" by (cases s) (auto simp: read_char_def split: if_splits)
  obtain o1 s2 where s2: "read_octet s1 = Some (o1, s2)"
    using "2.prems" s1 by (auto split: option.splits)
  obtain os' where os: "read_octets n s2 = Some (os', r)"
    using "2.prems" s1 s2 by (auto split: option.splits)
  obtain p q where "s1 = p @ s2" "list_all v4_char p" "s2 = q @ r" "list_all v4_char q"
    using read_octet_consumes [OF s2] "2.IH" [OF s1(2) s2 refl os] by blast
  then have "s = (CHR ''.'' # p @ q) @ r" "list_all v4_char (CHR ''.'' # p @ q)"
    using s1(1) by (simp_all add: v4_char_def)
  then show ?case by blast
qed

lemma read_ipv4_consumes:
  assumes "read_ipv4 s = Some (a, r)"
  shows "\<exists>p. s = p @ r \<and> list_all v4_char p"
proof -
  obtain o1 s1 where s1: "read_octet s = Some (o1, s1)"
    using assms by (auto simp: read_ipv4_def split: option.splits)
  obtain os where os: "read_octets 3 s1 = Some (os, r)"
    using assms s1 by (auto simp: read_ipv4_def split: option.splits)
  obtain p q where "s = p @ s1" "list_all v4_char p" "s1 = q @ r" "list_all v4_char q"
    using read_octet_consumes [OF s1] read_octets_consumes [OF os] by blast
  then have "s = (p @ q) @ r" "list_all v4_char (p @ q)" by simp_all
  then show ?thesis by blast
qed

lemma read_separated_no_colon: "CHR '':'' \<notin> set t \<Longrightarrow> read_separated (Suc i) f t = None"
  by (cases t) (auto simp: read_separated_def read_char_def)

lemma read_ipv6_no_colon:
  assumes "CHR '':'' \<notin> set s" "read_ipv4 s = None"
  shows "read_ipv6 s = None"
proof -
  have sp: "strip_prefix ''::'' t = None" if "CHR '':'' \<notin> set t" for t
    using that by (cases t) (auto simp: strip_prefix_def)
  show ?thesis
  proof (cases "read_group s")
    case None
    then have "read_groups 8 0 s = ([], False, s)"
      using assms(2) by (subst read_groups.simps) (simp add: read_separated_def)
    then show ?thesis using sp [OF assms(1)] by (simp add: read_ipv6_def)
  next
    case (Some p)
    obtain g s1 where p: "p = (g, s1)" by force
    have "s1 = dropWhile is_hex_digit s"
      using Some p by (auto simp: read_group_def Let_def split: if_splits)
    then have nc: "CHR '':'' \<notin> set s1" using assms(1) set_dropWhileD by metis
    have "read_groups 8 1 s1 = ([], False, s1)"
      by (subst read_groups.simps) (simp add: read_separated_no_colon [OF nc])
    then have "read_groups 8 0 s = ([g], False, s1)"
      using assms(2) Some p by (subst read_groups.simps) (simp add: read_separated_def)
    then show ?thesis using sp [OF nc] by (simp add: read_ipv6_def)
  qed
qed

lemma parse_ip_no_colon:
  assumes "CHR '':'' \<notin> set s" "parse_ip s = Some ip"
  shows "list_all v4_char s"
proof (cases "read_ipv4 s")
  case None
  then show ?thesis
    using assms read_ipv6_no_colon [OF assms(1) None] by (simp add: parse_ip_def parse_ipv6_def)
next
  case (Some p)
  then obtain a where "read_ipv4 s = Some (a, [])"
    using assms(2) by (cases p) (auto simp: parse_ip_def split: if_splits)
  then show ?thesis using read_ipv4_consumes by force
qed

lemma parse_ip_lowercase:
  assumes "CHR '':'' \<notin> set (to_ascii_lowercase s)" "parse_ip s = None"
  shows "parse_ip (to_ascii_lowercase s) = None"
proof (rule ccontr)
  assume "parse_ip (to_ascii_lowercase s) \<noteq> None"
  then obtain ip where ip: "parse_ip (to_ascii_lowercase s) = Some ip" by blast
  have "ascii_lower_char c = c" if "c \<in> set s" for c
  proof -
    have "v4_char (ascii_lower_char c)"
      using parse_ip_no_colon [OF assms(1) ip] that by (auto simp: list_all_iff to_ascii_lowercase_def)
    then have "char_code (ascii_lower_char c) \<le> 57"
      by (auto simp: v4_char_def is_ascii_digit_def)
    then have "\<not> is_ascii_uppercase c"
      by (auto simp: char_code_lower is_ascii_uppercase_def split: if_splits)
    then show ?thesis by (simp add: ascii_lower_char_def)
  qed
  then have "to_ascii_lowercase s = s" by (simp add: to_ascii_lowercase_def map_idI)
  then show False using ip assms(2) by simp
qed

end
