(* ===== verification/Policy_Destination.thy ===== *)
theory Policy_Destination
  imports Rust_Net_V6
begin

text \<open>
  Destinations and destination patterns, \<^verbatim>\<open>src/crates/skimasque-policy/src/destination.rs\<close>:
  the concrete destination of a request, the pattern a policy rule is written with, their parsers
  and the match. An address prefix of a pattern that \<^verbatim>\<open>parse\<close> accepted is never longer than
  the address, so the slices of \<open>bits_match\<close> stay within the octets (\<open>spec_wf\<close>,
  \<open>parse_spec_wf\<close>).
\<close>

datatype parse_destination_error =
    PD_Empty string
  | PD_MissingPort string
  | PD_Malformed string string
  | PD_BadPort string
  | PD_BadPrefix u16 string

definition malformed :: "string \<Rightarrow> string \<Rightarrow> parse_destination_error" where
  "malformed v reason = PD_Malformed v reason"

datatype host = Host_Name string | Host_Ip ip_addr

record destination =
  d_host :: host
  d_port :: u16

datatype host_pattern =
    HP_Any
  | HP_Exact string
  | HP_Suffix string
  | HP_Ip ip_addr
  | HP_Cidr ip_addr u8

datatype port_pattern = PP_Any | PP_Exact u16 | PP_Range u16 u16

definition port_matches :: "port_pattern \<Rightarrow> u16 \<Rightarrow> bool" where
  "port_matches pat port =
     (case pat of
        PP_Any \<Rightarrow> True
      | PP_Exact p \<Rightarrow> p = port
      | PP_Range lo hi \<Rightarrow> lo \<le> port \<and> port \<le> hi)"

record destination_spec =
  ds_host :: host_pattern
  ds_port :: port_pattern
  ds_raw :: string

definition split_host_port :: "string \<Rightarrow> (string \<times> string) option" where
  "split_host_port text =
     (case strip_prefix ''['' text of
        Some rest \<Rightarrow>
          (case split_once_at (CHR '']'') rest of
             None \<Rightarrow> None
           | Some (addr, after) \<Rightarrow>
               (case strip_prefix '':'' after of None \<Rightarrow> None | Some port \<Rightarrow> Some (addr, port)))
      | None \<Rightarrow>
          (case rsplit_once_at (CHR '':'') text of
             None \<Rightarrow> None
           | Some (host, port) \<Rightarrow>
               if CHR '':'' \<in> set host then None else Some (host, port)))"

text \<open>The literal without the brackets of an IPv6 address.\<close>

definition unbracket :: "string \<Rightarrow> string" where
  "unbracket host =
     (case strip_prefix ''['' host of
        None \<Rightarrow> host
      | Some rest \<Rightarrow> (case strip_suffix '']'' rest of None \<Rightarrow> host | Some inner \<Rightarrow> inner))"

definition parse_host_literal :: "string \<Rightarrow> parse_destination_error + host" where
  "parse_host_literal host =
     (if host = [] then Inl (malformed host ''the host is empty'')
      else
        let unbracketed = unbracket host
        in case parse_ip unbracketed of
             Some ip \<Rightarrow> Inr (Host_Ip ip)
           | None \<Rightarrow>
               if list_ex (\<lambda>c. \<not> (is_ascii_alphanumeric c \<or> c \<in> set ''-._'')) unbracketed
               then Inl (malformed host ''the host contains an illegal character'')
               else Inr (Host_Name (to_ascii_lowercase unbracketed)))"

text \<open>A port as \<^verbatim>\<open>parse().ok().filter(|p| *p != 0)\<close> reads it.\<close>

definition parse_nonzero_port :: "string \<Rightarrow> u16 option" where
  "parse_nonzero_port text =
     (case parse_u16 text of Some p \<Rightarrow> if p \<noteq> 0 then Some p else None | None \<Rightarrow> None)"

definition destination_parse :: "string \<Rightarrow> parse_destination_error + destination" where
  "destination_parse input =
     (let text = str_trim input in
      if text = [] then Inl (PD_Empty input)
      else
        case split_host_port text of
          None \<Rightarrow> Inl (PD_MissingPort input)
        | Some (host_part, port_part) \<Rightarrow>
            (case parse_nonzero_port port_part of
               None \<Rightarrow> Inl (PD_BadPort port_part)
             | Some port \<Rightarrow>
                 (case parse_host_literal host_part of
                    Inl e \<Rightarrow> Inl e
                  | Inr host \<Rightarrow> Inr \<lparr>d_host = host, d_port = port\<rparr>)))"

definition destination_display :: "destination \<Rightarrow> string" where
  "destination_display d =
     (case d_host d of
        Host_Name name \<Rightarrow> name @ '':'' @ nat_to_string (unat (d_port d))
      | Host_Ip (V4 v4) \<Rightarrow> display_ipv4 v4 @ '':'' @ nat_to_string (unat (d_port d))
      | Host_Ip (V6 v6) \<Rightarrow> ''['' @ display_ipv6 v6 @ '']:'' @ nat_to_string (unat (d_port d)))"

definition parse_port_pattern :: "string \<Rightarrow> parse_destination_error + port_pattern" where
  "parse_port_pattern text =
     (if text = ''*'' then Inr PP_Any
      else
        case split_once_at (CHR ''-'') text of
          Some (lo, hi) \<Rightarrow>
            (case parse_u16 lo of
               None \<Rightarrow> Inl (PD_BadPort text)
             | Some l \<Rightarrow>
                 (case parse_u16 hi of
                    None \<Rightarrow> Inl (PD_BadPort text)
                  | Some h \<Rightarrow>
                      if l = 0 \<or> h = 0 \<or> l > h then Inl (PD_BadPort text)
                      else Inr (PP_Range l h)))
        | None \<Rightarrow>
            (case parse_nonzero_port text of
               None \<Rightarrow> Inl (PD_BadPort text)
             | Some port \<Rightarrow> Inr (PP_Exact port)))"

definition parse_host_pattern :: "string \<Rightarrow> string \<Rightarrow> parse_destination_error + host_pattern" where
  "parse_host_pattern input host_part =
     (if host_part = ''*'' then Inr HP_Any
      else
        case strip_prefix ''*.'' host_part of
          Some suffix \<Rightarrow>
            if suffix = [] \<or> CHR ''*'' \<in> set suffix
            then Inl (malformed input ''a wildcard host must be *.<domain>'')
            else Inr (HP_Suffix (CHR ''.'' # to_ascii_lowercase suffix))
        | None \<Rightarrow>
            (case parse_ip host_part of
               Some ip \<Rightarrow> Inr (HP_Ip ip)
             | None \<Rightarrow>
                 (case parse_host_literal host_part of
                    Inl e \<Rightarrow> Inl e
                  | Inr (Host_Name name) \<Rightarrow> Inr (HP_Exact name)
                  | Inr (Host_Ip ip) \<Rightarrow> Inr (HP_Ip ip))))"

definition parse_cidr ::
  "string \<Rightarrow> string \<Rightarrow> string \<Rightarrow> parse_destination_error + host_pattern" where
  "parse_cidr input addr len =
     (case parse_ip addr of
        None \<Rightarrow> Inl (malformed input ''the part before / is not an IP address'')
      | Some a \<Rightarrow>
          (case parse_u16 len of
             None \<Rightarrow> Inl (malformed input ''the prefix length is not a number'')
           | Some l \<Rightarrow>
               let max = (if is_ipv4 a then 32 else 128) in
               if l > max
               then Inl (PD_BadPrefix l (if is_ipv4 a then ''IPv4'' else ''IPv6''))
               else Inr (HP_Cidr a (ucast l))))"

definition spec_parse :: "string \<Rightarrow> parse_destination_error + destination_spec" where
  "spec_parse input =
     (let text = str_trim input in
      if text = [] then Inl (PD_Empty input)
      else if text = ''*'' then Inr \<lparr>ds_host = HP_Any, ds_port = PP_Any, ds_raw = text\<rparr>
      else
        case split_once_at (CHR ''/'') text of
          Some (addr, len) \<Rightarrow>
            (case parse_cidr input addr len of
               Inl e \<Rightarrow> Inl e
             | Inr h \<Rightarrow> Inr \<lparr>ds_host = h, ds_port = PP_Any, ds_raw = text\<rparr>)
        | None \<Rightarrow>
            (case (case split_host_port text of
                     Some (host, port_str) \<Rightarrow>
                       (case parse_port_pattern port_str of Inl e \<Rightarrow> Inl e | Inr p \<Rightarrow> Inr (host, p))
                   | None \<Rightarrow> Inr (text, PP_Any)) of
               Inl e \<Rightarrow> Inl e
             | Inr (host_part, port) \<Rightarrow>
                 (case parse_host_pattern input host_part of
                    Inl e \<Rightarrow> Inl e
                  | Inr h \<Rightarrow> Inr \<lparr>ds_host = h, ds_port = port, ds_raw = text\<rparr>)))"

subsection \<open>Matching\<close>

definition bits_match :: "bytes \<Rightarrow> bytes \<Rightarrow> u8 \<Rightarrow> bool" where
  "bits_match net got len =
     (let whole = unat (len div 8) in
      if take whole net \<noteq> take whole got then False
      else
        let remainder = len mod 8 in
        if remainder = 0 then True
        else
          let mask = push_bit (8 - unat remainder) (0xff :: u8) in
          (net ! whole AND mask) = (got ! whole AND mask))"

definition cidr_contains :: "ip_addr \<Rightarrow> u8 \<Rightarrow> ip_addr \<Rightarrow> bool" where
  "cidr_contains addr len candidate =
     (case (addr, candidate) of
        (V4 net, V4 got) \<Rightarrow> bits_match (octets4 net) (octets4 got) len
      | (V6 net, V6 got) \<Rightarrow> bits_match (octets6 net) (octets6 got) len
      | _ \<Rightarrow> False)"

definition host_matches :: "host_pattern \<Rightarrow> host \<Rightarrow> bool" where
  "host_matches pat h =
     (case (pat, h) of
        (HP_Any, _) \<Rightarrow> True
      | (HP_Exact want, Host_Name got) \<Rightarrow> want = got
      | (HP_Suffix suffix, Host_Name got) \<Rightarrow> ends_with got suffix
      | (HP_Ip want, Host_Ip got) \<Rightarrow> want = got
      | (HP_Cidr addr len, Host_Ip got) \<Rightarrow> cidr_contains addr len got
      | _ \<Rightarrow> False)"

definition spec_matches :: "destination_spec \<Rightarrow> destination \<Rightarrow> bool" where
  "spec_matches s d \<longleftrightarrow> port_matches (ds_port s) (d_port d) \<and> host_matches (ds_host s) (d_host d)"

subsection \<open>Well-formed patterns\<close>

definition name_char :: "char \<Rightarrow> bool" where
  "name_char c \<longleftrightarrow> (is_ascii_alphanumeric c \<or> c \<in> set ''-._'') \<and> \<not> is_ascii_uppercase c"

definition host_wf :: "host \<Rightarrow> bool" where
  "host_wf h = (case h of Host_Name n \<Rightarrow> list_all name_char n | Host_Ip _ \<Rightarrow> True)"

definition destination_wf :: "destination \<Rightarrow> bool" where
  "destination_wf d \<longleftrightarrow> d_port d \<noteq> 0 \<and> host_wf (d_host d)"

definition addr_bits :: "ip_addr \<Rightarrow> nat" where
  "addr_bits a = (case a of V4 _ \<Rightarrow> 32 | V6 _ \<Rightarrow> 128)"

definition spec_wf :: "destination_spec \<Rightarrow> bool" where
  "spec_wf s \<longleftrightarrow>
     (case ds_host s of
        HP_Cidr a len \<Rightarrow> unat len \<le> addr_bits a
      | HP_Exact n \<Rightarrow> list_all name_char n
      | HP_Suffix n \<Rightarrow> 1 < length n \<and> hd n = CHR ''.'' \<and> CHR ''*'' \<notin> set n
      | _ \<Rightarrow> True) \<and>
     (case ds_port s of
        PP_Any \<Rightarrow> True
      | PP_Exact p \<Rightarrow> p \<noteq> 0
      | PP_Range lo hi \<Rightarrow> lo \<noteq> 0 \<and> lo \<le> hi)"

subsection \<open>CIDR membership is agreement of the leading bits\<close>

lemma be_bytes_nth: "i < n \<Longrightarrow> be_bytes n w ! i = ucast (drop_bit (8 * (n - 1 - i)) w)"
  by (simp add: be_bytes_def rev_nth)

lemma be_bytes_nth_bit:
  "i < n \<Longrightarrow> bit (be_bytes n w ! i) j \<longleftrightarrow> j < 8 \<and> bit w (8 * (n - 1 - i) + j)"
  by (simp add: be_bytes_nth bit_simps)

lemma be_bytes_nth_eq:
  assumes "i < n"
  shows "be_bytes n a ! i = be_bytes n b ! i \<longleftrightarrow>
    (\<forall>k. 8 * (n - 1 - i) \<le> k \<and> k < 8 * (n - i) \<longrightarrow> bit a k = bit b k)" (is "?L \<longleftrightarrow> ?R")
proof
  assume ?L
  show ?R
  proof (intro allI impI)
    fix k assume k: "8 * (n - 1 - i) \<le> k \<and> k < 8 * (n - i)"
    let ?j = "k - 8 * (n - 1 - i)"
    have "?j < 8" "8 * (n - 1 - i) + ?j = k" using k assms by auto
    with arg_cong [OF \<open>?L\<close>, of "\<lambda>x. bit x ?j"] show "bit a k = bit b k"
      by (simp add: be_bytes_nth_bit [OF assms])
  qed
next
  assume R: ?R
  show ?L
  proof (rule bit_word_eqI)
    fix j :: nat assume "j < LENGTH(8)"
    then have "8 * (n - 1 - i) + j < 8 * (n - i)" using assms by simp
    then show "bit (be_bytes n a ! i) j = bit (be_bytes n b ! i) j"
      using R by (simp add: be_bytes_nth_bit [OF assms])
  qed
qed

lemma be_bytes_take_eq:
  assumes "m \<le> n"
  shows "take m (be_bytes n a) = take m (be_bytes n b) \<longleftrightarrow>
    (\<forall>k. 8 * (n - m) \<le> k \<and> k < 8 * n \<longrightarrow> bit a k = bit b k)"
proof -
  have "take m (be_bytes n a) = take m (be_bytes n b) \<longleftrightarrow>
      (\<forall>i < m. be_bytes n a ! i = be_bytes n b ! i)"
    using assms by (auto simp: list_eq_iff_nth_eq)
  also have "\<dots> \<longleftrightarrow> (\<forall>i < m. \<forall>k. 8 * (n - 1 - i) \<le> k \<and> k < 8 * (n - i) \<longrightarrow> bit a k = bit b k)"
    using assms by (auto simp: be_bytes_nth_eq)
  also have "\<dots> \<longleftrightarrow> (\<forall>k. 8 * (n - m) \<le> k \<and> k < 8 * n \<longrightarrow> bit a k = bit b k)"
  proof
    assume all: "\<forall>i < m. \<forall>k. 8 * (n - 1 - i) \<le> k \<and> k < 8 * (n - i) \<longrightarrow> bit a k = bit b k"
    show "\<forall>k. 8 * (n - m) \<le> k \<and> k < 8 * n \<longrightarrow> bit a k = bit b k"
    proof (intro allI impI)
      fix k assume k: "8 * (n - m) \<le> k \<and> k < 8 * n"
      let ?i = "n - 1 - k div 8"
      have "k div 8 < n" using k by auto
      then have "?i < m" "8 * (n - 1 - ?i) \<le> k" "k < 8 * (n - ?i)" using k assms by auto
      then show "bit a k = bit b k" using all by blast
    qed
  next
    assume all: "\<forall>k. 8 * (n - m) \<le> k \<and> k < 8 * n \<longrightarrow> bit a k = bit b k"
    show "\<forall>i < m. \<forall>k. 8 * (n - 1 - i) \<le> k \<and> k < 8 * (n - i) \<longrightarrow> bit a k = bit b k"
    proof (intro allI impI)
      fix i k assume "i < m" "8 * (n - 1 - i) \<le> k \<and> k < 8 * (n - i)"
      then have "8 * (n - m) \<le> k \<and> k < 8 * n" using assms by linarith
      then show "bit a k = bit b k" using all by blast
    qed
  qed
  finally show ?thesis .
qed

lemma byte_mask_eq:
  assumes "i < n" "0 < r" "r < 8"
  shows "(be_bytes n a ! i AND push_bit (8 - r) 0xff) = (be_bytes n b ! i AND push_bit (8 - r) 0xff) \<longleftrightarrow>
    (\<forall>k. 8 * (n - i) - r \<le> k \<and> k < 8 * (n - i) \<longrightarrow> bit a k = bit b k)" (is "?L \<longleftrightarrow> ?R")
proof -
  have m: "bit (push_bit (8 - r) (0xff :: u8)) j \<longleftrightarrow> 8 - r \<le> j \<and> j < 8" for j
  proof -
    have "(0xff :: u8) = mask 8" by (simp add: mask_eq_exp_minus_1)
    then show ?thesis by (simp only: bit_push_bit_iff bit_mask_iff possible_bit_word) auto
  qed
  have "?L \<longleftrightarrow> (\<forall>j. 8 - r \<le> j \<and> j < 8 \<longrightarrow>
      bit a (8 * (n - 1 - i) + j) = bit b (8 * (n - 1 - i) + j))"
    by (auto simp: bit_eq_iff bit_and_iff m be_bytes_nth_bit [OF assms(1)])
  also have "\<dots> \<longleftrightarrow> ?R"
  proof
    assume all: "\<forall>j. 8 - r \<le> j \<and> j < 8 \<longrightarrow>
        bit a (8 * (n - 1 - i) + j) = bit b (8 * (n - 1 - i) + j)"
    show ?R
    proof (intro allI impI)
      fix k assume k: "8 * (n - i) - r \<le> k \<and> k < 8 * (n - i)"
      let ?j = "k - 8 * (n - 1 - i)"
      have "8 - r \<le> ?j" "?j < 8" "8 * (n - 1 - i) + ?j = k" using k assms by auto
      then show "bit a k = bit b k" using all by metis
    qed
  next
    assume all: ?R
    show "\<forall>j. 8 - r \<le> j \<and> j < 8 \<longrightarrow>
        bit a (8 * (n - 1 - i) + j) = bit b (8 * (n - 1 - i) + j)"
    proof (intro allI impI)
      fix j assume "8 - r \<le> j \<and> j < 8"
      then have "8 * (n - i) - r \<le> 8 * (n - 1 - i) + j \<and> 8 * (n - 1 - i) + j < 8 * (n - i)"
        using assms by linarith
      then show "bit a (8 * (n - 1 - i) + j) = bit b (8 * (n - 1 - i) + j)" using all by blast
    qed
  qed
  finally show ?thesis .
qed

lemma all_disj_split:
  "(\<forall>k. A k \<or> (c \<and> B k) \<longrightarrow> P k) \<longleftrightarrow> (\<forall>k. A k \<longrightarrow> P k) \<and> (c \<longrightarrow> (\<forall>k. B k \<longrightarrow> P k))"
  by blast

lemma drop_bit_eq_iff_high_bits:
  "drop_bit m a = drop_bit m (b :: 'a::len word) \<longleftrightarrow> (\<forall>k. m \<le> k \<and> k < LENGTH('a) \<longrightarrow> bit a k = bit b k)"
  (is "?L \<longleftrightarrow> ?R")
proof
  assume L: ?L
  show ?R
  proof (intro allI impI)
    fix k assume "m \<le> k \<and> k < LENGTH('a)"
    then show "bit a k = bit b k"
      using arg_cong [OF L, of "\<lambda>x. bit x (k - m)"] by (simp add: bit_drop_bit_eq)
  qed
next
  assume R: ?R
  show ?L
  proof (rule bit_word_eqI)
    fix j
    show "bit (drop_bit m a) j = bit (drop_bit m b) j"
      using R by (cases "m + j < LENGTH('a)") (auto simp: bit_drop_bit_eq dest: bit_imp_le_length)
  qed
qed

lemma bits_match_spec:
  assumes "LENGTH('a) = 8 * n" "unat len \<le> 8 * n"
  shows "bits_match (be_bytes n a) (be_bytes n b) len \<longleftrightarrow>
    drop_bit (8 * n - unat len) a = drop_bit (8 * n - unat len) (b :: 'a::len word)"
proof -
  let ?w = "unat len div 8" and ?r = "unat len mod 8"
  have len: "unat len = 8 * ?w + ?r" by simp
  have w: "?w \<le> n" using assms(2) by linarith
  have d: "unat (len div 8) = ?w" "unat (len mod 8) = ?r"
    by (simp_all add: unat_div_distrib unat_mod_distrib)
  have z: "len mod 8 = 0 \<longleftrightarrow> ?r = 0" using d(2) by (metis unsigned_0 word_unat_eq_iff)
  have lo: "bits_match (be_bytes n a) (be_bytes n b) len \<longleftrightarrow>
      (\<forall>k. 8 * (n - ?w) \<le> k \<and> k < 8 * n \<longrightarrow> bit a k = bit b k) \<and>
      (0 < ?r \<longrightarrow> (\<forall>k. 8 * (n - ?w) - ?r \<le> k \<and> k < 8 * (n - ?w) \<longrightarrow> bit a k = bit b k))"
  proof (cases "?r = 0")
    case True
    then show ?thesis using w by (simp add: bits_match_def Let_def d z be_bytes_take_eq)
  next
    case False
    then have "?w < n" using len assms(2) by linarith
    then show ?thesis using False w
      by (simp add: bits_match_def Let_def d z be_bytes_take_eq byte_mask_eq)
  qed
  have e: "8 * n - unat len = 8 * (n - ?w) - ?r" using len w by linarith
  have "8 * (n - ?w) - ?r \<le> k \<and> k < 8 * n \<longleftrightarrow> (8 * (n - ?w) \<le> k \<and> k < 8 * n) \<or>
      (0 < ?r \<and> 8 * (n - ?w) - ?r \<le> k \<and> k < 8 * (n - ?w))" for k
    by auto
  then have "(\<forall>k. 8 * (n - ?w) - ?r \<le> k \<and> k < 8 * n \<longrightarrow> bit a k = bit b k) \<longleftrightarrow>
      (\<forall>k. 8 * (n - ?w) \<le> k \<and> k < 8 * n \<longrightarrow> bit a k = bit b k) \<and>
      (0 < ?r \<longrightarrow> (\<forall>k. 8 * (n - ?w) - ?r \<le> k \<and> k < 8 * (n - ?w) \<longrightarrow> bit a k = bit b k))"
    by (simp only: all_disj_split [symmetric])
  then show ?thesis by (simp only: lo drop_bit_eq_iff_high_bits assms(1) e)
qed

subsection \<open>What the parsers guarantee\<close>

lemma reg_name_code:
  "is_ascii_alphanumeric c \<or> c \<in> set ''-._'' \<longleftrightarrow>
     char_code c = 45 \<or> char_code c = 46 \<or> char_code c = 95 \<or>
     (48 \<le> char_code c \<and> char_code c \<le> 57) \<or> (65 \<le> char_code c \<and> char_code c \<le> 90) \<or>
     (97 \<le> char_code c \<and> char_code c \<le> 122)"
proof -
  have "c \<in> set ''-._'' \<longleftrightarrow> char_code c = 45 \<or> char_code c = 46 \<or> char_code c = 95"
    by (simp add: char_eq_code del: char_code_inject)
  then show ?thesis by (auto simp: alphanumeric_code)
qed

lemma name_char_code:
  "name_char c \<longleftrightarrow>
     char_code c = 45 \<or> char_code c = 46 \<or> char_code c = 95 \<or>
     (48 \<le> char_code c \<and> char_code c \<le> 57) \<or> (97 \<le> char_code c \<and> char_code c \<le> 122)"
  unfolding name_char_def reg_name_code is_ascii_uppercase_def by auto

lemma name_char_lower:
  "is_ascii_alphanumeric c \<or> c \<in> set ''-._'' \<Longrightarrow> name_char (ascii_lower_char c)"
  unfolding reg_name_code name_char_code char_code_lower by auto

lemma name_chars_lower:
  "\<not> list_ex (\<lambda>c. \<not> (is_ascii_alphanumeric c \<or> c \<in> set ''-._'')) n \<Longrightarrow>
    list_all name_char (to_ascii_lowercase n)"
  unfolding to_ascii_lowercase_def list_all_iff list_ex_iff
  using name_char_lower by (simp only: set_map) blast

lemma parse_host_literal_wf: "parse_host_literal h = Inr r \<Longrightarrow> host_wf r"
  by (auto simp: parse_host_literal_def Let_def host_wf_def name_chars_lower
      split: if_splits option.splits)

lemma parse_nonzero_port_Some: "parse_nonzero_port t = Some p \<Longrightarrow> p \<noteq> 0"
  by (auto simp: parse_nonzero_port_def split: option.splits if_splits)

lemma destination_parse_wf: "destination_parse input = Inr d \<Longrightarrow> destination_wf d"
  by (auto simp: destination_parse_def Let_def destination_wf_def parse_host_literal_wf
      parse_nonzero_port_Some split: if_splits option.splits sum.splits)

lemma parse_port_pattern_wf:
  "parse_port_pattern t = Inr p \<Longrightarrow>
    (case p of PP_Any \<Rightarrow> True | PP_Exact q \<Rightarrow> q \<noteq> 0 | PP_Range lo hi \<Rightarrow> lo \<noteq> 0 \<and> lo \<le> hi)"
  by (auto simp: parse_port_pattern_def parse_nonzero_port_Some
      split: if_splits option.splits)

lemma parse_cidr_wf:
  assumes "parse_cidr input addr len = Inr h"
  shows "\<exists>a l. h = HP_Cidr a l \<and> unat l \<le> addr_bits a"
proof -
  obtain a where a: "parse_ip addr = Some a"
    using assms by (cases "parse_ip addr") (auto simp: parse_cidr_def)
  obtain l where l: "parse_u16 len = Some l"
    using assms a by (cases "parse_u16 len") (auto simp: parse_cidr_def)
  have h: "h = HP_Cidr a (ucast l)" and le: "\<not> l > (if is_ipv4 a then 32 else 128)"
    using assms a l by (auto simp: parse_cidr_def Let_def split: if_splits)
  have "unat l \<le> addr_bits a"
    using le by (cases a) (auto simp: is_ipv4_def addr_bits_def word_less_nat_alt not_less)
  moreover from this have "unat (ucast l :: u8) = unat l"
    by (cases a) (simp_all add: addr_bits_def unsigned_ucast_eq take_bit_eq_mod)
  ultimately show ?thesis using h by simp
qed

lemma star_in_lowercase: "CHR ''*'' \<in> set (to_ascii_lowercase s) \<longleftrightarrow> CHR ''*'' \<in> set s"
proof -
  have "CHR ''*'' = ascii_lower_char c \<longleftrightarrow> c = CHR ''*''" for c
    by (auto simp: char_eq_code char_code_lower simp del: char_code_inject)
  then show ?thesis unfolding to_ascii_lowercase_def by (simp add: image_iff)
qed

lemma parse_host_pattern_wf:
  "parse_host_pattern input h = Inr pat \<Longrightarrow>
    (case pat of
       HP_Cidr _ _ \<Rightarrow> False
     | HP_Exact n \<Rightarrow> list_all name_char n
     | HP_Suffix n \<Rightarrow> 1 < length n \<and> hd n = CHR ''.'' \<and> CHR ''*'' \<notin> set n
     | _ \<Rightarrow> True)"
  using parse_host_literal_wf [of h]
  by (auto simp: parse_host_pattern_def host_wf_def star_in_lowercase
      split: if_splits option.splits sum.splits host.splits)

lemma parse_spec_wf: "spec_parse input = Inr s \<Longrightarrow> spec_wf s \<and> ds_raw s = str_trim input"
  by (auto simp: spec_parse_def Let_def spec_wf_def
      split: if_splits option.splits sum.splits prod.splits
      dest!: parse_port_pattern_wf parse_cidr_wf parse_host_pattern_wf
      split: host_pattern.splits)

subsection \<open>Printing and parsing\<close>

lemma digits_name_char: "list_all name_char (nat_to_string n)"
  using nat_to_string_digits [of n] by (auto simp: list_all_iff name_char_code is_ascii_digit_def)

lemma display_ipv4_name_char: "list_all name_char (display_ipv4 w)"
proof -
  have dot: "name_char (CHR ''.'')" by (simp add: name_char_code)
  obtain a b c d where "map unat (octets4 w) = [a, b, c, d]" by (rule octets4_parts)
  then have "display_ipv4 w = join_with ''.'' (map nat_to_string [a, b, c, d])"
    by (metis display_ipv4_def map_map)
  then show ?thesis by (simp add: digits_name_char dot)
qed

lemma name_chars_plain:
  assumes "list_all name_char n"
  shows "is_graphic_str n" "CHR '':'' \<notin> set n" "to_ascii_lowercase n = n"
    "\<not> list_ex (\<lambda>c. \<not> (is_ascii_alphanumeric c \<or> c \<in> set ''-._'')) n"
    "n \<noteq> [] \<Longrightarrow> strip_prefix ''['' (n @ r) = None"
proof -
  show "is_graphic_str n"
    using assms by (auto simp: is_graphic_str_def list_all_iff name_char_code)
  show "CHR '':'' \<notin> set n"
    using assms by (auto simp: list_all_iff name_char_code)
  show "to_ascii_lowercase n = n"
    using assms by (auto simp: list_all_iff name_char_def to_ascii_lowercase_def ascii_lower_char_def
        intro!: map_idI)
  show "\<not> list_ex (\<lambda>c. \<not> (is_ascii_alphanumeric c \<or> c \<in> set ''-._'')) n"
    using assms by (auto simp: list_all_iff list_ex_iff name_char_def)
  show "strip_prefix ''['' (n @ r) = None" if "n \<noteq> []"
    using that assms by (cases n) (auto simp: strip_prefix_Cons name_char_code)
qed

lemma parse_host_literal_plain:
  assumes "list_all name_char n" "n \<noteq> []"
  shows "parse_host_literal n =
    Inr (case parse_ip n of Some ip \<Rightarrow> Host_Ip ip | None \<Rightarrow> Host_Name n)"
  using name_chars_plain [OF assms(1)] assms(2) name_chars_plain(5) [OF assms, of "[]"]
  by (auto simp: parse_host_literal_def unbracket_def Let_def split: option.splits)

lemma destination_parse_plain:
  assumes "list_all name_char n" "n \<noteq> []" "p \<noteq> 0"
  shows "destination_parse (n @ '':'' @ nat_to_string (unat p)) =
    Inr \<lparr>d_host = (case parse_ip n of Some ip \<Rightarrow> Host_Ip ip | None \<Rightarrow> Host_Name n), d_port = p\<rparr>"
proof -
  let ?port = "nat_to_string (unat p)"
  let ?t = "n @ '':'' @ ?port"
  note n = name_chars_plain [OF assms(1)] and d = name_chars_plain [OF digits_name_char [of "unat p"]]
  have "is_graphic_str ?t" using n(1) d(1) by (simp add: is_graphic_str_def)
  then have trim: "str_trim ?t = ?t" by (rule str_trim_graphic)
  have "rsplit_once_at (CHR '':'') ?t = Some (n, ?port)"
    using rsplit_once_at_append [of "CHR '':''" ?port n] d(2) by simp
  then have "split_host_port ?t = Some (n, ?port)"
    using n(2) name_chars_plain(5) [OF assms(1,2), of "'':'' @ ?port"]
    by (simp add: split_host_port_def)
  moreover have "parse_nonzero_port ?port = Some p"
    using assms(3) by (simp add: parse_nonzero_port_def)
  ultimately show ?thesis
    using trim by (simp add: destination_parse_def Let_def parse_host_literal_plain [OF assms(1,2)])
qed

lemma addr_chars_plain:
  assumes "list_all addr_char s"
  shows "is_graphic_str s" "CHR '']'' \<notin> set s" "CHR ''['' \<notin> set s" "CHR ''/'' \<notin> set s"
    "CHR ''*'' \<notin> set s"
  using assms
  by (auto simp: is_graphic_str_def list_all_iff addr_char_def is_hex_digit_def is_ascii_digit_def)

lemma split_host_port_v6:
  "split_host_port (''['' @ display_ipv6 a @ '']:'' @ p) = Some (display_ipv6 a, p)"
  using split_once_at_append [of "CHR '']''" "display_ipv6 a" "'':'' @ p"]
    addr_chars_plain(2) [OF display_ipv6_chars, of a]
  by (simp add: split_host_port_def strip_prefix_def)

lemma bracketed_graphic: "is_graphic_str (''['' @ display_ipv6 a @ '']:'' @ nat_to_string n)"
  using addr_chars_plain(1) [OF display_ipv6_chars, of a] name_chars_plain(1) [OF digits_name_char, of n]
  by (simp add: is_graphic_str_def)

lemma destination_parse_v6:
  assumes "p \<noteq> 0"
  shows "destination_parse (''['' @ display_ipv6 a @ '']:'' @ nat_to_string (unat p)) =
    Inr \<lparr>d_host = Host_Ip (V6 a), d_port = p\<rparr>"
proof -
  have "strip_prefix ''['' (display_ipv6 a) = None"
    using addr_chars_plain(3) [OF display_ipv6_chars, of a]
    by (cases "display_ipv6 a") (auto simp: strip_prefix_Cons)
  then have "parse_host_literal (display_ipv6 a) = Inr (Host_Ip (V6 a))"
    by (simp add: parse_host_literal_def unbracket_def)
  moreover have "parse_nonzero_port (nat_to_string (unat p)) = Some p"
    using assms by (simp add: parse_nonzero_port_def)
  ultimately show ?thesis
    using str_trim_graphic [OF bracketed_graphic, of a "unat p"] split_host_port_v6 [of a]
    by (simp add: destination_parse_def)
qed

lemma destination_roundtrip:
  assumes "destination_wf d"
    and "case d_host d of Host_Name n \<Rightarrow> n \<noteq> [] \<and> parse_ip n = None | Host_Ip _ \<Rightarrow> True"
  shows "destination_parse (destination_display d) = Inr d"
proof (cases "d_host d")
  case (Host_Name n)
  then show ?thesis
    using assms destination_parse_plain [of n "d_port d"]
    by (simp add: destination_display_def destination_wf_def host_wf_def)
next
  case (Host_Ip ip)
  then show ?thesis
    using assms(1) destination_parse_plain [OF display_ipv4_name_char] destination_parse_v6
    by (cases ip) (simp_all add: destination_display_def destination_wf_def)
qed

lemma unbracket_cases: "unbracket h = h \<or> h = ''['' @ unbracket h @ '']''"
  by (auto simp: unbracket_def split: option.splits dest!: strip_prefix_SomeD strip_suffix_SomeD)

lemma parse_host_literal_printable:
  assumes "parse_host_literal h = Inr (Host_Name n)" "h \<noteq> ''[]''"
  shows "n \<noteq> [] \<and> parse_ip n = None"
proof -
  let ?u = "unbracket h"
  have u: "n = to_ascii_lowercase ?u" "parse_ip ?u = None"
      "\<not> list_ex (\<lambda>c. \<not> (is_ascii_alphanumeric c \<or> c \<in> set ''-._'')) ?u" "h \<noteq> []"
    using assms(1) by (auto simp: parse_host_literal_def Let_def split: if_splits option.splits)
  have "list_all name_char n" unfolding u(1) by (rule name_chars_lower [OF u(3)])
  then have "CHR '':'' \<notin> set n" by (rule name_chars_plain)
  then have "parse_ip n = None" using parse_ip_lowercase u(1,2) by simp
  moreover have "?u \<noteq> []" using unbracket_cases [of h] u(4) assms(2) by auto
  ultimately show ?thesis using u(1) by (simp add: to_ascii_lowercase_def)
qed

lemma split_host_port_not_brackets: "split_host_port t = Some (h, p) \<Longrightarrow> h \<noteq> ''[]''"
  by (auto simp: split_host_port_def strip_prefix_Cons split: option.splits if_splits list.splits
      dest!: split_once_at_SomeD rsplit_once_at_SomeD)

lemma destination_parse_printable:
  assumes "destination_parse s = Inr d"
  shows "case d_host d of Host_Name n \<Rightarrow> n \<noteq> [] \<and> parse_ip n = None | Host_Ip _ \<Rightarrow> True"
proof -
  obtain h p host where "split_host_port (str_trim s) = Some (h, p)" "parse_host_literal h = Inr host"
      "d_host d = host"
    using assms by (auto simp: destination_parse_def Let_def split: if_splits option.splits sum.splits)
  then show ?thesis
    using split_host_port_not_brackets parse_host_literal_printable [of h]
    by (cases host) auto
qed

lemma parse_port_pattern_number:
  assumes "p \<noteq> 0"
  shows "parse_port_pattern (nat_to_string (unat p)) = Inr (PP_Exact p)"
proof -
  let ?n = "nat_to_string (unat p)"
  have dig: "\<And>c. c \<in> set ?n \<Longrightarrow> is_ascii_digit c" using nat_to_string_digits [of "unat p"] by (simp add: list_all_iff)
  then have "CHR ''-'' \<notin> set ?n" "CHR ''*'' \<notin> set ?n"
    by (auto simp: is_ascii_digit_def dest!: dig)
  then have "split_once_at (CHR ''-'') ?n = None" "?n \<noteq> ''*''"
    by (auto simp: split_once_at_None_iff)
  then show ?thesis using assms by (simp add: parse_port_pattern_def parse_nonzero_port_def)
qed

text \<open>The pattern for exactly one destination.\<close>

definition exact_spec :: "destination \<Rightarrow> destination_spec" where
  "exact_spec d = \<lparr>ds_host = (case d_host d of Host_Name n \<Rightarrow> HP_Exact n | Host_Ip ip \<Rightarrow> HP_Ip ip),
     ds_port = PP_Exact (d_port d), ds_raw = destination_display d\<rparr>"

lemma exact_spec_matches: "spec_matches (exact_spec d) e \<longleftrightarrow> e = d"
  by (cases "d_host d"; cases "d_host e"; cases d; cases e)
     (auto simp: spec_matches_def exact_spec_def port_matches_def host_matches_def)

lemma spec_parse_plain:
  assumes "list_all name_char n" "n \<noteq> []" "p \<noteq> 0"
  shows "spec_parse (n @ '':'' @ nat_to_string (unat p)) =
    Inr \<lparr>ds_host = (case parse_ip n of Some ip \<Rightarrow> HP_Ip ip | None \<Rightarrow> HP_Exact n),
      ds_port = PP_Exact p, ds_raw = n @ '':'' @ nat_to_string (unat p)\<rparr>"
proof -
  let ?port = "nat_to_string (unat p)"
  let ?t = "n @ '':'' @ ?port"
  note n = name_chars_plain [OF assms(1)] and d = name_chars_plain [OF digits_name_char [of "unat p"]]
  have "is_graphic_str ?t" using n(1) d(1) by (simp add: is_graphic_str_def)
  then have trim: "str_trim ?t = ?t" by (rule str_trim_graphic)
  have nc: "\<not> name_char (CHR ''/'')" "\<not> name_char (CHR ''*'')" by (simp_all add: name_char_code)
  then have "CHR ''/'' \<notin> set ?t" "CHR ''*'' \<notin> set n"
    using assms(1) digits_name_char [of "unat p"] by (auto simp: list_all_iff)
  then have slash: "split_once_at (CHR ''/'') ?t = None"
    and star: "n \<noteq> ''*''" "strip_prefix ''*.'' n = None"
    by (auto simp: split_once_at_None_iff strip_prefix_def) (metis in_set_takeD list.set_intros(1))
  have "rsplit_once_at (CHR '':'') ?t = Some (n, ?port)"
    using rsplit_once_at_append [of "CHR '':''" ?port n] d(2) by simp
  then have "split_host_port ?t = Some (n, ?port)"
    using n(2) name_chars_plain(5) [OF assms(1,2), of "'':'' @ ?port"]
    by (simp add: split_host_port_def)
  moreover have "?t \<noteq> ''*''" using assms(2) by (cases n) auto
  ultimately show ?thesis
    using trim slash star
    by (auto simp: spec_parse_def Let_def parse_port_pattern_number [OF assms(3)] parse_host_pattern_def
        parse_host_literal_plain [OF assms(1,2)] split: option.splits)
qed

lemma spec_parse_v6:
  assumes "p \<noteq> 0"
  shows "spec_parse (''['' @ display_ipv6 a @ '']:'' @ nat_to_string (unat p)) =
    Inr \<lparr>ds_host = HP_Ip (V6 a), ds_port = PP_Exact p,
      ds_raw = ''['' @ display_ipv6 a @ '']:'' @ nat_to_string (unat p)\<rparr>"
proof -
  let ?t = "''['' @ display_ipv6 a @ '']:'' @ nat_to_string (unat p)"
  note ch = addr_chars_plain [OF display_ipv6_chars, of a]
  have "\<not> name_char (CHR ''/'')" by (simp add: name_char_code)
  then have "CHR ''/'' \<notin> set ?t" using ch digits_name_char [of "unat p"] by (auto simp: list_all_iff)
  then have "split_once_at (CHR ''/'') ?t = None" by (simp add: split_once_at_None_iff)
  moreover have "display_ipv6 a \<noteq> ''*''" "strip_prefix ''*.'' (display_ipv6 a) = None"
    using ch(5) by (auto simp: strip_prefix_def) (metis in_set_takeD list.set_intros(1))
  ultimately show ?thesis
    using str_trim_graphic [OF bracketed_graphic, of a "unat p"] split_host_port_v6 [of a]
    by (simp add: spec_parse_def parse_port_pattern_number [OF assms] parse_host_pattern_def)
qed

lemma spec_parse_display:
  assumes "destination_parse s = Inr d"
  shows "spec_parse (destination_display d) = Inr (exact_spec d)"
proof (cases "d_host d")
  case (Host_Name n)
  then show ?thesis
    using destination_parse_wf [OF assms] destination_parse_printable [OF assms]
      spec_parse_plain [of n "d_port d"]
    by (simp add: destination_display_def destination_wf_def host_wf_def exact_spec_def)
next
  case (Host_Ip ip)
  then show ?thesis
    using destination_parse_wf [OF assms] spec_parse_plain [OF display_ipv4_name_char] spec_parse_v6
    by (cases ip) (simp_all add: destination_display_def destination_wf_def exact_spec_def)
qed

lemma destination_parse_display_parse:
  "destination_parse s = Inr d \<Longrightarrow> destination_parse (destination_display d) = Inr d"
  by (rule destination_roundtrip) (auto intro: destination_parse_wf destination_parse_printable)

subsection \<open>Properties\<close>

text \<open>
  A CIDR pattern contains an address exactly when both are of the same family and agree on the
  leading prefix bits: the byte-wise comparison with a masked last byte is the comparison of the two
  addresses shifted right by the host bits.
\<close>

theorem cidr_contains_is_prefix_agreement:
  assumes "unat len \<le> addr_bits a"
  shows "cidr_contains a len c \<longleftrightarrow>
    (case (a, c) of
       (V4 net, V4 got) \<Rightarrow> drop_bit (32 - unat len) net = drop_bit (32 - unat len) got
     | (V6 net, V6 got) \<Rightarrow> drop_bit (128 - unat len) net = drop_bit (128 - unat len) got
     | _ \<Rightarrow> False)"
proof (cases a; cases c)
  fix n g assume "a = V4 n" "c = V4 g"
  then show ?thesis using assms bits_match_spec [where 'a = 32 and n = 4 and len = len and a = n and b = g]
    by (simp add: cidr_contains_def octets4_def addr_bits_def)
next
  fix n g assume "a = V6 n" "c = V6 g"
  then show ?thesis using assms bits_match_spec [where 'a = 128 and n = 16 and len = len and a = n and b = g]
    by (simp add: cidr_contains_def octets6_def addr_bits_def)
qed (simp_all add: cidr_contains_def)

theorem cidr_contains_is_prefix_agreement_witness:
  "cidr_contains (V4 0x0A000000) 8 (V4 0x0A010203) \<longleftrightarrow>
    (case (V4 0x0A000000, V4 0x0A010203) of
       (V4 net, V4 got) \<Rightarrow> drop_bit (32 - unat (8 :: u8)) net = drop_bit (32 - unat (8 :: u8)) got
     | (V6 net, V6 got) \<Rightarrow> drop_bit (128 - unat (8 :: u8)) net = drop_bit (128 - unat (8 :: u8)) got
     | _ \<Rightarrow> False)"
  by (rule cidr_contains_is_prefix_agreement) (simp add: addr_bits_def)

text \<open>
  Every destination the parser accepts has a non-zero port and a normalised host, and printing
  it and parsing the text gives the same destination back, for names, IPv4 and all printed forms of
  IPv6; so the text that an audit record or a suggested rule shows denotes the destination that was
  judged.
\<close>

theorem parsed_destination_prints_back:
  "case destination_parse s of
     Inl _ \<Rightarrow> True
   | Inr d \<Rightarrow> destination_wf d \<and> destination_parse (destination_display d) = Inr d"
  using destination_parse_wf [of s] destination_parse_display_parse [of s]
  by (auto split: sum.splits)

text \<open>
  Every pattern the parser accepts is well formed: a prefix is no longer than its address, a
  port range is non-empty and starts above 0, an exact name consists of lower-case name characters,
  a wildcard is a non-empty dotted suffix without a further star; and the pattern keeps the trimmed
  text it was written as.
\<close>

theorem spec_parse_well_formed:
  "case spec_parse input of Inl _ \<Rightarrow> True | Inr s \<Rightarrow> spec_wf s \<and> ds_raw s = str_trim input"
  using parse_spec_wf [of input] by (auto split: sum.splits)

end
