(* ===== verification/Policy_Units.thy ===== *)
theory Policy_Units
  imports Prelude
begin

text \<open>
  Quantities of a policy file, \<^verbatim>\<open>src/crates/skimasque-policy/src/units.rs\<close>. A
  \<^verbatim>\<open>Duration\<close> is a number of nanoseconds up to \<open>DURATION_MAX\<close>. Byte sizes and bit rates
  go through \<^verbatim>\<open>f64\<close>: the operations of floating point the code uses are the fields of
  \<open>float_ops\<close>, an argument of the definitions that need them.
\<close>

type_synonym duration = nat

definition DURATION_MAX :: duration where
  "DURATION_MAX = 2 ^ 64 * 1000000000 - 1"

definition from_millis :: "nat \<Rightarrow> duration" where
  "from_millis n = n * 1000000"

definition from_secs :: "nat \<Rightarrow> duration" where
  "from_secs n = n * 1000000000"

definition duration_checked_add :: "duration \<Rightarrow> duration \<Rightarrow> duration option" where
  "duration_checked_add a b = (if a + b \<le> DURATION_MAX then Some (a + b) else None)"

definition u64_checked_mul :: "nat \<Rightarrow> nat \<Rightarrow> nat option" where
  "u64_checked_mul a b = (if a * b < 2 ^ 64 then Some (a * b) else None)"

datatype parse_unit_error =
    PU_Empty string
  | PU_Malformed string string string
  | PU_Overflow string

text \<open>One segment: the number, its unit, and what follows.\<close>

definition unit_duration :: "string \<Rightarrow> string \<Rightarrow> nat \<Rightarrow> parse_unit_error + duration" where
  "unit_duration input u v =
     (if u = ''ms'' then Inr (from_millis v)
      else if u = ''s'' then Inr (from_secs v)
      else if u = ''m'' then map_err (\<lambda>_. PU_Overflow input) (map_sum id from_secs (ok_or () (u64_checked_mul v 60)))
      else if u = ''h'' then map_err (\<lambda>_. PU_Overflow input) (map_sum id from_secs (ok_or () (u64_checked_mul v 3600)))
      else if u = ''d'' then map_err (\<lambda>_. PU_Overflow input) (map_sum id from_secs (ok_or () (u64_checked_mul v 86400)))
      else if u = '''' then Inl (PU_Malformed ''duration'' input ''a number with no unit'')
      else Inl (PU_Malformed ''duration'' input ''unknown unit''))"

lemma duration_rest_shorter:
  assumes "takeWhile is_ascii_digit rest \<noteq> []"
  shows "length (dropWhile is_ascii_alphabetic (dropWhile is_ascii_digit rest)) < length rest"
proof -
  have "length rest = length (takeWhile is_ascii_digit rest) + length (dropWhile is_ascii_digit rest)"
    by (metis length_append takeWhile_dropWhile_id)
  moreover have "0 < length (takeWhile is_ascii_digit rest)" using assms by simp
  ultimately show ?thesis
    using length_dropWhile_le [of is_ascii_alphabetic "dropWhile is_ascii_digit rest"] by linarith
qed

function duration_loop :: "string \<Rightarrow> duration \<Rightarrow> bool \<Rightarrow> string \<Rightarrow> parse_unit_error + duration \<times> bool" where
  "duration_loop input acc saw rest =
     (if rest = [] then Inr (acc, saw)
      else if list_all is_ascii_digit rest
      then Inl (PU_Malformed ''duration'' input ''a number with no unit'')
      else
        let digits = takeWhile is_ascii_digit rest; rest1 = dropWhile is_ascii_digit rest in
        if digits = [] then Inl (PU_Malformed ''duration'' input ''expected a number'')
        else
          case parse_unsigned (2 ^ 64 - 1) digits of
            None \<Rightarrow> Inl (PU_Overflow input)
          | Some v \<Rightarrow>
              (let u = takeWhile is_ascii_alphabetic rest1; rest2 = dropWhile is_ascii_alphabetic rest1 in
               case unit_duration input u v of
                 Inl e \<Rightarrow> Inl e
               | Inr segment \<Rightarrow>
                   (case duration_checked_add acc segment of
                      None \<Rightarrow> Inl (PU_Overflow input)
                    | Some t \<Rightarrow> duration_loop input t True rest2)))"
  by auto
termination
proof (relation "measure (\<lambda>(_, _, _, rest). length rest)")
  show "((input, t, True, rest2), input, acc, saw, rest) \<in> measure (\<lambda>(_, _, _, rest). length rest)"
    if "digits = takeWhile is_ascii_digit rest" "rest1 = dropWhile is_ascii_digit rest" "digits \<noteq> []"
      "rest2 = dropWhile is_ascii_alphabetic rest1"
    for input t acc saw rest digits rest1 rest2
    using that duration_rest_shorter by simp
qed simp

declare duration_loop.simps [simp del]

definition parse_duration :: "string \<Rightarrow> parse_unit_error + duration" where
  "parse_duration input =
     (let text = str_trim input in
      if text = [] then Inl (PU_Empty input)
      else
        case duration_loop input 0 False text of
          Inl e \<Rightarrow> Inl e
        | Inr (acc, saw) \<Rightarrow>
            if \<not> saw then Inl (PU_Malformed ''duration'' input ''expected a number and a unit'')
            else Inr acc)"

record rate =
  rate_count :: u64
  rate_per :: duration

definition parse_rate :: "string \<Rightarrow> parse_unit_error + rate" where
  "parse_rate input =
     (let text = str_trim input in
      case split_once_at (CHR ''/'') text of
        None \<Rightarrow> Inl (PU_Malformed ''rate'' input ''expected <count>/<unit>, e.g. 10/s'')
      | Some (count, u) \<Rightarrow>
          (case parse_u64 (str_trim count) of
             None \<Rightarrow> Inl (PU_Malformed ''rate'' input ''the count is not a number'')
           | Some n \<Rightarrow>
               (let w = str_trim u in
                if w \<in> {''s'', ''sec'', ''second''} then Inr \<lparr>rate_count = n, rate_per = from_secs 1\<rparr>
                else if w \<in> {''m'', ''min'', ''minute''} then Inr \<lparr>rate_count = n, rate_per = from_secs 60\<rparr>
                else if w \<in> {''h'', ''hour''} then Inr \<lparr>rate_count = n, rate_per = from_secs 3600\<rparr>
                else Inl (PU_Malformed ''rate'' input ''the unit must be s, m or h''))))"

text \<open>
  Floating point as the size parsers use it: reading a decimal, the sign and range tests, scaling
  by a constant and rounding to an integer.
\<close>

record 'f float_ops =
  f_parse :: "string \<Rightarrow> 'f option"
  f_negative :: "'f \<Rightarrow> bool"
  f_of_nat :: "nat \<Rightarrow> 'f"
  f_mul :: "'f \<Rightarrow> 'f \<Rightarrow> 'f"
  f_fits_u64 :: "'f \<Rightarrow> bool"
  f_round :: "'f \<Rightarrow> u64"

definition split_scalar ::
  "'f float_ops \<Rightarrow> string \<Rightarrow> string \<Rightarrow> parse_unit_error + ('f \<times> string)" where
  "split_scalar F input kind =
     (let text = str_trim input in
      if text = [] then Inl (PU_Empty input)
      else
        let number = str_trim (takeWhile (\<lambda>c. \<not> is_ascii_alphabetic c) text);
            u = dropWhile (\<lambda>c. \<not> is_ascii_alphabetic c) text
        in if number = [] then Inl (PU_Malformed kind input ''expected a number'')
           else
             case f_parse F number of
               None \<Rightarrow> Inl (PU_Malformed kind input ''not a number'')
             | Some v \<Rightarrow>
                 if f_negative F v then Inl (PU_Malformed kind input ''must not be negative'')
                 else Inr (v, str_trim u))"

definition byte_multiplier :: "string \<Rightarrow> nat option" where
  "byte_multiplier u =
     (if u \<in> {'''', ''b''} then Some 1
      else if u = ''kb'' then Some (10 ^ 3)
      else if u = ''mb'' then Some (10 ^ 6)
      else if u = ''gb'' then Some (10 ^ 9)
      else if u = ''tb'' then Some (10 ^ 12)
      else if u = ''pb'' then Some (10 ^ 15)
      else if u = ''kib'' then Some 1024
      else if u = ''mib'' then Some (1024 ^ 2)
      else if u = ''gib'' then Some (1024 ^ 3)
      else if u = ''tib'' then Some (1024 ^ 4)
      else if u = ''pib'' then Some (1024 ^ 5)
      else None)"

definition parse_bytes :: "'f float_ops \<Rightarrow> string \<Rightarrow> parse_unit_error + u64" where
  "parse_bytes F input =
     (case split_scalar F input ''byte size'' of
        Inl e \<Rightarrow> Inl e
      | Inr (v, u) \<Rightarrow>
          (case byte_multiplier (to_ascii_lowercase u) of
             None \<Rightarrow> Inl (PU_Malformed ''byte size'' input ''unknown unit'')
           | Some m \<Rightarrow>
               let bytes = f_mul F v (f_of_nat F m) in
               if \<not> f_fits_u64 F bytes then Inl (PU_Overflow input) else Inr (f_round F bytes)))"

definition bit_multiplier :: "string \<Rightarrow> nat option" where
  "bit_multiplier u =
     (if u \<in> {'''', ''bps''} then Some 1
      else if u = ''kbps'' then Some (10 ^ 3)
      else if u = ''mbps'' then Some (10 ^ 6)
      else if u = ''gbps'' then Some (10 ^ 9)
      else if u = ''tbps'' then Some (10 ^ 12)
      else None)"

definition parse_bitrate :: "'f float_ops \<Rightarrow> string \<Rightarrow> parse_unit_error + u64" where
  "parse_bitrate F input =
     (case split_scalar F input ''bit rate'' of
        Inl e \<Rightarrow> Inl e
      | Inr (v, u) \<Rightarrow>
          (case bit_multiplier (to_ascii_lowercase u) of
             None \<Rightarrow> Inl (PU_Malformed ''bit rate'' input ''unknown unit; expected e.g. Mbps'')
           | Some m \<Rightarrow>
               let bits = f_mul F v (f_of_nat F m) in
               if \<not> f_fits_u64 F bits then Inl (PU_Overflow input) else Inr (f_round F bits)))"

definition humanize_steps :: "(string \<times> nat) list" where
  "humanize_steps = [(''d'', 86400000), (''h'', 3600000), (''m'', 60000), (''s'', 1000)]"

fun humanize_loop :: "(string \<times> nat) list \<Rightarrow> nat \<Rightarrow> string" where
  "humanize_loop [] ms = (if ms > 0 then nat_to_string ms @ ''ms'' else [])"
| "humanize_loop ((u, sz) # steps) ms =
     (if ms \<ge> sz then nat_to_string (ms div sz) @ u @ humanize_loop steps (ms mod sz)
      else humanize_loop steps ms)"

definition humanize_duration :: "duration \<Rightarrow> string" where
  "humanize_duration d =
     (let ms = d div 1000000 in if ms = 0 then ''0s'' else humanize_loop humanize_steps ms)"

definition humanize_decimal :: "u64 \<Rightarrow> string \<Rightarrow> string" where
  "humanize_decimal v u =
     (case find_first (\<lambda>(_, sz). unat v \<ge> sz \<and> unat v mod sz = 0)
        [(''T'', 1000000000000), (''G'', 1000000000), (''M'', 1000000), (''k'', 1000)] of
        Some (prefix, sz) \<Rightarrow> nat_to_string (unat v div sz) @ prefix @ u
      | None \<Rightarrow> nat_to_string (unat v) @ u)"

subsection \<open>Durations print and parse back\<close>

lemma digit_not_alphabetic: "is_ascii_digit c \<Longrightarrow> \<not> is_ascii_alphabetic c"
  by (auto simp: is_ascii_digit_def is_ascii_alphabetic_def is_ascii_uppercase_def is_ascii_lowercase_def)

lemma takeWhile_run:
  assumes "list_all P xs" "ys = [] \<or> \<not> P (hd ys)"
  shows "takeWhile P (xs @ ys) = xs" "dropWhile P (xs @ ys) = ys"
proof -
  have all: "\<And>x. x \<in> set xs \<Longrightarrow> P x" using assms(1) by (simp add: list_all_iff)
  have "takeWhile P ys = []" "dropWhile P ys = ys" using assms(2) by (cases ys; auto)+
  then show "takeWhile P (xs @ ys) = xs" "dropWhile P (xs @ ys) = ys"
    using all by (simp_all add: takeWhile_append2 dropWhile_append2)
qed

lemma duration_loop_segment:
  assumes "v < 2 ^ 64" "list_all is_ascii_alphabetic u" "u \<noteq> []" "unit_duration input u v = Inr segment"
    and "rest = [] \<or> is_ascii_digit (hd rest)"
  shows "duration_loop input t saw (nat_to_string v @ u @ rest) =
    (case duration_checked_add t segment of
       None \<Rightarrow> Inl (PU_Overflow input) | Some t' \<Rightarrow> duration_loop input t' True rest)"
proof -
  let ?s = "nat_to_string v @ u @ rest"
  have hd: "\<not> is_ascii_digit (hd (u @ rest))" "u @ rest \<noteq> []"
    using assms(2,3) digit_not_alphabetic by (cases u; auto)+
  note num = takeWhile_run [OF nat_to_string_digits, of "u @ rest" v]
  have "rest = [] \<or> \<not> is_ascii_alphabetic (hd rest)" using assms(5) digit_not_alphabetic by auto
  note unt = takeWhile_run [OF assms(2) this]
  have "\<not> list_all is_ascii_digit u" using assms(2,3) digit_not_alphabetic by (cases u) auto
  then show ?thesis
    using assms(1,4) num unt hd by (subst duration_loop.simps) (simp add: Let_def)
qed

definition step_ok :: "string \<times> nat \<Rightarrow> bool" where
  "step_ok st \<longleftrightarrow> list_all is_ascii_alphabetic (fst st) \<and> fst st \<noteq> [] \<and> 1000 \<le> snd st \<and>
     snd st \<le> 2 ^ 64 \<and> (\<forall>input v. v * snd st < 2 ^ 64 * 1000 \<longrightarrow> unit_duration input (fst st) v = Inr (from_millis (v * snd st)))"

lemma humanize_steps_ok: "list_all step_ok humanize_steps"
  by (simp add: humanize_steps_def step_ok_def unit_duration_def u64_checked_mul_def from_secs_def
      from_millis_def is_ascii_alphabetic_def is_ascii_uppercase_def is_ascii_lowercase_def)

lemma humanize_loop_hd:
  "humanize_loop steps ms = [] \<or> is_ascii_digit (hd (humanize_loop steps ms))"
proof (induction steps ms rule: humanize_loop.induct)
  have "is_ascii_digit (hd (nat_to_string n))" for n
    using nat_to_string_digits [of n] by (cases "nat_to_string n") auto
  then show "humanize_loop [] ms = [] \<or> is_ascii_digit (hd (humanize_loop [] ms))"
    and "(sz \<le> ms \<Longrightarrow> humanize_loop steps (ms mod sz) = [] \<or> is_ascii_digit (hd (humanize_loop steps (ms mod sz)))) \<Longrightarrow>
      (\<not> sz \<le> ms \<Longrightarrow> humanize_loop steps ms = [] \<or> is_ascii_digit (hd (humanize_loop steps ms))) \<Longrightarrow>
      humanize_loop ((u, sz) # steps) ms = [] \<or> is_ascii_digit (hd (humanize_loop ((u, sz) # steps) ms))"
    for ms sz steps and u :: string
    by auto
qed

lemma duration_loop_humanize:
  assumes "list_all step_ok steps" "t + from_millis ms \<le> DURATION_MAX" "saw \<or> 0 < ms"
    and "steps = [] \<longrightarrow> ms < 2 ^ 64"
  shows "duration_loop input t saw (humanize_loop steps ms) = Inr (t + from_millis ms, True)"
  using assms
proof (induction steps arbitrary: t ms saw)
  case Nil
  then have "unit_duration input ''ms'' ms = Inr (from_millis ms)" by (simp add: unit_duration_def)
  moreover have "list_all is_ascii_alphabetic ''ms''"
    by (simp add: is_ascii_alphabetic_def is_ascii_uppercase_def is_ascii_lowercase_def)
  ultimately show ?case
    using Nil duration_loop_segment [of ms "''ms''" input "from_millis ms" "[]" t saw]
    by (auto simp: duration_loop.simps [of input _ _ "[]"] duration_checked_add_def from_millis_def)
next
  case (Cons st steps)
  obtain u sz where st: "st = (u, sz)" by force
  have ok: "list_all is_ascii_alphabetic u" "u \<noteq> []" "1000 \<le> sz" "sz \<le> 2 ^ 64"
    "\<And>v. v * sz < 2 ^ 64 * 1000 \<Longrightarrow> unit_duration input u v = Inr (from_millis (v * sz))"
    using Cons.prems(1) by (auto simp: st step_ok_def)
  have ms: "ms < 2 ^ 64 * 1000"
    using Cons.prems(2) by (simp add: from_millis_def DURATION_MAX_def)
  show ?case
  proof (cases "sz \<le> ms")
    case False
    then show ?thesis using Cons.IH [of t ms saw] Cons.prems ok(4) by (simp add: st)
  next
    case True
    let ?v = "ms div sz" and ?r = "ms mod sz"
    have split: "ms = ?v * sz + ?r" by simp
    then have "?v * sz < 2 ^ 64 * 1000" using ms by linarith
    then have seg: "unit_duration input u ?v = Inr (from_millis (?v * sz))" by (rule ok(5))
    have "?v * 1000 \<le> ?v * sz" using ok(3) by simp
    then have v: "?v < 2 ^ 64" using \<open>?v * sz < 2 ^ 64 * 1000\<close> by linarith
    have sum: "from_millis (?v * sz) + from_millis ?r = from_millis ms"
      unfolding from_millis_def using split by (simp flip: add_mult_distrib)
    then have "duration_checked_add t (from_millis (?v * sz)) = Some (t + from_millis (?v * sz))"
      using Cons.prems(2) by (simp add: duration_checked_add_def)
    moreover have "?r < 2 ^ 64" using ok(3,4) mod_less_divisor [of sz ms] by linarith
    ultimately show ?thesis
      using True v seg Cons.IH [of "t + from_millis (?v * sz)" ?r True] Cons.prems(1,2) sum
        duration_loop_segment [OF v ok(1,2) seg humanize_loop_hd, of t saw steps ?r]
      by (simp add: st add.assoc)
  qed
qed

lemma humanize_graphic: "is_graphic_str (humanize_loop humanize_steps ms)"
proof -
  have num: "is_graphic_str (nat_to_string n)" for n
    using nat_to_string_digits [of n] by (auto simp: is_graphic_str_def list_all_iff is_ascii_digit_def)
  have gr: "is_graphic_str (humanize_loop steps ms)" if "list_all (\<lambda>st. is_graphic_str (fst st)) steps" for steps
    using that
  proof (induction steps arbitrary: ms)
    case Nil
    then show ?case using num [of ms] by (simp add: is_graphic_str_def)
  next
    case (Cons st steps)
    obtain u sz where "st = (u, sz)" by force
    then show ?case
      using Cons num [of "ms div sz"] by (simp add: is_graphic_str_def)
  qed
  show ?thesis by (rule gr) (simp add: humanize_steps_def is_graphic_str_def)
qed

lemma parse_humanize_duration:
  assumes "ms * 1000000 \<le> DURATION_MAX"
  shows "parse_duration (humanize_duration (ms * 1000000)) = Inr (ms * 1000000)"
proof (cases "ms = 0")
  case True
  have "str_trim ''0s'' = ''0s''" by (rule str_trim_graphic) (simp add: is_graphic_str_def)
  moreover have "duration_loop ''0s'' 0 False ''0s'' = Inr (0, True)"
    using duration_loop_segment [of 0 "''s''" "''0s''" 0 "[]" 0 False]
    by (simp add: nat_to_string.simps digit_char_eq_0 [of 0, simplified] unit_duration_def from_secs_def
        is_ascii_alphabetic_def is_ascii_uppercase_def is_ascii_lowercase_def
        duration_checked_add_def duration_loop.simps [of _ _ _ "[]"])
  ultimately show ?thesis using True by (simp add: humanize_duration_def parse_duration_def)
next
  case False
  let ?s = "humanize_loop humanize_steps ms"
  have loop: "duration_loop input 0 False ?s = Inr (from_millis ms, True)" for input
    using duration_loop_humanize [OF humanize_steps_ok, of 0 ms False input] assms False
    by (simp add: from_millis_def humanize_steps_def)
  have "?s \<noteq> []" using loop [of "[]"] False by (auto simp: duration_loop.simps [of _ _ _ "[]"])
  then show ?thesis
    using loop False str_trim_graphic [OF humanize_graphic, of ms]
    by (simp add: humanize_duration_def parse_duration_def from_millis_def)
qed

lemma unit_duration_millis: "unit_duration input u v = Inr d \<Longrightarrow> 1000000 dvd d"
  by (auto simp: unit_duration_def from_millis_def from_secs_def ok_or_def map_err_def
      u64_checked_mul_def split: if_splits)

lemma duration_loop_millis:
  "duration_loop input acc saw rest = Inr (d, b) \<Longrightarrow> 1000000 dvd acc \<Longrightarrow> acc \<le> DURATION_MAX \<Longrightarrow>
    1000000 dvd d \<and> d \<le> DURATION_MAX"
proof (induction input acc saw rest rule: duration_loop.induct)
  case (1 input acc saw rest)
  show ?case
  proof (cases "rest = []")
    case True
    then show ?thesis using "1.prems" by (simp add: duration_loop.simps [of _ _ _ "[]"])
  next
    case False
    let ?rest = "dropWhile is_ascii_alphabetic (dropWhile is_ascii_digit rest)"
    have unf: "duration_loop input acc saw rest = Inr (d, b)" by (rule "1.prems"(1))
    obtain v where v: "\<not> list_all is_ascii_digit rest" "takeWhile is_ascii_digit rest \<noteq> []"
        "parse_unsigned (2 ^ 64 - 1) (takeWhile is_ascii_digit rest) = Some v"
      using unf False by (subst (asm) duration_loop.simps) (auto simp: Let_def split: if_splits option.splits)
    obtain segment where seg: "unit_duration input
        (takeWhile is_ascii_alphabetic (dropWhile is_ascii_digit rest)) v = Inr segment"
      using unf False v by (subst (asm) duration_loop.simps) (auto simp: Let_def split: sum.splits)
    obtain t where t: "duration_checked_add acc segment = Some t"
      using unf False v seg by (subst (asm) duration_loop.simps) (auto simp: Let_def split: option.splits)
    have "duration_loop input t True ?rest = Inr (d, b)"
      using unf False v seg t by (subst (asm) duration_loop.simps) (simp add: Let_def)
    moreover have "1000000 dvd t" "t \<le> DURATION_MAX"
      using t "1.prems"(2) unit_duration_millis [OF seg]
      by (auto simp: duration_checked_add_def split: if_splits)
    ultimately show ?thesis
      using "1.IH" [OF False v(1) refl refl v(2,3) refl refl seg t] by blast
  qed
qed

lemma parse_duration_millis:
  assumes "parse_duration s = Inr d"
  shows "1000000 dvd d" "d \<le> DURATION_MAX"
proof -
  obtain b where "duration_loop s 0 False (str_trim s) = Inr (d, b)"
    using assms by (auto simp: parse_duration_def Let_def split: if_splits sum.splits)
  then show "1000000 dvd d" "d \<le> DURATION_MAX"
    using duration_loop_millis [of s 0 False "str_trim s" d b] by auto
qed

subsection \<open>Properties\<close>

text \<open>
  \<open>humanize_duration\<close> inverts \<open>parse_duration\<close> on every value the parser produces: printing a
  parsed duration and parsing the text again gives the same duration, so a rendered or reported
  policy states the limit that is enforced.
\<close>

theorem humanize_inverts_parse_duration:
  "case parse_duration s of Inl _ \<Rightarrow> True | Inr d \<Rightarrow> parse_duration (humanize_duration d) = Inr d"
proof (cases "parse_duration s")
  case (Inr d)
  obtain ms where "d = ms * 1000000" "ms * 1000000 \<le> DURATION_MAX"
    using parse_duration_millis [OF Inr] by (metis dvd_div_mult_self)
  then show ?thesis using Inr parse_humanize_duration [of ms] by simp
qed simp

end
