(* ===== verification/Policy_Model.thy ===== *)
theory Policy_Model
  imports Policy_Destination Policy_Units
begin

text \<open>
  Workload identities and the policy data model: \<^verbatim>\<open>identity.rs\<close> and \<^verbatim>\<open>model.rs\<close> of
  \<^verbatim>\<open>src/crates/skimasque-policy/src\<close>.
\<close>

subsection \<open>Identities\<close>

datatype workload_kind = Developer | Ci | Agent

definition kind_as_str :: "workload_kind \<Rightarrow> string" where
  "kind_as_str k = (case k of Developer \<Rightarrow> ''developer'' | Ci \<Rightarrow> ''ci'' | Agent \<Rightarrow> ''agent'')"

definition kind_parse :: "string \<Rightarrow> workload_kind option" where
  "kind_parse s =
     (if s = ''developer'' then Some Developer
      else if s = ''ci'' then Some Ci
      else if s = ''agent'' then Some Agent
      else None)"

record workload_identity =
  wi_organization :: "string option"
  wi_repository :: "string option"
  wi_workflow :: "string option"
  wi_git_ref :: "string option"
  wi_environment :: "string option"
  wi_actor :: "string option"
  wi_kind :: "workload_kind option"
  wi_run_id :: "string option"
  wi_runtime :: "string option"
  wi_sid :: "string option"

definition identity_default :: workload_identity where
  "identity_default = \<lparr>wi_organization = None, wi_repository = None, wi_workflow = None,
     wi_git_ref = None, wi_environment = None, wi_actor = None, wi_kind = None, wi_run_id = None,
     wi_runtime = None, wi_sid = None\<rparr>"

definition branch :: "workload_identity \<Rightarrow> string option" where
  "branch i =
     (case wi_git_ref i of None \<Rightarrow> None | Some r \<Rightarrow> strip_prefix ''refs/heads/'' r)"

definition repository_name :: "workload_identity \<Rightarrow> string option" where
  "repository_name i =
     (case wi_repository i of
        None \<Rightarrow> None
      | Some repo \<Rightarrow>
          Some (case rsplit_once_at (CHR ''/'') repo of None \<Rightarrow> repo | Some (_, name) \<Rightarrow> name))"

subsection \<open>Which workloads a policy governs\<close>

record match_spec =
  ms_organization :: "string option"
  ms_repository :: "string option"
  ms_workflow :: "string option"
  ms_git_ref :: "string option"
  ms_branch :: "string option"
  ms_environment :: "string option"
  ms_actor :: "string option"
  ms_kind :: "workload_kind option"

definition match_default :: match_spec where
  "match_default = \<lparr>ms_organization = None, ms_repository = None, ms_workflow = None,
     ms_git_ref = None, ms_branch = None, ms_environment = None, ms_actor = None, ms_kind = None\<rparr>"

definition ci_eq :: "string \<Rightarrow> string option \<Rightarrow> bool" where
  "ci_eq want got = (case got of None \<Rightarrow> False | Some g \<Rightarrow> eq_ignore_ascii_case g want)"

text \<open>A constraint that is not named is not checked.\<close>

definition constrained :: "'a option \<Rightarrow> ('a \<Rightarrow> bool) \<Rightarrow> bool" where
  "constrained c ok = (case c of None \<Rightarrow> True | Some want \<Rightarrow> ok want)"

definition match_matches :: "match_spec \<Rightarrow> workload_identity \<Rightarrow> bool" where
  "match_matches m i =
     (if \<not> constrained (ms_organization m) (\<lambda>org. ci_eq org (wi_organization i)) then False
      else if \<not> constrained (ms_repository m)
        (\<lambda>repo. ci_eq repo (wi_repository i) \<or> ci_eq repo (repository_name i)) then False
      else if \<not> constrained (ms_workflow m) (\<lambda>w. wi_workflow i = Some w) then False
      else if \<not> constrained (ms_git_ref m) (\<lambda>r. wi_git_ref i = Some r) then False
      else if \<not> constrained (ms_branch m) (\<lambda>b. branch i = Some b) then False
      else if \<not> constrained (ms_environment m) (\<lambda>e. wi_environment i = Some e) then False
      else if \<not> constrained (ms_actor m) (\<lambda>a. wi_actor i = Some a) then False
      else if \<not> constrained (ms_kind m) (\<lambda>k. wi_kind i = Some k) then False
      else True)"

definition specificity :: "match_spec \<Rightarrow> nat" where
  "specificity m = length (filter id
     [ms_organization m \<noteq> None, ms_repository m \<noteq> None, ms_workflow m \<noteq> None, ms_git_ref m \<noteq> None,
      ms_branch m \<noteq> None, ms_environment m \<noteq> None, ms_actor m \<noteq> None, ms_kind m \<noteq> None])"

subsection \<open>Terms of a session\<close>

record session_spec =
  ss_max_duration :: "duration option"

record egress_spec =
  eg_region :: "string option"
  eg_ip_pool :: "string option"

record limits =
  lim_bandwidth_bits_per_sec :: "u64 option"
  lim_total_bytes :: "u64 option"
  lim_concurrent_connections :: "u32 option"
  lim_concurrent_destinations :: "u32 option"
  lim_connection_rate :: "rate option"
  lim_packets_per_sec :: "u64 option"

definition limits_default :: limits where
  "limits_default = \<lparr>lim_bandwidth_bits_per_sec = None, lim_total_bytes = None,
     lim_concurrent_connections = None, lim_concurrent_destinations = None,
     lim_connection_rate = None, lim_packets_per_sec = None\<rparr>"

subsection \<open>Rules\<close>

datatype transport = Tcp | Udp

definition transport_as_str :: "transport \<Rightarrow> string" where
  "transport_as_str t = (case t of Tcp \<Rightarrow> ''tcp'' | Udp \<Rightarrow> ''udp'')"

datatype transport_pattern = TP_Any | TP_Tcp | TP_Udp

definition transport_matches :: "transport_pattern \<Rightarrow> transport \<Rightarrow> bool" where
  "transport_matches p t =
     (case (p, t) of
        (TP_Any, _) \<Rightarrow> True
      | (TP_Tcp, Tcp) \<Rightarrow> True
      | (TP_Udp, Udp) \<Rightarrow> True
      | _ \<Rightarrow> False)"

definition transport_as_word :: "transport_pattern \<Rightarrow> string option" where
  "transport_as_word p = (case p of TP_Any \<Rightarrow> None | TP_Tcp \<Rightarrow> Some ''tcp'' | TP_Udp \<Rightarrow> Some ''udp'')"

definition pattern_of_transport :: "transport option \<Rightarrow> transport_pattern" where
  "pattern_of_transport v =
     (case v of None \<Rightarrow> TP_Any | Some Tcp \<Rightarrow> TP_Tcp | Some Udp \<Rightarrow> TP_Udp)"

datatype app_pattern = App_Any | App_Name string

definition app_matches :: "app_pattern \<Rightarrow> string \<Rightarrow> bool" where
  "app_matches p application =
     (case p of App_Any \<Rightarrow> True | App_Name name \<Rightarrow> eq_ignore_ascii_case name application)"

datatype action = Action_Allow | Action_Deny

definition action_as_str :: "action \<Rightarrow> string" where
  "action_as_str a = (case a of Action_Allow \<Rightarrow> ''allow'' | Action_Deny \<Rightarrow> ''deny'')"

record rule =
  r_id :: "string option"
  r_application :: app_pattern
  r_transport :: transport_pattern
  r_action :: action
  r_destinations :: "destination_spec list"

definition rule_covers :: "rule \<Rightarrow> string \<Rightarrow> transport \<Rightarrow> bool" where
  "rule_covers r application t \<longleftrightarrow>
     app_matches (r_application r) application \<and> transport_matches (r_transport r) t"

record policy_test =
  pt_application :: string
  pt_destination :: string
  pt_transport :: "transport option"
  pt_expect :: action
  pt_description :: "string option"

definition test_transport :: "policy_test \<Rightarrow> transport" where
  "test_transport t = (case pt_transport t of Some x \<Rightarrow> x | None \<Rightarrow> Tcp)"

record policy =
  p_name :: string
  p_match_spec :: match_spec
  p_session :: session_spec
  p_egress :: "egress_spec option"
  p_limits :: limits
  p_rules :: "rule list"
  p_tests :: "policy_test list"
  p_baseline :: bool

subsection \<open>Policy sets\<close>

type_synonym policy_set = "policy list"

definition set_get :: "policy_set \<Rightarrow> string \<Rightarrow> policy option" where
  "set_get ps name = find_first (\<lambda>p. p_name p = name) ps"

text \<open>
  \<^verbatim>\<open>Iterator::max_by_key\<close>: the element with the greatest key, the last of several equal ones.
  The keys here are pairs of a specificity and a reversed index.
\<close>

fun max_by :: "('a \<Rightarrow> 'a \<Rightarrow> bool) \<Rightarrow> 'a \<Rightarrow> 'a list \<Rightarrow> 'a" where
  "max_by gt best [] = best"
| "max_by gt best (x # xs) = max_by gt (if gt best x then best else x) xs"

definition select_greater :: "nat \<times> policy \<Rightarrow> nat \<times> policy \<Rightarrow> bool" where
  "select_greater a b \<longleftrightarrow>
     specificity (p_match_spec (snd a)) > specificity (p_match_spec (snd b)) \<or>
     (specificity (p_match_spec (snd a)) = specificity (p_match_spec (snd b)) \<and> fst a < fst b)"

definition set_select :: "policy_set \<Rightarrow> workload_identity \<Rightarrow> policy option" where
  "set_select ps i =
     (case enumerate_from 0 (filter (\<lambda>p. \<not> p_baseline p \<and> match_matches (p_match_spec p) i) ps) of
        [] \<Rightarrow> None
      | x # xs \<Rightarrow> Some (snd (max_by select_greater x xs)))"

subsection \<open>Facts about matching\<close>

lemma match_matches_iff:
  "match_matches m i \<longleftrightarrow>
     constrained (ms_organization m) (\<lambda>org. ci_eq org (wi_organization i)) \<and>
     constrained (ms_repository m)
       (\<lambda>repo. ci_eq repo (wi_repository i) \<or> ci_eq repo (repository_name i)) \<and>
     constrained (ms_workflow m) (\<lambda>w. wi_workflow i = Some w) \<and>
     constrained (ms_git_ref m) (\<lambda>r. wi_git_ref i = Some r) \<and>
     constrained (ms_branch m) (\<lambda>b. branch i = Some b) \<and>
     constrained (ms_environment m) (\<lambda>e. wi_environment i = Some e) \<and>
     constrained (ms_actor m) (\<lambda>a. wi_actor i = Some a) \<and>
     constrained (ms_kind m) (\<lambda>k. wi_kind i = Some k)"
  by (simp add: match_matches_def)

lemma constrained_simps [simp]:
  "constrained None f" "constrained (Some x) f \<longleftrightarrow> f x"
  by (simp_all add: constrained_def)

lemma kind_roundtrip: "kind_parse (kind_as_str k) = Some k"
  by (cases k) (simp_all add: kind_parse_def kind_as_str_def)

abbreviation policy_specificity :: "nat \<times> policy \<Rightarrow> nat" where
  "policy_specificity x \<equiv> specificity (p_match_spec (snd x))"

lemma max_by_select:
  assumes "sorted_wrt (\<lambda>a b. fst a < fst b) (us @ b # ws @ xs)"
    and "\<forall>u \<in> set us. policy_specificity u < policy_specificity b"
    and "\<forall>w \<in> set ws. policy_specificity w \<le> policy_specificity b"
  shows "\<exists>us' vs'. us @ b # ws @ xs = us' @ max_by select_greater b xs # vs' \<and>
    (\<forall>u \<in> set us'. policy_specificity u < policy_specificity (max_by select_greater b xs)) \<and>
    (\<forall>v \<in> set vs'. policy_specificity v \<le> policy_specificity (max_by select_greater b xs))"
  using assms
proof (induction xs arbitrary: us b ws)
  case Nil
  then show ?case by (intro exI [of _ us] exI [of _ ws]) simp
next
  case (Cons x xs)
  have lt: "fst b < fst x" using Cons.prems(1) by (simp add: sorted_wrt_append)
  show ?case
  proof (cases "select_greater b x")
    case True
    then have "policy_specificity x \<le> policy_specificity b" by (auto simp: select_greater_def)
    then show ?thesis using Cons.IH [of us b "ws @ [x]"] Cons.prems True by auto
  next
    case False
    then have "policy_specificity b < policy_specificity x" using lt by (auto simp: select_greater_def)
    then show ?thesis using Cons.IH [of "us @ b # ws" x "[]"] Cons.prems False by fastforce
  qed
qed

lemma enumerate_from_sorted: "sorted_wrt (\<lambda>a b. fst a < fst b) (enumerate_from n xs)"
proof -
  have "m \<in> set (enumerate_from n xs) \<Longrightarrow> n \<le> fst m" for m n and xs :: "'a list"
    by (induction xs arbitrary: n) force+
  then show ?thesis by (induction xs arbitrary: n) force+
qed

lemma enumerate_from_snd: "map snd (enumerate_from n xs) = xs"
  by (induction xs arbitrary: n) auto

definition candidates :: "policy_set \<Rightarrow> workload_identity \<Rightarrow> policy list" where
  "candidates ps i = filter (\<lambda>p. \<not> p_baseline p \<and> match_matches (p_match_spec p) i) ps"

lemma set_select_None: "set_select ps i = None \<longleftrightarrow> candidates ps i = []"
  by (cases "candidates ps i") (simp_all add: set_select_def candidates_def [symmetric])

lemma set_select_Some:
  assumes "set_select ps i = Some p"
  obtains us vs where "candidates ps i = us @ p # vs"
    "\<forall>u \<in> set us. specificity (p_match_spec u) < specificity (p_match_spec p)"
    "\<forall>v \<in> set vs. specificity (p_match_spec v) \<le> specificity (p_match_spec p)"
proof -
  obtain x xs where e: "enumerate_from 0 (candidates ps i) = x # xs"
    and p: "p = snd (max_by select_greater x xs)"
    using assms by (auto simp: set_select_def candidates_def [symmetric] split: list.splits)
  have "sorted_wrt (\<lambda>a b. fst a < fst b) ([] @ x # [] @ xs)"
    using enumerate_from_sorted [of 0 "candidates ps i"] e by simp
  from max_by_select [OF this]
  obtain us vs where d: "x # xs = us @ max_by select_greater x xs # vs"
    "\<forall>u \<in> set us. policy_specificity u < specificity (p_match_spec p)"
    "\<forall>v \<in> set vs. policy_specificity v \<le> specificity (p_match_spec p)"
    unfolding p by auto
  have "candidates ps i = map snd (x # xs)" using enumerate_from_snd [of 0 "candidates ps i"] e by simp
  then have "candidates ps i = map snd us @ p # map snd vs" unfolding d(1) p by simp
  then show ?thesis by (rule that) (use d in auto)
qed

end
