(* ===== verification/Policy_Eval.thy ===== *)
theory Policy_Eval
  imports Policy_Model "HOL-Library.Product_Lexorder" "HOL-Library.List_Lexorder"
begin

text \<open>
  Evaluating a request, \<^verbatim>\<open>src/crates/skimasque-policy/src/eval.rs\<close>: the first rule that
  speaks to application, transport and destination decides; the default is to deny; a client may
  pin a policy but a pin only narrows; baseline policies override an allow.
\<close>

record request_context =
  rc_workload :: workload_identity
  rc_application :: string
  rc_transport :: transport
  rc_destination :: destination
  rc_requested_policy :: "string option"

record allowed =
  al_policy :: string
  al_rule :: string
  al_egress :: "egress_spec option"
  al_limits :: limits
  al_session :: session_spec

datatype deny_reason =
    NoPolicyMatch
  | NoMatchingAllowRule
  | ExplicitDeny string
  | PolicyMismatch string "string option"
  | Baseline string string

record denied =
  dn_policy :: "string option"
  dn_reason :: deny_reason
  dn_suggested_rule :: string
  dn_closest :: "string list"

datatype decision = Allow allowed | Deny denied

definition is_allow :: "decision \<Rightarrow> bool" where
  "is_allow d = (case d of Allow _ \<Rightarrow> True | Deny _ \<Rightarrow> False)"

definition is_deny :: "decision \<Rightarrow> bool" where
  "is_deny d = (case d of Allow _ \<Rightarrow> False | Deny _ \<Rightarrow> True)"

definition decision_action :: "decision \<Rightarrow> action" where
  "decision_action d = (case d of Allow _ \<Rightarrow> Action_Allow | Deny _ \<Rightarrow> Action_Deny)"

definition quoted :: "string \<Rightarrow> string" where
  "quoted s = [char_of (34 :: nat)] @ s @ [char_of (34 :: nat)]"

definition reason_summary :: "deny_reason \<Rightarrow> string" where
  "reason_summary r =
     (case r of
        NoPolicyMatch \<Rightarrow> ''No policy matches this workload identity.''
      | NoMatchingAllowRule \<Rightarrow> ''No matching allow rule.''
      | ExplicitDeny rule \<Rightarrow> ''Denied by rule '' @ rule @ ''.''
      | PolicyMismatch requested (Some selected) \<Rightarrow>
          ''Policy '' @ quoted requested @ '' does not apply to this identity; '' @ quoted selected @ '' does.''
      | PolicyMismatch requested None \<Rightarrow>
          ''Policy '' @ quoted requested @ '' does not apply to this identity; no policy does.''
      | Baseline p rule \<Rightarrow>
          ''Denied by baseline policy '' @ quoted p @ '', rule '' @ rule @ ''; no policy can allow this.'')"

definition rule_label :: "rule \<Rightarrow> nat \<Rightarrow> string" where
  "rule_label r index = (case r_id r of Some i \<Rightarrow> i | None \<Rightarrow> ''rule #'' @ nat_to_string index)"

definition suggested_rule :: "request_context \<Rightarrow> string" where
  "suggested_rule ctx =
     (let app = (if rc_application ctx = [] then ''<app>'' else rc_application ctx) in
      case rc_transport ctx of
        Tcp \<Rightarrow> ''allow '' @ app @ '' '' @ destination_display (rc_destination ctx)
      | Udp \<Rightarrow> ''allow '' @ app @ '' udp '' @ destination_display (rc_destination ctx))"

definition rsplit_or_whole :: "string \<Rightarrow> string \<times> string" where
  "rsplit_or_whole s = (case rsplit_once_at (CHR '':'') s of None \<Rightarrow> (s, []) | Some p \<Rightarrow> p)"

definition proximity :: "string \<Rightarrow> destination \<Rightarrow> int" where
  "proximity spec dest =
     (let want = destination_display dest;
          (spec_host, spec_port) = rsplit_or_whole spec;
          (want_host, want_port) = rsplit_or_whole want;
          score = (if spec_port \<noteq> [] \<and> spec_port = want_port then 3 else 0);
          shared = length (takeWhile (\<lambda>(a, b). eq_ignore_ascii_case a b)
            (zip (rev (split_on (CHR ''.'') spec_host)) (rev (split_on (CHR ''.'') want_host))))
      in score + int shared * 2)"

text \<open>\<^verbatim>\<open>Vec::dedup_by_key\<close>: of a run of equal keys the first stays.\<close>

fun dedup_by_key :: "('a \<Rightarrow> 'k) \<Rightarrow> 'a list \<Rightarrow> 'a list" where
  "dedup_by_key k [] = []"
| "dedup_by_key k [x] = [x]"
| "dedup_by_key k (x # y # ys) =
     (if k x = k y then dedup_by_key k (x # ys) else x # dedup_by_key k (y # ys))"

definition closest_destinations :: "rule list \<Rightarrow> request_context \<Rightarrow> string list" where
  "closest_destinations rules ctx =
     (let scored = map (\<lambda>spec. (proximity (ds_raw spec) (rc_destination ctx), ds_raw spec))
            (concat (map r_destinations
              (filter (\<lambda>r. r_action r = Action_Allow \<and>
                 rule_covers r (rc_application ctx) (rc_transport ctx)) rules)));
          ordered = sort_key (\<lambda>(score, text). (- score, map char_code text)) scored;
          unique = dedup_by_key snd ordered
      in map snd (take 3 unique))"

definition policy_deny :: "policy \<Rightarrow> request_context \<Rightarrow> deny_reason \<Rightarrow> denied" where
  "policy_deny p ctx reason =
     \<lparr>dn_policy = Some (p_name p), dn_reason = reason, dn_suggested_rule = suggested_rule ctx,
      dn_closest = closest_destinations (p_rules p) ctx\<rparr>"

fun evaluate_rules :: "policy \<Rightarrow> request_context \<Rightarrow> (nat \<times> rule) list \<Rightarrow> decision" where
  "evaluate_rules p ctx [] = Deny (policy_deny p ctx NoMatchingAllowRule)"
| "evaluate_rules p ctx ((index, rule) # rest) =
     (if \<not> rule_covers rule (rc_application ctx) (rc_transport ctx) then evaluate_rules p ctx rest
      else if \<not> list_ex (\<lambda>d. spec_matches d (rc_destination ctx)) (r_destinations rule)
      then evaluate_rules p ctx rest
      else
        let label = rule_label rule index in
        case r_action rule of
          Action_Allow \<Rightarrow> Allow \<lparr>al_policy = p_name p, al_rule = label, al_egress = p_egress p,
            al_limits = p_limits p, al_session = p_session p\<rparr>
        | Action_Deny \<Rightarrow> Deny (policy_deny p ctx (ExplicitDeny label)))"

definition policy_evaluate :: "policy \<Rightarrow> request_context \<Rightarrow> decision" where
  "policy_evaluate p ctx = evaluate_rules p ctx (enumerate_from 0 (p_rules p))"

definition identity_matches :: "policy \<Rightarrow> workload_identity \<Rightarrow> bool" where
  "identity_matches p i = match_matches (p_match_spec p) i"

definition rule_denies :: "rule \<Rightarrow> request_context \<Rightarrow> bool" where
  "rule_denies r ctx \<longleftrightarrow>
     r_action r = Action_Deny \<and> rule_covers r (rc_application ctx) (rc_transport ctx) \<and>
     list_ex (\<lambda>d. spec_matches d (rc_destination ctx)) (r_destinations r)"

fun baseline_loop :: "policy list \<Rightarrow> request_context \<Rightarrow> denied option" where
  "baseline_loop [] ctx = None"
| "baseline_loop (b # bs) ctx =
     (case find_first (\<lambda>(_, r). rule_denies r ctx) (enumerate_from 0 (p_rules b)) of
        Some (index, r) \<Rightarrow>
          Some \<lparr>dn_policy = Some (p_name b), dn_reason = Baseline (p_name b) (rule_label r index),
                dn_suggested_rule = [], dn_closest = []\<rparr>
      | None \<Rightarrow> baseline_loop bs ctx)"

definition with_baseline :: "policy_set \<Rightarrow> decision \<Rightarrow> request_context \<Rightarrow> decision" where
  "with_baseline ps d ctx =
     (case d of
        Deny _ \<Rightarrow> d
      | Allow _ \<Rightarrow>
          (case baseline_loop
                  (filter (\<lambda>p. p_baseline p \<and> match_matches (p_match_spec p) (rc_workload ctx)) ps) ctx of
             Some x \<Rightarrow> Deny x
           | None \<Rightarrow> d))"

definition set_evaluate :: "policy_set \<Rightarrow> request_context \<Rightarrow> decision" where
  "set_evaluate ps ctx =
     (let selected = set_select ps (rc_workload ctx);
          selected_name = map_option p_name selected;
          rest =
            (case selected of
               Some p \<Rightarrow> with_baseline ps (policy_evaluate p ctx) ctx
             | None \<Rightarrow> Deny \<lparr>dn_policy = None, dn_reason = NoPolicyMatch,
                 dn_suggested_rule = suggested_rule ctx, dn_closest = []\<rparr>)
      in case rc_requested_policy ctx of
           Some requested \<Rightarrow>
             if selected_name \<noteq> Some requested
             then Deny \<lparr>dn_policy = selected_name, dn_reason = PolicyMismatch requested selected_name,
               dn_suggested_rule = suggested_rule ctx, dn_closest = []\<rparr>
             else rest
         | None \<Rightarrow> rest)"

definition evaluate_named :: "policy_set \<Rightarrow> string \<Rightarrow> request_context \<Rightarrow> decision option" where
  "evaluate_named ps name ctx =
     map_option (\<lambda>p. with_baseline ps (policy_evaluate p ctx) ctx) (set_get ps name)"

subsection \<open>First match wins\<close>

text \<open>The rule that decides a request, if one does.\<close>

definition rule_applies :: "rule \<Rightarrow> request_context \<Rightarrow> bool" where
  "rule_applies r ctx \<longleftrightarrow> rule_covers r (rc_application ctx) (rc_transport ctx) \<and>
     list_ex (\<lambda>d. spec_matches d (rc_destination ctx)) (r_destinations r)"

lemma evaluate_rules_first:
  "evaluate_rules p ctx irs =
     (case find_first (\<lambda>(_, r). rule_applies r ctx) irs of
        None \<Rightarrow> Deny (policy_deny p ctx NoMatchingAllowRule)
      | Some (i, r) \<Rightarrow>
          (case r_action r of
             Action_Allow \<Rightarrow> Allow \<lparr>al_policy = p_name p, al_rule = rule_label r i,
               al_egress = p_egress p, al_limits = p_limits p, al_session = p_session p\<rparr>
           | Action_Deny \<Rightarrow> Deny (policy_deny p ctx (ExplicitDeny (rule_label r i)))))"
  by (induction p ctx irs rule: evaluate_rules.induct) (auto simp: rule_applies_def Let_def)

lemma find_first_enumerate:
  "find_first (\<lambda>(_, r). P r) (enumerate_from n xs) =
     map_option (\<lambda>r. (n + length (takeWhile (\<lambda>r. \<not> P r) xs), r)) (find_first P xs)"
  by (induction xs arbitrary: n) (auto simp: option.map_comp comp_def)

lemma policy_evaluate_first:
  "policy_evaluate p ctx =
     (case find_first (\<lambda>r. rule_applies r ctx) (p_rules p) of
        None \<Rightarrow> Deny (policy_deny p ctx NoMatchingAllowRule)
      | Some r \<Rightarrow>
          (let label = rule_label r (length (takeWhile (\<lambda>r. \<not> rule_applies r ctx) (p_rules p))) in
           case r_action r of
             Action_Allow \<Rightarrow> Allow \<lparr>al_policy = p_name p, al_rule = label, al_egress = p_egress p,
               al_limits = p_limits p, al_session = p_session p\<rparr>
           | Action_Deny \<Rightarrow> Deny (policy_deny p ctx (ExplicitDeny label))))"
  by (simp add: policy_evaluate_def evaluate_rules_first find_first_enumerate Let_def split: option.split)

lemma policy_evaluate_allow_iff:
  "is_allow (policy_evaluate p ctx) \<longleftrightarrow>
     (\<exists>r. find_first (\<lambda>r. rule_applies r ctx) (p_rules p) = Some r \<and> r_action r = Action_Allow)"
  by (auto simp: policy_evaluate_first is_allow_def Let_def split: option.splits action.splits)

subsection \<open>Baselines\<close>

definition active_baselines :: "policy_set \<Rightarrow> request_context \<Rightarrow> policy list" where
  "active_baselines ps ctx =
     filter (\<lambda>p. p_baseline p \<and> match_matches (p_match_spec p) (rc_workload ctx)) ps"

lemma baseline_loop_None:
  "baseline_loop bs ctx = None \<longleftrightarrow> list_all (\<lambda>b. list_all (\<lambda>r. \<not> rule_denies r ctx) (p_rules b)) bs"
  by (induction bs)
     (auto simp: find_first_enumerate find_first_None_iff list_all_iff split: option.splits
       dest: find_first_SomeD)

lemma with_baseline_Deny [simp]: "with_baseline ps (Deny x) ctx = Deny x"
  by (simp add: with_baseline_def)

lemma with_baseline_Allow:
  "with_baseline ps (Allow a) ctx = Allow b \<longleftrightarrow>
     a = b \<and> list_all (\<lambda>b. list_all (\<lambda>r. \<not> rule_denies r ctx) (p_rules b)) (active_baselines ps ctx)"
  by (auto simp: with_baseline_def active_baselines_def [symmetric] baseline_loop_None [symmetric]
      split: option.splits)

lemma set_evaluate_Allow:
  "set_evaluate ps ctx = Allow a \<longleftrightarrow>
     (\<exists>p. set_select ps (rc_workload ctx) = Some p \<and> policy_evaluate p ctx = Allow a \<and>
        list_all (\<lambda>b. list_all (\<lambda>r. \<not> rule_denies r ctx) (p_rules b)) (active_baselines ps ctx) \<and>
        (rc_requested_policy ctx = None \<or> rc_requested_policy ctx = Some (p_name p)))"
proof -
  have wb: "with_baseline ps d ctx = Allow a \<longleftrightarrow> d = Allow a \<and>
      list_all (\<lambda>b. list_all (\<lambda>r. \<not> rule_denies r ctx) (p_rules b)) (active_baselines ps ctx)" for d
    by (cases d) (auto simp: with_baseline_Allow)
  show ?thesis
    by (cases "set_select ps (rc_workload ctx)"; cases "rc_requested_policy ctx")
       (auto simp: set_evaluate_def Let_def wb split: if_splits)
qed

subsection \<open>Closest rules\<close>

lemma dedup_by_key_set: "k ` set (dedup_by_key k xs) = k ` set xs"
  by (induction k xs rule: dedup_by_key.induct) auto

lemma dedup_by_key_subset: "set (dedup_by_key k xs) \<subseteq> set xs"
  by (induction k xs rule: dedup_by_key.induct) auto

lemma dedup_by_key_distinct:
  fixes f :: "'a \<Rightarrow> 'k :: linorder"
  assumes "sorted (map f xs)" "\<And>x y. x \<in> set xs \<Longrightarrow> y \<in> set xs \<Longrightarrow> k x = k y \<longleftrightarrow> f x = f y"
  shows "distinct (map k (dedup_by_key k xs))"
  using assms
proof (induction k xs rule: dedup_by_key.induct)
  case (3 k x y ys)
  show ?case
  proof (cases "k x = k y")
    case True
    have "distinct (map k (dedup_by_key k (x # ys)))"
    proof (rule "3.IH"(1) [OF True])
      show "sorted (map f (x # ys))" using "3.prems"(1) by auto
      show "k u = k v \<longleftrightarrow> f u = f v" if "u \<in> set (x # ys)" "v \<in> set (x # ys)" for u v
        using that "3.prems"(2) [of u v] by auto
    qed
    then show ?thesis using True by simp
  next
    case False
    then have "f x < f y" using "3.prems" by (simp add: order_less_le)
    then have "k x \<notin> k ` set (y # ys)"
      using "3.prems" by (auto simp: image_iff)
    moreover have "distinct (map k (dedup_by_key k (y # ys)))"
    proof (rule "3.IH"(2) [OF False])
      show "sorted (map f (y # ys))" using "3.prems"(1) by auto
      show "k u = k v \<longleftrightarrow> f u = f v" if "u \<in> set (y # ys)" "v \<in> set (y # ys)" for u v
        using that "3.prems"(2) [of u v] by auto
    qed
    ultimately show ?thesis using False by (simp add: dedup_by_key_set)
  qed
qed simp_all

definition allow_specs :: "rule list \<Rightarrow> request_context \<Rightarrow> destination_spec list" where
  "allow_specs rules ctx = concat (map r_destinations
     (filter (\<lambda>r. r_action r = Action_Allow \<and> rule_covers r (rc_application ctx) (rc_transport ctx)) rules))"

lemma closest_destinations_props:
  "distinct (closest_destinations rules ctx)"
  "length (closest_destinations rules ctx) \<le> 3"
  "set (closest_destinations rules ctx) \<subseteq> ds_raw ` set (allow_specs rules ctx)"
proof -
  define key where "key = (\<lambda>(score :: int, text :: string). (- score, map char_code text))"
  define scored where "scored = map (\<lambda>spec. (proximity (ds_raw spec) (rc_destination ctx), ds_raw spec)) (allow_specs rules ctx)"
  have c: "closest_destinations rules ctx = map snd (take 3 (dedup_by_key snd (sort_key key scored)))"
    by (simp add: closest_destinations_def Let_def allow_specs_def scored_def key_def)
  have inj: "snd x = snd y \<longleftrightarrow> key x = key y" if "x \<in> set scored" "y \<in> set scored" for x y
  proof -
    have "map char_code s = map char_code t \<longleftrightarrow> s = t" for s t
      by (rule inj_map_eq_map) (simp add: inj_def)
    then show ?thesis using that by (auto simp: scored_def key_def)
  qed
  then have "distinct (map snd (dedup_by_key snd (sort_key key scored)))"
    by (intro dedup_by_key_distinct [where f = key]) auto
  then show "distinct (closest_destinations rules ctx)"
    by (simp only: c take_map [symmetric] distinct_take)
  show "length (closest_destinations rules ctx) \<le> 3" by (simp add: c)
  have "set (take 3 (dedup_by_key snd (sort_key key scored))) \<subseteq> set scored"
    using dedup_by_key_subset [of snd "sort_key key scored"] set_take_subset by fastforce
  then show "set (closest_destinations rules ctx) \<subseteq> ds_raw ` set (allow_specs rules ctx)"
    by (auto simp: c scored_def)
qed

subsection \<open>Properties\<close>

text \<open>
  First match wins and deny is the default: a policy decides a request by the first of its rules
  that covers application, transport and destination, with that rule's action and, for an allow, the
  policy's own terms; when no rule applies the request is denied.
\<close>

theorem policy_first_match:
  "case find_first (\<lambda>r. rule_applies r ctx) (p_rules p) of
     None \<Rightarrow> policy_evaluate p ctx = Deny (policy_deny p ctx NoMatchingAllowRule)
   | Some r \<Rightarrow>
       (let label = rule_label r (length (takeWhile (\<lambda>r. \<not> rule_applies r ctx) (p_rules p))) in
        policy_evaluate p ctx =
          (if r_action r = Action_Allow
           then Allow \<lparr>al_policy = p_name p, al_rule = label, al_egress = p_egress p,
             al_limits = p_limits p, al_session = p_session p\<rparr>
           else Deny (policy_deny p ctx (ExplicitDeny label))))"
  by (simp add: policy_evaluate_first Let_def split: option.split action.split)

text \<open>
  C5. A request is allowed exactly when the policy selected for its identity exists, is the one the
  client pinned if it pinned any, decides to allow it by its first applicable rule, and no rule of
  an active baseline denies it. In every other case the answer is a denial.
\<close>

theorem set_allows_iff:
  "is_allow (set_evaluate ps ctx) \<longleftrightarrow>
     (\<exists>p r. set_select ps (rc_workload ctx) = Some p \<and>
        (rc_requested_policy ctx = None \<or> rc_requested_policy ctx = Some (p_name p)) \<and>
        find_first (\<lambda>r. rule_applies r ctx) (p_rules p) = Some r \<and> r_action r = Action_Allow \<and>
        list_all (\<lambda>b. list_all (\<lambda>r. \<not> rule_denies r ctx) (p_rules b)) (active_baselines ps ctx))"
proof -
  have ex: "is_allow d \<longleftrightarrow> (\<exists>a. d = Allow a)" for d
    by (cases d) (auto simp: is_allow_def)
  have "is_allow (set_evaluate ps ctx) \<longleftrightarrow> (\<exists>a. set_evaluate ps ctx = Allow a)" by (rule ex)
  also have "\<dots> \<longleftrightarrow> (\<exists>p. set_select ps (rc_workload ctx) = Some p \<and> is_allow (policy_evaluate p ctx) \<and>
        list_all (\<lambda>b. list_all (\<lambda>r. \<not> rule_denies r ctx) (p_rules b)) (active_baselines ps ctx) \<and>
        (rc_requested_policy ctx = None \<or> rc_requested_policy ctx = Some (p_name p)))"
    unfolding set_evaluate_Allow ex by blast
  finally show ?thesis unfolding policy_evaluate_allow_iff by blast
qed

text \<open>
  C7. A pinned policy never widens access: whatever name the client pins, the decision is either the
  one it would have got without a pin or a denial for the mismatch.
\<close>

theorem pin_only_narrows:
  "set_evaluate ps (ctx\<lparr>rc_requested_policy := Some q\<rparr>) = set_evaluate ps (ctx\<lparr>rc_requested_policy := None\<rparr>) \<or>
   (\<exists>d s. set_evaluate ps (ctx\<lparr>rc_requested_policy := Some q\<rparr>) = Deny d \<and> dn_reason d = PolicyMismatch q s)"
proof -
  let ?c = "\<lambda>x. ctx\<lparr>rc_requested_policy := x\<rparr>"
  have app: "rule_applies r (?c x) = rule_applies r ctx" "rule_denies r (?c x) = rule_denies r ctx" for r x
    by (simp_all add: rule_applies_def rule_denies_def)
  have sg: "suggested_rule (?c x) = suggested_rule ctx" for x
    by (cases "rc_transport ctx") (simp_all add: suggested_rule_def Let_def)
  have den: "policy_deny p (?c x) = policy_deny p ctx" for p x
    by (rule ext) (simp add: policy_deny_def sg closest_destinations_def)
  have ev: "policy_evaluate p (?c x) = policy_evaluate p ctx" for p x
    unfolding policy_evaluate_first by (simp only: app den)
  have bl: "baseline_loop bs (?c x) = baseline_loop bs ctx" for bs x
    by (induction bs) (simp_all only: baseline_loop.simps app)
  show ?thesis
    by (auto simp: set_evaluate_def Let_def ev bl with_baseline_def sg
        split: option.splits decision.splits)
qed

text \<open>
  The policy selected for an identity is a matching policy that is not a baseline; every earlier
  matching policy is strictly less specific and no later one is more specific; nothing is selected
  only when no policy matches.
\<close>

theorem select_most_specific_earliest:
  "case set_select ps i of
     None \<Rightarrow> candidates ps i = []
   | Some p \<Rightarrow> \<exists>us vs. candidates ps i = us @ p # vs \<and>
       list_all (\<lambda>u. specificity (p_match_spec u) < specificity (p_match_spec p)) us \<and>
       list_all (\<lambda>v. specificity (p_match_spec v) \<le> specificity (p_match_spec p)) vs"
proof (cases "set_select ps i")
  case None
  moreover from this have "candidates ps i = []" by (simp add: set_select_None)
  ultimately show ?thesis by simp
next
  case (Some p)
  then obtain us vs where "candidates ps i = us @ p # vs"
    "\<forall>u \<in> set us. specificity (p_match_spec u) < specificity (p_match_spec p)"
    "\<forall>v \<in> set vs. specificity (p_match_spec v) \<le> specificity (p_match_spec p)"
    by (rule set_select_Some)
  then show ?thesis using Some by (auto simp: list_all_iff)
qed

text \<open>
  C6. A baseline is a guardrail and never a grant: inserting a baseline policy anywhere in a policy
  set never allows a request that was not allowed without it, and an allow it leaves standing keeps
  its terms.
\<close>

theorem baseline_never_grants:
  assumes "p_baseline b" "set_evaluate (ps1 @ b # ps2) ctx = Allow a"
  shows "set_evaluate (ps1 @ ps2) ctx = Allow a"
proof -
  have "set_select (ps1 @ b # ps2) i = set_select (ps1 @ ps2) i" for i
    using assms(1) by (simp add: set_select_def)
  moreover have "set (active_baselines (ps1 @ ps2) ctx) \<subseteq> set (active_baselines (ps1 @ b # ps2) ctx)"
    by (auto simp: active_baselines_def)
  ultimately show ?thesis
    using assms(2) unfolding set_evaluate_Allow list_all_iff by fastforce
qed

text \<open>A policy that allows everything, a baseline that denies one host, and a request.\<close>

definition sample_spec :: "host_pattern \<Rightarrow> destination_spec" where
  "sample_spec h = \<lparr>ds_host = h, ds_port = PP_Any, ds_raw = ''*''\<rparr>"

definition sample_policy :: "string \<Rightarrow> bool \<Rightarrow> action \<Rightarrow> host_pattern \<Rightarrow> policy" where
  "sample_policy name base act h =
     \<lparr>p_name = name, p_match_spec = match_default, p_session = \<lparr>ss_max_duration = None\<rparr>,
      p_egress = None, p_limits = limits_default,
      p_rules = [\<lparr>r_id = None, r_application = App_Any, r_transport = TP_Any, r_action = act,
        r_destinations = [sample_spec h]\<rparr>],
      p_tests = [], p_baseline = base\<rparr>"

definition sample_request :: "string \<Rightarrow> request_context" where
  "sample_request h = \<lparr>rc_workload = identity_default, rc_application = ''app'', rc_transport = Tcp,
     rc_destination = \<lparr>d_host = Host_Name h, d_port = 443\<rparr>, rc_requested_policy = None\<rparr>"

lemmas sample_defs = sample_spec_def sample_policy_def sample_request_def match_default_def
  match_matches_def set_select_def candidates_def active_baselines_def rule_applies_def
  rule_denies_def rule_covers_def app_matches_def transport_matches_def spec_matches_def
  port_matches_def host_matches_def

theorem baseline_never_grants_witness:
  "set_evaluate ([] @ [sample_policy ''open'' False Action_Allow HP_Any]) (sample_request ''a'') =
    Allow \<lparr>al_policy = ''open'', al_rule = ''rule #0'', al_egress = None, al_limits = limits_default,
      al_session = \<lparr>ss_max_duration = None\<rparr>\<rparr>"
proof (rule baseline_never_grants)
  show "p_baseline (sample_policy ''floor'' True Action_Deny (HP_Exact ''b''))"
    by (simp add: sample_policy_def)
  show "set_evaluate ([] @ sample_policy ''floor'' True Action_Deny (HP_Exact ''b'') #
      [sample_policy ''open'' False Action_Allow HP_Any]) (sample_request ''a'') =
    Allow \<lparr>al_policy = ''open'', al_rule = ''rule #0'', al_egress = None, al_limits = limits_default,
      al_session = \<lparr>ss_max_duration = None\<rparr>\<rparr>"
    by (simp add: set_evaluate_Allow policy_evaluate_first sample_defs rule_label_def
        nat_to_string.simps digit_char_eq_0 [of 0, simplified])
qed

text \<open>
  The hint of a denial names at most three destinations, all different, and each is the text of
  a destination that an allow rule for this application and transport really has.
\<close>

theorem closest_hint_sound:
  "distinct (closest_destinations rules ctx) \<and> length (closest_destinations rules ctx) \<le> 3 \<and>
   set (closest_destinations rules ctx) \<subseteq> ds_raw ` set (allow_specs rules ctx)"
  using closest_destinations_props by simp

end
