(* ===== verification/Policy_Parse.thy ===== *)
theory Policy_Parse
  imports Policy_Eval
begin

text \<open>
  From a policy document to a validated policy, \<^verbatim>\<open>src/crates/skimasque-policy/src/parse.rs\<close>.
  The TOML and YAML readers are the arguments \<open>toml\<close> and \<open>yaml\<close>: each maps a document to
  the raw structure the source derives \<^verbatim>\<open>Deserialize\<close> for, or to its error. Everything after
  that is the code's own validation.
\<close>

datatype parse_error =
    PE_Toml string
  | PE_Yaml string
  | PE_DurationSetTwice
  | PE_MissingName
  | PE_Destination nat parse_destination_error
  | PE_EmptyRule nat
  | PE_Unit string parse_unit_error
  | PE_BadAction string string
  | PE_BadTransport string string
  | PE_BaselineAllows nat
  | PE_BadKind string

record raw_match =
  rm_organization :: "string option"
  rm_repository :: "string option"
  rm_workflow :: "string option"
  rm_git_ref :: "string option"
  rm_branch :: "string option"
  rm_environment :: "string option"
  rm_actor :: "string option"
  rm_kind :: "string option"

record raw_session =
  rs_max_duration :: "string option"

record raw_egress =
  re_region :: "string option"
  re_ip_pool :: "string option"

record raw_limits =
  rl_bandwidth :: "string option"
  rl_bytes :: "string option"
  rl_connections :: "u32 option"
  rl_concurrent_destinations :: "u32 option"
  rl_connection_rate :: "string option"
  rl_packets_per_second :: "u64 option"

record raw_rule =
  rr_id :: "string option"
  rr_application :: string
  rr_transport :: "string option"
  rr_action :: string
  rr_destinations :: "string list"

record raw_test =
  rt_application :: string
  rt_destination :: string
  rt_transport :: "string option"
  rt_expect :: string
  rt_description :: "string option"

record raw_policy =
  rp_name :: "string option"
  rp_baseline :: bool
  rp_match_spec :: raw_match
  rp_session :: raw_session
  rp_egress :: "raw_egress option"
  rp_limits :: raw_limits
  rp_rules :: "raw_rule list"
  rp_tests :: "raw_test list"

record yaml_application =
  ya_name :: string

record yaml_network =
  yn_transport :: "string option"
  yn_allow :: "string list"
  yn_deny :: "string list"

record yaml_limits =
  yl_duration :: "string option"
  yl_bandwidth :: "string option"
  yl_bytes :: "string option"
  yl_connections :: "u32 option"
  yl_concurrent_destinations :: "u32 option"
  yl_connection_rate :: "string option"
  yl_packets_per_second :: "u64 option"

record yaml_doc =
  yd_name :: "string option"
  yd_baseline :: bool
  yd_identity :: raw_match
  yd_application :: "yaml_application option"
  yd_session :: raw_session
  yd_egress :: "raw_egress option"
  yd_network :: yaml_network
  yd_limits :: yaml_limits
  yd_tests :: "raw_test list"

definition parse_action :: "string \<Rightarrow> string \<Rightarrow> parse_error + action" where
  "parse_action field v =
     (if v = ''allow'' then Inr Action_Allow
      else if v = ''deny'' then Inr Action_Deny
      else Inl (PE_BadAction field v))"

definition parse_transport_pattern :: "string \<Rightarrow> string option \<Rightarrow> parse_error + transport_pattern" where
  "parse_transport_pattern field v =
     (case v of
        None \<Rightarrow> Inr TP_Any
      | Some w \<Rightarrow>
          if w = ''any'' then Inr TP_Any
          else if w = ''tcp'' then Inr TP_Tcp
          else if w = ''udp'' then Inr TP_Udp
          else Inl (PE_BadTransport field w))"

definition parse_field ::
  "string \<Rightarrow> string option \<Rightarrow> (string \<Rightarrow> parse_unit_error + 'a) \<Rightarrow> parse_error + 'a option" where
  "parse_field field v parser = transpose_map (\<lambda>x. map_err (PE_Unit field) (parser x)) v"

definition into_rule :: "nat \<Rightarrow> raw_rule \<Rightarrow> parse_error + rule" where
  "into_rule index raw =
     (if rr_destinations raw = [] then Inl (PE_EmptyRule index)
      else
        and_then (parse_action (''rule '' @ nat_to_string index @ '' action'') (rr_action raw)) (\<lambda>act.
        and_then (parse_transport_pattern (''rule '' @ nat_to_string index @ '' transport'')
          (rr_transport raw)) (\<lambda>trans.
        let application = (if rr_application raw = ''*'' then App_Any else App_Name (rr_application raw)) in
        and_then (map_err (PE_Destination index) (try_map spec_parse (rr_destinations raw))) (\<lambda>dests.
        Inr \<lparr>r_id = rr_id raw, r_application = application, r_transport = trans, r_action = act,
             r_destinations = dests\<rparr>))))"

definition into_test :: "raw_test \<Rightarrow> parse_error + policy_test" where
  "into_test raw =
     and_then (parse_action ''test expect'' (rt_expect raw)) (\<lambda>expect.
     and_then
       (case rt_transport raw of
          None \<Rightarrow> Inr None
        | Some word \<Rightarrow>
            and_then (parse_transport_pattern ''test transport'' (Some word)) (\<lambda>p.
              case p of
                TP_Any \<Rightarrow> Inl (PE_BadTransport ''test transport'' word)
              | TP_Tcp \<Rightarrow> Inr (Some Tcp)
              | TP_Udp \<Rightarrow> Inr (Some Udp))) (\<lambda>trans.
     Inr \<lparr>pt_application = rt_application raw, pt_destination = rt_destination raw,
          pt_transport = trans, pt_expect = expect, pt_description = rt_description raw\<rparr>))"

definition position :: "('a \<Rightarrow> bool) \<Rightarrow> 'a list \<Rightarrow> nat option" where
  "position P xs = (if list_ex P xs then Some (length (takeWhile (\<lambda>x. \<not> P x) xs)) else None)"

definition into_policy :: "'f float_ops \<Rightarrow> raw_policy \<Rightarrow> parse_error + policy" where
  "into_policy F raw =
     and_then (case rp_name raw of
                 Some n \<Rightarrow> if n \<noteq> [] then Inr n else Inl PE_MissingName
               | None \<Rightarrow> Inl PE_MissingName) (\<lambda>name.
     and_then (transpose_map (\<lambda>k. ok_or (PE_BadKind k) (kind_parse k)) (rm_kind (rp_match_spec raw))) (\<lambda>kind.
     let m = rp_match_spec raw;
         match = \<lparr>ms_organization = rm_organization m, ms_repository = rm_repository m,
           ms_workflow = rm_workflow m, ms_git_ref = rm_git_ref m, ms_branch = rm_branch m,
           ms_environment = rm_environment m, ms_actor = rm_actor m, ms_kind = kind\<rparr> in
     and_then (parse_field ''session.max_duration'' (rs_max_duration (rp_session raw)) parse_duration) (\<lambda>dur.
     let egress = map_option (\<lambda>e. \<lparr>eg_region = re_region e, eg_ip_pool = re_ip_pool e\<rparr>) (rp_egress raw);
         l = rp_limits raw in
     and_then (parse_field ''limits.bandwidth'' (rl_bandwidth l) (parse_bitrate F)) (\<lambda>bandwidth.
     and_then (parse_field ''limits.bytes'' (rl_bytes l) (parse_bytes F)) (\<lambda>bytes.
     and_then (parse_field ''limits.connection_rate'' (rl_connection_rate l) parse_rate) (\<lambda>rate.
     and_then (try_map (\<lambda>(index, r). into_rule index r) (enumerate_from 0 (rp_rules raw))) (\<lambda>rules.
     and_then (try_map into_test (rp_tests raw)) (\<lambda>tests.
     case (if rp_baseline raw then position (\<lambda>r. r_action r = Action_Allow) rules else None) of
       Some index \<Rightarrow> Inl (PE_BaselineAllows index)
     | None \<Rightarrow>
         Inr \<lparr>p_name = name, p_match_spec = match, p_session = \<lparr>ss_max_duration = dur\<rparr>,
              p_egress = egress,
              p_limits = \<lparr>lim_bandwidth_bits_per_sec = bandwidth, lim_total_bytes = bytes,
                lim_concurrent_connections = rl_connections l,
                lim_concurrent_destinations = rl_concurrent_destinations l,
                lim_connection_rate = rate, lim_packets_per_sec = rl_packets_per_second l\<rparr>,
              p_rules = rules, p_tests = tests, p_baseline = rp_baseline raw\<rparr>))))))))"

definition yaml_into_raw :: "yaml_doc \<Rightarrow> parse_error + raw_policy" where
  "yaml_into_raw y =
     (let application = (case yd_application y of Some a \<Rightarrow> ya_name a | None \<Rightarrow> ''*'');
          trans = yn_transport (yd_network y);
          deny_rules = (if yn_deny (yd_network y) \<noteq> []
            then [\<lparr>rr_id = Some (application @ ''-deny''), rr_application = application,
                   rr_transport = trans, rr_action = ''deny'',
                   rr_destinations = yn_deny (yd_network y)\<rparr>] else []);
          allow_rules = (if yn_allow (yd_network y) \<noteq> []
            then [\<lparr>rr_id = Some (application @ ''-allow''), rr_application = application,
                   rr_transport = trans, rr_action = ''allow'',
                   rr_destinations = yn_allow (yd_network y)\<rparr>] else [])
      in and_then
           (case (rs_max_duration (yd_session y), yl_duration (yd_limits y)) of
              (Some _, Some _) \<Rightarrow> Inl PE_DurationSetTwice
            | (a, b) \<Rightarrow> Inr (case a of Some x \<Rightarrow> Some x | None \<Rightarrow> b)) (\<lambda>max_duration.
         Inr \<lparr>rp_name = yd_name y, rp_baseline = yd_baseline y, rp_match_spec = yd_identity y,
              rp_session = \<lparr>rs_max_duration = max_duration\<rparr>, rp_egress = yd_egress y,
              rp_limits = \<lparr>rl_bandwidth = yl_bandwidth (yd_limits y), rl_bytes = yl_bytes (yd_limits y),
                rl_connections = yl_connections (yd_limits y),
                rl_concurrent_destinations = yl_concurrent_destinations (yd_limits y),
                rl_connection_rate = yl_connection_rate (yd_limits y),
                rl_packets_per_second = yl_packets_per_second (yd_limits y)\<rparr>,
              rp_rules = deny_rules @ allow_rules, rp_tests = yd_tests y\<rparr>))"

definition from_toml :: "'f float_ops \<Rightarrow> (string \<Rightarrow> parse_error + raw_policy) \<Rightarrow> string \<Rightarrow> parse_error + policy" where
  "from_toml F toml input = and_then (toml input) (into_policy F)"

definition from_yaml :: "'f float_ops \<Rightarrow> (string \<Rightarrow> parse_error + yaml_doc) \<Rightarrow> string \<Rightarrow> parse_error + policy" where
  "from_yaml F yaml input = and_then (yaml input) (\<lambda>y. and_then (yaml_into_raw y) (into_policy F))"

definition from_named_document ::
  "'f float_ops \<Rightarrow> (string \<Rightarrow> parse_error + raw_policy) \<Rightarrow> (string \<Rightarrow> parse_error + yaml_doc) \<Rightarrow>
   string \<Rightarrow> string \<Rightarrow> parse_error + policy" where
  "from_named_document F toml yaml source_name input =
     (let lower = to_ascii_lowercase source_name in
      if ends_with lower ''.yaml'' \<or> ends_with lower ''.yml'' then from_yaml F yaml input
      else from_toml F toml input)"

datatype set_error = SE_Parse string parse_error | SE_DuplicateName string string string

fun documents_loop ::
  "(string \<Rightarrow> string \<Rightarrow> parse_error + policy) \<Rightarrow> (string \<times> policy) list \<Rightarrow> (string \<times> string) list \<Rightarrow>
   set_error + (string \<times> policy) list" where
  "documents_loop parse acc [] = Inr acc"
| "documents_loop parse acc ((source_name, contents) # docs) =
     (case parse source_name contents of
        Inl e \<Rightarrow> Inl (SE_Parse source_name e)
      | Inr p \<Rightarrow>
          (case find_first (\<lambda>(_, q). p_name q = p_name p) acc of
             Some (existing, _) \<Rightarrow> Inl (SE_DuplicateName (p_name p) existing source_name)
           | None \<Rightarrow> documents_loop parse (acc @ [(source_name, p)]) docs))"

definition from_documents ::
  "'f float_ops \<Rightarrow> (string \<Rightarrow> parse_error + raw_policy) \<Rightarrow> (string \<Rightarrow> parse_error + yaml_doc) \<Rightarrow>
   (string \<times> string) list \<Rightarrow> set_error + policy_set" where
  "from_documents F toml yaml docs =
     map_sum id (map snd) (documents_loop (from_named_document F toml yaml) [] docs)"

subsection \<open>What validation guarantees\<close>

definition rule_wf :: "rule \<Rightarrow> bool" where
  "rule_wf r \<longleftrightarrow> r_destinations r \<noteq> [] \<and> list_all spec_wf (r_destinations r)"

definition policy_wf :: "policy \<Rightarrow> bool" where
  "policy_wf p \<longleftrightarrow> p_name p \<noteq> [] \<and> list_all rule_wf (p_rules p) \<and>
     (p_baseline p \<longrightarrow> list_all (\<lambda>r. r_action r = Action_Deny) (p_rules p))"

lemma into_rule_InrD:
  assumes "into_rule index raw = Inr r"
  shows "rr_destinations raw \<noteq> []"
    and "parse_action (''rule '' @ nat_to_string index @ '' action'') (rr_action raw) = Inr (r_action r)"
    and "parse_transport_pattern (''rule '' @ nat_to_string index @ '' transport'') (rr_transport raw) =
      Inr (r_transport r)"
    and "r_application r = (if rr_application raw = ''*'' then App_Any else App_Name (rr_application raw))"
    and "list_all2 (\<lambda>d s. spec_parse d = Inr s) (rr_destinations raw) (r_destinations r)"
  using assms
  by (auto simp: into_rule_def and_then_Inr_iff Let_def try_map_Inr_iff split: if_splits)

lemma into_rule_wf: "into_rule index raw = Inr r \<Longrightarrow> rule_wf r"
proof -
  assume r: "into_rule index raw = Inr r"
  have "spec_wf s" if "s \<in> set (r_destinations r)" for s
    using list_all2_rightD [OF into_rule_InrD(5) [OF r] that] parse_spec_wf by blast
  moreover have "r_destinations r \<noteq> []"
    using into_rule_InrD(1,5) [OF r] by auto
  ultimately show ?thesis by (simp add: rule_wf_def list_all_iff)
qed

lemma into_policy_InrD:
  assumes "into_policy F raw = Inr p"
  shows "rp_name raw = Some (p_name p)" "p_name p \<noteq> []" "p_baseline p = rp_baseline raw"
    "try_map (\<lambda>(index, r). into_rule index r) (enumerate_from 0 (rp_rules raw)) = Inr (p_rules p)"
    "p_baseline p \<Longrightarrow> position (\<lambda>r. r_action r = Action_Allow) (p_rules p) = None"
  using assms
  by (auto simp: into_policy_def and_then_Inr_iff Let_def split: option.splits if_splits)

lemma position_None: "position P xs = None \<longleftrightarrow> list_all (\<lambda>x. \<not> P x) xs"
  by (auto simp: position_def list_ex_iff list_all_iff)

lemma into_policy_wf: "into_policy F raw = Inr p \<Longrightarrow> policy_wf p"
proof -
  assume p: "into_policy F raw = Inr p"
  note d = into_policy_InrD [OF p]
  have "rule_wf r" if mem: "r \<in> set (p_rules p)" for r
  proof -
    from d(4) have all: "list_all2 (\<lambda>x y. (case x of (index, r) \<Rightarrow> into_rule index r) = Inr y)
        (enumerate_from 0 (rp_rules raw)) (p_rules p)"
      by (simp add: try_map_Inr_iff)
    obtain x where "(case x of (index, r) \<Rightarrow> into_rule index r) = Inr r"
      using list_all2_rightD [OF all mem] by blast
    then show ?thesis by (auto intro: into_rule_wf split: prod.splits)
  qed
  moreover have "p_baseline p \<longrightarrow> list_all (\<lambda>r. r_action r = Action_Deny) (p_rules p)"
    using d(5) by (auto simp: position_None list_all_iff) (metis action.exhaust)
  ultimately show ?thesis using d(2) by (simp add: policy_wf_def list_all_iff)
qed

lemma from_named_document_wf: "from_named_document F toml yaml n c = Inr p \<Longrightarrow> policy_wf p"
  by (auto simp: from_named_document_def Let_def from_yaml_def from_toml_def and_then_Inr_iff
      intro: into_policy_wf split: if_splits)

lemma documents_loop_inv:
  assumes "documents_loop parse acc docs = Inr qs" "distinct (map (p_name \<circ> snd) acc)"
    and "\<And>n c p. parse n c = Inr p \<Longrightarrow> P p" "list_all (P \<circ> snd) acc"
  shows "distinct (map (p_name \<circ> snd) qs) \<and> list_all (P \<circ> snd) qs \<and>
    map fst qs = map fst acc @ map fst docs"
  using assms
proof (induction parse acc docs rule: documents_loop.induct)
  case (1 parse acc)
  then show ?case by simp
next
  case (2 parse acc n c docs)
  obtain p where p: "parse n c = Inr p" using "2.prems"(1) by (cases "parse n c") auto
  have nf: "find_first (\<lambda>(_, q). p_name q = p_name p) acc = None"
    using "2.prems"(1) p by (auto split: option.splits)
  then have fresh: "p_name p \<notin> set (map (p_name \<circ> snd) acc)"
    by (auto simp: find_first_None_iff)
  have "documents_loop parse (acc @ [(n, p)]) docs = Inr qs" using "2.prems"(1) p nf by simp
  then show ?case
    using "2.IH" [OF p nf] "2.prems" fresh p by auto
qed

subsection \<open>Properties\<close>

lemma from_documents_wf:
  assumes "from_documents F toml yaml docs = Inr ps"
  shows "length ps = length docs \<and> distinct (map p_name ps) \<and> list_all policy_wf ps"
proof -
  obtain qs where q: "documents_loop (from_named_document F toml yaml) [] docs = Inr qs" "ps = map snd qs"
    using assms by (cases "documents_loop (from_named_document F toml yaml) [] docs")
      (simp_all add: from_documents_def)
  have "distinct (map (p_name \<circ> snd) qs) \<and> list_all (policy_wf \<circ> snd) qs \<and>
      map fst qs = map fst ([] :: (string \<times> policy) list) @ map fst docs"
    by (rule documents_loop_inv [OF q(1)]) (auto intro: from_named_document_wf)
  then show ?thesis unfolding q(2) by (simp add: list_all_iff) (metis length_map)
qed

text \<open>
  C38. A policy set loaded from documents is well formed: it holds one policy per document, in order,
  no two with the same name; every policy has a name, every rule has at least one destination and
  only well-formed ones, and a baseline holds deny rules only.
\<close>

theorem loaded_set_well_formed:
  "case from_documents F toml yaml docs of
     Inl _ \<Rightarrow> True
   | Inr ps \<Rightarrow> length ps = length docs \<and> distinct (map p_name ps) \<and> list_all policy_wf ps"
  by (cases "from_documents F toml yaml docs") (simp_all add: from_documents_wf)

text \<open>
  In the YAML layout the deny list wins: a request that an entry of the deny list matches, for
  the document's application and transport, is denied by the resulting policy even if the allow list
  names the same destination.
\<close>

theorem yaml_deny_list_wins:
  assumes "yaml_into_raw y = Inr raw" "into_policy F raw = Inr p"
    and "d \<in> set (yn_deny (yd_network y))" "spec_parse d = Inr s" "spec_matches s (rc_destination ctx)"
    and "case yd_application y of None \<Rightarrow> True
      | Some a \<Rightarrow> ya_name a = ''*'' \<or> eq_ignore_ascii_case (ya_name a) (rc_application ctx)"
    and "yn_transport (yd_network y) = None"
  shows "is_deny (policy_evaluate p ctx)"
proof -
  let ?app = "case yd_application y of Some a \<Rightarrow> ya_name a | None \<Rightarrow> ''*''"
  let ?raw = "\<lparr>rr_id = Some (?app @ ''-deny''), rr_application = ?app, rr_transport = None,
    rr_action = ''deny'', rr_destinations = yn_deny (yd_network y)\<rparr>"
  have ne: "yn_deny (yd_network y) \<noteq> []" using assms(3) by auto
  obtain rest where rules: "rp_rules raw = ?raw # rest"
    using assms(1,7) ne by (auto simp: yaml_into_raw_def Let_def and_then_Inr_iff)
  obtain r rs where r: "into_rule 0 ?raw = Inr r" "p_rules p = r # rs"
    using into_policy_InrD(4) [OF assms(2)] unfolding rules
    by (cases "into_rule 0 ?raw"; cases "p_rules p") (auto split: sum.splits)
  note d = into_rule_InrD [OF r(1)]
  have act: "r_action r = Action_Deny" using d(2) by (simp add: parse_action_def)
  have "r_transport r = TP_Any" using d(3) by (simp add: parse_transport_pattern_def)
  moreover have "app_matches (r_application r) (rc_application ctx)"
    using d(4) assms(6) by (auto simp: app_matches_def split: option.splits)
  ultimately have "rule_covers r (rc_application ctx) (rc_transport ctx)"
    by (simp add: rule_covers_def transport_matches_def)
  moreover have "s \<in> set (r_destinations r)"
    using list_all2_leftD [OF d(5), of d] assms(3,4) by auto
  ultimately have "rule_applies r ctx"
    using assms(5) by (auto simp: rule_applies_def list_ex_iff)
  then show ?thesis
    using act r(2) by (simp add: policy_evaluate_first is_deny_def Let_def)
qed

definition no_floats :: "unit float_ops" where
  "no_floats = \<lparr>f_parse = (\<lambda>_. None), f_negative = (\<lambda>_. False), f_of_nat = (\<lambda>_. ()),
     f_mul = (\<lambda>_ _. ()), f_fits_u64 = (\<lambda>_. False), f_round = (\<lambda>_. 0)\<rparr>"

definition sample_yaml :: yaml_doc where
  "sample_yaml = \<lparr>yd_name = Some ''p'', yd_baseline = False,
     yd_identity = \<lparr>rm_organization = None, rm_repository = None, rm_workflow = None, rm_git_ref = None,
       rm_branch = None, rm_environment = None, rm_actor = None, rm_kind = None\<rparr>,
     yd_application = None, yd_session = \<lparr>rs_max_duration = None\<rparr>, yd_egress = None,
     yd_network = \<lparr>yn_transport = None, yn_allow = [''*''], yn_deny = [''*'']\<rparr>,
     yd_limits = \<lparr>yl_duration = None, yl_bandwidth = None, yl_bytes = None, yl_connections = None,
       yl_concurrent_destinations = None, yl_connection_rate = None, yl_packets_per_second = None\<rparr>,
     yd_tests = []\<rparr>"

lemma spec_parse_star: "spec_parse ''*'' = Inr \<lparr>ds_host = HP_Any, ds_port = PP_Any, ds_raw = ''*''\<rparr>"
  using str_trim_graphic [of "''*''"] by (simp add: spec_parse_def is_graphic_str_def)

theorem yaml_deny_list_wins_witness:
  "\<exists>raw p. yaml_into_raw sample_yaml = Inr raw \<and> into_policy no_floats raw = Inr p \<and>
     is_deny (policy_evaluate p (sample_request ''a''))"
proof -
  obtain raw where raw: "yaml_into_raw sample_yaml = Inr raw"
    by (simp add: yaml_into_raw_def sample_yaml_def Let_def)
  obtain p where p: "into_policy no_floats raw = Inr p"
    using raw by (auto simp: yaml_into_raw_def sample_yaml_def Let_def into_policy_def parse_field_def
        transpose_map_def into_rule_def parse_action_def parse_transport_pattern_def spec_parse_star)
  have "is_deny (policy_evaluate p (sample_request ''a''))"
    by (rule yaml_deny_list_wins [OF raw p _ spec_parse_star])
       (simp_all add: sample_yaml_def spec_matches_def port_matches_def host_matches_def)
  then show ?thesis using raw p by blast
qed

end
