(* ===== verification/Policy_Tools.thy ===== *)
theory Policy_Tools
  imports Policy_Parse
begin

text \<open>
  What surrounds the engine in \<^verbatim>\<open>src/crates/skimasque-policy/src\<close>: the static checks of
  \<^verbatim>\<open>lint.rs\<close>, the decision text and the policy tests of \<^verbatim>\<open>report.rs\<close> and the TOML
  writer of \<^verbatim>\<open>render.rs\<close>. The text of a destination
  error is the argument \<open>show_error\<close>.
\<close>

subsection \<open>Lints\<close>

datatype lint_code = MatchGovernsEveryWorkload | MatchLacksRepository | MatchLacksRef

record lint =
  lint_policy :: string
  lint_code_of :: lint_code
  lint_message :: string

definition lint_code_as_str :: "lint_code \<Rightarrow> string" where
  "lint_code_as_str c =
     (case c of
        MatchGovernsEveryWorkload \<Rightarrow> ''match-governs-every-workload''
      | MatchLacksRepository \<Rightarrow> ''match-lacks-repository''
      | MatchLacksRef \<Rightarrow> ''match-lacks-ref'')"

definition name_if :: "string \<Rightarrow> 'a option \<Rightarrow> string list" where
  "name_if n x = (if x \<noteq> None then [n] else [])"

definition constrained_field_names :: "policy \<Rightarrow> string" where
  "constrained_field_names p =
     (let m = p_match_spec p in
      join_with '', '' (name_if ''organization'' (ms_organization m) @ name_if ''workflow'' (ms_workflow m) @
        name_if ''git_ref'' (ms_git_ref m) @ name_if ''branch'' (ms_branch m) @
        name_if ''environment'' (ms_environment m) @ name_if ''actor'' (ms_actor m) @
        name_if ''kind'' (ms_kind m)))"

definition policy_lints :: "policy \<Rightarrow> lint list" where
  "policy_lints p =
     (let m = p_match_spec p;
          make = (\<lambda>code msg. \<lparr>lint_policy = p_name p, lint_code_of = code, lint_message = msg\<rparr>) in
      if \<not> list_ex (\<lambda>r. r_action r = Action_Allow) (p_rules p) then []
      else if specificity m = 0 then
        [make MatchGovernsEveryWorkload
          (''the [match] block is empty, so every workload with a valid credential is '' @
           ''granted this policy's allow rules; add repository (and a branch) unless this '' @
           ''is a deliberate single-tenant catch-all'')]
      else if ms_repository m = None then
        (let named = constrained_field_names p in
         [make MatchLacksRepository
           (''[match] constrains '' @ named @ '' but not repository, so a workload from any '' @
            ''repository that satisfies '' @ named @ '' is granted this policy's allow rules; '' @
            ''pin repository as well'')])
      else if ms_branch m = None \<and> ms_git_ref m = None then
        [make MatchLacksRef
          (''[match] pins a repository but no branch or git_ref, so any ref matches -- '' @
           ''including a pull-request branch from an outside contributor; add branch or '' @
           ''git_ref to keep untrusted refs out'')]
      else [])"

definition set_lints :: "policy_set \<Rightarrow> lint list" where
  "set_lints ps = concat (map policy_lints ps)"

subsection \<open>Reports\<close>

definition nl :: string where
  "nl = [char_of (10 :: nat)]"

definition humanize_report :: "duration \<Rightarrow> string" where
  "humanize_report d =
     (let secs = d div 1000000000 in
      if secs \<noteq> 0 \<and> secs mod 3600 = 0 then nat_to_string (secs div 3600) @ ''h''
      else if secs \<noteq> 0 \<and> secs mod 60 = 0 then nat_to_string (secs div 60) @ ''m''
      else nat_to_string secs @ ''s'')"

definition decision_display :: "decision \<Rightarrow> string" where
  "decision_display d =
     (case d of
        Allow a \<Rightarrow>
          ''ALLOW'' @ nl @ nl @ ''Policy: '' @ al_policy a @ nl @ ''Rule: '' @ al_rule a @
          (case al_egress a of
             None \<Rightarrow> []
           | Some e \<Rightarrow>
               (case eg_region e of
                  Some region \<Rightarrow> nl @ ''Egress: '' @ region
                | None \<Rightarrow> (case eg_ip_pool e of Some pool \<Rightarrow> nl @ ''Egress: '' @ pool | None \<Rightarrow> []))) @
          (case ss_max_duration (al_session a) of
             Some dur \<Rightarrow> nl @ ''Max duration: '' @ humanize_report dur
           | None \<Rightarrow> [])
      | Deny x \<Rightarrow>
          ''DENY'' @ nl @ nl @
          (case dn_policy x of Some p \<Rightarrow> ''Policy: '' @ p @ nl | None \<Rightarrow> []) @
          nl @ ''Reason:'' @ nl @ reason_summary (dn_reason x) @ nl @
          (if dn_closest x \<noteq> [] then
             nl @ ''Closest rules:'' @ nl @ concat (map (\<lambda>r. ''  '' @ r @ nl) (dn_closest x))
           else []) @
          nl @ ''Suggested rule:'' @ nl @ nl @ ''  '' @ dn_suggested_rule x)"

record test_outcome =
  to_test :: policy_test
  to_actual :: "action option"
  to_passed :: bool
  to_detail :: "string option"

definition representative_identity :: "policy \<Rightarrow> workload_identity" where
  "representative_identity p =
     (let m = p_match_spec p;
          git_ref = (case ms_git_ref m of
              Some r \<Rightarrow> Some r
            | None \<Rightarrow> map_option (\<lambda>b. ''refs/heads/'' @ b) (ms_branch m))
      in identity_default\<lparr>wi_organization := ms_organization m, wi_repository := ms_repository m,
           wi_workflow := ms_workflow m, wi_git_ref := git_ref, wi_environment := ms_environment m,
           wi_actor := ms_actor m, wi_kind := ms_kind m\<rparr>)"

definition run_one_test ::
  "(parse_destination_error \<Rightarrow> string) \<Rightarrow> policy \<Rightarrow> policy_test \<Rightarrow> workload_identity \<Rightarrow> test_outcome" where
  "run_one_test show_error p t workload =
     (case destination_parse (pt_destination t) of
        Inl e \<Rightarrow> \<lparr>to_test = t, to_actual = None, to_passed = False,
          to_detail = Some (''the test destination is invalid: '' @ show_error e)\<rparr>
      | Inr d \<Rightarrow>
          (let ctx = \<lparr>rc_workload = workload, rc_application = pt_application t,
                 rc_transport = test_transport t, rc_destination = d, rc_requested_policy = None\<rparr>;
               actual = decision_action (policy_evaluate p ctx);
               passed = (actual = pt_expect t)
           in \<lparr>to_test = t, to_actual = Some actual, to_passed = passed,
               to_detail = (if passed then None
                 else Some (''expected '' @ action_as_str (pt_expect t) @ '', got '' @ action_as_str actual))\<rparr>))"

definition run_tests :: "(parse_destination_error \<Rightarrow> string) \<Rightarrow> policy \<Rightarrow> test_outcome list" where
  "run_tests show_error p =
     (let workload = representative_identity p
      in map (\<lambda>t. run_one_test show_error p t workload) (p_tests p))"

subsection \<open>Rendering\<close>

fun replace_char :: "char \<Rightarrow> string \<Rightarrow> string \<Rightarrow> string" where
  "replace_char c by [] = []"
| "replace_char c by (d # s) = (if d = c then by @ replace_char c by s else d # replace_char c by s)"

definition backslash :: char where
  "backslash = char_of (92 :: nat)"

definition dquote :: char where
  "dquote = char_of (34 :: nat)"

definition toml_quote :: "string \<Rightarrow> string" where
  "toml_quote v =
     [dquote] @ replace_char dquote [backslash, dquote] (replace_char backslash [backslash, backslash] v) @ [dquote]"

definition per_suffix :: "duration \<Rightarrow> string" where
  "per_suffix w =
     (let secs = w div 1000000000 in
      if secs = 3600 then ''h'' else if secs = 60 then ''m'' else ''s'')"

definition line_if :: "('a \<Rightarrow> string) \<Rightarrow> 'a option \<Rightarrow> string" where
  "line_if f x = (case x of None \<Rightarrow> [] | Some v \<Rightarrow> f v @ nl)"

definition render_match :: "match_spec \<Rightarrow> string" where
  "render_match m =
     (if specificity m > 0 then
        nl @ ''[match]'' @ nl @
        concat (map (\<lambda>(key, v). line_if (\<lambda>x. key @ '' = '' @ toml_quote x) v)
          [(''organization'', ms_organization m), (''repository'', ms_repository m),
           (''workflow'', ms_workflow m), (''ref'', ms_git_ref m), (''branch'', ms_branch m),
           (''environment'', ms_environment m), (''actor'', ms_actor m)]) @
        line_if (\<lambda>k. ''kind = '' @ toml_quote (kind_as_str k)) (ms_kind m)
      else [])"

definition render_limits :: "limits \<Rightarrow> string" where
  "render_limits l =
     (if l \<noteq> limits_default then
        nl @ ''[limits]'' @ nl @
        line_if (\<lambda>b. ''bandwidth = '' @ toml_quote (humanize_decimal b ''bps'')) (lim_bandwidth_bits_per_sec l) @
        line_if (\<lambda>b. ''bytes = '' @ toml_quote (humanize_decimal b ''B'')) (lim_total_bytes l) @
        line_if (\<lambda>n. ''connections = '' @ nat_to_string (unat n)) (lim_concurrent_connections l) @
        line_if (\<lambda>n. ''concurrent_destinations = '' @ nat_to_string (unat n)) (lim_concurrent_destinations l) @
        line_if (\<lambda>r. ''connection_rate = '' @
          toml_quote (nat_to_string (unat (rate_count r)) @ ''/'' @ per_suffix (rate_per r))) (lim_connection_rate l) @
        line_if (\<lambda>n. ''packets_per_second = '' @ nat_to_string (unat n)) (lim_packets_per_sec l)
      else [])"

definition render_rule :: "rule \<Rightarrow> string" where
  "render_rule r =
     nl @ ''[[rules]]'' @ nl @
     line_if (\<lambda>i. ''id = '' @ toml_quote i) (r_id r) @
     ''application = '' @ toml_quote (case r_application r of App_Any \<Rightarrow> ''*'' | App_Name n \<Rightarrow> n) @ nl @
     line_if (\<lambda>w. ''transport = '' @ toml_quote w) (transport_as_word (r_transport r)) @
     ''action = '' @ toml_quote (action_as_str (r_action r)) @ nl @
     ''destinations = ['' @ nl @
     concat (map (\<lambda>d. ''    '' @ toml_quote (ds_raw d) @ '','' @ nl) (r_destinations r)) @
     '']'' @ nl"

definition render_test :: "policy_test \<Rightarrow> string" where
  "render_test t =
     nl @ ''[[tests]]'' @ nl @
     ''application = '' @ toml_quote (pt_application t) @ nl @
     line_if (\<lambda>x. ''transport = '' @ toml_quote (transport_as_str x)) (pt_transport t) @
     ''destination = '' @ toml_quote (pt_destination t) @ nl @
     ''expect = '' @ toml_quote (action_as_str (pt_expect t)) @ nl"

definition to_toml :: "policy \<Rightarrow> string" where
  "to_toml p =
     ''name = '' @ toml_quote (p_name p) @ nl @
     (if p_baseline p then ''baseline = true'' @ nl else []) @
     render_match (p_match_spec p) @
     (case ss_max_duration (p_session p) of
        Some d \<Rightarrow> nl @ ''[session]'' @ nl @ ''max_duration = '' @ toml_quote (humanize_duration d) @ nl
      | None \<Rightarrow> []) @
     (case p_egress p of
        Some e \<Rightarrow> nl @ ''[egress]'' @ nl @
          line_if (\<lambda>x. ''region = '' @ toml_quote x) (eg_region e) @
          line_if (\<lambda>x. ''ip_pool = '' @ toml_quote x) (eg_ip_pool e)
      | None \<Rightarrow> []) @
     render_limits (p_limits p) @
     concat (map render_rule (p_rules p)) @
     concat (map render_test (p_tests p))"

subsection \<open>Facts\<close>

lemma representative_matches:
  assumes "ms_git_ref (p_match_spec p) = None \<or> ms_branch (p_match_spec p) = None \<or>
    ms_git_ref (p_match_spec p) = map_option (\<lambda>b. ''refs/heads/'' @ b) (ms_branch (p_match_spec p))"
  shows "match_matches (p_match_spec p) (representative_identity p)"
proof -
  let ?m = "p_match_spec p" and ?i = "representative_identity p"
  have refl: "constrained x (\<lambda>w. ci_eq w x)" for x :: "string option"
    by (cases x) (simp_all add: ci_eq_def)
  have rf: "wi_git_ref ?i = (case ms_git_ref ?m of Some r \<Rightarrow> Some r
      | None \<Rightarrow> map_option (\<lambda>b. ''refs/heads/'' @ b) (ms_branch ?m))"
    by (simp add: representative_identity_def Let_def)
  have "constrained (ms_git_ref ?m) (\<lambda>r. wi_git_ref ?i = Some r)"
    by (simp add: rf constrained_def split: option.split)
  moreover have "constrained (ms_branch ?m) (\<lambda>b. branch ?i = Some b)"
    using assms strip_prefix_append [of "''refs/heads/''"]
    by (auto simp: branch_def rf constrained_def split: option.split)
  ultimately show ?thesis
    using refl [of "ms_organization ?m"] refl [of "ms_repository ?m"]
    by (simp add: match_matches_iff)
       (auto simp: representative_identity_def Let_def constrained_def split: option.split)
qed

lemma policy_lints_Nil:
  assumes "policy_lints p = []" "list_ex (\<lambda>r. r_action r = Action_Allow) (p_rules p)"
  shows "ms_repository (p_match_spec p) \<noteq> None"
    and "ms_branch (p_match_spec p) \<noteq> None \<or> ms_git_ref (p_match_spec p) \<noteq> None"
  using assms by (auto simp: policy_lints_def Let_def split: if_splits)

subsection \<open>Properties\<close>

text \<open>
  Policy tests judge the rules: an outcome is reported as passed exactly when the test's
  destination parses and the policy's decision, for the policy's own representative identity and the
  test's application and transport, is the expected one; a failed outcome always carries an
  explanation and a passed one none.
\<close>

theorem run_tests_sound:
  "list_all2 (\<lambda>t out. to_test out = t \<and>
      (to_passed out \<longleftrightarrow> (\<exists>d. destination_parse (pt_destination t) = Inr d \<and>
         decision_action (policy_evaluate p \<lparr>rc_workload = representative_identity p,
           rc_application = pt_application t, rc_transport = test_transport t, rc_destination = d,
           rc_requested_policy = None\<rparr>) = pt_expect t)) \<and>
      (to_passed out \<longleftrightarrow> to_detail out = None))
    (p_tests p) (run_tests show_error p)"
  by (auto simp: run_tests_def Let_def list_all2_map2 run_one_test_def list_all2_same
      split: sum.splits intro!: list_all2_refl)

text \<open>
  The identity that policy tests run under satisfies the policy's own match, provided a match
  that names both a ref and a branch names the same one.
\<close>

theorem representative_identity_is_governed:
  assumes "ms_git_ref (p_match_spec p) = None \<or> ms_branch (p_match_spec p) = None \<or>
    ms_git_ref (p_match_spec p) = map_option (\<lambda>b. ''refs/heads/'' @ b) (ms_branch (p_match_spec p))"
  shows "match_matches (p_match_spec p) (representative_identity p)"
  using assms by (rule representative_matches)

theorem representative_identity_is_governed_witness:
  "match_matches (p_match_spec (sample_policy ''p'' False Action_Allow HP_Any))
     (representative_identity (sample_policy ''p'' False Action_Allow HP_Any))"
  by (rule representative_identity_is_governed) (simp add: sample_policy_def match_default_def)

text \<open>
  A policy with an allow rule and no lint governs only workloads whose identity carries both a
  repository and a git ref: no credential without them can be granted its rules.
\<close>

theorem lint_free_policy_pins_repository_and_ref:
  assumes "policy_lints p = []" "list_ex (\<lambda>r. r_action r = Action_Allow) (p_rules p)"
    and "match_matches (p_match_spec p) i"
  shows "wi_repository i \<noteq> None \<and> wi_git_ref i \<noteq> None"
  using policy_lints_Nil [OF assms(1,2)] assms(3)
  by (auto simp: match_matches_iff constrained_def ci_eq_def repository_name_def branch_def
      split: option.splits)

definition pinned_policy :: policy where
  "pinned_policy = (sample_policy ''p'' False Action_Allow HP_Any)\<lparr>p_match_spec :=
     match_default\<lparr>ms_repository := Some ''acme/widget'', ms_branch := Some ''main''\<rparr>\<rparr>"

theorem lint_free_policy_pins_repository_and_ref_witness:
  "wi_repository (representative_identity pinned_policy) \<noteq> None \<and>
   wi_git_ref (representative_identity pinned_policy) \<noteq> None"
proof (rule lint_free_policy_pins_repository_and_ref [where p = pinned_policy])
  show "policy_lints pinned_policy = []"
    by (simp add: policy_lints_def pinned_policy_def sample_policy_def match_default_def specificity_def)
  show "list_ex (\<lambda>r. r_action r = Action_Allow) (p_rules pinned_policy)"
    by (simp add: pinned_policy_def sample_policy_def)
  show "match_matches (p_match_spec pinned_policy) (representative_identity pinned_policy)"
    by (rule representative_matches) (simp add: pinned_policy_def match_default_def)
qed

text \<open>
  The rendered TOML does not contain the descriptions of the tests: two policies that differ only
  there render to the same document, so rendering and parsing loses them.
\<close>

theorem to_toml_drops_test_descriptions:
  "to_toml (p\<lparr>p_tests := map (\<lambda>t. t\<lparr>pt_description := x\<rparr>) (p_tests p)\<rparr>) = to_toml p"
proof -
  have same: "map (render_test \<circ> pt_description_update (\<lambda>_. x)) ts = map render_test ts" for ts
    by (rule map_cong) (simp_all add: render_test_def)
  show ?thesis by (simp add: to_toml_def same)
qed

end
