(* ===== verification/Policy_Learn.thy ===== *)
theory Policy_Learn
  imports Policy_Parse
begin

text \<open>
  Learning mode, \<^verbatim>\<open>src/crates/skimasque-policy/src/learn.rs\<close>: observed traffic becomes a
  draft policy. A \<^verbatim>\<open>BTreeMap\<close> is an association list kept in key order, a
  \<^verbatim>\<open>BTreeSet\<close> an ordered list without duplicates; strings are ordered by their bytes.
  A skipped observation keeps the parse error itself. \<open>None\<close> is the panic of \<^verbatim>\<open>expect\<close>.
\<close>

record observation =
  ob_application :: string
  ob_transport :: "transport option"
  ob_destination :: string
  ob_count :: u64

record suggestion =
  sg_policy :: policy
  sg_skipped :: "(observation \<times> parse_destination_error) list"

definition str_key :: "string \<Rightarrow> nat list" where
  "str_key s = map char_code s"

definition pattern_rank :: "transport_pattern \<Rightarrow> nat" where
  "pattern_rank p = (case p of TP_Any \<Rightarrow> 0 | TP_Tcp \<Rightarrow> 1 | TP_Udp \<Rightarrow> 2)"

type_synonym learn_key = "string \<times> transport_pattern"

definition key_rank :: "learn_key \<Rightarrow> nat list \<times> nat" where
  "key_rank k = (str_key (fst k), pattern_rank (snd k))"

fun btree_set_insert :: "string \<Rightarrow> string list \<Rightarrow> string list" where
  "btree_set_insert x [] = [x]"
| "btree_set_insert x (y # ys) =
     (if str_key x < str_key y then x # y # ys
      else if x = y then y # ys
      else y # btree_set_insert x ys)"

fun btree_map_add :: "learn_key \<Rightarrow> string \<Rightarrow> (learn_key \<times> string list) list \<Rightarrow> (learn_key \<times> string list) list" where
  "btree_map_add k x [] = [(k, btree_set_insert x [])]"
| "btree_map_add k x ((j, s) # m) =
     (if key_rank k < key_rank j then (k, btree_set_insert x []) # (j, s) # m
      else if k = j then (j, btree_set_insert x s) # m
      else (j, s) # btree_map_add k x m)"

definition observe ::
  "observation \<Rightarrow> (learn_key \<times> string list) list \<times> (observation \<times> parse_destination_error) list \<Rightarrow>
   (learn_key \<times> string list) list \<times> (observation \<times> parse_destination_error) list" where
  "observe ob st =
     (case st of (by_key, skipped) \<Rightarrow>
        case destination_parse (ob_destination ob) of
          Inr d \<Rightarrow> (btree_map_add (ob_application ob, pattern_of_transport (ob_transport ob))
                     (destination_display d) by_key, skipped)
        | Inl e \<Rightarrow> (by_key, skipped @ [(ob, e)]))"

definition learned_rule :: "learn_key \<times> string list \<Rightarrow> rule option" where
  "learned_rule entry =
     (case entry of ((application, tp), dests) \<Rightarrow>
        let pat = (if application = [] \<or> application = ''*'' then App_Any else App_Name application);
            app_id = (if application = [] then ''any'' else application);
            ident = (case transport_as_word tp of
               Some word \<Rightarrow> app_id @ ''-'' @ word @ ''-observed''
             | None \<Rightarrow> app_id @ ''-observed'')
        in map_option (\<lambda>specs. \<lparr>r_id = Some ident, r_application = pat, r_transport = tp,
             r_action = Action_Allow, r_destinations = specs\<rparr>)
             (result_ok (try_map spec_parse dests)))"

definition match_from_identity :: "workload_identity \<Rightarrow> match_spec" where
  "match_from_identity i =
     (let (br, gr) = (case branch i of Some b \<Rightarrow> (Some b, None) | None \<Rightarrow> (None, wi_git_ref i))
      in \<lparr>ms_organization = wi_organization i, ms_repository = wi_repository i,
          ms_workflow = wi_workflow i, ms_git_ref = gr, ms_branch = br,
          ms_environment = wi_environment i, ms_actor = wi_actor i, ms_kind = wi_kind i\<rparr>)"

definition suggest_policy :: "string \<Rightarrow> workload_identity \<Rightarrow> observation list \<Rightarrow> suggestion option" where
  "suggest_policy name i observations =
     (case fold observe observations ([], []) of (by_key, skipped) \<Rightarrow>
        case result_ok (try_map (\<lambda>e. ok_or () (learned_rule e)) by_key) of
          None \<Rightarrow> None
        | Some rules \<Rightarrow> Some \<lparr>sg_policy = \<lparr>p_name = name, p_match_spec = match_from_identity i,
              p_session = \<lparr>ss_max_duration = None\<rparr>, p_egress = None, p_limits = limits_default,
              p_rules = rules, p_tests = [], p_baseline = False\<rparr>,
            sg_skipped = skipped\<rparr>)"

subsection \<open>The map of observations\<close>

lemma btree_set_insert_set: "set (btree_set_insert x xs) = insert x (set xs)"
  by (induction x xs rule: btree_set_insert.induct) auto

text \<open>The pairs of a key and a destination text in the map.\<close>

definition entries :: "(learn_key \<times> string list) list \<Rightarrow> (learn_key \<times> string) set" where
  "entries m = {(k, x). \<exists>xs. (k, xs) \<in> set m \<and> x \<in> set xs}"

lemma entries_simps [simp]:
  "entries [] = {}"
  "entries ((k, xs) # m) = {k} \<times> set xs \<union> entries m"
  by (auto simp: entries_def)

lemma btree_map_add_entries: "entries (btree_map_add k x m) = insert (k, x) (entries m)"
  by (induction k x m rule: btree_map_add.induct) (auto simp: btree_set_insert_set)

definition observed :: "observation list \<Rightarrow> (learn_key \<times> destination) set" where
  "observed obs = {((ob_application ob, pattern_of_transport (ob_transport ob)), d) | ob d.
     ob \<in> set obs \<and> destination_parse (ob_destination ob) = Inr d}"

lemma fold_observe_entries:
  "entries (fst (fold observe obs st)) =
     entries (fst st) \<union> (\<lambda>(k, d). (k, destination_display d)) ` observed obs"
proof (induction obs arbitrary: st)
  case Nil
  show ?case by (simp add: observed_def)
next
  case (Cons ob obs)
  have "observed (ob # obs) = (case destination_parse (ob_destination ob) of
      Inr d \<Rightarrow> insert ((ob_application ob, pattern_of_transport (ob_transport ob)), d) (observed obs)
    | Inl _ \<Rightarrow> observed obs)"
    by (auto simp: observed_def split: sum.splits)
  moreover have "entries (fst (observe ob st)) = (case destination_parse (ob_destination ob) of
      Inr d \<Rightarrow> insert ((ob_application ob, pattern_of_transport (ob_transport ob)), destination_display d) (entries (fst st))
    | Inl _ \<Rightarrow> entries (fst st))"
    by (auto simp: observe_def btree_map_add_entries split: sum.splits prod.splits)
  ultimately show ?case
    by (auto simp: Cons.IH split: sum.splits)
qed

subsection \<open>Learned rules\<close>

definition key_covers :: "learn_key \<Rightarrow> request_context \<Rightarrow> bool" where
  "key_covers k ctx \<longleftrightarrow>
     (fst k = [] \<or> fst k = ''*'' \<or> eq_ignore_ascii_case (fst k) (rc_application ctx)) \<and>
     transport_matches (snd k) (rc_transport ctx)"

definition printed :: "string \<Rightarrow> destination \<Rightarrow> bool" where
  "printed x d \<longleftrightarrow> x = destination_display d \<and> (\<exists>s. destination_parse s = Inr d)"

lemma printed_parse: "printed x d \<Longrightarrow> destination_parse x = Inr d"
  by (auto simp: printed_def intro: destination_parse_display_parse)

lemma printed_unique: "printed x d \<Longrightarrow> printed x e \<Longrightarrow> d = e"
  using printed_parse [of x d] printed_parse [of x e] by simp

lemma printed_specs:
  "\<forall>x \<in> set xs. \<exists>d. printed x d \<Longrightarrow>
    \<exists>specs. try_map spec_parse xs = Inr specs \<and>
      (\<forall>e. list_ex (\<lambda>s. spec_matches s e) specs \<longleftrightarrow> (\<exists>x \<in> set xs. printed x e))"
proof (induction xs)
  case Nil
  show ?case by simp
next
  case (Cons x xs)
  then obtain specs where specs: "try_map spec_parse xs = Inr specs"
      "\<forall>e. list_ex (\<lambda>s. spec_matches s e) specs \<longleftrightarrow> (\<exists>x \<in> set xs. printed x e)"
    by auto
  obtain d where d: "printed x d" using Cons.prems by auto
  then have "spec_parse x = Inr (exact_spec d)"
    by (auto simp: printed_def intro: spec_parse_display)
  moreover have "spec_matches (exact_spec d) e \<longleftrightarrow> printed x e" for e
    using d printed_unique by (auto simp: exact_spec_matches)
  ultimately show ?case using specs by auto
qed

lemma learned_rule_applies:
  assumes "\<forall>x \<in> set xs. \<exists>d. printed x d"
  obtains r where "learned_rule (k, xs) = Some r" "r_action r = Action_Allow"
    "\<And>ctx. rule_applies r ctx \<longleftrightarrow> key_covers k ctx \<and> (\<exists>x \<in> set xs. printed x (rc_destination ctx))"
proof -
  obtain app tp where k: "k = (app, tp)" by force
  obtain specs where specs: "try_map spec_parse xs = Inr specs"
      "\<forall>e. list_ex (\<lambda>s. spec_matches s e) specs \<longleftrightarrow> (\<exists>x \<in> set xs. printed x e)"
    using printed_specs [OF assms] by blast
  show ?thesis
    by (rule that) (use specs in \<open>auto simp: learned_rule_def k Let_def rule_applies_def rule_covers_def
        app_matches_def key_covers_def split: if_splits\<close>)
qed

lemma learned_rules:
  assumes "\<And>k x. (k, x) \<in> entries m \<Longrightarrow> \<exists>d. printed x d"
  shows "\<exists>rules. try_map (\<lambda>e. ok_or () (learned_rule e)) m = Inr rules \<and>
    (\<forall>r \<in> set rules. r_action r = Action_Allow) \<and>
    (\<forall>ctx. (\<exists>r \<in> set rules. rule_applies r ctx) \<longleftrightarrow>
       (\<exists>k x. (k, x) \<in> entries m \<and> key_covers k ctx \<and> printed x (rc_destination ctx)))"
  using assms
proof (induction m)
  case Nil
  show ?case by simp
next
  case (Cons e m)
  obtain k xs where e: "e = (k, xs)" by (cases e)
  have "\<exists>d. printed x d" if "(k, x) \<in> entries m" for k x using Cons.prems [of k x] that by (simp add: e)
  with Cons.IH obtain rules where rules: "try_map (\<lambda>e. ok_or () (learned_rule e)) m = Inr rules"
      "\<forall>r \<in> set rules. r_action r = Action_Allow"
      "\<And>ctx. (\<exists>r \<in> set rules. rule_applies r ctx) \<longleftrightarrow>
         (\<exists>k x. (k, x) \<in> entries m \<and> key_covers k ctx \<and> printed x (rc_destination ctx))"
    by blast
  have "\<forall>x \<in> set xs. \<exists>d. printed x d" using Cons.prems [of k] by (simp add: e)
  then obtain r where r: "learned_rule (k, xs) = Some r" "r_action r = Action_Allow"
    "\<And>ctx. rule_applies r ctx \<longleftrightarrow> key_covers k ctx \<and> (\<exists>x \<in> set xs. printed x (rc_destination ctx))"
    by (rule learned_rule_applies) blast
  have "try_map (\<lambda>e. ok_or () (learned_rule e)) (e # m) = Inr (r # rules)"
    using r(1) rules(1) by (simp add: e)
  moreover have "(\<exists>q \<in> set (r # rules). rule_applies q ctx) \<longleftrightarrow>
      (\<exists>k x. (k, x) \<in> entries (e # m) \<and> key_covers k ctx \<and> printed x (rc_destination ctx))" for ctx
  proof -
    have "(\<exists>q \<in> set (r # rules). rule_applies q ctx) \<longleftrightarrow>
        rule_applies r ctx \<or> (\<exists>q \<in> set rules. rule_applies q ctx)" by simp
    moreover have mem: "(j, x) \<in> entries (e # m) \<longleftrightarrow> (j = k \<and> x \<in> set xs) \<or> (j, x) \<in> entries m" for j x
      by (simp add: e)
    have "(\<exists>j x. (j, x) \<in> entries (e # m) \<and> key_covers j ctx \<and> printed x (rc_destination ctx)) \<longleftrightarrow>
        (key_covers k ctx \<and> (\<exists>x \<in> set xs. printed x (rc_destination ctx))) \<or>
        (\<exists>j x. (j, x) \<in> entries m \<and> key_covers j ctx \<and> printed x (rc_destination ctx))"
      unfolding mem by metis
    ultimately show ?thesis by (simp only: r(3) rules(3))
  qed
  ultimately show ?case using r(2) rules(2) by (intro exI [of _ "r # rules"]) auto
qed

lemma allow_rules_decide:
  assumes "\<forall>r \<in> set (p_rules p). r_action r = Action_Allow"
  shows "is_allow (policy_evaluate p ctx) \<longleftrightarrow> (\<exists>r \<in> set (p_rules p). rule_applies r ctx)"
  unfolding policy_evaluate_allow_iff using assms
  by (metis (no_types, lifting) find_first_None_iff find_first_SomeD not_None_eq)

lemma match_from_identity_matches: "match_matches (match_from_identity i) i"
  by (auto simp: match_matches_iff match_from_identity_def constrained_def ci_eq_def
      split: option.splits)

subsection \<open>Properties\<close>

text \<open>
  Learning allows exactly what was observed: for any observations the draft is produced (the
  conversion of an observed destination into a pattern never fails), it governs the identity that
  was observed, and it allows a request exactly when some observation with a parseable destination
  names that destination, an application that covers the request's, and its transport or none.
\<close>

theorem learned_policy_allows_exactly_observed:
  "\<exists>sg. suggest_policy name i obs = Some sg \<and>
     match_matches (p_match_spec (sg_policy sg)) i \<and>
     (is_allow (policy_evaluate (sg_policy sg) ctx) \<longleftrightarrow>
        (\<exists>k. (k, rc_destination ctx) \<in> observed obs \<and> key_covers k ctx))"
proof -
  obtain m skipped where fold: "fold observe obs ([], []) = (m, skipped)" by force
  have ent: "entries m = (\<lambda>(k, d). (k, destination_display d)) ` observed obs"
    using fold_observe_entries [of obs "([], [])"] fold by simp
  have pr: "printed (destination_display d) d" if "(k, d) \<in> observed obs" for k d
    using that by (auto simp: printed_def observed_def)
  then have "\<exists>d. printed x d" if "(k, x) \<in> entries m" for k x using that unfolding ent by auto
  then obtain rules where
    rules: "try_map (\<lambda>e. ok_or () (learned_rule e)) m = Inr rules"
      "\<forall>r \<in> set rules. r_action r = Action_Allow"
      "(\<exists>r \<in> set rules. rule_applies r ctx) \<longleftrightarrow>
         (\<exists>k x. (k, x) \<in> entries m \<and> key_covers k ctx \<and> printed x (rc_destination ctx))"
    using learned_rules [of m] by blast
  let ?p = "\<lparr>p_name = name, p_match_spec = match_from_identity i,
              p_session = \<lparr>ss_max_duration = None\<rparr>, p_egress = None, p_limits = limits_default,
              p_rules = rules, p_tests = [], p_baseline = False\<rparr>"
  have "suggest_policy name i obs = Some \<lparr>sg_policy = ?p, sg_skipped = skipped\<rparr>"
    using fold rules(1) by (simp add: suggest_policy_def)
  moreover have "is_allow (policy_evaluate ?p ctx) \<longleftrightarrow>
      (\<exists>k. (k, rc_destination ctx) \<in> observed obs \<and> key_covers k ctx)"
  proof -
    have "is_allow (policy_evaluate ?p ctx) \<longleftrightarrow>
        (\<exists>k x. (k, x) \<in> entries m \<and> key_covers k ctx \<and> printed x (rc_destination ctx))"
      using allow_rules_decide [of ?p ctx] rules by simp
    also have "\<dots> \<longleftrightarrow> (\<exists>k. (k, rc_destination ctx) \<in> observed obs \<and> key_covers k ctx)"
    proof
      assume "\<exists>k x. (k, x) \<in> entries m \<and> key_covers k ctx \<and> printed x (rc_destination ctx)"
      then obtain k d where kd: "(k, d) \<in> observed obs" "key_covers k ctx"
          "printed (destination_display d) (rc_destination ctx)"
        unfolding ent by auto
      then have "rc_destination ctx = d" using pr printed_unique by blast
      then show "\<exists>k. (k, rc_destination ctx) \<in> observed obs \<and> key_covers k ctx"
        using kd(1,2) by blast
    next
      assume "\<exists>k. (k, rc_destination ctx) \<in> observed obs \<and> key_covers k ctx"
      then show "\<exists>k x. (k, x) \<in> entries m \<and> key_covers k ctx \<and> printed x (rc_destination ctx)"
        unfolding ent by (force intro: pr)
    qed
    finally show ?thesis .
  qed
  ultimately show ?thesis using match_from_identity_matches by simp
qed

end
