(* ===== verification/Tenant.thy ===== *)
theory Tenant
  imports Policy_Eval
begin

text \<open>
  The tenants of a shared gateway (\<^verbatim>\<open>skimasque/src/tenant.rs\<close>) and their usage counters
  (\<^verbatim>\<open>TunnelMeter\<close> of \<^verbatim>\<open>service.rs\<close>, \<^verbatim>\<open>UsageSnapshot\<close> of \<^verbatim>\<open>metrics.rs\<close>).
  Unicode lowercasing is an argument, \<open>lower\<close>; hash maps are partial functions where only lookups
  matter and lists of distinct keys where they are enumerated.
\<close>

subsection \<open>Tenants\<close>

record tenant_spec =
  ts_org_id :: string
  ts_slug :: string
  ts_owners :: "string list"
  ts_owner_ids :: "(string \<times> u64) list"
  ts_policy :: policy_set

record tenant =
  tn_id :: string
  tn_slug :: string
  tn_owners :: "string list"
  tn_owner_ids :: "string \<rightharpoonup> u64"
  tn_policy :: policy_set

text \<open>
  Collecting into a map keeps the last of several entries with one key; \<open>ts_owner_ids\<close> is listed in
  the order the ordered map of the specification yields.
\<close>

definition tenant_new :: "(string \<Rightarrow> string) \<Rightarrow> tenant_spec \<Rightarrow> tenant" where
  "tenant_new lower spec =
     \<lparr>tn_id = ts_org_id spec, tn_slug = ts_slug spec, tn_owners = map lower (ts_owners spec),
      tn_owner_ids = map_of (rev (map (\<lambda>(login, i). (lower login, i)) (ts_owner_ids spec))),
      tn_policy = ts_policy spec\<rparr>"

definition tenant_owns :: "(string \<Rightarrow> string) \<Rightarrow> tenant \<Rightarrow> string \<Rightarrow> u64 option \<Rightarrow> bool" where
  "tenant_owns lower t owner owner_id =
     (let login = lower owner
      in if login \<notin> set (tn_owners t) then False
         else (case tn_owner_ids t login of
                 Some recorded \<Rightarrow> owner_id = Some recorded
               | None \<Rightarrow> True))"

record tenant_snapshot =
  sn_version :: u64
  sn_by_org :: "string \<rightharpoonup> tenant"
  sn_by_slug :: "string \<rightharpoonup> tenant"

definition snapshot_default :: tenant_snapshot where
  "snapshot_default = \<lparr>sn_version = 0, sn_by_org = Map.empty, sn_by_slug = Map.empty\<rparr>"

definition resolve_org :: "tenant_snapshot \<Rightarrow> string \<Rightarrow> tenant option" where
  "resolve_org s org_id = sn_by_org s org_id"

definition resolve_slug :: "tenant_snapshot \<Rightarrow> string \<Rightarrow> tenant option" where
  "resolve_slug s slug = sn_by_slug s slug"

text \<open>The loop of \<^verbatim>\<open>TenantTable::store\<close>.\<close>

fun store_loop ::
  "(string \<Rightarrow> string) \<Rightarrow> tenant_spec list \<Rightarrow> (string \<rightharpoonup> tenant) \<times> (string \<rightharpoonup> tenant) \<Rightarrow>
     (string \<rightharpoonup> tenant) \<times> (string \<rightharpoonup> tenant)" where
  "store_loop lower [] tables = tables"
| "store_loop lower (spec # specs) (by_org, by_slug) =
     (if by_org (ts_org_id spec) \<noteq> None then store_loop lower specs (by_org, by_slug)
      else if by_slug (ts_slug spec) \<noteq> None then store_loop lower specs (by_org, by_slug)
      else
        (let t = tenant_new lower spec
         in store_loop lower specs (by_org(tn_id t \<mapsto> t), by_slug(tn_slug t \<mapsto> t))))"

definition table_store :: "(string \<Rightarrow> string) \<Rightarrow> u64 \<Rightarrow> tenant_spec list \<Rightarrow> tenant_snapshot" where
  "table_store lower version tenants =
     (case store_loop lower tenants (Map.empty, Map.empty) of
        (by_org, by_slug) \<Rightarrow> \<lparr>sn_version = version, sn_by_org = by_org, sn_by_slug = by_slug\<rparr>)"

subsection \<open>Usage\<close>

text \<open>The counters are atomic 64-bit integers; \<^verbatim>\<open>fetch_add\<close> wraps.\<close>

record tunnel_meter =
  um_tunnels_opened :: u64
  um_bytes_to_target :: u64
  um_bytes_to_client :: u64

type_synonym usage_snapshot = tunnel_meter

definition meter_default :: tunnel_meter where
  "meter_default = \<lparr>um_tunnels_opened = 0, um_bytes_to_target = 0, um_bytes_to_client = 0\<rparr>"

definition tunnel_opened :: "tunnel_meter \<Rightarrow> tunnel_meter" where
  "tunnel_opened m = m\<lparr>um_tunnels_opened := um_tunnels_opened m + 1\<rparr>"

definition add_to_target :: "u64 \<Rightarrow> tunnel_meter \<Rightarrow> tunnel_meter" where
  "add_to_target n m = m\<lparr>um_bytes_to_target := um_bytes_to_target m + n\<rparr>"

definition add_to_client :: "u64 \<Rightarrow> tunnel_meter \<Rightarrow> tunnel_meter" where
  "add_to_client n m = m\<lparr>um_bytes_to_client := um_bytes_to_client m + n\<rparr>"

definition meter_snapshot :: "tunnel_meter \<Rightarrow> usage_snapshot" where
  "meter_snapshot m =
     \<lparr>um_tunnels_opened = um_tunnels_opened m, um_bytes_to_target = um_bytes_to_target m,
      um_bytes_to_client = um_bytes_to_client m\<rparr>"

text \<open>A shared meter is named by the key of its entry in the table.\<close>

type_synonym tenant_usage = "(string \<times> tunnel_meter) list"

definition meter_for :: "string \<Rightarrow> tenant_usage \<Rightarrow> string \<times> tenant_usage" where
  "meter_for org u = (org, if org \<in> fst ` set u then u else u @ [(org, meter_default)])"

definition meter_update :: "string \<Rightarrow> (tunnel_meter \<Rightarrow> tunnel_meter) \<Rightarrow> tenant_usage \<Rightarrow> tenant_usage" where
  "meter_update org f u = map (\<lambda>(k, m). (k, if k = org then f m else m)) u"

definition usage_report :: "tenant_usage \<Rightarrow> (string \<times> usage_snapshot) list" where
  "usage_report u = sort_key (\<lambda>(k, _). map char_code k) (map (\<lambda>(k, m). (k, meter_snapshot m)) u)"

subsection \<open>The stored table\<close>

text \<open>The specifications that survive: first of an organisation and first of a slug.\<close>

definition table_wf :: "(string \<rightharpoonup> tenant) \<times> (string \<rightharpoonup> tenant) \<Rightarrow> bool" where
  "table_wf ts \<longleftrightarrow>
     (\<forall>k t. fst ts k = Some t \<longrightarrow> tn_id t = k \<and> snd ts (tn_slug t) = Some t) \<and>
     (\<forall>k t. snd ts k = Some t \<longrightarrow> tn_slug t = k \<and> fst ts (tn_id t) = Some t)"

lemma tenant_new_simps [simp]:
  "tn_id (tenant_new lower s) = ts_org_id s" "tn_slug (tenant_new lower s) = ts_slug s"
  "tn_policy (tenant_new lower s) = ts_policy s" "tn_owners (tenant_new lower s) = map lower (ts_owners s)"
  by (simp_all add: tenant_new_def)

lemma table_wf_insert:
  assumes "table_wf (org, slug)" "org (tn_id t) = None" "slug (tn_slug t) = None"
  shows "table_wf (org(tn_id t \<mapsto> t), slug(tn_slug t \<mapsto> t))"
  using assms unfolding table_wf_def by (auto split: if_splits) (metis option.distinct(1))+

lemma store_loop_wf: "table_wf ts \<Longrightarrow> table_wf (store_loop lower specs ts)"
proof (induction lower specs ts rule: store_loop.induct)
  case (2 lower spec specs org slug)
  then show ?case
    using table_wf_insert [of org slug "tenant_new lower spec"] by (simp add: Let_def)
qed simp

lemma store_loop_keeps:
  "fst ts k = Some t \<Longrightarrow> fst (store_loop lower specs ts) k = Some t"
  "snd ts k = Some t \<Longrightarrow> snd (store_loop lower specs ts) k = Some t"
proof (induction lower specs ts rule: store_loop.induct)
  case (2 lower spec specs org slug)
  {
    case 1
    then show ?case using 2 by (cases "k = ts_org_id spec") (auto simp: Let_def)
  next
    case 2
    then show ?case using "2.IH" by (cases "k = ts_slug spec") (auto simp: Let_def)
  }
qed simp_all

lemma store_loop_source:
  "fst (store_loop lower specs ts) k = Some t \<Longrightarrow>
     fst ts k = Some t \<or> t \<in> tenant_new lower ` set specs"
  by (induction lower specs ts rule: store_loop.induct) (auto simp: Let_def split: if_splits)

lemma store_loop_fresh:
  "(\<forall>s \<in> set specs. ts_org_id s \<noteq> k) \<Longrightarrow> fst (store_loop lower specs ts) k = fst ts k"
  "(\<forall>s \<in> set specs. ts_slug s \<noteq> k) \<Longrightarrow> snd (store_loop lower specs ts) k = snd ts k"
  by (induction lower specs ts rule: store_loop.induct) (auto simp: Let_def)

lemma store_loop_append:
  "store_loop lower (us @ vs) ts = store_loop lower vs (store_loop lower us ts)"
  by (induction lower us ts rule: store_loop.induct) (auto simp: Let_def)

lemma store_loop_first:
  assumes "\<forall>u \<in> set us. ts_org_id u \<noteq> ts_org_id s \<and> ts_slug u \<noteq> ts_slug s"
  shows "fst (store_loop lower (us @ s # vs) (Map.empty, Map.empty)) (ts_org_id s)
           = Some (tenant_new lower s)"
proof -
  obtain org slug where t: "store_loop lower us (Map.empty, Map.empty) = (org, slug)" by fastforce
  have "org (ts_org_id s) = None" "slug (ts_slug s) = None"
    using assms store_loop_fresh [of us _ lower "(Map.empty, Map.empty)"] by (force simp: t)+
  then have "store_loop lower (us @ s # vs) (Map.empty, Map.empty) =
      store_loop lower vs (org(ts_org_id s \<mapsto> tenant_new lower s), slug(ts_slug s \<mapsto> tenant_new lower s))"
    by (simp add: store_loop_append t Let_def)
  then show ?thesis by (simp add: store_loop_keeps)
qed

lemma resolve_org_source:
  "resolve_org (table_store lower v specs) k = Some t \<Longrightarrow> t \<in> tenant_new lower ` set specs \<and> tn_id t = k"
  using store_loop_source [of lower specs "(Map.empty, Map.empty)" k t]
    store_loop_wf [of "(Map.empty, Map.empty)" lower specs]
  by (auto simp: resolve_org_def table_store_def table_wf_def split: prod.splits)

text \<open>
  A slug never resolves to two organisations: after every refresh the two indexes of the tenant
  table describe the same tenants, each under its own organisation id and its own slug, every tenant
  comes from the list of that refresh, and an entry that repeats neither the organisation nor the
  slug of an earlier one is served.
\<close>

theorem tenant_table_consistent:
  "(\<forall>k t. resolve_org (table_store lower v specs) k = Some t \<longrightarrow>
      tn_id t = k \<and> resolve_slug (table_store lower v specs) (tn_slug t) = Some t \<and>
      (\<exists>s \<in> set specs. t = tenant_new lower s)) \<and>
   (\<forall>k t. resolve_slug (table_store lower v specs) k = Some t \<longrightarrow>
      tn_slug t = k \<and> resolve_org (table_store lower v specs) (tn_id t) = Some t) \<and>
   (\<forall>us s vs. specs = us @ s # vs \<longrightarrow>
      (\<forall>u \<in> set us. ts_org_id u \<noteq> ts_org_id s \<and> ts_slug u \<noteq> ts_slug s) \<longrightarrow>
      resolve_org (table_store lower v specs) (ts_org_id s) = Some (tenant_new lower s))"
proof -
  obtain org slug where t: "store_loop lower specs (Map.empty, Map.empty) = (org, slug)" by fastforce
  have wf: "table_wf (org, slug)"
    using store_loop_wf [of "(Map.empty, Map.empty)" lower specs] by (simp add: t table_wf_def)
  have src: "\<exists>s \<in> set specs. x = tenant_new lower s" if "org k = Some x" for k x
    using store_loop_source [of lower specs "(Map.empty, Map.empty)" k x] that by (auto simp: t)
  have first: "org (ts_org_id s) = Some (tenant_new lower s)"
    if "specs = us @ s # vs" "\<forall>u \<in> set us. ts_org_id u \<noteq> ts_org_id s \<and> ts_slug u \<noteq> ts_slug s" for us s vs
    using store_loop_first [OF that(2), of lower vs] t by (simp add: that(1))
  have org: "resolve_org (table_store lower v specs) = org" "resolve_slug (table_store lower v specs) = slug"
    by (simp_all add: fun_eq_iff resolve_org_def resolve_slug_def table_store_def t)
  show ?thesis
    unfolding org using wf src first by (simp only: table_wf_def fst_conv snd_conv) blast
qed

definition sample_tenant :: "string \<Rightarrow> string \<Rightarrow> policy_set \<Rightarrow> tenant_spec" where
  "sample_tenant org slug ps = \<lparr>ts_org_id = org, ts_slug = slug, ts_owners = [''Acme''],
     ts_owner_ids = [(''Acme'', 7)], ts_policy = ps\<rparr>"

theorem tenant_table_consistent_witness:
  "resolve_org (table_store to_ascii_lowercase 1
      [sample_tenant ''org-a'' ''a'' [], sample_tenant ''org-b'' ''a'' []]) ''org-a''
     = Some (tenant_new to_ascii_lowercase (sample_tenant ''org-a'' ''a'' []))"
proof -
  let ?specs = "[sample_tenant ''org-a'' ''a'' [], sample_tenant ''org-b'' ''a'' []]"
  have "?specs = [] @ sample_tenant ''org-a'' ''a'' [] # [sample_tenant ''org-b'' ''a'' []]" by simp
  moreover have "ts_org_id (sample_tenant ''org-a'' ''a'' []) = ''org-a''" by (simp add: sample_tenant_def)
  ultimately show ?thesis
    using tenant_table_consistent [of to_ascii_lowercase 1 ?specs] by fastforce
qed

text \<open>A login with a recorded numeric id is owned only together with that id.\<close>

lemma owner_id_must_agree:
  "tenant_owns lower t owner owner_id \<Longrightarrow> tn_owner_ids t (lower owner) = Some recorded \<Longrightarrow>
     owner_id = Some recorded"
  by (simp add: tenant_owns_def Let_def split: if_splits)

subsection \<open>The usage table\<close>

definition usage_wf :: "tenant_usage \<Rightarrow> bool" where
  "usage_wf u \<longleftrightarrow> distinct (map fst u)"

lemma meter_for_wf: "usage_wf u \<Longrightarrow> usage_wf (snd (meter_for org u))"
  by (auto simp: usage_wf_def meter_for_def)

lemma meter_update_wf: "usage_wf u \<Longrightarrow> usage_wf (meter_update org f u)"
  by (simp add: usage_wf_def meter_update_def comp_def case_prod_beta)

lemma meter_for_lookup:
  "map_of (snd (meter_for org u)) k =
     (if k = org then Some (case map_of u org of Some m \<Rightarrow> m | None \<Rightarrow> meter_default) else map_of u k)"
  by (auto simp: meter_for_def map_add_def split: option.splits dest: weak_map_of_SomeI)

lemma meter_update_lookup:
  "map_of (meter_update org f u) k = (if k = org then map_option f (map_of u k) else map_of u k)"
  by (induction u) (auto simp: meter_update_def)

lemma usage_report_sorted:
  "sorted (map (\<lambda>(k, _). map char_code k) (usage_report u))"
  "set (usage_report u) = set (map (\<lambda>(k, m). (k, meter_snapshot m)) u)"
  by (simp_all add: usage_report_def)

end
