(* ===== verification/Address_Policy.thy ===== *)
theory Address_Policy
  imports Rust_Net
begin

text \<open>
  Which resolved addresses the proxy reaches, \<^verbatim>\<open>src/crates/skimasque/src/policy.rs\<close>.
  Networks come from the \<^verbatim>\<open>ipnet\<close> crate: their type is a parameter and
  \<open>contains\<close>, the membership test, an argument.
\<close>

record 'n address_policy =
  ap_allow_loopback :: bool
  ap_allow_private :: bool
  ap_allow_link_local :: bool
  ap_allow_multicast :: bool
  ap_allow_unspecified :: bool
  ap_allowed_ports :: "u16 list option"
  ap_denied_ports :: "u16 list"
  ap_allowed_cidrs :: "'n list"

definition address_policy_default :: "'n address_policy" where
  "address_policy_default = \<lparr>ap_allow_loopback = False, ap_allow_private = False,
     ap_allow_link_local = False, ap_allow_multicast = False, ap_allow_unspecified = False,
     ap_allowed_ports = None, ap_denied_ports = [], ap_allowed_cidrs = []\<rparr>"

definition address_policy_permissive :: "'n address_policy" where
  "address_policy_permissive = \<lparr>ap_allow_loopback = True, ap_allow_private = True,
     ap_allow_link_local = True, ap_allow_multicast = True, ap_allow_unspecified = True,
     ap_allowed_ports = None, ap_denied_ports = [], ap_allowed_cidrs = []\<rparr>"

definition with_allowed_ports :: "u16 list \<Rightarrow> 'n address_policy \<Rightarrow> 'n address_policy" where
  "with_allowed_ports ports p = p\<lparr>ap_allowed_ports := Some ports\<rparr>"

definition with_allowed_cidrs :: "'n list \<Rightarrow> 'n address_policy \<Rightarrow> 'n address_policy" where
  "with_allowed_cidrs cidrs p = p\<lparr>ap_allowed_cidrs := cidrs\<rparr>"

definition is_shared_v4 :: "u32 \<Rightarrow> bool" where
  "is_shared_v4 a \<longleftrightarrow> v4_octet 0 a = 100 \<and> 64 \<le> v4_octet 1 a \<and> v4_octet 1 a < 128"

definition is_link_local_v6 :: "u128 \<Rightarrow> bool" where
  "is_link_local_v6 a \<longleftrightarrow> (segments6 a ! 0) AND 0xffc0 = 0xfe80"

definition is_unique_local_v6 :: "u128 \<Rightarrow> bool" where
  "is_unique_local_v6 a \<longleftrightarrow> (segments6 a ! 0) AND 0xfe00 = 0xfc00"

definition permits_v4 :: "'n address_policy \<Rightarrow> u32 \<Rightarrow> string + unit" where
  "permits_v4 p a =
     (if v4_is_unspecified a \<and> \<not> ap_allow_unspecified p then Inl ''destination is the unspecified address''
      else if v4_is_loopback a \<and> \<not> ap_allow_loopback p then Inl ''destination is a loopback address''
      else if v4_is_link_local a \<and> \<not> ap_allow_link_local p then Inl ''destination is a link-local address''
      else if (v4_is_multicast a \<or> v4_is_broadcast a) \<and> \<not> ap_allow_multicast p
      then Inl ''destination is a multicast or broadcast address''
      else if (v4_is_private a \<or> is_shared_v4 a) \<and> \<not> ap_allow_private p
      then Inl ''destination is a private address''
      else Inr ())"

definition permits_v6 :: "'n address_policy \<Rightarrow> u128 \<Rightarrow> string + unit" where
  "permits_v6 p a =
     (if v6_is_unspecified a \<and> \<not> ap_allow_unspecified p then Inl ''destination is the unspecified address''
      else if v6_is_loopback a \<and> \<not> ap_allow_loopback p then Inl ''destination is a loopback address''
      else if is_link_local_v6 a \<and> \<not> ap_allow_link_local p then Inl ''destination is a link-local address''
      else if v6_is_multicast a \<and> \<not> ap_allow_multicast p then Inl ''destination is a multicast address''
      else if is_unique_local_v6 a \<and> \<not> ap_allow_private p then Inl ''destination is a unique-local address''
      else Inr ())"

text \<open>The address the rules judge: an IPv4-mapped IPv6 address is the IPv4 address it wraps.\<close>

definition unmapped :: "ip_addr \<Rightarrow> ip_addr" where
  "unmapped a =
     (case a of
        V6 v6 \<Rightarrow> (case to_ipv4_mapped v6 of None \<Rightarrow> V6 v6 | Some v4 \<Rightarrow> V4 v4)
      | V4 v4 \<Rightarrow> V4 v4)"

definition permits :: "('n \<Rightarrow> ip_addr \<Rightarrow> bool) \<Rightarrow> 'n address_policy \<Rightarrow> socket_addr \<Rightarrow> string + unit" where
  "permits contains p addr =
     (if (case ap_allowed_ports p of Some ports \<Rightarrow> sa_port addr \<notin> set ports | None \<Rightarrow> False)
      then Inl ''destination port is not in the allowed set''
      else if sa_port addr \<in> set (ap_denied_ports p) then Inl ''destination port is denied''
      else
        let ip = unmapped (sa_ip addr) in
        if list_ex (\<lambda>net. contains net ip) (ap_allowed_cidrs p) then Inr ()
        else case ip of V4 v4 \<Rightarrow> permits_v4 p v4 | V6 v6 \<Rightarrow> permits_v6 p v6)"

subsection \<open>Categories as prefixes\<close>

text \<open>Membership in an address block given by its network address and prefix length.\<close>

definition in_block4 :: "u32 \<Rightarrow> nat \<Rightarrow> u32 \<Rightarrow> bool" where
  "in_block4 net len a \<longleftrightarrow> drop_bit (32 - len) a = drop_bit (32 - len) net"

definition in_block6 :: "u128 \<Rightarrow> nat \<Rightarrow> u128 \<Rightarrow> bool" where
  "in_block6 net len a \<longleftrightarrow> drop_bit (128 - len) a = drop_bit (128 - len) net"

lemma unat_drop_bit_div: "unat (drop_bit k (w :: 'a::len word)) = unat w div 2 ^ k"
  by (simp only: unat_drop_bit_eq) (simp only: drop_bit_eq_div)

lemma in_block4_unat: "in_block4 net len a \<longleftrightarrow> unat a div 2 ^ (32 - len) = unat net div 2 ^ (32 - len)"
  by (simp only: in_block4_def word_unat_eq_iff unat_drop_bit_div)

lemma octet_parts:
  "v4_octet 0 a = unat a div 65536 div 256" "v4_octet (Suc 0) a = unat a div 65536 mod 256"
  "unat a div 16777216 = unat a div 65536 div 256" "unat a div 1048576 = unat a div 65536 div 16"
  "unat a div 4194304 = unat a div 65536 div 64" "unat a div 268435456 = unat a div 65536 div 4096"
  "unat (a :: u32) div 65536 < 65536"
proof -
  have lt: "unat a < 4294967296" using unsigned_less [of a, where 'a = nat] by simp
  then show "v4_octet 0 a = unat a div 65536 div 256"
    by (simp add: v4_octet_def div_mult2_eq [symmetric])
  show "v4_octet (Suc 0) a = unat a div 65536 mod 256" by (simp add: v4_octet_def)
  show "unat a div 16777216 = unat a div 65536 div 256" "unat a div 1048576 = unat a div 65536 div 16"
    "unat a div 4194304 = unat a div 65536 div 64" "unat a div 268435456 = unat a div 65536 div 4096"
    by (simp_all add: div_mult2_eq [symmetric])
  show "unat a div 65536 < 65536" using lt by simp
qed

lemma div_eq_range: "0 < d \<Longrightarrow> x div d = k \<longleftrightarrow> k * d \<le> x \<and> x < k * d + (d :: nat)"
proof -
  assume "0 < d"
  show ?thesis
  proof
    assume k: "x div d = k"
    show "k * d \<le> x \<and> x < k * d + d"
      using div_mult_mod_eq [of x d] mod_less_divisor [OF \<open>0 < d\<close>, of x] unfolding k by linarith
  next
    assume "k * d \<le> x \<and> x < k * d + d"
    then show "x div d = k" by (intro div_nat_eqI) (simp_all add: algebra_simps)
  qed
qed

text \<open>Two octets read as one 16-bit number.\<close>

lemma octet_pair:
  fixes x :: nat
  shows "x div 256 = 169 \<and> x mod 256 = 254 \<longleftrightarrow> x = 43518"
    and "224 \<le> x div 256 \<and> x div 256 \<le> 239 \<longleftrightarrow> x div 4096 = 14"
    and "x div 256 = 172 \<and> 16 \<le> x mod 256 \<and> x mod 256 \<le> 31 \<longleftrightarrow> x div 16 = 2753"
    and "x div 256 = 192 \<and> x mod 256 = 168 \<longleftrightarrow> x = 49320"
    and "x div 256 = 100 \<and> 64 \<le> x mod 256 \<and> x mod 256 < 128 \<longleftrightarrow> x div 64 = 401"
proof -
  obtain q r where x: "x = q * 256 + r" "r < 256" "x div 256 = q" "x mod 256 = r"
    by (metis div_mult_mod_eq mod_less_divisor zero_less_numeral)
  have q: "k * 256 \<le> x \<Longrightarrow> x < k * 256 + 256 \<Longrightarrow> q = k" for k
    using div_eq_range [of 256 x k] x(3) by simp
  show "x div 256 = 169 \<and> x mod 256 = 254 \<longleftrightarrow> x = 43518"
    unfolding x(3,4) using q [of 169] x(1) by auto
  show "x div 256 = 192 \<and> x mod 256 = 168 \<longleftrightarrow> x = 49320"
    unfolding x(3,4) using q [of 192] x(1) by auto
  show "224 \<le> x div 256 \<and> x div 256 \<le> 239 \<longleftrightarrow> x div 4096 = 14"
    unfolding x(3) div_eq_range [of 4096 x 14, simplified] using x(1,2) by auto
  show "x div 256 = 172 \<and> 16 \<le> x mod 256 \<and> x mod 256 \<le> 31 \<longleftrightarrow> x div 16 = 2753"
    unfolding x(3,4) div_eq_range [of 16 x 2753, simplified] using q [of 172] x(1) by auto
  show "x div 256 = 100 \<and> 64 \<le> x mod 256 \<and> x mod 256 < 128 \<longleftrightarrow> x div 64 = 401"
    unfolding x(3,4) div_eq_range [of 64 x 401, simplified] using q [of 100] x(1) by auto
qed

lemma v4_categories:
  "v4_is_loopback a \<longleftrightarrow> in_block4 0x7F000000 8 a"
  "v4_is_link_local a \<longleftrightarrow> in_block4 0xA9FE0000 16 a"
  "v4_is_multicast a \<longleftrightarrow> in_block4 0xE0000000 4 a"
  "v4_is_private a \<longleftrightarrow> in_block4 0x0A000000 8 a \<or> in_block4 0xAC100000 12 a \<or> in_block4 0xC0A80000 16 a"
  "is_shared_v4 a \<longleftrightarrow> in_block4 0x64400000 10 a"
proof -
  note o = octet_parts [of a] and pair = octet_pair [of "unat a div 65536"]
  show "v4_is_loopback a \<longleftrightarrow> in_block4 0x7F000000 8 a"
    by (simp add: v4_is_loopback_def in_block4_unat o)
  show "v4_is_link_local a \<longleftrightarrow> in_block4 0xA9FE0000 16 a"
    using pair(1) by (simp add: v4_is_link_local_def in_block4_unat o)
  show "v4_is_multicast a \<longleftrightarrow> in_block4 0xE0000000 4 a"
    using pair(2) by (simp add: v4_is_multicast_def in_block4_unat o)
  show "v4_is_private a \<longleftrightarrow> in_block4 0x0A000000 8 a \<or> in_block4 0xAC100000 12 a \<or> in_block4 0xC0A80000 16 a"
    using pair(3,4) by (simp add: v4_is_private_def in_block4_unat o)
  show "is_shared_v4 a \<longleftrightarrow> in_block4 0x64400000 10 a"
    using pair(5) by (simp add: is_shared_v4_def in_block4_unat o)
qed

lemma first_segment: "segments6 a ! 0 = ucast (drop_bit 112 a)"
  by (simp add: segments6_def rev_nth)

text \<open>A mask that keeps the top bits of the first segment compares the top bits of the address.\<close>

lemma unat_and_high:
  assumes "k \<le> 16"
  shows "unat ((w :: u16) AND NOT (mask k)) = unat w div 2 ^ k * 2 ^ k"
proof -
  have "w AND NOT (mask k) = push_bit k (drop_bit k w)"
    by (rule bit_word_eqI) (auto simp: bit_simps)
  then have eq: "unat (w AND NOT (mask k)) = take_bit 16 (unat w div 2 ^ k * 2 ^ k)"
    by (simp only: unsigned_push_bit_eq unat_drop_bit_div) (simp add: push_bit_eq_mult)
  have "unat w div 2 ^ k * 2 ^ k \<le> unat w" by simp
  moreover have "unat w < 2 ^ 16" using unsigned_less [of w, where 'a = nat] by simp
  ultimately have "unat w div 2 ^ k * 2 ^ k < 2 ^ 16" by linarith
  then show ?thesis using eq by (simp only: take_bit_nat_eq_self)
qed

lemma unat_first_segment: "unat (segments6 a ! 0) = unat a div 2 ^ 112"
proof -
  have "unat a < 2 ^ 128" using unsigned_less [of a, where 'a = nat] by simp
  then have "unat a div 2 ^ 112 < 2 ^ 16" by (simp add: div_less_iff_less_mult)
  then show ?thesis
    by (simp only: first_segment unsigned_ucast_eq unat_drop_bit_div) (simp add: take_bit_nat_eq_self)
qed

lemma in_block6_unat:
  "in_block6 net len a \<longleftrightarrow> unat a div 2 ^ (128 - len) = unat net div 2 ^ (128 - len)"
  by (simp only: in_block6_def word_unat_eq_iff unat_drop_bit_div)

lemma v6_categories:
  "is_link_local_v6 a \<longleftrightarrow> in_block6 0xfe800000000000000000000000000000 10 a"
  "is_unique_local_v6 a \<longleftrightarrow> in_block6 0xfc000000000000000000000000000000 7 a"
  "v6_is_multicast a \<longleftrightarrow> in_block6 0xff000000000000000000000000000000 8 a"
proof -
  let ?s = "segments6 a ! 0"
  have d: "unat a div 2 ^ (112 + k) = unat ?s div 2 ^ k" for k
    by (simp add: unat_first_segment div_mult2_eq power_add)
  have m: "(0xffc0 :: u16) = NOT (mask 6)" "(0xfe00 :: u16) = NOT (mask 9)"
    by (simp_all add: mask_eq_exp_minus_1)
  have "is_link_local_v6 a \<longleftrightarrow> unat (?s AND NOT (mask 6)) = 65152"
    unfolding is_link_local_v6_def m word_unat_eq_iff by simp
  also have "\<dots> \<longleftrightarrow> unat ?s div 64 = 1018" by (simp add: unat_and_high)
  finally show "is_link_local_v6 a \<longleftrightarrow> in_block6 0xfe800000000000000000000000000000 10 a"
    using d [of 6] by (simp add: in_block6_unat)
  have "is_unique_local_v6 a \<longleftrightarrow> unat (?s AND NOT (mask 9)) = 64512"
    unfolding is_unique_local_v6_def m word_unat_eq_iff by simp
  also have "\<dots> \<longleftrightarrow> unat ?s div 512 = 126" by (simp add: unat_and_high)
  finally show "is_unique_local_v6 a \<longleftrightarrow> in_block6 0xfc000000000000000000000000000000 7 a"
    using d [of 9] by (simp add: in_block6_unat)
  show "v6_is_multicast a \<longleftrightarrow> in_block6 0xff000000000000000000000000000000 8 a"
    by (simp add: v6_is_multicast_def in_block6_def)
qed

subsection \<open>Properties\<close>


text \<open>
  Turning on \<open>allow_private\<close> alone does not open link-local space: under that policy every
  address of 169.254.0.0/16, the cloud metadata address among them, is still refused, also when it
  is written as an IPv4-mapped IPv6 address.
\<close>

theorem allow_private_keeps_link_local_closed:
  assumes "unmapped (sa_ip addr) = V4 a" "in_block4 0xA9FE0000 16 a"
  shows "permits contains (address_policy_default\<lparr>ap_allow_private := True\<rparr>) addr =
    Inl ''destination is a link-local address''"
proof -
  have "v4_is_link_local a" using assms(2) by (simp add: v4_categories)
  moreover from this have "\<not> v4_is_unspecified a" "\<not> v4_is_loopback a"
    by (auto simp: v4_is_link_local_def v4_is_unspecified_def v4_is_loopback_def v4_octet_def)
  ultimately show ?thesis
    using assms(1) by (simp add: permits_def address_policy_default_def permits_v4_def)
qed

theorem allow_private_keeps_link_local_closed_witness:
  "permits (\<lambda>_ _. False) (address_policy_default\<lparr>ap_allow_private := True\<rparr>)
     (SocketAddr (V6 0xffffA9FEA9FE) 80) = Inl ''destination is a link-local address''"
  by (rule allow_private_keeps_link_local_closed [where a = "0xA9FEA9FE"])
     (simp_all add: unmapped_def to_ipv4_mapped_def in_block4_def drop_bit_eq_div)

end
