(* ===== verification/Template.thy ===== *)
theory Template
  imports Prelude
begin

text \<open>
  URI Templates (\<^verbatim>\<open>skimasque-core/src/template.rs\<close>): the parser of the permitted subset of
  RFC 6570, expansion of a template to a request path, and the matcher that runs the template
  backwards. The last section proves that the matcher undoes the expansion for every template whose
  expressions are followed by a character that cannot occur in an expanded value.
\<close>

subsection \<open>Templates\<close>

datatype template_error =
    NotAbsolute
  | EmptyComponent string
  | PathMustStartWithSlash
  | IllegalCharacter string
  | UnsupportedOperator char
  | UnsupportedModifier char
  | UnterminatedExpression
  | EmptyExpression
  | VariableOutsidePathOrQuery
  | DuplicateVariable string
  | QueryExpressionMustBeLast
  | MissingVariable string
  | UndefinedVariable string
  | EmptyValue string

datatype part =
    Literal string
  | Simple string
  | Query "string list"
  | QueryContinuation "string list"

record uri_template =
  ut_scheme :: string
  ut_authority :: string
  ut_parts :: "part list"
  ut_variables :: "string list"
  ut_raw :: string

type_synonym bindings = "string \<rightharpoonup> string"

definition CONNECT_UDP_VARIABLES :: "string list" where
  "CONNECT_UDP_VARIABLES = [''target_host'', ''target_port'']"

definition CONNECT_TCP_VARIABLES :: "string list" where
  "CONNECT_TCP_VARIABLES = [''target_host'', ''target_port'']"

definition CONNECT_IP_VARIABLES :: "string list" where
  "CONNECT_IP_VARIABLES = [''target'', ''ipproto'']"

subsection \<open>Percent-encoding\<close>

definition is_unreserved :: "char \<Rightarrow> bool" where
  "is_unreserved c \<longleftrightarrow> is_ascii_alphanumeric c \<or> c \<in> set ''-._~''"

definition is_expansion_safe :: "char \<Rightarrow> bool" where
  "is_expansion_safe c \<longleftrightarrow> is_ascii_alphanumeric c \<or> c \<in> set ''-._~%''"

definition hex_upper :: "nat \<Rightarrow> char" where
  "hex_upper d = (if d < 10 then digit_char d else char_of (55 + d))"

definition pct_encode :: "string \<Rightarrow> string" where
  "pct_encode s =
     concat (map (\<lambda>c. if is_unreserved c then [c]
                      else [CHR ''%'', hex_upper (char_code c div 16), hex_upper (char_code c mod 16)]) s)"

text \<open>\<^verbatim>\<open>u8::from_str_radix(s, 16)\<close>; like every integer parser it accepts a leading plus.\<close>

definition from_str_radix_16 :: "string \<Rightarrow> nat option" where
  "from_str_radix_16 s =
     (let digits = (case s of c # rest \<Rightarrow> if c = CHR ''+'' then rest else s | [] \<Rightarrow> [])
      in if digits \<noteq> [] \<and> list_all is_hex_digit digits \<and> hex_digits_val digits \<le> 255
         then Some (hex_digits_val digits) else None)"

fun pct_decode_bytes :: "string \<Rightarrow> string option" where
  "pct_decode_bytes [] = Some []"
| "pct_decode_bytes (c # cs) =
     (if c = CHR ''%'' then
        (case cs of
           a # b # rest \<Rightarrow>
             (case from_str_radix_16 [a, b] of
                None \<Rightarrow> None
              | Some n \<Rightarrow> map_option (Cons (char_of n)) (pct_decode_bytes rest))
         | _ \<Rightarrow> None)
      else map_option (Cons c) (pct_decode_bytes cs))"

definition pct_decode :: "string \<Rightarrow> string option" where
  "pct_decode s =
     (case pct_decode_bytes s of
        None \<Rightarrow> None
      | Some out \<Rightarrow> if str_valid out then Some out else None)"

subsection \<open>Parsing\<close>

text \<open>One variable name of an expression.\<close>

definition parse_name :: "string \<Rightarrow> template_error + string" where
  "parse_name name =
     (if name = [] then Inl EmptyExpression
      else (case find_first (\<lambda>c. c = CHR ''*'' \<or> c = CHR '':'') name of
              Some modifier \<Rightarrow> Inl (UnsupportedModifier modifier)
            | None \<Rightarrow> Inr name))"

definition parse_expression :: "string \<Rightarrow> template_error + part" where
  "parse_expression expression =
     (case expression of
        [] \<Rightarrow> Inl EmptyExpression
      | first # rest \<Rightarrow>
          (if first \<in> set ''+#./;=,!@|'' then Inl (UnsupportedOperator first)
           else
             (let operator = (if first = CHR ''?'' \<or> first = CHR ''&'' then Some first else None);
                  names = (if operator = None then expression else rest)
              in and_then (try_map parse_name (split_on (CHR '','') names)) (\<lambda>names.
                   (case operator of
                      Some op \<Rightarrow> Inr (if op = CHR ''?'' then Query names else QueryContinuation names)
                    | None \<Rightarrow>
                        (if length names \<noteq> 1 then Inl (UnsupportedOperator (CHR '',''))
                         else Inr (Simple (hd names))))))))"

text \<open>The loop over the braces; the pending literal and the parts so far are its state.\<close>

function parse_parts_loop ::
  "string \<Rightarrow> string \<Rightarrow> part list \<Rightarrow> template_error + (part list \<times> string)" where
  "parse_parts_loop rest literal parts =
     (case split_once_at (CHR ''{'') rest of
        None \<Rightarrow> Inr (parts, literal @ rest)
      | Some (before, after) \<Rightarrow>
          (case split_once_at (CHR ''}'') after of
             None \<Rightarrow> Inl UnterminatedExpression
           | Some (expression, rest') \<Rightarrow>
               (let literal' = literal @ before;
                    parts' = (if literal' \<noteq> [] then parts @ [Literal literal'] else parts)
                in case parse_expression expression of
                     Inl e \<Rightarrow> Inl e
                   | Inr p \<Rightarrow> parse_parts_loop rest' [] (parts' @ [p]))))"
  by auto

termination
  by (relation "measure (\<lambda>(rest, _). length rest)") (auto dest!: split_once_at_SomeD)

declare parse_parts_loop.simps [simp del]

definition is_query_part :: "part \<Rightarrow> bool" where
  "is_query_part p = (case p of Query _ \<Rightarrow> True | QueryContinuation _ \<Rightarrow> True | _ \<Rightarrow> False)"

definition parse_parts :: "string \<Rightarrow> template_error + part list" where
  "parse_parts input =
     and_then (parse_parts_loop input [] []) (\<lambda>(parts, literal).
       (let parts' = (if literal \<noteq> [] then parts @ [Literal literal] else parts)
        in case dropWhile (\<lambda>p. \<not> is_query_part p) parts' of
             _ # _ # _ \<Rightarrow> Inl QueryExpressionMustBeLast
           | _ \<Rightarrow> Inr parts'))"

definition part_names :: "part \<Rightarrow> string list" where
  "part_names p =
     (case p of Literal _ \<Rightarrow> [] | Simple name \<Rightarrow> [name] | Query names \<Rightarrow> names
      | QueryContinuation names \<Rightarrow> names)"

fun collect_variables :: "string list \<Rightarrow> string list \<Rightarrow> template_error + string list" where
  "collect_variables variables [] = Inr variables"
| "collect_variables variables (name # names) =
     (if name \<in> set variables then Inl (DuplicateVariable name)
      else collect_variables (variables @ [name]) names)"

text \<open>\<^verbatim>\<open>str::split_once\<close> with a string pattern.\<close>

fun split_once_str :: "string \<Rightarrow> string \<Rightarrow> (string \<times> string) option" where
  "split_once_str p [] = (if p = [] then Some ([], []) else None)"
| "split_once_str p (c # cs) =
     (case strip_prefix p (c # cs) of
        Some r \<Rightarrow> Some ([], r)
      | None \<Rightarrow> map_option (apfst (Cons c)) (split_once_str p cs))"

definition template_char :: "string \<Rightarrow> bool" where
  "template_char u =
     (case u of [c] \<Rightarrow> 0x21 \<le> char_code c \<and> char_code c \<le> 0x7e | _ \<Rightarrow> False)"

definition template_parse :: "string \<Rightarrow> template_error + uri_template" where
  "template_parse template =
     (case find_first (\<lambda>u. \<not> template_char u) (str_chars template) of
        Some ch \<Rightarrow> Inl (IllegalCharacter ch)
      | None \<Rightarrow>
          (case split_once_str ''://'' template of
             None \<Rightarrow> Inl NotAbsolute
           | Some (scheme, rest) \<Rightarrow>
               if scheme = [] then Inl (EmptyComponent ''scheme'')
               else if CHR ''/'' \<notin> set rest then Inl (EmptyComponent ''path'')
               else
                 (let authority = takeWhile (\<lambda>c. c \<noteq> CHR ''/'') rest;
                      path_and_query = dropWhile (\<lambda>c. c \<noteq> CHR ''/'') rest
                  in if authority = [] then Inl (EmptyComponent ''authority'')
                     else if CHR ''{'' \<in> set scheme \<or> CHR ''{'' \<in> set authority
                     then Inl VariableOutsidePathOrQuery
                     else if \<not> starts_with path_and_query ''/'' then Inl PathMustStartWithSlash
                     else
                       and_then (parse_parts path_and_query) (\<lambda>parts.
                       and_then (collect_variables [] (concat (map part_names parts))) (\<lambda>variables.
                         Inr \<lparr>ut_scheme = scheme, ut_authority = authority, ut_parts = parts,
                              ut_variables = variables, ut_raw = template\<rparr>)))))"

definition default_connect_udp :: "string \<Rightarrow> template_error + uri_template" where
  "default_connect_udp proxy_authority =
     template_parse (''https://'' @ proxy_authority @
       ''/.well-known/masque/udp/{target_host}/{target_port}/'')"

definition default_connect_tcp :: "string \<Rightarrow> template_error + uri_template" where
  "default_connect_tcp proxy_authority =
     template_parse (''https://'' @ proxy_authority @
       ''/.well-known/masque/tcp/{target_host}/{target_port}/'')"

definition default_connect_ip :: "string \<Rightarrow> template_error + uri_template" where
  "default_connect_ip proxy_authority =
     template_parse (''https://'' @ proxy_authority @
       ''/.well-known/masque/ip/{target}/{ipproto}/'')"

definition require_variables :: "uri_template \<Rightarrow> string list \<Rightarrow> template_error + unit" where
  "require_variables t required =
     (case find_first (\<lambda>name. name \<notin> set (ut_variables t)) required of
        Some name \<Rightarrow> Inl (MissingVariable name)
      | None \<Rightarrow> Inr ())"

subsection \<open>Expansion\<close>

definition template_lookup :: "bindings \<Rightarrow> string \<Rightarrow> template_error + string" where
  "template_lookup values name =
     and_then (ok_or (UndefinedVariable name) (values name)) (\<lambda>v.
       if v = [] then Inl (EmptyValue name) else Inr v)"

fun expand_query :: "bindings \<Rightarrow> string list \<Rightarrow> char \<Rightarrow> template_error + string" where
  "expand_query values [] separator = Inr []"
| "expand_query values (name # names) separator =
     and_then (template_lookup values name) (\<lambda>v.
     and_then (expand_query values names (CHR ''&'')) (\<lambda>out.
       Inr (separator # name @ ''='' @ pct_encode v @ out)))"

definition expand_part :: "bindings \<Rightarrow> part \<Rightarrow> template_error + string" where
  "expand_part values p =
     (case p of
        Literal literal \<Rightarrow> Inr literal
      | Simple name \<Rightarrow> and_then (template_lookup values name) (\<lambda>v. Inr (pct_encode v))
      | Query names \<Rightarrow> expand_query values names (CHR ''?'')
      | QueryContinuation names \<Rightarrow> expand_query values names (CHR ''&''))"

definition expand_path :: "uri_template \<Rightarrow> bindings \<Rightarrow> template_error + string" where
  "expand_path t values = and_then (try_map (expand_part values) (ut_parts t)) (\<lambda>out. Inr (concat out))"

definition expand_absolute :: "uri_template \<Rightarrow> bindings \<Rightarrow> template_error + string" where
  "expand_absolute t values =
     and_then (expand_path t values) (\<lambda>p. Inr (ut_scheme t @ ''://'' @ ut_authority t @ p))"

subsection \<open>Matching\<close>

definition is_char_boundary :: "string \<Rightarrow> nat \<Rightarrow> bool" where
  "is_char_boundary s i \<longleftrightarrow>
     i = 0 \<or> i = length s \<or> (i < length s \<and> \<not> utf8_cont (char_code (s ! i)))"

text \<open>The spans of a simple expression, longest first; \<open>k\<close> matches the remaining parts.\<close>

fun match_spans ::
  "(string \<Rightarrow> bindings \<Rightarrow> bool \<times> bindings) \<Rightarrow> string \<Rightarrow> string \<Rightarrow> nat \<Rightarrow> bindings \<Rightarrow> bool \<times> bindings"
where
  "match_spans k name input 0 values = (False, values)"
| "match_spans k name input (Suc n) values =
     (if \<not> is_char_boundary input (Suc n) then match_spans k name input n values
      else (case pct_decode (take (Suc n) input) of
              None \<Rightarrow> match_spans k name input n values
            | Some decoded \<Rightarrow>
                (case k (drop (Suc n) input) (values(name \<mapsto> decoded)) of
                   (True, vs) \<Rightarrow> (True, vs)
                 | (False, vs) \<Rightarrow> match_spans k name input n (vs(name := None)))))"

fun query_pairs :: "string list \<Rightarrow> bindings \<Rightarrow> bindings option" where
  "query_pairs [] found = Some found"
| "query_pairs (pair # pairs) found =
     (case split_once_at (CHR ''='') pair of
        None \<Rightarrow> query_pairs pairs found
      | Some (key, v) \<Rightarrow>
          (case (pct_decode key, pct_decode v) of
             (Some key', Some v') \<Rightarrow> query_pairs pairs (found(key' \<mapsto> v'))
           | _ \<Rightarrow> None))"

fun bind_names :: "bindings \<Rightarrow> string list \<Rightarrow> bindings \<Rightarrow> bool \<times> bindings" where
  "bind_names found [] values = (True, values)"
| "bind_names found (name # names) values =
     (case found name of
        Some v \<Rightarrow> if v \<noteq> [] then bind_names found names (values(name \<mapsto> v)) else (False, values)
      | None \<Rightarrow> (False, values))"

definition match_query ::
  "char \<Rightarrow> string list \<Rightarrow> part list \<Rightarrow> string \<Rightarrow> bindings \<Rightarrow> bool \<times> bindings" where
  "match_query separator names tail input values =
     (case strip_prefix [separator] input of
        None \<Rightarrow> (False, values)
      | Some query \<Rightarrow>
          (case query_pairs (split_on (CHR ''&'') query) Map.empty of
             None \<Rightarrow> (False, values)
           | Some found \<Rightarrow>
               (case bind_names found names values of
                  (False, vs) \<Rightarrow> (False, vs)
                | (True, vs) \<Rightarrow> (tail = [], vs))))"

primrec match_parts :: "part list \<Rightarrow> string \<Rightarrow> bindings \<Rightarrow> bool \<times> bindings" where
  "match_parts [] = (\<lambda>input values. (input = [], values))"
| "match_parts (p # tail) = (\<lambda>input values.
     (case p of
        Literal literal \<Rightarrow>
          (case strip_prefix literal input of
             Some rest \<Rightarrow> match_parts tail rest values
           | None \<Rightarrow> (False, values))
      | Simple name \<Rightarrow>
          match_spans (match_parts tail) name input
            (length (takeWhile is_expansion_safe input)) values
      | Query names \<Rightarrow> match_query (CHR ''?'') names tail input values
      | QueryContinuation names \<Rightarrow> match_query (CHR ''&'') names tail input values))"

definition match_path :: "uri_template \<Rightarrow> string \<Rightarrow> bindings option" where
  "match_path t path_and_query =
     (case match_parts (ut_parts t) path_and_query Map.empty of
        (True, values) \<Rightarrow> Some values
      | (False, _) \<Rightarrow> None)"

subsection \<open>Encoding and decoding\<close>

lemma is_hex_digit_hex_upper [simp]: "d < 16 \<Longrightarrow> is_hex_digit (hex_upper d)"
  by (simp add: is_hex_digit_def hex_upper_def is_ascii_digit_def digit_char_def char_code_char_of)

lemma hex_val_hex_upper [simp]: "d < 16 \<Longrightarrow> hex_val (hex_upper d) = d"
  by (simp add: hex_val_def hex_upper_def is_ascii_digit_def digit_char_def char_code_char_of)

lemma hex_upper_code:
  "d < 16 \<Longrightarrow> char_code (hex_upper d) = (if d < 10 then 48 + d else 55 + d)"
  by (simp add: hex_upper_def digit_char_def char_code_char_of)

lemma hex_upper_safe: "d < 16 \<Longrightarrow> is_expansion_safe (hex_upper d)"
  by (simp add: is_expansion_safe_def alphanumeric_code hex_upper_code)

lemma hex_upper_not_plus: "d < 16 \<Longrightarrow> hex_upper d \<noteq> CHR ''+''"
  by (simp add: char_eq_code hex_upper_code del: char_code_inject)

lemma from_str_radix_16_escape:
  "a < 16 \<Longrightarrow> b < 16 \<Longrightarrow> from_str_radix_16 [hex_upper a, hex_upper b] = Some (16 * a + b)"
  by (simp add: from_str_radix_16_def hex_upper_not_plus hex_digits_val_def)

lemma code_div_16: "char_code c div 16 < 16"
  using char_code_less [of c] by (simp add: less_mult_imp_div_less)

lemma unreserved_not_percent: "is_unreserved c \<Longrightarrow> c \<noteq> CHR ''%''"
  by (auto simp: is_unreserved_def alphanumeric_code)

lemma pct_encode_simps [simp]:
  "pct_encode [] = []"
  "pct_encode (c # s) =
     (if is_unreserved c then [c]
      else [CHR ''%'', hex_upper (char_code c div 16), hex_upper (char_code c mod 16)]) @ pct_encode s"
  by (simp_all add: pct_encode_def)

lemma pct_decode_bytes_encode: "pct_decode_bytes (pct_encode s) = Some s"
proof (induction s)
  case Nil
  show ?case by simp
next
  case (Cons c s)
  have "from_str_radix_16 [hex_upper (char_code c div 16), hex_upper (char_code c mod 16)]
      = Some (char_code c)"
    using code_div_16 [of c] by (simp add: from_str_radix_16_escape)
  with Cons show ?case by (auto dest: unreserved_not_percent)
qed

text \<open>
  Percent-decoding undoes percent-encoding: the escapes of the bytes outside the unreserved set are
  read back, and the UTF-8 check at the end accepts the result.
\<close>

lemma pct_decode_encode_str: "str_valid s \<Longrightarrow> pct_decode (pct_encode s) = Some s"
  by (simp add: pct_decode_def pct_decode_bytes_encode)

lemma pct_encode_safe: "list_all is_expansion_safe (pct_encode s)"
proof (induction s)
  case (Cons c s)
  have "is_expansion_safe c" if "is_unreserved c"
    using that by (auto simp: is_unreserved_def is_expansion_safe_def)
  with Cons show ?case
    using code_div_16 [of c] by (auto simp: hex_upper_safe) (simp add: is_expansion_safe_def)
qed simp

lemma pct_encode_Nil_iff [simp]: "pct_encode s = [] \<longleftrightarrow> s = []"
  by (cases s) auto

lemma expansion_safe_ascii: "is_expansion_safe c \<Longrightarrow> char_code c < 128"
  by (auto simp: is_expansion_safe_def alphanumeric_code)

lemma expansion_safe_not_sep: "is_expansion_safe c \<Longrightarrow> c \<noteq> CHR ''&'' \<and> c \<noteq> CHR ''='' \<and> c \<noteq> CHR ''/''"
  by (auto simp: is_expansion_safe_def alphanumeric_code)

lemma pct_decode_bytes_plain: "CHR ''%'' \<notin> set s \<Longrightarrow> pct_decode_bytes s = Some s"
  by (induction s) auto

lemma pct_decode_plain: "CHR ''%'' \<notin> set s \<Longrightarrow> str_valid s \<Longrightarrow> pct_decode s = Some s"
  by (simp add: pct_decode_def pct_decode_bytes_plain)

text \<open>An escape whose first digit is a plus sign decodes, although no encoder writes it.\<close>

lemma pct_decode_plus_escape: "pct_decode ''%+A'' = Some [CHR 0x0A]"
  by code_simp

subsection \<open>Matching undoes expansion\<close>

text \<open>
  After a simple expression a template must continue with a character no expanded value contains,
  or with a query expression, or end. Names of query expressions must survive the splitting of the
  query at \<^verbatim>\<open>&\<close> and \<^verbatim>\<open>=\<close> unchanged.
\<close>

definition query_name :: "string \<Rightarrow> bool" where
  "query_name n \<longleftrightarrow> str_valid n \<and> set n \<inter> set ''&=%'' = {}"

definition delimiter :: "char \<Rightarrow> bool" where
  "delimiter c \<longleftrightarrow> char_code c < 128 \<and> \<not> is_expansion_safe c"

definition stops :: "part list \<Rightarrow> bool" where
  "stops ps =
     (case ps of
        [] \<Rightarrow> True
      | p # _ \<Rightarrow>
          (case p of
             Literal l \<Rightarrow> l \<noteq> [] \<and> delimiter (hd l)
           | Simple _ \<Rightarrow> False
           | _ \<Rightarrow> True))"

fun separable :: "part list \<Rightarrow> bool" where
  "separable [] = True"
| "separable (p # ps) =
     (case p of
        Literal _ \<Rightarrow> separable ps
      | Simple _ \<Rightarrow> stops ps \<and> separable ps
      | Query ns \<Rightarrow> ps = [] \<and> ns \<noteq> [] \<and> list_all query_name ns
      | QueryContinuation ns \<Rightarrow> ps = [] \<and> ns \<noteq> [] \<and> list_all query_name ns)"

definition names_of :: "part list \<Rightarrow> string set" where
  "names_of ps = set (concat (map part_names ps))"

text \<open>What matching adds to the bindings: the values of the names of the parts.\<close>

definition rebind :: "string set \<Rightarrow> bindings \<Rightarrow> bindings \<Rightarrow> bindings" where
  "rebind ns values old = (\<lambda>x. if x \<in> ns then values x else old x)"

lemma template_lookup_Inr:
  "template_lookup values name = Inr v \<longleftrightarrow> values name = Some v \<and> v \<noteq> []"
  by (cases "values name") (auto simp: template_lookup_def)

definition query_item :: "bindings \<Rightarrow> string \<Rightarrow> string" where
  "query_item values n = n @ ''='' @ pct_encode (the (values n))"

lemma expand_query_Inr:
  "expand_query values names sep = Inr out \<Longrightarrow>
     (\<forall>n \<in> set names. \<exists>v. values n = Some v \<and> v \<noteq> []) \<and>
     (names \<noteq> [] \<longrightarrow> out = sep # join_with ''&'' (map (query_item values) names))"
proof (induction names arbitrary: sep out)
  case (Cons name names)
  then show ?case
    by (cases names) (auto simp: and_then_Inr_iff template_lookup_Inr query_item_def)
qed simp

lemma split_on_join:
  "xs \<noteq> [] \<Longrightarrow> \<forall>x \<in> set xs. c \<notin> set x \<Longrightarrow> split_on c (join_with [c] xs) = xs"
proof (induction xs rule: induct_list012)
  case (3 x y zs)
  then show ?case by (simp add: split_on_append)
qed (simp_all add: split_on_no_sep)

lemma query_pairs_items:
  assumes "\<forall>n \<in> set names. query_name n \<and> (\<exists>v. values n = Some v \<and> str_valid v)"
  shows "query_pairs (map (query_item values) names) found = Some (rebind (set names) values found)"
  using assms
proof (induction names arbitrary: found)
  case Nil
  then show ?case by (simp add: rebind_def)
next
  case (Cons n ns)
  then obtain v where v: "values n = Some v" "str_valid v" "query_name n" by auto
  then have "split_once_at (CHR ''='') (query_item values n) = Some (n, pct_encode v)"
    by (simp add: query_item_def split_once_at_append query_name_def)
  moreover have "pct_decode n = Some n" using v by (simp add: query_name_def pct_decode_plain)
  moreover have "rebind (set ns) values (found(n \<mapsto> v)) = rebind (set (n # ns)) values found"
    using v by (auto simp: rebind_def)
  ultimately show ?case using Cons v by (simp add: pct_decode_encode_str)
qed

lemma bind_names_found:
  assumes "\<forall>n \<in> set names. \<exists>v. found n = Some v \<and> v \<noteq> []"
  shows "bind_names found names old = (True, rebind (set names) found old)"
  using assms
proof (induction names arbitrary: old)
  case Nil
  then show ?case by (simp add: rebind_def)
next
  case (Cons n ns)
  then obtain v where v: "found n = Some v" "v \<noteq> []" by auto
  then have "rebind (set ns) found (old(n \<mapsto> v)) = rebind (set (n # ns)) found old"
    by (auto simp: rebind_def)
  with Cons v show ?case by simp
qed

lemma match_query_expand:
  assumes "expand_query values names sep = Inr out" "names \<noteq> []" "list_all query_name names"
    "\<forall>v \<in> ran values. str_valid v"
  shows "match_query sep names [] out old = (True, rebind (set names) values old)"
proof -
  have ne: "\<forall>n \<in> set names. \<exists>v. values n = Some v \<and> v \<noteq> []"
    and out: "out = sep # join_with ''&'' (map (query_item values) names)"
    using expand_query_Inr [OF assms(1)] assms(2) by auto
  have "CHR ''&'' \<notin> set (query_item values n)" if "n \<in> set names" for n
    using that assms(3) pct_encode_safe [of "the (values n)"] expansion_safe_not_sep
    by (auto simp: query_item_def query_name_def list_all_iff)
  then have "split_on (CHR ''&'') (join_with ''&'' (map (query_item values) names))
      = map (query_item values) names"
    using assms(2) by (intro split_on_join) auto
  moreover have "query_pairs (map (query_item values) names) Map.empty
      = Some (rebind (set names) values Map.empty)"
    using assms(3,4) ne by (intro query_pairs_items) (fastforce simp: list_all_iff intro: ranI)
  moreover have "bind_names (rebind (set names) values Map.empty) names old
      = (True, rebind (set names) values old)"
  proof -
    have "rebind (set names) (rebind (set names) values Map.empty) old = rebind (set names) values old"
      by (auto simp: rebind_def)
    moreover have "\<forall>n \<in> set names. \<exists>v. rebind (set names) values Map.empty n = Some v \<and> v \<noteq> []"
      using ne by (auto simp: rebind_def)
    ultimately show ?thesis using bind_names_found by metis
  qed
  ultimately show ?thesis by (simp add: match_query_def out strip_prefix_Cons)
qed

lemma match_span_longest:
  assumes "k rest (old(name \<mapsto> v)) = (True, vs)" "str_valid v" "v \<noteq> []"
    "rest = [] \<or> delimiter (hd rest)"
  shows "match_spans k name (pct_encode v @ rest)
           (length (takeWhile is_expansion_safe (pct_encode v @ rest))) old = (True, vs)"
proof -
  let ?e = "pct_encode v"
  have "takeWhile is_expansion_safe (?e @ rest) = ?e @ takeWhile is_expansion_safe rest"
    using pct_encode_safe [of v] by (intro takeWhile_append2) (auto simp: list_all_iff)
  also have "takeWhile is_expansion_safe rest = []"
    using assms(4) by (cases rest) (auto simp: delimiter_def)
  finally have "takeWhile is_expansion_safe (?e @ rest) = ?e" by simp
  moreover obtain n where n: "length ?e = Suc n"
    using assms(3) by (cases "length ?e") auto
  moreover have "is_char_boundary (?e @ rest) (Suc n)"
  proof (cases rest)
    case Nil
    then show ?thesis by (simp add: is_char_boundary_def n)
  next
    case (Cons c cs)
    then have "char_code c < 128" using assms(4) by (simp add: delimiter_def)
    then show ?thesis
      using Cons by (simp add: is_char_boundary_def utf8_cont_def nth_append flip: n)
  qed
  moreover have "take (Suc n) (?e @ rest) = ?e" "drop (Suc n) (?e @ rest) = rest"
    by (simp_all flip: n)
  ultimately show ?thesis using assms(1,2) by (simp add: pct_decode_encode_str)
qed

lemma expand_stops:
  assumes "try_map (expand_part values) ps = Inr out" "stops ps" "separable ps"
  shows "concat out = [] \<or> delimiter (hd (concat out))"
proof (cases ps)
  case Nil
  then show ?thesis using assms(1) by simp
next
  case (Cons p qs)
  then obtain o1 os where o: "expand_part values p = Inr o1" "out = o1 # os"
    using assms(1) by (auto elim: try_map_ConsE simp del: try_map.simps)
  have sep: "delimiter (CHR ''?'')" "delimiter (CHR ''&'')"
    by (simp_all add: delimiter_def is_expansion_safe_def alphanumeric_code)
  show ?thesis
  proof (cases p)
    case (Literal l)
    then show ?thesis using o assms(2) Cons by (auto simp: expand_part_def stops_def)
  next
    case (Simple n)
    then show ?thesis using assms(2) Cons by (simp add: stops_def)
  next
    case (Query ns)
    then show ?thesis
      using o assms(3) Cons sep by (auto simp: expand_part_def dest!: expand_query_Inr)
  next
    case (QueryContinuation ns)
    then show ?thesis
      using o assms(3) Cons sep by (auto simp: expand_part_def dest!: expand_query_Inr)
  qed
qed

lemma names_of_simps [simp]:
  "names_of [] = {}"
  "names_of (p # ps) = set (part_names p) \<union> names_of ps"
  by (simp_all add: names_of_def)

lemma rebind_Nil [simp]: "rebind {} values old = old"
  by (simp add: rebind_def)

lemma rebind_simple:
  "values n = Some v \<Longrightarrow> rebind ns values (old(n \<mapsto> v)) = rebind (insert n ns) values old"
  by (auto simp: rebind_def)

lemma match_parts_expand:
  assumes "try_map (expand_part values) ps = Inr out" "separable ps" "\<forall>v \<in> ran values. str_valid v"
  shows "match_parts ps (concat out) old = (True, rebind (names_of ps) values old)"
  using assms(1,2)
proof (induction ps arbitrary: out old)
  case Nil
  then show ?case by simp
next
  case (Cons p ps)
  then obtain o1 os where o: "expand_part values p = Inr o1" "try_map (expand_part values) ps = Inr os"
      and out: "out = o1 # os"
    by (auto elim: try_map_ConsE simp del: try_map.simps)
  show ?case
  proof (cases p)
    case (Literal l)
    then show ?thesis
      using o Cons.IH [OF o(2)] Cons.prems(2) by (simp add: out expand_part_def part_names_def)
  next
    case (Simple n)
    then obtain v where v: "values n = Some v" "v \<noteq> []" "o1 = pct_encode v"
      using o(1) by (auto simp: expand_part_def and_then_Inr_iff template_lookup_Inr)
    then have "str_valid v" using assms(3) by (auto intro: ranI)
    moreover have "separable ps" "stops ps" using Cons.prems(2) Simple by simp_all
    moreover have "match_parts ps (concat os) (old(n \<mapsto> v))
        = (True, rebind (names_of (p # ps)) values old)"
      using Cons.IH [OF o(2) \<open>separable ps\<close>, of "old(n \<mapsto> v)"]
        rebind_simple [of "values", OF v(1), of "names_of ps" old]
      by (simp only: Simple part_names_def part.case names_of_simps list.set insert_is_Un [symmetric])
    ultimately show ?thesis
      using match_span_longest [OF _ _ v(2), of "match_parts ps" "concat os" old n] v(3)
        expand_stops [OF o(2)]
      by (simp add: out Simple)
  next
    case (Query ns)
    then show ?thesis
      using o Cons.prems(2) match_query_expand [OF _ _ _ assms(3)]
      by (simp add: out expand_part_def part_names_def)
  next
    case (QueryContinuation ns)
    then show ?thesis
      using o Cons.prems(2) match_query_expand [OF _ _ _ assms(3)]
      by (simp add: out expand_part_def part_names_def)
  qed
qed

lemma match_path_expanded:
  assumes "expand_path t values = Inr path"
    and "separable (ut_parts t)"
    and "\<forall>v \<in> ran values. str_valid v"
  shows "match_path t path = Some (values |` names_of (ut_parts t))"
proof -
  from assms(1) obtain out where "try_map (expand_part values) (ut_parts t) = Inr out"
      and "path = concat out"
    by (auto simp: expand_path_def and_then_Inr_iff)
  moreover have "rebind (names_of (ut_parts t)) values Map.empty = values |` names_of (ut_parts t)"
    by (auto simp: rebind_def restrict_map_def)
  ultimately show ?thesis
    using match_parts_expand [of "values" "ut_parts t" out Map.empty] assms(2,3)
    by (simp add: match_path_def)
qed

text \<open>
  C37. Running a template backwards recovers the variables: whenever the template's expressions are
  delimited and expansion of some bindings succeeds, matching the resulting path succeeds and
  returns exactly the values of the template's variables.
\<close>

theorem match_path_inverts_expand_path:
  assumes "expand_path t values = Inr path"
    and "separable (ut_parts t)"
    and "\<forall>v \<in> ran values. str_valid v"
  shows "match_path t path = Some (values |` names_of (ut_parts t))"
  by (rule match_path_expanded [OF assms])

definition sample_template :: uri_template where
  "sample_template =
     \<lparr>ut_scheme = ''https'', ut_authority = ''p.example'',
      ut_parts = [Literal ''/m/'', Simple ''a'', Query [''b'', ''c'']],
      ut_variables = [''a'', ''b'', ''c''], ut_raw = ''https://p.example/m/{a}{?b,c}''\<rparr>"

definition sample_bindings :: bindings where
  "sample_bindings = [''a'' \<mapsto> ''x:y'', ''b'' \<mapsto> ''1'', ''c'' \<mapsto> ''/'']"

lemma sample_expansion:
  "expand_path sample_template sample_bindings = Inr ''/m/x%3Ay?b=1&c=%2F''"
  "separable (ut_parts sample_template)"
  "\<forall>v \<in> ran sample_bindings. str_valid v"
proof -
  show "expand_path sample_template sample_bindings = Inr ''/m/x%3Ay?b=1&c=%2F''" by code_simp
  show "separable (ut_parts sample_template)" by code_simp
  have "str_valid ''x:y''" "str_valid ''1''" "str_valid ''/''" by code_simp+
  then show "\<forall>v \<in> ran sample_bindings. str_valid v"
    by (simp add: ran_map_upd sample_bindings_def)
qed

lemma sample_names: "sample_bindings |` names_of (ut_parts sample_template) = sample_bindings"
  by (rule ext) (simp add: sample_bindings_def sample_template_def restrict_map_def part_names_def)

theorem match_path_inverts_expand_path_witness:
  "match_path sample_template ''/m/x%3Ay?b=1&c=%2F''
     = Some (sample_bindings |` names_of (ut_parts sample_template))"
  by (rule match_path_inverts_expand_path [OF sample_expansion])

subsection \<open>What a match binds\<close>

text \<open>
  The contract of a matcher for some parts: only the parts' names change, bound values are
  non-empty text, and a successful match binds every name.
\<close>

definition good_value :: "string \<Rightarrow> bool" where
  "good_value v \<longleftrightarrow> v \<noteq> [] \<and> str_valid v"

definition good_bindings :: "bindings \<Rightarrow> bool" where
  "good_bindings vs \<longleftrightarrow> (\<forall>x v. vs x = Some v \<longrightarrow> good_value v)"

definition binds :: "string set \<Rightarrow> bindings \<Rightarrow> bool \<times> bindings \<Rightarrow> bool" where
  "binds ns old r \<longleftrightarrow>
     (\<forall>x. x \<notin> ns \<longrightarrow> snd r x = old x) \<and> (good_bindings old \<longrightarrow> good_bindings (snd r)) \<and>
     (fst r \<longrightarrow> ns \<subseteq> dom (snd r))"

lemma pct_decode_bytes_Nil: "pct_decode_bytes s = Some [] \<Longrightarrow> s = []"
  by (cases s) (auto split: if_splits list.splits option.splits)

lemma pct_decode_good: "pct_decode s = Some v \<Longrightarrow> s \<noteq> [] \<Longrightarrow> good_value v"
  by (auto simp: pct_decode_def good_value_def dest: pct_decode_bytes_Nil split: option.splits if_splits)

lemma good_bindings_upd:
  "good_bindings old \<Longrightarrow> good_value v \<Longrightarrow> good_bindings (old(n \<mapsto> v))"
  "good_bindings old \<Longrightarrow> good_bindings (old(n := None))"
  by (auto simp: good_bindings_def)

lemma binds_insert:
  assumes "binds ns (old(n \<mapsto> v)) r" "good_value v"
  shows "binds (insert n ns) old r"
proof -
  have frame: "snd r x = (if x = n then Some v else old x)" if "x \<notin> ns" for x
    using assms(1) that by (simp add: binds_def)
  have "n \<in> dom (snd r)" if "fst r"
    using assms(1) that frame [of n] by (cases "n \<in> ns") (auto simp: binds_def)
  then show ?thesis
    using assms frame by (auto simp: binds_def good_bindings_upd)
qed

lemma match_spans_binds:
  assumes k: "\<And>input old. binds ns old (k input old)" and "n \<le> length input"
  shows "binds (insert name ns) old (match_spans k name input n old)"
  using assms(2)
proof (induction n arbitrary: old)
  case 0
  then show ?case by (simp add: binds_def)
next
  case (Suc n)
  show ?case
  proof (cases "is_char_boundary input (Suc n) \<and> pct_decode (take (Suc n) input) \<noteq> None")
    case False
    then show ?thesis using Suc by auto
  next
    case True
    then obtain v where v: "pct_decode (take (Suc n) input) = Some v" by blast
    then have good: "good_value v" by (rule pct_decode_good) (use Suc in auto)
    obtain b vs where r: "k (drop (Suc n) input) (old(name \<mapsto> v)) = (b, vs)" by fastforce
    then have kb: "binds ns (old(name \<mapsto> v)) (b, vs)" using k [of "old(name \<mapsto> v)"] by metis
    show ?thesis
    proof (cases b)
      case b: True
      have "binds (insert name ns) old (b, vs)" using kb good by (rule binds_insert)
      then show ?thesis using True v r b by simp
    next
      case b: False
      have "binds (insert name ns) (vs(name := None)) (match_spans k name input n (vs(name := None)))"
        using Suc by simp
      then have "binds (insert name ns) old (match_spans k name input n (vs(name := None)))"
        using kb good unfolding binds_def by (auto simp: good_bindings_upd)
      then show ?thesis using True v r b by simp
    qed
  qed
qed

lemma bind_names_binds:
  assumes "\<And>x v. found x = Some v \<Longrightarrow> str_valid v"
  shows "binds (set names) old (bind_names found names old)"
proof (induction names arbitrary: old)
  case Nil
  show ?case by (simp add: binds_def)
next
  case (Cons n ns)
  show ?case
  proof (cases "\<exists>v. found n = Some v \<and> v \<noteq> []")
    case False
    then show ?thesis by (auto simp: binds_def split: option.splits)
  next
    case True
    then obtain v where v: "found n = Some v" "v \<noteq> []" by blast
    define r where "r = bind_names found ns (old(n \<mapsto> v))"
    have "binds (set ns) (old(n \<mapsto> v)) r" unfolding r_def by (rule Cons.IH)
    moreover have "good_value v" using v assms by (simp add: good_value_def)
    ultimately have "binds (insert n (set ns)) old r" by (rule binds_insert)
    then show ?thesis using v by (simp add: r_def)
  qed
qed

lemma query_pairs_valid:
  "query_pairs ps found = Some r \<Longrightarrow> (\<And>x v. found x = Some v \<Longrightarrow> str_valid v) \<Longrightarrow>
     r x = Some v \<Longrightarrow> str_valid v"
  by (induction ps arbitrary: found)
     (fastforce simp: pct_decode_def split: option.splits if_splits)+

lemma match_query_binds: "binds (set names) old (match_query sep names ps input old)"
proof (cases "strip_prefix [sep] input")
  case None
  then show ?thesis by (simp add: match_query_def binds_def)
next
  case (Some q)
  show ?thesis
  proof (cases "query_pairs (split_on (CHR ''&'') q) Map.empty")
    case None
    then show ?thesis by (simp add: match_query_def binds_def Some)
  next
    case (Some found)
    have "binds (set names) old (bind_names found names old)"
      using query_pairs_valid [OF Some] by (intro bind_names_binds) auto
    then show ?thesis
      using \<open>strip_prefix [sep] input = _\<close> Some
      by (auto simp: match_query_def binds_def split: prod.splits bool.splits)
  qed
qed

lemma match_query_last: "fst (match_query sep names ps input old) \<Longrightarrow> ps = []"
  by (auto simp: match_query_def split: option.splits prod.splits bool.splits)

lemma binds_widen:
  "binds ns old r \<Longrightarrow> ns \<subseteq> ms \<Longrightarrow> (fst r \<Longrightarrow> ms \<subseteq> ns) \<Longrightarrow> binds ms old r"
  by (auto simp: binds_def)

lemma match_query_binds_all:
  "binds (set names \<union> names_of ps) old (match_query sep names ps input old)"
  by (rule binds_widen [OF match_query_binds]) (auto dest: match_query_last)

lemma match_parts_binds: "binds (names_of ps) old (match_parts ps input old)"
proof (induction ps arbitrary: input old)
  case Nil
  then show ?case by (simp add: binds_def)
next
  case (Cons p ps)
  show ?case
  proof (cases p)
    case (Literal l)
    then show ?thesis
      using Cons by (auto simp: part_names_def split: option.splits) (simp add: binds_def)
  next
    case (Simple n)
    then show ?thesis
      using match_spans_binds [OF Cons.IH length_takeWhile_le] by (simp add: part_names_def)
  next
    case (Query ns)
    then show ?thesis using match_query_binds_all by (simp add: part_names_def)
  next
    case (QueryContinuation ns)
    then show ?thesis using match_query_binds_all by (simp add: part_names_def)
  qed
qed

lemma collect_variables_Inr:
  "collect_variables vs ns = Inr r \<Longrightarrow> r = vs @ ns \<and> (distinct vs \<longrightarrow> distinct r)"
proof (induction ns arbitrary: vs)
  case (Cons n ns)
  then have "n \<notin> set vs" "collect_variables (vs @ [n]) ns = Inr r" by (auto split: if_splits)
  from Cons.IH [OF this(2)] have r: "r = vs @ n # ns" "distinct (vs @ [n]) \<longrightarrow> distinct r"
    by (simp, blast)
  show ?case
  proof (intro conjI impI)
    show "r = vs @ n # ns" by (rule r(1))
    assume "distinct vs"
    then have "distinct (vs @ [n])" using \<open>n \<notin> set vs\<close> by simp
    then show "distinct r" using r(2) by blast
  qed
qed simp

lemma template_parse_variables:
  assumes "template_parse s = Inr t"
  shows "ut_variables t = concat (map part_names (ut_parts t))" "distinct (ut_variables t)"
  using assms
  by (auto simp: template_parse_def and_then_Inr_iff Let_def
      dest!: collect_variables_Inr split: option.splits if_splits)

text \<open>
  A request path that matches a parsed template binds exactly the template's variables, each
  once, and every bound value is non-empty, well-formed text.
\<close>

theorem match_path_binds_variables:
  assumes "template_parse s = Inr t" and "match_path t path = Some vs"
  shows "dom vs = set (ut_variables t) \<and> distinct (ut_variables t) \<and>
         (\<forall>x v. vs x = Some v \<longrightarrow> v \<noteq> [] \<and> str_valid v)"
proof -
  have "match_parts (ut_parts t) path Map.empty = (True, vs)"
    using assms(2) by (auto simp: match_path_def split: prod.splits bool.splits)
  then have b: "binds (names_of (ut_parts t)) Map.empty (True, vs)"
    using match_parts_binds [of "ut_parts t" Map.empty path] by simp
  then have "dom vs = names_of (ut_parts t)" by (fastforce simp: binds_def)
  moreover have "good_bindings vs" using b by (simp add: binds_def good_bindings_def)
  ultimately show ?thesis
    using template_parse_variables [OF assms(1)]
    by (auto simp: names_of_def good_bindings_def good_value_def)
qed

theorem match_path_binds_variables_witness:
  "dom sample_bindings = set (ut_variables sample_template) \<and> distinct (ut_variables sample_template)"
proof -
  have "template_parse ''https://p.example/m/{a}{?b,c}'' = Inr sample_template" by code_simp
  moreover have "match_path sample_template ''/m/x%3Ay?b=1&c=%2F'' = Some sample_bindings"
    using match_path_expanded [OF sample_expansion] by (simp add: sample_names)
  ultimately show ?thesis using match_path_binds_variables by blast
qed

subsection \<open>The default templates\<close>

definition authority_char :: "char \<Rightarrow> bool" where
  "authority_char c \<longleftrightarrow> 0x21 \<le> char_code c \<and> char_code c \<le> 0x7e \<and> c \<noteq> CHR ''/'' \<and> c \<noteq> CHR ''{''"

lemma find_bad_template_char:
  assumes "list_all (\<lambda>c. 0x21 \<le> char_code c \<and> char_code c \<le> 0x7e) s"
  shows "find_first (\<lambda>u. \<not> template_char u) (str_chars s) = None"
proof -
  have "is_ascii_str s" using assms by (auto simp: is_ascii_str_def list_all_iff)
  then show ?thesis
    using assms by (auto simp: str_chars_ascii find_first_None_iff template_char_def list_all_iff)
qed

lemma well_known_path:
  assumes "list_all authority_char a" "a \<noteq> []"
    and "list_all (\<lambda>c. 0x21 \<le> char_code c \<and> char_code c \<le> 0x7e) path"
    and "parse_parts (CHR ''/'' # path) = Inr parts"
    and "collect_variables [] (concat (map part_names parts)) = Inr vars"
  shows "template_parse (''https://'' @ a @ CHR ''/'' # path) =
    Inr \<lparr>ut_scheme = ''https'', ut_authority = a, ut_parts = parts, ut_variables = vars,
         ut_raw = ''https://'' @ a @ CHR ''/'' # path\<rparr>"
proof -
  let ?s = "''https://'' @ a @ CHR ''/'' # path"
  have a: "c \<noteq> CHR ''/''" "c \<noteq> CHR ''{''" "0x21 \<le> char_code c" "char_code c \<le> 0x7e" if "c \<in> set a" for c
    using assms(1) that by (auto simp: list_all_iff authority_char_def)
  have "find_first (\<lambda>u. \<not> template_char u) (str_chars ?s) = None"
    using a assms(3) by (intro find_bad_template_char) (auto simp: list_all_iff)
  moreover have "split_once_str ''://'' ?s = Some (''https'', a @ CHR ''/'' # path)"
    by (simp add: strip_prefix_def)
  moreover have "takeWhile (\<lambda>c. c \<noteq> CHR ''/'') (a @ CHR ''/'' # path) = a"
    "dropWhile (\<lambda>c. c \<noteq> CHR ''/'') (a @ CHR ''/'' # path) = CHR ''/'' # path"
    using a(1) by (auto simp: takeWhile_append dropWhile_append)
  moreover have "CHR ''{'' \<notin> set a" using a(2) by auto
  moreover have "starts_with (CHR ''/'' # path) ''/''" by (simp add: starts_with_iff)
  ultimately show ?thesis
    using assms(2,4,5) unfolding template_parse_def by (simp add: Let_def)
qed

definition well_known_parts :: "string \<Rightarrow> string \<Rightarrow> string \<Rightarrow> part list" where
  "well_known_parts protocol a b =
     [Literal (''/.well-known/masque/'' @ protocol @ ''/''), Simple a, Literal ''/'', Simple b,
      Literal ''/'']"

lemma well_known_parts_separable: "separable (well_known_parts protocol a b)"
  by (simp add: well_known_parts_def stops_def delimiter_def is_expansion_safe_def alphanumeric_code)

lemma well_known_parts_names [simp]: "names_of (well_known_parts protocol a b) = {a, b}"
  by (auto simp: well_known_parts_def part_names_def)

lemma default_connect_udp_Inr:
  assumes "list_all authority_char a" "a \<noteq> []"
  shows "\<exists>t. default_connect_udp a = Inr t \<and> ut_authority t = a \<and>
    ut_parts t = well_known_parts ''udp'' ''target_host'' ''target_port'' \<and>
    ut_variables t = CONNECT_UDP_VARIABLES"
proof -
  have "parse_parts (CHR ''/'' # ''.well-known/masque/udp/{target_host}/{target_port}/'') =
      Inr (well_known_parts ''udp'' ''target_host'' ''target_port'')"
    by code_simp
  from well_known_path [OF assms _ this, of CONNECT_UDP_VARIABLES] show ?thesis
    by (simp add: default_connect_udp_def well_known_parts_def part_names_def CONNECT_UDP_VARIABLES_def)
qed

lemma default_connect_tcp_Inr:
  assumes "list_all authority_char a" "a \<noteq> []"
  shows "\<exists>t. default_connect_tcp a = Inr t \<and> ut_authority t = a \<and>
    ut_parts t = well_known_parts ''tcp'' ''target_host'' ''target_port'' \<and>
    ut_variables t = CONNECT_TCP_VARIABLES"
proof -
  have "parse_parts (CHR ''/'' # ''.well-known/masque/tcp/{target_host}/{target_port}/'') =
      Inr (well_known_parts ''tcp'' ''target_host'' ''target_port'')"
    by code_simp
  from well_known_path [OF assms _ this, of CONNECT_TCP_VARIABLES] show ?thesis
    by (simp add: default_connect_tcp_def well_known_parts_def part_names_def CONNECT_TCP_VARIABLES_def)
qed

lemma default_connect_ip_Inr:
  assumes "list_all authority_char a" "a \<noteq> []"
  shows "\<exists>t. default_connect_ip a = Inr t \<and> ut_authority t = a \<and>
    ut_parts t = well_known_parts ''ip'' ''target'' ''ipproto'' \<and>
    ut_variables t = CONNECT_IP_VARIABLES"
proof -
  have "parse_parts (CHR ''/'' # ''.well-known/masque/ip/{target}/{ipproto}/'') =
      Inr (well_known_parts ''ip'' ''target'' ''ipproto'')"
    by code_simp
  from well_known_path [OF assms _ this, of CONNECT_IP_VARIABLES] show ?thesis
    by (simp add: default_connect_ip_def well_known_parts_def part_names_def CONNECT_IP_VARIABLES_def)
qed

end
