(* ===== verification/Target.thy ===== *)
theory Target
  imports Template Rust_Net_V6
begin

text \<open>
  The target of a proxying request (\<^verbatim>\<open>skimasque-core/src/target.rs\<close>) and the proxying modes
  (\<^verbatim>\<open>skimasque-core/src/lib.rs\<close>): host validation, the two ways a target reaches the proxy (the
  authority form and the path of a template) and the path a client builds for it.
\<close>

datatype target_error =
    EmptyHost
  | InvalidPort string
  | ZoneIdentifier string
  | IllegalHost string
  | PathDoesNotMatch string
  | TemplateError template_error

datatype target_host = Ip ip_addr | Name string

record target =
  tg_host :: target_host
  tg_port :: u16

definition host_illegal :: "string \<Rightarrow> bool" where
  "host_illegal u \<longleftrightarrow>
     char_is_whitespace u \<or> char_is_control u \<or> u \<in> (\<lambda>c. [c]) ` set ''/?#[]@:''"

text \<open>The brackets come off only together.\<close>

definition host_unbracket :: "string \<Rightarrow> string" where
  "host_unbracket host =
     (case Option.bind (strip_prefix ''['' host) (strip_suffix '']'') of
        Some inner \<Rightarrow> inner
      | None \<Rightarrow> host)"

definition target_host_parse :: "string \<Rightarrow> target_error + target_host" where
  "target_host_parse host =
     (if host = [] then Inl EmptyHost
      else if CHR ''%'' \<in> set host then Inl (ZoneIdentifier host)
      else
        (let unbracketed = host_unbracket host
         in case parse_ip unbracketed of
              Some ip \<Rightarrow> Inr (Ip ip)
            | None \<Rightarrow>
                if list_ex host_illegal (str_chars unbracketed) then Inl (IllegalHost host)
                else Inr (Name unbracketed)))"

definition to_variable :: "target_host \<Rightarrow> string" where
  "to_variable h = (case h of Ip ip \<Rightarrow> display_ip ip | Name name \<Rightarrow> name)"

definition target_host_display :: "target_host \<Rightarrow> string" where
  "target_host_display h =
     (case h of
        Ip (V6 ip) \<Rightarrow> ''['' @ display_ipv6 ip @ '']''
      | Ip (V4 ip) \<Rightarrow> display_ipv4 ip
      | Name name \<Rightarrow> name)"

definition target_new :: "target_host \<Rightarrow> u16 \<Rightarrow> target_error + target" where
  "target_new host port =
     (if port = 0 then Inl (InvalidPort ''0'') else Inr \<lparr>tg_host = host, tg_port = port\<rparr>)"

definition target_split :: "string \<Rightarrow> target_error + (string \<times> string)" where
  "target_split input =
     (case rsplit_once_at (CHR '']'') input of
        Some (before, rest) \<Rightarrow>
          and_then (ok_or (InvalidPort rest) (strip_prefix '':'' rest)) (\<lambda>port.
            Inr (before @ '']'', port))
      | None \<Rightarrow> ok_or (InvalidPort []) (rsplit_once_at (CHR '':'') input))"

definition target_parse :: "string \<Rightarrow> target_error + target" where
  "target_parse input =
     and_then (target_split input) (\<lambda>(host, port).
     and_then (ok_or (InvalidPort port) (parse_u16 port)) (\<lambda>p.
     and_then (target_host_parse host) (\<lambda>h. target_new h p)))"

definition target_expand_path :: "target \<Rightarrow> uri_template \<Rightarrow> target_error + string" where
  "target_expand_path tg t =
     map_err TemplateError (expand_path t
       [''target_host'' \<mapsto> to_variable (tg_host tg), ''target_port'' \<mapsto> nat_to_string (unat (tg_port tg))])"

definition target_from_path :: "uri_template \<Rightarrow> string \<Rightarrow> target_error + target" where
  "target_from_path t path =
     and_then (ok_or (PathDoesNotMatch path) (match_path t path)) (\<lambda>values.
     and_then (ok_or (PathDoesNotMatch path) (values ''target_host'')) (\<lambda>host.
     and_then (ok_or (PathDoesNotMatch path) (values ''target_port'')) (\<lambda>port.
     and_then (ok_or (InvalidPort port) (parse_u16 port)) (\<lambda>p.
     and_then (target_host_parse host) (\<lambda>h. target_new h p)))))"

definition target_display :: "target \<Rightarrow> string" where
  "target_display tg = target_host_display (tg_host tg) @ '':'' @ nat_to_string (unat (tg_port tg))"

subsection \<open>Proxying modes\<close>

datatype protocol = ConnectUdp | ConnectTcp | ConnectIp

definition upgrade_token :: "protocol \<Rightarrow> string" where
  "upgrade_token p =
     (case p of ConnectUdp \<Rightarrow> ''connect-udp'' | ConnectTcp \<Rightarrow> ''connect-tcp'' | ConnectIp \<Rightarrow> ''connect-ip'')"

definition default_template :: "protocol \<Rightarrow> string \<Rightarrow> template_error + uri_template" where
  "default_template p proxy_authority =
     (case p of
        ConnectUdp \<Rightarrow> default_connect_udp proxy_authority
      | ConnectTcp \<Rightarrow> default_connect_tcp proxy_authority
      | ConnectIp \<Rightarrow> default_connect_ip proxy_authority)"

definition protocol_from_str :: "string \<Rightarrow> string + protocol" where
  "protocol_from_str token =
     (if token = ''connect-udp'' then Inr ConnectUdp
      else if token = ''connect-tcp'' then Inr ConnectTcp
      else if token = ''connect-ip'' then Inr ConnectIp
      else Inl token)"

definition capsule_protocol_enabled :: "string \<Rightarrow> bool" where
  "capsule_protocol_enabled v \<longleftrightarrow> str_trim v = ''?1''"

subsection \<open>Hosts\<close>

lemma host_unbracket_subset: "set (host_unbracket s) \<subseteq> set s"
  by (auto simp: host_unbracket_def split: option.splits bind_splits dest!: strip_prefix_SomeD strip_suffix_SomeD)

lemma host_unbracket_plain: "s = [] \<or> hd s \<noteq> CHR ''['' \<Longrightarrow> host_unbracket s = s"
  by (cases s) (auto simp: host_unbracket_def strip_prefix_def)

lemma host_unbracket_brackets [simp]: "host_unbracket (CHR ''['' # s @ '']'') = s"
  by (simp add: host_unbracket_def strip_prefix_Cons)

lemma str_valid_host_unbracket:
  assumes "str_valid s"
  shows "str_valid (host_unbracket s)"
proof (cases "Option.bind (strip_prefix ''['' s) (strip_suffix '']'')")
  case None
  then show ?thesis using assms by (simp add: host_unbracket_def)
next
  case (Some inner)
  then have "s = CHR ''['' # inner @ '']''"
    by (auto split: bind_splits dest!: strip_prefix_SomeD strip_suffix_SomeD)
  then show ?thesis using assms utf8_valid_snoc [of "map char_code inner"] by (simp add: str_valid_def)
qed

text \<open>A host the parser can produce from text, other than the empty name.\<close>

definition host_ok :: "target_host \<Rightarrow> bool" where
  "host_ok h \<longleftrightarrow> h \<noteq> Name [] \<and> (\<exists>s. str_valid s \<and> target_host_parse s = Inr h)"

lemma display_ip_addr_chars: "list_all addr_char (display_ip ip)"
  by (cases ip) (simp_all add: display_ip_def display_ipv4_chars display_ipv6_chars)

lemma addr_char_plain:
  "addr_char c \<Longrightarrow> char_code c < 128 \<and> c \<notin> set ''%[]/?#@''"
  by (auto simp: addr_char_def is_hex_digit_def is_ascii_digit_def)

lemma display_ip_plain: "c \<in> set (display_ip ip) \<Longrightarrow> char_code c < 128 \<and> c \<notin> set ''%[]/?#@''"
  using display_ip_addr_chars [of ip] addr_char_plain by (simp add: list_all_iff)

lemma display_ip_nonempty: "display_ip ip \<noteq> []"
  by (cases ip) (simp_all add: display_ip_def)

lemma target_host_parse_Ip: "target_host_parse (display_ip ip) = Inr (Ip ip)"
proof -
  have "CHR ''%'' \<notin> set (display_ip ip)" "hd (display_ip ip) \<noteq> CHR ''[''"
    using display_ip_plain [of _ ip] hd_in_set [OF display_ip_nonempty [of ip]] by fastforce+
  then show ?thesis
    by (simp add: target_host_parse_def display_ip_nonempty host_unbracket_plain parse_ip_display)
qed

lemma target_host_parse_Name:
  assumes "target_host_parse s = Inr (Name n)" "str_valid s"
  shows "str_valid n" "CHR ''%'' \<notin> set n" "parse_ip n = None"
    "\<not> list_ex host_illegal (str_chars n)" "n = host_unbracket s"
  using assms host_unbracket_subset [of s] str_valid_host_unbracket [OF assms(2)]
  by (auto simp: target_host_parse_def Let_def split: if_splits option.splits)

lemma legal_name_chars:
  assumes "str_valid n" "\<not> list_ex host_illegal (str_chars n)" "c \<in> set n"
  shows "c \<notin> set ''/?#[]@:''"
proof
  assume c: "c \<in> set ''/?#[]@:''"
  then have "char_code c < 128" by auto
  then have "[c] \<in> set (str_chars n)" using assms by (intro str_chars_has_ascii)
  moreover have "host_illegal [c]" using c by (auto simp: host_illegal_def)
  ultimately show False using assms(2) by (auto simp: list_ex_iff)
qed

lemma host_ok_variable:
  assumes "host_ok h"
  shows "target_host_parse (to_variable h) = Inr h" "str_valid (to_variable h)" "to_variable h \<noteq> []"
proof -
  obtain s where s: "str_valid s" "target_host_parse s = Inr h" and ne: "h \<noteq> Name []"
    using assms by (auto simp: host_ok_def)
  have "target_host_parse (to_variable h) = Inr h \<and> str_valid (to_variable h) \<and> to_variable h \<noteq> []"
  proof (cases h)
    case (Ip ip)
    have "is_ascii_str (display_ip ip)"
      using display_ip_plain [of _ ip] by (simp add: is_ascii_str_def list_all_iff)
    then show ?thesis
      by (simp add: Ip to_variable_def target_host_parse_Ip display_ip_nonempty str_valid_ascii)
  next
    case (Name n)
    then have n: "target_host_parse s = Inr (Name n)" using s(2) by simp
    note facts = target_host_parse_Name [OF n s(1)]
    have "n \<noteq> []" using ne Name by simp
    moreover have "hd n \<noteq> CHR ''[''"
      using legal_name_chars [OF facts(1,4), of "hd n"] \<open>n \<noteq> []\<close> by auto
    ultimately show ?thesis
      using facts by (simp add: Name to_variable_def target_host_parse_def host_unbracket_plain)
  qed
  then show "target_host_parse (to_variable h) = Inr h" "str_valid (to_variable h)"
    "to_variable h \<noteq> []" by auto
qed

subsection \<open>Round trips\<close>

definition target_bindings :: "target \<Rightarrow> bindings" where
  "target_bindings tg =
     [''target_host'' \<mapsto> to_variable (tg_host tg), ''target_port'' \<mapsto> nat_to_string (unat (tg_port tg))]"

lemma nat_to_string_valid: "str_valid (nat_to_string n)"
  using nat_to_string_digits [of n]
  by (intro str_valid_ascii) (auto simp: is_ascii_str_def list_all_iff is_ascii_digit_def)

lemma target_from_expanded:
  assumes "separable (ut_parts t)" "{''target_host'', ''target_port''} \<subseteq> names_of (ut_parts t)"
    "host_ok (tg_host tg)" "tg_port tg \<noteq> 0"
    "target_expand_path tg t = Inr path"
  shows "target_from_path t path = Inr tg"
proof -
  have "\<forall>v \<in> ran (target_bindings tg). str_valid v"
    using host_ok_variable(2) [OF assms(3)]
    by (auto simp: target_bindings_def ran_def nat_to_string_valid split: if_splits)
  moreover have "expand_path t (target_bindings tg) = Inr path"
    using assms(5) by (simp add: target_expand_path_def target_bindings_def)
  ultimately have "match_path t path = Some (target_bindings tg |` names_of (ut_parts t))"
    by (intro match_path_expanded assms(1))
  then show ?thesis
    using assms(2-4) host_ok_variable(1) [OF assms(3)]
    by (simp add: target_from_path_def target_bindings_def target_new_def)
qed

lemma target_expand_total:
  assumes "ut_parts t = well_known_parts protocol ''target_host'' ''target_port''"
    "host_ok (tg_host tg)"
  shows "\<exists>path. target_expand_path tg t = Inr path"
  using host_ok_variable(3) [OF assms(2)]
  by (simp add: target_expand_path_def expand_path_def assms(1) well_known_parts_def
      expand_part_def template_lookup_def)

text \<open>
  A target survives the trip through the default templates: for CONNECT-UDP and CONNECT-TCP and
  every legal proxy authority the default template parses, has the two required variables, expands
  to a path for every target, and the proxy recovers that target from the path.
\<close>

lemma target_path_roundtrip:
  assumes "p = ConnectUdp \<or> p = ConnectTcp"
    and "list_all authority_char a" "a \<noteq> []"
    and "host_ok (tg_host tg)" "tg_port tg \<noteq> 0"
  shows "\<exists>t path. default_template p a = Inr t \<and> ut_authority t = a \<and>
           require_variables t [''target_host'', ''target_port''] = Inr () \<and>
           target_expand_path tg t = Inr path \<and> target_from_path t path = Inr tg"
proof -
  obtain t q where t: "default_template p a = Inr t" "ut_authority t = a"
    "ut_parts t = well_known_parts q ''target_host'' ''target_port''"
    "ut_variables t = [''target_host'', ''target_port'']"
    using assms(1) default_connect_udp_Inr [OF assms(2,3)] default_connect_tcp_Inr [OF assms(2,3)]
    by (auto simp: default_template_def CONNECT_UDP_VARIABLES_def CONNECT_TCP_VARIABLES_def)
  obtain path where path: "target_expand_path tg t = Inr path"
    using target_expand_total [OF t(3) assms(4)] by blast
  moreover have "target_from_path t path = Inr tg"
    using assms(4,5) path by (intro target_from_expanded) (simp_all add: t(3) well_known_parts_separable)
  moreover have "require_variables t [''target_host'', ''target_port''] = Inr ()"
    by (simp add: require_variables_def t(4))
  ultimately show ?thesis using t by blast
qed

lemma display_split:
  "CHR '']'' \<notin> set h \<Longrightarrow> CHR '':'' \<notin> set p \<Longrightarrow> CHR '']'' \<notin> set p \<Longrightarrow>
     target_split (h @ '':'' @ p) = Inr (h, p)"
  "CHR '']'' \<notin> set p \<Longrightarrow> target_split (''['' @ h @ '']'' @ '':'' @ p) = Inr (''['' @ h @ '']'', p)"
proof -
  assume "CHR '']'' \<notin> set h" "CHR '':'' \<notin> set p" "CHR '']'' \<notin> set p"
  then have "rsplit_once_at (CHR '']'') (h @ CHR '':'' # p) = None"
    "rsplit_once_at (CHR '':'') (h @ CHR '':'' # p) = Some (h, p)"
    by (simp_all add: rsplit_once_at_None_iff rsplit_once_at_append)
  then show "target_split (h @ '':'' @ p) = Inr (h, p)" by (simp add: target_split_def)
next
  assume "CHR '']'' \<notin> set p"
  then have "rsplit_once_at (CHR '']'') ((''['' @ h) @ CHR '']'' # (CHR '':'' # p))
      = Some (''['' @ h, CHR '':'' # p)"
    by (intro rsplit_once_at_append) simp
  then show "target_split (''['' @ h @ '']'' @ '':'' @ p) = Inr (''['' @ h @ '']'', p)"
    by (simp add: target_split_def strip_prefix_Cons)
qed

lemma port_digits_plain: "c \<in> set (nat_to_string n) \<Longrightarrow> c \<noteq> CHR '':'' \<and> c \<noteq> CHR '']''"
  using nat_to_string_digits [of n] by (auto simp: list_all_iff is_ascii_digit_def)

lemma target_split_display:
  assumes "host_ok h"
  shows "target_split (target_host_display h @ '':'' @ nat_to_string n)
           = Inr (target_host_display h, nat_to_string n)"
proof (cases h)
  case (Name m)
  obtain s where s: "str_valid s" "target_host_parse s = Inr (Name m)"
    using assms by (auto simp: host_ok_def Name)
  have "CHR '']'' \<notin> set m"
    using target_host_parse_Name [OF s(2,1)] legal_name_chars by fastforce
  then show ?thesis
    using display_split(1) [of m "nat_to_string n"] port_digits_plain [of _ n]
    by (auto simp: Name target_host_display_def)
next
  case (Ip ip)
  have p: "CHR '':'' \<notin> set (nat_to_string n)" "CHR '']'' \<notin> set (nat_to_string n)"
    using port_digits_plain [of _ n] by auto
  show ?thesis
  proof (cases ip)
    case (V4 w)
    have "CHR '']'' \<notin> set (display_ipv4 w)"
      using display_ip_plain [of "CHR '']''" "V4 w"] by (auto simp: display_ip_def)
    then show ?thesis
      using display_split(1) [OF _ p] by (simp add: Ip V4 target_host_display_def)
  next
    case (V6 w)
    then show ?thesis
      using display_split(2) [OF p(2), of "display_ipv6 w"] by (simp add: Ip target_host_display_def)
  qed
qed

lemma target_host_parse_display:
  assumes "host_ok h"
  shows "target_host_parse (target_host_display h) = Inr h"
proof -
  have "target_host_parse (''['' @ display_ipv6 w @ '']'') = Inr (Ip (V6 w))" for w
    using display_ip_plain [of "CHR ''%''" "V6 w"]
    by (auto simp: target_host_parse_def display_ip_def)
  then show ?thesis
    using host_ok_variable(1) [OF assms]
    by (auto simp: target_host_display_def to_variable_def display_ip_def
        split: target_host.splits ip_addr.splits)
qed

text \<open>
  The printed form of a target parses back to it: IPv4 literals and names as they are, IPv6
  literals in brackets, so the port is never confused with the last group of an address.
\<close>

lemma target_display_roundtrip:
  assumes "host_ok (tg_host tg)" "tg_port tg \<noteq> 0"
  shows "target_parse (target_display tg) = Inr tg"
  using target_split_display [OF assms(1)] target_host_parse_display [OF assms(1)] assms(2)
  by (simp add: target_parse_def target_display_def target_new_def)

text \<open>
  Empty brackets pass the emptiness check, which looks at the host before the brackets come off,
  and yield a target with an empty name.
\<close>

lemma empty_brackets_accepted:
  "target_parse ''[]:80'' = Inr \<lparr>tg_host = Name [], tg_port = 80\<rparr>"
proof -
  have "target_split ''[]:80'' = Inr (''[]'', ''80'')" by code_simp
  moreover have "target_host_parse ''[]'' = Inr (Name [])" by code_simp
  moreover have "parse_u16 ''80'' = Some 80"
    by (simp add: parse_u16_def parse_unsigned_def is_ascii_digit_def digits_val_def digit_val_def)
  ultimately show ?thesis by (simp add: target_parse_def target_new_def)
qed

end
