(* ===== verification/Datagram.thy ===== *)
theory Datagram
  imports Varint
begin

text \<open>
  HTTP Datagrams and context ids, \<^verbatim>\<open>src/crates/skimasque-core/src/datagram.rs\<close>, and the
  CONNECT-UDP payload format of \<^verbatim>\<open>connect_udp.rs\<close>. \<open>None\<close> is the panic of an
  \<^verbatim>\<open>expect\<close>.
\<close>

definition MAX_QUARTER_STREAM_ID :: u64 where
  "MAX_QUARTER_STREAM_ID = push_bit 60 1 - 1"

datatype datagram_error =
    NotARequestStream u64
  | QuarterStreamIdTooLarge u64
  | Truncated string
  | ContextIdTooLarge u64

datatype quarter_stream_id = QuarterStreamId (quarter_get: u64)

definition from_stream_id :: "u64 \<Rightarrow> datagram_error + quarter_stream_id" where
  "from_stream_id stream_id =
     (if stream_id mod 4 \<noteq> 0 then Inl (NotARequestStream stream_id)
      else Inr (QuarterStreamId (stream_id div 4)))"

definition from_quarter :: "u64 \<Rightarrow> datagram_error + quarter_stream_id" where
  "from_quarter quarter =
     (if quarter > MAX_QUARTER_STREAM_ID then Inl (QuarterStreamIdTooLarge quarter)
      else Inr (QuarterStreamId quarter))"

definition stream_id :: "quarter_stream_id \<Rightarrow> u64" where
  "stream_id q = quarter_get q * 4"

definition encode_http3_datagram :: "quarter_stream_id \<Rightarrow> bytes \<Rightarrow> bytes option" where
  "encode_http3_datagram stream payload =
     (case varint_encode (quarter_get stream) [] of
        Inl _ \<Rightarrow> None
      | Inr out \<Rightarrow> Some (out @ payload))"

definition decode_http3_datagram :: "bytes \<Rightarrow> datagram_error + (quarter_stream_id \<times> bytes)" where
  "decode_http3_datagram buf =
     (case varint_take buf of
        (Inl _, _) \<Rightarrow> Inl (Truncated ''quarter stream id'')
      | (Inr quarter, buf') \<Rightarrow>
          (case from_quarter quarter of Inl e \<Rightarrow> Inl e | Inr q \<Rightarrow> Inr (q, buf')))"

datatype context_id = ContextId (context_get: u64)

definition context_DEFAULT :: context_id where
  "context_DEFAULT = ContextId 0"

definition context_new :: "u64 \<Rightarrow> datagram_error + context_id" where
  "context_new v = (if v > varint_MAX then Inl (ContextIdTooLarge v) else Inr (ContextId v))"

definition context_is_default :: "context_id \<Rightarrow> bool" where
  "context_is_default c \<longleftrightarrow> context_get c = 0"

datatype allocator = Client | Proxy

definition context_allocator :: "context_id \<Rightarrow> allocator option" where
  "context_allocator c =
     (if context_get c = 0 then None
      else if context_get c mod 2 = 0 then Some Client
      else Some Proxy)"

record context_allocator_state =
  ca_next :: u64

definition allocator_new :: "allocator \<Rightarrow> context_allocator_state" where
  "allocator_new a = \<lparr>ca_next = (case a of Client \<Rightarrow> 2 | Proxy \<Rightarrow> 1)\<rparr>"

definition u64_saturating_add :: "u64 \<Rightarrow> u64 \<Rightarrow> u64" where
  "u64_saturating_add a b = (if unat a + unat b < 2 ^ 64 then a + b else - 1)"

definition allocate :: "context_allocator_state \<Rightarrow> context_id option \<times> context_allocator_state" where
  "allocate s =
     (if ca_next s > varint_MAX then (None, s)
      else (Some (ContextId (ca_next s)), s\<lparr>ca_next := u64_saturating_add (ca_next s) 2\<rparr>))"

record proxying_payload =
  pp_context :: context_id
  pp_payload :: bytes

definition default_context :: "bytes \<Rightarrow> proxying_payload" where
  "default_context payload = \<lparr>pp_context = context_DEFAULT, pp_payload = payload\<rparr>"

definition payload_encode_into :: "proxying_payload \<Rightarrow> bytes \<Rightarrow> bytes option" where
  "payload_encode_into p out =
     (case varint_encode (context_get (pp_context p)) out of
        Inl _ \<Rightarrow> None
      | Inr out' \<Rightarrow> Some (out' @ pp_payload p))"

definition payload_encode :: "proxying_payload \<Rightarrow> bytes option" where
  "payload_encode p = payload_encode_into p []"

definition payload_decode :: "bytes \<Rightarrow> datagram_error + proxying_payload" where
  "payload_decode buf =
     (case varint_take buf of
        (Inl _, _) \<Rightarrow> Inl (Truncated ''context id'')
      | (Inr context, buf') \<Rightarrow>
          (case context_new context of
             Inl e \<Rightarrow> Inl e
           | Inr c \<Rightarrow> Inr \<lparr>pp_context = c, pp_payload = buf'\<rparr>))"

subsection \<open>CONNECT-UDP payloads\<close>

datatype incoming = UdpPayload bytes | UnknownContext context_id bytes

definition encode_payload :: "bytes \<Rightarrow> bytes option" where
  "encode_payload udp_payload = payload_encode (default_context udp_payload)"

definition udp_decode_payload :: "bytes \<Rightarrow> datagram_error + incoming" where
  "udp_decode_payload payload =
     (case payload_decode payload of
        Inl e \<Rightarrow> Inl e
      | Inr p \<Rightarrow> Inr (if context_is_default (pp_context p) then UdpPayload (pp_payload p)
                       else UnknownContext (pp_context p) (pp_payload p)))"

subsection \<open>Framing facts\<close>

lemma varint_take_bytes:
  "unat v < 2 ^ 62 \<Longrightarrow> varint_take (varint_bytes v @ rest) = (Inr v, rest)"
  by (simp add: varint_take_def varint_roundtrip flip: varint_bytes_length)

lemma quarter_fits: "\<not> q > MAX_QUARTER_STREAM_ID \<longleftrightarrow> unat q < 2 ^ 60"
  by (auto simp: MAX_QUARTER_STREAM_ID_def word_less_nat_alt not_less)

lemma context_fits: "\<not> c > varint_MAX \<longleftrightarrow> unat c < 2 ^ 62"
  by (simp add: varint_MAX_le)

lemma payload_encode_eq:
  "unat (context_get (pp_context p)) < 2 ^ 62 \<Longrightarrow>
    payload_encode p = Some (varint_bytes (context_get (pp_context p)) @ pp_payload p)"
  by (simp add: payload_encode_def payload_encode_into_def varint_encode_Inr)

lemma payload_decode_eq:
  "unat c < 2 ^ 62 \<Longrightarrow>
    payload_decode (varint_bytes c @ b) = Inr \<lparr>pp_context = ContextId c, pp_payload = b\<rparr>"
  by (simp add: payload_decode_def varint_take_bytes context_new_def varint_MAX_le)

lemma decode_http3_eq:
  "unat q < 2 ^ 60 \<Longrightarrow>
    decode_http3_datagram (varint_bytes q @ b) = Inr (QuarterStreamId q, b)"
  using quarter_fits [of q]
  by (simp add: decode_http3_datagram_def varint_take_bytes from_quarter_def)

lemma from_stream_id_multiple:
  assumes "s mod 4 = 0"
  shows "from_stream_id s = Inr (QuarterStreamId (s div 4))"
    and "stream_id (QuarterStreamId (s div 4)) = s"
    and "unat (s div 4) = unat s div 4"
proof -
  show "from_stream_id s = Inr (QuarterStreamId (s div 4))"
    using assms by (simp add: from_stream_id_def)
  show "stream_id (QuarterStreamId (s div 4)) = s"
    using div_mult_mod_eq [of s 4] assms by (simp add: stream_id_def)
  show "unat (s div 4) = unat s div 4" by (simp add: unat_div_distrib)
qed

subsection \<open>Allocation of context ids\<close>

fun allocate_many :: "nat \<Rightarrow> context_allocator_state \<Rightarrow> context_id list" where
  "allocate_many 0 s = []"
| "allocate_many (Suc n) s =
     (case allocate s of
        (None, _) \<Rightarrow> []
      | (Some c, s') \<Rightarrow> c # allocate_many n s')"

text \<open>The next id belongs to the allocator's half of the id space.\<close>

definition allocator_inv :: "allocator \<Rightarrow> context_allocator_state \<Rightarrow> bool" where
  "allocator_inv a s \<longleftrightarrow>
     0 < unat (ca_next s) \<and> unat (ca_next s) < 2 ^ 62 + 2 \<and>
     (unat (ca_next s) mod 2 = 0 \<longleftrightarrow> a = Client)"

lemma allocator_inv_new: "allocator_inv a (allocator_new a)"
  by (cases a) (simp_all add: allocator_inv_def allocator_new_def)

lemma allocate_SomeD:
  assumes "allocator_inv a s" "allocate s = (Some c, s')"
  shows "c = ContextId (ca_next s)" "unat (ca_next s) < 2 ^ 62"
    "unat (ca_next s') = unat (ca_next s) + 2" "allocator_inv a s'"
proof -
  show c: "c = ContextId (ca_next s)" and lt: "unat (ca_next s) < 2 ^ 62"
    using assms(2) by (auto simp: allocate_def varint_MAX_le split: if_splits)
  have "s' = s\<lparr>ca_next := ca_next s + 2\<rparr>"
    using assms(2) lt by (auto simp: allocate_def u64_saturating_add_def split: if_splits)
  moreover have "unat (ca_next s + 2) = unat (ca_next s) + 2"
    using lt unat_add_lem [of "ca_next s" 2] by simp
  ultimately show n: "unat (ca_next s') = unat (ca_next s) + 2" by simp
  show "allocator_inv a s'" using assms(1) lt by (simp add: allocator_inv_def n)
qed

lemma allocate_owner:
  "allocator_inv a s \<Longrightarrow> context_allocator (ContextId (ca_next s)) = Some a"
proof -
  assume inv: "allocator_inv a s"
  then have "ca_next s \<noteq> 0" by (auto simp: allocator_inv_def)
  moreover have "ca_next s mod 2 = 0 \<longleftrightarrow> unat (ca_next s) mod 2 = 0"
    by (simp add: word_unat_eq_iff unat_mod_distrib)
  ultimately show ?thesis using inv by (cases a) (auto simp: context_allocator_def allocator_inv_def)
qed

lemma allocate_many_props:
  "allocator_inv a s \<Longrightarrow>
     (\<forall>c \<in> set (allocate_many n s). context_allocator c = Some a \<and> context_new (context_get c) = Inr c \<and>
        unat (ca_next s) \<le> unat (context_get c)) \<and>
     sorted_wrt (\<lambda>c d. unat (context_get c) < unat (context_get d)) (allocate_many n s)"
proof (induction n arbitrary: s)
  case 0
  show ?case by simp
next
  case (Suc n)
  show ?case
  proof (cases "allocate s")
    case (Pair oc s')
    show ?thesis
    proof (cases oc)
      case None
      then show ?thesis using Pair by simp
    next
      case (Some c)
      then have st: "allocate s = (Some c, s')" using Pair by simp
      note d = allocate_SomeD [OF Suc.prems st]
      have "context_allocator c = Some a" "context_new (context_get c) = Inr c"
        using allocate_owner [OF Suc.prems] d(1,2) by (simp_all add: context_new_def varint_MAX_le)
      then show ?thesis using Suc.IH [OF d(4)] st d(1,3) by fastforce
    qed
  qed
qed

lemma allocate_None_iff: "fst (allocate s) = None \<longleftrightarrow> 2 ^ 62 \<le> unat (ca_next s)"
  by (auto simp: allocate_def varint_MAX_le)

lemma allocate_many_length:
  "allocator_inv a s \<Longrightarrow>
    length (allocate_many n s) = min n ((2 ^ 62 + 1 - unat (ca_next s)) div 2)"
proof (induction n arbitrary: s)
  case 0
  show ?case by simp
next
  case (Suc n)
  obtain oc s' where st: "allocate s = (oc, s')" by force
  show ?case
  proof (cases oc)
    case None
    then have "2 ^ 62 \<le> unat (ca_next s)" using allocate_None_iff [of s] st by simp
    then show ?thesis using None st by simp
  next
    case (Some c)
    then have st': "allocate s = (Some c, s')" using st by simp
    note d = allocate_SomeD [OF Suc.prems st']
    show ?thesis using Suc.IH [OF d(4)] st' d(2) by (simp add: d(3))
  qed
qed

subsection \<open>Properties\<close>

text \<open>
  A UDP payload sent on a request stream comes out unchanged at the other end: for every
  client-initiated bidirectional stream id below \<open>2 ^ 62\<close>, the payload wrapped in context 0 and
  framed with the quarter stream id decodes to the same stream and the same payload.
\<close>

theorem udp_datagram_roundtrip:
  assumes "s mod 4 = 0" "unat s < 2 ^ 62"
  shows "\<exists>q w frame. from_stream_id s = Inr q \<and> encode_payload p = Some w \<and>
    encode_http3_datagram q w = Some frame \<and>
    decode_http3_datagram frame = Inr (q, w) \<and> stream_id q = s \<and>
    udp_decode_payload w = Inr (UdpPayload p)"
proof -
  let ?w = "varint_bytes 0 @ p"
  note m = from_stream_id_multiple [OF assms(1)]
  have q: "unat (s div 4) < 2 ^ 60" using assms(2) m(3) by simp
  have w: "encode_payload p = Some ?w"
    by (simp add: encode_payload_def default_context_def context_DEFAULT_def payload_encode_eq)
  have "encode_http3_datagram (QuarterStreamId (s div 4)) ?w = Some (varint_bytes (s div 4) @ ?w)"
    using q by (simp add: encode_http3_datagram_def varint_encode_Inr)
  moreover have "decode_http3_datagram (varint_bytes (s div 4) @ ?w) =
      Inr (QuarterStreamId (s div 4), ?w)"
    using q by (rule decode_http3_eq)
  moreover have "udp_decode_payload ?w = Inr (UdpPayload p)"
    by (simp add: udp_decode_payload_def payload_decode_eq context_is_default_def)
  ultimately show ?thesis using m w by blast
qed

theorem udp_datagram_roundtrip_witness:
  "\<exists>q w frame. from_stream_id 8 = Inr q \<and> encode_payload [1, 2, 3] = Some w \<and>
    encode_http3_datagram q w = Some frame \<and>
    decode_http3_datagram frame = Inr (q, w) \<and> stream_id q = 8 \<and>
    udp_decode_payload w = Inr (UdpPayload [1, 2, 3])"
  by (rule udp_datagram_roundtrip) simp_all

text \<open>
  Context ids are never reused and never collide between the endpoints: an endpoint's allocator
  hands out as many ids as asked until its half of the 62-bit space is used up, they strictly
  increase, each lies in that endpoint's half (so never the reserved context 0, and never an id of
  the peer) and each is a valid 62-bit context id.
\<close>

theorem context_ids_owned_and_fresh:
  "list_all (\<lambda>c. context_allocator c = Some a \<and> context_new (context_get c) = Inr c)
     (allocate_many n (allocator_new a)) \<and>
   sorted_wrt (\<lambda>c d. unat (context_get c) < unat (context_get d)) (allocate_many n (allocator_new a)) \<and>
   length (allocate_many n (allocator_new a)) = min n (if a = Client then 2 ^ 61 - 1 else 2 ^ 61)"
  using allocate_many_props [OF allocator_inv_new [of a], of n]
    allocate_many_length [OF allocator_inv_new [of a], of n]
  by (cases a) (auto simp: list_all_iff allocator_new_def)

end
