(* ===== verification/Connect_Ip.thy ===== *)
theory Connect_Ip
  imports Target Capsule Datagram
begin

text \<open>
  Proxying IP in HTTP (\<^verbatim>\<open>skimasque-core/src/connect_ip.rs\<close>): prefixes, the three control
  capsules and their codec, the ordering of route advertisements, the scope of a request and the
  packet payloads.
\<close>

subsection \<open>Prefixes and ranges\<close>

text \<open>
  A capsule value is a sequence of items with no count: the reader decodes items until the input
  is used up. Given a codec for one item, the loop reads back what was written, and everything it
  returns is a valid item.
\<close>

locale item_sequence = prefix_codec enc dec valid
  for enc :: "'a \<Rightarrow> 'b list"
    and dec :: "'b list \<Rightarrow> 'e + ('a \<times> 'b list)"
    and valid :: "'a \<Rightarrow> bool" +
  fixes loop :: "'b list \<Rightarrow> 'e + 'a list"
  assumes loop_eq: "loop b = (if b = [] then Inr []
      else (case dec b of Inl e \<Rightarrow> Inl e | Inr (x, r) \<Rightarrow> map_sum id (Cons x) (loop r)))"
    and dec_shrinks: "dec b = Inr (x, r) \<Longrightarrow> length r < length b"
    and dec_valid: "dec b = Inr (x, r) \<Longrightarrow> valid x"
begin

lemma enc_not_Nil: "valid x \<Longrightarrow> enc x \<noteq> []"
  using dec_enc [of x "[]"] dec_shrinks by fastforce

lemma loop_enc: "list_all valid xs \<Longrightarrow> loop (concat (map enc xs)) = Inr xs"
proof (induction xs)
  case Nil
  show ?case by (simp add: loop_eq)
next
  case (Cons x xs)
  then show ?case by (subst loop_eq) (simp add: dec_enc enc_not_Nil)
qed

lemma loop_valid: "loop b = Inr xs \<Longrightarrow> list_all valid xs"
proof (induction "length b" arbitrary: b xs rule: less_induct)
  case less
  show ?case
  proof (cases "b = []")
    case True
    then show ?thesis using less.prems by (simp add: loop_eq)
  next
    case False
    then obtain x r where d: "dec b = Inr (x, r)" and r: "map_sum id (Cons x) (loop r) = Inr xs"
      using less.prems by (subst (asm) loop_eq) (auto split: sum.splits)
    from r obtain ys where "loop r = Inr ys" "xs = x # ys" by (cases "loop r") auto
    then show ?thesis using less.hyps [OF dec_shrinks [OF d]] dec_valid [OF d] by simp
  qed
qed

end

datatype ip_error =
    Malformed string
  | BadIpVersion u8
  | PrefixTooLong u8 u8
  | PrefixHostBitsSet ip_addr u8
  | RangeReversed ip_addr ip_addr
  | RangeFamilyMismatch
  | EmptyAddressRequest
  | ZeroRequestId
  | RoutesOutOfOrder
  | BadIpProtocol string
  | IpTemplate template_error

record ip_prefix =
  ipp_addr :: ip_addr
  ipp_len :: u8

definition address_bits :: "ip_addr \<Rightarrow> u8" where
  "address_bits a = (case a of V4 _ \<Rightarrow> 32 | V6 _ \<Rightarrow> 128)"

definition masked :: "ip_addr \<Rightarrow> u8 \<Rightarrow> ip_addr" where
  "masked a prefix_len =
     (case a of
        V4 v4 \<Rightarrow> V4 (v4 AND (if prefix_len = 0 then 0 else push_bit (32 - unat prefix_len) (- 1)))
      | V6 v6 \<Rightarrow> V6 (v6 AND (if prefix_len = 0 then 0 else push_bit (128 - unat prefix_len) (- 1))))"

definition ip_prefix_new :: "ip_addr \<Rightarrow> u8 \<Rightarrow> ip_error + ip_prefix" where
  "ip_prefix_new a prefix_len =
     (if prefix_len > address_bits a then Inl (PrefixTooLong prefix_len (address_bits a))
      else if masked a prefix_len \<noteq> a then Inl (PrefixHostBitsSet a prefix_len)
      else Inr \<lparr>ipp_addr = a, ipp_len = prefix_len\<rparr>)"

definition ip_prefix_host :: "ip_addr \<Rightarrow> ip_prefix" where
  "ip_prefix_host a = \<lparr>ipp_addr = a, ipp_len = address_bits a\<rparr>"

definition ip_prefix_unspecified :: "bool \<Rightarrow> ip_prefix" where
  "ip_prefix_unspecified v6 = ip_prefix_host (if v6 then V6 0 else V4 0)"

definition is_unspecified_host :: "ip_prefix \<Rightarrow> bool" where
  "is_unspecified_host p \<longleftrightarrow>
     ipp_len p = address_bits (ipp_addr p) \<and> (case ipp_addr p of V4 a \<Rightarrow> a = 0 | V6 a \<Rightarrow> a = 0)"

definition put_address :: "ip_addr \<Rightarrow> bytes" where
  "put_address a = (case a of V4 v4 \<Rightarrow> octets4 v4 | V6 v6 \<Rightarrow> octets6 v6)"

definition take_u8 :: "bytes \<Rightarrow> ip_error + (u8 \<times> bytes)" where
  "take_u8 input =
     (case input of [] \<Rightarrow> Inl (Malformed ''capsule value ended early'') | b # rest \<Rightarrow> Inr (b, rest))"

definition take_varint :: "bytes \<Rightarrow> ip_error + (u64 \<times> bytes)" where
  "take_varint input = map_err (\<lambda>_. Malformed ''capsule value ended mid-varint'') (varint_take_slice input)"

definition decode_address_of_version :: "u8 \<Rightarrow> bytes \<Rightarrow> ip_error + (ip_addr \<times> bytes)" where
  "decode_address_of_version version input =
     (if version \<noteq> 4 \<and> version \<noteq> 6 then Inl (BadIpVersion version)
      else
        (let len = (if version = 4 then 4 else 16)
         in if length input < len then Inl (Malformed ''capsule value ended mid-address'')
            else Inr (if version = 4 then V4 (be_word (take len input)) else V6 (be_word (take len input)),
                      drop len input)))"

definition decode_versioned_address :: "bytes \<Rightarrow> ip_error + (ip_addr \<times> bytes)" where
  "decode_versioned_address input =
     and_then (take_u8 input) (\<lambda>(version, rest). decode_address_of_version version rest)"

definition ip_prefix_encode :: "ip_prefix \<Rightarrow> bytes" where
  "ip_prefix_encode p =
     (case ipp_addr p of V4 _ \<Rightarrow> 4 | V6 _ \<Rightarrow> 6) # put_address (ipp_addr p) @ [ipp_len p]"

definition ip_prefix_decode :: "bytes \<Rightarrow> ip_error + (ip_prefix \<times> bytes)" where
  "ip_prefix_decode input =
     and_then (decode_versioned_address input) (\<lambda>(a, rest).
     and_then (take_u8 rest) (\<lambda>(prefix_len, rest').
     and_then (ip_prefix_new a prefix_len) (\<lambda>p. Inr (p, rest'))))"

record assigned_address =
  aa_request_id :: u64
  aa_prefix :: ip_prefix

record requested_address =
  ra_request_id :: u64
  ra_prefix :: ip_prefix

record ip_address_range =
  ir_start :: ip_addr
  ir_end :: ip_addr
  ir_protocol :: u8

definition ip_address_range_new :: "ip_addr \<Rightarrow> ip_addr \<Rightarrow> u8 \<Rightarrow> ip_error + ip_address_range" where
  "ip_address_range_new start end protocol =
     (let ok = Inr \<lparr>ir_start = start, ir_end = end, ir_protocol = protocol\<rparr>
      in case (start, end) of
           (V4 a, V4 b) \<Rightarrow> if a > b then Inl (RangeReversed start end) else ok
         | (V6 a, V6 b) \<Rightarrow> if a > b then Inl (RangeReversed start end) else ok
         | _ \<Rightarrow> Inl RangeFamilyMismatch)"

definition range_version :: "ip_address_range \<Rightarrow> u8" where
  "range_version r = (if is_ipv4 (ir_start r) then 4 else 6)"

text \<open>\<^verbatim>\<open>Ord\<close> of \<^verbatim>\<open>IpAddr\<close>: every IPv4 address is below every IPv6 address.\<close>

definition ip_less :: "ip_addr \<Rightarrow> ip_addr \<Rightarrow> bool" where
  "ip_less x y =
     (case (x, y) of
        (V4 a, V4 b) \<Rightarrow> a < b
      | (V6 a, V6 b) \<Rightarrow> a < b
      | (V4 _, V6 _) \<Rightarrow> True
      | (V6 _, V4 _) \<Rightarrow> False)"

definition routes_ordered :: "ip_address_range \<Rightarrow> ip_address_range \<Rightarrow> bool" where
  "routes_ordered a b =
     (if range_version a < range_version b then True
      else if range_version b < range_version a then False
      else if ir_protocol a < ir_protocol b then True
      else if ir_protocol b < ir_protocol a then False
      else ip_less (ir_end a) (ir_start b))"

fun check_route_ordering :: "ip_address_range list \<Rightarrow> ip_error + unit" where
  "check_route_ordering (a # b # rest) =
     (if routes_ordered a b then check_route_ordering (b # rest) else Inl RoutesOutOfOrder)"
| "check_route_ordering _ = Inr ()"

subsection \<open>Control capsules\<close>

datatype ip_capsule =
    AddressAssign "assigned_address list"
  | AddressRequest "requested_address list"
  | RouteAdvertisement "ip_address_range list"

definition ip_capsule_type :: "ip_capsule \<Rightarrow> capsule_type" where
  "ip_capsule_type c =
     (case c of AddressAssign _ \<Rightarrow> ADDRESS_ASSIGN | AddressRequest _ \<Rightarrow> ADDRESS_REQUEST
      | RouteAdvertisement _ \<Rightarrow> ROUTE_ADVERTISEMENT)"

definition encode_request_id :: "u64 \<Rightarrow> ip_error + bytes" where
  "encode_request_id i =
     map_err (\<lambda>_. Malformed ''request id exceeds the varint maximum'') (varint_encode i [])"

definition encode_assigned :: "assigned_address \<Rightarrow> ip_error + bytes" where
  "encode_assigned a =
     and_then (encode_request_id (aa_request_id a)) (\<lambda>i. Inr (i @ ip_prefix_encode (aa_prefix a)))"

definition encode_requested :: "requested_address \<Rightarrow> ip_error + bytes" where
  "encode_requested a =
     (if ra_request_id a = 0 then Inl ZeroRequestId
      else and_then (encode_request_id (ra_request_id a)) (\<lambda>i. Inr (i @ ip_prefix_encode (ra_prefix a))))"

definition encode_range :: "ip_address_range \<Rightarrow> bytes" where
  "encode_range r = range_version r # put_address (ir_start r) @ put_address (ir_end r) @ [ir_protocol r]"

definition to_capsule :: "ip_capsule \<Rightarrow> ip_error + capsule" where
  "to_capsule c =
     and_then
       (case c of
          AddressAssign addresses \<Rightarrow> map_sum id concat (try_map encode_assigned addresses)
        | AddressRequest addresses \<Rightarrow>
            (if addresses = [] then Inl EmptyAddressRequest
             else map_sum id concat (try_map encode_requested addresses))
        | RouteAdvertisement ranges \<Rightarrow>
            and_then (check_route_ordering ranges) (\<lambda>_. Inr (concat (map encode_range ranges))))
       (\<lambda>v. Inr (capsule_new (ip_capsule_type c) v))"

text \<open>One round of each of the three decoding loops.\<close>

definition decode_assigned :: "bytes \<Rightarrow> ip_error + (assigned_address \<times> bytes)" where
  "decode_assigned input =
     and_then (take_varint input) (\<lambda>(request_id, rest).
     and_then (ip_prefix_decode rest) (\<lambda>(p, rest').
       Inr (\<lparr>aa_request_id = request_id, aa_prefix = p\<rparr>, rest')))"

definition decode_requested :: "bytes \<Rightarrow> ip_error + (requested_address \<times> bytes)" where
  "decode_requested input =
     and_then (take_varint input) (\<lambda>(request_id, rest).
       if request_id = 0 then Inl ZeroRequestId
       else and_then (ip_prefix_decode rest) (\<lambda>(p, rest').
         Inr (\<lparr>ra_request_id = request_id, ra_prefix = p\<rparr>, rest')))"

definition decode_range :: "bytes \<Rightarrow> ip_error + (ip_address_range \<times> bytes)" where
  "decode_range input =
     and_then (take_u8 input) (\<lambda>(version, r1).
     and_then (decode_address_of_version version r1) (\<lambda>(start, r2).
     and_then (decode_address_of_version version r2) (\<lambda>(end, r3).
     and_then (take_u8 r3) (\<lambda>(protocol, r4).
     and_then (ip_address_range_new start end protocol) (\<lambda>range. Inr (range, r4))))))"

text \<open>Every round consumes input, so the loops end.\<close>

definition shrinks :: "(bytes \<Rightarrow> ip_error + ('a \<times> bytes)) \<Rightarrow> bool" where
  "shrinks dec \<longleftrightarrow> (\<forall>b x r. dec b = Inr (x, r) \<longrightarrow> length r < length b)"

lemma take_u8_shrinks: "take_u8 b = Inr (x, r) \<Longrightarrow> length r < length b"
  by (auto simp: take_u8_def split: list.splits)

lemma take_varint_shrinks: "take_varint b = Inr (x, r) \<Longrightarrow> length r < length b"
  by (auto simp: take_varint_def varint_take_slice_def split: sum.splits dest!: varint_decode_Inr_length)

lemma decode_address_shrinks: "decode_address_of_version v b = Inr (x, r) \<Longrightarrow> length r < length b"
  by (auto simp: decode_address_of_version_def Let_def split: if_splits)

lemma ip_prefix_decode_shrinks: "ip_prefix_decode b = Inr (x, r) \<Longrightarrow> length r < length b"
  by (fastforce simp: ip_prefix_decode_def decode_versioned_address_def and_then_Inr_iff
      dest!: take_u8_shrinks decode_address_shrinks)

lemma decode_assigned_shrinks: "decode_assigned b = Inr (x, r) \<Longrightarrow> length r < length b"
  by (fastforce simp: decode_assigned_def and_then_Inr_iff
      dest!: take_varint_shrinks ip_prefix_decode_shrinks)

lemma decode_requested_shrinks: "decode_requested b = Inr (x, r) \<Longrightarrow> length r < length b"
  by (fastforce simp: decode_requested_def and_then_Inr_iff split: if_splits
      dest!: take_varint_shrinks ip_prefix_decode_shrinks)

lemma decode_range_shrinks: "decode_range b = Inr (x, r) \<Longrightarrow> length r < length b"
  by (fastforce simp: decode_range_def and_then_Inr_iff
      dest!: take_u8_shrinks decode_address_shrinks)

function assigned_loop :: "bytes \<Rightarrow> ip_error + assigned_address list" where
  "assigned_loop input =
     (if input = [] then Inr []
      else (case decode_assigned input of
              Inl e \<Rightarrow> Inl e
            | Inr (x, rest) \<Rightarrow> map_sum id (Cons x) (assigned_loop rest)))"
  by auto

termination by (relation "measure length") (auto dest: decode_assigned_shrinks)

function requested_loop :: "bytes \<Rightarrow> ip_error + requested_address list" where
  "requested_loop input =
     (if input = [] then Inr []
      else (case decode_requested input of
              Inl e \<Rightarrow> Inl e
            | Inr (x, rest) \<Rightarrow> map_sum id (Cons x) (requested_loop rest)))"
  by auto

termination by (relation "measure length") (auto dest: decode_requested_shrinks)

function range_loop :: "bytes \<Rightarrow> ip_error + ip_address_range list" where
  "range_loop input =
     (if input = [] then Inr []
      else (case decode_range input of
              Inl e \<Rightarrow> Inl e
            | Inr (x, rest) \<Rightarrow> map_sum id (Cons x) (range_loop rest)))"
  by auto

termination by (relation "measure length") (auto dest: decode_range_shrinks)

declare assigned_loop.simps [simp del] requested_loop.simps [simp del] range_loop.simps [simp del]

definition from_capsule :: "capsule \<Rightarrow> ip_error + ip_capsule option" where
  "from_capsule c =
     (if cap_kind c = ADDRESS_ASSIGN then
        and_then (assigned_loop (cap_value c)) (\<lambda>xs. Inr (Some (AddressAssign xs)))
      else if cap_kind c = ADDRESS_REQUEST then
        and_then (requested_loop (cap_value c)) (\<lambda>xs.
          if xs = [] then Inl EmptyAddressRequest else Inr (Some (AddressRequest xs)))
      else if cap_kind c = ROUTE_ADVERTISEMENT then
        and_then (range_loop (cap_value c)) (\<lambda>xs.
        and_then (check_route_ordering xs) (\<lambda>_. Inr (Some (RouteAdvertisement xs))))
      else Inr None)"

subsection \<open>Scopes and packets\<close>

record ip_scope =
  is_target :: "string option"
  is_protocol :: "u8 option"

definition scope_any :: ip_scope where
  "scope_any = \<lparr>is_target = None, is_protocol = None\<rparr>"

definition scope_expand_path :: "ip_scope \<Rightarrow> uri_template \<Rightarrow> ip_error + string" where
  "scope_expand_path s t =
     (let v1 = (if ''target'' \<in> set (ut_variables t)
                then [''target'' \<mapsto> (case is_target s of Some x \<Rightarrow> x | None \<Rightarrow> ''*'')] else Map.empty);
          v2 = (if ''ipproto'' \<in> set (ut_variables t)
                then v1(''ipproto'' \<mapsto> (case is_protocol s of None \<Rightarrow> ''*'' | Some p \<Rightarrow> nat_to_string (unat p)))
                else v1)
      in map_err IpTemplate (expand_path t v2))"

definition scope_from_path :: "uri_template \<Rightarrow> string \<Rightarrow> ip_error + ip_scope" where
  "scope_from_path t path =
     and_then (ok_or (IpTemplate (MissingVariable ''target'')) (match_path t path)) (\<lambda>values.
       (let tgt = (case values ''target'' of None \<Rightarrow> None | Some x \<Rightarrow> if x = ''*'' then None else Some x)
        in and_then
             (case values ''ipproto'' of
                None \<Rightarrow> Inr None
              | Some raw \<Rightarrow>
                  if raw = ''*'' then Inr None
                  else and_then (ok_or (BadIpProtocol raw) (parse_u8 raw)) (\<lambda>p. Inr (Some p)))
             (\<lambda>protocol. Inr \<lparr>is_target = tgt, is_protocol = protocol\<rparr>)))"

datatype ip_incoming = IpPacket bytes | IpUnknownContext context_id bytes

definition encode_packet :: "bytes \<Rightarrow> bytes option" where
  "encode_packet packet = payload_encode (default_context packet)"

definition decode_packet :: "bytes \<Rightarrow> datagram_error + ip_incoming" where
  "decode_packet payload =
     and_then (payload_decode payload) (\<lambda>p.
       Inr (if context_is_default (pp_context p) then IpPacket (pp_payload p)
            else IpUnknownContext (pp_context p) (pp_payload p)))"

subsection \<open>The item codecs\<close>

definition ip_version :: "ip_addr \<Rightarrow> u8" where
  "ip_version a = (case a of V4 _ \<Rightarrow> 4 | V6 _ \<Rightarrow> 6)"

definition prefix_ok :: "ip_prefix \<Rightarrow> bool" where
  "prefix_ok p \<longleftrightarrow> ip_prefix_new (ipp_addr p) (ipp_len p) = Inr p"

definition assigned_ok :: "assigned_address \<Rightarrow> bool" where
  "assigned_ok a \<longleftrightarrow> unat (aa_request_id a) < 2 ^ 62 \<and> prefix_ok (aa_prefix a)"

definition requested_ok :: "requested_address \<Rightarrow> bool" where
  "requested_ok a \<longleftrightarrow> ra_request_id a \<noteq> 0 \<and> unat (ra_request_id a) < 2 ^ 62 \<and> prefix_ok (ra_prefix a)"

definition range_ok :: "ip_address_range \<Rightarrow> bool" where
  "range_ok r \<longleftrightarrow> ip_address_range_new (ir_start r) (ir_end r) (ir_protocol r) = Inr r"

lemma decode_put_address:
  "decode_address_of_version (ip_version a) (put_address a @ rest) = Inr (a, rest)"
  by (cases a)
     (simp_all add: decode_address_of_version_def ip_version_def put_address_def octets4_def
       octets6_def be_word_be_bytes)

lemma ip_prefix_roundtrip: "prefix_ok p \<Longrightarrow> ip_prefix_decode (ip_prefix_encode p @ rest) = Inr (p, rest)"
  by (simp add: ip_prefix_decode_def ip_prefix_encode_def decode_versioned_address_def take_u8_def
      decode_put_address prefix_ok_def flip: ip_version_def)

lemma ip_prefix_new_ok: "ip_prefix_new a n = Inr p \<Longrightarrow> prefix_ok p"
  by (auto simp: prefix_ok_def ip_prefix_new_def split: if_splits)

lemma ip_prefix_decode_ok: "ip_prefix_decode b = Inr (p, r) \<Longrightarrow> prefix_ok p"
  by (auto simp: ip_prefix_decode_def and_then_Inr_iff dest: ip_prefix_new_ok)

lemma take_varint_bounded: "take_varint b = Inr (v, r) \<Longrightarrow> unat v < 2 ^ 62"
  by (auto simp: take_varint_def varint_take_slice_def split: sum.splits dest: varint_decode_bounded)

lemma take_varint_bytes: "unat v < 2 ^ 62 \<Longrightarrow> take_varint (varint_bytes v @ rest) = Inr (v, rest)"
  by (simp add: take_varint_def varint_take_roundtrip)

definition assigned_bytes :: "assigned_address \<Rightarrow> bytes" where
  "assigned_bytes a = varint_bytes (aa_request_id a) @ ip_prefix_encode (aa_prefix a)"

definition requested_bytes :: "requested_address \<Rightarrow> bytes" where
  "requested_bytes a = varint_bytes (ra_request_id a) @ ip_prefix_encode (ra_prefix a)"

lemma encode_assigned_ok: "assigned_ok a \<Longrightarrow> encode_assigned a = Inr (assigned_bytes a)"
  by (simp add: encode_assigned_def encode_request_id_def assigned_ok_def assigned_bytes_def
      varint_encode_Inr)

lemma encode_requested_ok: "requested_ok a \<Longrightarrow> encode_requested a = Inr (requested_bytes a)"
  by (simp add: encode_requested_def encode_request_id_def requested_ok_def requested_bytes_def
      varint_encode_Inr)

interpretation assigned: item_sequence assigned_bytes decode_assigned assigned_ok assigned_loop
proof (unfold_locales, goal_cases)
  case (1 v rest)
  then show ?case
    by (simp add: decode_assigned_def assigned_bytes_def assigned_ok_def take_varint_bytes
        ip_prefix_roundtrip)
next
  case (2 b)
  show ?case by (rule assigned_loop.simps)
next
  case (3 b x r)
  then show ?case by (rule decode_assigned_shrinks)
next
  case (4 b x r)
  then show ?case
    by (auto simp: decode_assigned_def and_then_Inr_iff assigned_ok_def
        dest: take_varint_bounded ip_prefix_decode_ok)
qed

interpretation requested: item_sequence requested_bytes decode_requested requested_ok requested_loop
proof (unfold_locales, goal_cases)
  case (1 v rest)
  then show ?case
    by (simp add: decode_requested_def requested_bytes_def requested_ok_def take_varint_bytes
        ip_prefix_roundtrip)
next
  case (2 b)
  show ?case by (rule requested_loop.simps)
next
  case (3 b x r)
  then show ?case by (rule decode_requested_shrinks)
next
  case (4 b x r)
  then show ?case
    by (auto simp: decode_requested_def and_then_Inr_iff requested_ok_def
        dest: take_varint_bounded ip_prefix_decode_ok split: if_splits)
qed

lemma range_ok_family: "range_ok r \<Longrightarrow> ip_version (ir_end r) = ip_version (ir_start r)"
  by (auto simp: range_ok_def ip_address_range_new_def ip_version_def Let_def split: ip_addr.splits)

lemma range_version_eq: "range_version r = ip_version (ir_start r)"
  by (simp add: range_version_def ip_version_def is_ipv4_def split: ip_addr.split)

lemma ip_address_range_new_ok: "ip_address_range_new a b c = Inr r \<Longrightarrow> range_ok r"
  by (auto simp: range_ok_def ip_address_range_new_def Let_def split: ip_addr.splits if_splits)

interpretation ranges: item_sequence encode_range decode_range range_ok range_loop
proof (unfold_locales, goal_cases)
  case (1 v rest)
  then have "ip_version (ir_end v) = ip_version (ir_start v)"
    "ip_address_range_new (ir_start v) (ir_end v) (ir_protocol v) = Inr v"
    by (simp_all add: range_ok_family) (simp add: range_ok_def)
  then show ?case
    using decode_put_address [of "ir_start v" "put_address (ir_end v) @ ir_protocol v # rest"]
      decode_put_address [of "ir_end v" "ir_protocol v # rest"]
    by (simp add: decode_range_def encode_range_def take_u8_def range_version_eq)
next
  case (2 b)
  show ?case by (rule range_loop.simps)
next
  case (3 b x r)
  then show ?case by (rule decode_range_shrinks)
next
  case (4 b x r)
  then show ?case by (auto simp: decode_range_def and_then_Inr_iff dest: ip_address_range_new_ok)
qed

subsection \<open>Properties of the control capsules\<close>

definition ip_capsule_ok :: "ip_capsule \<Rightarrow> bool" where
  "ip_capsule_ok c =
     (case c of
        AddressAssign xs \<Rightarrow> list_all assigned_ok xs
      | AddressRequest xs \<Rightarrow> xs \<noteq> [] \<and> list_all requested_ok xs
      | RouteAdvertisement xs \<Rightarrow> list_all range_ok xs \<and> check_route_ordering xs = Inr ())"

lemma capsule_kinds_distinct [simp]:
  "ADDRESS_REQUEST \<noteq> ADDRESS_ASSIGN" "ROUTE_ADVERTISEMENT \<noteq> ADDRESS_ASSIGN"
  "ROUTE_ADVERTISEMENT \<noteq> ADDRESS_REQUEST"
  by (simp_all add: ADDRESS_ASSIGN_def ADDRESS_REQUEST_def ROUTE_ADVERTISEMENT_def)

lemma ip_capsule_roundtrip_ok:
  assumes "ip_capsule_ok x"
  shows "\<exists>c. to_capsule x = Inr c \<and> from_capsule c = Inr (Some x)"
proof (cases x)
  case (AddressAssign xs)
  then have ok: "list_all assigned_ok xs" using assms by (simp add: ip_capsule_ok_def)
  then have "try_map encode_assigned xs = Inr (map assigned_bytes xs)"
    by (intro try_map_Inr_map) (auto simp: list_all_iff encode_assigned_ok)
  then show ?thesis
    using assigned.loop_enc [OF ok]
    by (simp add: AddressAssign to_capsule_def from_capsule_def capsule_new_def ip_capsule_type_def)
next
  case (AddressRequest xs)
  then have ok: "list_all requested_ok xs" "xs \<noteq> []" using assms by (simp_all add: ip_capsule_ok_def)
  then have "try_map encode_requested xs = Inr (map requested_bytes xs)"
    by (intro try_map_Inr_map) (auto simp: list_all_iff encode_requested_ok)
  then show ?thesis
    using requested.loop_enc [OF ok(1)] ok(2)
    by (simp add: AddressRequest to_capsule_def from_capsule_def capsule_new_def ip_capsule_type_def)
next
  case (RouteAdvertisement xs)
  then show ?thesis
    using assms ranges.loop_enc [of xs]
    by (simp add: ip_capsule_ok_def to_capsule_def from_capsule_def capsule_new_def ip_capsule_type_def)
qed

lemma from_capsule_ok: "from_capsule c = Inr (Some x) \<Longrightarrow> ip_capsule_ok x"
  by (auto simp: from_capsule_def and_then_Inr_iff ip_capsule_ok_def split: if_splits
      dest: assigned.loop_valid requested.loop_valid ranges.loop_valid)

text \<open>
  The codec of the CONNECT-IP control capsules: a capsule whose items are well formed encodes,
  and the receiver reads back exactly that capsule; whatever the receiver accepts is well formed, so
  it can be sent on.
\<close>

theorem ip_capsule_codec:
  "(ip_capsule_ok x \<longleftrightarrow> (\<exists>c. to_capsule x = Inr c \<and> from_capsule c = Inr (Some x))) \<and>
   (ip_capsule_ok x \<longleftrightarrow> (\<exists>c. from_capsule c = Inr (Some x)))"
  using ip_capsule_roundtrip_ok from_capsule_ok by blast

lemma check_route_ordering_iff: "check_route_ordering rs = Inr () \<longleftrightarrow> successively routes_ordered rs"
  by (induction rs rule: check_route_ordering.induct) auto

text \<open>The address family and the address as a number.\<close>

definition ip_num :: "ip_addr \<Rightarrow> nat" where
  "ip_num a = (case a of V4 w \<Rightarrow> unat w | V6 w \<Rightarrow> unat w)"

definition covers :: "ip_address_range \<Rightarrow> ip_addr \<Rightarrow> bool" where
  "covers r a \<longleftrightarrow> ip_version a = ip_version (ir_start r) \<and>
     ip_num (ir_start r) \<le> ip_num a \<and> ip_num a \<le> ip_num (ir_end r)"

lemma ip_less_num:
  "ip_version a = ip_version b \<Longrightarrow> ip_less a b \<longleftrightarrow> ip_num a < ip_num b"
  by (cases a; cases b) (simp_all add: ip_less_def ip_num_def ip_version_def word_less_nat_alt)

lemma range_ok_num: "range_ok r \<Longrightarrow> ip_num (ir_start r) \<le> ip_num (ir_end r)"
  by (auto simp: range_ok_def ip_address_range_new_def ip_num_def Let_def word_less_nat_alt not_less
      split: ip_addr.splits if_splits)

lemma routes_ordered_num:
  assumes "range_ok a" "range_ok b"
  shows "routes_ordered a b \<longleftrightarrow>
    (ip_version (ir_start a) < ip_version (ir_start b) \<or>
     (ip_version (ir_start a) = ip_version (ir_start b) \<and>
      (ir_protocol a < ir_protocol b \<or>
       (ir_protocol a = ir_protocol b \<and> ip_num (ir_end a) < ip_num (ir_start b)))))"
  using range_ok_family [OF assms(1)] ip_less_num [of "ir_end a" "ir_start b"]
  by (auto simp: routes_ordered_def range_version_eq)

lemma routes_sorted:
  assumes "list_all range_ok rs" "check_route_ordering rs = Inr ()"
  shows "sorted_wrt routes_ordered rs"
proof -
  have "routes_ordered a c" if abc: "a \<in> set rs" "b \<in> set rs" "c \<in> set rs"
      "routes_ordered a b" "routes_ordered b c" for a b c
  proof -
    have ok: "range_ok a" "range_ok b" "range_ok c" using abc assms(1) by (auto simp: list_all_iff)
    show ?thesis
      using abc(4,5) range_ok_num [OF ok(2)]
      by (auto simp: routes_ordered_num [OF ok(1,2)] routes_ordered_num [OF ok(2,3)]
          routes_ordered_num [OF ok(1,3)])
  qed
  then have "successively routes_ordered rs \<longleftrightarrow> sorted_wrt routes_ordered rs"
    by (rule successively_iff_sorted_wrt_strong)
  then show ?thesis using assms(2) by (simp add: check_route_ordering_iff)
qed

text \<open>
  Accepted route advertisements cannot overlap: two different entries for the same protocol have
  no address in common, so a receiver installs them without comparing every pair, although the code
  compares neighbours only.
\<close>

theorem accepted_routes_disjoint:
  assumes "from_capsule c = Inr (Some (RouteAdvertisement rs))"
    and "i < j" "j < length rs" "ir_protocol (rs ! i) = ir_protocol (rs ! j)"
  shows "\<not> (covers (rs ! i) a \<and> covers (rs ! j) a)"
proof -
  have ok: "list_all range_ok rs" "check_route_ordering rs = Inr ()"
    using from_capsule_ok [OF assms(1)] by (simp_all add: ip_capsule_ok_def)
  have ij: "range_ok (rs ! i)" "range_ok (rs ! j)"
    using ok(1) assms(2,3) by (simp_all add: list_all_length)
  have "routes_ordered (rs ! i) (rs ! j)"
    using routes_sorted [OF ok] assms(2,3) by (simp add: sorted_wrt_nth_less)
  then have "ip_version (ir_start (rs ! i)) = ip_version (ir_start (rs ! j)) \<longrightarrow>
      ip_num (ir_end (rs ! i)) < ip_num (ir_start (rs ! j))"
    unfolding routes_ordered_num [OF ij] assms(4) by force
  then show ?thesis unfolding covers_def by (metis leD le_trans)
qed

definition sample_routes :: "ip_address_range list" where
  "sample_routes =
     [\<lparr>ir_start = V4 0x0A000000, ir_end = V4 0x0A0000FF, ir_protocol = 0\<rparr>,
      \<lparr>ir_start = V4 0xC0000200, ir_end = V4 0xC00002FF, ir_protocol = 0\<rparr>]"

theorem accepted_routes_disjoint_witness:
  "\<not> (covers (sample_routes ! 0) (V4 0xC0000201) \<and> covers (sample_routes ! 1) (V4 0xC0000201))"
proof -
  have "ip_capsule_ok (RouteAdvertisement sample_routes)"
    by (simp add: ip_capsule_ok_def sample_routes_def range_ok_def ip_address_range_new_def
        routes_ordered_def range_version_def is_ipv4_def ip_less_def)
  then obtain c where "from_capsule c = Inr (Some (RouteAdvertisement sample_routes))"
    using ip_capsule_roundtrip_ok by blast
  from accepted_routes_disjoint [OF this, of 0 1 "V4 0xC0000201"] show ?thesis
    by (simp add: sample_routes_def)
qed

text \<open>The scope of a request survives its path, for templates whose expressions are delimited.\<close>

definition scope_ok :: "ip_scope \<Rightarrow> bool" where
  "scope_ok s \<longleftrightarrow> (case is_target s of None \<Rightarrow> True | Some x \<Rightarrow> x \<noteq> ''*'' \<and> str_valid x)"

lemma scope_path_roundtrip:
  assumes "template_parse ts = Inr t" "separable (ut_parts t)"
    "''target'' \<in> set (ut_variables t)" "''ipproto'' \<in> set (ut_variables t)"
    "scope_ok s" "scope_expand_path s t = Inr path"
  shows "scope_from_path t path = Inr s"
proof -
  define b where "b = [''target'' \<mapsto> (case is_target s of Some x \<Rightarrow> x | None \<Rightarrow> ''*''),
    ''ipproto'' \<mapsto> (case is_protocol s of None \<Rightarrow> ''*'' | Some p \<Rightarrow> nat_to_string (unat p))]"
  have names: "names_of (ut_parts t) = set (ut_variables t)"
    using template_parse_variables [OF assms(1)] by (simp add: names_of_def)
  have "expand_path t b = Inr path"
    using assms(3,4,6) by (simp add: scope_expand_path_def b_def)
  moreover have "\<forall>v \<in> ran b. str_valid v"
    using assms(5) str_valid_ascii [of "''*''"] unfolding b_def
    by (auto simp: ran_def scope_ok_def nat_to_string_valid split: if_splits option.splits)
  ultimately have "match_path t path = Some (b |` names_of (ut_parts t))"
    using assms(2) by (intro match_path_expanded)
  moreover have "nat_to_string n \<noteq> ''*''" for n
    using nat_to_string_digits [of n] by (auto simp: is_ascii_digit_def)
  ultimately show ?thesis
    using assms(3,4,5) unfolding names b_def
    by (cases s) (auto simp: scope_from_path_def scope_ok_def split: option.splits)
qed

end
