(* ===== verification/Tunnel_Service.thy ===== *)
theory Tunnel_Service
  imports Tenant Address_Policy Connect_Ip
begin

text \<open>
  The types every tunnel request passes through and the innermost services
  (\<^verbatim>\<open>skimasque/src/service.rs\<close>): requests, accepted tunnels, rejections, the UDP and TCP
  proxies and the router between them.

  The network is an argument: name resolution, sockets and connections are the fields of a
  \<open>network\<close>, and \<open>'h\<close> is the type of an open socket. The request's header lookup and typed
  extensions, which the \<^verbatim>\<open>http\<close> crate provides, are fields of the request. A service answers with
  an \<open>outcome\<close>; a panic of the task that runs it is an outcome of its own.
\<close>

subsection \<open>Requests\<close>

datatype tunnel_destination = DestUdp target | DestTcp target | DestIp ip_scope

definition as_udp :: "tunnel_destination \<Rightarrow> target option" where
  "as_udp d = (case d of DestUdp t \<Rightarrow> Some t | DestTcp _ \<Rightarrow> None | DestIp _ \<Rightarrow> None)"

definition as_tcp :: "tunnel_destination \<Rightarrow> target option" where
  "as_tcp d = (case d of DestTcp t \<Rightarrow> Some t | DestUdp _ \<Rightarrow> None | DestIp _ \<Rightarrow> None)"

definition as_target :: "tunnel_destination \<Rightarrow> target option" where
  "as_target d = (case d of DestUdp t \<Rightarrow> Some t | DestTcp t \<Rightarrow> Some t | DestIp _ \<Rightarrow> None)"

definition as_ip :: "tunnel_destination \<Rightarrow> ip_scope option" where
  "as_ip d = (case d of DestIp s \<Rightarrow> Some s | DestUdp _ \<Rightarrow> None | DestTcp _ \<Rightarrow> None)"

definition tunnel_destination_display :: "tunnel_destination \<Rightarrow> string" where
  "tunnel_destination_display d =
     (case d of
        DestUdp t \<Rightarrow> target_display t
      | DestTcp t \<Rightarrow> target_display t
      | DestIp s \<Rightarrow> ''ip:'' @ (case is_target s of Some x \<Rightarrow> x | None \<Rightarrow> ''*'') @ ''/'' @
          (case is_protocol s of None \<Rightarrow> ''*'' | Some p \<Rightarrow> nat_to_string (unat p)))"

record authorized_destination =
  ad_target :: target
  ad_decision :: "allowed option"

definition trusting :: "target \<Rightarrow> authorized_destination" where
  "trusting t = \<lparr>ad_target = t, ad_decision = None\<rparr>"

definition authorized_from_decision :: "target \<Rightarrow> allowed \<Rightarrow> authorized_destination" where
  "authorized_from_decision t decision = \<lparr>ad_target = t, ad_decision = Some decision\<rparr>"

text \<open>
  \<open>rq_header name\<close> is the value of a header field when it is present and text;
  \<open>rq_tenant\<close> and \<open>rq_identity\<close> are the two extensions layers leave for each other.
\<close>

record tunnel_request =
  rq_protocol :: protocol
  rq_destination :: tunnel_destination
  rq_client :: socket_addr
  rq_header :: "string \<Rightarrow> string option"
  rq_tenant :: "string option"
  rq_identity :: "workload_identity option"
  rq_authorized :: "authorized_destination option"

definition request_new ::
  "protocol \<Rightarrow> tunnel_destination \<Rightarrow> socket_addr \<Rightarrow> (string \<Rightarrow> string option) \<Rightarrow> tunnel_request" where
  "request_new protocol destination client header =
     \<lparr>rq_protocol = protocol, rq_destination = destination, rq_client = client, rq_header = header,
      rq_tenant = None, rq_identity = None, rq_authorized = None\<rparr>"

definition authorize :: "authorized_destination \<Rightarrow> tunnel_request \<Rightarrow> tunnel_request" where
  "authorize destination rq = rq\<lparr>rq_authorized := Some destination\<rparr>"

definition request_target :: "tunnel_request \<Rightarrow> target option" where
  "request_target rq = as_target (rq_destination rq)"

subsection \<open>Answers\<close>

record rejection =
  rj_status :: nat
  rj_proxy_error :: "string option"
  rj_detail :: string
  rj_headers :: "(string \<times> string) list"

definition rejection_new :: "nat \<Rightarrow> string \<Rightarrow> rejection" where
  "rejection_new status detail =
     \<lparr>rj_status = status, rj_proxy_error = None, rj_detail = detail, rj_headers = []\<rparr>"

definition with_proxy_error :: "string \<Rightarrow> rejection \<Rightarrow> rejection" where
  "with_proxy_error e r = r\<lparr>rj_proxy_error := Some e\<rparr>"

definition header_insert :: "string \<Rightarrow> string \<Rightarrow> (string \<times> string) list \<Rightarrow> (string \<times> string) list" where
  "header_insert name v hs = (name, v) # filter (\<lambda>(n, _). n \<noteq> name) hs"

definition rejection_with_header :: "string \<Rightarrow> string \<Rightarrow> rejection \<Rightarrow> rejection" where
  "rejection_with_header name v r = r\<lparr>rj_headers := header_insert name v (rj_headers r)\<rparr>"

definition forbidden :: "string \<Rightarrow> rejection" where
  "forbidden detail = with_proxy_error ''destination_ip_prohibited'' (rejection_new 403 detail)"

definition dns_error :: "string \<Rightarrow> rejection" where
  "dns_error detail = with_proxy_error ''dns_error'' (rejection_new 502 detail)"

definition unavailable :: "string \<Rightarrow> rejection" where
  "unavailable detail = with_proxy_error ''proxy_internal_error'' (rejection_new 502 detail)"

definition proxy_auth_required :: "string \<Rightarrow> rejection" where
  "proxy_auth_required scheme =
     rejection_with_header ''proxy-authenticate'' scheme
       (with_proxy_error ''http_request_denied'' (rejection_new 407 ''proxy authentication required''))"

definition bad_request :: "string \<Rightarrow> rejection" where
  "bad_request detail = rejection_new 400 detail"

datatype 'h accepted_kind =
    AcUdp 'h socket_addr
  | AcTcp 'h socket_addr
  | AcIp 'h

text \<open>
  A rate limiter is shared: it is named by the table key it was created under, together with the
  rate it was created with. A guard is the permit a tunnel holds while it lives.
\<close>

record rate_limiter =
  rl_key :: string
  rl_rate :: u64

record tunnel_end =
  te_sid :: string
  te_deadline :: "nat option"

record tunnel_limits =
  tl_bandwidth :: "rate_limiter option"
  tl_packet_rate :: "rate_limiter option"
  tl_total_bytes :: "u64 option"
  tl_end :: "tunnel_end option"

definition tunnel_limits_default :: tunnel_limits where
  "tunnel_limits_default = \<lparr>tl_bandwidth = None, tl_packet_rate = None, tl_total_bytes = None, tl_end = None\<rparr>"

definition tunnel_limits_is_empty :: "tunnel_limits \<Rightarrow> bool" where
  "tunnel_limits_is_empty l \<longleftrightarrow>
     tl_bandwidth l = None \<and> tl_packet_rate l = None \<and> tl_total_bytes l = None \<and> tl_end l = None"

datatype tunnel_guard = QuotaPermit string

record 'h accepted =
  ac_kind :: "'h accepted_kind"
  ac_headers :: "(string \<times> string) list"
  ac_guards :: "tunnel_guard list"
  ac_limits :: tunnel_limits
  ac_meter :: "string option"

definition accepted_of :: "'h accepted_kind \<Rightarrow> 'h accepted" where
  "accepted_of kind = \<lparr>ac_kind = kind, ac_headers = [], ac_guards = [],
     ac_limits = tunnel_limits_default, ac_meter = None\<rparr>"

definition accepted_udp :: "'h \<Rightarrow> socket_addr \<Rightarrow> 'h accepted" where
  "accepted_udp socket peer = accepted_of (AcUdp socket peer)"

definition accepted_tcp :: "'h \<Rightarrow> socket_addr \<Rightarrow> 'h accepted" where
  "accepted_tcp stream peer = accepted_of (AcTcp stream peer)"

definition accepted_with_header :: "string \<Rightarrow> string \<Rightarrow> 'h accepted \<Rightarrow> 'h accepted" where
  "accepted_with_header name v a = a\<lparr>ac_headers := header_insert name v (ac_headers a)\<rparr>"

definition hold :: "tunnel_guard \<Rightarrow> 'h accepted \<Rightarrow> 'h accepted" where
  "hold guard a = a\<lparr>ac_guards := ac_guards a @ [guard]\<rparr>"

definition with_limits :: "tunnel_limits \<Rightarrow> 'h accepted \<Rightarrow> 'h accepted" where
  "with_limits l a = a\<lparr>ac_limits := l\<rparr>"

definition with_end :: "tunnel_end \<Rightarrow> 'h accepted \<Rightarrow> 'h accepted" where
  "with_end e a = a\<lparr>ac_limits := (ac_limits a)\<lparr>tl_end := Some e\<rparr>\<rparr>"

definition with_meter :: "string \<Rightarrow> 'h accepted \<Rightarrow> 'h accepted" where
  "with_meter m a = a\<lparr>ac_meter := Some m\<rparr>"

definition accepted_peer :: "'h accepted \<Rightarrow> socket_addr option" where
  "accepted_peer a =
     (case ac_kind a of AcUdp _ p \<Rightarrow> Some p | AcTcp _ p \<Rightarrow> Some p | AcIp _ \<Rightarrow> None)"

datatype 'h outcome = Opened "'h accepted" | Refused rejection | Panicked

definition of_result :: "rejection + 'h accepted \<Rightarrow> 'h outcome" where
  "of_result r = (case r of Inl e \<Rightarrow> Refused e | Inr a \<Rightarrow> Opened a)"

type_synonym ('w, 'h) service = "tunnel_request \<Rightarrow> 'w \<Rightarrow> 'h outcome \<times> 'w"

subsection \<open>The innermost services\<close>

datatype io_error_kind = ConnectionRefused | TimedOut | OtherIoError

record io_error =
  ie_kind :: io_error_kind
  ie_text :: string

record 'h network =
  net_lookup :: "string \<Rightarrow> u16 \<Rightarrow> io_error + socket_addr list"
  net_udp_bind :: "socket_addr \<Rightarrow> io_error + 'h"
  net_udp_connect :: "'h \<Rightarrow> socket_addr \<Rightarrow> io_error + 'h"
  net_tcp_connect :: "socket_addr \<Rightarrow> io_error + 'h"

definition resolve :: "'h network \<Rightarrow> target \<Rightarrow> rejection + socket_addr list" where
  "resolve net t =
     (case tg_host t of
        Ip ip \<Rightarrow> Inr [SocketAddr ip (tg_port t)]
      | Name name \<Rightarrow>
          and_then (map_err (\<lambda>e. dns_error (''resolving '' @ name @ '': '' @ ie_text e))
            (net_lookup net name (tg_port t))) (\<lambda>addrs.
            if addrs = [] then Inl (dns_error (name @ '' resolved to nothing'')) else Inr addrs))"

definition connect_socket :: "'h network \<Rightarrow> socket_addr \<Rightarrow> io_error + 'h" where
  "connect_socket net addr =
     and_then (net_udp_bind net (SocketAddr (if is_ipv4 (sa_ip addr) then V4 0 else V6 0) 0))
       (\<lambda>socket. net_udp_connect net socket addr)"

text \<open>
  The loop both proxies run over the candidates: a prohibited address is skipped, the first address
  that opens is used, and the last failure is remembered.
\<close>

fun try_addresses ::
  "(socket_addr \<Rightarrow> string + unit) \<Rightarrow> (socket_addr \<Rightarrow> rejection + 'h accepted) \<Rightarrow>
     socket_addr list \<Rightarrow> rejection option \<Rightarrow> rejection option + 'h accepted" where
  "try_addresses permit attempt [] last_error = Inl last_error"
| "try_addresses permit attempt (addr # addrs) last_error =
     (case permit addr of
        Inl reason \<Rightarrow> try_addresses permit attempt addrs (Some (forbidden reason))
      | Inr _ \<Rightarrow>
          (case attempt addr of
             Inr a \<Rightarrow> Inr a
           | Inl e \<Rightarrow> try_addresses permit attempt addrs (Some e)))"

definition forward_target :: "tunnel_request \<Rightarrow> target \<Rightarrow> target" where
  "forward_target rq raw_target =
     ad_target (case rq_authorized rq of Some a \<Rightarrow> a | None \<Rightarrow> trusting raw_target)"

definition open_candidates ::
  "(socket_addr \<Rightarrow> string + unit) \<Rightarrow> (socket_addr \<Rightarrow> rejection + 'h accepted) \<Rightarrow> target \<Rightarrow>
     socket_addr list \<Rightarrow> rejection + 'h accepted" where
  "open_candidates permit attempt t addrs =
     map_err (\<lambda>last_error. case last_error of
        Some e \<Rightarrow> e
      | None \<Rightarrow> dns_error (target_display t @ '' resolved to nothing''))
       (try_addresses permit attempt addrs None)"

definition udp_attempt :: "'h network \<Rightarrow> socket_addr \<Rightarrow> rejection + 'h accepted" where
  "udp_attempt net addr =
     (case connect_socket net addr of
        Inr socket \<Rightarrow> Inr (accepted_udp socket addr)
      | Inl e \<Rightarrow> Inl (unavailable
          (''could not open a socket to '' @ display_socket_addr addr @ '': '' @ ie_text e)))"

definition open_tunnel ::
  "('n \<Rightarrow> ip_addr \<Rightarrow> bool) \<Rightarrow> 'h network \<Rightarrow> 'n address_policy \<Rightarrow> tunnel_request \<Rightarrow> rejection + 'h accepted"
where
  "open_tunnel contains net policy rq =
     (case as_udp (rq_destination rq) of
        None \<Rightarrow> Inl (rejection_new 501 ''UdpProxy only serves connect-udp'')
      | Some raw_target \<Rightarrow>
          (let t = forward_target rq raw_target
           in and_then (resolve net t) (\<lambda>addrs.
                open_candidates (permits contains policy) (udp_attempt net) t addrs)))"

definition tcp_connect_rejection :: "socket_addr \<Rightarrow> io_error \<Rightarrow> rejection" where
  "tcp_connect_rejection addr e =
     with_proxy_error
       (case ie_kind e of
          ConnectionRefused \<Rightarrow> ''connection_refused''
        | TimedOut \<Rightarrow> ''connection_timeout''
        | OtherIoError \<Rightarrow> ''proxy_internal_error'')
       (rejection_new 502 (''could not connect to '' @ display_socket_addr addr @ '': '' @ ie_text e))"

definition tcp_attempt :: "'h network \<Rightarrow> socket_addr \<Rightarrow> rejection + 'h accepted" where
  "tcp_attempt net addr =
     (case net_tcp_connect net addr of
        Inr stream \<Rightarrow> Inr (accepted_tcp stream addr)
      | Inl e \<Rightarrow> Inl (tcp_connect_rejection addr e))"

definition open_tcp_tunnel ::
  "('n \<Rightarrow> ip_addr \<Rightarrow> bool) \<Rightarrow> 'h network \<Rightarrow> 'n address_policy \<Rightarrow> tunnel_request \<Rightarrow> rejection + 'h accepted"
where
  "open_tcp_tunnel contains net policy rq =
     (case as_tcp (rq_destination rq) of
        None \<Rightarrow> Inl (rejection_new 501 ''TcpProxy only serves connect-tcp'')
      | Some raw_target \<Rightarrow>
          (let t = forward_target rq raw_target
           in and_then (resolve net t) (\<lambda>addrs.
                open_candidates (permits contains policy) (tcp_attempt net) t addrs)))"

record 'n dispatch =
  dp_udp :: "'n address_policy option"
  dp_tcp :: "'n address_policy option"

definition dispatch_new :: "'n dispatch" where
  "dispatch_new = \<lparr>dp_udp = None, dp_tcp = None\<rparr>"

definition dispatch_call ::
  "('n \<Rightarrow> ip_addr \<Rightarrow> bool) \<Rightarrow> 'h network \<Rightarrow> 'n dispatch \<Rightarrow> ('w, 'h) service" where
  "dispatch_call contains net d rq w =
     (of_result
       (case rq_protocol rq of
          ConnectUdp \<Rightarrow>
            (case dp_udp d of
               Some policy \<Rightarrow> open_tunnel contains net policy rq
             | None \<Rightarrow> Inl (rejection_new 501 ''this proxy does not serve connect-udp''))
        | ConnectTcp \<Rightarrow>
            (case dp_tcp d of
               Some policy \<Rightarrow> open_tcp_tunnel contains net policy rq
             | None \<Rightarrow> Inl (rejection_new 501 ''this proxy does not serve connect-tcp''))
        | ConnectIp \<Rightarrow> Inl (rejection_new 501 ''this proxy does not serve connect-ip'')), w)"

subsection \<open>What the proxies open\<close>

text \<open>
  The address a loop opens is permitted, and every address before it was either prohibited or could
  not be opened.
\<close>

definition usable ::
  "(socket_addr \<Rightarrow> string + unit) \<Rightarrow> (socket_addr \<Rightarrow> rejection + 'h accepted) \<Rightarrow> socket_addr \<Rightarrow> bool" where
  "usable permit attempt addr \<longleftrightarrow> permit addr = Inr () \<and> (\<exists>a. attempt addr = Inr a)"

definition first_open ::
  "(socket_addr \<Rightarrow> string + unit) \<Rightarrow> (socket_addr \<Rightarrow> rejection + 'h accepted) \<Rightarrow>
     socket_addr list \<Rightarrow> 'h accepted \<Rightarrow> bool" where
  "first_open permit attempt addrs a \<longleftrightarrow>
     (\<exists>addr. find_first (usable permit attempt) addrs = Some addr \<and> attempt addr = Inr a)"

lemma try_addresses_Inr: "try_addresses permit attempt addrs e = Inr a \<longleftrightarrow> first_open permit attempt addrs a"
proof (induction addrs arbitrary: e)
  case Nil
  show ?case by (simp add: first_open_def)
next
  case (Cons x xs)
  show ?case
    by (cases "permit x"; cases "attempt x") (auto simp: first_open_def usable_def Cons.IH)
qed

lemma try_addresses_prohibited:
  "addrs \<noteq> [] \<Longrightarrow> \<forall>x \<in> set addrs. permit x \<noteq> Inr () \<Longrightarrow>
     \<exists>reason. try_addresses permit attempt addrs e = Inl (Some (forbidden reason))"
proof (induction addrs arbitrary: e)
  case (Cons x xs)
  then obtain reason where "permit x = Inl reason" by (cases "permit x") auto
  then show ?case using Cons by (cases xs) auto
qed simp

lemma udp_attempt_peer: "udp_attempt net addr = Inr a \<Longrightarrow> accepted_peer a = Some addr"
  by (auto simp: udp_attempt_def accepted_peer_def accepted_udp_def accepted_of_def split: sum.splits)

lemma tcp_attempt_peer: "tcp_attempt net addr = Inr a \<Longrightarrow> accepted_peer a = Some addr"
  by (auto simp: tcp_attempt_def accepted_peer_def accepted_tcp_def accepted_of_def split: sum.splits)

text \<open>The attempt and the address rules a request's protocol runs with.\<close>

definition dispatch_policy :: "'n dispatch \<Rightarrow> protocol \<Rightarrow> 'n address_policy option" where
  "dispatch_policy d p = (case p of ConnectUdp \<Rightarrow> dp_udp d | ConnectTcp \<Rightarrow> dp_tcp d | ConnectIp \<Rightarrow> None)"

definition dispatch_attempt :: "'h network \<Rightarrow> protocol \<Rightarrow> socket_addr \<Rightarrow> rejection + 'h accepted" where
  "dispatch_attempt net p = (if p = ConnectUdp then udp_attempt net else tcp_attempt net)"

lemma dispatch_attempt_peer: "dispatch_attempt net p addr = Inr a \<Longrightarrow> accepted_peer a = Some addr"
  by (auto simp: dispatch_attempt_def udp_attempt_peer tcp_attempt_peer split: if_splits)

lemma open_candidates_Inr:
  "open_candidates permit attempt t addrs = Inr a \<longleftrightarrow> first_open permit attempt addrs a"
  by (simp add: open_candidates_def try_addresses_Inr)

lemma dispatch_opened:
  assumes "dispatch_call contains net d rq w = (Opened a, w')"
  shows "w' = w \<and> (\<exists>raw policy addrs. request_target rq = Some raw \<and>
    dispatch_policy d (rq_protocol rq) = Some policy \<and>
    resolve net (forward_target rq raw) = Inr addrs \<and>
    first_open (permits contains policy) (dispatch_attempt net (rq_protocol rq)) addrs a)"
proof -
  have ok: "of_result r = Opened a \<longleftrightarrow> r = Inr a" for r
    by (cases r) (auto simp: of_result_def)
  show ?thesis
    using assms
    by (cases "rq_protocol rq"; cases "rq_destination rq")
       (auto simp: dispatch_call_def ok open_tunnel_def open_tcp_tunnel_def as_udp_def as_tcp_def
         request_target_def as_target_def dispatch_policy_def dispatch_attempt_def and_then_Inr_iff
         open_candidates_Inr Let_def split: option.splits)
qed

lemma dispatch_never_panics: "dispatch_call contains net d rq w \<noteq> (Panicked, w')"
proof -
  have "of_result r \<noteq> Panicked" for r :: "rejection + 'h accepted" by (cases r) (auto simp: of_result_def)
  then show ?thesis by (auto simp: dispatch_call_def split: protocol.splits option.splits)
qed

lemma dispatch_choice:
  assumes "dispatch_call contains net d rq w = (Opened a, w')"
  obtains raw policy us addr vs where "request_target rq = Some raw"
    "dispatch_policy d (rq_protocol rq) = Some policy"
    "resolve net (forward_target rq raw) = Inr (us @ addr # vs)"
    "accepted_peer a = Some addr" "permits contains policy addr = Inr ()"
    "\<forall>u \<in> set us. permits contains policy u \<noteq> Inr () \<or> (\<exists>e. dispatch_attempt net (rq_protocol rq) u = Inl e)"
proof -
  obtain raw policy addrs where
    r: "request_target rq = Some raw" "dispatch_policy d (rq_protocol rq) = Some policy"
      "resolve net (forward_target rq raw) = Inr addrs"
    and f: "first_open (permits contains policy) (dispatch_attempt net (rq_protocol rq)) addrs a"
    using dispatch_opened [OF assms] by blast
  obtain us addr vs where "addrs = us @ addr # vs" "permits contains policy addr = Inr ()"
    "dispatch_attempt net (rq_protocol rq) addr = Inr a"
    "\<forall>u \<in> set us. permits contains policy u \<noteq> Inr () \<or> (\<exists>e. dispatch_attempt net (rq_protocol rq) u = Inl e)"
    using f by (auto simp: first_open_def usable_def find_first_Some_iff) (metis sum.exhaust)
  with r show ?thesis using that dispatch_attempt_peer by blast
qed

text \<open>
  The address floor holds behind every protocol: a tunnel the router opens is connected to an
  address that the address policy of its protocol permits, the address is one the authorized target
  resolves to, and the earlier candidates were prohibited or could not be reached. In particular a
  target that is an address literal is reached at that address only.
\<close>

theorem opened_address_permitted:
  assumes "dispatch_call contains net d rq w = (Opened a, w')"
  shows "\<exists>raw policy us addr vs. request_target rq = Some raw \<and>
    dispatch_policy d (rq_protocol rq) = Some policy \<and>
    resolve net (forward_target rq raw) = Inr (us @ addr # vs) \<and>
    accepted_peer a = Some addr \<and> permits contains policy addr = Inr () \<and>
    (\<forall>u \<in> set us. permits contains policy u \<noteq> Inr () \<or>
       (\<exists>e. dispatch_attempt net (rq_protocol rq) u = Inl e)) \<and>
    (\<forall>ip. tg_host (forward_target rq raw) = Ip ip \<longrightarrow> addr = SocketAddr ip (tg_port (forward_target rq raw)))"
proof -
  obtain raw policy us addr vs where c: "request_target rq = Some raw"
    "dispatch_policy d (rq_protocol rq) = Some policy"
    "resolve net (forward_target rq raw) = Inr (us @ addr # vs)"
    "accepted_peer a = Some addr" "permits contains policy addr = Inr ()"
    "\<forall>u \<in> set us. permits contains policy u \<noteq> Inr () \<or> (\<exists>e. dispatch_attempt net (rq_protocol rq) u = Inl e)"
    using assms by (rule dispatch_choice)
  have lit: "addr = SocketAddr ip (tg_port (forward_target rq raw))"
    if "tg_host (forward_target rq raw) = Ip ip" for ip
    using c(3) that by (cases us) (auto simp: resolve_def)
  show ?thesis using c lit by blast
qed

definition sample_network :: "nat network" where
  "sample_network =
     \<lparr>net_lookup = (\<lambda>name port. Inr [SocketAddr (V4 0x7F000001) port, SocketAddr (V4 0xC6336401) port]),
      net_udp_bind = (\<lambda>_. Inr 0), net_udp_connect = (\<lambda>h _. Inr h), net_tcp_connect = (\<lambda>_. Inr 1)\<rparr>"

definition sample_tunnel :: tunnel_request where
  "sample_tunnel = request_new ConnectTcp (DestTcp \<lparr>tg_host = Name ''a'', tg_port = 443\<rparr>)
     (SocketAddr (V4 0x0A000001) 50000) (\<lambda>_. None)"

definition sample_dispatch :: "unit dispatch" where
  "sample_dispatch = \<lparr>dp_udp = None, dp_tcp = Some address_policy_default\<rparr>"

lemma sample_tunnel_opens:
  "dispatch_call (\<lambda>_ _. False) sample_network sample_dispatch sample_tunnel ()
     = (Opened (accepted_tcp 1 (SocketAddr (V4 0xC6336401) 443)), ())"
  by (simp add: dispatch_call_def sample_network_def sample_dispatch_def sample_tunnel_def
      request_new_def open_tcp_tunnel_def as_tcp_def forward_target_def trusting_def resolve_def
      open_candidates_def permits_def address_policy_default_def unmapped_def permits_v4_def
      v4_is_unspecified_def v4_is_loopback_def v4_is_private_def v4_is_link_local_def
      v4_is_multicast_def v4_is_broadcast_def is_shared_v4_def v4_octet_def tcp_attempt_def of_result_def)

theorem opened_address_permitted_witness:
  "\<exists>raw policy us addr vs. request_target sample_tunnel = Some raw \<and>
    dispatch_policy sample_dispatch ConnectTcp = Some policy \<and>
    resolve sample_network (forward_target sample_tunnel raw) = Inr (us @ addr # vs) \<and>
    accepted_peer (accepted_tcp (1 :: nat) (SocketAddr (V4 0xC6336401) 443)) = Some addr \<and>
    permits (\<lambda>_ _. False) policy addr = Inr ()"
  using opened_address_permitted [OF sample_tunnel_opens]
  by (simp add: sample_tunnel_def request_new_def) blast

end
