(* ===== verification/Audit_Trail.thy ===== *)
theory Audit_Trail
  imports Target Policy_Eval
begin

text \<open>
  Audited decisions (\<^verbatim>\<open>skimasque/src/audit.rs\<close>): the event built from a policy decision and the
  timestamp printed on it. The date arithmetic of the timestamp is proved against the calendar:
  consecutive day numbers give consecutive calendar days. Writing an event out (JSON lines, tracing)
  is input/output and not modelled.
\<close>

record audit_event =
  ae_timestamp :: string
  ae_decision :: string
  ae_protocol :: string
  ae_application :: string
  ae_destination :: string
  ae_client :: string
  ae_identity :: workload_identity
  ae_policy :: "string option"
  ae_rule :: "string option"
  ae_reason :: "string option"
  ae_suggested_rule :: "string option"
  ae_requested_policy :: "string option"
  ae_org_id :: "string option"

subsection \<open>Timestamps\<close>

text \<open>Zero-padding to a minimum width, as \<^verbatim>\<open>{:04}\<close> does for a non-negative number.\<close>

definition pad_zeroes :: "nat \<Rightarrow> nat \<Rightarrow> string" where
  "pad_zeroes width n =
     (let s = nat_to_string n in replicate (width - length s) (CHR ''0'') @ s)"

text \<open>Division truncates towards zero; only the first one can see a negative number.\<close>

definition civil_from_days :: "int \<Rightarrow> int \<times> int \<times> int" where
  "civil_from_days days =
     (let z = days + 719468;
          era = (if z \<ge> 0 then z div 146097 else - ((146096 - z) div 146097));
          doe = z - era * 146097;
          yoe = (doe - doe div 1460 + doe div 36524 - doe div 146096) div 365;
          doy = doe - (365 * yoe + yoe div 4 - yoe div 100);
          mp = (5 * doy + 2) div 153;
          day = doy - (153 * mp + 2) div 5 + 1;
          month = (if mp < 10 then mp + 3 else mp - 9);
          year = yoe + era * 400 + (if month \<le> 2 then 1 else 0)
      in (year, month, day))"

text \<open>The time is nanoseconds since the epoch; earlier times are clamped to it.\<close>

definition rfc3339 :: "int \<Rightarrow> string" where
  "rfc3339 time =
     (let ns = (if time < 0 then 0 else nat time);
          secs = ns div 10 ^ 9;
          millis = ns mod 10 ^ 9 div 10 ^ 6;
          days = secs div 86400;
          day_secs = secs mod 86400;
          hour = day_secs div 3600;
          minute = day_secs mod 3600 div 60;
          second = day_secs mod 60
      in case civil_from_days (int days) of (year, month, day) \<Rightarrow>
           pad_zeroes 4 (nat year) @ ''-'' @ pad_zeroes 2 (nat month) @ ''-'' @ pad_zeroes 2 (nat day) @
           ''T'' @ pad_zeroes 2 hour @ '':'' @ pad_zeroes 2 minute @ '':'' @ pad_zeroes 2 second @
           ''.'' @ pad_zeroes 3 millis @ ''Z'')"

subsection \<open>Events\<close>

definition from_decision ::
  "int \<Rightarrow> decision \<Rightarrow> string \<Rightarrow> string \<Rightarrow> string \<Rightarrow> string \<Rightarrow> workload_identity \<Rightarrow> audit_event" where
  "from_decision now d protocol application destination client identity =
     (let common = (\<lambda>word. \<lparr>ae_timestamp = rfc3339 now, ae_decision = word, ae_protocol = protocol,
            ae_application = [], ae_destination = [], ae_client = [], ae_identity = identity,
            ae_policy = None, ae_rule = None, ae_reason = None, ae_suggested_rule = None,
            ae_requested_policy = None, ae_org_id = None\<rparr>);
          event = (case d of
              Allow a \<Rightarrow> (common ''allow'')\<lparr>ae_policy := Some (al_policy a), ae_rule := Some (al_rule a)\<rparr>
            | Deny x \<Rightarrow> (common ''deny'')\<lparr>ae_policy := dn_policy x,
                ae_reason := Some (reason_summary (dn_reason x)),
                ae_suggested_rule := Some (dn_suggested_rule x)\<rparr>)
      in event\<lparr>ae_application := application, ae_destination := destination, ae_client := client\<rparr>)"

subsection \<open>The calendar\<close>

definition leap_year :: "int \<Rightarrow> bool" where
  "leap_year y \<longleftrightarrow> y mod 4 = 0 \<and> (y mod 100 \<noteq> 0 \<or> y mod 400 = 0)"

definition month_length :: "int \<Rightarrow> int \<Rightarrow> int" where
  "month_length y m =
     (if m = 2 then (if leap_year y then 29 else 28)
      else if m \<in> {4, 6, 9, 11} then 30 else 31)"

definition next_day :: "int \<times> int \<times> int \<Rightarrow> int \<times> int \<times> int" where
  "next_day date =
     (case date of (y, m, d) \<Rightarrow>
        if d < month_length y m then (y, m, d + 1)
        else if m < 12 then (y, m + 1, 1)
        else (y + 1, 1, 1))"

text \<open>
  The algorithm counts years from March, inside an era of 400 years. A day of an era is split here
  as the calendar does: centuries \<open>c\<close>, leap cycles \<open>q\<close> of four years, years \<open>t\<close> of the cycle and the
  day \<open>w\<close> of the year; the year is long when a leap day ends it.
\<close>

lemma int_div_eqI: "k * b \<le> a \<Longrightarrow> a < (k + 1) * b \<Longrightarrow> a div b = k" for a b k :: int
  by (rule int_div_pos_eq [where r = "a - k * b"]) (auto simp: algebra_simps)

definition last_day :: "int \<Rightarrow> int \<Rightarrow> int \<Rightarrow> int" where
  "last_day c q t = (if t = 3 \<and> (q \<noteq> 24 \<or> c = 3) then 365 else 364)"

definition era_day :: "int \<Rightarrow> int \<Rightarrow> int \<Rightarrow> int \<Rightarrow> bool" where
  "era_day c q t w \<longleftrightarrow> 0 \<le> c \<and> c \<le> 3 \<and> 0 \<le> q \<and> q \<le> 24 \<and> 0 \<le> t \<and> t \<le> 3 \<and> 0 \<le> w \<and> w \<le> last_day c q t"

definition doe_of :: "int \<Rightarrow> int \<Rightarrow> int \<Rightarrow> int \<Rightarrow> int" where
  "doe_of c q t w = 36524 * c + 1461 * q + 365 * t + w"

lemma era_day_last: "era_day c q t w \<Longrightarrow> w \<le> 365 \<and> (w = 365 \<longrightarrow> t = 3)"
  by (auto simp: era_day_def last_day_def split: if_splits)

lemma era_day_small:
  "era_day c q t w \<Longrightarrow> \<not> (c = 3 \<and> q = 24 \<and> t = 3 \<and> w = 365) \<Longrightarrow> 1461 * q + 365 * t + w < 36524"
  by (auto simp: era_day_def last_day_def split: if_splits)

lemma yoe_of_era_day:
  assumes "era_day c q t w"
  defines "d \<equiv> doe_of c q t w"
  shows "(d - d div 1460 + d div 36524 - d div 146096) div 365 = 100 * c + 4 * q + t"
proof (cases "c = 3 \<and> q = 24 \<and> t = 3 \<and> w = 365")
  case True
  then show ?thesis by (simp add: d_def doe_of_def)
next
  case False
  have b: "0 \<le> c" "c \<le> 3" "0 \<le> q" "q \<le> 24" "0 \<le> t" "t \<le> 3" "0 \<le> w" "w \<le> 365" "w = 365 \<Longrightarrow> t = 3"
    using assms(1) era_day_last [OF assms(1)] by (auto simp: era_day_def)
  note small = era_day_small [OF assms(1) False]
  define e where "e = (24 * c + q + 365 * t + w) div 1460"
  have "d div 36524 = c" using small b by (intro int_div_eqI) (simp_all add: d_def doe_of_def)
  moreover have "d div 146096 = 0" using small b by (intro int_div_eqI) (simp_all add: d_def doe_of_def)
  moreover have "d div 1460 = 25 * c + q + e"
  proof -
    have "d = (25 * c + q) * 1460 + (24 * c + q + 365 * t + w)" by (simp add: d_def doe_of_def)
    then show ?thesis by (simp add: e_def)
  qed
  moreover have e: "e = 0 \<and> 24 * c + q + 365 * t + w < 1460 \<or> e = 1 \<and> 1460 \<le> 24 * c + q + 365 * t + w"
  proof (cases "24 * c + q + 365 * t + w < 1460")
    case True
    then show ?thesis using b by (simp add: e_def div_pos_pos_trivial)
  next
    case False
    then have "e = 1" unfolding e_def using b by (intro int_div_eqI) simp_all
    then show ?thesis using False by simp
  qed
  moreover have "(36500 * c + 1460 * q + 365 * t + w - e) div 365 = 100 * c + 4 * q + t"
  proof (rule int_div_eqI)
    show "(100 * c + 4 * q + t) * 365 \<le> 36500 * c + 1460 * q + 365 * t + w - e"
      using e b by auto
    show "36500 * c + 1460 * q + 365 * t + w - e < (100 * c + 4 * q + t + 1) * 365"
      using e b by (cases "w = 365") auto
  qed
  ultimately show ?thesis by (simp add: d_def doe_of_def algebra_simps)
qed

lemma doy_of_era_day:
  assumes "era_day c q t w"
  shows "doe_of c q t w -
    (365 * (100 * c + 4 * q + t) + (100 * c + 4 * q + t) div 4 - (100 * c + 4 * q + t) div 100) = w"
proof -
  have "(100 * c + 4 * q + t) div 4 = 25 * c + q" "(100 * c + 4 * q + t) div 100 = c"
    using assms by (auto intro!: int_div_eqI simp: era_day_def)
  then show ?thesis by (simp add: doe_of_def)
qed

lemma era_day_exists:
  assumes "0 \<le> d" "d < 146097"
  obtains c q t w where "era_day c q t w" "d = doe_of c q t w"
proof (cases "d = 146096")
  case True
  then show ?thesis using that [of 3 24 3 365] by (simp add: era_day_def last_day_def doe_of_def)
next
  case False
  define c s q u t where "c = d div 36524" and "s = d mod 36524" and "q = s div 1461"
    and "u = s mod 1461" and "t = min 3 (u div 365)"
  have c: "0 \<le> c" "c \<le> 3" "0 \<le> s" "s < 36524" "d = 36524 * c + s"
    using assms False by (auto simp: c_def s_def div_less_iff_less_mult)
  have q: "0 \<le> q" "q \<le> 24" "0 \<le> u" "u \<le> 1460" "s = 1461 * q + u"
    using c by (auto simp: q_def u_def)
  have t: "0 \<le> t" "t \<le> 3" "365 * t \<le> u" "u - 365 * t \<le> (if t = 3 then 365 else 364)"
    using q by (auto simp: t_def min_def)
  have "era_day c q t (u - 365 * t)"
  proof -
    have "u - 365 * t \<le> 364" if "q = 24" using that q(5) c(4) t(3,4) by (auto split: if_splits)
    then show ?thesis using c q t by (auto simp: era_day_def last_day_def split: if_splits)
  qed
  then show ?thesis using that c(5) q(5) by (simp add: doe_of_def)
qed

definition march_civil :: "int \<Rightarrow> int \<Rightarrow> int \<times> int \<times> int" where
  "march_civil Y w =
     (let mp = (5 * w + 2) div 153;
          month = (if mp < 10 then mp + 3 else mp - 9)
      in (Y + (if month \<le> 2 then 1 else 0), month, w - (153 * mp + 2) div 5 + 1))"

lemma march_civil_at:
  assumes "153 * k \<le> 5 * w + 2" "5 * w + 2 < 153 * (k + 1)"
  shows "march_civil Y w =
    (let month = (if k < 10 then k + 3 else k - 9)
     in (Y + (if month \<le> 2 then 1 else 0), month, w - (153 * k + 2) div 5 + 1))"
proof -
  have "(5 * w + 2) div 153 = k" using assms by (intro int_div_eqI) simp_all
  then show ?thesis by (simp add: march_civil_def)
qed

text \<open>The table of months the two divisions encode.\<close>

lemma march_civil_table:
  assumes "0 \<le> w" "w \<le> 365"
  shows "march_civil Y w =
     (if w \<le> 30 then (Y, 3, w + 1)
      else if w \<le> 60 then (Y, 4, w - 30)
      else if w \<le> 91 then (Y, 5, w - 60)
      else if w \<le> 121 then (Y, 6, w - 91)
      else if w \<le> 152 then (Y, 7, w - 121)
      else if w \<le> 183 then (Y, 8, w - 152)
      else if w \<le> 213 then (Y, 9, w - 183)
      else if w \<le> 244 then (Y, 10, w - 213)
      else if w \<le> 274 then (Y, 11, w - 244)
      else if w \<le> 305 then (Y, 12, w - 274)
      else if w \<le> 336 then (Y + 1, 1, w - 305)
      else (Y + 1, 2, w - 336))"
proof -
  have a: "march_civil Y w = (Y, 3, w + 1)" if "0 \<le> w" "w \<le> 30"
    using that by (subst march_civil_at [of 0]) simp_all
  have b: "march_civil Y w = (Y, 4, w - 30)" if "31 \<le> w" "w \<le> 60"
    using that by (subst march_civil_at [of 1]) simp_all
  have c: "march_civil Y w = (Y, 5, w - 60)" if "61 \<le> w" "w \<le> 91"
    using that by (subst march_civil_at [of 2]) simp_all
  have d: "march_civil Y w = (Y, 6, w - 91)" if "92 \<le> w" "w \<le> 121"
    using that by (subst march_civil_at [of 3]) simp_all
  have e: "march_civil Y w = (Y, 7, w - 121)" if "122 \<le> w" "w \<le> 152"
    using that by (subst march_civil_at [of 4]) simp_all
  have f: "march_civil Y w = (Y, 8, w - 152)" if "153 \<le> w" "w \<le> 183"
    using that by (subst march_civil_at [of 5]) simp_all
  have g: "march_civil Y w = (Y, 9, w - 183)" if "184 \<le> w" "w \<le> 213"
    using that by (subst march_civil_at [of 6]) simp_all
  have h: "march_civil Y w = (Y, 10, w - 213)" if "214 \<le> w" "w \<le> 244"
    using that by (subst march_civil_at [of 7]) simp_all
  have i: "march_civil Y w = (Y, 11, w - 244)" if "245 \<le> w" "w \<le> 274"
    using that by (subst march_civil_at [of 8]) simp_all
  have j: "march_civil Y w = (Y, 12, w - 274)" if "275 \<le> w" "w \<le> 305"
    using that by (subst march_civil_at [of 9]) simp_all
  have k: "march_civil Y w = (Y + 1, 1, w - 305)" if "306 \<le> w" "w \<le> 336"
    using that by (subst march_civil_at [of 10]) simp_all
  have l: "march_civil Y w = (Y + 1, 2, w - 336)" if "337 \<le> w" "w \<le> 365"
    using that by (subst march_civil_at [of 11]) simp_all
  show ?thesis using assms a b c d e f g h i j k l by simp
qed

lemma march_civil_next:
  assumes "0 \<le> w" "w < (if leap_year (Y + 1) then 365 else 364)"
  shows "march_civil Y (w + 1) = next_day (march_civil Y w)"
  using assms
  by (simp add: march_civil_table next_day_def month_length_def split: if_splits)

lemma march_civil_new_year:
  "march_civil (Y + 1) 0 = next_day (march_civil Y (if leap_year (Y + 1) then 365 else 364))"
  by (simp add: march_civil_table next_day_def month_length_def)

lemma last_day_leap:
  assumes "0 \<le> c" "c \<le> 3" "0 \<le> q" "q \<le> 24" "0 \<le> t" "t \<le> 3"
  shows "last_day c q t = (if leap_year (400 * era + (100 * c + 4 * q + t) + 1) then 365 else 364)"
proof -
  define n where "n = 100 * c + 4 * q + t + 1"
  have y: "400 * era + (100 * c + 4 * q + t) + 1 = n + era * 400" by (simp add: n_def)
  have "(n + era * 400) mod 4 = n mod 4" "(n + era * 400) mod 100 = n mod 100"
    "(n + era * 400) mod 400 = n mod 400"
    using mod_mult_self1 [of n "era * 100" 4] mod_mult_self1 [of n "era * 4" 100]
    by (simp_all add: mult.commute)
  moreover have "n mod 4 = 0 \<longleftrightarrow> t = 3" using assms unfolding n_def by presburger
  moreover have "n mod 100 = 0 \<longleftrightarrow> q = 24 \<and> t = 3"
  proof -
    have "n mod 100 = (4 * q + t + 1) mod 100"
      using mod_mult_self1 [of "4 * q + t + 1" c 100] by (simp add: n_def algebra_simps)
    then show ?thesis
      using assms zdvd_imp_le [of 100 "4 * q + t + 1"] by (cases "q = 24 \<and> t = 3") auto
  qed
  moreover have "n mod 400 = 0 \<longleftrightarrow> c = 3 \<and> q = 24 \<and> t = 3"
    using assms zdvd_imp_le [of 400 "100 * c + 4 * q + t + 1"]
    by (cases "c = 3 \<and> q = 24 \<and> t = 3") (auto simp: n_def)
  ultimately show ?thesis by (auto simp: y leap_year_def last_day_def)
qed

lemma civil_from_era_day:
  assumes "era_day c q t w" "0 \<le> era"
  shows "civil_from_days (146097 * era + doe_of c q t w - 719468)
           = march_civil (100 * c + 4 * q + t + era * 400) w"
proof -
  define z where "z = 146097 * era + doe_of c q t w"
  have d: "0 \<le> doe_of c q t w" "doe_of c q t w < 146097"
    using assms(1) by (auto simp: era_day_def doe_of_def last_day_def split: if_splits)
  then have "z div 146097 = era" unfolding z_def by (intro int_div_eqI) simp_all
  moreover have "0 \<le> z" using d assms(2) by (simp add: z_def)
  moreover have "z - 719468 + 719468 = z" by simp
  moreover have "z - era * 146097 = doe_of c q t w" by (simp add: z_def)
  ultimately show ?thesis
    unfolding z_def [symmetric] civil_from_days_def march_civil_def Let_def
    by (simp only: if_True yoe_of_era_day [OF assms(1)] doy_of_era_day [OF assms(1)])
qed

lemma civil_step:
  assumes "era_day c q t w" "0 \<le> era"
  shows "civil_from_days (146097 * era + doe_of c q t w - 719468 + 1)
           = next_day (march_civil (100 * c + 4 * q + t + era * 400) w)"
proof -
  have b: "0 \<le> c" "c \<le> 3" "0 \<le> q" "q \<le> 24" "0 \<le> t" "t \<le> 3" "0 \<le> w" "w \<le> last_day c q t"
    using assms(1) by (auto simp: era_day_def)
  define Y where "Y = 100 * c + 4 * q + t + era * 400"
  have last: "last_day c q t = (if leap_year (Y + 1) then 365 else 364)"
    using last_day_leap [OF b(1-6), of era] by (simp add: Y_def algebra_simps)
  show ?thesis
  proof (cases "w < last_day c q t")
    case True
    then have "era_day c q t (w + 1)" using b by (simp add: era_day_def)
    from civil_from_era_day [OF this assms(2)] show ?thesis
      using march_civil_next [of w Y] True b last by (simp add: doe_of_def algebra_simps Y_def)
  next
    case False
    then have w: "w = last_day c q t" using b by simp
    have new: "\<exists>c' q' t' era'. 0 \<le> era' \<and> era_day c' q' t' 0 \<and>
        100 * c' + 4 * q' + t' + era' * 400 = Y + 1 \<and>
        146097 * era' + doe_of c' q' t' 0 = 146097 * era + doe_of c q t w + 1"
    proof -
      consider "t < 3" | "t = 3" "q < 24" | "t = 3" "q = 24" "c < 3" | "t = 3" "q = 24" "c = 3"
        using b by linarith
      then show ?thesis
      proof cases
        case 1
        then show ?thesis using b w assms(2)
          by (intro exI [of _ c] exI [of _ q] exI [of _ "t + 1"] exI [of _ era])
             (auto simp: era_day_def last_day_def doe_of_def Y_def)
      next
        case 2
        then show ?thesis using b w assms(2)
          by (intro exI [of _ c] exI [of _ "q + 1"] exI [of _ 0] exI [of _ era])
             (auto simp: era_day_def last_day_def doe_of_def Y_def)
      next
        case 3
        then show ?thesis using b w assms(2)
          by (intro exI [of _ "c + 1"] exI [of _ 0] exI [of _ 0] exI [of _ era])
             (auto simp: era_day_def last_day_def doe_of_def Y_def)
      next
        case 4
        then show ?thesis using b w assms(2)
          by (intro exI [of _ 0] exI [of _ 0] exI [of _ 0] exI [of _ "era + 1"])
             (auto simp: era_day_def last_day_def doe_of_def Y_def)
      qed
    qed
    then obtain c' q' t' era' where n: "0 \<le> era'" "era_day c' q' t' 0"
      "100 * c' + 4 * q' + t' + era' * 400 = Y + 1"
      "146097 * era' + doe_of c' q' t' 0 = 146097 * era + doe_of c q t w + 1" by blast
    have "civil_from_days (146097 * era + doe_of c q t w - 719468 + 1) = march_civil (Y + 1) 0"
      using civil_from_era_day [OF n(2,1)] unfolding n(3,4) by (simp only: diff_add_eq)
    then show ?thesis using march_civil_new_year [of Y] by (simp add: w last flip: Y_def)
  qed
qed

lemma civil_from_days_next:
  assumes "- 719468 \<le> n"
  shows "civil_from_days (n + 1) = next_day (civil_from_days n)"
proof -
  define era where "era = (n + 719468) div 146097"
  obtain c q t w where p: "era_day c q t w" "(n + 719468) mod 146097 = doe_of c q t w"
    by (rule era_day_exists [of "(n + 719468) mod 146097"]) simp_all
  have n: "146097 * era + doe_of c q t w - 719468 = n"
    using p(2) by (simp add: era_def flip: p(2))
  have "0 \<le> era" using assms by (simp add: era_def pos_imp_zdiv_nonneg_iff)
  from civil_step [OF p(1) this] civil_from_era_day [OF p(1) this] show ?thesis by (simp add: n)
qed

text \<open>
  The date on an audit record is the calendar date: day zero is 1 January 1970, and every
  following day number is printed as the next day of the Gregorian calendar, leap years included.
  This is the equivalence of the division-only date algorithm with day-by-day counting.
\<close>

theorem timestamp_date_is_calendar_date:
  "civil_from_days (int n) = (next_day ^^ n) (1970, 1, 1)"
proof (induction n)
  case 0
  have "civil_from_days 0 = (1970, 1, 1)" by code_simp
  then show ?case by simp
next
  case (Suc n)
  have "civil_from_days (int n + 1) = next_day (civil_from_days (int n))"
    by (rule civil_from_days_next) simp
  then show ?case by (simp only: of_nat_Suc add.commute [of 1] Suc funpow.simps comp_apply)
qed

end
