(* ===== verification/Gateway_Layers.thy ===== *)
theory Gateway_Layers
  imports Tunnel_Service Audit_Trail
begin

text \<open>
  The layers around the proxies (\<^verbatim>\<open>skimasque/src/service.rs\<close> and
  \<^verbatim>\<open>skimasque/src/revocation.rs\<close>): bearer and identity checks, session revocation, policy
  enforcement with its audit trail, quotas and tenant metering. Each layer is a function from the
  service it wraps to a service, over one state that holds what the layers share: the clock, the
  revoked sessions, the policy set and tenant table in force, the audit trail, the quota tables and
  the usage meters. Credential verifiers, and the reader of a token's expiry (base64 and JSON), are
  arguments.
\<close>

subsection \<open>Shared state\<close>

text \<open>A counting semaphore: its size and the permits still available.\<close>

record semaphore =
  sem_size :: nat
  sem_available :: nat

record gateway =
  gw_now :: int
  gw_mono :: nat
  gw_revoked :: "string set"
  gw_policies :: policy_set
  gw_tenants :: tenant_snapshot
  gw_audit :: "audit_event list"
  gw_permits :: "string \<Rightarrow> semaphore option"
  gw_bandwidth :: "string \<Rightarrow> u64 option"
  gw_packets :: "string \<Rightarrow> u64 option"
  gw_usage :: tenant_usage

text \<open>The operations of the shared handles.\<close>

definition policy_store :: "policy_set \<Rightarrow> gateway \<Rightarrow> gateway" where
  "policy_store s w = w\<lparr>gw_policies := s\<rparr>"

definition revocations_replace :: "string list \<Rightarrow> gateway \<Rightarrow> gateway" where
  "revocations_replace sids w = (if gw_revoked w = set sids then w else w\<lparr>gw_revoked := set sids\<rparr>)"

definition is_revoked :: "string \<Rightarrow> gateway \<Rightarrow> bool" where
  "is_revoked sid w \<longleftrightarrow> sid \<in> gw_revoked w"

definition track :: "string \<Rightarrow> nat option \<Rightarrow> tunnel_end" where
  "track sid deadline = \<lparr>te_sid = sid, te_deadline = deadline\<rparr>"

datatype end_reason = Revoked | Expired

text \<open>
  What \<^verbatim>\<open>TunnelEnd::ended\<close> answers when it is polled; nothing while the session is live. When
  both have happened the select may answer either, so the answer is a set.
\<close>

definition ended :: "tunnel_end \<Rightarrow> gateway \<Rightarrow> end_reason set" where
  "ended e w =
     (if te_sid e \<in> gw_revoked w then {Revoked} else {}) \<union>
     (case te_deadline e of None \<Rightarrow> {} | Some d \<Rightarrow> if d \<le> gw_mono w then {Expired} else {})"

subsection \<open>Credentials\<close>

definition str_bytes :: "string \<Rightarrow> bytes" where
  "str_bytes s = map (\<lambda>c. of_nat (char_code c)) s"

definition constant_time_eq :: "bytes \<Rightarrow> bytes \<Rightarrow> bool" where
  "constant_time_eq a b =
     (if length a \<noteq> length b then False
      else foldl (\<lambda>diff (x, y). diff OR (x XOR y)) 0 (zip a b) = 0)"

definition bearer_token :: "tunnel_request \<Rightarrow> string option" where
  "bearer_token rq = Option.bind (rq_header rq ''proxy-authorization'') (strip_prefix ''Bearer '')"

definition authorize_call :: "string \<Rightarrow> (gateway, 'h) service \<Rightarrow> (gateway, 'h) service" where
  "authorize_call expected inner rq w =
     (case bearer_token rq of
        Some token \<Rightarrow>
          if constant_time_eq (str_bytes token) (str_bytes expected) then inner rq w
          else (Refused (proxy_auth_required ''Bearer''), w)
      | None \<Rightarrow> (Refused (proxy_auth_required ''Bearer''), w))"

definition identify_call ::
  "(string \<Rightarrow> gateway \<Rightarrow> string + workload_identity) \<Rightarrow> (gateway, 'h) service \<Rightarrow> (gateway, 'h) service"
where
  "identify_call verify inner rq w =
     (case bearer_token rq of
        None \<Rightarrow> (Refused (proxy_auth_required ''Bearer''), w)
      | Some token \<Rightarrow>
          (case verify token w of
             Inr identity \<Rightarrow> inner (rq\<lparr>rq_identity := Some identity\<rparr>) w
           | Inl reason \<Rightarrow>
               (Refused (with_proxy_error ''http_request_denied''
                  (rejection_new 403 (''workload identity token rejected: '' @ reason))), w)))"

definition tenant_identify_call ::
  "(string \<Rightarrow> gateway \<Rightarrow> string + (string \<times> workload_identity)) \<Rightarrow>
     (gateway, 'h) service \<Rightarrow> (gateway, 'h) service" where
  "tenant_identify_call verify inner rq w =
     (case bearer_token rq of
        None \<Rightarrow> (Refused (proxy_auth_required ''Bearer''), w)
      | Some token \<Rightarrow>
          (case verify token w of
             Inr (tenant, identity) \<Rightarrow> inner (rq\<lparr>rq_tenant := Some tenant, rq_identity := Some identity\<rparr>) w
           | Inl reason \<Rightarrow>
               (Refused (with_proxy_error ''http_request_denied''
                  (rejection_new 403 (''credential rejected: '' @ reason))), w)))"

subsection \<open>Session revocation\<close>

text \<open>\<open>decode_exp\<close> reads the expiry claim from the second segment of a token.\<close>

definition credential_expiry :: "(string \<Rightarrow> u64 option) \<Rightarrow> tunnel_request \<Rightarrow> u64 option" where
  "credential_expiry decode_exp rq =
     Option.bind (bearer_token rq) (\<lambda>token.
       (case split_on (CHR ''.'') token of _ # seg # _ \<Rightarrow> decode_exp seg | _ \<Rightarrow> None))"

text \<open>The greatest second a system time or an instant can hold; adding beyond it panics.\<close>

definition TIME_MAX_SECS :: nat where
  "TIME_MAX_SECS = 2 ^ 63 - 1"

definition attach_end :: "tunnel_end \<Rightarrow> 'h outcome \<times> gateway \<Rightarrow> 'h outcome \<times> gateway" where
  "attach_end e r = (case r of (Opened a, w) \<Rightarrow> (Opened (with_end e a), w) | _ \<Rightarrow> r)"

definition revoked_call ::
  "(string \<Rightarrow> u64 option) \<Rightarrow> (gateway, 'h) service \<Rightarrow> (gateway, 'h) service" where
  "revoked_call decode_exp inner rq w =
     (case Option.bind (rq_identity rq) wi_sid of
        None \<Rightarrow> inner rq w
      | Some sid \<Rightarrow>
          if is_revoked sid w then
            (Refused (with_proxy_error ''session_ended''
               (rejection_new 403 ''this session has ended; start a new one'')), w)
          else
            (case credential_expiry decode_exp rq of
               None \<Rightarrow> attach_end (track sid None) (inner rq w)
             | Some ex \<Rightarrow>
                 if TIME_MAX_SECS < unat ex then (Panicked, w)
                 else
                   (let left = int (unat ex) * 10 ^ 9 - gw_now w
                    in if left \<le> 0 then
                         (Refused (with_proxy_error ''session_expired''
                            (rejection_new 403 ''this session has expired; start a new one'')), w)
                       else if TIME_MAX_SECS < (gw_mono w + nat left) div 10 ^ 9 then (Panicked, w)
                       else attach_end (track sid (Some (gw_mono w + nat left))) (inner rq w))))"

subsection \<open>Policy enforcement\<close>

datatype mode = Enforce | Observe

record policy_layer =
  pl_tenants :: bool
  pl_mode :: mode
  pl_audit :: bool

definition APPLICATION_HEADER :: string where
  "APPLICATION_HEADER = ''x-masque-application''"

definition POLICY_HEADER :: string where
  "POLICY_HEADER = ''x-masque-policy''"

definition policy_transport :: "protocol \<Rightarrow> transport" where
  "policy_transport p = (case p of ConnectUdp \<Rightarrow> Udp | _ \<Rightarrow> Tcp)"

definition policy_destination :: "target \<Rightarrow> destination" where
  "policy_destination t =
     \<lparr>d_host = (case tg_host t of Name name \<Rightarrow> Host_Name (to_ascii_lowercase name) | Ip ip \<Rightarrow> Host_Ip ip),
      d_port = tg_port t\<rparr>"

definition denial_rejection :: "denied \<Rightarrow> rejection" where
  "denial_rejection d =
     (let detail =
        (case dn_reason d of
           PolicyMismatch _ _ \<Rightarrow> reason_summary (dn_reason d)
         | Baseline _ _ \<Rightarrow> reason_summary (dn_reason d)
         | _ \<Rightarrow>
             (case dn_policy d of
                Some p \<Rightarrow> ''policy '' @ quoted p @ '': '' @ reason_summary (dn_reason d) @
                  '' suggested rule: '' @ dn_suggested_rule d
              | None \<Rightarrow> reason_summary (dn_reason d) @ '' suggested rule: '' @ dn_suggested_rule d))
      in with_proxy_error ''destination_prohibited'' (rejection_new 403 detail))"

definition tenant_rejection :: "string \<Rightarrow> rejection" where
  "tenant_rejection detail = with_proxy_error ''http_request_denied'' (rejection_new 403 detail)"

text \<open>The one policy set a request may be judged by, and the organisation it belongs to.\<close>

definition policy_source ::
  "policy_layer \<Rightarrow> tunnel_request \<Rightarrow> gateway \<Rightarrow> rejection + (policy_set \<times> string option)" where
  "policy_source cfg rq w =
     (if \<not> pl_tenants cfg then Inr (gw_policies w, None)
      else
        (case rq_tenant rq of
           None \<Rightarrow> Inl (tenant_rejection ''no organisation resolved for this request'')
         | Some tenant_id \<Rightarrow>
             (case resolve_org (gw_tenants w) tenant_id of
                None \<Rightarrow> Inl (tenant_rejection ''organisation is not served by this gateway'')
              | Some t \<Rightarrow> Inr (tn_policy t, Some tenant_id))))"

definition enforce_context :: "tunnel_request \<Rightarrow> target \<Rightarrow> request_context" where
  "enforce_context rq t =
     \<lparr>rc_workload = (case rq_identity rq of Some i \<Rightarrow> i | None \<Rightarrow> identity_default),
      rc_application = (case rq_header rq APPLICATION_HEADER of Some v \<Rightarrow> v | None \<Rightarrow> []),
      rc_transport = policy_transport (rq_protocol rq),
      rc_destination = policy_destination t,
      rc_requested_policy =
        (case rq_header rq POLICY_HEADER of Some v \<Rightarrow> if v \<noteq> [] then Some v else None | None \<Rightarrow> None)\<rparr>"

definition enforce_event ::
  "tunnel_request \<Rightarrow> gateway \<Rightarrow> target \<Rightarrow> string option \<Rightarrow> decision \<Rightarrow> audit_event" where
  "enforce_event rq w t org_id d =
     (let ctx = enforce_context rq t
      in (from_decision (gw_now w) d (upgrade_token (rq_protocol rq)) (rc_application ctx)
            (target_display t) (display_socket_addr (rq_client rq)) (rc_workload ctx))
         \<lparr>ae_requested_policy := rc_requested_policy ctx, ae_org_id := org_id\<rparr>)"

definition enforce_call :: "policy_layer \<Rightarrow> (gateway, 'h) service \<Rightarrow> (gateway, 'h) service" where
  "enforce_call cfg inner rq w =
     (case request_target rq of
        None \<Rightarrow> (Refused (rejection_new 501 ''policy enforcement covers connect-udp and connect-tcp only''), w)
      | Some t \<Rightarrow>
          (case policy_source cfg rq w of
             Inl e \<Rightarrow> (Refused e, w)
           | Inr (policies, org_id) \<Rightarrow>
               (let decision = set_evaluate policies (enforce_context rq t)
                in if pl_mode cfg = Observe then inner (authorize (trusting t) rq) w
                   else
                     (let w1 = (if pl_audit cfg
                                then w\<lparr>gw_audit := gw_audit w @ [enforce_event rq w t org_id decision]\<rparr>
                                else w)
                      in case decision of
                           Allow a \<Rightarrow> inner (authorize (authorized_from_decision t a) rq) w1
                         | Deny d \<Rightarrow> (Refused (denial_rejection d), w1)))))"

subsection \<open>Quotas\<close>

definition semaphore_for :: "string \<Rightarrow> nat \<Rightarrow> gateway \<Rightarrow> gateway" where
  "semaphore_for key n w =
     (case gw_permits w key of
        Some _ \<Rightarrow> w
      | None \<Rightarrow> w\<lparr>gw_permits := (gw_permits w)(key \<mapsto> \<lparr>sem_size = n, sem_available = n\<rparr>)\<rparr>)"

definition bandwidth_for :: "string \<Rightarrow> u64 \<Rightarrow> gateway \<Rightarrow> rate_limiter \<times> gateway" where
  "bandwidth_for key bits w =
     (case gw_bandwidth w key of
        Some r \<Rightarrow> (\<lparr>rl_key = key, rl_rate = r\<rparr>, w)
      | None \<Rightarrow> (\<lparr>rl_key = key, rl_rate = bits\<rparr>, w\<lparr>gw_bandwidth := (gw_bandwidth w)(key \<mapsto> bits)\<rparr>))"

definition packets_for :: "string \<Rightarrow> u64 \<Rightarrow> gateway \<Rightarrow> rate_limiter \<times> gateway" where
  "packets_for key pps w =
     (case gw_packets w key of
        Some r \<Rightarrow> (\<lparr>rl_key = key, rl_rate = r\<rparr>, w)
      | None \<Rightarrow> (\<lparr>rl_key = key, rl_rate = pps\<rparr>, w\<lparr>gw_packets := (gw_packets w)(key \<mapsto> pps)\<rparr>))"

definition try_acquire :: "string \<Rightarrow> gateway \<Rightarrow> gateway option" where
  "try_acquire key w =
     (case gw_permits w key of
        None \<Rightarrow> None
      | Some s \<Rightarrow>
          if sem_available s = 0 then None
          else Some (w\<lparr>gw_permits := (gw_permits w)(key \<mapsto> s\<lparr>sem_available := sem_available s - 1\<rparr>)\<rparr>))"

definition release :: "string \<Rightarrow> gateway \<Rightarrow> gateway" where
  "release key w =
     (case gw_permits w key of
        None \<Rightarrow> w
      | Some s \<Rightarrow> w\<lparr>gw_permits := (gw_permits w)(key \<mapsto> s\<lparr>sem_available := sem_available s + 1\<rparr>)\<rparr>)"

definition release_opt :: "string option \<Rightarrow> gateway \<Rightarrow> gateway" where
  "release_opt k w = (case k of None \<Rightarrow> w | Some key \<Rightarrow> release key w)"

definition quota_key :: "tunnel_request \<Rightarrow> string \<Rightarrow> string" where
  "quota_key rq policy = (case rq_tenant rq of Some scope \<Rightarrow> scope @ ''/'' @ policy | None \<Rightarrow> policy)"

definition request_decision :: "tunnel_request \<Rightarrow> allowed option" where
  "request_decision rq = Option.bind (rq_authorized rq) ad_decision"

definition meter_limits :: "tunnel_request \<Rightarrow> gateway \<Rightarrow> tunnel_limits \<times> gateway" where
  "meter_limits rq w =
     (case request_decision rq of
        None \<Rightarrow> (tunnel_limits_default, w)
      | Some a \<Rightarrow>
          (let key = quota_key rq (al_policy a); l = al_limits a;
               (bw, w1) = (case lim_bandwidth_bits_per_sec l of
                  None \<Rightarrow> (None, w)
                | Some bits \<Rightarrow> apfst Some (bandwidth_for key bits w));
               (pk, w2) = (case lim_packets_per_sec l of
                  None \<Rightarrow> (None, w1)
                | Some pps \<Rightarrow> apfst Some (packets_for key pps w1))
           in (\<lparr>tl_bandwidth = bw, tl_packet_rate = pk, tl_total_bytes = lim_total_bytes l, tl_end = None\<rparr>, w2)))"

definition meter_permit :: "tunnel_request \<Rightarrow> (string \<times> nat) option" where
  "meter_permit rq =
     Option.bind (request_decision rq) (\<lambda>a.
       map_option (\<lambda>n. (quota_key rq (al_policy a), unat n)) (lim_concurrent_connections (al_limits a)))"

text \<open>The part of a metered call before the inner service runs.\<close>

definition meter_begin ::
  "tunnel_request \<Rightarrow> gateway \<Rightarrow> (rejection + (string option \<times> tunnel_limits)) \<times> gateway" where
  "meter_begin rq w =
     (case meter_limits rq w of (limits, w1) \<Rightarrow>
        (case meter_permit rq of
           None \<Rightarrow> (Inr (None, limits), w1)
         | Some (key, n) \<Rightarrow>
             (let w2 = semaphore_for key n w1
              in case try_acquire key w2 of
                   Some w3 \<Rightarrow> (Inr (Some key, limits), w3)
                 | None \<Rightarrow>
                     (Inl (with_proxy_error ''connection_limit_reached''
                        (rejection_new 503 ''the concurrent tunnel limit for this policy is reached'')), w2))))"

definition meter_finish :: "string option \<times> tunnel_limits \<Rightarrow> 'h accepted \<Rightarrow> 'h accepted" where
  "meter_finish p a =
     (let a1 = (case fst p of Some key \<Rightarrow> hold (QuotaPermit key) a | None \<Rightarrow> a)
      in if \<not> tunnel_limits_is_empty (snd p) then with_limits (snd p) a1 else a1)"

definition meter_call :: "(gateway, 'h) service \<Rightarrow> (gateway, 'h) service" where
  "meter_call inner rq w =
     (case meter_begin rq w of
        (Inl e, w1) \<Rightarrow> (Refused e, w1)
      | (Inr p, w1) \<Rightarrow>
          (case inner rq w1 of
             (Opened a, w2) \<Rightarrow> (Opened (meter_finish p a), w2)
           | (r, w2) \<Rightarrow> (r, release_opt (fst p) w2)))"

text \<open>When a tunnel ends its guards are dropped.\<close>

definition close_tunnel :: "'h accepted \<Rightarrow> gateway \<Rightarrow> gateway" where
  "close_tunnel a w = fold (\<lambda>g. case g of QuotaPermit key \<Rightarrow> release key) (ac_guards a) w"

definition tenant_metered_call :: "(gateway, 'h) service \<Rightarrow> (gateway, 'h) service" where
  "tenant_metered_call inner rq w =
     (case rq_tenant rq of
        None \<Rightarrow> inner rq w
      | Some tenant \<Rightarrow>
          (case meter_for tenant (gw_usage w) of (meter, u) \<Rightarrow>
             (case inner rq (w\<lparr>gw_usage := u\<rparr>) of
                (Opened a, w2) \<Rightarrow> (Opened (with_meter meter a), w2)
              | r \<Rightarrow> r)))"

end
