(* ===== verification/Gateway_Stack.thy ===== *)
theory Gateway_Stack
  imports Gateway_Layers
begin

text \<open>
  The contract of a layer and the stacks the gateway composes from them
  (\<^verbatim>\<open>platform_service\<close> of \<^verbatim>\<open>skimasque-cli/src/platform.rs\<close>,
  \<^verbatim>\<open>build_service\<close> of \<^verbatim>\<open>skimasque-cli/src/bin/skimasque-server.rs\<close>). A layer is a gate: it
  either answers on its own, whatever it wraps, or hands a request on and may decorate the tunnel
  that comes back. Two gates compose to a gate, so what a stack opened has passed every layer of it.
\<close>

subsection \<open>Layers as gates\<close>

text \<open>
  \<open>gate\<close> is the request and state a layer hands on, \<open>wrap\<close> what it does to the tunnel the inner
  service opened.
\<close>

locale gate_layer =
  fixes layer :: "('w, 'h) service \<Rightarrow> ('w, 'h) service"
    and gate :: "tunnel_request \<Rightarrow> 'w \<Rightarrow> (tunnel_request \<times> 'w) option"
    and wrap :: "tunnel_request \<Rightarrow> 'w \<Rightarrow> 'h accepted \<Rightarrow> 'h accepted"
  assumes closed: "gate rq w = None \<Longrightarrow> fst (layer inner rq w) \<noteq> Opened a \<and> layer inner rq w = layer inner' rq w"
    and passed: "gate rq w = Some (rq1, w1) \<Longrightarrow>
      layer inner rq w = (Opened a, w') \<longleftrightarrow> (\<exists>b. inner rq1 w1 = (Opened b, w') \<and> a = wrap rq w b)"
    and calls_once: "gate rq w = Some (rq1, w1) \<Longrightarrow> inner rq1 w1 = inner' rq1 w1 \<Longrightarrow>
      layer inner rq w = layer inner' rq w"
    and wrap_kind: "ac_kind (wrap rq w a) = ac_kind a"
begin

lemma opened:
  assumes "layer inner rq w = (Opened a, w')"
  obtains rq1 w1 b where "gate rq w = Some (rq1, w1)" "inner rq1 w1 = (Opened b, w')"
    "a = wrap rq w b" "accepted_peer a = accepted_peer b"
proof (cases "gate rq w")
  case None
  then show ?thesis using closed [of rq w inner a] assms by simp
next
  case (Some g)
  obtain rq1 w1 where g: "g = (rq1, w1)" by (cases g)
  then obtain b where "inner rq1 w1 = (Opened b, w')" "a = wrap rq w b"
    using passed [OF Some [unfolded g]] assms by blast
  moreover have "accepted_peer (wrap rq w b) = accepted_peer b"
    by (simp add: accepted_peer_def wrap_kind)
  ultimately show ?thesis using that Some g by blast
qed

text \<open>A closed gate hides the inner service: replacing it changes nothing.\<close>

lemma fail_closed: "gate rq w = None \<Longrightarrow> layer inner rq w = layer inner' rq w"
  using closed by blast

end

locale gate_pair = outer: gate_layer layer1 gate1 wrap1 + within: gate_layer layer2 gate2 wrap2
  for layer1 :: "('w, 'h) service \<Rightarrow> ('w, 'h) service" and gate1 and wrap1
    and layer2 :: "('w, 'h) service \<Rightarrow> ('w, 'h) service" and gate2 and wrap2
begin

definition pair_gate :: "tunnel_request \<Rightarrow> 'w \<Rightarrow> (tunnel_request \<times> 'w) option" where
  "pair_gate rq w = Option.bind (gate1 rq w) (\<lambda>(rq1, w1). gate2 rq1 w1)"

definition pair_wrap :: "tunnel_request \<Rightarrow> 'w \<Rightarrow> 'h accepted \<Rightarrow> 'h accepted" where
  "pair_wrap rq w a =
     wrap1 rq w (case gate1 rq w of Some (rq1, w1) \<Rightarrow> wrap2 rq1 w1 a | None \<Rightarrow> a)"

end

sublocale gate_pair \<subseteq> both: gate_layer "\<lambda>s. layer1 (layer2 s)" pair_gate pair_wrap
proof (unfold_locales, goal_cases)
  case (1 rq w inner a inner')
  show ?case
  proof (cases "gate1 rq w")
    case None
    then show ?thesis using outer.closed by blast
  next
    case (Some g)
    obtain rq1 w1 where g: "g = (rq1, w1)" by (cases g)
    have g2: "gate2 rq1 w1 = None" using 1 Some g by (simp add: pair_gate_def)
    have "layer1 (layer2 inner) rq w = layer1 (layer2 inner') rq w"
      using outer.calls_once [OF Some [unfolded g]] within.fail_closed [OF g2] by metis
    moreover have "fst (layer1 (layer2 inner) rq w) \<noteq> Opened a"
    proof
      assume "fst (layer1 (layer2 inner) rq w) = Opened a"
      then obtain w' where "layer1 (layer2 inner) rq w = (Opened a, w')" by (metis prod.collapse)
      then obtain b where "layer2 inner rq1 w1 = (Opened b, w')"
        using outer.passed [OF Some [unfolded g]] by blast
      then show False using within.closed [OF g2, of inner b] by simp
    qed
    ultimately show ?thesis by blast
  qed
next
  case (2 rq w rq2 w2 inner a w')
  then obtain rq1 w1 where g: "gate1 rq w = Some (rq1, w1)" "gate2 rq1 w1 = Some (rq2, w2)"
    by (auto simp: pair_gate_def bind_eq_Some_conv)
  show ?case
    using outer.passed [OF g(1)] within.passed [OF g(2)] by (auto simp: pair_wrap_def g(1))
next
  case (3 rq w rq2 w2 inner inner')
  then obtain rq1 w1 where g: "gate1 rq w = Some (rq1, w1)" "gate2 rq1 w1 = Some (rq2, w2)"
    by (auto simp: pair_gate_def bind_eq_Some_conv)
  show ?case by (rule outer.calls_once [OF g(1)], rule within.calls_once [OF g(2)], rule 3(2))
next
  case (4 rq w a)
  show ?case by (simp add: pair_wrap_def outer.wrap_kind within.wrap_kind split: option.split prod.split)
qed

subsection \<open>The layers of the gateway\<close>

lemma constant_time_eq_iff: "constant_time_eq a b \<longleftrightarrow> a = b"
proof -
  have fold: "foldl (\<lambda>diff (x, y). diff OR (x XOR y)) d (zip xs ys) = 0 \<longleftrightarrow> d = 0 \<and> xs = ys"
    if "length xs = length ys" for d :: u8 and xs ys
    using that
  proof (induction xs ys arbitrary: d rule: list_induct2)
    case (Cons x xs y ys)
    have "x XOR y = 0 \<longleftrightarrow> x = y"
      by (metis xor.assoc xor.left_neutral xor.right_neutral xor_self_eq)
    then have "d OR (x XOR y) = 0 \<longleftrightarrow> d = 0 \<and> x = y" by (simp add: or_eq_0_iff)
    with Cons show ?case by auto
  qed simp
  show ?thesis using fold [of a b 0] by (auto simp: constant_time_eq_def)
qed

lemma str_bytes_inject [simp]: "str_bytes a = str_bytes b \<longleftrightarrow> a = b"
proof -
  have "inj (\<lambda>c. of_nat (char_code c) :: u8)"
  proof (rule injI)
    fix c d assume "(of_nat (char_code c) :: u8) = of_nat (char_code d)"
    then have "unat (of_nat (char_code c) :: u8) = unat (of_nat (char_code d) :: u8)" by simp
    then show "c = d" by (simp add: unat_of_nat take_bit_eq_mod)
  qed
  then show ?thesis by (simp add: str_bytes_def inj_map_eq_map)
qed

definition authorize_gate :: "string \<Rightarrow> tunnel_request \<Rightarrow> gateway \<Rightarrow> (tunnel_request \<times> gateway) option" where
  "authorize_gate expected rq w = (if bearer_token rq = Some expected then Some (rq, w) else None)"

definition identify_gate ::
  "(string \<Rightarrow> gateway \<Rightarrow> string + workload_identity) \<Rightarrow> tunnel_request \<Rightarrow> gateway \<Rightarrow>
     (tunnel_request \<times> gateway) option" where
  "identify_gate verify rq w =
     Option.bind (bearer_token rq) (\<lambda>token.
       (case verify token w of Inl _ \<Rightarrow> None | Inr i \<Rightarrow> Some (rq\<lparr>rq_identity := Some i\<rparr>, w)))"

definition tenant_gate ::
  "(string \<Rightarrow> gateway \<Rightarrow> string + (string \<times> workload_identity)) \<Rightarrow> tunnel_request \<Rightarrow> gateway \<Rightarrow>
     (tunnel_request \<times> gateway) option" where
  "tenant_gate verify rq w =
     Option.bind (bearer_token rq) (\<lambda>token.
       (case verify token w of
          Inl _ \<Rightarrow> None
        | Inr (org, i) \<Rightarrow> Some (rq\<lparr>rq_tenant := Some org, rq_identity := Some i\<rparr>, w)))"

text \<open>The signal a tunnel gets: none without a session, and none at all when the request is refused.\<close>

definition session_end ::
  "(string \<Rightarrow> u64 option) \<Rightarrow> tunnel_request \<Rightarrow> gateway \<Rightarrow> tunnel_end option option" where
  "session_end decode_exp rq w =
     (case Option.bind (rq_identity rq) wi_sid of
        None \<Rightarrow> Some None
      | Some sid \<Rightarrow>
          if is_revoked sid w then None
          else
            (case credential_expiry decode_exp rq of
               None \<Rightarrow> Some (Some (track sid None))
             | Some ex \<Rightarrow>
                 (let left = int (unat ex) * 10 ^ 9 - gw_now w
                  in if TIME_MAX_SECS < unat ex \<or> left \<le> 0 \<or>
                        TIME_MAX_SECS < (gw_mono w + nat left) div 10 ^ 9 then None
                     else Some (Some (track sid (Some (gw_mono w + nat left)))))))"

definition revoked_gate ::
  "(string \<Rightarrow> u64 option) \<Rightarrow> tunnel_request \<Rightarrow> gateway \<Rightarrow> (tunnel_request \<times> gateway) option" where
  "revoked_gate decode_exp rq w = map_option (\<lambda>_. (rq, w)) (session_end decode_exp rq w)"

definition revoked_wrap ::
  "(string \<Rightarrow> u64 option) \<Rightarrow> tunnel_request \<Rightarrow> gateway \<Rightarrow> 'h accepted \<Rightarrow> 'h accepted" where
  "revoked_wrap decode_exp rq w a =
     (case session_end decode_exp rq w of Some (Some e) \<Rightarrow> with_end e a | _ \<Rightarrow> a)"

definition enforce_gate ::
  "policy_layer \<Rightarrow> tunnel_request \<Rightarrow> gateway \<Rightarrow> (tunnel_request \<times> gateway) option" where
  "enforce_gate cfg rq w =
     Option.bind (request_target rq) (\<lambda>t.
       (case policy_source cfg rq w of
          Inl _ \<Rightarrow> None
        | Inr (policies, org_id) \<Rightarrow>
            (let decision = set_evaluate policies (enforce_context rq t);
                 w1 = (if pl_audit cfg
                       then w\<lparr>gw_audit := gw_audit w @ [enforce_event rq w t org_id decision]\<rparr> else w)
             in if pl_mode cfg = Observe then Some (authorize (trusting t) rq, w)
                else (case decision of
                        Allow a \<Rightarrow> Some (authorize (authorized_from_decision t a) rq, w1)
                      | Deny _ \<Rightarrow> None))))"

definition meter_gate :: "tunnel_request \<Rightarrow> gateway \<Rightarrow> (tunnel_request \<times> gateway) option" where
  "meter_gate rq w = (case meter_begin rq w of (Inl _, _) \<Rightarrow> None | (Inr _, w1) \<Rightarrow> Some (rq, w1))"

definition meter_wrap :: "tunnel_request \<Rightarrow> gateway \<Rightarrow> 'h accepted \<Rightarrow> 'h accepted" where
  "meter_wrap rq w a = (case meter_begin rq w of (Inl _, _) \<Rightarrow> a | (Inr p, _) \<Rightarrow> meter_finish p a)"

definition metered_gate :: "tunnel_request \<Rightarrow> gateway \<Rightarrow> (tunnel_request \<times> gateway) option" where
  "metered_gate rq w =
     Some (rq, case rq_tenant rq of None \<Rightarrow> w | Some t \<Rightarrow> w\<lparr>gw_usage := snd (meter_for t (gw_usage w))\<rparr>)"

definition metered_wrap :: "tunnel_request \<Rightarrow> gateway \<Rightarrow> 'h accepted \<Rightarrow> 'h accepted" where
  "metered_wrap rq w a = (case rq_tenant rq of None \<Rightarrow> a | Some t \<Rightarrow> with_meter t a)"

lemma decorations_keep_kind [simp]:
  "ac_kind (with_end e a) = ac_kind a" "ac_kind (with_meter m a) = ac_kind a"
  "ac_kind (with_limits l a) = ac_kind a" "ac_kind (hold g a) = ac_kind a"
  "ac_kind (meter_finish p a) = ac_kind a"
  by (simp_all add: with_end_def with_meter_def with_limits_def hold_def meter_finish_def Let_def
      split: option.split)

interpretation auth: gate_layer "authorize_call expected" "authorize_gate expected" "\<lambda>_ _ a. a" for expected
  by unfold_locales
    (auto simp: authorize_call_def authorize_gate_def constant_time_eq_iff split: option.splits if_splits)

interpretation ident: gate_layer "identify_call verify" "identify_gate verify" "\<lambda>_ _ a. a" for verify
  by unfold_locales
    (auto simp: identify_call_def identify_gate_def split: option.splits sum.splits)

interpretation tenants: gate_layer "tenant_identify_call verify" "tenant_gate verify" "\<lambda>_ _ a. a" for verify
  by unfold_locales
    (auto simp: tenant_identify_call_def tenant_gate_def split: option.splits sum.splits)

lemma attach_end_opened:
  "attach_end e r = (Opened a, w') \<longleftrightarrow> (\<exists>b. r = (Opened b, w') \<and> a = with_end e b)"
  by (cases r; cases "fst r") (auto simp: attach_end_def)

lemma revoked_call_eq:
  "revoked_call decode_exp inner rq w =
     (case session_end decode_exp rq w of
        Some None \<Rightarrow> inner rq w
      | Some (Some e) \<Rightarrow> attach_end e (inner rq w)
      | None \<Rightarrow> revoked_call decode_exp (\<lambda>_ w. (Panicked, w)) rq w)"
  "session_end decode_exp rq w = None \<Longrightarrow> fst (revoked_call decode_exp inner rq w) \<noteq> Opened a"
  by (auto simp: revoked_call_def session_end_def Let_def split: option.splits if_splits)

interpretation revocation:
  gate_layer "revoked_call decode_exp" "revoked_gate decode_exp" "revoked_wrap decode_exp" for decode_exp
proof (unfold_locales, goal_cases)
  case (1 rq w inner a inner')
  then have "session_end decode_exp rq w = None" by (simp add: revoked_gate_def)
  then show ?case
    using revoked_call_eq(1) [of decode_exp inner rq w] revoked_call_eq(1) [of decode_exp inner' rq w]
      revoked_call_eq(2) [of decode_exp rq w inner a]
    by simp
next
  case (2 rq w rq1 w1 inner a w')
  then show ?case
    by (subst revoked_call_eq) (auto simp: revoked_gate_def revoked_wrap_def attach_end_opened split: option.splits)
next
  case (3 rq w rq1 w1 inner inner')
  then show ?case
    by (subst (1 2) revoked_call_eq) (auto simp: revoked_gate_def split: option.splits)
next
  case (4 rq w a)
  show ?case by (simp add: revoked_wrap_def split: option.split)
qed

interpretation enforcing: gate_layer "enforce_call cfg" "enforce_gate cfg" "\<lambda>_ _ a. a" for cfg
  by unfold_locales
    (auto simp: enforce_call_def enforce_gate_def Let_def
      split: option.splits sum.splits decision.splits if_splits)

interpretation quota: gate_layer meter_call meter_gate meter_wrap
proof (unfold_locales, goal_cases)
  case (2 rq w rq1 w1 inner a w')
  then obtain p where p: "meter_begin rq w = (Inr p, w1)" "rq1 = rq"
    by (auto simp: meter_gate_def split: prod.splits sum.splits)
  show ?case
    by (cases "inner rq w1"; cases "fst (inner rq w1)") (auto simp: meter_call_def meter_wrap_def p)
qed (auto simp: meter_call_def meter_gate_def meter_wrap_def split: prod.splits sum.splits)

lemma tenant_metered_call_eq:
  "tenant_metered_call inner rq w =
     (case rq_tenant rq of
        None \<Rightarrow> inner rq w
      | Some t \<Rightarrow>
          (case inner rq (w\<lparr>gw_usage := snd (meter_for t (gw_usage w))\<rparr>) of
             (Opened a, w2) \<Rightarrow> (Opened (with_meter t a), w2)
           | r \<Rightarrow> r))"
proof (cases "rq_tenant rq")
  case (Some t)
  obtain u where "meter_for t (gw_usage w) = (t, u)" by (simp add: meter_for_def)
  then show ?thesis by (simp add: tenant_metered_call_def Some)
qed (simp add: tenant_metered_call_def)

interpretation metering: gate_layer tenant_metered_call metered_gate metered_wrap
proof (unfold_locales, goal_cases)
  case (2 rq w rq1 w1 inner a w')
  then show ?case
    by (cases "rq_tenant rq"; cases "inner rq1 w1"; cases "fst (inner rq1 w1)")
       (auto simp: tenant_metered_call_eq metered_gate_def metered_wrap_def)
qed (auto simp: tenant_metered_call_eq metered_gate_def metered_wrap_def with_meter_def split: option.splits)

subsection \<open>The stacks\<close>

text \<open>
  The platform's credential check. Reading the organisation out of a token and the verifier of an
  organisation's credentials are arguments.
\<close>

definition platform_verify ::
  "(string \<Rightarrow> string option) \<Rightarrow> (string \<Rightarrow> (string \<Rightarrow> string \<Rightarrow> 'x + workload_identity) option) \<Rightarrow>
     string \<Rightarrow> gateway \<Rightarrow> string + (string \<times> workload_identity)" where
  "platform_verify peek_org_id verifier token w =
     and_then (ok_or ''credential is not scoped to an organisation'' (peek_org_id token)) (\<lambda>org.
     and_then (ok_or ''unknown organisation'' (resolve_org (gw_tenants w) org)) (\<lambda>t.
     and_then (ok_or ''credential did not verify'' (verifier (tn_id t))) (\<lambda>verify_for_org.
     and_then (map_err (\<lambda>_. ''credential did not verify'') (verify_for_org token (tn_id t))) (\<lambda>identity.
       Inr (tn_id t, identity)))))"

definition platform_policy_layer :: policy_layer where
  "platform_policy_layer = \<lparr>pl_tenants = True, pl_mode = Enforce, pl_audit = True\<rparr>"

definition platform_service ::
  "(string \<Rightarrow> gateway \<Rightarrow> string + (string \<times> workload_identity)) \<Rightarrow> (string \<Rightarrow> u64 option) \<Rightarrow>
     (gateway, 'h) service \<Rightarrow> (gateway, 'h) service" where
  "platform_service verify decode_exp dispatch =
     tenant_identify_call verify
       (revoked_call decode_exp
         (enforce_call platform_policy_layer (meter_call (tenant_metered_call dispatch))))"

definition option_layer :: "('a \<Rightarrow> ('w, 'h) service \<Rightarrow> ('w, 'h) service) \<Rightarrow> 'a option \<Rightarrow>
    ('w, 'h) service \<Rightarrow> ('w, 'h) service" where
  "option_layer layer cfg inner = (case cfg of None \<Rightarrow> inner | Some c \<Rightarrow> layer c inner)"

definition server_service ::
  "(string \<Rightarrow> gateway \<Rightarrow> string + workload_identity) option \<Rightarrow> string option \<Rightarrow> (string \<Rightarrow> u64 option) \<Rightarrow>
     policy_layer option \<Rightarrow> (gateway, 'h) service \<Rightarrow> (gateway, 'h) service" where
  "server_service identity auth decode_exp policy dispatch =
     option_layer identify_call identity
       (option_layer authorize_call auth
         (revoked_call decode_exp
           (option_layer enforce_call policy
             (option_layer (\<lambda>_. meter_call)
               (case policy of Some cfg \<Rightarrow> if pl_mode cfg = Observe then None else Some () | None \<Rightarrow> None)
               dispatch))))"

interpretation metered_quota:
  gate_pair meter_call meter_gate meter_wrap tenant_metered_call metered_gate metered_wrap ..

interpretation policed:
  gate_pair "enforce_call cfg" "enforce_gate cfg" "\<lambda>_ _ a. a" "\<lambda>s. meter_call (tenant_metered_call s)"
    metered_quota.pair_gate metered_quota.pair_wrap for cfg ..

interpretation live_session:
  gate_pair "revoked_call decode_exp" "revoked_gate decode_exp" "revoked_wrap decode_exp"
    "\<lambda>s. enforce_call cfg (meter_call (tenant_metered_call s))"
    "policed.pair_gate cfg" "policed.pair_wrap cfg" for decode_exp cfg ..

interpretation platform:
  gate_pair "tenant_identify_call verify" "tenant_gate verify" "\<lambda>_ _ a. a"
    "\<lambda>s. revoked_call decode_exp (enforce_call cfg (meter_call (tenant_metered_call s)))"
    "live_session.pair_gate decode_exp cfg" "live_session.pair_wrap decode_exp cfg" for verify decode_exp cfg ..

end
