(* ===== verification/Gateway_Safety.thy ===== *)
theory Gateway_Safety
  imports Gateway_Stack
begin

text \<open>
  What the stacks guarantee: every tunnel the multi-tenant gateway opens is backed by a verified
  credential, a served tenant, a live session, an allow decision of that tenant's own policy and a
  permitted address, and carries the tenant's meter, its limits and its end signal; requests that
  fail any check never reach the network.
\<close>

subsection \<open>Frame facts\<close>

lemma meter_limits_frame:
  assumes "meter_limits rq w = (l, w1)"
  shows "gw_audit w1 = gw_audit w" "gw_usage w1 = gw_usage w" "gw_tenants w1 = gw_tenants w"
    "gw_permits w1 = gw_permits w" "tl_end l = None"
    "tl_total_bytes l = Option.bind (request_decision rq) (\<lambda>a. lim_total_bytes (al_limits a))"
  using assms
  by (auto simp: meter_limits_def bandwidth_for_def packets_for_def tunnel_limits_default_def Let_def
      split: option.splits prod.splits)

lemma semaphore_for_frame [simp]:
  "gw_audit (semaphore_for k n w) = gw_audit w" "gw_usage (semaphore_for k n w) = gw_usage w"
  by (simp_all add: semaphore_for_def split: option.split)

lemma try_acquire_frame:
  "try_acquire k w = Some w1 \<Longrightarrow> gw_audit w1 = gw_audit w \<and> gw_usage w1 = gw_usage w"
  by (auto simp: try_acquire_def split: option.splits if_splits)

lemma meter_begin_frame:
  assumes "meter_begin rq w = (Inr p, w1)"
  shows "gw_audit w1 = gw_audit w" "gw_usage w1 = gw_usage w"
    "fst p = map_option fst (meter_permit rq)" "tl_end (snd p) = None"
    "tl_total_bytes (snd p) = Option.bind (request_decision rq) (\<lambda>a. lim_total_bytes (al_limits a))"
proof -
  obtain l w0 where l: "meter_limits rq w = (l, w0)" by fastforce
  note f = meter_limits_frame [OF l]
  have "gw_audit w1 = gw_audit w \<and> gw_usage w1 = gw_usage w \<and> fst p = map_option fst (meter_permit rq) \<and>
      snd p = l"
    using assms f
    by (auto simp: meter_begin_def l Let_def split: option.splits dest!: try_acquire_frame)
  then show "gw_audit w1 = gw_audit w" "gw_usage w1 = gw_usage w"
    "fst p = map_option fst (meter_permit rq)" "tl_end (snd p) = None"
    "tl_total_bytes (snd p) = Option.bind (request_decision rq) (\<lambda>a. lim_total_bytes (al_limits a))"
    using f by simp_all
qed

lemma dispatch_attempt_fresh:
  "dispatch_attempt net p addr = Inr a \<Longrightarrow> ac_limits a = tunnel_limits_default \<and> ac_guards a = []"
  by (auto simp: dispatch_attempt_def udp_attempt_def tcp_attempt_def accepted_udp_def accepted_tcp_def
      accepted_of_def split: if_splits sum.splits)

lemma dispatch_fresh:
  assumes "dispatch_call contains net d rq w = (Opened a, w')"
  shows "ac_limits a = tunnel_limits_default" "ac_guards a = []"
  using dispatch_opened [OF assms] by (auto simp: first_open_def dest: dispatch_attempt_fresh)

lemma meter_finish_total:
  assumes "ac_limits a = tunnel_limits_default" "tl_end (snd p) = None"
  shows "tl_total_bytes (ac_limits (meter_finish p a)) = tl_total_bytes (snd p)"
    "tl_end (ac_limits (meter_finish p a)) = None"
  using assms
  by (auto simp: meter_finish_def Let_def tunnel_limits_is_empty_def with_limits_def hold_def
      tunnel_limits_default_def split: option.splits)

lemma meter_finish_guards:
  "ac_guards (meter_finish p a) = ac_guards a @ (case fst p of Some k \<Rightarrow> [QuotaPermit k] | None \<Rightarrow> [])"
  by (simp add: meter_finish_def Let_def hold_def with_limits_def split: option.split)

lemma enforce_gate_Some:
  assumes "enforce_gate platform_policy_layer rq w = Some (rq1, w1)"
  obtains t org tenant a where "request_target rq = Some t" "rq_tenant rq = Some org"
    "resolve_org (gw_tenants w) org = Some tenant"
    "set_evaluate (tn_policy tenant) (enforce_context rq t) = Allow a"
    "rq1 = authorize (authorized_from_decision t a) rq"
    "w1 = w\<lparr>gw_audit := gw_audit w @ [enforce_event rq w t (Some org) (Allow a)]\<rparr>"
  using assms that
  by (auto simp: enforce_gate_def policy_source_def platform_policy_layer_def Let_def bind_eq_Some_conv
      split: sum.splits option.splits decision.splits)

lemma meter_finish_keeps:
  "ac_meter (meter_finish p a) = ac_meter a" "ac_kind (meter_finish p a) = ac_kind a"
  by (simp_all add: meter_finish_def Let_def hold_def with_limits_def split: option.split)

lemma platform_verify_Inr:
  assumes "platform_verify peek verifier token w = Inr (org, identity)"
  obtains named served check where "peek token = Some named"
    "resolve_org (gw_tenants w) named = Some served" "org = tn_id served"
    "verifier org = Some check" "check token org = Inr identity"
  using assms by (auto simp: platform_verify_def and_then_Inr_iff ok_or_def map_err_def split: option.splits sum.splits)

subsection \<open>The multi-tenant gateway\<close>

text \<open>The chain of hand-overs behind an opened tunnel, from the policy layer inwards.\<close>

lemma enforced_chain:
  assumes "enforce_call platform_policy_layer (meter_call (tenant_metered_call disp)) rq w = (Opened a, w')"
  obtains t org tenant al p w2 w3 b where
    "request_target rq = Some t" "rq_tenant rq = Some org" "resolve_org (gw_tenants w) org = Some tenant"
    "set_evaluate (tn_policy tenant) (enforce_context rq t) = Allow al"
    "meter_begin (authorize (authorized_from_decision t al) rq) w2 = (Inr p, w3)"
    "gw_audit w2 = gw_audit w @ [enforce_event rq w t (Some org) (Allow al)]"
    "disp (authorize (authorized_from_decision t al) rq)
       (w3\<lparr>gw_usage := snd (meter_for org (gw_usage w3))\<rparr>) = (Opened b, w')"
    "a = meter_finish p (with_meter org b)"
proof -
  obtain rq1 w1 b1 where 1: "enforce_gate platform_policy_layer rq w = Some (rq1, w1)"
    "meter_call (tenant_metered_call disp) rq1 w1 = (Opened b1, w')" "a = b1"
    using assms by (rule enforcing.opened)
  obtain t org tenant al where g: "request_target rq = Some t" "rq_tenant rq = Some org"
    "resolve_org (gw_tenants w) org = Some tenant"
    "set_evaluate (tn_policy tenant) (enforce_context rq t) = Allow al"
    "rq1 = authorize (authorized_from_decision t al) rq"
    "w1 = w\<lparr>gw_audit := gw_audit w @ [enforce_event rq w t (Some org) (Allow al)]\<rparr>"
    using 1(1) by (rule enforce_gate_Some)
  obtain rq2 w2 b2 where 2: "meter_gate rq1 w1 = Some (rq2, w2)"
    "tenant_metered_call disp rq2 w2 = (Opened b2, w')" "b1 = meter_wrap rq1 w1 b2"
    using 1(2) by (rule quota.opened)
  obtain p where p: "meter_begin rq1 w1 = (Inr p, w2)" "rq2 = rq1"
    using 2(1) by (auto simp: meter_gate_def split: prod.splits sum.splits)
  obtain rq3 w3 b where 3: "metered_gate rq2 w2 = Some (rq3, w3)" "disp rq3 w3 = (Opened b, w')"
    "b2 = metered_wrap rq2 w2 b"
    using 2(2) by (rule metering.opened)
  have org: "rq_tenant rq2 = Some org" by (simp add: p g authorize_def)
  have handed: "rq3 = rq2" "w3 = w2\<lparr>gw_usage := snd (meter_for org (gw_usage w2))\<rparr>"
    using 3(1) org by (simp_all add: metered_gate_def)
  show ?thesis
  proof (rule that [OF g(1-4)])
    show "meter_begin (authorize (authorized_from_decision t al) rq) w1 = (Inr p, w2)"
      using p g by simp
    show "gw_audit w1 = gw_audit w @ [enforce_event rq w t (Some org) (Allow al)]" by (simp add: g)
    show "disp (authorize (authorized_from_decision t al) rq)
       (w2\<lparr>gw_usage := snd (meter_for org (gw_usage w2))\<rparr>) = (Opened b, w')"
      using 3(2) by (simp only: handed p(2) g(5))
    show "a = meter_finish p (with_meter org b)"
      using 1(3) 2(3) 3(3) org p(1) by (simp add: meter_wrap_def metered_wrap_def)
  qed
qed

lemma tenant_gate_Some:
  assumes "tenant_gate verify rq w = Some (rq1, w1)"
  obtains token org identity where "bearer_token rq = Some token" "verify token w = Inr (org, identity)"
    "rq1 = rq\<lparr>rq_tenant := Some org, rq_identity := Some identity\<rparr>" "w1 = w"
proof -
  obtain token where t: "bearer_token rq = Some token"
    using assms by (cases "bearer_token rq") (simp_all add: tenant_gate_def)
  obtain r where v: "verify token w = Inr r"
    using assms by (cases "verify token w") (simp_all add: tenant_gate_def t)
  obtain org identity where r: "r = (org, identity)" by (cases r)
  have "(rq1, w1) = (rq\<lparr>rq_tenant := Some org, rq_identity := Some identity\<rparr>, w)"
    using assms by (simp only: tenant_gate_def t v r bind.bind_lunit sum.case prod.case option.inject)
  then show ?thesis using that [OF t] v r by (simp only: prod.inject)
qed

lemma revoked_gate_Some:
  assumes "revoked_gate decode_exp rq w = Some (rq1, w1)"
  obtains e where "session_end decode_exp rq w = Some e" "rq1 = rq" "w1 = w"
proof (cases "session_end decode_exp rq w")
  case None
  then show ?thesis using assms by (simp add: revoked_gate_def)
next
  case (Some e)
  have "rq1 = rq" "w1 = w" using assms by (simp_all add: revoked_gate_def Some)
  then show ?thesis using that [OF Some] by (simp only:)
qed

text \<open>The request as the credential check hands it on.\<close>

abbreviation identified :: "tunnel_request \<Rightarrow> string \<Rightarrow> workload_identity \<Rightarrow> tunnel_request" where
  "identified rq org identity \<equiv> rq\<lparr>rq_tenant := Some org, rq_identity := Some identity\<rparr>"

lemma platform_chain:
  assumes "platform_service verify decode_exp disp rq w = (Opened a, w')"
  obtains token org identity e b where
    "bearer_token rq = Some token" "verify token w = Inr (org, identity)"
    "session_end decode_exp (identified rq org identity) w = Some e"
    "enforce_call platform_policy_layer (meter_call (tenant_metered_call disp))
       (identified rq org identity) w = (Opened b, w')"
    "a = (case e of Some x \<Rightarrow> with_end x b | None \<Rightarrow> b)"
proof -
  note open1 = assms [unfolded platform_service_def]
  obtain rq1 w1 b1 where 1: "tenant_gate verify rq w = Some (rq1, w1)"
    "revoked_call decode_exp (enforce_call platform_policy_layer (meter_call (tenant_metered_call disp)))
       rq1 w1 = (Opened b1, w')" "a = b1"
    using open1 by (rule tenants.opened)
  obtain token org identity where t: "bearer_token rq = Some token" "verify token w = Inr (org, identity)"
    "rq1 = identified rq org identity" "w1 = w"
    using 1(1) by (rule tenant_gate_Some)
  obtain rq2 w2 b where 2: "revoked_gate decode_exp rq1 w1 = Some (rq2, w2)"
    "enforce_call platform_policy_layer (meter_call (tenant_metered_call disp)) rq2 w2 = (Opened b, w')"
    "b1 = revoked_wrap decode_exp rq1 w1 b"
    using 1(2) by (rule revocation.opened)
  obtain e where e: "session_end decode_exp rq1 w1 = Some e" "rq2 = rq1" "w2 = w1"
    using 2(1) by (rule revoked_gate_Some)
  show ?thesis
  proof (rule that [OF t(1,2)])
    show "session_end decode_exp (identified rq org identity) w = Some e" using e(1) by (simp only: t)
    show "enforce_call platform_policy_layer (meter_call (tenant_metered_call disp))
       (identified rq org identity) w = (Opened b, w')" using 2(2) by (simp only: e t)
    show "a = (case e of Some x \<Rightarrow> with_end x b | None \<Rightarrow> b)"
      by (simp add: 1(3) 2(3) revoked_wrap_def e(1))
  qed
qed

lemma session_end_Some:
  assumes "session_end decode_exp rq w = Some e"
  shows "case Option.bind (rq_identity rq) wi_sid of
      None \<Rightarrow> e = None
    | Some sid \<Rightarrow> sid \<notin> gw_revoked w \<and>
        (\<exists>deadline. e = Some \<lparr>te_sid = sid, te_deadline = deadline\<rparr> \<and>
           (case credential_expiry decode_exp rq of
              None \<Rightarrow> deadline = None
            | Some ex \<Rightarrow> gw_now w < int (unat ex) * 10 ^ 9 \<and>
                deadline = Some (gw_mono w + nat (int (unat ex) * 10 ^ 9 - gw_now w))))"
  using assms
  by (auto simp: session_end_def is_revoked_def track_def Let_def split: option.splits if_splits)

text \<open>What an enforced and metered tunnel of a tenant carries.\<close>

lemma enforced_tunnel:
  assumes "enforce_call platform_policy_layer (meter_call (tenant_metered_call (dispatch_call contains net d)))
      rq w = (Opened a, w')" and "rq_tenant rq = Some org"
  obtains t tenant al policy us addr vs where
    "request_target rq = Some t" "resolve_org (gw_tenants w) org = Some tenant"
    "set_evaluate (tn_policy tenant) (enforce_context rq t) = Allow al"
    "dispatch_policy d (rq_protocol rq) = Some policy" "resolve net t = Inr (us @ addr # vs)"
    "accepted_peer a = Some addr" "permits contains policy addr = Inr ()" "ac_meter a = Some org"
    "tl_total_bytes (ac_limits a) = lim_total_bytes (al_limits al)" "tl_end (ac_limits a) = None"
    "ac_guards a = (case lim_concurrent_connections (al_limits al) of
       None \<Rightarrow> [] | Some _ \<Rightarrow> [QuotaPermit (org @ ''/'' @ al_policy al)])"
    "gw_audit w' = gw_audit w @ [enforce_event rq w t (Some org) (Allow al)]"
proof -
  obtain t org' tenant al p w2 w3 b where n: "request_target rq = Some t" "rq_tenant rq = Some org'"
    "resolve_org (gw_tenants w) org' = Some tenant"
    "set_evaluate (tn_policy tenant) (enforce_context rq t) = Allow al"
    "meter_begin (authorize (authorized_from_decision t al) rq) w2 = (Inr p, w3)"
    "gw_audit w2 = gw_audit w @ [enforce_event rq w t (Some org') (Allow al)]"
    "dispatch_call contains net d (authorize (authorized_from_decision t al) rq)
       (w3\<lparr>gw_usage := snd (meter_for org' (gw_usage w3))\<rparr>) = (Opened b, w')"
    "a = meter_finish p (with_meter org' b)"
    using assms(1) by (rule enforced_chain)
  have org: "org' = org" using n(2) assms(2) by simp
  note m = meter_begin_frame [OF n(5)] and fresh = dispatch_fresh [OF n(7)]
  obtain raw policy us addr vs where ch:
    "dispatch_policy d (rq_protocol (authorize (authorized_from_decision t al) rq)) = Some policy"
    "resolve net (forward_target (authorize (authorized_from_decision t al) rq) raw) = Inr (us @ addr # vs)"
    "accepted_peer b = Some addr" "permits contains policy addr = Inr ()"
    using n(7) by (rule dispatch_choice)
  have o: "dispatch_policy d (rq_protocol rq) = Some policy" "resolve net t = Inr (us @ addr # vs)"
    using ch by (simp_all add: forward_target_def authorize_def authorized_from_decision_def)
  have audit: "gw_audit w' = gw_audit w @ [enforce_event rq w t (Some org) (Allow al)]"
    using dispatch_opened [OF n(7)] m(1) n(6) org by simp
  have key: "fst p = map_option (\<lambda>_. org @ ''/'' @ al_policy al) (lim_concurrent_connections (al_limits al))"
    using m(3) assms(2)
    by (simp add: meter_permit_def request_decision_def authorize_def authorized_from_decision_def
        quota_key_def map_option.compositionality comp_def)
  have lim: "accepted_peer a = Some addr" "ac_meter a = Some org"
    "tl_total_bytes (ac_limits a) = lim_total_bytes (al_limits al)" "tl_end (ac_limits a) = None"
    "ac_guards a = (case lim_concurrent_connections (al_limits al) of
       None \<Rightarrow> [] | Some _ \<Rightarrow> [QuotaPermit (org @ ''/'' @ al_policy al)])"
    using m(4,5) fresh ch(3)
    by (simp_all add: n(8) meter_finish_total meter_finish_guards meter_finish_keeps key org
        request_decision_def authorize_def authorized_from_decision_def with_meter_def
        accepted_peer_def split: option.split)
  show ?thesis
    using n(1) n(3) [unfolded org] n(4) o lim(1) ch(4) lim(2-5) audit by (rule that)
qed

text \<open>
  C1. Every tunnel the multi-tenant gateway opens is accounted for. The request carried a bearer
  token; the organisation the token names is served; that organisation's own verifier accepted the
  token; the tenant's policy set (no other tenant's) allows the destination; the session is not
  revoked, its credential has not expired, and the tunnel carries the session's end signal with
  the credential's deadline; the connected address comes from resolving the authorised destination
  and is permitted by the address policy; the tunnel is metered on the organisation, limited to the
  policy's byte total and holds a permit of the policy's connection quota; and exactly one audit
  event, the allow decision under the organisation's name, was added.
\<close>

theorem platform_tunnel_authorized:
  assumes "platform_service (platform_verify peek verifier) decode_exp (dispatch_call contains net d) rq w
    = (Opened a, w')"
  shows "\<exists>token named served check org identity rq1 tenant t al policy us addr vs.
    bearer_token rq = Some token \<and> peek token = Some named \<and>
    resolve_org (gw_tenants w) named = Some served \<and> org = tn_id served \<and>
    verifier org = Some check \<and> check token org = Inr identity \<and>
    rq1 = rq\<lparr>rq_tenant := Some org, rq_identity := Some identity\<rparr> \<and>
    resolve_org (gw_tenants w) org = Some tenant \<and> request_target rq = Some t \<and>
    set_evaluate (tn_policy tenant) (enforce_context rq1 t) = Allow al \<and>
    (case wi_sid identity of
       None \<Rightarrow> tl_end (ac_limits a) = None
     | Some sid \<Rightarrow> sid \<notin> gw_revoked w \<and>
         (\<exists>deadline. tl_end (ac_limits a) = Some \<lparr>te_sid = sid, te_deadline = deadline\<rparr> \<and>
            (case credential_expiry decode_exp rq of
               None \<Rightarrow> deadline = None
             | Some ex \<Rightarrow> gw_now w < int (unat ex) * 10 ^ 9 \<and>
                 deadline = Some (gw_mono w + nat (int (unat ex) * 10 ^ 9 - gw_now w))))) \<and>
    dispatch_policy d (rq_protocol rq) = Some policy \<and>
    resolve net t = Inr (us @ addr # vs) \<and> accepted_peer a = Some addr \<and>
    permits contains policy addr = Inr () \<and>
    ac_meter a = Some org \<and> tl_total_bytes (ac_limits a) = lim_total_bytes (al_limits al) \<and>
    ac_guards a = (case lim_concurrent_connections (al_limits al) of
       None \<Rightarrow> [] | Some _ \<Rightarrow> [QuotaPermit (org @ ''/'' @ al_policy al)]) \<and>
    gw_audit w' = gw_audit w @ [enforce_event rq1 w t (Some org) (Allow al)]"
proof -
  obtain token org identity e b where c: "bearer_token rq = Some token"
    "platform_verify peek verifier token w = Inr (org, identity)"
    "session_end decode_exp (identified rq org identity) w = Some e"
    "enforce_call platform_policy_layer (meter_call (tenant_metered_call (dispatch_call contains net d)))
       (identified rq org identity) w = (Opened b, w')"
    "a = (case e of Some x \<Rightarrow> with_end x b | None \<Rightarrow> b)"
    using assms by (rule platform_chain)
  let ?rq1 = "identified rq org identity"
  obtain named served check where v: "peek token = Some named" "resolve_org (gw_tenants w) named = Some served"
    "org = tn_id served" "verifier org = Some check" "check token org = Inr identity"
    using c(2) by (rule platform_verify_Inr)
  obtain t tenant al policy us addr vs where n: "request_target ?rq1 = Some t"
    "resolve_org (gw_tenants w) org = Some tenant"
    "set_evaluate (tn_policy tenant) (enforce_context ?rq1 t) = Allow al"
    "dispatch_policy d (rq_protocol ?rq1) = Some policy" "resolve net t = Inr (us @ addr # vs)"
    "accepted_peer b = Some addr" "permits contains policy addr = Inr ()" "ac_meter b = Some org"
    "tl_total_bytes (ac_limits b) = lim_total_bytes (al_limits al)" "tl_end (ac_limits b) = None"
    "ac_guards b = (case lim_concurrent_connections (al_limits al) of
       None \<Rightarrow> [] | Some _ \<Rightarrow> [QuotaPermit (org @ ''/'' @ al_policy al)])"
    "gw_audit w' = gw_audit w @ [enforce_event ?rq1 w t (Some org) (Allow al)]"
    by (rule enforced_tunnel [OF c(4), of org]) simp
  have tgt: "request_target rq = Some t" using n(1) by (simp add: request_target_def)
  note ended = session_end_Some [OF c(3)]
  have decorated: "tl_total_bytes (ac_limits a) = tl_total_bytes (ac_limits b)" "ac_guards a = ac_guards b"
    "ac_meter a = ac_meter b" "accepted_peer a = accepted_peer b" "tl_end (ac_limits a) = e"
    by (simp_all add: c(5) with_end_def accepted_peer_def n(10) split: option.split)
  show ?thesis
    by (intro exI conjI, rule c(1), rule v(1), rule v(2), rule v(3), rule v(4), rule v(5), rule refl,
        rule n(2), rule tgt, rule n(3))
       (use ended decorated n in
         \<open>auto simp: credential_expiry_def bearer_token_def split: option.splits\<close>)
qed

definition sample_gateway :: gateway where
  "sample_gateway = \<lparr>gw_now = 0, gw_mono = 0, gw_revoked = {}, gw_policies = [],
     gw_tenants = \<lparr>sn_version = 1,
       sn_by_org = [''o'' \<mapsto> \<lparr>tn_id = ''o'', tn_slug = ''o'', tn_owners = [], tn_owner_ids = Map.empty,
         tn_policy = [sample_policy ''open'' False Action_Allow HP_Any]\<rparr>], sn_by_slug = Map.empty\<rparr>,
     gw_audit = [], gw_permits = Map.empty, gw_bandwidth = Map.empty, gw_packets = Map.empty,
     gw_usage = []\<rparr>"

definition sample_bearing :: "string \<Rightarrow> tunnel_request" where
  "sample_bearing tok = sample_tunnel
     \<lparr>rq_header := (\<lambda>name. if name = ''proxy-authorization'' then Some (''Bearer '' @ tok) else None)\<rparr>"

definition sample_credential :: tunnel_request where
  "sample_credential = sample_bearing ''t''"

definition sample_peek :: "string \<Rightarrow> string option" where
  "sample_peek token = (if token = ''t'' then Some ''o'' else None)"

definition sample_verifier :: "string \<Rightarrow> (string \<Rightarrow> string \<Rightarrow> string + workload_identity) option" where
  "sample_verifier org = Some (\<lambda>_ _. Inr (identity_default\<lparr>wi_sid := Some ''s''\<rparr>))"


definition sample_allowed :: allowed where
  "sample_allowed = \<lparr>al_policy = ''open'', al_rule = ''rule #0'', al_egress = None,
     al_limits = limits_default, al_session = \<lparr>ss_max_duration = None\<rparr>\<rparr>"

lemma sample_decision:
  "set_evaluate [sample_policy ''open'' False Action_Allow HP_Any]
     (enforce_context (identified sample_credential ''o'' (identity_default\<lparr>wi_sid := Some ''s''\<rparr>))
       \<lparr>tg_host = Name ''a'', tg_port = 443\<rparr>) = Allow sample_allowed"
  by code_simp

lemma sample_dispatch_opens:
  assumes "rq_protocol rq = ConnectTcp" "rq_destination rq = DestTcp \<lparr>tg_host = Name ''a'', tg_port = 443\<rparr>"
    "rq_authorized rq = Some (authorized_from_decision \<lparr>tg_host = Name ''a'', tg_port = 443\<rparr> al)"
  shows "dispatch_call (\<lambda>_ _. False) sample_network sample_dispatch rq w
     = (Opened (accepted_tcp 1 (SocketAddr (V4 0xC6336401) 443)), w)"
  using assms
  by (simp add: dispatch_call_def sample_network_def sample_dispatch_def authorized_from_decision_def
      open_tcp_tunnel_def as_tcp_def forward_target_def trusting_def resolve_def
      open_candidates_def permits_def address_policy_default_def unmapped_def permits_v4_def
      v4_is_unspecified_def v4_is_loopback_def v4_is_private_def v4_is_link_local_def
      v4_is_multicast_def v4_is_broadcast_def is_shared_v4_def v4_octet_def tcp_attempt_def of_result_def)

lemma sample_stack_opens:
  assumes "bearer_token (sample_bearing tok) = Some tok" "verify tok w = Inr (org, identity)"
    "resolve_org (gw_tenants w) org = Some tenant"
    "set_evaluate (tn_policy tenant) (enforce_context (identified (sample_bearing tok) org identity)
       \<lparr>tg_host = Name ''a'', tg_port = 443\<rparr>) = Allow sample_allowed"
    "wi_sid identity \<notin> Some ` gw_revoked w"
  shows "\<exists>a w'. platform_service verify (\<lambda>_. None)
     (dispatch_call (\<lambda>_ _. False) sample_network sample_dispatch) (sample_bearing tok) w = (Opened a, w')"
proof -
  let ?rq = "identified (sample_bearing tok) org identity"
  let ?t = "\<lparr>tg_host = Name ''a'', tg_port = 443\<rparr>"
  have t: "request_target ?rq = Some ?t"
    by (simp add: request_target_def as_target_def sample_bearing_def sample_tunnel_def request_new_def)
  have src: "policy_source platform_policy_layer ?rq w = Inr (tn_policy tenant, Some org)"
    using assms(3) by (simp add: policy_source_def platform_policy_layer_def)
  have mode: "pl_mode platform_policy_layer = Enforce" by code_simp
  have p: "rq_protocol ?rq = ConnectTcp" "rq_destination ?rq = DestTcp ?t"
    by (simp_all add: sample_bearing_def sample_tunnel_def request_new_def)
  have m: "\<exists>b w'. meter_call (tenant_metered_call (dispatch_call (\<lambda>_ _. False) sample_network sample_dispatch))
     (authorize (authorized_from_decision ?t sample_allowed) ?rq) w1 = (Opened b, w')" for w1
    using p
    by (simp add: meter_call_def meter_begin_def meter_limits_def meter_permit_def request_decision_def
        authorize_def authorized_from_decision_def sample_allowed_def limits_default_def
        tenant_metered_call_def meter_for_def sample_dispatch_opens Let_def)
  have e: "\<exists>b w'. enforce_call platform_policy_layer
     (meter_call (tenant_metered_call (dispatch_call (\<lambda>_ _. False) sample_network sample_dispatch)))
     ?rq w = (Opened b, w')"
    using m by (simp add: enforce_call_def t src assms(4) mode Let_def)
  have x: "credential_expiry (\<lambda>_. None) ?rq = None"
    using assms(1) by (simp add: credential_expiry_def bearer_token_def split: list.split)
  have r: "\<exists>b w'. revoked_call (\<lambda>_. None) (enforce_call platform_policy_layer
     (meter_call (tenant_metered_call (dispatch_call (\<lambda>_ _. False) sample_network sample_dispatch))))
     ?rq w = (Opened b, w')"
    using e x assms(5) by (cases "wi_sid identity") (auto simp: revoked_call_def attach_end_def is_revoked_def)
  then show ?thesis by (simp add: platform_service_def tenant_identify_call_def assms(1,2))
qed

lemma sample_platform_opens:
  "\<exists>a w'. platform_service (platform_verify sample_peek sample_verifier) (\<lambda>_. None)
     (dispatch_call (\<lambda>_ _. False) sample_network sample_dispatch) sample_credential sample_gateway = (Opened a, w')"
  unfolding sample_credential_def
proof (rule sample_stack_opens)
  show "bearer_token (sample_bearing ''t'') = Some ''t''" by code_simp
  show "platform_verify sample_peek sample_verifier ''t'' sample_gateway =
      Inr (''o'', identity_default\<lparr>wi_sid := Some ''s''\<rparr>)" by code_simp
  show "resolve_org (gw_tenants sample_gateway) ''o'' = Some \<lparr>tn_id = ''o'', tn_slug = ''o'', tn_owners = [],
      tn_owner_ids = Map.empty, tn_policy = [sample_policy ''open'' False Action_Allow HP_Any]\<rparr>"
    by (simp add: sample_gateway_def resolve_org_def)
  show "wi_sid (identity_default\<lparr>wi_sid := Some ''s''\<rparr>) \<notin> Some ` gw_revoked sample_gateway"
    by (simp add: sample_gateway_def)
  show "set_evaluate (tn_policy \<lparr>tn_id = ''o'', tn_slug = ''o'', tn_owners = [],
      tn_owner_ids = Map.empty, tn_policy = [sample_policy ''open'' False Action_Allow HP_Any]\<rparr>)
     (enforce_context (identified (sample_bearing ''t'') ''o'' (identity_default\<lparr>wi_sid := Some ''s''\<rparr>))
       \<lparr>tg_host = Name ''a'', tg_port = 443\<rparr>) = Allow sample_allowed"
    using sample_decision by (simp add: sample_credential_def)
qed

theorem platform_tunnel_authorized_witness:
  "\<exists>a w' token named served org tenant rq1 t al policy us addr vs.
     platform_service (platform_verify sample_peek sample_verifier) (\<lambda>_. None)
       (dispatch_call (\<lambda>_ _. False) sample_network sample_dispatch) sample_credential sample_gateway = (Opened a, w') \<and>
     bearer_token sample_credential = Some token \<and> sample_peek token = Some named \<and>
     resolve_org (gw_tenants sample_gateway) named = Some served \<and> org = tn_id served \<and>
     resolve_org (gw_tenants sample_gateway) org = Some tenant \<and>
     set_evaluate (tn_policy tenant) (enforce_context rq1 t) = Allow al \<and>
     dispatch_policy sample_dispatch (rq_protocol sample_credential) = Some policy \<and>
     resolve sample_network t = Inr (us @ addr # vs) \<and> accepted_peer a = Some addr \<and>
     permits (\<lambda>_ _. False) policy addr = Inr () \<and> ac_meter a = Some org"
proof -
  obtain a w' where o: "platform_service (platform_verify sample_peek sample_verifier) (\<lambda>_. None)
       (dispatch_call (\<lambda>_ _. False) sample_network sample_dispatch) sample_credential sample_gateway = (Opened a, w')"
    using sample_platform_opens by blast
  show ?thesis using platform_tunnel_authorized [OF o]
    by (elim exE conjE) (intro exI conjI, rule o, assumption+)
qed

lemma exhausted_quota_refuses:
  assumes "request_decision rq = Some al" "lim_concurrent_connections (al_limits al) \<noteq> None"
    "gw_permits w (quota_key rq (al_policy al)) = Some s" "sem_available s = 0"
  shows "metered_quota.pair_gate rq w = None"
proof -
  obtain n where n: "lim_concurrent_connections (al_limits al) = Some n" using assms(2) by blast
  obtain l w0 where l: "meter_limits rq w = (l, w0)" by fastforce
  have "\<exists>e w1. meter_begin rq w = (Inl e, w1)"
    using meter_limits_frame(4) [OF l] assms
    by (simp add: meter_begin_def l meter_permit_def n semaphore_for_def try_acquire_def Let_def)
  then show ?thesis by (auto simp: metered_quota.pair_gate_def meter_gate_def)
qed

lemma policed_gate_closed:
  assumes "rq_tenant rq = Some org" "resolve_org (gw_tenants w) org = None \<or>
    (\<exists>t tenant. request_target rq = Some t \<and> resolve_org (gw_tenants w) org = Some tenant \<and>
      (case set_evaluate (tn_policy tenant) (enforce_context rq t) of
         Deny _ \<Rightarrow> True
       | Allow al \<Rightarrow> lim_concurrent_connections (al_limits al) \<noteq> None \<and>
           (\<exists>s. gw_permits w (org @ ''/'' @ al_policy al) = Some s \<and> sem_available s = 0)))"
  shows "policed.pair_gate platform_policy_layer rq w = None"
proof (rule ccontr)
  assume "policed.pair_gate platform_policy_layer rq w \<noteq> None"
  then obtain rq1 w1 where g: "enforce_gate platform_policy_layer rq w = Some (rq1, w1)"
    and q: "metered_quota.pair_gate rq1 w1 \<noteq> None"
    by (auto simp: policed.pair_gate_def bind_eq_Some_conv)
  obtain t tenant a where e: "request_target rq = Some t" "resolve_org (gw_tenants w) org = Some tenant"
    "set_evaluate (tn_policy tenant) (enforce_context rq t) = Allow a"
    "rq1 = authorize (authorized_from_decision t a) rq"
    "w1 = w\<lparr>gw_audit := gw_audit w @ [enforce_event rq w t (Some org) (Allow a)]\<rparr>"
    using enforce_gate_Some [OF g] assms(1) by (metis option.inject)
  obtain s where s: "lim_concurrent_connections (al_limits a) \<noteq> None"
    "gw_permits w (org @ ''/'' @ al_policy a) = Some s" "sem_available s = 0"
    using assms(2) e by auto
  have "metered_quota.pair_gate rq1 w1 = None"
    by (rule exhausted_quota_refuses [of _ a _ s])
      (use s in \<open>simp_all add: e(4,5) assms(1) request_decision_def authorize_def authorized_from_decision_def quota_key_def\<close>)
  with q show False by simp
qed

lemma platform_gate_closed:
  assumes "bearer_token rq = None \<or>
    (\<exists>token. bearer_token rq = Some token \<and>
      ((\<exists>reason. verify token w = Inl reason) \<or>
       (\<exists>org identity. verify token w = Inr (org, identity) \<and>
         ((\<exists>sid. wi_sid identity = Some sid \<and> sid \<in> gw_revoked w) \<or>
          resolve_org (gw_tenants w) org = None \<or>
          (\<exists>t tenant. request_target rq = Some t \<and> resolve_org (gw_tenants w) org = Some tenant \<and>
            (case set_evaluate (tn_policy tenant) (enforce_context (identified rq org identity) t) of
               Deny _ \<Rightarrow> True
             | Allow al \<Rightarrow> lim_concurrent_connections (al_limits al) \<noteq> None \<and>
                 (\<exists>s. gw_permits w (org @ ''/'' @ al_policy al) = Some s \<and> sem_available s = 0)))))))"
  shows "platform.pair_gate verify decode_exp platform_policy_layer rq w = None"
proof (rule ccontr)
  assume "platform.pair_gate verify decode_exp platform_policy_layer rq w \<noteq> None"
  then obtain rq1 w1 rq2 w2 where g: "tenant_gate verify rq w = Some (rq1, w1)"
    "revoked_gate decode_exp rq1 w1 = Some (rq2, w2)"
    and p: "policed.pair_gate platform_policy_layer rq2 w2 \<noteq> None"
    by (auto simp: platform.pair_gate_def live_session.pair_gate_def bind_eq_Some_conv)
  obtain token org identity where t: "bearer_token rq = Some token" "verify token w = Inr (org, identity)"
    "rq1 = identified rq org identity" "w1 = w"
    using g(1) by (rule tenant_gate_Some)
  obtain e where e: "session_end decode_exp rq1 w1 = Some e" "rq2 = rq1" "w2 = w1"
    using g(2) by (rule revoked_gate_Some)
  have live: "sid \<notin> gw_revoked w" if "wi_sid identity = Some sid" for sid
    using session_end_Some [OF e(1)] that by (simp add: t)
  have "policed.pair_gate platform_policy_layer (identified rq org identity) w = None"
    by (rule policed_gate_closed [of _ org]) (use assms t(1,2) live in \<open>auto simp: request_target_def\<close>)
  with p show False by (simp add: e t)
qed

text \<open>
  C2. The gateway fails closed. Without a bearer token, with a token the verifier rejects, in a
  revoked session, for an organisation the gateway does not serve, for a destination the tenant's
  policy denies, or with the policy's connection quota used up, the answer is fixed before anything
  touches the network: it is the same whatever service stands behind the layers, and it is never a
  tunnel.
\<close>

theorem platform_refuses_before_network:
  assumes "bearer_token rq = None \<or>
    (\<exists>token. bearer_token rq = Some token \<and>
      ((\<exists>reason. verify token w = Inl reason) \<or>
       (\<exists>org identity. verify token w = Inr (org, identity) \<and>
         ((\<exists>sid. wi_sid identity = Some sid \<and> sid \<in> gw_revoked w) \<or>
          resolve_org (gw_tenants w) org = None \<or>
          (\<exists>t tenant. request_target rq = Some t \<and> resolve_org (gw_tenants w) org = Some tenant \<and>
            (case set_evaluate (tn_policy tenant)
               (enforce_context (rq\<lparr>rq_tenant := Some org, rq_identity := Some identity\<rparr>) t) of
               Deny _ \<Rightarrow> True
             | Allow al \<Rightarrow> lim_concurrent_connections (al_limits al) \<noteq> None \<and>
                 (\<exists>s. gw_permits w (org @ ''/'' @ al_policy al) = Some s \<and> sem_available s = 0)))))))"
  shows "\<exists>out w1. (\<forall>inner :: (gateway, 'h) service. platform_service verify decode_exp inner rq w = (out, w1)) \<and>
    (\<forall>a. out \<noteq> Opened a)"
proof -
  have "platform.pair_gate verify decode_exp platform_policy_layer rq w = None"
    using assms by (rule platform_gate_closed)
  note gate = platform.both.closed [OF this, folded platform_service_def]
  show ?thesis
    using gate [of "\<lambda>_ w. (Panicked, w)"] by (metis prod.collapse)
qed

theorem platform_refuses_before_network_witness:
  "\<exists>out w1. platform_service (platform_verify sample_peek sample_verifier) (\<lambda>_. None)
     (dispatch_call (\<lambda>_ _. False) sample_network sample_dispatch) sample_tunnel sample_gateway = (out, w1) \<and>
     out \<noteq> Opened (accepted_tcp (1 :: nat) (SocketAddr (V4 0xC6336401) 443))"
proof -
  have "bearer_token sample_tunnel = None" by code_simp
  then show ?thesis
    using platform_refuses_before_network
      [of sample_tunnel "platform_verify sample_peek sample_verifier" sample_gateway "\<lambda>_. None"] by metis
qed

end
