(* ===== verification/Quota_Machine.thy ===== *)
theory Quota_Machine
  imports Gateway_Stack "HOL-Library.Multiset"
begin

text \<open>
  The connection quota under concurrency (\<^verbatim>\<open>QuotaLayer\<close> of
  \<^verbatim>\<open>skimasque/src/service.rs\<close>). A metered call is not one step: it takes its permit, waits for
  the inner service while other calls run, and then fails or opens a tunnel that keeps the permit
  until it is closed. The machine interleaves these pieces freely; its invariant is that the permits
  of a key are exactly partitioned into the available ones and those held by calls in flight and open
  tunnels.
\<close>

subsection \<open>Steps\<close>

record 'h quota_state =
  qs_gateway :: gateway
  qs_flight :: "(string option \<times> tunnel_limits) multiset"
  qs_open :: "'h accepted multiset"

text \<open>
  \<open>Begin_Ok\<close> and \<open>Begin_Refused\<close> are the two results of the first half of a metered call; a call
  in flight either \<open>Fails\<close> and drops its permit, or \<open>Opens\<close> a tunnel; \<open>Closes\<close> is the end of a
  tunnel; \<open>Others\<close> is every change of the shared state that leaves the permit table alone.
\<close>

inductive quota_step :: "'h quota_state \<Rightarrow> 'h quota_state \<Rightarrow> bool" where
  Begin_Ok: "meter_begin rq (qs_gateway s) = (Inr p, w) \<Longrightarrow>
     quota_step s (s\<lparr>qs_gateway := w, qs_flight := add_mset p (qs_flight s)\<rparr>)"
| Begin_Refused: "meter_begin rq (qs_gateway s) = (Inl e, w) \<Longrightarrow> quota_step s (s\<lparr>qs_gateway := w\<rparr>)"
| Fails: "p \<in># qs_flight s \<Longrightarrow>
     quota_step s (s\<lparr>qs_gateway := release_opt (fst p) (qs_gateway s), qs_flight := qs_flight s - {#p#}\<rparr>)"
| Opens: "p \<in># qs_flight s \<Longrightarrow> ac_guards a = [] \<Longrightarrow>
     quota_step s (s\<lparr>qs_flight := qs_flight s - {#p#}, qs_open := add_mset (meter_finish p a) (qs_open s)\<rparr>)"
| Closes: "a \<in># qs_open s \<Longrightarrow>
     quota_step s (s\<lparr>qs_gateway := close_tunnel a (qs_gateway s), qs_open := qs_open s - {#a#}\<rparr>)"
| Others: "gw_permits w = gw_permits (qs_gateway s) \<Longrightarrow> quota_step s (s\<lparr>qs_gateway := w\<rparr>)"

definition quota_init :: "'h quota_state \<Rightarrow> bool" where
  "quota_init s \<longleftrightarrow> gw_permits (qs_gateway s) = Map.empty \<and> qs_flight s = {#} \<and> qs_open s = {#}"

definition quota_reachable :: "'h quota_state \<Rightarrow> bool" where
  "quota_reachable s \<longleftrightarrow> (\<exists>s0. quota_init s0 \<and> quota_step\<^sup>*\<^sup>* s0 s)"

subsection \<open>Permits\<close>

text \<open>The permits of a key that a call in flight, an open tunnel and the whole state hold.\<close>

definition permit_held :: "string \<Rightarrow> string option \<times> tunnel_limits \<Rightarrow> nat" where
  "permit_held k p = (if fst p = Some k then 1 else 0)"

definition guards_held :: "string \<Rightarrow> 'h accepted \<Rightarrow> nat" where
  "guards_held k a = length (filter (\<lambda>g. g = QuotaPermit k) (ac_guards a))"

definition permits_held :: "string \<Rightarrow> 'h quota_state \<Rightarrow> nat" where
  "permits_held k s =
     sum_mset (image_mset (permit_held k) (qs_flight s)) + sum_mset (image_mset (guards_held k) (qs_open s))"

definition key_conserved :: "semaphore option \<Rightarrow> nat \<Rightarrow> bool" where
  "key_conserved sem held \<longleftrightarrow>
     (case sem of None \<Rightarrow> held = 0 | Some q \<Rightarrow> sem_available q + held = sem_size q)"

definition permits_conserved :: "'h quota_state \<Rightarrow> bool" where
  "permits_conserved s \<longleftrightarrow> (\<forall>k. key_conserved (gw_permits (qs_gateway s) k) (permits_held k s))"

lemma meter_limits_permits: "meter_limits rq w = (l, w1) \<Longrightarrow> gw_permits w1 = gw_permits w"
  by (auto simp: meter_limits_def bandwidth_for_def packets_for_def Let_def split: option.splits prod.splits)

text \<open>What the first half of a metered call does to the permit table.\<close>

lemma meter_begin_permits:
  assumes "meter_begin rq w = (r, w1)"
  shows "case meter_permit rq of
      None \<Rightarrow> gw_permits w1 = gw_permits w \<and> (\<exists>l. r = Inr (None, l))
    | Some (k, n) \<Rightarrow>
        (\<exists>sem. (gw_permits w k = Some sem \<or> gw_permits w k = None \<and> sem = \<lparr>sem_size = n, sem_available = n\<rparr>) \<and>
          (if sem_available sem = 0 then gw_permits w1 = (gw_permits w)(k \<mapsto> sem) \<and> (\<exists>e. r = Inl e)
           else gw_permits w1 = (gw_permits w)(k \<mapsto> sem\<lparr>sem_available := sem_available sem - 1\<rparr>) \<and>
             (\<exists>l. r = Inr (Some k, l))))"
proof -
  obtain l w0 where l: "meter_limits rq w = (l, w0)" by fastforce
  note same = meter_limits_permits [OF l]
  show ?thesis
  proof (cases "meter_permit rq")
    case None
    then show ?thesis using assms same by (auto simp: meter_begin_def l)
  next
    case (Some kn)
    obtain k n where kn: "kn = (k, n)" by (cases kn)
    then show ?thesis
      using assms same Some
      by (cases "gw_permits w k")
         (auto simp: meter_begin_def l semaphore_for_def try_acquire_def Let_def split: if_splits)
  qed
qed

lemma release_opt_permits:
  "gw_permits (release_opt p w) k =
     (if p = Some k then map_option (\<lambda>sem. sem\<lparr>sem_available := sem_available sem + 1\<rparr>) (gw_permits w k)
      else gw_permits w k)"
  by (auto simp: release_opt_def release_def split: option.splits)

lemma close_tunnel_permits:
  "gw_permits (close_tunnel a w) k =
     map_option (\<lambda>sem. sem\<lparr>sem_available := sem_available sem + guards_held k a\<rparr>) (gw_permits w k)"
proof -
  have "gw_permits (fold (\<lambda>g. case g of QuotaPermit key \<Rightarrow> release key) gs w) k =
     map_option (\<lambda>sem. sem\<lparr>sem_available := sem_available sem + length (filter (\<lambda>g. g = QuotaPermit k) gs)\<rparr>)
       (gw_permits w k)" for gs
  proof (induction gs arbitrary: w)
    case (Cons g gs)
    obtain key where "g = QuotaPermit key" by (cases g)
    then show ?case
      by (cases "gw_permits w k") (auto simp: Cons.IH release_def split: option.splits)
  qed (simp add: option.map_ident)
  then show ?thesis by (simp add: close_tunnel_def guards_held_def)
qed

lemma meter_finish_holds: "ac_guards a = [] \<Longrightarrow> guards_held k (meter_finish p a) = permit_held k p"
  by (simp add: guards_held_def permit_held_def meter_finish_def hold_def with_limits_def Let_def
      split: option.split)

subsection \<open>The invariant\<close>

lemma sum_mset_remove: "x \<in># M \<Longrightarrow> sum_mset (image_mset f M) = f x + sum_mset (image_mset f (M - {#x#}))"
  for f :: "'a \<Rightarrow> nat"
  by (metis image_mset_add_mset insert_DiffM sum_mset.insert)

lemma permits_held_step:
  "permits_held k (s\<lparr>qs_gateway := w\<rparr>) = permits_held k s"
  "permits_held k (s\<lparr>qs_flight := add_mset p (qs_flight s)\<rparr>) = permit_held k p + permits_held k s"
  "p \<in># qs_flight s \<Longrightarrow>
     permit_held k p + permits_held k (s\<lparr>qs_flight := qs_flight s - {#p#}\<rparr>) = permits_held k s"
  "a \<in># qs_open s \<Longrightarrow>
     guards_held k a + permits_held k (s\<lparr>qs_open := qs_open s - {#a#}\<rparr>) = permits_held k s"
  "permits_held k (s\<lparr>qs_open := add_mset a (qs_open s)\<rparr>) = guards_held k a + permits_held k s"
  using sum_mset_remove [of p "qs_flight s" "permit_held k"] sum_mset_remove [of a "qs_open s" "guards_held k"]
  by (simp_all add: permits_held_def)

lemma permits_held_gateway [simp]:
  "permits_held k (s\<lparr>qs_gateway := w, qs_flight := f\<rparr>) = permits_held k (s\<lparr>qs_flight := f\<rparr>)"
  "permits_held k (s\<lparr>qs_gateway := w, qs_open := g\<rparr>) = permits_held k (s\<lparr>qs_open := g\<rparr>)"
  by (simp_all add: permits_held_def)

lemma begin_conserves:
  assumes "meter_begin rq w = (r, w1)" "key_conserved (gw_permits w k) held"
  shows "key_conserved (gw_permits w1 k) ((case r of Inl _ \<Rightarrow> 0 | Inr p \<Rightarrow> permit_held k p) + held)"
  using meter_begin_permits [OF assms(1)] assms(2)
  by (auto simp: key_conserved_def permit_held_def split: option.splits if_splits)

lemma release_conserves:
  assumes "key_conserved sem (n + held)"
  shows "key_conserved (map_option (\<lambda>q. q\<lparr>sem_available := sem_available q + n\<rparr>) sem) held"
  using assms by (auto simp: key_conserved_def split: option.splits)

lemma quota_step_conserves:
  assumes "quota_step s s'" "permits_conserved s"
  shows "permits_conserved s'"
  using assms
proof (induction rule: quota_step.induct)
  case (Begin_Ok rq s p w)
  then show ?case
    using begin_conserves [OF Begin_Ok(1)] by (auto simp: permits_conserved_def permits_held_step)
next
  case (Begin_Refused rq s e w)
  then show ?case
    using begin_conserves [OF Begin_Refused(1)] by (auto simp: permits_conserved_def permits_held_step)
next
  case (Fails p s)
  show ?case
  proof (unfold permits_conserved_def, rule allI)
    fix k
    have "key_conserved (gw_permits (qs_gateway s) k)
        (permit_held k p + permits_held k (s\<lparr>qs_flight := qs_flight s - {#p#}\<rparr>))"
      using Fails by (simp add: permits_held_step permits_conserved_def)
    from release_conserves [OF this]
    show "key_conserved (gw_permits (qs_gateway (s\<lparr>qs_gateway := release_opt (fst p) (qs_gateway s),
        qs_flight := qs_flight s - {#p#}\<rparr>)) k)
      (permits_held k (s\<lparr>qs_gateway := release_opt (fst p) (qs_gateway s), qs_flight := qs_flight s - {#p#}\<rparr>))"
      by (auto simp: release_opt_permits permit_held_def option.map_ident split: if_splits)
  qed
next
  case (Opens p s a)
  have "permits_held k (s\<lparr>qs_flight := qs_flight s - {#p#}, qs_open := add_mset (meter_finish p a) (qs_open s)\<rparr>)
      = permits_held k s" for k
    using permits_held_step(3) [OF Opens(1), of k] meter_finish_holds [OF Opens(2), of k p]
    by (simp add: permits_held_def)
  then show ?case using Opens(3) by (simp add: permits_conserved_def)
next
  case (Closes a s)
  then have "key_conserved (gw_permits (qs_gateway s) k)
      (guards_held k a + permits_held k (s\<lparr>qs_open := qs_open s - {#a#}\<rparr>))" for k
    by (simp add: permits_held_step permits_conserved_def)
  then show ?case by (simp add: permits_conserved_def close_tunnel_permits release_conserves)
next
  case (Others w s)
  then show ?case by (simp add: permits_conserved_def permits_held_step)
qed

lemma reachable_conserved: "quota_reachable s \<Longrightarrow> permits_conserved s"
proof -
  have init: "quota_init s \<Longrightarrow> permits_conserved s" for s :: "'h quota_state"
    by (simp add: quota_init_def permits_conserved_def permits_held_def key_conserved_def)
  have "quota_step\<^sup>*\<^sup>* s0 s \<Longrightarrow> permits_conserved s0 \<Longrightarrow> permits_conserved s" for s0 s :: "'h quota_state"
    by (induction rule: rtranclp_induct) (auto intro: quota_step_conserves)
  then show "quota_reachable s \<Longrightarrow> permits_conserved s" using init by (auto simp: quota_reachable_def)
qed

lemma reachable_partition:
  assumes "quota_reachable s" "gw_permits (qs_gateway s) k = Some sem"
  shows "sem_available sem + permits_held k s = sem_size sem"
proof -
  have "key_conserved (gw_permits (qs_gateway s) k) (permits_held k s)"
    using reachable_conserved [OF assms(1)] by (simp add: permits_conserved_def)
  then show ?thesis by (simp add: key_conserved_def assms(2))
qed

text \<open>
  C12. However metered calls, failures, openings and closings of tunnels interleave, a policy never
  has more tunnels and pending calls holding its permits than the size of its quota; a new call is
  refused exactly when all of them are held; and no permit is lost: once no call and no tunnel holds
  one, the whole quota is available again.
\<close>

theorem quota_never_exceeded:
  assumes "quota_reachable s" "gw_permits (qs_gateway s) k = Some sem"
  shows "permits_held k s \<le> sem_size sem \<and>
    (\<forall>rq. map_option fst (meter_permit rq) = Some k \<longrightarrow>
       (\<exists>e w. meter_begin rq (qs_gateway s) = (Inl e, w)) = (permits_held k s = sem_size sem)) \<and>
    (permits_held k s = 0 \<longrightarrow> sem_available sem = sem_size sem)"
proof -
  have c: "sem_available sem + permits_held k s = sem_size sem"
    using assms by (rule reachable_partition)
  have "(\<exists>e w. meter_begin rq (qs_gateway s) = (Inl e, w)) = (sem_available sem = 0)"
    if key: "map_option fst (meter_permit rq) = Some k" for rq
  proof -
    obtain n where n: "meter_permit rq = Some (k, n)" using key by (cases "meter_permit rq") auto
    obtain r w where b: "meter_begin rq (qs_gateway s) = (r, w)" by fastforce
    show ?thesis using meter_begin_permits [OF b] assms(2) b by (auto simp: n split: if_splits)
  qed
  then show ?thesis using c by auto
qed

definition sample_quota_gateway :: gateway where
  "sample_quota_gateway = \<lparr>gw_now = 0, gw_mono = 0, gw_revoked = {}, gw_policies = [],
     gw_tenants = snapshot_default, gw_audit = [], gw_permits = Map.empty, gw_bandwidth = Map.empty,
     gw_packets = Map.empty, gw_usage = []\<rparr>"

definition sample_limited :: allowed where
  "sample_limited = \<lparr>al_policy = ''prod'', al_rule = ''rule #0'', al_egress = None,
     al_limits = limits_default\<lparr>lim_concurrent_connections := Some 1\<rparr>,
     al_session = \<lparr>ss_max_duration = None\<rparr>\<rparr>"

definition sample_metered :: tunnel_request where
  "sample_metered = authorize (authorized_from_decision \<lparr>tg_host = Name ''a'', tg_port = 443\<rparr> sample_limited)
     sample_tunnel"

theorem quota_never_exceeded_witness:
  "\<exists>(s :: nat quota_state) sem e w. quota_reachable s \<and> gw_permits (qs_gateway s) ''prod'' = Some sem \<and>
     permits_held ''prod'' s \<le> sem_size sem \<and> permits_held ''prod'' s = 1 \<and>
     meter_begin sample_metered (qs_gateway s) = (Inl e, w)"
proof -
  let ?init = "\<lparr>qs_gateway = sample_quota_gateway, qs_flight = {#}, qs_open = {#}\<rparr> :: nat quota_state"
  let ?p = "(Some ''prod'', tunnel_limits_default)"
  let ?w = "sample_quota_gateway\<lparr>gw_permits := [''prod'' \<mapsto> \<lparr>sem_size = 1, sem_available = 0\<rparr>]\<rparr>"
  let ?s = "?init\<lparr>qs_gateway := ?w, qs_flight := {#?p#}\<rparr>"
  have key: "meter_permit sample_metered = Some (''prod'', 1)" by code_simp
  have "meter_begin sample_metered sample_quota_gateway = (Inr ?p, ?w)"
    by (simp add: meter_begin_def meter_permit_def meter_limits_def request_decision_def sample_metered_def
        authorize_def authorized_from_decision_def sample_limited_def limits_default_def quota_key_def
        sample_tunnel_def request_new_def semaphore_for_def try_acquire_def sample_quota_gateway_def
        tunnel_limits_default_def Let_def)
  then have "quota_step ?init ?s" using quota_step.Begin_Ok [of sample_metered ?init ?p ?w] by simp
  moreover have "quota_init ?init" by (simp add: quota_init_def sample_quota_gateway_def)
  ultimately have r: "quota_reachable ?s" unfolding quota_reachable_def by blast
  have g: "gw_permits (qs_gateway ?s) ''prod'' = Some \<lparr>sem_size = 1, sem_available = 0\<rparr>" by simp
  have h: "permits_held ''prod'' ?s = 1" by (simp add: permits_held_def permit_held_def)
  have "map_option fst (meter_permit sample_metered) = Some ''prod''" by (simp add: key)
  then obtain e w where "meter_begin sample_metered (qs_gateway ?s) = (Inl e, w)"
    using quota_never_exceeded [OF r g] h by fastforce
  then show ?thesis using quota_never_exceeded [OF r g] r g h by blast
qed

lemma calls_finish: "\<exists>s'. quota_step\<^sup>*\<^sup>* s s' \<and> qs_flight s' = {#}"
proof (induction "size (qs_flight s)" arbitrary: s)
  case (Suc n)
  then obtain p where p: "p \<in># qs_flight s" by (metis size_eq_Suc_imp_elem)
  let ?t = "s\<lparr>qs_gateway := release_opt (fst p) (qs_gateway s), qs_flight := qs_flight s - {#p#}\<rparr>"
  have "n = size (qs_flight ?t)" using Suc.hyps(2) p by (simp add: size_Diff_singleton)
  from Suc.hyps(1) [OF this] show ?case using quota_step.Fails [OF p] by (meson converse_rtranclp_into_rtranclp)
qed auto

lemma tunnels_close:
  "qs_flight s = {#} \<Longrightarrow> \<exists>s'. quota_step\<^sup>*\<^sup>* s s' \<and> qs_flight s' = {#} \<and> qs_open s' = {#}"
proof (induction "size (qs_open s)" arbitrary: s)
  case (Suc n)
  then obtain a where a: "a \<in># qs_open s" by (metis size_eq_Suc_imp_elem)
  let ?t = "s\<lparr>qs_gateway := close_tunnel a (qs_gateway s), qs_open := qs_open s - {#a#}\<rparr>"
  have "n = size (qs_open ?t)" "qs_flight ?t = {#}"
    using Suc.hyps(2) Suc.prems a by (simp_all add: size_Diff_singleton)
  from Suc.hyps(1) [OF this] show ?case using quota_step.Closes [OF a] by (meson converse_rtranclp_into_rtranclp)
qed auto



text \<open>
  The key of a quota. Within one policy name different organisations have different keys; the
  separator is not escaped, so across policy names two organisations can meet in one key when an
  organisation id or a policy name contains a slash.
\<close>

lemma quota_key_separates_tenants:
  assumes "rq_tenant r1 = Some org1" "rq_tenant r2 = Some org2" "org1 \<noteq> org2"
  shows "quota_key r1 policy \<noteq> quota_key r2 policy"
  using assms by (simp add: quota_key_def)

lemma quota_key_slash_collision:
  "quota_key (sample_tunnel\<lparr>rq_tenant := Some ''a/b''\<rparr>) ''c''
     = quota_key (sample_tunnel\<lparr>rq_tenant := Some ''a''\<rparr>) ''b/c''"
  by (simp add: quota_key_def)

end
