(* ===== verification/F64.thy ===== *)
theory F64
  imports Prelude "HOL-Library.Log_Nat"
begin

text \<open>
  Binary64 arithmetic as the rate limiters use it. Every value there is non-negative, far from the
  overflow threshold, and zero or far from the subnormal range, so a floating point operation is the
  exact rational operation followed by rounding to 53 significant bits, ties to even.
\<close>

subsection \<open>Rounding\<close>

definition round_half_even :: "rat \<Rightarrow> int" where
  "round_half_even q =
     (let n = \<lfloor>q\<rfloor>; d = q - of_int n in if d < 1 / 2 \<or> d = 1 / 2 \<and> even n then n else n + 1)"

text \<open>The exponent of the leading bit of a positive rational.\<close>

definition binary_exponent :: "rat \<Rightarrow> int" where
  "binary_exponent x =
     (case quotient_of x of (a, b) \<Rightarrow>
        (let e = bitlen a - bitlen b in if 2 powi e \<le> x then e else e - 1))"

definition f64_round :: "rat \<Rightarrow> rat" where
  "f64_round x =
     (if x \<le> 0 then 0
      else (let u = 2 powi (binary_exponent x - 52) in of_int (round_half_even (x / u)) * u))"

definition f64_add :: "rat \<Rightarrow> rat \<Rightarrow> rat" where
  "f64_add a b = f64_round (a + b)"

definition f64_sub :: "rat \<Rightarrow> rat \<Rightarrow> rat" where
  "f64_sub a b = f64_round (a - b)"

definition f64_mul :: "rat \<Rightarrow> rat \<Rightarrow> rat" where
  "f64_mul a b = f64_round (a * b)"

definition f64_div :: "rat \<Rightarrow> rat \<Rightarrow> rat" where
  "f64_div a b = f64_round (a / b)"

text \<open>An integer as a binary64 value.\<close>

definition f64_of_nat :: "nat \<Rightarrow> rat" where
  "f64_of_nat n = f64_round (of_nat n)"

text \<open>A duration in nanoseconds as seconds (\<^verbatim>\<open>Duration::as_secs_f64\<close>).\<close>

definition as_secs_f64 :: "nat \<Rightarrow> rat" where
  "as_secs_f64 d = f64_add (f64_of_nat (d div 10 ^ 9)) (f64_div (of_nat (d mod 10 ^ 9)) (10 ^ 9))"

text \<open>Seconds as a duration, to the nearest nanosecond (\<^verbatim>\<open>Duration::from_secs_f64\<close>).\<close>

definition from_secs_f64 :: "rat \<Rightarrow> nat" where
  "from_secs_f64 x = nat (round_half_even (x * 10 ^ 9))"

subsection \<open>Laws\<close>

lemma round_half_even_of_int [simp]: "round_half_even (of_int n) = n"
  by (simp add: round_half_even_def)

lemma round_half_even_bounds: "\<lfloor>q\<rfloor> \<le> round_half_even q" "round_half_even q \<le> \<lfloor>q\<rfloor> + 1"
  by (simp_all add: round_half_even_def Let_def)

lemma round_half_even_mono: "p \<le> q \<Longrightarrow> round_half_even p \<le> round_half_even q"
proof -
  assume le: "p \<le> q"
  show ?thesis
  proof (cases "\<lfloor>p\<rfloor> = \<lfloor>q\<rfloor>")
    case True
    then show ?thesis using le by (auto simp: round_half_even_def Let_def)
  next
    case False
    then have "\<lfloor>p\<rfloor> + 1 \<le> \<lfloor>q\<rfloor>" using floor_mono [OF le] by linarith
    then show ?thesis using round_half_even_bounds [of p] round_half_even_bounds [of q] by linarith
  qed
qed

lemma round_half_even_between:
  "of_int m \<le> q \<Longrightarrow> m \<le> round_half_even q" "q \<le> of_int m \<Longrightarrow> round_half_even q \<le> m"
  using round_half_even_mono [of "of_int m" q] round_half_even_mono [of q "of_int m"] by simp_all

lemma bitlen_sandwich:
  assumes "0 < a"
  shows "(2 :: rat) powi (bitlen a - 1) \<le> of_int a" "of_int a < (2 :: rat) powi (bitlen a)"
proof -
  have b: "2 ^ nat (bitlen a - 1) \<le> a" "a < 2 ^ nat (bitlen a)" using bitlen_bounds [OF assms] by auto
  have pos: "0 < bitlen a" using b(2) assms by (rule_tac ccontr) simp
  have "of_int (2 ^ nat (bitlen a - 1)) \<le> (of_int a :: rat)" using b(1) by (simp only: of_int_le_iff)
  then show "(2 :: rat) powi (bitlen a - 1) \<le> of_int a" using pos by (simp add: power_int_def)
  have "(of_int a :: rat) < of_int (2 ^ nat (bitlen a))" using b(2) by (simp only: of_int_less_iff)
  then show "of_int a < (2 :: rat) powi (bitlen a)" using pos by (simp add: power_int_def)
qed

lemma binary_exponent_bounds:
  assumes "0 < x"
  shows "2 powi binary_exponent x \<le> x" "x < 2 powi (binary_exponent x + 1)"
proof -
  obtain a b where q: "quotient_of x = (a, b)" by fastforce
  have b0: "0 < b" using quotient_of_denom_pos [OF q] .
  have x: "x = of_int a / of_int b" using quotient_of_div [OF q] .
  have a0: "0 < a" using assms b0 by (simp add: x zero_less_divide_iff)
  note A = bitlen_sandwich [OF a0] and B = bitlen_sandwich [OF b0]
  let ?e = "bitlen a - bitlen b"
  have split: "(2 :: rat) powi (m + n) = 2 powi m * 2 powi n" for m n by (simp add: power_int_add)
  have "x < 2 powi (?e + 1)"
  proof -
    have "of_int a < (2 :: rat) powi (?e + 1) * 2 powi (bitlen b - 1)"
      using A(2) split [of "?e + 1" "bitlen b - 1"] by simp
    also have "\<dots> \<le> 2 powi (?e + 1) * of_int b" using B(1) by (simp add: mult_left_mono)
    finally show ?thesis using b0 by (simp add: x divide_less_eq)
  qed
  moreover have "2 powi (?e - 1) \<le> x"
  proof -
    have "2 powi (?e - 1) * of_int b \<le> (2 :: rat) powi (?e - 1) * 2 powi (bitlen b)"
      using B(2) by (simp add: mult_left_mono)
    also have "\<dots> = 2 powi (bitlen a - 1)" using split [of "?e - 1" "bitlen b"] by simp
    also have "\<dots> \<le> of_int a" by (rule A(1))
    finally show ?thesis using b0 by (simp add: x le_divide_eq)
  qed
  ultimately show "2 powi binary_exponent x \<le> x" "x < 2 powi (binary_exponent x + 1)"
    by (auto simp: binary_exponent_def q Let_def)
qed

lemma powi_le_iff: "(2 :: rat) powi m \<le> 2 powi n \<longleftrightarrow> m \<le> n"
  using power_int_increasing [of m n "2 :: rat"] power_int_strict_increasing [of n m "2 :: rat"] by force

lemma powi_less_iff: "(2 :: rat) powi m < 2 powi n \<longleftrightarrow> m < n"
  using powi_le_iff [of n m] by (simp flip: not_le)

lemma powi_split: "(2 :: rat) powi (m + n) = 2 powi m * 2 powi n"
  by (simp add: power_int_add)

text \<open>A rounded value stays in the binade of the exact one, its upper end included.\<close>

lemma f64_round_binade:
  assumes "0 < x"
  shows "2 powi binary_exponent x \<le> f64_round x" "f64_round x \<le> 2 powi (binary_exponent x + 1)"
proof -
  let ?e = "binary_exponent x" and ?u = "2 powi (binary_exponent x - 52) :: rat"
  have u: "0 < ?u" by simp
  have e: "(2 :: rat) powi ?e = of_int (2 ^ 52) * ?u" "(2 :: rat) powi (?e + 1) = of_int (2 ^ 53) * ?u"
    using powi_split [of 52 "?e - 52"] powi_split [of 53 "?e - 52"] by (simp_all add: add.commute)
  note b = binary_exponent_bounds [OF assms]
  have "of_int (2 ^ 52) \<le> x / ?u" "x / ?u \<le> of_int (2 ^ 53)"
    using b e u by (simp_all add: le_divide_eq divide_le_eq)
  then have r: "2 ^ 52 \<le> round_half_even (x / ?u)" "round_half_even (x / ?u) \<le> 2 ^ 53"
    by (simp_all add: round_half_even_between)
  have "of_int (2 ^ 52) \<le> (of_int (round_half_even (x / ?u)) :: rat)"
    "(of_int (round_half_even (x / ?u)) :: rat) \<le> of_int (2 ^ 53)"
    using r by (simp_all only: of_int_le_iff)
  then show "2 powi ?e \<le> f64_round x" "f64_round x \<le> 2 powi (?e + 1)"
    using assms u unfolding e by (simp_all add: f64_round_def Let_def mult_right_mono)
qed

lemma f64_round_mono: "x \<le> y \<Longrightarrow> f64_round x \<le> f64_round y"
proof -
  assume le: "x \<le> y"
  consider "x \<le> 0" "y \<le> 0" | "x \<le> 0" "0 < y" | "0 < x" "0 < y" using le by linarith
  then show ?thesis
  proof cases
    case 2
    have "(0 :: rat) < 2 powi binary_exponent y" by simp
    then have "0 \<le> f64_round y" using f64_round_binade(1) [OF 2(2)] by linarith
    then show ?thesis using 2(1) by (simp add: f64_round_def [of x])
  next
    case 3
    let ?e = "binary_exponent x" and ?f = "binary_exponent y"
    have "(2 :: rat) powi ?e < 2 powi (?f + 1)"
      using binary_exponent_bounds [OF 3(1)] binary_exponent_bounds [OF 3(2)] le by linarith
    then consider "?e = ?f" | "?e + 1 \<le> ?f" using powi_less_iff by force
    then show ?thesis
    proof cases
      case 1
      have "x / 2 powi (?f - 52) \<le> y / 2 powi (?f - 52)" using le by (simp add: divide_right_mono)
      from round_half_even_mono [OF this] show ?thesis
        using 3 1 by (simp add: f64_round_def Let_def mult_right_mono)
    next
      case 2
      then have "(2 :: rat) powi (?e + 1) \<le> 2 powi ?f" by (simp only: powi_le_iff)
      then show ?thesis
        using f64_round_binade(2) [OF 3(1)] f64_round_binade(1) [OF 3(2)] by linarith
    qed
  qed (simp add: f64_round_def)
qed

text \<open>Values with at most 53 significant bits are exact.\<close>

lemma f64_round_exact:
  assumes "n \<le> 2 ^ 53"
  shows "f64_round (of_nat n * 2 powi k) = of_nat n * 2 powi k"
proof (cases "n = 0")
  case False
  let ?x = "of_nat n * 2 powi k :: rat"
  let ?e = "binary_exponent ?x"
  have pos: "0 < ?x" using False by simp
  note b = binary_exponent_bounds [OF pos]
  have n: "(of_nat n :: rat) \<le> of_nat (2 ^ 53)" using assms by (simp only: of_nat_le_iff)
  have "2 powi ?e \<le> (of_nat (2 ^ 53) :: rat) * 2 powi k"
    by (rule order_trans [OF b(1) mult_right_mono [OF n]]) simp
  also have "\<dots> = 2 powi (53 + k)" by (simp add: powi_split)
  finally have "?e \<le> 53 + k" by (simp only: powi_le_iff)
  have "\<exists>m. ?x / 2 powi (?e - 52) = of_int m"
  proof (cases "?e \<le> 52 + k")
    case True
    define d where "d = k + 52 - ?e"
    have "2 powi k = (2 :: rat) powi d * 2 powi (?e - 52)" by (simp add: d_def flip: powi_split)
    then have "?x / 2 powi (?e - 52) = of_nat n * 2 powi d" by (simp only: divide_simps) simp
    moreover have "(2 :: rat) powi d = 2 ^ nat d" using True by (simp add: d_def power_int_def)
    ultimately have "?x / 2 powi (?e - 52) = of_int (int n * 2 ^ nat d)" by (simp only:) simp
    then show ?thesis by blast
  next
    case False
    then have e: "?e = 53 + k" using \<open>?e \<le> 53 + k\<close> by simp
    have "(2 :: rat) powi (53 + k) = of_nat (2 ^ 53) * 2 powi k" by (simp add: powi_split)
    then have "of_nat (2 ^ 53) * 2 powi k \<le> ?x" using b(1) e by simp
    then have "(of_nat (2 ^ 53) :: rat) \<le> of_nat n" by simp
    then have "n = 2 ^ 53" using assms by (simp only: of_nat_le_iff)
    then have "?x / 2 powi (?e - 52) = of_int (2 ^ 52)"
      unfolding e using powi_split [of 1 k] by simp
    then show ?thesis by blast
  qed
  then obtain m where m: "?x / 2 powi (?e - 52) = of_int m" by blast
  have "f64_round ?x = of_int m * 2 powi (?e - 52)" using pos m by (simp add: f64_round_def Let_def)
  also have "\<dots> = ?x" by (simp flip: m)
  finally show ?thesis .
qed (simp add: f64_round_def)

lemma f64_round_of_nat: "n \<le> 2 ^ 53 \<Longrightarrow> f64_round (of_nat n) = of_nat n"
  using f64_round_exact [of n 0] by simp

lemma f64_of_nat_exact: "n \<le> 2 ^ 53 \<Longrightarrow> f64_of_nat n = of_nat n"
  by (simp add: f64_of_nat_def f64_round_of_nat)

lemma f64_round_0 [simp]: "f64_round 0 = 0"
  by (simp add: f64_round_def)

lemma f64_round_nonneg: "0 \<le> f64_round x"
  using f64_round_mono [of 0 x] by (cases "0 \<le> x") (simp_all add: f64_round_def)

lemma f64_round_le_nat: "x \<le> of_nat n \<Longrightarrow> n \<le> 2 ^ 53 \<Longrightarrow> f64_round x \<le> of_nat n"
  using f64_round_mono [of x "of_nat n"] by (simp add: f64_round_of_nat)

text \<open>Rounding up adds at most one unit in the last of 53 places.\<close>

lemma f64_round_error:
  assumes "0 \<le> x"
  shows "f64_round x \<le> x * (1 + 1 / 2 ^ 52)"
proof (cases "x = 0")
  case False
  then have pos: "0 < x" using assms by simp
  let ?u = "2 powi (binary_exponent x - 52) :: rat"
  have u: "0 < ?u" by simp
  have "of_int (round_half_even (x / ?u)) \<le> x / ?u + 1"
    using round_half_even_bounds(2) [of "x / ?u"] of_int_floor_le [of "x / ?u"] by linarith
  then have "of_int (round_half_even (x / ?u)) * ?u \<le> (x / ?u + 1) * ?u" by (rule mult_right_mono) simp
  also have "\<dots> = x + ?u" using u by (simp add: field_simps)
  also have "?u \<le> x / 2 ^ 52"
    using binary_exponent_bounds(1) [OF pos] powi_split [of 52 "binary_exponent x - 52"]
    by (simp add: le_divide_eq mult.commute)
  finally show ?thesis using pos by (simp add: f64_round_def Let_def distrib_left)
qed simp

lemma as_secs_f64_0 [simp]: "as_secs_f64 0 = 0"
  by (simp add: as_secs_f64_def f64_add_def f64_div_def f64_of_nat_def)

lemma as_secs_f64_nonneg: "0 \<le> as_secs_f64 d"
  by (simp add: as_secs_f64_def f64_add_def f64_round_nonneg)

lemma as_secs_f64_error: "as_secs_f64 d \<le> of_nat d / 10 ^ 9 * (1 + 1 / 2 ^ 52) ^ 2"
proof -
  define c :: rat where "c = 1 + 1 / 2 ^ 52"
  have c: "1 \<le> c" by (simp add: c_def)
  let ?s = "of_nat (d div 10 ^ 9) :: rat" and ?n = "of_nat (d mod 10 ^ 9) / 10 ^ 9 :: rat"
  have split: "?s + ?n = of_nat d / 10 ^ 9"
  proof -
    have "of_nat d = (of_nat (d div 10 ^ 9 * 10 ^ 9 + d mod 10 ^ 9) :: rat)" by (simp only: div_mult_mod_eq)
    then have "of_nat d = ?s * 10 ^ 9 + of_nat (d mod 10 ^ 9)" by (simp only: of_nat_add of_nat_mult) simp
    then show ?thesis by (simp add: add_divide_distrib)
  qed
  have sum: "f64_round ?s + f64_round ?n \<le> ?s * c + ?n * c"
    using f64_round_error [of ?s] f64_round_error [of ?n] by (simp add: c_def)
  have nn: "0 \<le> f64_round ?s + f64_round ?n" by (simp add: f64_round_nonneg)
  have "as_secs_f64 d \<le> (f64_round ?s + f64_round ?n) * c"
    using f64_round_error [OF nn]
    by (simp add: as_secs_f64_def f64_add_def f64_of_nat_def f64_div_def c_def)
  also have "\<dots> \<le> (?s * c + ?n * c) * c" using sum c by (simp add: mult_right_mono)
  also have "\<dots> = (?s + ?n) * c ^ 2" by (simp add: power2_eq_square algebra_simps)
  finally show ?thesis by (simp only: split c_def)
qed

text \<open>Any positive elapsed time is at least a fixed fraction of a second.\<close>

lemma as_secs_f64_pos:
  assumes "0 < d"
  shows "1 / 2 ^ 30 \<le> as_secs_f64 d"
proof -
  have exact: "f64_round (1 / 2 ^ 30) = 1 / 2 ^ 30"
    using f64_round_exact [of 1 "- 30"] by (simp add: power_int_minus divide_simps)
  let ?s = "of_nat (d div 10 ^ 9) :: rat" and ?n = "of_nat (d mod 10 ^ 9) / 10 ^ 9 :: rat"
  have "1 / 2 ^ 30 \<le> f64_round ?s + f64_round ?n"
  proof (cases "d div 10 ^ 9 = 0")
    case True
    then have "d mod 10 ^ 9 = d" by simp
    then have "(of_nat 1 :: rat) \<le> of_nat (d mod 10 ^ 9)" using assms by (simp only: of_nat_le_iff)
    then have "1 / 2 ^ 30 \<le> ?n" by (simp add: field_simps)
    then show ?thesis using f64_round_mono [of "1 / 2 ^ 30" ?n] exact f64_round_nonneg [of ?s] by simp
  next
    case False
    then have "(of_nat 1 :: rat) \<le> ?s" by (simp only: of_nat_le_iff)
    then have "1 \<le> f64_round ?s" using f64_round_mono [of 1 ?s] f64_round_of_nat [of 1] by simp
    then show ?thesis using f64_round_nonneg [of ?n] by simp
  qed
  from f64_round_mono [OF this, unfolded exact] show ?thesis
    by (simp add: as_secs_f64_def f64_add_def f64_of_nat_def f64_div_def)
qed

end
