(* ===== verification/Pacing.thy ===== *)
theory Pacing
  imports F64
begin

text \<open>
  The pacing bucket behind a policy's bandwidth and packet rate (\<^verbatim>\<open>RateLimiter\<close> of
  \<^verbatim>\<open>skimasque/src/service.rs\<close>): a relay waits in \<^verbatim>\<open>consume\<close> until the bucket holds enough.
  The clock readings the loop takes are an argument, in nanoseconds.
\<close>

subsection \<open>Operations\<close>

record bucket_state =
  bk_tokens :: rat
  bk_last :: nat

record pacing =
  pc_units_per_sec :: rat
  pc_capacity :: rat
  pc_state :: bucket_state

definition pacing_new :: "rat \<Rightarrow> rat \<Rightarrow> nat \<Rightarrow> pacing" where
  "pacing_new units_per_sec min_capacity now =
     (let capacity = max units_per_sec min_capacity
      in \<lparr>pc_units_per_sec = units_per_sec, pc_capacity = capacity,
          pc_state = \<lparr>bk_tokens = capacity, bk_last = now\<rparr>\<rparr>)"

definition pacing_bandwidth :: "u64 \<Rightarrow> nat \<Rightarrow> pacing" where
  "pacing_bandwidth bits_per_sec = pacing_new (max (f64_div (f64_of_nat (unat bits_per_sec)) 8) 1) (64 * 1024)"

definition pacing_packets :: "u64 \<Rightarrow> nat \<Rightarrow> pacing" where
  "pacing_packets packets_per_sec = pacing_new (max (f64_of_nat (unat packets_per_sec)) 1) 64"

text \<open>
  One round of the loop of \<^verbatim>\<open>consume\<close> at a clock reading: done (\<open>None\<close>), or the nanoseconds to
  sleep before the next round.
\<close>

definition consume_round :: "rat \<Rightarrow> nat \<Rightarrow> pacing \<Rightarrow> nat option \<times> pacing" where
  "consume_round need now p =
     (let elapsed = as_secs_f64 (now - bk_last (pc_state p));
          tokens = min (f64_add (bk_tokens (pc_state p)) (f64_mul elapsed (pc_units_per_sec p))) (pc_capacity p)
      in if need \<le> tokens then (None, p\<lparr>pc_state := \<lparr>bk_tokens = f64_sub tokens need, bk_last = now\<rparr>\<rparr>)
         else (Some (min (from_secs_f64 (f64_div (f64_sub need tokens) (pc_units_per_sec p))) (10 ^ 9)),
               p\<lparr>pc_state := \<lparr>bk_tokens = tokens, bk_last = now\<rparr>\<rparr>))"

text \<open>The loop over its successive clock readings; \<open>None\<close> while they do not suffice.\<close>

fun consume_loop :: "rat \<Rightarrow> nat list \<Rightarrow> pacing \<Rightarrow> pacing option" where
  "consume_loop need [] p = None"
| "consume_loop need (now # rest) p =
     (case consume_round need now p of (None, p1) \<Rightarrow> Some p1 | (Some _, p1) \<Rightarrow> consume_loop need rest p1)"

definition consume :: "nat \<Rightarrow> nat list \<Rightarrow> pacing \<Rightarrow> pacing option" where
  "consume units clock p = consume_loop (min (f64_of_nat units) (pc_capacity p)) clock p"


subsection \<open>Waiting ends\<close>

text \<open>
  A quantum that every round is sure to gain: a power of two below what one nanosecond refills, of
  which the capacity is a representable multiple.
\<close>

definition quantum :: "pacing \<Rightarrow> int \<Rightarrow> bool" where
  "quantum p k \<longleftrightarrow> 2 powi k \<le> pc_units_per_sec p / 2 ^ 30 \<and> pc_capacity p \<le> 2 ^ 53 * 2 powi k"

lemma quantum_exists:
  assumes "1 \<le> u" "m \<le> 2 ^ 16"
  shows "quantum (pacing_new u m t) (binary_exponent (u / 2 ^ 30))"
proof -
  let ?k = "binary_exponent (u / 2 ^ 30)"
  have b: "2 powi ?k \<le> u / 2 ^ 30" "u / 2 ^ 30 < 2 powi (?k + 1)"
    using binary_exponent_bounds [of "u / 2 ^ 30"] assms(1) by simp_all
  have "u < 2 ^ 31 * 2 powi ?k" using b(2) powi_split [of ?k 1] by (simp add: field_simps)
  moreover have "m \<le> 2 ^ 16 * u" using assms by simp
  moreover define g :: rat where "g = 2 powi ?k"
  moreover have "0 < g" by (simp add: g_def)
  ultimately have "max u m \<le> 2 ^ 53 * 2 powi ?k" unfolding g_def [symmetric] by simp
  then show ?thesis using b(1) by (simp add: quantum_def pacing_new_def Let_def)
qed

lemma consume_round_gains:
  assumes q: "quantum p k" and need: "need \<le> pc_capacity p" and later: "bk_last (pc_state p) < now"
    and got: "of_nat j * 2 powi k \<le> bk_tokens (pc_state p)"
    and round: "consume_round need now p = (Some nap, p1)"
  shows "of_nat (Suc j) * 2 powi k \<le> bk_tokens (pc_state p1)" "bk_tokens (pc_state p1) < need"
    "bk_last (pc_state p1) = now" "quantum p1 k" "pc_capacity p1 = pc_capacity p"
proof -
  let ?e = "as_secs_f64 (now - bk_last (pc_state p))" and ?u = "pc_units_per_sec p"
  define sum where "sum = f64_add (bk_tokens (pc_state p)) (f64_mul ?e ?u)"
  have pos: "(0 :: rat) < 2 powi k" by simp
  have step: "\<not> need \<le> min sum (pc_capacity p)"
      "p1 = p\<lparr>pc_state := \<lparr>bk_tokens = min sum (pc_capacity p), bk_last = now\<rparr>\<rparr>"
    using round by (auto simp: consume_round_def sum_def Let_def split: if_splits)
  then have t: "bk_tokens (pc_state p1) = sum" "sum < need" using need by (auto simp: min_def split: if_splits)
  have "2 powi k \<le> ?u / 2 ^ 30" using q by (simp add: quantum_def)
  moreover have "1 / 2 ^ 30 * ?u \<le> ?e * ?u"
  proof (rule mult_right_mono)
    show "1 / 2 ^ 30 \<le> ?e" using later by (intro as_secs_f64_pos) simp
    show "0 \<le> ?u" using order_less_le_trans [OF pos \<open>2 powi k \<le> ?u / 2 ^ 30\<close>] by simp
  qed
  ultimately have "2 powi k \<le> ?e * ?u" by simp
  then have "2 powi k \<le> f64_mul ?e ?u"
    using f64_round_mono [of "2 powi k" "?e * ?u"] f64_round_exact [of 1 k] by (simp add: f64_mul_def)
  then have lower: "of_nat (Suc j) * 2 powi k \<le> bk_tokens (pc_state p) + f64_mul ?e ?u"
    using got by (simp add: distrib_right)
  define m where "m = min (Suc j) (2 ^ 53)"
  have "(of_nat m :: rat) \<le> of_nat (Suc j)" by (simp only: of_nat_le_iff m_def min.cobounded1)
  then have "of_nat m * 2 powi k \<le> (of_nat (Suc j) * 2 powi k :: rat)" by (rule mult_right_mono) simp
  then have "of_nat m * 2 powi k \<le> bk_tokens (pc_state p) + f64_mul ?e ?u" using lower by (rule order_trans)
  moreover have "m \<le> 2 ^ 53" by (simp add: m_def)
  ultimately have gain: "of_nat m * 2 powi k \<le> sum"
    using f64_round_mono f64_round_exact unfolding sum_def f64_add_def by metis
  have "m \<noteq> 2 ^ 53"
  proof
    assume "m = 2 ^ 53"
    then have "2 ^ 53 * 2 powi k \<le> sum" using gain by simp
    then show False using q need t(2) by (simp add: quantum_def)
  qed
  then have "m = Suc j" by (auto simp: m_def min_def split: if_splits)
  then show "of_nat (Suc j) * 2 powi k \<le> bk_tokens (pc_state p1)" using gain t(1) by simp
  show "bk_tokens (pc_state p1) < need" using t by simp
  show "bk_last (pc_state p1) = now" "quantum p1 k" "pc_capacity p1 = pc_capacity p"
    using step(2) q by (simp_all add: quantum_def)
qed

lemma consume_loop_progress:
  assumes "quantum p k" "need \<le> pc_capacity p" "sorted_wrt (<) (bk_last (pc_state p) # clock)"
    "of_nat j * 2 powi k \<le> bk_tokens (pc_state p)" "consume_loop need clock p = None" "clock \<noteq> []"
  shows "of_nat (j + length clock) * 2 powi k < need"
  using assms
proof (induction clock arbitrary: p j)
  case (Cons now clock)
  obtain nap p1 where r: "consume_round need now p = (Some nap, p1)"
    using Cons.prems(5) by (cases "consume_round need now p"; cases "fst (consume_round need now p)") auto
  note g = consume_round_gains [OF Cons.prems(1,2) _ Cons.prems(4) r]
  have later: "bk_last (pc_state p) < now" using Cons.prems(3) by simp
  show ?case
  proof (cases "clock = []")
    case True
    then show ?thesis using g(1,2) [OF later] by simp
  next
    case False
    have "of_nat (Suc j + length clock) * 2 powi k < need"
      using Cons.IH [of p1 "Suc j"] g [OF later] Cons.prems r False by simp
    then show ?thesis by simp
  qed
qed simp

definition pacing_wf :: "pacing \<Rightarrow> bool" where
  "pacing_wf p \<longleftrightarrow> (\<exists>u m t s. 1 \<le> u \<and> m \<le> 2 ^ 16 \<and> p = (pacing_new u m t)\<lparr>pc_state := s\<rparr> \<and> 0 \<le> bk_tokens s)"

lemma pacing_constructors_wf: "pacing_wf (pacing_bandwidth bits t)" "pacing_wf (pacing_packets pps t)"
proof -
  have "pacing_wf (pacing_new u m t)" if "1 \<le> u" "m \<le> 2 ^ 16" for u m
    unfolding pacing_wf_def
    by (rule exI [of _ u], rule exI [of _ m], rule exI [of _ t], rule exI [of _ "pc_state (pacing_new u m t)"])
      (use that in \<open>simp add: pacing_new_def Let_def le_max_iff_disj\<close>)
  then show "pacing_wf (pacing_bandwidth bits t)" "pacing_wf (pacing_packets pps t)"
    by (simp_all add: pacing_bandwidth_def pacing_packets_def)
qed

text \<open>Spending keeps the bucket well formed, so the next \<^verbatim>\<open>consume\<close> finds one.\<close>

lemma consume_round_wf:
  assumes "pacing_wf p" "consume_round need now p = (r, p1)"
  shows "pacing_wf p1"
proof -
  obtain u m t s where p: "1 \<le> u" "m \<le> 2 ^ 16" "p = (pacing_new u m t)\<lparr>pc_state := s\<rparr>"
    using assms(1) by (auto simp: pacing_wf_def)
  have cap: "0 \<le> pc_capacity p" using p by (simp add: pacing_new_def Let_def le_max_iff_disj)
  obtain s1 where s1: "p1 = p\<lparr>pc_state := s1\<rparr>" "0 \<le> bk_tokens s1"
    using assms(2) cap
    by (auto simp: consume_round_def f64_add_def f64_sub_def f64_round_nonneg Let_def split: if_splits)
  then have "p1 = (pacing_new u m t)\<lparr>pc_state := s1\<rparr>" by (simp add: p)
  then show ?thesis using p(1,2) s1(2) unfolding pacing_wf_def by blast
qed

lemma consume_loop_wf: "pacing_wf p \<Longrightarrow> consume_loop need clock p = Some p1 \<Longrightarrow> pacing_wf p1"
  by (induction clock arbitrary: p)
    (auto split: prod.splits option.splits dest: consume_round_wf)



end
