(* ===== verification/Rate_Limits.thy ===== *)
theory Rate_Limits
  imports F64 Rust_Net
begin

text \<open>
  The token buckets that bound how fast connections and credential exchanges
  arrive (\<^verbatim>\<open>TokenBucket\<close>, \<^verbatim>\<open>PerSourceRate\<close> and \<^verbatim>\<open>ExchangeRateLimiter\<close> of
  \<^verbatim>\<open>skimasque/src/server.rs\<close>). The clock readings the code takes are arguments, in nanoseconds.
\<close>

subsection \<open>Token buckets\<close>

record connection_rate =
  cr_per_second :: u32
  cr_burst :: u32

record token_bucket =
  tb_tokens :: rat
  tb_capacity :: rat
  tb_refill_per_sec :: rat
  tb_last :: nat

definition bucket_new :: "connection_rate \<Rightarrow> nat \<Rightarrow> token_bucket" where
  "bucket_new rate now =
     (let capacity = of_nat (unat (max (cr_burst rate) 1))
      in \<lparr>tb_tokens = capacity, tb_capacity = capacity,
          tb_refill_per_sec = max (of_nat (unat (cr_per_second rate))) 0, tb_last = now\<rparr>)"

definition bucket_try_take :: "nat \<Rightarrow> token_bucket \<Rightarrow> bool \<times> token_bucket" where
  "bucket_try_take now b =
     (let elapsed = as_secs_f64 (now - tb_last b);
          tokens = min (f64_add (tb_tokens b) (f64_mul elapsed (tb_refill_per_sec b))) (tb_capacity b)
      in if 1 \<le> tokens then (True, b\<lparr>tb_tokens := f64_sub tokens 1, tb_last := now\<rparr>)
         else (False, b\<lparr>tb_tokens := tokens, tb_last := now\<rparr>))"

definition bucket_is_full :: "nat \<Rightarrow> token_bucket \<Rightarrow> bool" where
  "bucket_is_full now b \<longleftrightarrow>
     tb_capacity b \<le> f64_add (tb_tokens b) (f64_mul (as_secs_f64 (now - tb_last b)) (tb_refill_per_sec b))"

subsection \<open>One bucket per source\<close>

text \<open>
  The buckets are a hash map: its iteration order, and so the choice among equally old sources, is
  the order of the list. Dropping idle buckets reads the clock once per bucket.
\<close>

record per_source_rate =
  ps_rate :: connection_rate
  ps_buckets :: "(ip_addr \<times> token_bucket) list"

definition MAX_SOURCES :: nat where
  "MAX_SOURCES = 4096"

definition per_source_new :: "connection_rate \<Rightarrow> per_source_rate" where
  "per_source_new rate = \<lparr>ps_rate = rate, ps_buckets = []\<rparr>"

fun oldest_source :: "(ip_addr \<times> token_bucket) list \<Rightarrow> ip_addr option" where
  "oldest_source [] = None"
| "oldest_source [(ip, b)] = Some ip"
| "oldest_source ((ip, b) # (ip', b') # rest) =
     (if tb_last b \<le> tb_last b' then oldest_source ((ip, b) # rest) else oldest_source ((ip', b') # rest))"

definition make_room :: "(ip_addr \<Rightarrow> nat) \<Rightarrow> per_source_rate \<Rightarrow> per_source_rate" where
  "make_room clock ps =
     (let kept = filter (\<lambda>(ip, b). \<not> bucket_is_full (clock ip) b) (ps_buckets ps)
      in if length kept < MAX_SOURCES then ps\<lparr>ps_buckets := kept\<rparr>
         else (case oldest_source kept of
                 Some oldest \<Rightarrow> ps\<lparr>ps_buckets := filter (\<lambda>(ip, _). ip \<noteq> oldest) kept\<rparr>
               | None \<Rightarrow> ps\<lparr>ps_buckets := kept\<rparr>))"

definition per_source_try_take ::
  "(ip_addr \<Rightarrow> nat) \<Rightarrow> nat \<Rightarrow> nat \<Rightarrow> ip_addr \<Rightarrow> per_source_rate \<Rightarrow> bool \<times> per_source_rate" where
  "per_source_try_take clock created now ip ps =
     (let ps1 = (if map_of (ps_buckets ps) ip = None \<and> MAX_SOURCES \<le> length (ps_buckets ps)
                 then make_room clock ps else ps);
          bs = (if map_of (ps_buckets ps1) ip = None
                then (ip, bucket_new (ps_rate ps1) created) # ps_buckets ps1 else ps_buckets ps1);
          (ok, b) = bucket_try_take now (the (map_of bs ip))
      in (ok, ps1\<lparr>ps_buckets := map (\<lambda>(k, v). if k = ip then (k, b) else (k, v)) bs\<rparr>))"

text \<open>The exchange limiter is the same structure under a lock that survives a poisoned holder.\<close>

type_synonym exchange_rate_limiter = per_source_rate

definition exchange_limiter_new :: "connection_rate \<Rightarrow> exchange_rate_limiter" where
  "exchange_limiter_new rate = per_source_new rate"

definition exchange_check ::
  "(ip_addr \<Rightarrow> nat) \<Rightarrow> nat \<Rightarrow> nat \<Rightarrow> ip_addr \<Rightarrow> exchange_rate_limiter \<Rightarrow> bool \<times> exchange_rate_limiter" where
  "exchange_check clock created now ip l = per_source_try_take clock created now ip l"

subsection \<open>Bounds of a bucket\<close>

definition bucket_wf :: "token_bucket \<Rightarrow> bool" where
  "bucket_wf b \<longleftrightarrow> (\<exists>n \<le> 2 ^ 32. tb_capacity b = of_nat n) \<and> 0 \<le> tb_tokens b \<and>
     tb_tokens b \<le> tb_capacity b \<and> 0 \<le> tb_refill_per_sec b"

lemma bucket_new_wf: "bucket_wf (bucket_new rate now)"
proof -
  define n where "n = unat (max (cr_burst rate) 1)"
  have n: "n \<le> 2 ^ 32" using unsigned_less [of "max (cr_burst rate) 1", where 'a = nat] by (simp add: n_def)
  have "bucket_new rate now = \<lparr>tb_tokens = of_nat n, tb_capacity = of_nat n,
      tb_refill_per_sec = max (of_nat (unat (cr_per_second rate))) 0, tb_last = now\<rparr>"
    by (simp only: bucket_new_def n_def Let_def)
  then show ?thesis using n by (auto simp: bucket_wf_def)
qed

lemma bucket_try_take_wf:
  assumes "bucket_wf b"
  shows "bucket_wf (snd (bucket_try_take now b))"
proof -
  obtain n where n: "n \<le> 2 ^ 32" "tb_capacity b = of_nat n" using assms by (auto simp: bucket_wf_def)
  let ?t = "min (f64_add (tb_tokens b) (f64_mul (as_secs_f64 (now - tb_last b)) (tb_refill_per_sec b))) (of_nat n)"
  have t: "0 \<le> ?t" by (simp add: f64_add_def f64_round_nonneg)
  have "f64_sub ?t 1 \<le> of_nat n" using n(1) by (simp add: f64_sub_def f64_round_le_nat)
  moreover have "0 \<le> f64_sub ?t 1" by (simp add: f64_sub_def f64_round_nonneg)
  ultimately show ?thesis using assms n t
    by (auto simp: bucket_wf_def bucket_try_take_def Let_def)
qed

lemma bucket_try_take_eq:
  assumes "min (f64_add (tb_tokens b) (f64_mul (as_secs_f64 (now - tb_last b)) (tb_refill_per_sec b)))
      (tb_capacity b) = x"
  shows "bucket_try_take now b = (if 1 \<le> x then (True, b\<lparr>tb_tokens := f64_sub x 1, tb_last := now\<rparr>)
      else (False, b\<lparr>tb_tokens := x, tb_last := now\<rparr>))"
  by (simp only: bucket_try_take_def Let_def assms)

text \<open>One call, accounted: what it leaves and grants is covered by what was there and the refill.\<close>

lemma bucket_try_take_account:
  assumes "bucket_wf b" "bucket_try_take now b = (ok, b1)"
  shows "tb_tokens b1 + of_bool ok \<le> tb_tokens b +
     tb_refill_per_sec b * (of_nat (now - tb_last b) / 10 ^ 9) * (1 + 1 / 2 ^ 49) + 1 / 2 ^ 18"
    "tb_last b1 = now" "tb_refill_per_sec b1 = tb_refill_per_sec b"
proof -
  define c :: rat where "c = 1 + 1 / 2 ^ 52"
  define T :: rat where "T = of_nat (now - tb_last b) / 10 ^ 9"
  define r where "r = tb_refill_per_sec b"
  obtain n where n: "n \<le> 2 ^ 32" "tb_capacity b = of_nat n" using assms by (auto simp: bucket_wf_def)
  have cap: "tb_capacity b \<le> 2 ^ 32"
  proof -
    have "(of_nat n :: rat) \<le> of_nat (2 ^ 32)" using n(1) by (simp only: of_nat_le_iff)
    then show ?thesis by (simp add: n(2))
  qed
  have pos: "0 \<le> r" "0 \<le> T" "0 \<le> tb_tokens b" "tb_tokens b \<le> 2 ^ 32" "1 \<le> c"
    using assms(1) cap by (simp_all add: bucket_wf_def r_def T_def c_def)
  let ?m = "f64_mul (as_secs_f64 (now - tb_last b)) r"
  let ?t = "min (f64_add (tb_tokens b) ?m) (tb_capacity b)"
  have m: "0 \<le> ?m" "?m \<le> r * T * c ^ 3"
  proof -
    have "as_secs_f64 (now - tb_last b) * r \<le> T * c ^ 2 * r"
      unfolding T_def c_def by (rule mult_right_mono [OF as_secs_f64_error pos(1)])
    moreover have "?m \<le> as_secs_f64 (now - tb_last b) * r * c"
      unfolding f64_mul_def c_def by (rule f64_round_error) (simp add: as_secs_f64_nonneg pos)
    ultimately have "?m \<le> T * c ^ 2 * r * c" using pos(5) by (meson order_trans mult_right_mono zero_le_one)
    then show "?m \<le> r * T * c ^ 3" by (simp add: power3_eq_cube power2_eq_square algebra_simps)
  qed (simp add: f64_mul_def f64_round_nonneg)
  have add: "f64_add (tb_tokens b) ?m \<le> tb_tokens b + 1 / 2 ^ 20 + r * T * (1 + 1 / 2 ^ 49)"
  proof -
    have "f64_add (tb_tokens b) ?m \<le> (tb_tokens b + ?m) * c"
      unfolding f64_add_def c_def by (rule f64_round_error) (use pos m in simp)
    also have "\<dots> \<le> (tb_tokens b + r * T * c ^ 3) * c" using m pos(5) by (simp add: mult_right_mono)
    also have "\<dots> = tb_tokens b + tb_tokens b / 2 ^ 52 + r * T * c ^ 4"
      by (simp add: c_def power3_eq_cube power4_eq_xxxx algebra_simps)
    also have "\<dots> \<le> tb_tokens b + 1 / 2 ^ 20 + r * T * (1 + 1 / 2 ^ 49)"
      using pos by (intro add_mono mult_left_mono) (simp_all add: c_def power4_eq_xxxx)
    finally show ?thesis .
  qed
  have sub: "f64_sub ?t 1 + 1 \<le> ?t + 1 / 2 ^ 20" if "1 \<le> ?t"
  proof -
    have "f64_sub ?t 1 \<le> (?t - 1) * c" unfolding f64_sub_def c_def by (rule f64_round_error) (use that in simp)
    also have "\<dots> = ?t - 1 + (?t - 1) / 2 ^ 52" by (simp only: c_def distrib_left) simp
    also have "(?t - 1) / 2 ^ 52 \<le> 1 / 2 ^ 20"
    proof -
      have "?t \<le> 2 ^ 32" using cap by (simp add: min.coboundedI2)
      then show ?thesis by (simp add: divide_le_eq)
    qed
    finally show ?thesis by simp
  qed
  have t: "?t \<le> tb_tokens b + 1 / 2 ^ 20 + r * T * (1 + 1 / 2 ^ 49)" using add by simp
  have refill: "tb_refill_per_sec b * (of_nat (now - tb_last b) / 10 ^ 9) = r * T" by (simp only: r_def T_def)
  show "tb_tokens b1 + of_bool ok \<le> tb_tokens b +
     tb_refill_per_sec b * (of_nat (now - tb_last b) / 10 ^ 9) * (1 + 1 / 2 ^ 49) + 1 / 2 ^ 18"
  proof (cases "1 \<le> ?t")
    case True
    then have "ok" "b1 = b\<lparr>tb_tokens := f64_sub ?t 1, tb_last := now\<rparr>"
      using assms(2) by (simp_all add: bucket_try_take_def Let_def r_def)
    then show ?thesis using sub [OF True] t unfolding refill by simp
  next
    case False
    then have "\<not> ok" "b1 = b\<lparr>tb_tokens := ?t, tb_last := now\<rparr>"
      using assms(2) by (auto simp: bucket_try_take_def Let_def r_def)
    then show ?thesis using t unfolding refill by simp
  qed
  show "tb_last b1 = now" "tb_refill_per_sec b1 = tb_refill_per_sec b"
    using assms(2) by (auto simp: bucket_try_take_def Let_def split: if_splits)
qed

fun granted :: "nat list \<Rightarrow> token_bucket \<Rightarrow> nat" where
  "granted [] b = 0"
| "granted (now # nows) b = (let (ok, b1) = bucket_try_take now b in of_bool ok + granted nows b1)"

lemma granted_account:
  assumes "bucket_wf b" "sorted (tb_last b # nows)"
  shows "of_nat (granted nows b) \<le> tb_tokens b +
     tb_refill_per_sec b * (of_nat (last (tb_last b # nows) - tb_last b) / 10 ^ 9) * (1 + 1 / 2 ^ 49) +
     of_nat (length nows) / 2 ^ 18"
  using assms
proof (induction nows arbitrary: b)
  case Nil
  then show ?case by (simp add: bucket_wf_def)
next
  case (Cons now nows)
  obtain ok b1 where t: "bucket_try_take now b = (ok, b1)" by fastforce
  note a = bucket_try_take_account [OF Cons.prems(1) t]
  have wf: "bucket_wf b1" using bucket_try_take_wf [OF Cons.prems(1), of now] t by simp
  let ?fin = "last (now # nows)"
  have srt: "sorted (tb_last b1 # nows)" using Cons.prems(2) a(2) by simp
  have le: "tb_last b \<le> now" "now \<le> ?fin" using Cons.prems(2) by auto
  define k where "k = tb_refill_per_sec b * (1 + 1 / 2 ^ 49) / 10 ^ 9"
  have time: "of_nat (?fin - tb_last b) = (of_nat (?fin - now) + of_nat (now - tb_last b) :: rat)"
    using le by (simp flip: of_nat_add)
  have ih: "of_nat (granted nows b1) \<le> tb_tokens b1 + k * of_nat (?fin - now) + of_nat (length nows) / 2 ^ 18"
    using Cons.IH [OF wf srt] by (simp add: a k_def algebra_simps)
  have step: "tb_tokens b1 + of_bool ok \<le> tb_tokens b + k * of_nat (now - tb_last b) + 1 / 2 ^ 18"
    using a(1) by (simp add: k_def algebra_simps)
  have "of_nat (granted (now # nows) b) = of_bool ok + (of_nat (granted nows b1) :: rat)" by (simp add: t)
  also have "\<dots> \<le> tb_tokens b + k * of_nat (?fin - tb_last b) + of_nat (length (now # nows)) / 2 ^ 18"
    unfolding time distrib_left using ih step by (simp add: add_divide_distrib)
  finally show ?case by (simp add: k_def algebra_simps)
qed

lemma clump_granted:
  assumes "tb_tokens b = of_nat j" "tb_capacity b = of_nat n" "j \<le> n" "n \<le> 2 ^ 32" "tb_last b = t"
  shows "granted (replicate k t) b = min k j"
  using assms
proof (induction k arbitrary: b j)
  case (Suc k)
  have exact: "f64_round (of_nat m) = of_nat m" if "m \<le> n" for m
    using that Suc.prems(4) by (simp add: f64_round_of_nat)
  have tokens: "min (f64_add (tb_tokens b) (f64_mul (as_secs_f64 (t - tb_last b)) (tb_refill_per_sec b)))
      (tb_capacity b) = of_nat j"
    using Suc.prems exact [of j] by (simp add: f64_add_def f64_mul_def)
  show ?case
  proof (cases j)
    case 0
    then have "bucket_try_take t b = (False, b\<lparr>tb_tokens := of_nat 0, tb_last := t\<rparr>)"
      by (simp add: bucket_try_take_eq [OF tokens])
    then show ?thesis using Suc.IH [of "b\<lparr>tb_tokens := of_nat 0, tb_last := t\<rparr>" 0] Suc.prems 0 by simp
  next
    case (Suc i)
    then have "f64_sub (of_nat j) 1 = of_nat i" using exact [of i] Suc.prems(3) by (simp add: f64_sub_def)
    then have "bucket_try_take t b = (True, b\<lparr>tb_tokens := of_nat i, tb_last := t\<rparr>)"
      using Suc by (simp add: bucket_try_take_eq [OF tokens])
    then show ?thesis
      using Suc.IH [of "b\<lparr>tb_tokens := of_nat i, tb_last := t\<rparr>" i] Suc.prems Suc by simp
  qed
qed simp

lemma bucket_new_fields:
  "tb_tokens (bucket_new rate t) = of_nat (max (unat (cr_burst rate)) 1)"
  "tb_capacity (bucket_new rate t) = of_nat (max (unat (cr_burst rate)) 1)"
  "tb_refill_per_sec (bucket_new rate t) = of_nat (unat (cr_per_second rate))" "tb_last (bucket_new rate t) = t"
proof -
  have "unat (max (cr_burst rate) 1) = max (unat (cr_burst rate)) 1"
    by (simp add: max_def word_le_nat_alt)
  then show "tb_tokens (bucket_new rate t) = of_nat (max (unat (cr_burst rate)) 1)"
    "tb_capacity (bucket_new rate t) = of_nat (max (unat (cr_burst rate)) 1)"
    by (simp_all only: bucket_new_def Let_def token_bucket.simps)
  have "max (of_nat (unat (cr_per_second rate))) 0 = (of_nat (unat (cr_per_second rate)) :: rat)"
    by (simp only: max_absorb1 of_nat_0_le_iff)
  then show "tb_refill_per_sec (bucket_new rate t) = of_nat (unat (cr_per_second rate))"
    by (simp only: bucket_new_def Let_def token_bucket.simps)
  show "tb_last (bucket_new rate t) = t" by (simp add: bucket_new_def Let_def)
qed

text \<open>
  C33. A connection-rate bucket enforces its rate in floating point. Over any sequence of arrivals it
  grants at most its burst plus the sustained rate times the elapsed time, up to a relative error of
  one in \<open>2 ^ 49\<close> on the refill and \<open>1 / 2 ^ 18\<close> tokens per arrival; and a clump of arrivals at the moment of creation is granted exactly up to the burst.
\<close>

theorem token_bucket_rate_bound:
  assumes "sorted (t # nows)"
  shows "of_nat (granted nows (bucket_new rate t)) \<le> of_nat (max (unat (cr_burst rate)) 1) +
      of_nat (unat (cr_per_second rate)) * (of_nat (last (t # nows) - t) / 10 ^ 9) * (1 + 1 / 2 ^ 49) +
      (of_nat (length nows) / 2 ^ 18 :: rat) \<and>
    granted (replicate k t) (bucket_new rate t) = min k (max (unat (cr_burst rate)) 1)"
proof
  show "of_nat (granted nows (bucket_new rate t)) \<le> of_nat (max (unat (cr_burst rate)) 1) +
      of_nat (unat (cr_per_second rate)) * (of_nat (last (t # nows) - t) / 10 ^ 9) * (1 + 1 / 2 ^ 49) +
      (of_nat (length nows) / 2 ^ 18 :: rat)"
    using granted_account [OF bucket_new_wf, of rate t nows] assms by (simp only: bucket_new_fields)
  have "max (unat (cr_burst rate)) 1 \<le> 2 ^ 32"
    using unsigned_less [of "cr_burst rate", where 'a = nat] by simp
  then show "granted (replicate k t) (bucket_new rate t) = min k (max (unat (cr_burst rate)) 1)"
    by (rule clump_granted [OF bucket_new_fields(1,2) order_refl _ bucket_new_fields(4)])
qed

theorem token_bucket_rate_bound_witness:
  "of_nat (granted [0, 10 ^ 9] (bucket_new \<lparr>cr_per_second = 1, cr_burst = 1\<rparr> 0)) \<le>
      of_nat (max (unat (1 :: u32)) 1) +
      of_nat (unat (1 :: u32)) * (of_nat (last [0, 0, 10 ^ 9] - 0) / 10 ^ 9) * (1 + 1 / 2 ^ 49) +
      (of_nat (length [0 :: nat, 10 ^ 9]) / 2 ^ 18 :: rat) \<and>
    granted (replicate 3 0) (bucket_new \<lparr>cr_per_second = 1, cr_burst = 1\<rparr> 0) = min 3 (max (unat (1 :: u32)) 1)"
proof -
  have "sorted [0 :: nat, 0, 10 ^ 9]" by simp
  from token_bucket_rate_bound [OF this, of "\<lparr>cr_per_second = 1, cr_burst = 1\<rparr>" 3]
  show ?thesis by (simp only: connection_rate.simps)
qed

subsection \<open>Sources are bounded and separate\<close>

lemma oldest_source_in: "bs \<noteq> [] \<Longrightarrow> \<exists>ip. oldest_source bs = Some ip \<and> ip \<in> fst ` set bs"
  by (induction bs rule: oldest_source.induct) auto

lemma oldest_source_oldest:
  assumes "oldest_source bs = Some ip" "(ip', b') \<in> set bs"
  shows "\<exists>b. (ip, b) \<in> set bs \<and> tb_last b \<le> tb_last b'"
  using assms
proof (induction bs arbitrary: ip' b' rule: oldest_source.induct)
  case (3 i b i' b2 rest)
  show ?case
  proof (cases "tb_last b \<le> tb_last b2")
    case True
    then have old: "oldest_source ((i, b) # rest) = Some ip" using 3(3) by simp
    have "\<exists>w. (ip, w) \<in> set ((i, b) # rest) \<and> tb_last w \<le> tb_last v" if "(k, v) \<in> set ((i, b) # rest)" for k v
      by (rule 3(1) [OF True old that])
    from this [of i b] this [of ip' b'] show ?thesis using 3(4) True by fastforce
  next
    case False
    then have old: "oldest_source ((i', b2) # rest) = Some ip" using 3(3) by simp
    have "\<exists>w. (ip, w) \<in> set ((i', b2) # rest) \<and> tb_last w \<le> tb_last v" if "(k, v) \<in> set ((i', b2) # rest)" for k v
      by (rule 3(2) [OF False old that])
    from this [of i' b2] this [of ip' b'] show ?thesis using 3(4) False by fastforce
  qed
qed auto

lemma make_room_frees:
  assumes "length (ps_buckets ps) \<le> MAX_SOURCES"
  shows "length (ps_buckets (make_room clock ps)) < MAX_SOURCES"
    "set (ps_buckets (make_room clock ps)) \<subseteq> set (ps_buckets ps)"
    "distinct (map fst (ps_buckets ps)) \<Longrightarrow> distinct (map fst (ps_buckets (make_room clock ps)))"
    "ps_rate (make_room clock ps) = ps_rate ps"
proof -
  let ?kept = "filter (\<lambda>(ip, b). \<not> bucket_is_full (clock ip) b) (ps_buckets ps)"
  have le: "length ?kept \<le> MAX_SOURCES" using assms by (rule order_trans [OF length_filter_le])
  have d: "distinct (map fst (ps_buckets ps)) \<Longrightarrow> distinct (map fst (filter P (ps_buckets ps)))" for P
    by (rule distinct_map_filter)
  show "length (ps_buckets (make_room clock ps)) < MAX_SOURCES"
  proof (cases "length ?kept < MAX_SOURCES")
    case False
    then have "?kept \<noteq> []" by (auto simp: MAX_SOURCES_def)
    then obtain ip where ip: "oldest_source ?kept = Some ip" "ip \<in> fst ` set ?kept"
      using oldest_source_in by blast
    then obtain b where "(ip, b) \<in> set ?kept" by auto
    then have "length (filter (\<lambda>(k, _). k \<noteq> ip) ?kept) < length ?kept"
      by (intro length_filter_less [of "(ip, b)"]) simp_all
    then show ?thesis using False le ip(1) by (simp add: make_room_def Let_def)
  qed (simp add: make_room_def Let_def)
  show "set (ps_buckets (make_room clock ps)) \<subseteq> set (ps_buckets ps)" "ps_rate (make_room clock ps) = ps_rate ps"
    by (auto simp: make_room_def Let_def split: option.splits)
  show "distinct (map fst (ps_buckets (make_room clock ps)))" if "distinct (map fst (ps_buckets ps))"
    using d [OF that] by (simp add: make_room_def Let_def split: option.splits)
qed

definition per_source_wf :: "per_source_rate \<Rightarrow> bool" where
  "per_source_wf ps \<longleftrightarrow> distinct (map fst (ps_buckets ps)) \<and> length (ps_buckets ps) \<le> MAX_SOURCES"

lemma map_of_update: "map_of (map (\<lambda>(k, v). if k = ip then (k, b) else (k, v)) bs) k =
    (if k = ip then map_option (\<lambda>_. b) (map_of bs ip) else map_of bs k)"
  by (induction bs) auto

lemma map_of_subset:
  assumes "set xs \<subseteq> set ys" "distinct (map fst ys)"
  shows "map_of xs k = map_of ys k \<or> map_of xs k = None"
proof (cases "map_of xs k")
  case (Some v)
  then have "(k, v) \<in> set ys" using assms(1) map_of_SomeD by fastforce
  then show ?thesis using assms(2) Some by simp
qed simp

text \<open>The table a source finds: room made when it is new and the table is full.\<close>

definition source_room :: "(ip_addr \<Rightarrow> nat) \<Rightarrow> ip_addr \<Rightarrow> per_source_rate \<Rightarrow> per_source_rate" where
  "source_room clock ip ps = (if map_of (ps_buckets ps) ip = None \<and> MAX_SOURCES \<le> length (ps_buckets ps)
     then make_room clock ps else ps)"

lemma source_room_facts:
  assumes "per_source_wf ps"
  shows "per_source_wf (source_room clock ip ps)" "ps_rate (source_room clock ip ps) = ps_rate ps"
    "set (ps_buckets (source_room clock ip ps)) \<subseteq> set (ps_buckets ps)"
    "map_of (ps_buckets (source_room clock ip ps)) ip = map_of (ps_buckets ps) ip"
    "map_of (ps_buckets ps) ip = None \<Longrightarrow> length (ps_buckets (source_room clock ip ps)) < MAX_SOURCES"
proof -
  have le: "length (ps_buckets ps) \<le> MAX_SOURCES" and d: "distinct (map fst (ps_buckets ps))"
    using assms by (simp_all add: per_source_wf_def)
  note m = make_room_frees [OF le, of clock]
  show "per_source_wf (source_room clock ip ps)" "ps_rate (source_room clock ip ps) = ps_rate ps"
    "set (ps_buckets (source_room clock ip ps)) \<subseteq> set (ps_buckets ps)"
    "map_of (ps_buckets ps) ip = None \<Longrightarrow> length (ps_buckets (source_room clock ip ps)) < MAX_SOURCES"
    using assms m m(3) [OF d] by (auto simp: per_source_wf_def source_room_def)
  show "map_of (ps_buckets (source_room clock ip ps)) ip = map_of (ps_buckets ps) ip"
    using map_of_subset [OF m(2) d, of ip] by (auto simp: source_room_def)
qed

lemma per_source_take_eq:
  assumes "per_source_wf ps"
  shows "\<exists>bs b0. per_source_try_take clock created now ip ps =
      (fst (bucket_try_take now b0), (source_room clock ip ps)\<lparr>ps_buckets :=
         map (\<lambda>(k, v). if k = ip then (k, snd (bucket_try_take now b0)) else (k, v)) bs\<rparr>) \<and>
    b0 = (case map_of (ps_buckets ps) ip of Some b \<Rightarrow> b | None \<Rightarrow> bucket_new (ps_rate ps) created) \<and>
    bs = (if map_of (ps_buckets ps) ip = None then [(ip, b0)] else []) @ ps_buckets (source_room clock ip ps)"
proof -
  define ps1 where "ps1 = source_room clock ip ps"
  note r = source_room_facts(2,4) [OF assms, of clock ip, folded ps1_def]
  have "per_source_try_take clock created now ip ps =
     (let bs = (if map_of (ps_buckets ps1) ip = None
                then (ip, bucket_new (ps_rate ps1) created) # ps_buckets ps1 else ps_buckets ps1);
          (ok, b) = bucket_try_take now (the (map_of bs ip))
      in (ok, ps1\<lparr>ps_buckets := map (\<lambda>(k, v). if k = ip then (k, b) else (k, v)) bs\<rparr>))"
    unfolding per_source_try_take_def ps1_def source_room_def by (subst Let_def) (rule refl)
  then show ?thesis
    unfolding ps1_def [symmetric] by (cases "map_of (ps_buckets ps) ip") (simp_all add: r split_beta Let_def)
qed

lemma map_update_fst: "map fst (map (\<lambda>(k, v). if k = ip then (k, b) else (k, v)) bs) = map fst bs"
  by (induction bs) auto

lemma per_source_take_wf:
  assumes "per_source_wf ps"
  shows "per_source_wf (snd (per_source_try_take clock created now ip ps))"
    "ps_rate (snd (per_source_try_take clock created now ip ps)) = ps_rate ps"
proof -
  obtain bs b0 where e: "per_source_try_take clock created now ip ps =
      (fst (bucket_try_take now b0), (source_room clock ip ps)\<lparr>ps_buckets :=
         map (\<lambda>(k, v). if k = ip then (k, snd (bucket_try_take now b0)) else (k, v)) bs\<rparr>)"
    "bs = (if map_of (ps_buckets ps) ip = None then [(ip, b0)] else []) @ ps_buckets (source_room clock ip ps)"
    using per_source_take_eq [OF assms, of clock created now ip] by blast
  note r = source_room_facts [OF assms, where clock = clock and ip = ip]
  have "distinct (map fst bs)" "length bs \<le> MAX_SOURCES"
    using r(1,3,5) by (auto simp: e(2) per_source_wf_def map_of_eq_None_iff image_iff split: if_splits)
  then show "per_source_wf (snd (per_source_try_take clock created now ip ps))"
    by (simp add: e(1) per_source_wf_def map_update_fst del: map_map)
  show "ps_rate (snd (per_source_try_take clock created now ip ps)) = ps_rate ps"
    using r(2) by (simp add: e(1))
qed

lemma fresh_bucket_grants: "fst (bucket_try_take now (bucket_new rate created))"
proof -
  let ?b = "bucket_new rate created" and ?n = "max (unat (cr_burst rate)) 1"
  have n: "?n \<le> 2 ^ 53" using unsigned_less [of "cr_burst rate", where 'a = nat] by simp
  let ?m = "f64_mul (as_secs_f64 (now - tb_last ?b)) (tb_refill_per_sec ?b)"
  have "of_nat ?n \<le> f64_add (of_nat ?n) ?m"
    using f64_round_mono [of "of_nat ?n" "of_nat ?n + ?m"] f64_round_of_nat [OF n]
    by (simp only: f64_add_def) (simp add: f64_mul_def f64_round_nonneg)
  then have "min (f64_add (tb_tokens ?b) ?m) (tb_capacity ?b) = of_nat ?n"
    by (simp only: bucket_new_fields min_absorb2)
  moreover have "(1 :: rat) \<le> of_nat ?n"
  proof -
    have "(of_nat 1 :: rat) \<le> of_nat ?n" by (simp only: of_nat_le_iff)
    then show ?thesis by simp
  qed
  ultimately show ?thesis using bucket_try_take_eq [of ?b now "of_nat ?n"] by simp
qed

text \<open>A sequence of checks: per check, the clock of the sweep, of the creation and of the take.\<close>

type_synonym source_check = "(ip_addr \<Rightarrow> nat) \<times> nat \<times> nat \<times> ip_addr"

definition run_checks :: "source_check list \<Rightarrow> per_source_rate \<Rightarrow> per_source_rate" where
  "run_checks checks ps =
     fold (\<lambda>(clock, created, now, ip) p. snd (per_source_try_take clock created now ip p)) checks ps"

lemma run_checks_wf: "per_source_wf ps \<Longrightarrow> per_source_wf (run_checks checks ps)"
  by (induction checks arbitrary: ps) (auto simp: run_checks_def per_source_take_wf)

text \<open>
  The per-source limiter keeps at most 4096 sources, one bucket each, whatever the arrivals; a
  source it does not know is always served; and a check of one source never changes the bucket of
  another, except that a full table may forget it when a new source arrives.
\<close>

theorem per_source_bounded_and_isolated:
  assumes "ps = run_checks checks (per_source_new rate)"
  shows "distinct (map fst (ps_buckets ps)) \<and> length (ps_buckets ps) \<le> 4096 \<and>
    (map_of (ps_buckets ps) ip = None \<longrightarrow> fst (per_source_try_take clock created now ip ps)) \<and>
    (other \<noteq> ip \<longrightarrow>
       (let bs' = ps_buckets (snd (per_source_try_take clock created now ip ps))
        in map_of bs' other = map_of (ps_buckets ps) other \<or>
           map_of bs' other = None \<and> map_of (ps_buckets ps) ip = None \<and> length (ps_buckets ps) = 4096))"
proof -
  have "per_source_wf (per_source_new rate)" by (simp add: per_source_wf_def per_source_new_def)
  then have wf: "per_source_wf ps" unfolding assms by (rule run_checks_wf)
  obtain bs b0 where e: "per_source_try_take clock created now ip ps =
      (fst (bucket_try_take now b0), (source_room clock ip ps)\<lparr>ps_buckets :=
         map (\<lambda>(k, v). if k = ip then (k, snd (bucket_try_take now b0)) else (k, v)) bs\<rparr>)"
    "b0 = (case map_of (ps_buckets ps) ip of Some b \<Rightarrow> b | None \<Rightarrow> bucket_new (ps_rate ps) created)"
    "bs = (if map_of (ps_buckets ps) ip = None then [(ip, b0)] else []) @ ps_buckets (source_room clock ip ps)"
    using per_source_take_eq [OF wf, of clock created now ip] by blast
  have served: "map_of (ps_buckets ps) ip = None \<Longrightarrow> fst (per_source_try_take clock created now ip ps)"
    by (simp add: e(1,2) fresh_bucket_grants)
  have other: "map_of (ps_buckets (snd (per_source_try_take clock created now ip ps))) other =
      map_of (ps_buckets (source_room clock ip ps)) other" if "other \<noteq> ip"
    using that by (simp add: e(1) map_of_update e(3))
  show ?thesis
    using wf served other map_of_subset [OF source_room_facts(3) [OF wf, of clock ip], of other]
    by (auto simp: per_source_wf_def MAX_SOURCES_def source_room_def Let_def)
qed

theorem per_source_bounded_and_isolated_witness:
  "fst (per_source_try_take (\<lambda>_. 0) 0 0 (V4 1) (run_checks [] (per_source_new \<lparr>cr_per_second = 0, cr_burst = 1\<rparr>)))
   \<and> map_of (ps_buckets (snd (per_source_try_take (\<lambda>_. 0) 0 0 (V4 1)
         (run_checks [] (per_source_new \<lparr>cr_per_second = 0, cr_burst = 1\<rparr>))))) (V4 2) = None"
proof -
  have none: "map_of (ps_buckets (run_checks [] (per_source_new \<lparr>cr_per_second = 0, cr_burst = 1\<rparr>))) ip = None" for ip
    by (simp add: run_checks_def per_source_new_def)
  show ?thesis
    using per_source_bounded_and_isolated
      [OF refl, of "[]" "\<lparr>cr_per_second = 0, cr_burst = 1\<rparr>" "V4 1" "\<lambda>_. 0" 0 0 "V4 2"]
    by (auto simp: none Let_def)
qed

end
