(* ===== verification/Accept_Loop.thy ===== *)
theory Accept_Loop
  imports Rate_Limits
begin

text \<open>
  The accept path of the proxy (\<^verbatim>\<open>Server::run_until\<close> and \<^verbatim>\<open>serve_connection\<close> of
  \<^verbatim>\<open>skimasque/src/server.rs\<close>): which incoming connections are admitted, how many tunnels a
  connection carries, and how both drain at shutdown. The QUIC endpoint and the HTTP/3 connection
  are the sources of the events.
\<close>

subsection \<open>Ceilings of the accept loop\<close>

record resource_limits =
  rl_max_connections :: "nat option"
  rl_connection_rate :: "connection_rate option"
  rl_per_source_rate :: "connection_rate option"
  rl_exchange_rate :: "connection_rate option"
  rl_max_tunnels_per_connection :: "nat option"
  rl_tunnel_idle_timeout :: "nat option"

definition resource_limits_default :: resource_limits where
  "resource_limits_default =
     \<lparr>rl_max_connections = Some 1024,
      rl_connection_rate = Some \<lparr>cr_per_second = 50, cr_burst = 200\<rparr>,
      rl_per_source_rate = Some \<lparr>cr_per_second = 20, cr_burst = 60\<rparr>,
      rl_exchange_rate = Some \<lparr>cr_per_second = 10, cr_burst = 30\<rparr>,
      rl_max_tunnels_per_connection = Some 256,
      rl_tunnel_idle_timeout = Some (120 * 10 ^ 9)\<rparr>"

definition resource_limits_unlimited :: resource_limits where
  "resource_limits_unlimited =
     \<lparr>rl_max_connections = None, rl_connection_rate = None, rl_per_source_rate = None,
      rl_exchange_rate = None, rl_max_tunnels_per_connection = None, rl_tunnel_idle_timeout = None\<rparr>"

text \<open>What the accept loop keeps, and the fate of one incoming connection.\<close>

record accept_state =
  as_connections :: nat
  as_per_source :: "per_source_rate option"
  as_rate :: "token_bucket option"

datatype admission = Admitted | Over_Connections | Over_Source_Rate | Over_Rate

definition accept_init :: "resource_limits \<Rightarrow> nat \<Rightarrow> accept_state" where
  "accept_init l now =
     \<lparr>as_connections = 0, as_per_source = map_option per_source_new (rl_per_source_rate l),
      as_rate = map_option (\<lambda>r. bucket_new r now) (rl_connection_rate l)\<rparr>"

definition take_source ::
  "(ip_addr \<Rightarrow> nat) \<Rightarrow> nat \<Rightarrow> ip_addr \<Rightarrow> per_source_rate option \<Rightarrow> bool \<times> per_source_rate option" where
  "take_source clock now ip ps =
     (case ps of None \<Rightarrow> (True, None) | Some p \<Rightarrow> apsnd Some (per_source_try_take clock now now ip p))"

definition take_rate :: "nat \<Rightarrow> token_bucket option \<Rightarrow> bool \<times> token_bucket option" where
  "take_rate now b = (case b of None \<Rightarrow> (True, None) | Some t \<Rightarrow> apsnd Some (bucket_try_take now t))"

definition admit ::
  "resource_limits \<Rightarrow> (ip_addr \<Rightarrow> nat) \<Rightarrow> nat \<Rightarrow> ip_addr \<Rightarrow> accept_state \<Rightarrow> admission \<times> accept_state" where
  "admit l clock now ip s =
     (if (case rl_max_connections l of None \<Rightarrow> False | Some m \<Rightarrow> m \<le> as_connections s)
      then (Over_Connections, s)
      else
        (let (ok1, ps) = take_source clock now ip (as_per_source s); s1 = s\<lparr>as_per_source := ps\<rparr>
         in if \<not> ok1 then (Over_Source_Rate, s1)
            else
              (let (ok2, b) = take_rate now (as_rate s1); s2 = s1\<lparr>as_rate := b\<rparr>
               in if \<not> ok2 then (Over_Rate, s2)
                  else (Admitted, s2\<lparr>as_connections := as_connections s2 + 1\<rparr>))))"

text \<open>A finished connection task is reaped.\<close>

definition reap :: "accept_state \<Rightarrow> accept_state" where
  "reap s = s\<lparr>as_connections := as_connections s - 1\<rparr>"

text \<open>
  The loop of \<^verbatim>\<open>run_until\<close>: it admits or refuses connections and reaps finished ones until the
  endpoint closes or shutdown is requested; then it tells the connections to drain, and closes what
  is left when the grace period is over.
\<close>

datatype server_event = Incoming "ip_addr \<Rightarrow> nat" nat ip_addr | Finished | Endpoint_Closed | Shutdown | Grace_Over

datatype phase = Accepting | Draining | Closed

record server_state =
  sv_phase :: phase
  sv_accept :: accept_state

definition drain_phase :: "accept_state \<Rightarrow> phase" where
  "drain_phase a = (if as_connections a = 0 then Closed else Draining)"

definition server_step :: "resource_limits \<Rightarrow> server_event \<Rightarrow> server_state \<Rightarrow> admission option \<times> server_state" where
  "server_step l e s =
     (case (sv_phase s, e) of
        (Accepting, Incoming clock now ip) \<Rightarrow>
          (case admit l clock now ip (sv_accept s) of (r, a) \<Rightarrow> (Some r, s\<lparr>sv_accept := a\<rparr>))
      | (Accepting, Finished) \<Rightarrow> (None, s\<lparr>sv_accept := reap (sv_accept s)\<rparr>)
      | (Accepting, Endpoint_Closed) \<Rightarrow> (None, s\<lparr>sv_phase := drain_phase (sv_accept s)\<rparr>)
      | (Accepting, Shutdown) \<Rightarrow> (None, s\<lparr>sv_phase := drain_phase (sv_accept s)\<rparr>)
      | (Draining, Finished) \<Rightarrow>
          (let a = reap (sv_accept s)
           in (None, s\<lparr>sv_accept := a, sv_phase := drain_phase a\<rparr>))
      | (Draining, Grace_Over) \<Rightarrow> (None, s\<lparr>sv_phase := Closed, sv_accept := (sv_accept s)\<lparr>as_connections := 0\<rparr>\<rparr>)
      | _ \<Rightarrow> (None, s))"

subsection \<open>One connection\<close>

text \<open>
  The tunnel tasks of a connection: those that serve their request, and those that only answer it
  with a refusal because the connection was full when it arrived. Both count until they end.
\<close>

record conn_state =
  cn_serving :: nat
  cn_refusing :: nat
  cn_draining :: bool
  cn_ended :: bool

datatype conn_event = Request | Serving_Ended | Refusing_Ended | Drain | Stream_Ended

definition conn_init :: conn_state where
  "conn_init = \<lparr>cn_serving = 0, cn_refusing = 0, cn_draining = False, cn_ended = False\<rparr>"

definition over_limit :: "resource_limits \<Rightarrow> conn_state \<Rightarrow> bool" where
  "over_limit l c =
     (case rl_max_tunnels_per_connection l of None \<Rightarrow> False | Some m \<Rightarrow> m \<le> cn_serving c + cn_refusing c)"

definition conn_check_end :: "conn_state \<Rightarrow> conn_state" where
  "conn_check_end c =
     (if cn_draining c \<and> cn_serving c + cn_refusing c = 0 then c\<lparr>cn_ended := True\<rparr> else c)"

definition conn_step :: "resource_limits \<Rightarrow> conn_event \<Rightarrow> conn_state \<Rightarrow> conn_state" where
  "conn_step l e c =
     (if cn_ended c then c
      else conn_check_end
        (case e of
           Request \<Rightarrow>
             if over_limit l c then c\<lparr>cn_refusing := cn_refusing c + 1\<rparr>
             else c\<lparr>cn_serving := cn_serving c + 1\<rparr>
         | Serving_Ended \<Rightarrow> c\<lparr>cn_serving := cn_serving c - 1\<rparr>
         | Refusing_Ended \<Rightarrow> c\<lparr>cn_refusing := cn_refusing c - 1\<rparr>
         | Drain \<Rightarrow> c\<lparr>cn_draining := True\<rparr>
         | Stream_Ended \<Rightarrow> c\<lparr>cn_serving := 0, cn_refusing := 0, cn_ended := True\<rparr>))"

definition conn_run :: "resource_limits \<Rightarrow> conn_event list \<Rightarrow> conn_state" where
  "conn_run l es = fold (conn_step l) es conn_init"

subsection \<open>The ceilings hold\<close>

definition server_run :: "resource_limits \<Rightarrow> nat \<Rightarrow> server_event list \<Rightarrow> server_state" where
  "server_run l t es =
     fold (\<lambda>e s. snd (server_step l e s)) es \<lparr>sv_phase = Accepting, sv_accept = accept_init l t\<rparr>"

lemma admit_connections:
  assumes "admit l clock now ip s = (r, s')" "rl_max_connections l = Some m" "as_connections s \<le> m"
  shows "as_connections s' \<le> m" "r = Over_Connections \<longleftrightarrow> as_connections s = m"
    "r = Over_Source_Rate \<Longrightarrow> as_rate s' = as_rate s"
  using assms by (auto simp: admit_def Let_def split: prod.splits if_splits)

lemma server_step_connections:
  assumes "rl_max_connections l = Some m" "as_connections (sv_accept s) \<le> m"
  shows "as_connections (sv_accept (snd (server_step l e s))) \<le> m"
proof (cases "sv_phase s = Accepting \<and> (\<exists>clock now ip. e = Incoming clock now ip)")
  case True
  then obtain clock now ip where e: "sv_phase s = Accepting" "e = Incoming clock now ip" by blast
  obtain r a where "admit l clock now ip (sv_accept s) = (r, a)" by fastforce
  then show ?thesis using admit_connections(1) [OF _ assms] by (simp add: server_step_def e)
next
  case False
  then show ?thesis
    using assms(2) by (cases "sv_phase s"; cases e) (auto simp: server_step_def reap_def Let_def)
qed

text \<open>
  The accept loop never holds more connections than its ceiling, whatever arrives and ends in
  whatever order; while there is room no connection is turned away for the ceiling; and a connection
  turned away for its own source's rate spends nothing of the rate shared by everyone.
\<close>

theorem connections_bounded:
  assumes "rl_max_connections l = Some m" "s = sv_accept (server_run l t es)"
    "admit l clock now ip s = (r, s')"
  shows "as_connections s \<le> m \<and> as_connections s' \<le> m \<and> (r = Over_Connections \<longleftrightarrow> as_connections s = m) \<and>
    (r = Over_Source_Rate \<longrightarrow> as_rate s' = as_rate s)"
proof -
  have "as_connections (sv_accept (fold (\<lambda>e s. snd (server_step l e s)) es s0)) \<le> m"
    if "as_connections (sv_accept s0) \<le> m" for s0
    using that by (induction es arbitrary: s0) (auto simp: server_step_connections [OF assms(1)])
  from this [of "\<lparr>sv_phase = Accepting, sv_accept = accept_init l t\<rparr>"]
  have "as_connections s \<le> m" by (simp add: assms(2) server_run_def accept_init_def)
  then show ?thesis using admit_connections [OF assms(3,1)] by blast
qed

theorem connections_bounded_witness:
  "\<exists>r s'. admit (resource_limits_unlimited\<lparr>rl_max_connections := Some 1\<rparr>) (\<lambda>_. 0) 0 (V4 1)
       (sv_accept (server_run (resource_limits_unlimited\<lparr>rl_max_connections := Some 1\<rparr>) 0
          [Incoming (\<lambda>_. 0) 0 (V4 2)])) = (r, s') \<and> r = Over_Connections \<and> as_connections s' \<le> 1"
proof -
  let ?l = "resource_limits_unlimited\<lparr>rl_max_connections := Some 1\<rparr>"
  let ?s = "sv_accept (server_run ?l 0 [Incoming (\<lambda>_. 0) 0 (V4 2)])"
  obtain r s' where a: "admit ?l (\<lambda>_. 0) 0 (V4 1) ?s = (r, s')" by fastforce
  have "as_connections ?s = 1" by code_simp
  then show ?thesis using connections_bounded [OF _ refl a, of 1] a by simp
qed

text \<open>
  A connection never serves more tunnels than its ceiling; a request is served whenever the
  connection has room for one more task; and once it drains, the end of its last task ends it.
\<close>

theorem tunnels_bounded:
  assumes "rl_max_tunnels_per_connection l = Some m" "c = conn_run l es" "\<not> cn_ended c"
  shows "cn_serving c \<le> m \<and>
    (cn_serving c + cn_refusing c < m \<longrightarrow> cn_serving (conn_step l Request c) = cn_serving c + 1) \<and>
    (cn_draining c \<longrightarrow> 0 < cn_serving c + cn_refusing c) \<and>
    (cn_draining c \<and> cn_serving c = 1 \<and> cn_refusing c = 0 \<longrightarrow> cn_ended (conn_step l Serving_Ended c))"
proof -
  have step: "cn_serving (conn_step l e c) \<le> m \<and>
      (\<not> cn_ended (conn_step l e c) \<longrightarrow> cn_draining (conn_step l e c) \<longrightarrow>
         0 < cn_serving (conn_step l e c) + cn_refusing (conn_step l e c))"
    if "cn_serving c \<le> m" "\<not> cn_ended c \<longrightarrow> cn_draining c \<longrightarrow> 0 < cn_serving c + cn_refusing c" for e c
    using that assms(1)
    by (cases e) (auto simp: conn_step_def conn_check_end_def over_limit_def)
  have "cn_serving (fold (conn_step l) es c0) \<le> m \<and>
      (\<not> cn_ended (fold (conn_step l) es c0) \<longrightarrow> cn_draining (fold (conn_step l) es c0) \<longrightarrow>
         0 < cn_serving (fold (conn_step l) es c0) + cn_refusing (fold (conn_step l) es c0))"
    if "cn_serving c0 \<le> m" "\<not> cn_ended c0 \<longrightarrow> cn_draining c0 \<longrightarrow> 0 < cn_serving c0 + cn_refusing c0" for c0
    using that
  proof (induction es arbitrary: c0)
    case (Cons e es)
    show ?case using Cons.IH [of "conn_step l e c0"] step [OF Cons.prems, of e] by simp
  qed simp
  from this [of conn_init]
  have inv: "cn_serving c \<le> m" "cn_draining c \<longrightarrow> 0 < cn_serving c + cn_refusing c"
    using assms(2,3) by (simp_all add: conn_run_def conn_init_def)
  then show ?thesis
    using assms(1,3) by (auto simp: conn_step_def conn_check_end_def over_limit_def)
qed

theorem tunnels_bounded_witness:
  "cn_serving (conn_run (resource_limits_unlimited\<lparr>rl_max_tunnels_per_connection := Some 2\<rparr>)
     [Request, Request, Request]) \<le> 2"
proof -
  let ?l = "resource_limits_unlimited\<lparr>rl_max_tunnels_per_connection := Some 2\<rparr>"
  have "\<not> cn_ended (conn_run ?l [Request, Request, Request])" by code_simp
  then show ?thesis using tunnels_bounded [of ?l 2, OF _ refl] by simp
qed

end
