(* ===== verification/Server_Request.thy ===== *)
theory Server_Request
  imports Tunnel_Service Accept_Loop
begin

text \<open>
  What the proxy does with one request (\<^verbatim>\<open>serve_request\<close>, \<^verbatim>\<open>parse_request\<close> and
  \<^verbatim>\<open>serve_exchange\<close> of \<^verbatim>\<open>skimasque/src/server.rs\<close>): it recognises the credential exchange,
  checks the request against RFC 9298 and recovers its target, asks the service, and answers. The
  HTTP library's request and its test for header values, the texts of the errors and the credential
  minter are arguments; a JSON body is kept as its fields.
\<close>

subsection \<open>Requests\<close>

text \<open>\<open>ht_path\<close> is the path with its query, \<open>ht_uri_path\<close> the path alone.\<close>

record http_request =
  ht_method :: string
  ht_protocol :: "string option"
  ht_authority :: "string option"
  ht_path :: "string option"
  ht_uri_path :: string
  ht_header :: "string \<Rightarrow> string option"

definition parse_classic ::
  "(target_error \<Rightarrow> string) \<Rightarrow> http_request \<Rightarrow> socket_addr \<Rightarrow> rejection + tunnel_request" where
  "parse_classic describe req client =
     and_then (ok_or (bad_request ''classic CONNECT needs an authority-form target'') (ht_authority req)) (\<lambda>authority.
     and_then (map_err (\<lambda>e. with_proxy_error ''destination_not_found'' (rejection_new 400 (describe e)))
       (target_parse authority)) (\<lambda>t.
       Inr (request_new ConnectTcp (DestTcp t) client (ht_header req))))"

definition parse_request ::
  "(target_error \<Rightarrow> string) \<Rightarrow> http_request \<Rightarrow> uri_template \<Rightarrow> socket_addr \<Rightarrow> rejection + tunnel_request" where
  "parse_request describe req template client =
     (if ht_method req \<noteq> ''CONNECT'' then Inl (rejection_new 405 ''MASQUE requests use the CONNECT method'')
      else
        (case ht_protocol req of
           None \<Rightarrow> parse_classic describe req client
         | Some token \<Rightarrow>
             and_then (map_err (\<lambda>_. rejection_new 501 ''unsupported :protocol'') (protocol_from_str token)) (\<lambda>protocol.
             if protocol \<noteq> ConnectUdp then
               Inl (rejection_new 501
                 ''this proxy supports extended CONNECT for connect-udp and classic CONNECT for TCP'')
             else
               and_then (ok_or (bad_request ''request has no :path'') (ht_path req)) (\<lambda>path.
               and_then (map_err (\<lambda>e. with_proxy_error ''destination_not_found'' (rejection_new 404 (describe e)))
                 (target_from_path template path)) (\<lambda>t.
                 Inr (request_new protocol (DestUdp t) client (ht_header req)))))))"

subsection \<open>Responses\<close>

record http_response =
  rs_status :: nat
  rs_headers :: "(string \<times> string) list"

text \<open>Extending a header map replaces the fields it names.\<close>

definition headers_extend ::
  "(string \<times> string) list \<Rightarrow> (string \<times> string) list \<Rightarrow> (string \<times> string) list" where
  "headers_extend extra hs = extra @ filter (\<lambda>(n, _). n \<notin> fst ` set extra) hs"

definition success_response :: "(string \<times> string) list \<Rightarrow> http_response" where
  "success_response extra =
     \<lparr>rs_status = 200, rs_headers = headers_extend extra [(''capsule-protocol'', ''?1'')]\<rparr>"

definition tcp_success_response :: "(string \<times> string) list \<Rightarrow> http_response" where
  "tcp_success_response extra = \<lparr>rs_status = 200, rs_headers = headers_extend extra []\<rparr>"

definition structured_token :: "string \<Rightarrow> string" where
  "structured_token name =
     (let cleaned = filter (\<lambda>c. is_ascii_alphanumeric c \<or> c \<in> set ''-_.'') name
      in if cleaned = [] \<or> \<not> is_ascii_alphabetic (hd cleaned) then ''proxy'' else cleaned)"

definition sf_escape :: "string \<Rightarrow> string list" where
  "sf_escape c = (if c = [CHR 0x22] \<or> c = [CHR 0x5C] then [[CHR 0x5C], c] else [c])"

definition structured_string :: "string \<Rightarrow> string" where
  "structured_string detail =
     concat (take 256 (concat (map sf_escape (filter (\<lambda>c. \<not> char_is_control c) (str_chars detail)))))"

definition proxy_status :: "string \<Rightarrow> string \<Rightarrow> string \<Rightarrow> string" where
  "proxy_status proxy_name error detail =
     structured_token proxy_name @ ''; error='' @ error @ ''; details='' @ [CHR 0x22] @
     structured_string detail @ [CHR 0x22]"

definition rejection_response :: "(string \<Rightarrow> bool) \<Rightarrow> rejection \<Rightarrow> string \<Rightarrow> http_response" where
  "rejection_response header_ok r proxy_name =
     (let hs = headers_extend (rj_headers r) []
      in \<lparr>rs_status = rj_status r,
          rs_headers =
            (case rj_proxy_error r of
               None \<Rightarrow> hs
             | Some e \<Rightarrow>
                 (let v = proxy_status proxy_name e (rj_detail r)
                  in if header_ok v then header_insert ''proxy-status'' v hs else hs))\<rparr>)"

definition refuse_tunnel :: "(string \<Rightarrow> bool) \<Rightarrow> string \<Rightarrow> http_response" where
  "refuse_tunnel header_ok proxy_name =
     rejection_response header_ok
       (with_proxy_error ''connection_limit_reached''
         (rejection_new 503 ''this connection is already carrying its maximum number of tunnels'')) proxy_name"

subsection \<open>The credential exchange\<close>

definition CREDENTIAL_EXCHANGE_PATH :: string where
  "CREDENTIAL_EXCHANGE_PATH = ''/.well-known/masque/skimasque-credential''"

record minted_credential =
  mc_credential :: string
  mc_expires_in :: nat

datatype mint_error = Unauthorized string | Mint_Unavailable string | Mint_Refused string string

datatype exchange_body =
    Error_Body string string
  | Credential_Body string string nat

record json_reply =
  jr_status :: nat
  jr_headers :: "(string \<times> string) list"
  jr_body :: exchange_body

definition finish_json :: "nat \<Rightarrow> (string \<times> string) option \<Rightarrow> exchange_body \<Rightarrow> json_reply" where
  "finish_json status extra body =
     (let hs = [(''content-type'', ''application/json'')]
      in \<lparr>jr_status = status,
          jr_headers = (case extra of None \<Rightarrow> hs | Some (n, v) \<Rightarrow> header_insert n v hs), jr_body = body\<rparr>)"

record proxy_config =
  px_template :: uri_template
  px_proxy_name :: string
  px_limits :: resource_limits
  px_exchange_limiter :: "exchange_rate_limiter option"

definition exchange_limiter_for :: "resource_limits \<Rightarrow> exchange_rate_limiter option" where
  "exchange_limiter_for l = map_option exchange_limiter_new (rl_exchange_rate l)"

definition config_for_template :: "uri_template \<Rightarrow> proxy_config" where
  "config_for_template template =
     \<lparr>px_template = template, px_proxy_name = ''skimasque'', px_limits = resource_limits_default,
      px_exchange_limiter = exchange_limiter_for resource_limits_default\<rparr>"

definition config_with_limits :: "resource_limits \<Rightarrow> proxy_config \<Rightarrow> proxy_config" where
  "config_with_limits l cfg = cfg\<lparr>px_exchange_limiter := exchange_limiter_for l, px_limits := l\<rparr>"

definition mint_reply :: "mint_error + minted_credential \<Rightarrow> json_reply" where
  "mint_reply r =
     (case r of
        Inr m \<Rightarrow> finish_json 200 None (Credential_Body (mc_credential m) ''Bearer'' (mc_expires_in m))
      | Inl (Unauthorized detail) \<Rightarrow> finish_json 403 None (Error_Body ''invalid_grant'' detail)
      | Inl (Mint_Refused code message) \<Rightarrow> finish_json 403 None (Error_Body code message)
      | Inl (Mint_Unavailable detail) \<Rightarrow> finish_json 502 None (Error_Body ''temporarily_unavailable'' detail))"

text \<open>
  The minter changes a state of its own; the limiter is shared by all connections. The clock of the
  sweep and the clock of the check are arguments.
\<close>

definition serve_exchange ::
  "(string \<Rightarrow> 'w \<Rightarrow> (mint_error + minted_credential) \<times> 'w) option \<Rightarrow> (ip_addr \<Rightarrow> nat) \<Rightarrow> nat \<Rightarrow>
     http_request \<Rightarrow> ip_addr \<Rightarrow> exchange_rate_limiter option \<Rightarrow> 'w \<Rightarrow>
     json_reply \<times> exchange_rate_limiter option \<times> 'w" where
  "serve_exchange minter clock now req client limiter w =
     (case minter of
        None \<Rightarrow> (finish_json 404 None
            (Error_Body ''exchange_disabled'' ''this gateway does not issue credentials''), limiter, w)
      | Some mint \<Rightarrow>
          (let (ok, limiter1) = (case limiter of
                 None \<Rightarrow> (True, None) | Some l \<Rightarrow> apsnd Some (exchange_check clock now now client l))
           in if \<not> ok then
                (finish_json 429 (Some (''retry-after'', ''1''))
                  (Error_Body ''rate_limited'' ''too many credential exchanges from this source; retry shortly''),
                 limiter1, w)
              else
                (case Option.bind (ht_header req ''authorization'') (strip_prefix ''Bearer '') of
                   None \<Rightarrow>
                     (finish_json 401 (Some (''www-authenticate'', ''Bearer''))
                       (Error_Body ''missing_token'' ''present the identity token as `Authorization: Bearer`''),
                      limiter1, w)
                 | Some token \<Rightarrow> (case mint token w of (r, w1) \<Rightarrow> (mint_reply r, limiter1, w1)))))"

subsection \<open>One request\<close>

text \<open>
  What the handler of a request does, in order. A UDP tunnel claims its datagram route before the
  response is sent. Whether the response could be sent is the stream's business.
\<close>

datatype 'h server_action =
    Register_Route nat
  | Respond http_response
  | Reply_Json json_reply
  | Run_Relay protocol "'h accepted" target
  | Drop_Guards "tunnel_guard list"

definition tunnel_actions ::
  "bool \<Rightarrow> nat \<Rightarrow> 'h accepted \<Rightarrow> target \<Rightarrow> 'h server_action list option" where
  "tunnel_actions sent stream a t =
     (case ac_kind a of
        AcUdp _ _ \<Rightarrow> Some ([Register_Route stream, Respond (success_response (ac_headers a))] @
          (if sent then [Run_Relay ConnectUdp a t] else []) @ [Drop_Guards (ac_guards a)])
      | AcTcp _ _ \<Rightarrow> Some ([Respond (tcp_success_response (ac_headers a))] @
          (if sent then [Run_Relay ConnectTcp a t] else []) @ [Drop_Guards (ac_guards a)])
      | AcIp _ \<Rightarrow> None)"

text \<open>\<open>None\<close> is a panic of the handler's task.\<close>

definition serve_tunnel ::
  "(target_error \<Rightarrow> string) \<Rightarrow> (string \<Rightarrow> bool) \<Rightarrow> ('w, 'h) service \<Rightarrow> proxy_config \<Rightarrow> bool \<Rightarrow> nat \<Rightarrow>
     http_request \<Rightarrow> socket_addr \<Rightarrow> 'w \<Rightarrow> 'h server_action list option \<times> 'w" where
  "serve_tunnel describe header_ok service cfg sent stream req client w =
     (case parse_request describe req (px_template cfg) client of
        Inl r \<Rightarrow> (Some [Respond (rejection_response header_ok r (px_proxy_name cfg))], w)
      | Inr tunnel \<Rightarrow>
          (case request_target tunnel of
             None \<Rightarrow> (None, w)
           | Some t \<Rightarrow>
               (case service tunnel w of
                  (Opened a, w1) \<Rightarrow> (tunnel_actions sent stream a t, w1)
                | (Refused r, w1) \<Rightarrow> (Some [Respond (rejection_response header_ok r (px_proxy_name cfg))], w1)
                | (Panicked, w1) \<Rightarrow> (None, w1))))"

definition is_exchange :: "http_request \<Rightarrow> bool" where
  "is_exchange req \<longleftrightarrow> ht_method req = ''POST'' \<and> ht_uri_path req = CREDENTIAL_EXCHANGE_PATH"

definition serve_request ::
  "(target_error \<Rightarrow> string) \<Rightarrow> (string \<Rightarrow> bool) \<Rightarrow>
     (string \<Rightarrow> 'w \<Rightarrow> (mint_error + minted_credential) \<times> 'w) option \<Rightarrow> (ip_addr \<Rightarrow> nat) \<Rightarrow> nat \<Rightarrow>
     ('w, 'h) service \<Rightarrow> proxy_config \<Rightarrow> bool \<Rightarrow> nat \<Rightarrow> http_request \<Rightarrow> socket_addr \<Rightarrow> 'w \<Rightarrow>
     'h server_action list option \<times> proxy_config \<times> 'w" where
  "serve_request describe header_ok minter clock now service cfg sent stream req client w =
     (if is_exchange req then
        (case serve_exchange minter clock now req (sa_ip client) (px_exchange_limiter cfg) w of
           (reply, limiter, w1) \<Rightarrow> (Some [Reply_Json reply], cfg\<lparr>px_exchange_limiter := limiter\<rparr>, w1))
      else
        (case serve_tunnel describe header_ok service cfg sent stream req client w of
           (actions, w1) \<Rightarrow> (actions, cfg, w1)))"

subsection \<open>Targets reach the service\<close>

text \<open>
  The proxy recovers the target a client names. For every legal proxy authority, a CONNECT
  request with the \<^verbatim>\<open>connect-udp\<close> protocol and the path the default template expands to for a
  target is accepted as a UDP request for exactly that target; and a classic CONNECT request whose
  authority is the printed form of a target is accepted as a TCP request for it. Names, IPv4 and IPv6
  literals alike.
\<close>

theorem client_request_recovered:
  assumes "list_all authority_char a" "a \<noteq> []" "host_ok (tg_host tg)" "tg_port tg \<noteq> 0"
    "ht_method req = ''CONNECT''"
  shows "\<exists>t path. default_template ConnectUdp a = Inr t \<and> target_expand_path tg t = Inr path \<and>
      parse_request describe (req\<lparr>ht_protocol := Some (upgrade_token ConnectUdp), ht_path := Some path\<rparr>) t client
        = Inr (request_new ConnectUdp (DestUdp tg) client (ht_header req)) \<and>
      parse_request describe (req\<lparr>ht_protocol := None, ht_authority := Some (target_display tg)\<rparr>) t client
        = Inr (request_new ConnectTcp (DestTcp tg) client (ht_header req))"
proof -
  obtain t path where "default_template ConnectUdp a = Inr t" "target_expand_path tg t = Inr path"
    "target_from_path t path = Inr tg"
    using target_path_roundtrip [OF _ assms(1-4), of ConnectUdp] by blast
  moreover have "target_parse (target_display tg) = Inr tg"
    using assms(3,4) by (rule target_display_roundtrip)
  ultimately show ?thesis
    using assms(5)
    by (simp add: parse_request_def parse_classic_def protocol_from_str_def upgrade_token_def)
qed

definition sample_http :: http_request where
  "sample_http = \<lparr>ht_method = ''CONNECT'', ht_protocol = None, ht_authority = None, ht_path = None,
     ht_uri_path = ''/'', ht_header = (\<lambda>_. None)\<rparr>"

theorem client_request_recovered_witness:
  "\<exists>t path. default_template ConnectUdp ''proxy.example:4433'' = Inr t \<and>
     target_expand_path \<lparr>tg_host = Ip (V6 0x20010db8000000000000000000000042), tg_port = 443\<rparr> t = Inr path \<and>
     parse_request (\<lambda>_. ''bad'')
       (sample_http\<lparr>ht_protocol := Some (upgrade_token ConnectUdp), ht_path := Some path\<rparr>) t
       (SocketAddr (V4 1) 1) =
     Inr (request_new ConnectUdp
       (DestUdp \<lparr>tg_host = Ip (V6 0x20010db8000000000000000000000042), tg_port = 443\<rparr>)
       (SocketAddr (V4 1) 1) (ht_header sample_http))"
proof -
  have "target_host_parse ''2001:db8::42'' = Inr (Ip (V6 0x20010db8000000000000000000000042))"
    by code_simp
  moreover have "str_valid ''2001:db8::42''" by code_simp
  ultimately have "host_ok (Ip (V6 0x20010db8000000000000000000000042))"
    unfolding host_ok_def by blast
  moreover have "list_all authority_char ''proxy.example:4433''" by code_simp
  moreover have "ht_method sample_http = ''CONNECT''" by (simp add: sample_http_def)
  ultimately show ?thesis
    using client_request_recovered [of "''proxy.example:4433''"
        "\<lparr>tg_host = Ip (V6 0x20010db8000000000000000000000042), tg_port = 443\<rparr>" sample_http
        "\<lambda>_. ''bad''" "SocketAddr (V4 1) 1"]
    by fastforce
qed

lemma parse_request_accepts:
  assumes "parse_request describe req template client = Inr tunnel"
  shows "\<exists>t. request_target tunnel = Some t \<and> rq_authorized tunnel = None \<and> rq_tenant tunnel = None \<and>
    rq_identity tunnel = None \<and> ht_method req = ''CONNECT'' \<and>
    (rq_protocol tunnel = ConnectTcp \<and> ht_protocol req = None \<and>
       (\<exists>authority. ht_authority req = Some authority \<and> target_parse authority = Inr t) \<or>
     rq_protocol tunnel = ConnectUdp \<and> ht_protocol req = Some ''connect-udp'' \<and>
       (\<exists>path. ht_path req = Some path \<and> target_from_path template path = Inr t))"
  using assms
  by (auto simp: parse_request_def parse_classic_def protocol_from_str_def request_new_def
      request_target_def as_target_def and_then_Inr_iff ok_or_def map_err_def
      split: if_splits option.splits sum.splits)

subsection \<open>The order of a tunnel\<close>

text \<open>
  C14. When the handler of a request relays a tunnel, everything it did for it is fixed: the request
  was a well-formed CONNECT for the relayed target that carried nothing forged by the client in the
  fields the layers trust, the service opened exactly this tunnel, a UDP tunnel's datagram route was
  claimed before the 200 response announced it, the response announces capsules for UDP and does not
  for TCP, the relay starts only after the response was sent, and the tunnel's quota permits are
  dropped last.
\<close>

theorem relay_follows_response:
  assumes "serve_tunnel describe header_ok service cfg sent stream req client w = (Some acts, w1)"
    "Run_Relay p a t \<in> set acts"
  shows "\<exists>tunnel. parse_request describe req (px_template cfg) client = Inr tunnel \<and> ht_method req = ''CONNECT'' \<and>
    request_target tunnel = Some t \<and> rq_authorized tunnel = None \<and> rq_tenant tunnel = None \<and>
    rq_identity tunnel = None \<and> service tunnel w = (Opened a, w1) \<and> sent \<and>
    (p = ConnectUdp \<and> acts = [Register_Route stream,
        Respond \<lparr>rs_status = 200, rs_headers = headers_extend (ac_headers a) [(''capsule-protocol'', ''?1'')]\<rparr>,
        Run_Relay p a t, Drop_Guards (ac_guards a)] \<or>
     p = ConnectTcp \<and> acts = [Respond \<lparr>rs_status = 200, rs_headers = headers_extend (ac_headers a) []\<rparr>,
        Run_Relay p a t, Drop_Guards (ac_guards a)])"
proof (cases "parse_request describe req (px_template cfg) client")
  case (Inl r)
  then show ?thesis using assms by (auto simp: serve_tunnel_def)
next
  case (Inr tunnel)
  obtain t0 where t: "request_target tunnel = Some t0" using parse_request_accepts [OF Inr] by blast
  obtain r w2 where r: "service tunnel w = (r, w2)" by fastforce
  have "r = Opened a \<and> w2 = w1 \<and> t0 = t"
    using assms
    by (cases r) (auto simp: serve_tunnel_def Inr t r tunnel_actions_def split: accepted_kind.splits if_splits)
  then show ?thesis
    using assms parse_request_accepts [OF Inr]
    by (auto simp: serve_tunnel_def Inr t r tunnel_actions_def success_response_def tcp_success_response_def
        split: accepted_kind.splits if_splits)
qed

definition sample_service :: "(unit, nat) service" where
  "sample_service rq w = (Opened (accepted_tcp 1 (SocketAddr (V4 0xC6336401) 443)), w)"

lemma sample_target_parse: "target_parse ''a:443'' = Inr \<lparr>tg_host = Name ''a'', tg_port = 443\<rparr>"
proof -
  have "target_split ''a:443'' = Inr (''a'', ''443'')" by code_simp
  moreover have "target_host_parse ''a'' = Inr (Name ''a'')" by code_simp
  moreover have "parse_u16 ''443'' = Some 443"
    by (simp add: parse_u16_def parse_unsigned_def is_ascii_digit_def digits_val_def digit_val_def)
  ultimately show ?thesis by (simp add: target_parse_def target_new_def)
qed

theorem relay_follows_response_witness:
  "\<exists>tunnel. parse_request (\<lambda>_. ''bad'') (sample_http\<lparr>ht_authority := Some ''a:443''\<rparr>)
       (px_template (config_for_template sample_template)) (SocketAddr (V4 1) 1) = Inr tunnel \<and>
     rq_tenant tunnel = None \<and>
     sample_service tunnel () = (Opened (accepted_tcp 1 (SocketAddr (V4 0xC6336401) 443)), ())"
proof -
  let ?a = "accepted_tcp (1 :: nat) (SocketAddr (V4 0xC6336401) 443)"
  let ?t = "\<lparr>tg_host = Name ''a'', tg_port = 443\<rparr>"
  have "serve_tunnel (\<lambda>_. ''bad'') (\<lambda>_. True) sample_service (config_for_template sample_template) True 0
     (sample_http\<lparr>ht_authority := Some ''a:443''\<rparr>) (SocketAddr (V4 1) 1) () =
     (Some [Respond (tcp_success_response []), Run_Relay ConnectTcp ?a ?t, Drop_Guards []], ())"
    by (simp add: serve_tunnel_def parse_request_def parse_classic_def sample_http_def sample_target_parse
        request_new_def request_target_def as_target_def sample_service_def tunnel_actions_def
        accepted_tcp_def accepted_of_def)
  from relay_follows_response [OF this, of ConnectTcp ?a ?t] show ?thesis by auto
qed

text \<open>
  With the dispatching service behind it the handler never panics: the tunnel a request opens
  always has a target to report and is a UDP or TCP tunnel, so neither the \<^verbatim>\<open>expect\<close> nor the
  \<^verbatim>\<open>unreachable!\<close> of the handler can be reached, and every request is answered.
\<close>

theorem dispatched_request_answered:
  "\<exists>acts. fst (serve_tunnel describe header_ok (dispatch_call contains net d) cfg sent stream req client w) = Some acts \<and>
     (\<exists>r. Respond r \<in> set acts)"
proof (cases "parse_request describe req (px_template cfg) client")
  case (Inl r)
  then show ?thesis by (simp add: serve_tunnel_def)
next
  case (Inr tunnel)
  obtain t where t: "request_target tunnel = Some t" using parse_request_accepts [OF Inr] by blast
  obtain r w1 where r: "dispatch_call contains net d tunnel w = (r, w1)" by fastforce
  show ?thesis
  proof (cases r)
    case (Opened a)
    obtain addr where "accepted_peer a = Some addr" using dispatch_choice [OF r [unfolded Opened]] by metis
    then show ?thesis
      by (auto simp: serve_tunnel_def Inr t r Opened tunnel_actions_def accepted_peer_def
          split: accepted_kind.splits)
  next
    case (Refused e)
    then show ?thesis by (simp add: serve_tunnel_def Inr t r)
  next
    case Panicked
    then show ?thesis using r dispatch_never_panics by metis
  qed
qed

subsection \<open>Reading a refusal\<close>

text \<open>How a recipient reads the rest of a quoted string: escapes are resolved up to the closing quote.\<close>

fun sf_unquote :: "string \<Rightarrow> (string \<times> string) option" where
  "sf_unquote [] = None"
| "sf_unquote (c # cs) =
     (if c = CHR 0x22 then Some ([], cs)
      else if c = CHR 0x5C then
        (case cs of [] \<Rightarrow> None | d # ds \<Rightarrow> map_option (apfst ((#) d)) (sf_unquote ds))
      else map_option (apfst ((#) c)) (sf_unquote cs))"

lemma sf_unquote_escaped:
  "sf_unquote (concat (concat (map sf_escape (map (\<lambda>c. [c]) s))) @ CHR 0x22 # rest) = Some (s, rest)"
  by (induction s) (auto simp: sf_escape_def)

text \<open>
  The reason of a refusal reaches the client: an ASCII detail whose escaped form fits in 256
  characters is read back from the \<^verbatim>\<open>Proxy-Status\<close> field without its control characters, and what
  follows the field's closing quote is left alone, whatever quotes and backslashes the detail holds.
\<close>

theorem refusal_detail_readable:
  assumes "is_ascii_str detail" "length (concat (map sf_escape (str_chars detail))) \<le> 256"
  shows "sf_unquote (structured_string detail @ [CHR 0x22] @ rest) =
    Some (filter (\<lambda>c. \<not> char_is_control [c]) detail, rest)"
proof -
  let ?kept = "filter (\<lambda>c. \<not> char_is_control [c]) detail"
  have chars: "str_chars detail = map (\<lambda>c. [c]) detail" by (rule str_chars_ascii [OF assms(1)])
  have kept: "filter (\<lambda>c. \<not> char_is_control c) (str_chars detail) = map (\<lambda>c. [c]) ?kept"
    by (simp add: chars filter_map comp_def)
  have "length (concat (map sf_escape (map (\<lambda>c. [c]) (filter P xs)))) \<le>
      length (concat (map sf_escape (map (\<lambda>c. [c]) xs)))" for P and xs :: string
    by (induction xs) auto
  then have "length (concat (map sf_escape (map (\<lambda>c. [c]) ?kept))) \<le> 256"
    using assms(2) unfolding chars by (rule order_trans)
  then have "take 256 (concat (map sf_escape (map (\<lambda>c. [c]) ?kept))) = concat (map sf_escape (map (\<lambda>c. [c]) ?kept))"
    by (rule take_all)
  then show ?thesis
    using sf_unquote_escaped [of ?kept rest] by (simp only: structured_string_def kept append_Cons append_Nil)
qed

theorem refusal_detail_readable_witness:
  "sf_unquote (structured_string (CHR 0x0A # CHR 0x22 # ''hi'') @ [CHR 0x22] @ ''x'') =
     Some (filter (\<lambda>c. \<not> char_is_control [c]) (CHR 0x0A # CHR 0x22 # ''hi''), ''x'')"
proof (rule refusal_detail_readable)
  show "is_ascii_str (CHR 0x0A # CHR 0x22 # ''hi'')" by code_simp
  show "length (concat (map sf_escape (str_chars (CHR 0x0A # CHR 0x22 # ''hi'')))) \<le> 256" by code_simp
qed

text \<open>
  A longer detail is cut after the escapes were inserted, so the cut can fall between a backslash and
  the quote it escapes. The closing quote is then read as part of the string, which never ends.
\<close>

lemma cut_escape_swallows_quote:
  "sf_unquote (structured_string (replicate 255 CHR ''x'' @ [CHR 0x22]) @ [CHR 0x22]) = None"
proof -
  have "structured_string (replicate 255 CHR ''x'' @ [CHR 0x22]) = replicate 255 CHR ''x'' @ [CHR 0x5C]"
    by code_simp
  moreover have "sf_unquote (replicate n CHR ''x'' @ [CHR 0x5C, CHR 0x22]) = None" for n
    by (induction n) auto
  ultimately show ?thesis by simp
qed

end
