(* ===== verification/Datagram_Router.thy ===== *)
theory Datagram_Router
  imports Datagram
begin

text \<open>
  The datagram router of a connection (\<^verbatim>\<open>skimasque/src/dgram.rs\<close>): it fans the QUIC datagrams of
  a connection out to bounded queues, one per tunnel, buffers the datagrams of streams that have not
  registered yet, and frames what the tunnels send. The QUIC connection's answer to a send is an
  argument. Each stream's part of the table refines a small three-state machine.
\<close>

subsection \<open>The routing table\<close>

definition H3_DATAGRAM_ERROR :: u32 where
  "H3_DATAGRAM_ERROR = 0x33"

definition MAX_PENDING_PER_STREAM :: nat where
  "MAX_PENDING_PER_STREAM = 16"

definition MAX_PENDING_STREAMS :: nat where
  "MAX_PENDING_STREAMS = 64"

definition INBOUND_CAPACITY :: nat where
  "INBOUND_CAPACITY = 256"

text \<open>
  \<open>rt_active\<close> maps a registered stream to what its channel holds; \<open>rt_pending\<close> is the hash map of
  the buffered streams.
\<close>

record routes =
  rt_active :: "u64 \<Rightarrow> bytes list option"
  rt_pending :: "(u64 \<times> bytes list) list"

definition routes_default :: routes where
  "routes_default = \<lparr>rt_active = Map.empty, rt_pending = []\<rparr>"

text \<open>\<^verbatim>\<open>try_send\<close> into a bounded channel: a full channel refuses.\<close>

definition try_send :: "bytes \<Rightarrow> bytes list \<Rightarrow> bytes list option" where
  "try_send payload q = (if length q < INBOUND_CAPACITY then Some (q @ [payload]) else None)"

definition deliver :: "quarter_stream_id \<Rightarrow> bytes \<Rightarrow> routes \<Rightarrow> routes" where
  "deliver stream payload rt =
     (let sid = stream_id stream
      in case rt_active rt sid of
           Some q \<Rightarrow>
             (case try_send payload q of
                Some q1 \<Rightarrow> rt\<lparr>rt_active := (rt_active rt)(sid \<mapsto> q1)\<rparr>
              | None \<Rightarrow> rt)
         | None \<Rightarrow>
             if MAX_PENDING_STREAMS \<le> length (rt_pending rt) \<and> map_of (rt_pending rt) sid = None then rt
             else
               (let pending = (if map_of (rt_pending rt) sid = None then (sid, []) # rt_pending rt
                               else rt_pending rt);
                    queue = the (map_of pending sid);
                    queue1 = (if length queue = MAX_PENDING_PER_STREAM then tl queue else queue)
                in rt\<lparr>rt_pending := map (\<lambda>(k, v). if k = sid then (k, queue1 @ [payload]) else (k, v)) pending\<rparr>))"

text \<open>The loop that moves the buffered datagrams into the new channel stops at the first refusal.\<close>

fun send_buffered :: "bytes list \<Rightarrow> bytes list \<Rightarrow> bytes list" where
  "send_buffered [] q = q"
| "send_buffered (p # ps) q = (case try_send p q of None \<Rightarrow> q | Some q1 \<Rightarrow> send_buffered ps q1)"

definition register :: "u64 \<Rightarrow> routes \<Rightarrow> routes" where
  "register sid rt =
     (case map_of (rt_pending rt) sid of
        Some buffered \<Rightarrow>
          \<lparr>rt_active = (rt_active rt)(sid \<mapsto> send_buffered buffered []),
           rt_pending = filter (\<lambda>(k, _). k \<noteq> sid) (rt_pending rt)\<rparr>
      | None \<Rightarrow> rt\<lparr>rt_active := (rt_active rt)(sid \<mapsto> [])\<rparr>)"

definition unregister :: "u64 \<Rightarrow> routes \<Rightarrow> routes" where
  "unregister sid rt = rt\<lparr>rt_active := (rt_active rt)(sid := None)\<rparr>"

text \<open>The tunnel takes the oldest datagram of its channel.\<close>

definition recv :: "u64 \<Rightarrow> routes \<Rightarrow> bytes option \<times> routes" where
  "recv sid rt =
     (case rt_active rt sid of
        Some (p # q) \<Rightarrow> (Some p, rt\<lparr>rt_active := (rt_active rt)(sid \<mapsto> q)\<rparr>)
      | _ \<Rightarrow> (None, rt))"

text \<open>One turn of the reader: \<open>Inl\<close> closes the connection with the error code.\<close>

definition read_turn :: "bytes \<Rightarrow> routes \<Rightarrow> u32 + routes" where
  "read_turn raw rt =
     (case decode_http3_datagram raw of
        Inr (stream, payload) \<Rightarrow> Inr (deliver stream payload rt)
      | Inl _ \<Rightarrow> Inl H3_DATAGRAM_ERROR)"

subsection \<open>Sending\<close>

datatype quic_send_error = UnsupportedByPeer | Disabled | QuicTooLarge | ConnectionLost

datatype send_error = Unsupported | TooLarge nat nat | ConnectionClosed

text \<open>The outer option is a panic: a stream id that is no request stream, or no encoding.\<close>

definition router_send ::
  "(bytes \<Rightarrow> quic_send_error + unit) \<Rightarrow> nat option \<Rightarrow> u64 \<Rightarrow> bytes \<Rightarrow> (send_error + unit) option" where
  "router_send send_datagram max_size sid payload =
     (case from_stream_id sid of
        Inl _ \<Rightarrow> None
      | Inr stream \<Rightarrow>
          (case encode_http3_datagram stream payload of
             None \<Rightarrow> None
           | Some wire \<Rightarrow>
               Some (map_err (\<lambda>e. case e of
                   UnsupportedByPeer \<Rightarrow> Unsupported
                 | Disabled \<Rightarrow> Unsupported
                 | QuicTooLarge \<Rightarrow>
                     TooLarge (length payload) (case max_size of None \<Rightarrow> 0 | Some n \<Rightarrow> n)
                 | ConnectionLost \<Rightarrow> ConnectionClosed) (send_datagram wire))))"

definition max_payload_size :: "nat option \<Rightarrow> u64 \<Rightarrow> nat option" where
  "max_payload_size max_size sid =
     (case from_stream_id sid of
        Inl _ \<Rightarrow> None
      | Inr stream \<Rightarrow>
          (let overhead = varint_encoded_len (quarter_get stream)
           in Option.bind max_size (\<lambda>n. if n < overhead then None else Some (n - overhead))))"

subsection \<open>One stream's view\<close>

text \<open>
  To one stream the router is a machine with three kinds of state: nothing known, early datagrams
  buffered (the latest sixteen), or a registered queue of at most 256.
\<close>

datatype stream_view = Unknown | Buffered "bytes list" | Registered "bytes list"

definition view :: "routes \<Rightarrow> u64 \<Rightarrow> stream_view" where
  "view rt sid =
     (case rt_active rt sid of
        Some q \<Rightarrow> Registered q
      | None \<Rightarrow> (case map_of (rt_pending rt) sid of Some q \<Rightarrow> Buffered q | None \<Rightarrow> Unknown))"

definition view_deliver :: "bool \<Rightarrow> bytes \<Rightarrow> stream_view \<Rightarrow> stream_view" where
  "view_deliver room payload v =
     (case v of
        Registered q \<Rightarrow> Registered (take 256 (q @ [payload]))
      | Buffered q \<Rightarrow> Buffered (drop (length q - 15) (q @ [payload]))
      | Unknown \<Rightarrow> if room then Buffered [payload] else Unknown)"

definition view_register :: "stream_view \<Rightarrow> stream_view" where
  "view_register v = (case v of Buffered q \<Rightarrow> Registered q | _ \<Rightarrow> Registered [])"

definition view_unregister :: "stream_view \<Rightarrow> stream_view" where
  "view_unregister v = (case v of Registered q \<Rightarrow> Unknown | _ \<Rightarrow> v)"

definition view_recv :: "stream_view \<Rightarrow> stream_view" where
  "view_recv v = (case v of Registered (p # q) \<Rightarrow> Registered q | _ \<Rightarrow> v)"

definition has_room :: "routes \<Rightarrow> bool" where
  "has_room rt \<longleftrightarrow> length (rt_pending rt) < 64"

definition routes_wf :: "routes \<Rightarrow> bool" where
  "routes_wf rt \<longleftrightarrow> distinct (map fst (rt_pending rt)) \<and> length (rt_pending rt) \<le> 64 \<and>
     (\<forall>(sid, q) \<in> set (rt_pending rt). length q \<le> 16 \<and> rt_active rt sid = None) \<and>
     (\<forall>sid q. rt_active rt sid = Some q \<longrightarrow> length q \<le> 256)"

lemmas router_defs = MAX_PENDING_PER_STREAM_def MAX_PENDING_STREAMS_def INBOUND_CAPACITY_def

lemma routes_wf_default [simp]: "routes_wf routes_default"
  by (simp add: routes_wf_def routes_default_def)

lemma send_buffered_all: "length q + length ps \<le> 256 \<Longrightarrow> send_buffered ps q = q @ ps"
  by (induction ps arbitrary: q) (simp_all add: try_send_def router_defs)

lemma map_of_map_at:
  "map_of (map (\<lambda>(k, v). if k = s then (k, f v) else (k, v)) xs) k =
     (if k = s then map_option f (map_of xs k) else map_of xs k)"
  by (induction xs) auto

lemma map_at_fst: "map fst (map (\<lambda>(k, v). if k = s then (k, f v) else (k, v)) xs) = map fst xs"
  by (induction xs) auto

lemma map_of_filter_key: "map_of (filter (\<lambda>(k, _). k \<noteq> s) xs) k = (if k = s then None else map_of xs k)"
  by (induction xs) auto

lemma pending_bounded:
  assumes "routes_wf rt" "map_of (rt_pending rt) sid = Some q"
  shows "length q \<le> 16" "rt_active rt sid = None"
  using assms map_of_SomeD [OF assms(2)] by (auto simp: routes_wf_def)

text \<open>Delivering, in the three cases of the stream.\<close>

lemma deliver_cases:
  "deliver stream p rt =
     (let sid = stream_id stream
      in case view rt sid of
           Registered q \<Rightarrow> (if length q < 256 then rt\<lparr>rt_active := (rt_active rt)(sid \<mapsto> q @ [p])\<rparr> else rt)
         | Buffered q \<Rightarrow> rt\<lparr>rt_pending := map (\<lambda>(k, v). if k = sid
              then (k, (if length q = 16 then tl q else q) @ [p]) else (k, v)) (rt_pending rt)\<rparr>
         | Unknown \<Rightarrow> (if has_room rt then rt\<lparr>rt_pending := (sid, [p]) # rt_pending rt\<rparr> else rt))"
proof -
  have same: "map_of xs s = None \<Longrightarrow> map (\<lambda>(k, v). if k = s then (k, y) else (k, v)) xs = xs"
    for xs :: "(u64 \<times> bytes list) list" and s y
    by (induction xs) (auto split: if_splits)
  show ?thesis
    by (cases "rt_active rt (stream_id stream)"; cases "map_of (rt_pending rt) (stream_id stream)")
       (simp_all add: deliver_def view_def try_send_def router_defs has_room_def Let_def same not_less,
        simp_all add: split_beta)
qed

lemma deliver_view:
  assumes "routes_wf rt"
  shows "view (deliver stream p rt) s =
    (if s = stream_id stream then view_deliver (has_room rt) p (view rt s) else view rt s)"
proof (cases "view rt (stream_id stream)")
  case Unknown
  then show ?thesis by (auto simp: deliver_cases view_def view_deliver_def split: option.splits)
next
  case (Buffered q)
  then have q: "rt_active rt (stream_id stream) = None" "map_of (rt_pending rt) (stream_id stream) = Some q"
    by (auto simp: view_def split: option.splits)
  have "length q \<le> 16" using pending_bounded [OF assms q(2)] by simp
  then have "(if length q = 16 then tl q else q) @ [p] = drop (length q - 15) (q @ [p])"
    by (cases q) auto
  then show ?thesis
    using Buffered q
    by (simp add: deliver_cases view_def [of _ s] map_of_map_at [where f = "\<lambda>_. _"] view_deliver_def
        split: option.split)
next
  case (Registered q)
  then have q: "rt_active rt (stream_id stream) = Some q" by (auto simp: view_def split: option.splits)
  have "length q \<le> 256" using assms q by (auto simp: routes_wf_def)
  then show ?thesis using Registered q by (auto simp: deliver_cases view_def view_deliver_def split: option.splits)
qed

lemma deliver_wf:
  assumes "routes_wf rt"
  shows "routes_wf (deliver stream p rt)"
proof (cases "view rt (stream_id stream)")
  case Unknown
  then show ?thesis
    using assms
    by (auto simp: deliver_cases routes_wf_def has_room_def view_def map_of_eq_None_iff image_iff
        split: option.splits)
next
  case (Buffered q)
  then have q: "rt_active rt (stream_id stream) = None" "map_of (rt_pending rt) (stream_id stream) = Some q"
    by (auto simp: view_def split: option.splits)
  have "length q \<le> 16" using pending_bounded [OF assms q(2)] by simp
  then show ?thesis
    using assms Buffered q(1)
    by (auto simp: deliver_cases routes_wf_def map_at_fst [where f = "\<lambda>_. _"] simp del: map_map split: if_splits)
next
  case (Registered q)
  then have "rt_active rt (stream_id stream) = Some q" by (auto simp: view_def split: option.splits)
  then show ?thesis using assms Registered by (fastforce simp: deliver_cases routes_wf_def)
qed

lemma register_view:
  assumes "routes_wf rt"
  shows "view (register sid rt) s = (if s = sid then view_register (view rt s) else view rt s)"
proof (cases "map_of (rt_pending rt) sid")
  case None
  then show ?thesis by (auto simp: register_def view_def view_register_def split: option.splits)
next
  case (Some q)
  note b = pending_bounded [OF assms Some]
  then have "send_buffered q [] = q" using send_buffered_all [of "[]" q] by simp
  then show ?thesis
    using Some b by (auto simp: register_def view_def view_register_def map_of_filter_key split: option.splits)
qed

lemma register_wf:
  assumes "routes_wf rt"
  shows "routes_wf (register sid rt)"
proof (cases "map_of (rt_pending rt) sid")
  case None
  then have "register sid rt = rt\<lparr>rt_active := (rt_active rt)(sid \<mapsto> [])\<rparr>" by (simp add: register_def)
  moreover have "sid \<notin> fst ` set (rt_pending rt)" using None by (simp add: map_of_eq_None_iff)
  moreover have "rt_active rt a = None \<and> a \<noteq> sid \<and> length b \<le> 16" if "(a, b) \<in> set (rt_pending rt)" for a b
    using assms that \<open>sid \<notin> fst ` set (rt_pending rt)\<close> by (force simp: routes_wf_def)
  ultimately show ?thesis using assms by (auto simp: routes_wf_def)
next
  case (Some q)
  note b = pending_bounded [OF assms Some]
  then have "send_buffered q [] = q" using send_buffered_all [of "[]" q] by simp
  then show ?thesis
    using Some b assms
    by (auto simp: register_def routes_wf_def distinct_map_filter intro: order_trans [OF length_filter_le])
qed

lemma recv_unregister_view:
  assumes "routes_wf rt"
  shows "view (unregister sid rt) s = (if s = sid then view_unregister (view rt s) else view rt s)"
    "view (snd (recv sid rt)) s = (if s = sid then view_recv (view rt s) else view rt s)"
proof -
  show "view (unregister sid rt) s = (if s = sid then view_unregister (view rt s) else view rt s)"
    using assms pending_bounded(2) [OF assms, of sid]
    by (auto simp: unregister_def view_def view_unregister_def split: option.splits)
  show "view (snd (recv sid rt)) s = (if s = sid then view_recv (view rt s) else view rt s)"
    by (auto simp: recv_def view_def view_recv_def split: option.splits list.splits)
qed

lemma recv_unregister_wf:
  assumes "routes_wf rt"
  shows "routes_wf (unregister sid rt)" "routes_wf (snd (recv sid rt))"
  using assms by (fastforce simp: unregister_def recv_def routes_wf_def split: option.splits list.splits)+

text \<open>
  C32. To each stream the shared table behaves as the small machine: every operation on a stream does
  to that stream's view what the machine says and nothing to any other stream, and keeps the table
  within its bounds: at most 64 buffered streams of at most 16 datagrams, at most 256 datagrams per
  registered tunnel, and no stream both buffered and registered.
\<close>

theorem router_refines_stream_view:
  assumes "routes_wf rt"
  shows "view (deliver stream p rt) s =
      (if s = stream_id stream then view_deliver (has_room rt) p (view rt s) else view rt s) \<and>
    view (register sid rt) s = (if s = sid then view_register (view rt s) else view rt s) \<and>
    view (unregister sid rt) s = (if s = sid then view_unregister (view rt s) else view rt s) \<and>
    view (snd (recv sid rt)) s = (if s = sid then view_recv (view rt s) else view rt s) \<and>
    routes_wf (deliver stream p rt) \<and> routes_wf (register sid rt) \<and> routes_wf (unregister sid rt) \<and>
    routes_wf (snd (recv sid rt))"
  using deliver_view [OF assms] register_view [OF assms] recv_unregister_view [OF assms]
    deliver_wf [OF assms] register_wf [OF assms] recv_unregister_wf [OF assms]
  by blast

theorem router_refines_stream_view_witness:
  "view (deliver (QuarterStreamId 1) [7] routes_default) 4 = view_deliver True [7] Unknown"
proof -
  have "view routes_default 4 = Unknown" "has_room routes_default" "stream_id (QuarterStreamId 1) = 4"
    by (simp_all add: view_def routes_default_def has_room_def stream_id_def)
  then show ?thesis
    using router_refines_stream_view [OF routes_wf_default, of "QuarterStreamId 1" "[7]" 4] by simp
qed

subsection \<open>Early datagrams\<close>

datatype router_event =
    Deliver quarter_stream_id bytes
  | Register u64
  | Unregister u64
  | Recv u64

definition router_step :: "router_event \<Rightarrow> routes \<Rightarrow> routes" where
  "router_step e rt =
     (case e of
        Deliver stream p \<Rightarrow> deliver stream p rt
      | Register sid \<Rightarrow> register sid rt
      | Unregister sid \<Rightarrow> unregister sid rt
      | Recv sid \<Rightarrow> snd (recv sid rt))"

definition router_run :: "router_event list \<Rightarrow> routes \<Rightarrow> routes" where
  "router_run es rt = fold router_step es rt"

text \<open>The datagrams an event sequence brings for a stream, and whether it only brings datagrams.\<close>

definition event_stream :: "router_event \<Rightarrow> u64" where
  "event_stream e = (case e of Deliver stream _ \<Rightarrow> stream_id stream | Register s \<Rightarrow> s | Unregister s \<Rightarrow> s | Recv s \<Rightarrow> s)"

fun arrivals :: "u64 \<Rightarrow> router_event list \<Rightarrow> bytes list" where
  "arrivals sid [] = []"
| "arrivals sid (Deliver stream p # es) = (if stream_id stream = sid then p # arrivals sid es else arrivals sid es)"
| "arrivals sid (e # es) = arrivals sid es"

definition only_arrives :: "u64 \<Rightarrow> router_event list \<Rightarrow> bool" where
  "only_arrives sid es \<longleftrightarrow> list_all (\<lambda>e. event_stream e = sid \<longrightarrow> (\<exists>stream p. e = Deliver stream p)) es"

definition latest :: "nat \<Rightarrow> 'a list \<Rightarrow> 'a list" where
  "latest n xs = drop (length xs - n) xs"

lemma router_step_wf: "routes_wf rt \<Longrightarrow> routes_wf (router_step e rt)"
  using recv_unregister_wf deliver_wf register_wf by (auto simp: router_step_def split: router_event.split)

lemma router_step_other:
  assumes "routes_wf rt" "event_stream e \<noteq> s"
  shows "view (router_step e rt) s = view rt s"
  using assms deliver_view [OF assms(1)] register_view [OF assms(1)] recv_unregister_view [OF assms(1)]
  by (cases e) (auto simp: router_step_def event_stream_def)

lemma latest_snoc: "drop (length (latest 16 xs) - 15) (latest 16 xs) @ [y] = latest 16 (xs @ [y])"
proof -
  have "length xs - (length xs - 16 + 15) + (length xs - 16) = length xs - 15" by arith
  then show ?thesis by (simp add: latest_def)
qed

lemma buffered_run:
  assumes "routes_wf rt" "view rt sid = Buffered (latest 16 ps)" "only_arrives sid es"
  shows "view (router_run es rt) sid = Buffered (latest 16 (ps @ arrivals sid es)) \<and> routes_wf (router_run es rt)"
  using assms
proof (induction es arbitrary: rt ps)
  case (Cons e es)
  note wf = router_step_wf [OF Cons.prems(1), of e]
  have rest: "only_arrives sid es" using Cons.prems(3) by (simp add: only_arrives_def)
  show ?case
  proof (cases "event_stream e = sid")
    case True
    then obtain stream p where e: "e = Deliver stream p" "stream_id stream = sid"
      using Cons.prems(3) by (auto simp: only_arrives_def event_stream_def)
    have "view (router_step e rt) sid = Buffered (latest 16 (ps @ [p]))"
      using deliver_view [OF Cons.prems(1), of stream p sid] Cons.prems(2)
      by (simp add: e router_step_def view_deliver_def latest_snoc)
    from Cons.IH [OF wf this rest] show ?thesis by (simp add: router_run_def e)
  next
    case False
    then have "view (router_step e rt) sid = Buffered (latest 16 ps)"
      using router_step_other [OF Cons.prems(1) False] Cons.prems(2) by simp
    moreover have "arrivals sid (e # es) = arrivals sid es" using False by (cases e) (auto simp: event_stream_def)
    ultimately show ?thesis using Cons.IH [OF wf _ rest, of ps] by (simp add: router_run_def)
  qed
qed (simp add: router_run_def)

text \<open>
  Datagrams that overtake their request are not lost: when the first one of a stream arrives
  while the table has room, then however the traffic of other streams is interleaved, registering the
  stream hands over the latest sixteen of the datagrams that arrived, in the order they arrived.
\<close>

theorem early_datagrams_delivered:
  assumes "routes_wf rt" "view rt (stream_id stream) = Unknown" "has_room rt"
    "only_arrives (stream_id stream) es"
  shows "rt_active (register (stream_id stream) (router_run (Deliver stream p # es) rt)) (stream_id stream) =
    Some (latest 16 (p # arrivals (stream_id stream) es))"
proof -
  let ?s = "stream_id stream"
  let ?rt1 = "router_step (Deliver stream p) rt"
  have "view ?rt1 ?s = Buffered (latest 16 [p])"
    using deliver_view [OF assms(1), of stream p ?s] assms(2,3)
    by (simp add: router_step_def view_deliver_def latest_def)
  from buffered_run [OF router_step_wf [OF assms(1)] this assms(4)]
  have run: "view (router_run (Deliver stream p # es) rt) ?s = Buffered (latest 16 (p # arrivals ?s es))"
    "routes_wf (router_run (Deliver stream p # es) rt)" by (simp_all add: router_run_def)
  have "view (register ?s (router_run (Deliver stream p # es) rt)) ?s =
      Registered (latest 16 (p # arrivals ?s es))"
    using register_view [OF run(2), of ?s ?s] run(1) by (simp add: view_register_def)
  then show ?thesis by (auto simp: view_def split: option.splits)
qed

theorem early_datagrams_delivered_witness:
  "rt_active (register 4 (router_run [Deliver (QuarterStreamId 1) [7], Deliver (QuarterStreamId 2) [9],
     Deliver (QuarterStreamId 1) [8]] routes_default)) 4 = Some [[7], [8]]"
proof -
  have s: "stream_id (QuarterStreamId 1) = 4" "stream_id (QuarterStreamId 2) = 8" by (simp_all add: stream_id_def)
  have "view routes_default (stream_id (QuarterStreamId 1)) = Unknown" "has_room routes_default"
    by (simp_all add: view_def routes_default_def has_room_def)
  moreover have "only_arrives (stream_id (QuarterStreamId 1))
      [Deliver (QuarterStreamId 2) [9], Deliver (QuarterStreamId 1) [8]]" by (simp add: only_arrives_def)
  ultimately show ?thesis
    using early_datagrams_delivered [OF routes_wf_default, of "QuarterStreamId 1"
        "[Deliver (QuarterStreamId 2) [9], Deliver (QuarterStreamId 1) [8]]" "[7]"]
    by (simp add: s latest_def)
qed

text \<open>
  A buffered stream keeps its place until it registers. Datagrams of streams that never do, such as
  those still in flight when their tunnel closed, fill the table for good: once 64 of them are
  buffered, traffic for other streams evicts none of them, and the early datagrams of every new
  stream are dropped.
\<close>

lemma full_table_starves_new_streams:
  assumes "\<not> has_room rt" "view rt (stream_id stream) = Unknown"
  shows "deliver stream p rt = rt"
  using assms by (simp add: deliver_cases)

end
