(* ===== verification/Relay.thy ===== *)
theory Relay
  imports Tenant Tunnel_Service
begin

text \<open>
  The relays of an open tunnel (\<^verbatim>\<open>relay\<close> and \<^verbatim>\<open>relay_tcp\<close> of
  \<^verbatim>\<open>skimasque/src/server.rs\<close>): loops over what happens first among client traffic, target traffic,
  the end of the request stream and the idle timer. An event carries what the socket, the stream or
  the timer reported, and for a forwarded payload whether the other side took it. Pacing only delays
  an event (theory \<^verbatim>\<open>Pacing\<close>).
\<close>

subsection \<open>Accounting\<close>

datatype direction = ToTarget | ToClient

definition count_relayed :: "direction \<Rightarrow> u64 \<Rightarrow> tunnel_meter option \<Rightarrow> tunnel_meter option" where
  "count_relayed d n meter =
     map_option (case d of ToTarget \<Rightarrow> add_to_target n | ToClient \<Rightarrow> add_to_client n) meter"

definition transfer_exceeded :: "u64 \<Rightarrow> nat \<Rightarrow> u64 option \<Rightarrow> bool \<times> u64" where
  "transfer_exceeded moved n cap =
     (let m = u64_saturating_add moved (of_nat n)
      in (case cap of Some limit \<Rightarrow> limit \<le> m | None \<Rightarrow> False, m))"

record relay_state =
  re_moved :: u64
  re_meter :: "tunnel_meter option"
  re_to_target :: "bytes list"
  re_to_client :: "bytes list"

definition relay_init :: "tunnel_meter option \<Rightarrow> relay_state" where
  "relay_init meter = \<lparr>re_moved = 0, re_meter = meter, re_to_target = [], re_to_client = []\<rparr>"

text \<open>A payload was handed to the other side; the flag says whether the loop goes on.\<close>

definition passed_to_target :: "tunnel_limits \<Rightarrow> bytes \<Rightarrow> relay_state \<Rightarrow> bool \<times> relay_state" where
  "passed_to_target limits p s =
     (let (over, m) = transfer_exceeded (re_moved s) (length p) (tl_total_bytes limits)
      in (\<not> over, s\<lparr>re_to_target := re_to_target s @ [p], re_moved := m,
                   re_meter := count_relayed ToTarget (of_nat (length p)) (re_meter s)\<rparr>))"

definition passed_to_client :: "tunnel_limits \<Rightarrow> bytes \<Rightarrow> relay_state \<Rightarrow> bool \<times> relay_state" where
  "passed_to_client limits p s =
     (let (over, m) = transfer_exceeded (re_moved s) (length p) (tl_total_bytes limits)
      in (\<not> over, s\<lparr>re_to_client := re_to_client s @ [p], re_moved := m,
                   re_meter := count_relayed ToClient (of_nat (length p)) (re_meter s)\<rparr>))"

text \<open>A reply that did not fit the path is dropped, but it counts towards the ceiling.\<close>

definition dropped_reply :: "tunnel_limits \<Rightarrow> nat \<Rightarrow> relay_state \<Rightarrow> bool \<times> relay_state" where
  "dropped_reply limits n s =
     (let (over, m) = transfer_exceeded (re_moved s) n (tl_total_bytes limits)
      in (\<not> over, s\<lparr>re_moved := m\<rparr>))"

subsection \<open>UDP\<close>

datatype udp_event =
    Inbound bytes bool
  | Inbound_Closed
  | Socket_Recv bytes bool
  | Socket_Failed
  | Reader_Done
  | Udp_Idle

definition relay_step :: "nat option \<Rightarrow> tunnel_limits \<Rightarrow> udp_event \<Rightarrow> relay_state \<Rightarrow> bool \<times> relay_state" where
  "relay_step idle limits e s =
     (case e of
        Inbound raw sent \<Rightarrow>
          (case udp_decode_payload raw of
             Inr (UdpPayload p) \<Rightarrow> if sent then passed_to_target limits p s else (False, s)
           | Inr (UnknownContext _ _) \<Rightarrow> (True, s)
           | Inl _ \<Rightarrow> (True, s))
      | Inbound_Closed \<Rightarrow> (False, s)
      | Socket_Recv p sent \<Rightarrow> if sent then passed_to_client limits p s else dropped_reply limits (length p) s
      | Socket_Failed \<Rightarrow> (False, s)
      | Reader_Done \<Rightarrow> (False, s)
      | Udp_Idle \<Rightarrow> (idle = None, s))"

subsection \<open>TCP\<close>

datatype tcp_event =
    Client_Data bytes bool
  | Client_Fin
  | Client_Error
  | Target_Read bytes bool
  | Target_Error
  | Tcp_Idle

record tcp_relay =
  tr_relay :: relay_state
  tr_client_done :: bool
  tr_target_done :: bool

definition tcp_relay_init :: "tunnel_meter option \<Rightarrow> tcp_relay" where
  "tcp_relay_init meter = \<lparr>tr_relay = relay_init meter, tr_client_done = False, tr_target_done = False\<rparr>"

text \<open>
  A direction that is done is not polled any more, so its events cannot occur; the loop goes on while
  one direction is open. Reading nothing from the target is its end of file.
\<close>

definition tcp_goes_on :: "tcp_relay \<Rightarrow> bool \<times> tcp_relay" where
  "tcp_goes_on s = (\<not> (tr_client_done s \<and> tr_target_done s), s)"

definition relay_tcp_step ::
  "nat option \<Rightarrow> tunnel_limits \<Rightarrow> tcp_event \<Rightarrow> tcp_relay \<Rightarrow> bool \<times> tcp_relay" where
  "relay_tcp_step idle limits e s =
     (case e of
        Client_Data p sent \<Rightarrow>
          if tr_client_done s then (True, s)
          else if sent then apsnd (\<lambda>r. s\<lparr>tr_relay := r\<rparr>) (passed_to_target limits p (tr_relay s))
          else (False, s)
      | Client_Fin \<Rightarrow> if tr_client_done s then (True, s) else tcp_goes_on (s\<lparr>tr_client_done := True\<rparr>)
      | Client_Error \<Rightarrow> (tr_client_done s, s)
      | Target_Read p sent \<Rightarrow>
          if tr_target_done s then (True, s)
          else if p = [] then tcp_goes_on (s\<lparr>tr_target_done := True\<rparr>)
          else if sent then apsnd (\<lambda>r. s\<lparr>tr_relay := r\<rparr>) (passed_to_client limits p (tr_relay s))
          else (False, s)
      | Target_Error \<Rightarrow> (tr_target_done s, s)
      | Tcp_Idle \<Rightarrow> (idle = None, s))"

subsection \<open>The loops\<close>

text \<open>A loop runs over its events until a step ends it; the flag says whether it still runs.\<close>

fun run_loop :: "('e \<Rightarrow> 's \<Rightarrow> bool \<times> 's) \<Rightarrow> 'e list \<Rightarrow> 's \<Rightarrow> bool \<times> 's" where
  "run_loop step [] s = (True, s)"
| "run_loop step (e # es) s = (case step e s of (True, s1) \<Rightarrow> run_loop step es s1 | (False, s1) \<Rightarrow> (False, s1))"

definition relay :: "nat option \<Rightarrow> tunnel_limits \<Rightarrow> tunnel_meter option \<Rightarrow> udp_event list \<Rightarrow> bool \<times> relay_state" where
  "relay idle limits meter es = run_loop (relay_step idle limits) es (relay_init meter)"

definition relay_tcp :: "nat option \<Rightarrow> tunnel_limits \<Rightarrow> tunnel_meter option \<Rightarrow> tcp_event list \<Rightarrow> bool \<times> tcp_relay" where
  "relay_tcp idle limits meter es = run_loop (relay_tcp_step idle limits) es (tcp_relay_init meter)"

text \<open>
  The contract of a loop: a relation between the events handled so far and the state, extended by
  every step. It then holds at the end for the events up to the one that ended the loop, or for all
  of them.
\<close>

locale event_loop =
  fixes step :: "'e \<Rightarrow> 's \<Rightarrow> bool \<times> 's"
    and handled :: "'e list \<Rightarrow> 's \<Rightarrow> bool"
  assumes handles: "handled us s \<Longrightarrow> step e s = (on, s1) \<Longrightarrow> handled (us @ [e]) s1"
begin

lemma run:
  assumes "handled us s" "run_loop step es s = (on, s1)"
  shows "\<exists>vs ws. es = vs @ ws \<and> (on \<longrightarrow> ws = []) \<and> (\<not> on \<longrightarrow> vs \<noteq> [] \<and> fst (run_loop step (butlast vs) s)) \<and>
    handled (us @ vs) s1"
  using assms
proof (induction es arbitrary: us s)
  case (Cons e es)
  obtain b s2 where st: "step e s = (b, s2)" by fastforce
  note h = handles [OF Cons.prems(1) st]
  show ?case
  proof (cases b)
    case True
    then obtain vs ws where v: "es = vs @ ws" "on \<longrightarrow> ws = []"
      "\<not> on \<longrightarrow> vs \<noteq> [] \<and> fst (run_loop step (butlast vs) s2)" "handled ((us @ [e]) @ vs) s1"
      using Cons.IH [OF h] Cons.prems(2) st by auto
    show ?thesis
      by (rule exI [of _ "e # vs"], rule exI [of _ ws]) (use v st True in auto)
  next
    case False
    then have "on = False" "s1 = s2" using Cons.prems(2) st by simp_all
    then show ?thesis by (intro exI [of _ "[e]"] exI [of _ es]) (use h in simp)
  qed
qed simp

end

subsection \<open>What the relays carry\<close>

text \<open>The payloads a sequence of events passes on.\<close>

fun udp_to_target :: "udp_event list \<Rightarrow> bytes list" where
  "udp_to_target [] = []"
| "udp_to_target (Inbound raw sent # es) =
     (case udp_decode_payload raw of
        Inr (UdpPayload p) \<Rightarrow> (if sent then p # udp_to_target es else udp_to_target es)
      | _ \<Rightarrow> udp_to_target es)"
| "udp_to_target (e # es) = udp_to_target es"

fun udp_to_client :: "udp_event list \<Rightarrow> bytes list" where
  "udp_to_client [] = []"
| "udp_to_client (Socket_Recv p sent # es) = (if sent then p # udp_to_client es else udp_to_client es)"
| "udp_to_client (e # es) = udp_to_client es"

definition total_len :: "bytes list \<Rightarrow> nat" where
  "total_len ps = sum_list (map length ps)"

lemma udp_to_target_append: "udp_to_target (us @ vs) = udp_to_target us @ udp_to_target vs"
  by (induction us rule: udp_to_target.induct) (auto split: sum.splits incoming.splits)

lemma udp_to_client_append: "udp_to_client (us @ vs) = udp_to_client us @ udp_to_client vs"
  by (induction us rule: udp_to_client.induct) auto

text \<open>What the meter of a tunnel shows after these payloads.\<close>

definition metered :: "tunnel_meter option \<Rightarrow> bytes list \<Rightarrow> bytes list \<Rightarrow> tunnel_meter option" where
  "metered meter ts cs =
     map_option (\<lambda>m. m\<lparr>um_bytes_to_target := um_bytes_to_target m + of_nat (total_len ts),
       um_bytes_to_client := um_bytes_to_client m + of_nat (total_len cs)\<rparr>) meter"

lemma total_len_snoc [simp]: "total_len (ps @ [p]) = total_len ps + length p" "total_len [] = 0"
  by (simp_all add: total_len_def)

lemma metered_nil [simp]: "metered meter [] [] = meter"
  by (simp add: metered_def option.map_ident_strong)

lemma count_relayed_metered:
  "count_relayed ToTarget (of_nat (length p)) (metered meter ts cs) = metered meter (ts @ [p]) cs"
  "count_relayed ToClient (of_nat (length p)) (metered meter ts cs) = metered meter ts (cs @ [p])"
  by (cases meter; simp add: count_relayed_def metered_def add_to_target_def add_to_client_def add.assoc)+

definition relayed :: "tunnel_meter option \<Rightarrow> bytes list \<Rightarrow> bytes list \<Rightarrow> relay_state \<Rightarrow> bool" where
  "relayed meter ts cs s \<longleftrightarrow> re_to_target s = ts \<and> re_to_client s = cs \<and> re_meter s = metered meter ts cs"

lemma passed_relayed:
  assumes "relayed meter ts cs s"
  shows "passed_to_target limits p s = (on, s1) \<Longrightarrow> relayed meter (ts @ [p]) cs s1"
    "passed_to_client limits p s = (on, s1) \<Longrightarrow> relayed meter ts (cs @ [p]) s1"
    "dropped_reply limits n s = (on, s1) \<Longrightarrow> relayed meter ts cs s1"
  using assms
  by (auto simp: relayed_def passed_to_target_def passed_to_client_def dropped_reply_def
      transfer_exceeded_def count_relayed_metered Let_def)

lemma relay_step_relayed:
  assumes "relayed meter (udp_to_target us) (udp_to_client us) s" "relay_step idle limits e s = (on, s1)"
  shows "relayed meter (udp_to_target (us @ [e])) (udp_to_client (us @ [e])) s1"
  using assms passed_relayed [OF assms(1)]
  by (cases e)
     (auto simp: relay_step_def udp_to_target_append udp_to_client_append
       split: sum.splits incoming.splits if_splits)

interpretation udp_relay: event_loop "relay_step idle limits"
  "\<lambda>us. relayed meter (udp_to_target us) (udp_to_client us)" for idle limits meter
  by unfold_locales (auto intro: relay_step_relayed)

lemma empty_datagram_malformed: "\<exists>e. udp_decode_payload [] = Inl e"
  by (simp add: udp_decode_payload_def payload_decode_def varint_take_def varint_decode_slice_def)

lemma udp_sample_runs:
  "fst (relay None tunnel_limits_default None [Inbound [] True, Socket_Recv [7] True])"
  using empty_datagram_malformed
  by (auto simp: relay_def relay_init_def relay_step_def passed_to_client_def transfer_exceeded_def
      tunnel_limits_default_def)

text \<open>
  A UDP relay carries exactly the tunnel's traffic. Up to the event that ends it, it passes to the
  target the payloads of the well-formed datagrams of context zero, and to the client the datagrams
  read from the socket that its path takes, each unchanged and in order; malformed datagrams and
  datagrams of unknown contexts are skipped and never end the tunnel; and the tenant's meter grows by
  exactly the bytes passed on in each direction, modulo its 64 bits.
\<close>

theorem udp_relay_carries_payloads:
  assumes "relay idle limits meter es = (on, s)"
  shows "\<exists>vs ws. es = vs @ ws \<and> (on \<longrightarrow> ws = []) \<and>
     (\<not> on \<longrightarrow> vs \<noteq> [] \<and> fst (relay idle limits meter (butlast vs))) \<and>
     re_to_target s = udp_to_target vs \<and> re_to_client s = udp_to_client vs \<and>
     re_meter s = metered meter (udp_to_target vs) (udp_to_client vs)"
proof -
  have "relayed meter (udp_to_target []) (udp_to_client []) (relay_init meter)"
    by (simp add: relayed_def relay_init_def)
  from udp_relay.run [OF this assms [unfolded relay_def]]
  show ?thesis unfolding relayed_def relay_def append_Nil by blast
qed

theorem udp_relay_carries_payloads_witness:
  "re_to_client (snd (relay None tunnel_limits_default None [Inbound [] True, Socket_Recv [7] True])) = [[7]]"
proof -
  let ?es = "[Inbound [] True, Socket_Recv [7] True]"
  obtain s where r: "relay None tunnel_limits_default None ?es = (True, s)"
    using udp_sample_runs by (cases "relay None tunnel_limits_default None ?es") simp
  show ?thesis using udp_relay_carries_payloads [OF r] by (auto simp: r)
qed

subsection \<open>TCP streams\<close>

fun tcp_to_target :: "tcp_event list \<Rightarrow> bytes list" where
  "tcp_to_target [] = []"
| "tcp_to_target (Client_Data p sent # es) = (if sent then p # tcp_to_target es else tcp_to_target es)"
| "tcp_to_target (Client_Fin # es) = []"
| "tcp_to_target (e # es) = tcp_to_target es"

fun tcp_to_client :: "tcp_event list \<Rightarrow> bytes list" where
  "tcp_to_client [] = []"
| "tcp_to_client (Target_Read p sent # es) =
     (if p = [] then [] else if sent then p # tcp_to_client es else tcp_to_client es)"
| "tcp_to_client (e # es) = tcp_to_client es"

definition client_finished :: "tcp_event list \<Rightarrow> bool" where
  "client_finished es \<longleftrightarrow> Client_Fin \<in> set es"

definition target_finished :: "tcp_event list \<Rightarrow> bool" where
  "target_finished es \<longleftrightarrow> (\<exists>sent. Target_Read [] sent \<in> set es)"

lemma tcp_to_target_append:
  "tcp_to_target (us @ vs) = tcp_to_target us @ (if client_finished us then [] else tcp_to_target vs)"
  by (induction us rule: tcp_to_target.induct) (auto simp: client_finished_def)

lemma tcp_to_client_append:
  "tcp_to_client (us @ vs) = tcp_to_client us @ (if target_finished us then [] else tcp_to_client vs)"
  by (induction us rule: tcp_to_client.induct) (auto simp: target_finished_def)

definition tcp_relayed :: "tunnel_meter option \<Rightarrow> tcp_event list \<Rightarrow> tcp_relay \<Rightarrow> bool" where
  "tcp_relayed meter us s \<longleftrightarrow> relayed meter (tcp_to_target us) (tcp_to_client us) (tr_relay s) \<and>
     tr_client_done s = client_finished us \<and> tr_target_done s = target_finished us"

lemma relay_tcp_step_relayed:
  assumes "tcp_relayed meter us s" "relay_tcp_step idle limits e s = (on, s1)"
  shows "tcp_relayed meter (us @ [e]) s1"
proof -
  have r: "relayed meter (tcp_to_target us) (tcp_to_client us) (tr_relay s)"
    and d: "tr_client_done s = client_finished us" "tr_target_done s = target_finished us"
    using assms(1) by (simp_all add: tcp_relayed_def)
  have fin: "client_finished (us @ [e]) = (client_finished us \<or> e = Client_Fin)"
    "target_finished (us @ [e]) = (target_finished us \<or> (\<exists>sent. e = Target_Read [] sent))" for e
    by (auto simp: client_finished_def target_finished_def)
  show ?thesis
  proof (cases e)
    case (Client_Data p sent)
    obtain on1 r1 where p: "passed_to_target limits p (tr_relay s) = (on1, r1)" by fastforce
    show ?thesis
      using assms(2) r d passed_relayed(1) [OF r p]
      by (auto simp: tcp_relayed_def fin Client_Data relay_tcp_step_def p tcp_to_target_append
          tcp_to_client_append split: if_splits)
  next
    case (Target_Read p sent)
    obtain on1 r1 where p: "passed_to_client limits p (tr_relay s) = (on1, r1)" by fastforce
    show ?thesis
      using assms(2) r d passed_relayed(2) [OF r p]
      by (auto simp: tcp_relayed_def fin Target_Read relay_tcp_step_def p tcp_goes_on_def
          tcp_to_target_append tcp_to_client_append split: if_splits)
  qed (use assms(2) r d in \<open>auto simp: tcp_relayed_def fin relay_tcp_step_def tcp_goes_on_def
      tcp_to_target_append tcp_to_client_append split: if_splits\<close>)
qed

interpretation tcp_stream: event_loop "relay_tcp_step idle limits" "tcp_relayed meter"
  for idle limits meter
  by unfold_locales (auto intro: relay_tcp_step_relayed)

text \<open>
  A TCP relay carries both byte streams unchanged: up to the event that ends it, the target gets
  exactly the bytes the client sent before its half-close and the client exactly the bytes the target
  sent before its end of file, in order; each direction closes on its own, and the other continues.
\<close>

theorem tcp_relay_carries_streams:
  assumes "relay_tcp idle limits meter es = (on, s)"
  shows "\<exists>vs ws. es = vs @ ws \<and> (on \<longrightarrow> ws = []) \<and>
     (\<not> on \<longrightarrow> vs \<noteq> [] \<and> fst (relay_tcp idle limits meter (butlast vs))) \<and>
     re_to_target (tr_relay s) = tcp_to_target vs \<and> re_to_client (tr_relay s) = tcp_to_client vs \<and>
     re_meter (tr_relay s) = metered meter (tcp_to_target vs) (tcp_to_client vs) \<and>
     tr_client_done s = client_finished vs \<and> tr_target_done s = target_finished vs"
proof -
  have "tcp_relayed meter [] (tcp_relay_init meter)"
    by (simp add: tcp_relayed_def relayed_def tcp_relay_init_def relay_init_def client_finished_def
        target_finished_def)
  from tcp_stream.run [OF this assms [unfolded relay_tcp_def]]
  show ?thesis unfolding tcp_relayed_def relayed_def relay_tcp_def append_Nil by blast
qed

lemma tcp_sample_runs:
  "fst (relay_tcp None tunnel_limits_default None [Client_Data [1] True, Client_Fin, Target_Read [2] True])"
  by (simp add: relay_tcp_def relay_tcp_step_def tcp_relay_init_def relay_init_def passed_to_target_def
      passed_to_client_def transfer_exceeded_def tunnel_limits_default_def tcp_goes_on_def Let_def)

theorem tcp_relay_carries_streams_witness:
  "re_to_client (tr_relay (snd (relay_tcp None tunnel_limits_default None
     [Client_Data [1] True, Client_Fin, Target_Read [2] True]))) = [[2]]"
proof -
  let ?es = "[Client_Data [1] True, Client_Fin, Target_Read [2] True]"
  obtain s where r: "relay_tcp None tunnel_limits_default None ?es = (True, s)"
    using tcp_sample_runs by (cases "relay_tcp None tunnel_limits_default None ?es") simp
  show ?thesis using tcp_relay_carries_streams [OF r] by (auto simp: r)
qed

subsection \<open>The transfer ceiling\<close>

text \<open>
  While a loop runs, the bytes it carried are counted and the count is below the ceiling, unless it
  is still zero; when a payload ends it, the bytes exceed the ceiling by less than that payload.
\<close>

definition carried :: "relay_state \<Rightarrow> nat" where
  "carried s = total_len (re_to_target s) + total_len (re_to_client s)"

definition below_ceiling :: "u64 \<Rightarrow> relay_state \<Rightarrow> bool" where
  "below_ceiling cap s \<longleftrightarrow> carried s \<le> unat (re_moved s) \<and> (re_moved s < cap \<or> re_moved s = 0)"

lemma transfer_not_exceeded:
  assumes "transfer_exceeded moved n (Some cap) = (False, m)" "n < 2 ^ 64"
  shows "unat m = unat moved + n" "m < cap"
proof -
  have n: "unat (of_nat n :: u64) = n" using assms(2) by (simp add: unat_of_nat take_bit_eq_mod)
  have m: "m < cap" "m = u64_saturating_add moved (of_nat n)" using assms(1) by (auto simp: transfer_exceeded_def Let_def)
  then show "m < cap" by simp
  have "m \<noteq> - 1" using m(1) word_order.extremum [of cap] by (metis leD)
  then have "unat moved + n < 2 ^ 64" "m = moved + of_nat n"
    using m(2) by (auto simp: u64_saturating_add_def n split: if_splits)
  then show "unat m = unat moved + n" using n by (simp add: unat_word_ariths(1) take_bit_eq_mod)
qed

lemma passed_ceiling:
  assumes "tl_total_bytes limits = Some cap" "below_ceiling cap s" "length p \<le> N" "N < 2 ^ 64"
    "r = passed_to_target limits p s \<or> r = passed_to_client limits p s \<or> r = dropped_reply limits (length p) s"
  shows "carried (snd r) \<le> unat cap + N" "fst r \<Longrightarrow> below_ceiling cap (snd r)"
proof -
  obtain over m where t: "transfer_exceeded (re_moved s) (length p) (Some cap) = (over, m)" by fastforce
  have c: "carried (snd r) \<le> carried s + length p" "re_moved (snd r) = m" "fst r = (\<not> over)"
    using assms(5)
    by (auto simp: passed_to_target_def passed_to_client_def dropped_reply_def assms(1) t carried_def Let_def)
  have "unat (re_moved s) \<le> unat cap" using assms(2) by (auto simp: below_ceiling_def word_less_nat_alt)
  then show "carried (snd r) \<le> unat cap + N" using c(1) assms(2,3) by (auto simp: below_ceiling_def)
  show "below_ceiling cap (snd r)" if "fst r"
  proof -
    have "transfer_exceeded (re_moved s) (length p) (Some cap) = (False, m)" "length p < 2 ^ 64"
      using t that c(3) assms(3,4) by auto
    from transfer_not_exceeded [OF this] show ?thesis using c assms(2) by (simp add: below_ceiling_def)
  qed
qed

definition udp_event_len :: "udp_event \<Rightarrow> nat" where
  "udp_event_len e =
     (case e of
        Inbound raw _ \<Rightarrow> (case udp_decode_payload raw of Inr (UdpPayload p) \<Rightarrow> length p | _ \<Rightarrow> 0)
      | Socket_Recv p _ \<Rightarrow> length p
      | _ \<Rightarrow> 0)"

definition tcp_event_len :: "tcp_event \<Rightarrow> nat" where
  "tcp_event_len e = (case e of Client_Data p _ \<Rightarrow> length p | Target_Read p _ \<Rightarrow> length p | _ \<Rightarrow> 0)"

lemma relay_step_ceiling:
  assumes "tl_total_bytes limits = Some cap" "below_ceiling cap s" "udp_event_len e \<le> N" "N < 2 ^ 64"
  shows "carried (snd (relay_step idle limits e s)) \<le> unat cap + N"
    "fst (relay_step idle limits e s) \<Longrightarrow> below_ceiling cap (snd (relay_step idle limits e s))"
proof -
  note to_target = passed_ceiling [OF assms(1,2) _ assms(4) disjI1 [OF refl]]
    and to_client = passed_ceiling [OF assms(1,2) _ assms(4) disjI2 [OF disjI1 [OF refl]]]
    and dropped = passed_ceiling [OF assms(1,2) _ assms(4) disjI2 [OF disjI2 [OF refl]]]
  have keep: "carried s \<le> unat cap + N" using assms(2) by (auto simp: below_ceiling_def word_less_nat_alt)
  show "carried (snd (relay_step idle limits e s)) \<le> unat cap + N"
    "fst (relay_step idle limits e s) \<Longrightarrow> below_ceiling cap (snd (relay_step idle limits e s))"
    using to_target to_client dropped assms(2,3) keep
    by (auto simp: relay_step_def udp_event_len_def split: udp_event.splits sum.splits incoming.splits)
qed

lemma relay_tcp_step_ceiling:
  assumes "tl_total_bytes limits = Some cap" "below_ceiling cap (tr_relay s)" "tcp_event_len e \<le> N" "N < 2 ^ 64"
  shows "carried (tr_relay (snd (relay_tcp_step idle limits e s))) \<le> unat cap + N"
    "fst (relay_tcp_step idle limits e s) \<Longrightarrow> below_ceiling cap (tr_relay (snd (relay_tcp_step idle limits e s)))"
proof -
  note to_target = passed_ceiling [OF assms(1,2) _ assms(4) disjI1 [OF refl]]
    and to_client = passed_ceiling [OF assms(1,2) _ assms(4) disjI2 [OF disjI1 [OF refl]]]
  have keep: "carried (tr_relay s) \<le> unat cap + N" using assms(2) by (auto simp: below_ceiling_def word_less_nat_alt)
  show "carried (tr_relay (snd (relay_tcp_step idle limits e s))) \<le> unat cap + N"
    "fst (relay_tcp_step idle limits e s) \<Longrightarrow> below_ceiling cap (tr_relay (snd (relay_tcp_step idle limits e s)))"
    using to_target to_client assms(2,3) keep
    by (auto simp: relay_tcp_step_def tcp_goes_on_def tcp_event_len_def split: tcp_event.splits)
qed

lemma run_loop_ceiling:
  assumes "\<And>e s. good s \<Longrightarrow> P e \<Longrightarrow> bound (snd (step e s)) \<and> (fst (step e s) \<longrightarrow> good (snd (step e s)))"
    "good s" "list_all P es" "\<And>s. good s \<Longrightarrow> bound s"
  shows "bound (snd (run_loop step es s))"
  using assms(2,3)
proof (induction es arbitrary: s)
  case (Cons e es)
  then show ?case using assms(1) [of s e] by (auto split: prod.splits bool.splits)
qed (simp add: assms(4))

text \<open>
  C31. A tunnel's byte ceiling holds: whatever happens on it, the bytes a UDP or TCP relay carries in
  both directions together never exceed the ceiling by more than the size of the largest single
  payload, although the count is a saturating 64-bit number.
\<close>

theorem transfer_ceiling_holds:
  assumes "tl_total_bytes limits = Some cap" "N < 2 ^ 64"
    "list_all (\<lambda>e. udp_event_len e \<le> N) us" "list_all (\<lambda>e. tcp_event_len e \<le> N) ts"
  shows "carried (snd (relay idle limits meter us)) \<le> unat cap + N \<and>
    carried (tr_relay (snd (relay_tcp idle limits meter ts))) \<le> unat cap + N"
proof
  have init: "below_ceiling cap (relay_init meter)" by (simp add: below_ceiling_def carried_def relay_init_def)
  have weak: "below_ceiling cap s \<Longrightarrow> carried s \<le> unat cap + N" for s
    by (auto simp: below_ceiling_def word_less_nat_alt)
  show "carried (snd (relay idle limits meter us)) \<le> unat cap + N"
    unfolding relay_def
    by (rule run_loop_ceiling [of "below_ceiling cap" "\<lambda>e. udp_event_len e \<le> N"])
      (use relay_step_ceiling [OF assms(1) _ _ assms(2)] assms(3) init weak in auto)
  show "carried (tr_relay (snd (relay_tcp idle limits meter ts))) \<le> unat cap + N"
    unfolding relay_tcp_def
    by (rule run_loop_ceiling [of "\<lambda>s. below_ceiling cap (tr_relay s)" "\<lambda>e. tcp_event_len e \<le> N"])
      (use relay_tcp_step_ceiling [OF assms(1) _ _ assms(2)] assms(4) init weak in \<open>auto simp: tcp_relay_init_def\<close>)
qed

theorem transfer_ceiling_holds_witness:
  "carried (tr_relay (snd (relay_tcp None (tunnel_limits_default\<lparr>tl_total_bytes := Some 3\<rparr>) None
     [Client_Data [1, 2] True, Target_Read [3, 4] True, Client_Data [5] True]))) \<le> unat (3 :: u64) + 2"
  using transfer_ceiling_holds [of "tunnel_limits_default\<lparr>tl_total_bytes := Some 3\<rparr>" 3 2 "[]"
      "[Client_Data [1, 2] True, Target_Read [3, 4] True, Client_Data [5] True]" None None]
  by (simp add: tcp_event_len_def)

end
