(* ===== verification/Oidc_Identity.thy ===== *)
theory Oidc_Identity
  imports Policy_Model
begin

text \<open>
  Verifying a workload's OIDC token (\<^verbatim>\<open>verify.rs\<close>, \<^verbatim>\<open>jwks.rs\<close>, \<^verbatim>\<open>provider.rs\<close> and the
  verifier of \<^verbatim>\<open>lib.rs\<close> in \<^verbatim>\<open>skimasque-identity/src\<close>): the checks on a token, the cache of an
  issuer's signing keys with its one refresh, and the mapping of claims to a workload identity.

  The token library \<^verbatim>\<open>jsonwebtoken\<close> and the base64 and JSON readers are the fields of a \<open>jwt\<close>
  record: \<open>'j\<close> is its type of key sets, \<open>'w\<close> of published keys, \<open>'k\<close> of decoding keys and \<open>'e\<close> of
  encoding keys. Its decoder reads the wall clock, an argument here, in seconds.
\<close>

subsection \<open>Claims\<close>

text \<open>
  A JSON value as \<^verbatim>\<open>serde_json\<close> reads it. A number without a fraction that fits 64 bits is an
  integer; an object lists its members in the order of the text.
\<close>

datatype json =
    JNull
  | JBool bool
  | JInt int
  | JFloat string
  | JString string
  | JArray "json list"
  | JObject "(string \<times> json) list"

fun json_as_str :: "json \<Rightarrow> string option" where
  "json_as_str (JString s) = Some s"
| "json_as_str _ = None"

text \<open>The later of two members with one name stays in a map.\<close>

type_synonym claims = "string \<rightharpoonup> json"

definition object_map :: "(string \<times> json) list \<Rightarrow> claims" where
  "object_map members = map_of (rev members)"

definition claims_get :: "claims \<Rightarrow> string \<Rightarrow> string option" where
  "claims_get c key = Option.bind (c key) json_as_str"

definition claims_subject :: "claims \<Rightarrow> string option" where
  "claims_subject c = claims_get c ''sub''"

definition claims_issuer :: "claims \<Rightarrow> string option" where
  "claims_issuer c = claims_get c ''iss''"

definition claims_owner_id :: "claims \<Rightarrow> u64 option" where
  "claims_owner_id c =
     (case c ''repository_owner_id'' of
        Some (JString s) \<Rightarrow> parse_u64 s
      | Some (JInt n) \<Rightarrow> if 0 \<le> n \<and> n < 2 ^ 64 then Some (of_int n) else None
      | _ \<Rightarrow> None)"

subsection \<open>Providers\<close>

record claim_names =
  cn_organization :: "string option"
  cn_repository :: "string option"
  cn_workflow :: "string option"
  cn_git_ref :: "string option"
  cn_environment :: "string option"
  cn_actor :: "string option"

datatype provider = GitHubActions | GitLab | Buildkite | Generic claim_names

definition GITHUB_ACTIONS_ISSUER :: string where
  "GITHUB_ACTIONS_ISSUER = ''https://token.actions.githubusercontent.com''"

definition provider_from_name :: "string \<Rightarrow> provider option" where
  "provider_from_name name =
     (let n = to_ascii_lowercase name
      in if n = ''github'' \<or> n = ''github-actions'' then Some GitHubActions
         else if n = ''gitlab'' then Some GitLab
         else if n = ''buildkite'' then Some Buildkite
         else None)"

fun default_issuer :: "provider \<Rightarrow> string option" where
  "default_issuer GitHubActions = Some GITHUB_ACTIONS_ISSUER"
| "default_issuer GitLab = Some ''https://gitlab.com''"
| "default_issuer Buildkite = Some ''https://agent.buildkite.com''"
| "default_issuer (Generic _) = None"

definition file_from_ref_uri :: "string option \<Rightarrow> string option" where
  "file_from_ref_uri uri =
     Option.bind uri (\<lambda>u.
       let path = hd (split_on (CHR ''@'') u);
           file = last (split_on (CHR ''/'') path)
       in if file \<noteq> [] then Some file else None)"

definition or_else :: "'a option \<Rightarrow> 'a option \<Rightarrow> 'a option" where
  "or_else x y = (case x of Some v \<Rightarrow> Some v | None \<Rightarrow> y)"

definition github :: "claims \<Rightarrow> workload_identity" where
  "github c = identity_default\<lparr>wi_organization := claims_get c ''repository_owner'',
     wi_repository := claims_get c ''repository'',
     wi_workflow := or_else (file_from_ref_uri (claims_get c ''workflow_ref'')) (claims_get c ''workflow''),
     wi_git_ref := claims_get c ''ref'', wi_environment := claims_get c ''environment'',
     wi_actor := claims_get c ''actor'', wi_kind := Some Ci\<rparr>"

definition gitlab_ref :: "claims \<Rightarrow> string option" where
  "gitlab_ref c =
     map_option (\<lambda>name. (if claims_get c ''ref_type'' = Some ''tag'' then ''refs/tags/'' else ''refs/heads/'') @ name)
       (claims_get c ''ref'')"

definition gitlab :: "claims \<Rightarrow> workload_identity" where
  "gitlab c = identity_default\<lparr>wi_organization := claims_get c ''namespace_path'',
     wi_repository := claims_get c ''project_path'',
     wi_workflow := file_from_ref_uri (claims_get c ''ci_config_ref_uri''),
     wi_git_ref := gitlab_ref c, wi_environment := claims_get c ''environment'',
     wi_actor := claims_get c ''user_login'', wi_kind := Some Ci\<rparr>"

definition buildkite :: "claims \<Rightarrow> workload_identity" where
  "buildkite c = identity_default\<lparr>wi_organization := claims_get c ''organization_slug'',
     wi_repository := claims_get c ''pipeline_slug'', wi_workflow := None,
     wi_git_ref := or_else (map_option ((@) ''refs/heads/'') (claims_get c ''build_branch''))
       (map_option ((@) ''refs/tags/'') (claims_get c ''build_tag'')),
     wi_environment := None, wi_actor := None, wi_kind := Some Ci\<rparr>"

definition generic :: "claim_names \<Rightarrow> claims \<Rightarrow> workload_identity" where
  "generic names c =
     (let pick = (\<lambda>field. Option.bind field (claims_get c))
      in identity_default\<lparr>wi_organization := pick (cn_organization names),
           wi_repository := pick (cn_repository names), wi_workflow := pick (cn_workflow names),
           wi_git_ref := pick (cn_git_ref names), wi_environment := pick (cn_environment names),
           wi_actor := pick (cn_actor names), wi_kind := Some Ci\<rparr>)"

fun identify :: "provider \<Rightarrow> claims \<Rightarrow> workload_identity" where
  "identify GitHubActions c = github c"
| "identify GitLab c = gitlab c"
| "identify Buildkite c = buildkite c"
| "identify (Generic names) c = generic names c"

subsection \<open>The token library\<close>

datatype algorithm = HS256 | HS384 | HS512 | ES256 | ES384 | RS256 | RS384 | RS512 | PS256 | PS384 | PS512 | EdDSA

definition algorithm_debug :: "algorithm \<Rightarrow> string" where
  "algorithm_debug a =
     (case a of HS256 \<Rightarrow> ''HS256'' | HS384 \<Rightarrow> ''HS384'' | HS512 \<Rightarrow> ''HS512'' | ES256 \<Rightarrow> ''ES256''
      | ES384 \<Rightarrow> ''ES384'' | RS256 \<Rightarrow> ''RS256'' | RS384 \<Rightarrow> ''RS384'' | RS512 \<Rightarrow> ''RS512''
      | PS256 \<Rightarrow> ''PS256'' | PS384 \<Rightarrow> ''PS384'' | PS512 \<Rightarrow> ''PS512'' | EdDSA \<Rightarrow> ''EdDSA'')"

record jwt_header =
  jh_alg :: algorithm
  jh_kid :: "string option"

record validation =
  va_alg :: algorithm
  va_leeway :: u64
  va_required :: "string list"
  va_iss :: "string list option"
  va_validate_aud :: bool
  va_aud :: "string list option"

text \<open>The defaults \<^verbatim>\<open>Validation::new\<close> documents.\<close>

definition validation_new :: "algorithm \<Rightarrow> validation" where
  "validation_new alg = \<lparr>va_alg = alg, va_leeway = 60, va_required = [''exp''], va_iss = None,
     va_validate_aud = True, va_aud = None\<rparr>"

text \<open>
  \<open>jwt_payload\<close> is the base64 and JSON reading of one segment of a token, \<open>jwt_unreadable\<close> the text of
  the error when a payload does not have the expected fields, and \<open>jwt_variant\<close> the variant name that
  a JSON value gives for a unit enumeration.
\<close>

record ('j, 'w, 'k, 'e) jwt =
  jwt_decode_header :: "string \<Rightarrow> string + jwt_header"
  jwt_find :: "'j \<Rightarrow> string \<Rightarrow> 'w option"
  jwt_from_jwk :: "'w \<Rightarrow> string + 'k"
  jwt_decode :: "nat \<Rightarrow> string \<Rightarrow> 'k \<Rightarrow> validation \<Rightarrow> string + json"
  jwt_encode :: "algorithm \<Rightarrow> json \<Rightarrow> 'e \<Rightarrow> string + string"
  jwt_payload :: "string \<Rightarrow> json option"
  jwt_unreadable :: "json \<Rightarrow> string"
  jwt_variant :: "json \<Rightarrow> string option"

subsection \<open>Checking a token\<close>

datatype identity_error =
    Malformed string
  | UnsupportedAlgorithm string
  | UnknownKey
  | Verification string
  | Discovery string
  | Jwks string

record verifier =
  vf_issuer :: string
  vf_audiences :: "string list"
  vf_leeway_secs :: u64

definition verifier_new :: "string \<Rightarrow> string list \<Rightarrow> verifier" where
  "verifier_new issuer audiences = \<lparr>vf_issuer = issuer, vf_audiences = audiences, vf_leeway_secs = 60\<rparr>"

definition with_leeway_secs :: "u64 \<Rightarrow> verifier \<Rightarrow> verifier" where
  "with_leeway_secs secs v = v\<lparr>vf_leeway_secs := secs\<rparr>"

definition with_audience :: "string \<Rightarrow> verifier \<Rightarrow> verifier" where
  "with_audience audience v = v\<lparr>vf_audiences := [audience]\<rparr>"

definition verifier_validation :: "verifier \<Rightarrow> validation" where
  "verifier_validation v =
     (let val = (validation_new RS256)\<lparr>va_iss := Some [vf_issuer v], va_leeway := vf_leeway_secs v\<rparr>
      in if vf_audiences v = [] then val\<lparr>va_validate_aud := False\<rparr>
         else val\<lparr>va_aud := Some (vf_audiences v)\<rparr>)"

definition verifier_verify ::
  "('j, 'w, 'k, 'e) jwt \<Rightarrow> nat \<Rightarrow> verifier \<Rightarrow> string \<Rightarrow> 'j \<Rightarrow> identity_error + claims" where
  "verifier_verify lib now v token keys =
     and_then (map_err Malformed (jwt_decode_header lib token)) (\<lambda>header.
     if jh_alg header \<noteq> RS256 then Inl (UnsupportedAlgorithm (algorithm_debug (jh_alg header)))
     else
       and_then (ok_or (Malformed ''the token header carries no key id'') (jh_kid header)) (\<lambda>kid.
       and_then (ok_or UnknownKey (jwt_find lib keys kid)) (\<lambda>jwk.
       and_then (map_err (\<lambda>e. Verification (''unusable signing key: '' @ e)) (jwt_from_jwk lib jwk)) (\<lambda>key.
         case jwt_decode lib now token key (verifier_validation v) of
           Inl e \<Rightarrow> Inl (Verification e)
         | Inr (JObject members) \<Rightarrow> Inr (object_map members)
         | Inr other \<Rightarrow> Inl (Verification (jwt_unreadable lib other))))))"

subsection \<open>The key cache\<close>

text \<open>
  The key source is a function from the number of fetches made so far to what the next one returns and
  the instant it returned; instants are nanoseconds of the monotonic clock.
\<close>

type_synonym 'j jwks_provider = "nat \<Rightarrow> (identity_error + 'j) \<times> nat"

record 'j jwks_entry =
  je_keys :: 'j
  je_fetched :: nat

record 'j jwks_cache =
  jc_ttl :: nat
  jc_cached :: "'j jwks_entry option"
  jc_fetches :: nat

definition jwks_cache_new :: "nat \<Rightarrow> 'j jwks_cache" where
  "jwks_cache_new ttl = \<lparr>jc_ttl = ttl, jc_cached = None, jc_fetches = 0\<rparr>"

definition cache_refresh ::
  "'j jwks_provider \<Rightarrow> 'j jwks_cache \<Rightarrow> (identity_error + 'j) \<times> 'j jwks_cache" where
  "cache_refresh fetch c =
     (let c1 = c\<lparr>jc_fetches := Suc (jc_fetches c)\<rparr>
      in case fetch (jc_fetches c) of
           (Inl e, _) \<Rightarrow> (Inl e, c1)
         | (Inr keys, at) \<Rightarrow> (Inr keys, c1\<lparr>jc_cached := Some \<lparr>je_keys = keys, je_fetched = at\<rparr>\<rparr>))"

definition cache_keys ::
  "'j jwks_provider \<Rightarrow> nat \<Rightarrow> 'j jwks_cache \<Rightarrow> (identity_error + 'j) \<times> 'j jwks_cache" where
  "cache_keys fetch now c =
     (case jc_cached c of
        Some entry \<Rightarrow> if now - je_fetched entry < jc_ttl c then (Inr (je_keys entry), c) else cache_refresh fetch c
      | None \<Rightarrow> cache_refresh fetch c)"

definition JWKS_TTL :: nat where
  "JWKS_TTL = 3600 * 10 ^ 9"

record 'j oidc_verifier =
  ov_verifier :: verifier
  ov_jwks :: "'j jwks_cache"
  ov_provider :: provider

definition oidc_from_parts :: "provider \<Rightarrow> verifier \<Rightarrow> 'j oidc_verifier" where
  "oidc_from_parts p v = \<lparr>ov_verifier = v, ov_jwks = jwks_cache_new JWKS_TTL, ov_provider = p\<rparr>"

text \<open>
  \<open>now\<close> is the instant the cache is asked and \<open>secs\<close> the wall clock of the signature check. The same
  steps serve both entry points.
\<close>

definition verify_refreshing ::
  "('j, 'w, 'k, 'e) jwt \<Rightarrow> 'j jwks_provider \<Rightarrow> nat \<Rightarrow> nat \<Rightarrow> verifier \<Rightarrow> string \<Rightarrow> 'j jwks_cache \<Rightarrow>
     (identity_error + claims) \<times> 'j jwks_cache" where
  "verify_refreshing lib fetch now secs v token c =
     (case cache_keys fetch now c of
        (Inl e, c1) \<Rightarrow> (Inl e, c1)
      | (Inr keys, c1) \<Rightarrow>
          (case verifier_verify lib secs v token keys of
             Inl UnknownKey \<Rightarrow>
               (case cache_refresh fetch c1 of
                  (Inl e, c2) \<Rightarrow> (Inl e, c2)
                | (Inr keys2, c2) \<Rightarrow> (verifier_verify lib secs v token keys2, c2))
           | other \<Rightarrow> (other, c1)))"

definition verify_claims ::
  "('j, 'w, 'k, 'e) jwt \<Rightarrow> 'j jwks_provider \<Rightarrow> nat \<Rightarrow> nat \<Rightarrow> string \<Rightarrow> 'j oidc_verifier \<Rightarrow>
     (identity_error + claims) \<times> 'j oidc_verifier" where
  "verify_claims lib fetch now secs token ov =
     (case verify_refreshing lib fetch now secs (ov_verifier ov) token (ov_jwks ov) of
        (r, c) \<Rightarrow> (r, ov\<lparr>ov_jwks := c\<rparr>))"

definition verify_claims_for_audience ::
  "('j, 'w, 'k, 'e) jwt \<Rightarrow> 'j jwks_provider \<Rightarrow> nat \<Rightarrow> nat \<Rightarrow> string \<Rightarrow> string \<Rightarrow> 'j oidc_verifier \<Rightarrow>
     (identity_error + claims) \<times> 'j oidc_verifier" where
  "verify_claims_for_audience lib fetch now secs token audience ov =
     (case verify_refreshing lib fetch now secs (with_audience audience (ov_verifier ov)) token (ov_jwks ov) of
        (r, c) \<Rightarrow> (r, ov\<lparr>ov_jwks := c\<rparr>))"

definition oidc_verify ::
  "('j, 'w, 'k, 'e) jwt \<Rightarrow> 'j jwks_provider \<Rightarrow> nat \<Rightarrow> nat \<Rightarrow> string \<Rightarrow> 'j oidc_verifier \<Rightarrow>
     (identity_error + workload_identity) \<times> 'j oidc_verifier" where
  "oidc_verify lib fetch now secs token ov =
     (case verify_claims lib fetch now secs token ov of
        (r, ov1) \<Rightarrow> (and_then r (\<lambda>c. Inr (identify (ov_provider ov) c)), ov1))"

text \<open>The audiences a token names, unverified.\<close>

definition token_payload :: "('j, 'w, 'k, 'e) jwt \<Rightarrow> string \<Rightarrow> json option" where
  "token_payload lib token =
     (case split_on (CHR ''.'') token of _ # payload # _ \<Rightarrow> jwt_payload lib payload | _ \<Rightarrow> None)"

definition peek_audiences :: "('j, 'w, 'k, 'e) jwt \<Rightarrow> string \<Rightarrow> string list" where
  "peek_audiences lib token =
     (case token_payload lib token of
        Some (JObject members) \<Rightarrow>
          (case object_map members ''aud'' of
             Some (JString s) \<Rightarrow> [s]
           | Some (JArray xs) \<Rightarrow> List.map_filter json_as_str xs
           | _ \<Rightarrow> [])
      | _ \<Rightarrow> [])"

subsection \<open>What a verified identity rests on\<close>

text \<open>The condition under which a token passes, as one relation between key set and claims.\<close>

definition token_accepted ::
  "('j, 'w, 'k, 'e) jwt \<Rightarrow> nat \<Rightarrow> string \<Rightarrow> string list \<Rightarrow> u64 \<Rightarrow> string \<Rightarrow> 'j \<Rightarrow> claims \<Rightarrow> bool" where
  "token_accepted lib secs issuer audiences leeway token keys claims \<longleftrightarrow>
     (\<exists>header kid jwk key members val.
        jwt_decode_header lib token = Inr header \<and> jh_alg header = RS256 \<and> jh_kid header = Some kid \<and>
        jwt_find lib keys kid = Some jwk \<and> jwt_from_jwk lib jwk = Inr key \<and>
        va_alg val = RS256 \<and> va_iss val = Some [issuer] \<and> va_leeway val = leeway \<and>
        ''exp'' \<in> set (va_required val) \<and>
        (if audiences = [] then \<not> va_validate_aud val else va_validate_aud val \<and> va_aud val = Some audiences) \<and>
        jwt_decode lib secs token key val = Inr (JObject members) \<and> claims = object_map members)"

lemma verifier_verify_Inr:
  assumes "verifier_verify lib secs v token keys = Inr claims"
  shows "token_accepted lib secs (vf_issuer v) (vf_audiences v) (vf_leeway_secs v) token keys claims"
proof -
  obtain header where h: "jwt_decode_header lib token = Inr header" "jh_alg header = RS256"
    using assms by (cases "jwt_decode_header lib token")
      (auto simp: verifier_verify_def and_then_def map_err_def split: if_splits)
  obtain kid where k: "jh_kid header = Some kid"
    using assms h by (cases "jh_kid header") (simp_all add: verifier_verify_def and_then_def map_err_def ok_or_def)
  obtain jwk where j: "jwt_find lib keys kid = Some jwk"
    using assms h k by (cases "jwt_find lib keys kid") (simp_all add: verifier_verify_def and_then_def map_err_def ok_or_def)
  obtain key where d: "jwt_from_jwk lib jwk = Inr key"
    using assms h k j by (cases "jwt_from_jwk lib jwk") (simp_all add: verifier_verify_def and_then_def map_err_def ok_or_def)
  obtain members where f: "jwt_decode lib secs token key (verifier_validation v) = Inr (JObject members)"
    "claims = object_map members"
    using assms h k j d
    by (auto simp: verifier_verify_def and_then_def map_err_def ok_or_def split: sum.splits json.splits)
  have "va_alg (verifier_validation v) = RS256" "va_iss (verifier_validation v) = Some [vf_issuer v]"
    "va_leeway (verifier_validation v) = vf_leeway_secs v" "''exp'' \<in> set (va_required (verifier_validation v))"
    "if vf_audiences v = [] then \<not> va_validate_aud (verifier_validation v)
     else va_validate_aud (verifier_validation v) \<and> va_aud (verifier_validation v) = Some (vf_audiences v)"
    by (simp_all add: verifier_validation_def validation_new_def Let_def)
  with h k j d f show ?thesis unfolding token_accepted_def by blast
qed

definition fetched_between :: "'j jwks_provider \<Rightarrow> 'j jwks_cache \<Rightarrow> 'j jwks_cache \<Rightarrow> 'j \<Rightarrow> bool" where
  "fetched_between fetch c c' keys \<longleftrightarrow>
     (\<exists>n. jc_fetches c \<le> n \<and> n < jc_fetches c' \<and> fst (fetch n) = Inr keys)"

lemma cache_refresh_result:
  "cache_refresh fetch c = (r, c') \<Longrightarrow> jc_fetches c' = Suc (jc_fetches c) \<and> r = fst (fetch (jc_fetches c)) \<and>
     jc_ttl c' = jc_ttl c"
  by (auto simp: cache_refresh_def Let_def split: prod.splits sum.splits)

lemma cache_keys_result:
  assumes "cache_keys fetch now c = (Inr keys, c')"
  shows "(c' = c \<and> (\<exists>entry. jc_cached c = Some entry \<and> now - je_fetched entry < jc_ttl c \<and> keys = je_keys entry)) \<or>
    (jc_fetches c' = Suc (jc_fetches c) \<and> fst (fetch (jc_fetches c)) = Inr keys)"
  using assms by (auto simp: cache_keys_def split: option.splits if_splits dest!: cache_refresh_result)

lemma cache_keys_fetches:
  "cache_keys fetch now c = (r, c') \<Longrightarrow> jc_fetches c \<le> jc_fetches c' \<and> jc_fetches c' \<le> Suc (jc_fetches c)"
  by (auto simp: cache_keys_def split: option.splits if_splits dest!: cache_refresh_result)

text \<open>The refreshing check asks the key source at most twice and answers from keys that are current.\<close>

lemma verify_refreshing_fetches:
  "verify_refreshing lib fetch now secs v token c = (r, c') \<Longrightarrow> jc_fetches c' \<le> jc_fetches c + 2"
  by (auto simp: verify_refreshing_def split: prod.splits sum.splits identity_error.splits
      dest!: cache_refresh_result cache_keys_fetches)

lemma verify_refreshing_Inr:
  assumes "verify_refreshing lib fetch now secs v token c = (Inr claims, c')"
  obtains keys where
    "(\<exists>entry. jc_cached c = Some entry \<and> now - je_fetched entry < jc_ttl c \<and> keys = je_keys entry) \<or>
     fetched_between fetch c c' keys"
    "verifier_verify lib secs v token keys = Inr claims"
proof -
  obtain keys c1 where k: "cache_keys fetch now c = (Inr keys, c1)"
    using assms by (cases "cache_keys fetch now c"; cases "fst (cache_keys fetch now c)")
      (auto simp: verify_refreshing_def)
  show ?thesis
  proof (cases "verifier_verify lib secs v token keys = Inl UnknownKey")
    case True
    obtain keys2 where r: "cache_refresh fetch c1 = (Inr keys2, c')" "verifier_verify lib secs v token keys2 = Inr claims"
      using assms k True by (auto simp: verify_refreshing_def split: prod.splits sum.splits)
    have "fetched_between fetch c c' keys2"
      using cache_refresh_result [OF r(1)] cache_keys_fetches [OF k] unfolding fetched_between_def by (metis lessI)
    then show ?thesis using r(2) by (intro that) simp_all
  next
    case False
    then have v: "verifier_verify lib secs v token keys = Inr claims" "c' = c1"
      using assms k by (auto simp: verify_refreshing_def split: sum.splits identity_error.splits)
    show ?thesis
      using cache_keys_result [OF k] v(2) by (intro that [OF _ v(1)]) (auto simp: fetched_between_def)
  qed
qed

text \<open>Every provider yields a CI identity: no claim can set the kind, the runtime or the session.\<close>

lemma identify_is_ci:
  "wi_kind (identify p c) = Some Ci \<and> wi_sid (identify p c) = None \<and> wi_runtime (identify p c) = None \<and>
   wi_run_id (identify p c) = None"
  by (cases p) (simp_all add: github_def gitlab_def buildkite_def generic_def identity_default_def Let_def)

text \<open>A key the issuer has just published is found with one refresh.\<close>

lemma rotated_key_is_found:
  assumes "jwt_decode_header lib token = Inr header" "jh_alg header = RS256" "jh_kid header = Some kid"
    "jc_cached c = Some entry" "now - je_fetched entry < jc_ttl c" "jwt_find lib (je_keys entry) kid = None"
    "fetch (jc_fetches c) = (Inr keys, at)"
  shows "verify_refreshing lib fetch now secs v token c =
    (verifier_verify lib secs v token keys,
     c\<lparr>jc_fetches := Suc (jc_fetches c), jc_cached := Some \<lparr>je_keys = keys, je_fetched = at\<rparr>\<rparr>)"
proof -
  have "verifier_verify lib secs v token (je_keys entry) = Inl UnknownKey"
    using assms by (simp add: verifier_verify_def and_then_def map_err_def ok_or_def)
  then show ?thesis
    using assms by (simp add: verify_refreshing_def cache_keys_def cache_refresh_def Let_def)
qed


text \<open>A library that accepts one token under one published key.\<close>

definition sample_claims :: json where
  "sample_claims = JObject [(''repository_owner'', JString ''acme''), (''repository'', JString ''acme/widget'')]"

definition sample_jwt :: "(string list, string, string, unit) jwt" where
  "sample_jwt =
     \<lparr>jwt_decode_header = (\<lambda>t. if t = ''h.p.s'' then Inr \<lparr>jh_alg = RS256, jh_kid = Some ''k1''\<rparr> else Inl ''no header''),
      jwt_find = (\<lambda>keys kid. find_first (\<lambda>k. k = kid) keys),
      jwt_from_jwk = Inr,
      jwt_decode = (\<lambda>secs t k v. if t = ''h.p.s'' \<and> k = ''k1'' \<and> secs \<le> 100 then Inr sample_claims else Inl ''no''),
      jwt_encode = (\<lambda>_ _ _. Inl ''cannot sign''), jwt_payload = (\<lambda>_. None), jwt_unreadable = (\<lambda>_. ''no''),
      jwt_variant = json_as_str\<rparr>"

definition sample_oidc :: "string list oidc_verifier" where
  "sample_oidc = oidc_from_parts GitHubActions (verifier_new GITHUB_ACTIONS_ISSUER [''https://g''])"


end
