(* ===== verification/Credential.thy ===== *)
theory Credential
  imports Oidc_Identity
begin

text \<open>
  Platform credentials (\<^verbatim>\<open>skimasque-identity/src/credential.rs\<close>): the claims a credential carries,
  issuing and verifying them with a shared secret or with a key pair, and the unverified reading of
  the organisation. The token library is the \<open>jwt\<close> argument of theory \<^verbatim>\<open>Oidc_Identity\<close>; the clock
  readings are arguments, in seconds since the epoch, and lifetimes are in seconds.
\<close>

subsection \<open>Claims\<close>

definition CREDENTIAL_ISSUER :: string where
  "CREDENTIAL_ISSUER = ''urn:skimasque:gateway''"

record issued =
  is_token :: string
  is_expires_in :: nat

record credential_claims =
  cc_iss :: string
  cc_iat :: int
  cc_exp :: int
  cc_sub :: "string option"
  cc_org_id :: "string option"
  cc_identity :: workload_identity

text \<open>The derived serialisers: absent options are left out, the identity's fields are flattened.\<close>

definition opt_member :: "string \<Rightarrow> string option \<Rightarrow> (string \<times> json) list" where
  "opt_member name v = (case v of None \<Rightarrow> [] | Some s \<Rightarrow> [(name, JString s)])"

definition identity_members :: "workload_identity \<Rightarrow> (string \<times> json) list" where
  "identity_members i =
     opt_member ''organization'' (wi_organization i) @ opt_member ''repository'' (wi_repository i) @
     opt_member ''workflow'' (wi_workflow i) @ opt_member ''git_ref'' (wi_git_ref i) @
     opt_member ''environment'' (wi_environment i) @ opt_member ''actor'' (wi_actor i) @
     opt_member ''kind'' (map_option kind_as_str (wi_kind i)) @ opt_member ''run_id'' (wi_run_id i) @
     opt_member ''runtime'' (wi_runtime i) @ opt_member ''sid'' (wi_sid i)"

definition claim_members :: "credential_claims \<Rightarrow> (string \<times> json) list" where
  "claim_members c =
     [(''iss'', JString (cc_iss c)), (''iat'', JInt (cc_iat c)), (''exp'', JInt (cc_exp c))] @
       opt_member ''sub'' (cc_sub c) @ opt_member ''org_id'' (cc_org_id c) @ identity_members (cc_identity c)"

definition claims_json :: "credential_claims \<Rightarrow> json" where
  "claims_json c = JObject (claim_members c)"

text \<open>
  The derived readers: an optional field may be missing or null, a wrong type is an error, and so is a
  field that occurs twice. Other members are ignored.
\<close>

definition read_opt_string :: "(string \<times> json) list \<Rightarrow> string \<Rightarrow> string option option" where
  "read_opt_string ms name =
     (case map_of ms name of
        None \<Rightarrow> Some None
      | Some JNull \<Rightarrow> Some None
      | Some (JString s) \<Rightarrow> Some (Some s)
      | Some _ \<Rightarrow> None)"

definition read_string :: "(string \<times> json) list \<Rightarrow> string \<Rightarrow> string option" where
  "read_string ms name = Option.bind (map_of ms name) json_as_str"

definition read_i64 :: "(string \<times> json) list \<Rightarrow> string \<Rightarrow> int option" where
  "read_i64 ms name =
     (case map_of ms name of
        Some (JInt n) \<Rightarrow> if - (2 ^ 63) \<le> n \<and> n < 2 ^ 63 then Some n else None
      | _ \<Rightarrow> None)"

definition read_opt_kind ::
  "('j, 'w, 'k, 'e) jwt \<Rightarrow> (string \<times> json) list \<Rightarrow> workload_kind option option" where
  "read_opt_kind lib ms =
     (case map_of ms ''kind'' of
        None \<Rightarrow> Some None
      | Some JNull \<Rightarrow> Some None
      | Some v \<Rightarrow> map_option Some (Option.bind (jwt_variant lib v) kind_parse))"

definition claim_fields :: "string list" where
  "claim_fields = [''iss'', ''iat'', ''exp'', ''sub'', ''org_id'', ''organization'', ''repository'', ''workflow'',
     ''git_ref'', ''environment'', ''actor'', ''kind'', ''run_id'', ''runtime'', ''sid'']"

definition read_identity ::
  "('j, 'w, 'k, 'e) jwt \<Rightarrow> (string \<times> json) list \<Rightarrow> workload_identity option" where
  "read_identity lib ms =
     Option.bind (read_opt_string ms ''organization'') (\<lambda>organization.
     Option.bind (read_opt_string ms ''repository'') (\<lambda>repository.
     Option.bind (read_opt_string ms ''workflow'') (\<lambda>workflow.
     Option.bind (read_opt_string ms ''git_ref'') (\<lambda>git_ref.
     Option.bind (read_opt_string ms ''environment'') (\<lambda>environment.
     Option.bind (read_opt_string ms ''actor'') (\<lambda>actor.
     Option.bind (read_opt_kind lib ms) (\<lambda>kind.
     Option.bind (read_opt_string ms ''run_id'') (\<lambda>run_id.
     Option.bind (read_opt_string ms ''runtime'') (\<lambda>runtime.
     Option.bind (read_opt_string ms ''sid'') (\<lambda>sid.
       Some \<lparr>wi_organization = organization, wi_repository = repository, wi_workflow = workflow,
         wi_git_ref = git_ref, wi_environment = environment, wi_actor = actor, wi_kind = kind,
         wi_run_id = run_id, wi_runtime = runtime, wi_sid = sid\<rparr>))))))))))"

definition read_claims :: "('j, 'w, 'k, 'e) jwt \<Rightarrow> json \<Rightarrow> credential_claims option" where
  "read_claims lib payload =
     (case payload of
        JObject ms \<Rightarrow>
          if list_ex (\<lambda>name. 1 < length (filter (\<lambda>m. fst m = name) ms)) claim_fields then None
          else
            Option.bind (read_string ms ''iss'') (\<lambda>iss.
            Option.bind (read_i64 ms ''iat'') (\<lambda>iat.
            Option.bind (read_i64 ms ''exp'') (\<lambda>ex.
            Option.bind (read_opt_string ms ''sub'') (\<lambda>sub.
            Option.bind (read_opt_string ms ''org_id'') (\<lambda>org_id.
            Option.bind (read_identity lib ms) (\<lambda>identity.
              Some \<lparr>cc_iss = iss, cc_iat = iat, cc_exp = ex, cc_sub = sub, cc_org_id = org_id,
                cc_identity = identity\<rparr>))))))
      | _ \<Rightarrow> None)"

subsection \<open>Issuing and verifying\<close>

text \<open>Times are cast to \<^verbatim>\<open>i64\<close> and the expiry is their sum, both at 64 bits.\<close>

definition issue_claims ::
  "nat \<Rightarrow> nat \<Rightarrow> workload_identity \<Rightarrow> string option \<Rightarrow> string option \<Rightarrow> credential_claims" where
  "issue_claims now ttl identity subject org_id =
     \<lparr>cc_iss = CREDENTIAL_ISSUER, cc_iat = sint (of_nat now :: 64 word),
      cc_exp = sint (of_nat now + of_nat ttl :: 64 word), cc_sub = subject, cc_org_id = org_id,
      cc_identity = identity\<rparr>"

definition credential_encode ::
  "('j, 'w, 'k, 'e) jwt \<Rightarrow> nat \<Rightarrow> algorithm \<Rightarrow> 'e \<Rightarrow> nat \<Rightarrow> workload_identity \<Rightarrow> string option \<Rightarrow>
     string option \<Rightarrow> identity_error + issued" where
  "credential_encode lib now alg key ttl identity subject org_id =
     and_then
       (map_err (\<lambda>e. Verification (''issuing a credential: '' @ e))
         (jwt_encode lib alg (claims_json (issue_claims now ttl identity subject org_id)) key))
       (\<lambda>token. Inr \<lparr>is_token = token, is_expires_in = ttl\<rparr>)"

definition credential_validation :: "algorithm \<Rightarrow> validation" where
  "credential_validation alg =
     (validation_new alg)\<lparr>va_iss := Some [CREDENTIAL_ISSUER], va_leeway := 30, va_required := [''exp'', ''iss'']\<rparr>"

definition decode_claims ::
  "('j, 'w, 'k, 'e) jwt \<Rightarrow> nat \<Rightarrow> algorithm \<Rightarrow> 'k \<Rightarrow> string \<Rightarrow> identity_error + credential_claims" where
  "decode_claims lib now alg key token =
     (case jwt_decode lib now token key (credential_validation alg) of
        Inl e \<Rightarrow> Inl (Verification e)
      | Inr payload \<Rightarrow>
          (case read_claims lib payload of
             Some c \<Rightarrow> Inr c
           | None \<Rightarrow> Inl (Verification (jwt_unreadable lib payload))))"

definition credential_decode ::
  "('j, 'w, 'k, 'e) jwt \<Rightarrow> nat \<Rightarrow> algorithm \<Rightarrow> 'k \<Rightarrow> string \<Rightarrow> identity_error + workload_identity" where
  "credential_decode lib now alg key token =
     and_then (decode_claims lib now alg key token) (\<lambda>c. Inr (cc_identity c))"

text \<open>The shared-secret issuer.\<close>

record ('k, 'e) credential_issuer =
  ci_encoding :: 'e
  ci_decoding :: 'k
  ci_ttl :: nat

definition issuer_issue_for ::
  "('j, 'w, 'k, 'e) jwt \<Rightarrow> nat \<Rightarrow> ('k, 'e) credential_issuer \<Rightarrow> workload_identity \<Rightarrow> string option \<Rightarrow> nat \<Rightarrow>
     identity_error + issued" where
  "issuer_issue_for lib now issuer identity subject ttl =
     credential_encode lib now HS256 (ci_encoding issuer) ttl identity subject None"

definition issuer_issue ::
  "('j, 'w, 'k, 'e) jwt \<Rightarrow> nat \<Rightarrow> ('k, 'e) credential_issuer \<Rightarrow> workload_identity \<Rightarrow> string option \<Rightarrow>
     identity_error + issued" where
  "issuer_issue lib now issuer identity subject = issuer_issue_for lib now issuer identity subject (ci_ttl issuer)"

definition issuer_verify ::
  "('j, 'w, 'k, 'e) jwt \<Rightarrow> nat \<Rightarrow> ('k, 'e) credential_issuer \<Rightarrow> string \<Rightarrow> identity_error + workload_identity" where
  "issuer_verify lib now issuer token = credential_decode lib now HS256 (ci_decoding issuer) token"

text \<open>The key-pair signer and the verifier with one or several public keys.\<close>

record 'e credential_signer =
  cs_encoding :: 'e
  cs_ttl :: nat

definition signer_issue ::
  "('j, 'w, 'k, 'e) jwt \<Rightarrow> nat \<Rightarrow> 'e credential_signer \<Rightarrow> workload_identity \<Rightarrow> string option \<Rightarrow>
     identity_error + issued" where
  "signer_issue lib now signer identity subject =
     credential_encode lib now EdDSA (cs_encoding signer) (cs_ttl signer) identity subject None"

definition issue_for_org ::
  "('j, 'w, 'k, 'e) jwt \<Rightarrow> nat \<Rightarrow> 'e credential_signer \<Rightarrow> workload_identity \<Rightarrow> string option \<Rightarrow> string \<Rightarrow>
     identity_error + issued" where
  "issue_for_org lib now signer identity subject org =
     (let org_id = str_trim org
      in if org_id = [] then Inl (Verification ''issuing an org-scoped credential needs an org id'')
         else credential_encode lib now EdDSA (cs_encoding signer) (cs_ttl signer) identity subject (Some org_id))"

fun try_keys :: "('k \<Rightarrow> 'err + 'a) \<Rightarrow> 'k list \<Rightarrow> 'err \<Rightarrow> 'err + 'a" where
  "try_keys f [] latest = Inl latest"
| "try_keys f (k # ks) latest = (case f k of Inr x \<Rightarrow> Inr x | Inl e \<Rightarrow> try_keys f ks e)"

definition credential_verify ::
  "('j, 'w, 'k, 'e) jwt \<Rightarrow> nat \<Rightarrow> 'k list \<Rightarrow> string \<Rightarrow> identity_error + workload_identity" where
  "credential_verify lib now keys token =
     try_keys (\<lambda>k. credential_decode lib now EdDSA k token) keys (Verification ''no signing key configured'')"

record verified_credential =
  vc_identity :: workload_identity
  vc_org_id :: "string option"

definition credential_verify_claims ::
  "('j, 'w, 'k, 'e) jwt \<Rightarrow> nat \<Rightarrow> 'k list \<Rightarrow> string \<Rightarrow> identity_error + verified_credential" where
  "credential_verify_claims lib now keys token =
     try_keys (\<lambda>k. and_then (decode_claims lib now EdDSA k token)
        (\<lambda>c. Inr \<lparr>vc_identity = cc_identity c, vc_org_id = cc_org_id c\<rparr>))
       keys (Verification ''no signing key configured'')"

text \<open>The texts of the two scope errors are arguments of the printing of strings, \<open>quote\<close>.\<close>

definition verify_for_org ::
  "('j, 'w, 'k, 'e) jwt \<Rightarrow> (string \<Rightarrow> string) \<Rightarrow> nat \<Rightarrow> 'k list \<Rightarrow> string \<Rightarrow> string \<Rightarrow>
     identity_error + workload_identity" where
  "verify_for_org lib quote now keys token expected_org =
     and_then (credential_verify_claims lib now keys token) (\<lambda>verified.
       case vc_org_id verified of
         Some org \<Rightarrow>
           if org = expected_org then Inr (vc_identity verified)
           else Inl (Verification (''credential is scoped to '' @ quote org @ '', not '' @ quote expected_org))
       | None \<Rightarrow> Inl (Verification ''credential is not scoped to an organisation''))"

subsection \<open>Reading without verifying\<close>

text \<open>A one-field record is also read from a one-element array.\<close>

definition peek_org_id :: "('j, 'w, 'k, 'e) jwt \<Rightarrow> string \<Rightarrow> string option" where
  "peek_org_id lib token =
     (case token_payload lib token of
        Some (JObject ms) \<Rightarrow>
          if 1 < length (filter (\<lambda>m. fst m = ''org_id'') ms) then None
          else Option.bind (read_opt_string ms ''org_id'') id
      | Some (JArray [JString s]) \<Rightarrow> Some s
      | _ \<Rightarrow> None)"

definition peek_identity ::
  "('j, 'w, 'k, 'e) jwt \<Rightarrow> (string \<Rightarrow> string) \<Rightarrow> string \<Rightarrow> identity_error + workload_identity" where
  "peek_identity lib unreadable_segment token =
     (case split_on (CHR ''.'') token of
        _ # payload # _ \<Rightarrow>
          (case jwt_payload lib payload of
             None \<Rightarrow> Inl (Malformed (unreadable_segment payload))
           | Some p \<Rightarrow>
               (case read_claims lib p of
                  Some c \<Rightarrow> Inr (cc_identity c)
                | None \<Rightarrow> Inl (Malformed (jwt_unreadable lib p))))
      | _ \<Rightarrow> Inl (Malformed ''not a JWT''))"

subsection \<open>Serialised claims read back\<close>

lemma map_of_opt_member:
  "map_of (opt_member n v @ rest) m =
     (if m = n \<and> v \<noteq> None then map_option JString v else map_of rest m)"
  by (auto simp: opt_member_def split: option.split)

lemma map_of_opt_member_last:
  "map_of (opt_member n v) m = (if m = n then map_option JString v else None)"
  by (simp add: opt_member_def split: option.split)

lemma count_opt_member:
  "length (filter (\<lambda>m. fst m = name) (opt_member n v @ rest)) =
     (if n = name \<and> v \<noteq> None then 1 else 0) + length (filter (\<lambda>m. fst m = name) rest)"
  by (simp add: opt_member_def split: option.split)

lemma count_opt_member_last:
  "length (filter (\<lambda>m. fst m = name) (opt_member n v)) = (if n = name \<and> v \<noteq> None then 1 else 0)"
  by (simp add: opt_member_def split: option.split)

lemmas member_simps = map_of_opt_member map_of_opt_member_last count_opt_member count_opt_member_last

lemma kind_parse_as_str [simp]: "kind_parse (kind_as_str k) = Some k"
  by (cases k) (simp_all add: kind_parse_def kind_as_str_def)

lemma read_opt_string_member:
  "map_of ms name = map_option JString v \<Longrightarrow> read_opt_string ms name = Some v"
  by (cases v) (simp_all add: read_opt_string_def)

definition jwt_names :: "('j, 'w, 'k, 'e) jwt \<Rightarrow> bool" where
  "jwt_names lib \<longleftrightarrow> (\<forall>s. jwt_variant lib (JString s) = Some s)"

lemma read_opt_kind_member:
  "jwt_names lib \<Longrightarrow> map_of ms ''kind'' = map_option (\<lambda>k. JString (kind_as_str k)) v \<Longrightarrow>
     read_opt_kind lib ms = Some v"
  by (cases v) (simp_all add: read_opt_kind_def jwt_names_def)

definition in_i64 :: "int \<Rightarrow> bool" where
  "in_i64 n \<longleftrightarrow> - (2 ^ 63) \<le> n \<and> n < 2 ^ 63"

lemma claims_json_members:
  shows "map_of (claim_members c) ''iss'' = Some (JString (cc_iss c))" "map_of (claim_members c) ''iat'' = Some (JInt (cc_iat c))"
    "map_of (claim_members c) ''exp'' = Some (JInt (cc_exp c))" "map_of (claim_members c) ''sub'' = map_option JString (cc_sub c)"
    "map_of (claim_members c) ''org_id'' = map_option JString (cc_org_id c)" "map_of (claim_members c) ''aud'' = None"
    "map_of (claim_members c) ''organization'' = map_option JString (wi_organization (cc_identity c))"
    "map_of (claim_members c) ''repository'' = map_option JString (wi_repository (cc_identity c))"
    "map_of (claim_members c) ''workflow'' = map_option JString (wi_workflow (cc_identity c))"
    "map_of (claim_members c) ''git_ref'' = map_option JString (wi_git_ref (cc_identity c))"
    "map_of (claim_members c) ''environment'' = map_option JString (wi_environment (cc_identity c))"
    "map_of (claim_members c) ''actor'' = map_option JString (wi_actor (cc_identity c))"
    "map_of (claim_members c) ''kind'' = map_option (\<lambda>k. JString (kind_as_str k)) (wi_kind (cc_identity c))"
    "map_of (claim_members c) ''run_id'' = map_option JString (wi_run_id (cc_identity c))"
    "map_of (claim_members c) ''runtime'' = map_option JString (wi_runtime (cc_identity c))"
    "map_of (claim_members c) ''sid'' = map_option JString (wi_sid (cc_identity c))"
  unfolding claim_members_def identity_members_def
  by (simp_all add: member_simps option.map_comp comp_def del: map_of_append)

lemma claims_json_distinct:
  "\<not> list_ex (\<lambda>name. 1 < length (filter (\<lambda>m. fst m = name) (claim_members c))) claim_fields"
  unfolding claim_members_def identity_members_def claim_fields_def
  by (simp add: member_simps del: filter_append)

lemmas claims_json_opts = claims_json_members(4,5,7,8,9,10,11,12,14,15,16) [THEN read_opt_string_member]

lemma read_identity_json:
  "jwt_names lib \<Longrightarrow> read_identity lib (claim_members c) = Some (cc_identity c)"
  by (simp add: read_identity_def claims_json_opts read_opt_kind_member claims_json_members(13))

lemma read_claims_json:
  assumes "jwt_names lib" "in_i64 (cc_iat c)" "in_i64 (cc_exp c)"
  shows "read_claims lib (claims_json c) = Some c"
  using assms
  by (simp add: read_claims_def claims_json_def claims_json_distinct [simplified] read_identity_json read_string_def
      read_i64_def claims_json_members(1-3) claims_json_opts in_i64_def)

subsection \<open>What a verified credential rests on\<close>

lemma try_keys_Inr:
  assumes "try_keys f keys latest = Inr x"
  obtains before k after where "keys = before @ k # after" "\<forall>b \<in> set before. \<exists>e. f b = Inl e" "f k = Inr x"
proof -
  have "\<exists>before k after. keys = before @ k # after \<and> (\<forall>b \<in> set before. \<exists>e. f b = Inl e) \<and> f k = Inr x"
    using assms
  proof (induction keys arbitrary: latest)
    case (Cons a as)
    show ?case
    proof (cases "f a")
      case (Inl e)
      with Cons.prems have "try_keys f as e = Inr x" by simp
      then obtain before k after where "as = before @ k # after" "\<forall>b \<in> set before. \<exists>e. f b = Inl e" "f k = Inr x"
        using Cons.IH by blast
      then have "a # as = (a # before) @ k # after \<and> (\<forall>b \<in> set (a # before). \<exists>e. f b = Inl e) \<and> f k = Inr x"
        using Inl by simp
      then show ?thesis by blast
    next
      case (Inr y)
      with Cons.prems have "a # as = [] @ a # as \<and> f a = Inr x" by simp
      then show ?thesis by fastforce
    qed
  qed simp
  then show ?thesis using that by blast
qed

lemma try_keys_reaches:
  "\<forall>b \<in> set before. \<exists>e. f b = Inl e \<Longrightarrow> f k = Inr x \<Longrightarrow> try_keys f (before @ k # after) latest = Inr x"
  by (induction before arbitrary: latest) auto

lemma verify_for_org_Inr:
  assumes "verify_for_org lib quote now keys token org = Inr identity"
  obtains k c where "k \<in> set keys" "decode_claims lib now EdDSA k token = Inr c" "cc_org_id c = Some org"
    "cc_identity c = identity"
proof -
  obtain v where v: "credential_verify_claims lib now keys token = Inr v" "vc_org_id v = Some org"
    "vc_identity v = identity"
    using assms by (auto simp: verify_for_org_def and_then_def split: sum.splits option.splits if_splits)
  obtain before k after where k: "keys = before @ k # after"
    "and_then (decode_claims lib now EdDSA k token) (\<lambda>c. Inr \<lparr>vc_identity = cc_identity c, vc_org_id = cc_org_id c\<rparr>) = Inr v"
    using v(1) unfolding credential_verify_claims_def by (rule try_keys_Inr)
  obtain c where c: "decode_claims lib now EdDSA k token = Inr c" "v = \<lparr>vc_identity = cc_identity c, vc_org_id = cc_org_id c\<rparr>"
    using k(2) by (auto simp: and_then_def split: sum.splits)
  show ?thesis using k(1) c v(2,3) by (intro that [of k c]) simp_all
qed

subsection \<open>Round trip\<close>

text \<open>
  What the code relies on of the token library. The checks its documentation lists for a payload: the
  required claims are there, the expiry has not passed the leeway, the issuer is one of those asked
  for, and no audience is claimed that was not asked for. A matching pair of keys decodes what it
  encoded, as long as those checks pass, and a token's middle segment reads as its payload.
\<close>

definition claims_valid :: "nat \<Rightarrow> validation \<Rightarrow> json \<Rightarrow> bool" where
  "claims_valid now v payload =
     (case payload of
        JObject ms \<Rightarrow>
          list_all (\<lambda>name. map_of ms name \<noteq> None) (va_required v) \<and>
          (case map_of ms ''exp'' of Some (JInt e) \<Rightarrow> 0 \<le> e \<and> int now \<le> e + uint (va_leeway v) | _ \<Rightarrow> False) \<and>
          (case va_iss v of
             None \<Rightarrow> True
           | Some issuers \<Rightarrow> (case map_of ms ''iss'' of Some (JString s) \<Rightarrow> s \<in> set issuers | _ \<Rightarrow> False)) \<and>
          map_of ms ''aud'' = None
      | _ \<Rightarrow> False)"

definition jwt_pair :: "('j, 'w, 'k, 'e) jwt \<Rightarrow> algorithm \<Rightarrow> 'e \<Rightarrow> 'k \<Rightarrow> bool" where
  "jwt_pair lib alg ek dk \<longleftrightarrow>
     (\<forall>payload token. jwt_encode lib alg payload ek = Inr token \<longrightarrow>
        token_payload lib token = Some payload \<and>
        (\<forall>now v. va_alg v = alg \<and> claims_valid now v payload \<longrightarrow> jwt_decode lib now token dk v = Inr payload))"

lemma issue_claims_times:
  assumes "t0 + ttl < 2 ^ 63"
  shows "cc_iat (issue_claims t0 ttl i s g) = int t0" "cc_exp (issue_claims t0 ttl i s g) = int (t0 + ttl)"
proof -
  have s: "sint (of_nat n :: 64 word) = int n" if "n < 2 ^ 63" for n
    using that by (simp add: signed_of_nat signed_take_bit_int_eq_self)
  show "cc_iat (issue_claims t0 ttl i s g) = int t0" "cc_exp (issue_claims t0 ttl i s g) = int (t0 + ttl)"
    using s [of t0] s [of "t0 + ttl"] assms by (simp_all add: issue_claims_def)
qed

lemma issued_claims_valid:
  assumes "t0 + ttl < 2 ^ 63" "now \<le> t0 + ttl + 30"
  shows "claims_valid now (credential_validation alg) (claims_json (issue_claims t0 ttl i s g))"
  using assms
  by (simp add: claims_valid_def claims_json_def claims_json_members(1,3,6) issue_claims_times
      credential_validation_def validation_new_def) (simp add: issue_claims_def)

lemma minted_decodes:
  assumes "jwt_pair lib alg ek k" "jwt_names lib" "t0 + ttl < 2 ^ 63" "now \<le> t0 + ttl + 30"
    and "jwt_encode lib alg (claims_json (issue_claims t0 ttl identity subject org)) ek = Inr token"
  shows "decode_claims lib now alg k token = Inr (issue_claims t0 ttl identity subject org)"
    "token_payload lib token = Some (claims_json (issue_claims t0 ttl identity subject org))"
proof -
  let ?c = "issue_claims t0 ttl identity subject org"
  have pair: "token_payload lib token = Some (claims_json ?c)"
    "\<forall>now v. va_alg v = alg \<and> claims_valid now v (claims_json ?c) \<longrightarrow>
       jwt_decode lib now token k v = Inr (claims_json ?c)"
    using assms(1,5) unfolding jwt_pair_def by blast+
  have "va_alg (credential_validation alg) = alg" by (simp add: credential_validation_def validation_new_def)
  then have "jwt_decode lib now token k (credential_validation alg) = Inr (claims_json ?c)"
    using pair(2) issued_claims_valid [OF assms(3,4)] by blast
  moreover have "read_claims lib (claims_json ?c) = Some ?c"
    using assms(3) by (intro read_claims_json [OF assms(2)]) (simp_all add: issue_claims_times in_i64_def)
  ultimately show "decode_claims lib now alg k token = Inr ?c" by (simp add: decode_claims_def)
  show "token_payload lib token = Some (claims_json ?c)" by (rule pair(1))
qed

lemma peek_org_id_claims:
  "token_payload lib token = Some (claims_json c) \<Longrightarrow> peek_org_id lib token = cc_org_id c"
  using claims_json_distinct [of c]
  by (simp add: peek_org_id_def claims_json_def claims_json_opts claim_fields_def)

text \<open>
  C17. A credential minted for an organisation is that organisation's for its whole lifetime. Issued at
  \<open>t0\<close> for a trimmed, non-empty organisation, its unverified reading names the organisation, and until
  thirty seconds past its lifetime a verifier that holds the matching public key, after any keys that
  reject the token, recovers exactly the identity it was minted for; for every other organisation it
  is refused. The key pair and the library's documented checks are the hypotheses.
\<close>

theorem minted_credential_verifies:
  assumes "jwt_pair lib EdDSA (cs_encoding signer) k" "jwt_names lib"
    and "issue_for_org lib t0 signer identity subject org = Inr cred"
    and "t0 + cs_ttl signer < 2 ^ 63" "now \<le> t0 + cs_ttl signer + 30"
    and "\<forall>b \<in> set before. \<exists>e. jwt_decode lib now (is_token cred) b (credential_validation EdDSA) = Inl e"
  shows "peek_org_id lib (is_token cred) = Some (str_trim org) \<and>
    verify_for_org lib quote now (before @ k # after) (is_token cred) (str_trim org) = Inr identity \<and>
    (\<forall>other. other \<noteq> str_trim org \<longrightarrow>
       (\<exists>e. verify_for_org lib quote now (before @ k # after) (is_token cred) other = Inl e))"
proof -
  let ?c = "issue_claims t0 (cs_ttl signer) identity subject (Some (str_trim org))"
  have enc: "jwt_encode lib EdDSA (claims_json ?c) (cs_encoding signer) = Inr (is_token cred)"
    using assms(3) by (auto simp: issue_for_org_def credential_encode_def and_then_def map_err_def Let_def
        split: if_splits sum.splits)
  note d = minted_decodes [OF assms(1,2,4,5) enc]
  have org: "cc_org_id ?c = Some (str_trim org)" "cc_identity ?c = identity" by (simp_all add: issue_claims_def)
  have "\<forall>b \<in> set before. \<exists>e. decode_claims lib now EdDSA b (is_token cred) = Inl e"
    using assms(6) by (fastforce simp: decode_claims_def)
  then have "\<forall>b \<in> set before. \<exists>e. and_then (decode_claims lib now EdDSA b (is_token cred))
      (\<lambda>c. Inr \<lparr>vc_identity = cc_identity c, vc_org_id = cc_org_id c\<rparr>) = Inl e"
    by (fastforce simp: and_then_def)
  then have "credential_verify_claims lib now (before @ k # after) (is_token cred) =
      Inr \<lparr>vc_identity = identity, vc_org_id = Some (str_trim org)\<rparr>"
    unfolding credential_verify_claims_def
    by (rule try_keys_reaches) (simp add: d(1) org and_then_def)
  then show ?thesis
    using peek_org_id_claims [OF d(2)] org by (auto simp: verify_for_org_def and_then_def)
qed

text \<open>A library whose one key pair signs the sample credential, and an older key that rejects it.\<close>

definition sample_identity :: workload_identity where
  "sample_identity = identity_default\<lparr>wi_organization := Some ''acme'', wi_kind := Some Agent, wi_sid := Some ''s1''\<rparr>"

definition sample_payload :: json where
  "sample_payload = claims_json (issue_claims 1000 60 sample_identity (Some ''sub'') (Some ''org_1''))"

definition sample_signer :: "(unit, unit, nat, string) jwt" where
  "sample_signer =
     \<lparr>jwt_decode_header = (\<lambda>_. Inl ''none''), jwt_find = (\<lambda>_ _. None), jwt_from_jwk = (\<lambda>_. Inl ''none''),
      jwt_decode = (\<lambda>now t k v. if t = ''h.p.s'' \<and> k = 1 \<and> claims_valid now v sample_payload then Inr sample_payload
        else Inl ''InvalidSignature''),
      jwt_encode = (\<lambda>alg p k. if alg = EdDSA \<and> p = sample_payload \<and> k = ''sk'' then Inr ''h.p.s'' else Inl ''none''),
      jwt_payload = (\<lambda>s. if s = ''p'' then Some sample_payload else None), jwt_unreadable = (\<lambda>_. ''none''),
      jwt_variant = json_as_str\<rparr>"

lemma sample_signer_laws: "jwt_pair sample_signer EdDSA ''sk'' 1" "jwt_names sample_signer"
  by (auto simp: jwt_pair_def jwt_names_def sample_signer_def token_payload_def split: if_splits)

theorem minted_credential_verifies_witness:
  "\<exists>cred. issue_for_org sample_signer 1000 \<lparr>cs_encoding = ''sk'', cs_ttl = 60\<rparr> sample_identity (Some ''sub'') '' org_1''
      = Inr cred \<and>
    verify_for_org sample_signer id 1089 ([0] @ 1 # []) (is_token cred) (str_trim '' org_1'') = Inr sample_identity"
proof -
  have t: "str_trim '' org_1'' = ''org_1''" by code_simp
  have i: "issue_for_org sample_signer 1000 \<lparr>cs_encoding = ''sk'', cs_ttl = 60\<rparr> sample_identity (Some ''sub'') '' org_1''
      = Inr \<lparr>is_token = ''h.p.s'', is_expires_in = 60\<rparr>"
    by (simp add: issue_for_org_def t credential_encode_def sample_signer_def sample_payload_def and_then_def map_err_def)
  have r: "\<forall>b \<in> set [0 :: nat]. \<exists>e. jwt_decode sample_signer 1089
      (is_token \<lparr>is_token = ''h.p.s'', is_expires_in = 60\<rparr>) b (credential_validation EdDSA) = Inl e"
    by (simp add: sample_signer_def)
  have "verify_for_org sample_signer id 1089 ([0] @ 1 # [])
      (is_token \<lparr>is_token = ''h.p.s'', is_expires_in = 60\<rparr>) (str_trim '' org_1'') = Inr sample_identity"
    using minted_credential_verifies [OF _ _ i _ _ r, where k = 1 and quote = id and after = "[]"] sample_signer_laws
    by simp
  then show ?thesis using i by blast
qed

end
