(* ===== verification/Platform_Tenants.thy ===== *)
theory Platform_Tenants
  imports Credential Gateway_Safety Server_Request Policy_Parse
begin

text \<open>
  The tenants of a platform gateway: the messages that describe them
  (\<^verbatim>\<open>skimasque-protocol/src/platform.rs\<close> and the signing key of its \<^verbatim>\<open>lib.rs\<close>), applying a list
  from the control plane, and checking a tunnel's credential with its organisation's own keys
  (\<^verbatim>\<open>skimasque-cli/src/platform.rs\<close>). The document readers, base64, the key
  constructor and Unicode lowercasing are the fields of an environment.
\<close>

subsection \<open>The tenant list\<close>

record signing_key =
  sk_org_id :: string
  sk_algorithm :: string
  sk_public_key_b64 :: string
  sk_previous_public_key_b64 :: "string option"

record policy_document =
  pd_name :: string
  pd_text :: string

record tenant_policy =
  tp_version :: u64
  tp_documents :: "policy_document list"

record wire_tenant =
  wt_org_id :: string
  wt_slug :: string
  wt_owners :: "string list"
  wt_owner_ids :: "(string \<times> u64) list"
  wt_policy :: "tenant_policy option"
  wt_signing_key :: signing_key

record tenant_list =
  tls_version :: u64
  tls_tenants :: "wire_tenant list"

record ('f, 'k) platform_env =
  pe_floats :: "'f float_ops"
  pe_toml :: "string \<Rightarrow> parse_error + raw_policy"
  pe_yaml :: "string \<Rightarrow> parse_error + yaml_doc"
  pe_base64 :: "string \<Rightarrow> string + bytes"
  pe_ed_key :: "bytes \<Rightarrow> 'k"
  pe_lower :: "string \<Rightarrow> string"

definition all_public_key_bytes :: "(string \<Rightarrow> string + bytes) \<Rightarrow> signing_key \<Rightarrow> string + bytes list" where
  "all_public_key_bytes base64 key =
     and_then (base64 (sk_public_key_b64 key)) (\<lambda>current.
       case sk_previous_public_key_b64 key of
         None \<Rightarrow> Inr [current]
       | Some prev \<Rightarrow> and_then (base64 prev) (\<lambda>p. Inr [current, p]))"

fun dedup_loop :: "string list \<Rightarrow> string list \<Rightarrow> wire_tenant list \<Rightarrow> wire_tenant list" where
  "dedup_loop orgs slugs [] = []"
| "dedup_loop orgs slugs (t # ts) =
     (if str_trim (wt_org_id t) = [] then dedup_loop orgs slugs ts
      else if wt_org_id t \<in> set orgs then dedup_loop orgs slugs ts
      else if wt_slug t \<in> set slugs then dedup_loop orgs slugs ts
      else t # dedup_loop (wt_org_id t # orgs) (wt_slug t # slugs) ts)"

definition dedup :: "wire_tenant list \<Rightarrow> wire_tenant list" where
  "dedup ts = dedup_loop [] [] ts"

definition verifier_for :: "('f, 'k) platform_env \<Rightarrow> wire_tenant \<Rightarrow> 'k list" where
  "verifier_for env t =
     (let key = wt_signing_key t
      in if \<not> eq_ignore_ascii_case (sk_algorithm key) ''ed25519'' then []
         else (case all_public_key_bytes (pe_base64 env) key of
                 Inr keys \<Rightarrow> map (pe_ed_key env) keys
               | Inl _ \<Rightarrow> []))"

definition policy_for :: "('f, 'k) platform_env \<Rightarrow> wire_tenant \<Rightarrow> policy_set" where
  "policy_for env t =
     (case wt_policy t of
        None \<Rightarrow> []
      | Some policy \<Rightarrow>
          (case from_documents (pe_floats env) (pe_toml env) (pe_yaml env)
                  (map (\<lambda>d. (pd_name d, pd_text d)) (tp_documents policy)) of
             Inr ps \<Rightarrow> ps
           | Inl _ \<Rightarrow> []))"

definition normalize_owner :: "string \<Rightarrow> string" where
  "normalize_owner owner = to_ascii_lowercase (str_trim owner)"

definition spec_for :: "('f, 'k) platform_env \<Rightarrow> wire_tenant \<Rightarrow> tenant_spec" where
  "spec_for env t =
     \<lparr>ts_org_id = wt_org_id t, ts_slug = wt_slug t, ts_owners = map normalize_owner (wt_owners t),
      ts_owner_ids = wt_owner_ids t, ts_policy = policy_for env t\<rparr>"

record 'k platform_tenants =
  pt_table :: tenant_snapshot
  pt_keys :: "string \<rightharpoonup> 'k list"

definition platform_tenants_new :: "'k platform_tenants" where
  "platform_tenants_new = \<lparr>pt_table = snapshot_default, pt_keys = Map.empty\<rparr>"

text \<open>Replacing the tenants is two publications, keys first, that another task can observe separately.\<close>

definition tenant_keys :: "('f, 'k) platform_env \<Rightarrow> tenant_list \<Rightarrow> string \<rightharpoonup> 'k list" where
  "tenant_keys env list = map_of (rev (map (\<lambda>t. (wt_org_id t, verifier_for env t)) (dedup (tls_tenants list))))"

definition tenant_table :: "('f, 'k) platform_env \<Rightarrow> tenant_list \<Rightarrow> tenant_snapshot" where
  "tenant_table env list = table_store (pe_lower env) (tls_version list) (map (spec_for env) (dedup (tls_tenants list)))"

definition apply_keys :: "('f, 'k) platform_env \<Rightarrow> tenant_list \<Rightarrow> 'k platform_tenants \<Rightarrow> 'k platform_tenants" where
  "apply_keys env list p = p\<lparr>pt_keys := tenant_keys env list\<rparr>"

definition apply_table :: "('f, 'k) platform_env \<Rightarrow> tenant_list \<Rightarrow> 'k platform_tenants \<Rightarrow> 'k platform_tenants" where
  "apply_table env list p = p\<lparr>pt_table := tenant_table env list\<rparr>"

definition apply_tenants :: "('f, 'k) platform_env \<Rightarrow> tenant_list \<Rightarrow> 'k platform_tenants \<Rightarrow> 'k platform_tenants" where
  "apply_tenants env list p = apply_table env list (apply_keys env list p)"

text \<open>The verifier of an organisation, looked up when a credential of it is checked.\<close>

definition tenant_verifier ::
  "('j, 'w, 'k, 'e) jwt \<Rightarrow> (string \<Rightarrow> string) \<Rightarrow> nat \<Rightarrow> (string \<rightharpoonup> 'k list) \<Rightarrow> string \<Rightarrow>
     (string \<Rightarrow> string \<Rightarrow> identity_error + workload_identity) option" where
  "tenant_verifier lib quote now keys org = map_option (\<lambda>ks. verify_for_org lib quote now ks) (keys org)"

subsection \<open>What an applied list serves\<close>

lemma dedup_loop_facts:
  "set (dedup_loop orgs slugs ts) \<subseteq> set ts \<and> distinct (map wt_org_id (dedup_loop orgs slugs ts)) \<and>
   distinct (map wt_slug (dedup_loop orgs slugs ts)) \<and>
   (\<forall>t \<in> set (dedup_loop orgs slugs ts). wt_org_id t \<notin> set orgs \<and> wt_slug t \<notin> set slugs \<and>
      str_trim (wt_org_id t) \<noteq> [])"
proof (induction orgs slugs ts rule: dedup_loop.induct)
  case (2 orgs slugs t ts)
  show ?case
  proof (cases "str_trim (wt_org_id t) = [] \<or> wt_org_id t \<in> set orgs \<or> wt_slug t \<in> set slugs")
    case True
    then have "dedup_loop orgs slugs (t # ts) = dedup_loop orgs slugs ts" by auto
    then show ?thesis using True 2(1,2,3) by (smt (verit) list.set_intros(2) subset_iff)
  next
    case False
    let ?rest = "dedup_loop (wt_org_id t # orgs) (wt_slug t # slugs) ts"
    have d: "dedup_loop orgs slugs (t # ts) = t # ?rest" using False by simp
    have ih: "set ?rest \<subseteq> set ts" "distinct (map wt_org_id ?rest)" "distinct (map wt_slug ?rest)"
      "\<And>r. r \<in> set ?rest \<Longrightarrow> wt_org_id r \<noteq> wt_org_id t \<and> wt_org_id r \<notin> set orgs \<and>
         wt_slug r \<noteq> wt_slug t \<and> wt_slug r \<notin> set slugs \<and> str_trim (wt_org_id r) \<noteq> []"
      using 2(4) False by simp_all
    have new: "wt_org_id t \<notin> wt_org_id ` set ?rest" "wt_slug t \<notin> wt_slug ` set ?rest"
      using ih(4) by (metis imageE)+
    show ?thesis
      unfolding d using ih new False by (simp only: list.set list.map distinct.simps set_map) blast
  qed
qed simp

lemmas dedup_facts = dedup_loop_facts [of "[]" "[]", folded dedup_def]

lemma dedup_unique:
  "a \<in> set (dedup ts) \<Longrightarrow> b \<in> set (dedup ts) \<Longrightarrow> wt_org_id a = wt_org_id b \<Longrightarrow> a = b"
  using dedup_facts by (metis distinct_map inj_onD)

lemma tenant_keys_iff:
  "tenant_keys env l org = Some ks \<longleftrightarrow>
     (\<exists>e \<in> set (dedup (tls_tenants l)). wt_org_id e = org \<and> ks = verifier_for env e)"
proof -
  have "distinct (map fst (rev (map (\<lambda>t. (wt_org_id t, verifier_for env t)) (dedup (tls_tenants l)))))"
    using dedup_facts by (simp add: rev_map [symmetric] comp_def)
  then show ?thesis unfolding tenant_keys_def by (subst map_of_eq_Some_iff) auto
qed

lemma spec_for_simps [simp]:
  "ts_org_id (spec_for env e) = wt_org_id e" "ts_slug (spec_for env e) = wt_slug e"
  "ts_policy (spec_for env e) = policy_for env e"
  by (simp_all add: spec_for_def)

lemma tenant_table_serves:
  assumes "e \<in> set (dedup (tls_tenants l))"
  shows "resolve_org (tenant_table env l) (wt_org_id e) = Some (tenant_new (pe_lower env) (spec_for env e))"
proof -
  obtain us vs where d: "dedup (tls_tenants l) = us @ e # vs" using assms by (meson split_list)
  have "\<forall>u \<in> set us. wt_org_id u \<noteq> wt_org_id e \<and> wt_slug u \<noteq> wt_slug e"
    using dedup_facts [of "tls_tenants l"] unfolding d map_append list.map distinct_append
    by (metis (no_types, lifting) disjoint_iff image_eqI list.set_intros(1) set_map)
  then have "fst (store_loop (pe_lower env) (map (spec_for env) us @ spec_for env e # map (spec_for env) vs)
      (Map.empty, Map.empty)) (ts_org_id (spec_for env e)) = Some (tenant_new (pe_lower env) (spec_for env e))"
    by (intro store_loop_first) auto
  then show ?thesis by (simp add: tenant_table_def table_store_def resolve_org_def d split_beta)
qed

lemma tenant_table_iff:
  "resolve_org (tenant_table env l) org = Some t \<longleftrightarrow>
     (\<exists>e \<in> set (dedup (tls_tenants l)). wt_org_id e = org \<and> t = tenant_new (pe_lower env) (spec_for env e))"
  using resolve_org_source [of "pe_lower env" "tls_version l" "map (spec_for env) (dedup (tls_tenants l))" org t]
    tenant_table_serves [of _ l env]
  by (simp only: tenant_table_def [symmetric] set_map image_image image_iff) (metis spec_for_simps(1) tenant_new_simps(1))

lemma tenant_table_slug:
  "resolve_org (tenant_table env l) org = Some t \<Longrightarrow> resolve_slug (tenant_table env l) (tn_slug t) = Some t"
  "resolve_slug (tenant_table env l) slug = Some t \<Longrightarrow> tn_slug t = slug \<and> resolve_org (tenant_table env l) (tn_id t) = Some t"
proof -
  let ?specs = "map (spec_for env) (dedup (tls_tenants l))"
  obtain a b where ab: "store_loop (pe_lower env) ?specs (Map.empty, Map.empty) = (a, b)" by fastforce
  have "table_wf (a, b)"
    using store_loop_wf [of "(Map.empty, Map.empty)" "pe_lower env" ?specs] ab by (simp add: table_wf_def)
  then show "resolve_org (tenant_table env l) org = Some t \<Longrightarrow> resolve_slug (tenant_table env l) (tn_slug t) = Some t"
    "resolve_slug (tenant_table env l) slug = Some t \<Longrightarrow> tn_slug t = slug \<and> resolve_org (tenant_table env l) (tn_id t) = Some t"
    unfolding table_wf_def resolve_org_def resolve_slug_def tenant_table_def table_store_def ab prod.case
    by simp_all
qed


subsection \<open>Tenant isolation\<close>

lemma tenant_credential_checked:
  assumes "platform_verify (peek_org_id lib) (tenant_verifier lib quote now (tenant_keys env l1)) token w =
      Inr (org, identity)" and "gw_tenants w = tenant_table env l2"
  obtains e1 e2 key c where "e1 \<in> set (dedup (tls_tenants l1))" "e2 \<in> set (dedup (tls_tenants l2))"
    "wt_org_id e1 = org" "wt_org_id e2 = org" "key \<in> set (verifier_for env e1)"
    "decode_claims lib now EdDSA key token = Inr c" "cc_org_id c = Some org" "cc_identity c = identity"
proof -
  obtain named served check where v: "resolve_org (gw_tenants w) named = Some served" "org = tn_id served"
    "tenant_verifier lib quote now (tenant_keys env l1) org = Some check" "check token org = Inr identity"
    using assms(1) by (rule platform_verify_Inr)
  obtain e2 where e2: "e2 \<in> set (dedup (tls_tenants l2))" "served = tenant_new (pe_lower env) (spec_for env e2)"
    using v(1) unfolding assms(2) tenant_table_iff by blast
  obtain ks where ks: "tenant_keys env l1 org = Some ks" "verify_for_org lib quote now ks token org = Inr identity"
    using v(3,4) by (auto simp: tenant_verifier_def)
  obtain e1 where e1: "e1 \<in> set (dedup (tls_tenants l1))" "wt_org_id e1 = org" "ks = verifier_for env e1"
    using ks(1) unfolding tenant_keys_iff by blast
  obtain k c where k: "k \<in> set ks" "decode_claims lib now EdDSA k token = Inr c" "cc_org_id c = Some org"
    "cc_identity c = identity"
    using ks(2) by (rule verify_for_org_Inr)
  have "wt_org_id e2 = org" by (simp add: v(2) e2(2))
  then show ?thesis using that e1 e2(1) k by blast
qed

text \<open>
  C3. Tenants are isolated from one another, also while a new tenant list is being applied. Whatever
  list the keys in force come from and whatever list the tenant table comes from, a tunnel opens only
  for a credential that one of the organisation's own listed keys validates and whose claims name that
  same organisation; the destination is allowed by the policy of that organisation's entry for the
  claimed identity; and the tunnel is metered and audited under that organisation. When both lists are
  the same it is one entry. No other organisation's keys or policy take part.
\<close>

theorem tunnel_rests_on_its_tenant:
  assumes "platform_service (platform_verify (peek_org_id lib) (tenant_verifier lib quote now (tenant_keys env l1)))
      decode_exp (dispatch_call contains net d) rq w = (Opened a, w')"
    and "gw_tenants w = tenant_table env l2"
  shows "\<exists>token org e1 e2 key c rq1 t al.
    bearer_token rq = Some token \<and>
    e1 \<in> set (dedup (tls_tenants l1)) \<and> e2 \<in> set (dedup (tls_tenants l2)) \<and>
    wt_org_id e1 = org \<and> wt_org_id e2 = org \<and> (l1 = l2 \<longrightarrow> e1 = e2) \<and>
    key \<in> set (verifier_for env e1) \<and> decode_claims lib now EdDSA key token = Inr c \<and>
    cc_org_id c = Some org \<and> rq1 = rq\<lparr>rq_tenant := Some org, rq_identity := Some (cc_identity c)\<rparr> \<and>
    request_target rq = Some t \<and> set_evaluate (policy_for env e2) (enforce_context rq1 t) = Allow al \<and>
    ac_meter a = Some org \<and> gw_audit w' = gw_audit w @ [enforce_event rq1 w t (Some org) (Allow al)]"
proof -
  obtain token org identity e b where c: "bearer_token rq = Some token"
    "platform_verify (peek_org_id lib) (tenant_verifier lib quote now (tenant_keys env l1)) token w =
       Inr (org, identity)"
    "session_end decode_exp (identified rq org identity) w = Some e"
    "enforce_call platform_policy_layer (meter_call (tenant_metered_call (dispatch_call contains net d)))
       (identified rq org identity) w = (Opened b, w')"
    "a = (case e of Some x \<Rightarrow> with_end x b | None \<Rightarrow> b)"
    using assms(1) by (rule platform_chain)
  obtain e1 e2 key cl where k: "e1 \<in> set (dedup (tls_tenants l1))" "e2 \<in> set (dedup (tls_tenants l2))"
    "wt_org_id e1 = org" "wt_org_id e2 = org" "key \<in> set (verifier_for env e1)"
    "decode_claims lib now EdDSA key token = Inr cl" "cc_org_id cl = Some org" "cc_identity cl = identity"
    using c(2) assms(2) by (rule tenant_credential_checked)
  obtain t tenant al where n: "request_target (identified rq org identity) = Some t"
    "resolve_org (gw_tenants w) org = Some tenant"
    "set_evaluate (tn_policy tenant) (enforce_context (identified rq org identity) t) = Allow al"
    "ac_meter b = Some org"
    "gw_audit w' = gw_audit w @ [enforce_event (identified rq org identity) w t (Some org) (Allow al)]"
    by (rule enforced_tunnel [OF c(4), of org]) simp_all
  have pol: "tn_policy tenant = policy_for env e2"
    using n(2) tenant_table_serves [OF k(2), of env] by (simp add: assms(2) k(4))
  have tgt: "request_target rq = Some t" using n(1) by (simp add: request_target_def)
  have meter: "ac_meter a = Some org" by (simp add: c(5) n(4) with_end_def split: option.split)
  have same: "l1 = l2 \<longrightarrow> e1 = e2" using dedup_unique k(1-4) by blast
  show ?thesis
    using c(1) k(1-7) same tgt n(3) [unfolded pol] meter n(5) unfolding k(8) [symmetric] by blast
qed

subsection \<open>A sample platform\<close>

definition sample_raw :: raw_policy where
  "sample_raw = \<lparr>rp_name = Some ''open'', rp_baseline = False,
     rp_match_spec = \<lparr>rm_organization = None, rm_repository = None, rm_workflow = None, rm_git_ref = None,
       rm_branch = None, rm_environment = None, rm_actor = None, rm_kind = None\<rparr>,
     rp_session = \<lparr>rs_max_duration = None\<rparr>, rp_egress = None,
     rp_limits = \<lparr>rl_bandwidth = None, rl_bytes = None, rl_connections = None, rl_concurrent_destinations = None,
       rl_connection_rate = None, rl_packets_per_second = None\<rparr>,
     rp_rules = [\<lparr>rr_id = None, rr_application = ''*'', rr_transport = None, rr_action = ''allow'',
       rr_destinations = [''*'']\<rparr>], rp_tests = []\<rparr>"

definition sample_env :: "(unit, nat) platform_env" where
  "sample_env = \<lparr>pe_floats = no_floats, pe_toml = (\<lambda>_. Inr sample_raw), pe_yaml = (\<lambda>_. Inl (PE_Yaml ''none'')),
     pe_base64 = (\<lambda>s. if s = ''AQ=='' then Inr [1] else Inl ''bad''), pe_ed_key = length, pe_lower = to_ascii_lowercase\<rparr>"

definition sample_entry :: "string \<Rightarrow> string \<Rightarrow> wire_tenant" where
  "sample_entry org slug = \<lparr>wt_org_id = org, wt_slug = slug, wt_owners = ['' Acme ''], wt_owner_ids = [(''acme'', 7)],
     wt_policy = Some \<lparr>tp_version = 1, tp_documents = [\<lparr>pd_name = ''p.toml'', pd_text = ''x''\<rparr>]\<rparr>,
     wt_signing_key = \<lparr>sk_org_id = org, sk_algorithm = ''Ed25519'', sk_public_key_b64 = ''AQ=='',
       sk_previous_public_key_b64 = None\<rparr>\<rparr>"

definition sample_tenants :: tenant_list where
  "sample_tenants = \<lparr>tls_version = 3, tls_tenants =
     [sample_entry ''org_1'' ''acme'', sample_entry ''org_1'' ''other'', sample_entry ''  '' ''blank'']\<rparr>"

lemma sample_policy_for: "policy_for sample_env (sample_entry org slug) = [sample_policy ''open'' False Action_Allow HP_Any]"
proof -
  have "from_documents no_floats (\<lambda>_. Inr sample_raw) (\<lambda>_. Inl (PE_Yaml ''none'')) [(''p.toml'', ''x'')] =
      Inr [sample_policy ''open'' False Action_Allow HP_Any]"
    by code_simp
  then show ?thesis by (simp add: policy_for_def sample_env_def sample_entry_def)
qed

lemma sample_dedup: "dedup (tls_tenants sample_tenants) = [sample_entry ''org_1'' ''acme'']"
proof -
  have "str_trim ''org_1'' = ''org_1''" "str_trim ''  '' = []" by code_simp+
  then show ?thesis by (simp add: dedup_def sample_tenants_def sample_entry_def)
qed

lemma sample_keys: "verifier_for sample_env (sample_entry org slug) = [1]"
proof -
  have "eq_ignore_ascii_case ''Ed25519'' ''ed25519''" by code_simp
  then show ?thesis
    by (simp add: verifier_for_def sample_env_def sample_entry_def all_public_key_bytes_def and_then_def)
qed


definition sample_platform_gateway :: gateway where
  "sample_platform_gateway = sample_gateway\<lparr>gw_tenants := tenant_table sample_env sample_tenants\<rparr>"

lemma sample_token_decodes:
  "decode_claims sample_signer 1050 EdDSA 1 ''h.p.s'' = Inr (issue_claims 1000 60 sample_identity (Some ''sub'') (Some ''org_1''))"
  "token_payload sample_signer ''h.p.s'' = Some (claims_json (issue_claims 1000 60 sample_identity (Some ''sub'') (Some ''org_1'')))"
  by (rule minted_decodes [OF sample_signer_laws, where now = 1050]; simp add: sample_signer_def sample_payload_def)+

lemma sample_token_verifies:
  "platform_verify (peek_org_id sample_signer) (tenant_verifier sample_signer id 1050 (tenant_keys sample_env sample_tenants))
     ''h.p.s'' sample_platform_gateway = Inr (''org_1'', sample_identity)"
proof -
  have e: "sample_entry ''org_1'' ''acme'' \<in> set (dedup (tls_tenants sample_tenants))" "wt_org_id (sample_entry ''org_1'' ''acme'') = ''org_1''"
    by (simp_all add: sample_dedup sample_entry_def)
  have k: "tenant_keys sample_env sample_tenants ''org_1'' = Some [1]"
    using e sample_keys by (subst tenant_keys_iff) metis
  have p: "peek_org_id sample_signer ''h.p.s'' = Some ''org_1''"
    using peek_org_id_claims [OF sample_token_decodes(2)] by (simp add: issue_claims_def)
  have v: "verify_for_org sample_signer id 1050 [1] ''h.p.s'' ''org_1'' = Inr sample_identity"
    by (simp add: verify_for_org_def credential_verify_claims_def sample_token_decodes(1) [simplified] and_then_def issue_claims_def)
  show ?thesis
    using tenant_table_serves [OF e(1), of sample_env] e(2)
    by (simp add: platform_verify_def p sample_platform_gateway_def tenant_verifier_def k v [simplified] and_then_def ok_or_def map_err_def)
qed

theorem tunnel_rests_on_its_tenant_witness:
  "\<exists>a w' e key c. platform_service (platform_verify (peek_org_id sample_signer)
        (tenant_verifier sample_signer id 1050 (tenant_keys sample_env sample_tenants))) (\<lambda>_. None)
      (dispatch_call (\<lambda>_ _. False) sample_network sample_dispatch) (sample_bearing ''h.p.s'') sample_platform_gateway =
      (Opened a, w') \<and>
    e \<in> set (dedup (tls_tenants sample_tenants)) \<and> key \<in> set (verifier_for sample_env e) \<and>
    decode_claims sample_signer 1050 EdDSA key ''h.p.s'' = Inr c \<and> cc_org_id c = Some (wt_org_id e) \<and>
    ac_meter a = Some (wt_org_id e)"
proof -
  have tok: "bearer_token (sample_bearing ''h.p.s'') = Some ''h.p.s''" by code_simp
  have r: "resolve_org (gw_tenants sample_platform_gateway) ''org_1'' =
      Some (tenant_new (pe_lower sample_env) (spec_for sample_env (sample_entry ''org_1'' ''acme'')))"
    using tenant_table_serves [of "sample_entry ''org_1'' ''acme''" sample_tenants sample_env]
    by (simp add: sample_platform_gateway_def sample_dedup) (simp add: sample_entry_def [of "''org_1''" "''acme''"])
  have d: "set_evaluate [sample_policy ''open'' False Action_Allow HP_Any]
      (enforce_context (identified (sample_bearing ''h.p.s'') ''org_1'' sample_identity)
        \<lparr>tg_host = Name ''a'', tg_port = 443\<rparr>) = Allow sample_allowed"
    by code_simp
  obtain a w' where open1: "platform_service (platform_verify (peek_org_id sample_signer)
        (tenant_verifier sample_signer id 1050 (tenant_keys sample_env sample_tenants))) (\<lambda>_. None)
      (dispatch_call (\<lambda>_ _. False) sample_network sample_dispatch) (sample_bearing ''h.p.s'') sample_platform_gateway =
      (Opened a, w')"
    using sample_stack_opens [where verify = "platform_verify (peek_org_id sample_signer)
        (tenant_verifier sample_signer id 1050 (tenant_keys sample_env sample_tenants))"
        and w = sample_platform_gateway, OF tok sample_token_verifies r] d
    by (auto simp: sample_policy_for sample_platform_gateway_def sample_gateway_def)
  have t: "gw_tenants sample_platform_gateway = tenant_table sample_env sample_tenants"
    by (simp add: sample_platform_gateway_def)
  show ?thesis
    using tunnel_rests_on_its_tenant [OF open1 t] open1 tok by (metis option.inject)
qed

end
