(* ===== verification/Platform_Mint.thy ===== *)
theory Platform_Mint
  imports Platform_Tenants
begin

text \<open>
  Minting credentials for CI jobs on a platform gateway (\<^verbatim>\<open>PlatformMinter\<close> of
  \<^verbatim>\<open>skimasque-cli/src/platform.rs\<close>, slugs and audiences of
  \<^verbatim>\<open>skimasque-protocol/src/platform.rs\<close>): the audience of a job's token names one tenant, the token
  is verified for that audience, the job's repository owner must belong to the tenant, and the control
  plane mints. Its answer is an argument. The last part is the loop that keeps the tenants up to date.
\<close>

subsection \<open>Slugs and audiences\<close>

definition SLUG_MAX_LEN :: nat where
  "SLUG_MAX_LEN = 39"

definition is_valid_slug :: "string \<Rightarrow> bool" where
  "is_valid_slug s \<longleftrightarrow> s \<noteq> [] \<and> length s \<le> SLUG_MAX_LEN \<and> \<not> starts_with s ''-'' \<and> \<not> ends_with s ''-'' \<and>
     list_all (\<lambda>b. is_ascii_lowercase b \<or> is_ascii_digit b \<or> b = CHR ''-'') s"

definition trim_end_matches :: "char \<Rightarrow> string \<Rightarrow> string" where
  "trim_end_matches c s = rev (dropWhile (\<lambda>d. d = c) (rev s))"

definition tenant_audience :: "string \<Rightarrow> string \<Rightarrow> string" where
  "tenant_audience base_url slug = trim_end_matches (CHR ''/'') base_url @ ''/o/'' @ slug"

definition slug_from_audience :: "string \<Rightarrow> string \<Rightarrow> string option" where
  "slug_from_audience base_url audience =
     Option.bind (strip_prefix (trim_end_matches (CHR ''/'') base_url @ ''/o/'') audience) (\<lambda>rest0.
       let rest = (case strip_suffix ''/'' rest0 of Some r \<Rightarrow> r | None \<Rightarrow> rest0)
       in if is_valid_slug rest then Some rest else None)"

subsection \<open>Minting\<close>

record mint_request =
  mr_org_id :: string
  mr_identity :: workload_identity
  mr_subject :: "string option"
  mr_owner_id :: "u64 option"
  mr_ttl_seconds :: nat

datatype platform_mint_error = Plane_Refused string string | Plane_Unavailable string

record 'j platform_minter =
  pm_oidc :: "'j oidc_verifier"
  pm_base_url :: string
  pm_ttl :: nat
  pm_owner_settings_url :: string

definition UNKNOWN_ORG :: string where
  "UNKNOWN_ORG = ''unknown_org''"

definition OWNER_NOT_VERIFIED :: string where
  "OWNER_NOT_VERIFIED = ''owner_not_verified''"

fun slug_loop :: "string \<Rightarrow> string list \<Rightarrow> (string \<times> string) option \<Rightarrow> unit + (string \<times> string) option" where
  "slug_loop base_url [] found = Inr found"
| "slug_loop base_url (aud # auds) found =
     (case slug_from_audience base_url aud of
        None \<Rightarrow> slug_loop base_url auds found
      | Some slug \<Rightarrow>
          (case found of
             None \<Rightarrow> slug_loop base_url auds (Some (slug, aud))
           | Some (seen, _) \<Rightarrow> if seen = slug then slug_loop base_url auds found else Inl ()))"

definition slug_of :: "('j, 'w, 'k, 'e) jwt \<Rightarrow> string \<Rightarrow> string \<Rightarrow> mint_error + (string \<times> string)" where
  "slug_of lib base_url token =
     (case slug_loop base_url (peek_audiences lib token) None of
        Inl _ \<Rightarrow> Inl (Mint_Refused UNKNOWN_ORG
          ''The token names more than one SkiMasque organisation. Check the `audience` in your workflow.'')
      | Inr None \<Rightarrow> Inl (Mint_Refused UNKNOWN_ORG
          (''Unknown SkiMasque organisation. Check the `audience` in your workflow. It must be `'' @
           tenant_audience base_url ''<your-org-slug>'' @ ''`.''))
      | Inr (Some found) \<Rightarrow> Inr found)"

definition oidc_mint_error :: "(identity_error \<Rightarrow> string) \<Rightarrow> identity_error \<Rightarrow> mint_error" where
  "oidc_mint_error show_error e =
     (case e of
        Discovery _ \<Rightarrow> Mint_Unavailable ''GitHub OIDC keys unavailable; try again shortly.''
      | Jwks _ \<Rightarrow> Mint_Unavailable ''GitHub OIDC keys unavailable; try again shortly.''
      | other \<Rightarrow> Unauthorized (show_error other))"

text \<open>The request a verified job leads to, or the refusal that stops it.\<close>

definition mint_owner_check ::
  "(string \<Rightarrow> string) \<Rightarrow> 'j platform_minter \<Rightarrow> string \<Rightarrow> tenant \<Rightarrow> claims \<Rightarrow> mint_error + mint_request" where
  "mint_owner_check lower m slug t c =
     (let workload = identify (ov_provider (pm_oidc m)) c;
          owner = (case wi_organization workload of None \<Rightarrow> [] | Some g \<Rightarrow> normalize_owner g)
      in if owner = [] \<or> \<not> tenant_owns lower t owner (claims_owner_id c) then
           Inl (Mint_Refused OWNER_NOT_VERIFIED
             (if owner = [] then
                ''The job's token names no repository owner, so it cannot be verified for `'' @ slug @ ''`.''
              else ''`'' @ owner @ ''` is not verified for `'' @ slug @ ''`. Verify it at '' @
                pm_owner_settings_url m @ ''.''))
         else
           Inr \<lparr>mr_org_id = tn_id t, mr_identity = workload, mr_subject = claims_subject c,
             mr_owner_id = claims_owner_id c, mr_ttl_seconds = pm_ttl m\<rparr>)"

definition mint_answer :: "platform_mint_error + issued \<Rightarrow> mint_error + minted_credential" where
  "mint_answer r =
     (case r of
        Inr i \<Rightarrow> Inr \<lparr>mc_credential = is_token i, mc_expires_in = is_expires_in i\<rparr>
      | Inl (Plane_Refused code message) \<Rightarrow> Inl (Mint_Refused code message)
      | Inl (Plane_Unavailable _) \<Rightarrow> Inl (Mint_Unavailable ''SkiMasque control plane unreachable; try again shortly.''))"

text \<open>
  The result carries the requests sent to the control plane. \<open>table\<close> is the snapshot taken when the
  exchange began.
\<close>

definition platform_mint ::
  "('j, 'w, 'k, 'e) jwt \<Rightarrow> 'j jwks_provider \<Rightarrow> (identity_error \<Rightarrow> string) \<Rightarrow> (string \<Rightarrow> string) \<Rightarrow>
     (mint_request \<Rightarrow> platform_mint_error + issued) \<Rightarrow> nat \<Rightarrow> nat \<Rightarrow> tenant_snapshot \<Rightarrow> string \<Rightarrow>
     'j platform_minter \<Rightarrow> (mint_error + minted_credential) \<times> mint_request list \<times> 'j platform_minter" where
  "platform_mint lib fetch show_error lower control now secs table token m =
     (case slug_of lib (pm_base_url m) token of
        Inl e \<Rightarrow> (Inl e, [], m)
      | Inr (slug, audience) \<Rightarrow>
          (case resolve_slug table slug of
             None \<Rightarrow> (Inl (Mint_Refused UNKNOWN_ORG
                 (''Unknown SkiMasque organisation `'' @ slug @ ''`. Check the `audience` in your workflow.'')), [], m)
           | Some t \<Rightarrow>
               (case verify_claims_for_audience lib fetch now secs token audience (pm_oidc m) of
                  (Inl e, ov) \<Rightarrow> (Inl (oidc_mint_error show_error e), [], m\<lparr>pm_oidc := ov\<rparr>)
                | (Inr c, ov) \<Rightarrow>
                    (case mint_owner_check lower m slug t c of
                       Inl e \<Rightarrow> (Inl e, [], m\<lparr>pm_oidc := ov\<rparr>)
                     | Inr req \<Rightarrow> (mint_answer (control req), [req], m\<lparr>pm_oidc := ov\<rparr>)))))"

subsection \<open>Audiences\<close>

lemma valid_slug_no_slash: "is_valid_slug s \<Longrightarrow> CHR ''/'' \<notin> set s"
  by (auto simp: is_valid_slug_def list_all_iff is_ascii_lowercase_def is_ascii_digit_def char_code_def)

lemma strip_slash_free: "CHR ''/'' \<notin> set s \<Longrightarrow> strip_suffix ''/'' s = None"
  by (cases "strip_suffix ''/'' s") (auto dest!: strip_suffix_SomeD)

lemma slug_from_audience_iff:
  "slug_from_audience base aud = Some slug \<longleftrightarrow>
     is_valid_slug slug \<and> (aud = tenant_audience base slug \<or> aud = tenant_audience base slug @ ''/'')"
proof -
  let ?pre = "trim_end_matches (CHR ''/'') base @ ''/o/''"
  have to: "is_valid_slug slug \<and> (rest = slug \<or> rest = slug @ ''/'')"
    if "(case strip_suffix ''/'' rest of Some r \<Rightarrow> r | None \<Rightarrow> rest) = slug" "is_valid_slug slug" for rest
    using that by (auto split: option.splits dest: strip_suffix_SomeD)
  have from_slug: "(case strip_suffix ''/'' rest of Some r \<Rightarrow> r | None \<Rightarrow> rest) = slug"
    if "is_valid_slug slug" "rest = slug \<or> rest = slug @ ''/''" for rest
    using that strip_slash_free [OF valid_slug_no_slash [OF that(1)]] by auto
  show ?thesis
  proof
    assume "slug_from_audience base aud = Some slug"
    then obtain rest where r: "strip_prefix ?pre aud = Some rest"
      "(case strip_suffix ''/'' rest of Some r \<Rightarrow> r | None \<Rightarrow> rest) = slug" "is_valid_slug slug"
      by (auto simp: slug_from_audience_def Let_def bind_eq_Some_conv split: if_splits)
    have "aud = ?pre @ rest" using r(1) by (rule strip_prefix_SomeD)
    then show "is_valid_slug slug \<and> (aud = tenant_audience base slug \<or> aud = tenant_audience base slug @ ''/'')"
      using to [OF r(2,3)] by (auto simp: tenant_audience_def)
  next
    assume a: "is_valid_slug slug \<and> (aud = tenant_audience base slug \<or> aud = tenant_audience base slug @ ''/'')"
    then obtain rest where r: "aud = ?pre @ rest" "rest = slug \<or> rest = slug @ ''/''"
      by (auto simp: tenant_audience_def)
    have "strip_prefix ?pre aud = Some rest" unfolding r(1) by (rule strip_prefix_append)
    then show "slug_from_audience base aud = Some slug"
      using from_slug [OF _ r(2)] a by (simp add: slug_from_audience_def Let_def)
  qed
qed

lemma slug_loop_sound:
  "slug_loop base auds found = Inr (Some (slug, aud)) \<Longrightarrow>
   (found = Some (slug, aud) \<or> (aud \<in> set auds \<and> slug_from_audience base aud = Some slug)) \<and>
   (\<forall>a \<in> set auds. \<forall>s. slug_from_audience base a = Some s \<longrightarrow> s = slug) \<and>
   (\<forall>s x. found = Some (s, x) \<longrightarrow> s = slug)"
proof (induction auds arbitrary: found)
  case (Cons a as)
  consider (skip) "slug_from_audience base a = None" | (first) s where "slug_from_audience base a = Some s" "found = None"
    | (again) s x where "slug_from_audience base a = Some s" "found = Some (s, x)"
    using Cons.prems by (auto split: option.splits if_splits)
  then show ?case
  proof cases
    case skip
    then show ?thesis using Cons.IH [of found] Cons.prems by auto
  next
    case first
    then show ?thesis using Cons.IH [of "Some (s, a)"] Cons.prems by auto
  next
    case again
    then show ?thesis using Cons.IH [of found] Cons.prems by auto
  qed
qed simp

subsection \<open>What a mint rests on\<close>

lemma slug_of_Inr:
  assumes "slug_of lib base token = Inr (slug, aud)"
  shows "aud \<in> set (peek_audiences lib token)" "slug_from_audience base aud = Some slug"
    "\<forall>a \<in> set (peek_audiences lib token). \<forall>s. slug_from_audience base a = Some s \<longrightarrow> s = slug"
proof -
  have "slug_loop base (peek_audiences lib token) None = Inr (Some (slug, aud))"
    using assms by (auto simp: slug_of_def split: sum.splits option.splits)
  from slug_loop_sound [OF this] show "aud \<in> set (peek_audiences lib token)" "slug_from_audience base aud = Some slug"
    "\<forall>a \<in> set (peek_audiences lib token). \<forall>s. slug_from_audience base a = Some s \<longrightarrow> s = slug"
    by auto
qed

lemma audience_claims_Inr:
  assumes "verify_claims_for_audience lib fetch now secs token aud ov = (Inr c, ov')"
  obtains keys where
    "token_accepted lib secs (vf_issuer (ov_verifier ov)) [aud] (vf_leeway_secs (ov_verifier ov)) token keys c"
proof -
  obtain cache where "verify_refreshing lib fetch now secs (with_audience aud (ov_verifier ov)) token (ov_jwks ov) =
      (Inr c, cache)"
    using assms by (auto simp: verify_claims_for_audience_def split: prod.splits)
  then obtain keys where "verifier_verify lib secs (with_audience aud (ov_verifier ov)) token keys = Inr c"
    by (rule verify_refreshing_Inr)
  from that [OF verifier_verify_Inr [OF this, unfolded with_audience_def, simplified]] show ?thesis by simp
qed

lemma mint_owner_check_Inr:
  assumes "mint_owner_check lower m slug t c = Inr req"
  obtains g where "wi_organization (identify (ov_provider (pm_oidc m)) c) = Some g" "normalize_owner g \<noteq> []"
    "tenant_owns lower t (normalize_owner g) (claims_owner_id c)" "mr_org_id req = tn_id t"
    "mr_identity req = identify (ov_provider (pm_oidc m)) c" "mr_owner_id req = claims_owner_id c"
  using assms by (auto simp: mint_owner_check_def Let_def split: option.splits if_splits)

text \<open>The steps a request to the control plane has behind it.\<close>

lemma platform_mint_request:
  assumes "platform_mint lib fetch show_error lower control now secs table token m = (r, reqs, m')"
    and "req \<in> set reqs"
  obtains slug aud t c ov where "slug_of lib (pm_base_url m) token = Inr (slug, aud)"
    "resolve_slug table slug = Some t"
    "verify_claims_for_audience lib fetch now secs token aud (pm_oidc m) = (Inr c, ov)"
    "mint_owner_check lower m slug t c = Inr req" "reqs = [req]" "r = mint_answer (control req)"
  using assms by (auto simp: platform_mint_def split: sum.splits prod.splits option.splits)

lemma platform_mint_Inr:
  assumes "platform_mint lib fetch show_error lower control now secs table token m = (Inr cred, reqs, m')"
  shows "\<exists>req. reqs = [req] \<and> mint_answer (control req) = Inr cred"
  using assms by (auto simp: platform_mint_def split: sum.splits prod.splits option.splits)

text \<open>When a job may have a credential of a tenant on the list.\<close>

definition mint_justified ::
  "('j, 'w, 'k, 'e) jwt \<Rightarrow> nat \<Rightarrow> ('f, 'k) platform_env \<Rightarrow> tenant_list \<Rightarrow> string \<Rightarrow> 'j platform_minter \<Rightarrow>
     mint_request \<Rightarrow> bool" where
  "mint_justified lib secs env l token m req \<longleftrightarrow>
     (\<exists>slug aud e keys c g.
      aud \<in> set (peek_audiences lib token) \<and> is_valid_slug slug \<and>
      (aud = tenant_audience (pm_base_url m) slug \<or> aud = tenant_audience (pm_base_url m) slug @ ''/'') \<and>
      (\<forall>a \<in> set (peek_audiences lib token). \<forall>s. slug_from_audience (pm_base_url m) a = Some s \<longrightarrow> s = slug) \<and>
      e \<in> set (dedup (tls_tenants l)) \<and> wt_slug e = slug \<and>
      token_accepted lib secs (vf_issuer (ov_verifier (pm_oidc m))) [aud] (vf_leeway_secs (ov_verifier (pm_oidc m)))
        token keys c \<and>
      wi_organization (identify (ov_provider (pm_oidc m)) c) = Some g \<and> normalize_owner g \<noteq> [] \<and>
      tenant_owns (pe_lower env) (tenant_new (pe_lower env) (spec_for env e)) (normalize_owner g) (claims_owner_id c) \<and>
      mr_org_id req = wt_org_id e \<and> mr_identity req = identify (ov_provider (pm_oidc m)) c)"

lemma mint_request_justified:
  assumes "platform_mint lib fetch show_error (pe_lower env) control now secs (tenant_table env l) token m = (r, reqs, m')"
    and "req \<in> set reqs"
  shows "mint_justified lib secs env l token m req"
proof -
  obtain slug aud t c ov where s: "slug_of lib (pm_base_url m) token = Inr (slug, aud)"
    "resolve_slug (tenant_table env l) slug = Some t"
    "verify_claims_for_audience lib fetch now secs token aud (pm_oidc m) = (Inr c, ov)"
    "mint_owner_check (pe_lower env) m slug t c = Inr req"
    using assms by (rule platform_mint_request)
  note a = slug_of_Inr [OF s(1)]
  obtain e where e: "e \<in> set (dedup (tls_tenants l))" "t = tenant_new (pe_lower env) (spec_for env e)"
    using tenant_table_slug(2) [OF s(2)] unfolding tenant_table_iff by blast
  have slug: "wt_slug e = slug" "tn_id t = wt_org_id e"
    using tenant_table_slug(2) [OF s(2)] e(2) by simp_all
  obtain keys where k: "token_accepted lib secs (vf_issuer (ov_verifier (pm_oidc m))) [aud]
      (vf_leeway_secs (ov_verifier (pm_oidc m))) token keys c"
    using s(3) by (rule audience_claims_Inr)
  obtain g where g: "wi_organization (identify (ov_provider (pm_oidc m)) c) = Some g" "normalize_owner g \<noteq> []"
    "tenant_owns (pe_lower env) t (normalize_owner g) (claims_owner_id c)" "mr_org_id req = tn_id t"
    "mr_identity req = identify (ov_provider (pm_oidc m)) c"
    using s(4) by (rule mint_owner_check_Inr)
  show ?thesis
    using a(1) a(2) [unfolded slug_from_audience_iff] a(3) e(1) slug(1) k g(1,2) g(3) [unfolded e(2)]
      g(4) [unfolded slug(2)] g(5) unfolding mint_justified_def by blast
qed

text \<open>
  C4. The gateway asks for a credential only on behalf of a job that proved where it belongs. Every
  mint request it sends goes with a token whose audiences under the gateway's address all name one
  slug, the slug of a served tenant; the token passed verification for exactly the audience that named
  it; the repository owner in its claims is one of that tenant's owners, with the recorded numeric id
  when there is one; and the request asks for that tenant's organisation with the identity read from
  the claims. A credential comes only from the control plane's own answer to that one request.
\<close>

theorem mint_requests_are_justified:
  assumes "platform_mint lib fetch show_error (pe_lower env) control now secs (tenant_table env l) token m = (r, reqs, m')"
  shows "(\<forall>req \<in> set reqs. mint_justified lib secs env l token m req) \<and>
    (\<forall>cred. r = Inr cred \<longrightarrow> (\<exists>req i. reqs = [req] \<and> control req = Inr i \<and> mc_credential cred = is_token i))"
  using assms mint_request_justified [OF assms]
  by (auto simp: mint_answer_def split: sum.splits platform_mint_error.splits dest!: platform_mint_Inr)

text \<open>A job of the sample tenant.\<close>

definition sample_job_claims :: "(string \<times> json) list" where
  "sample_job_claims = [(''aud'', JString ''https://g/o/acme/''), (''repository_owner'', JString ''ACME''),
     (''repository_owner_id'', JString ''7'')]"

definition sample_job :: "(string list, string, nat, unit) jwt" where
  "sample_job =
     \<lparr>jwt_decode_header = (\<lambda>_. Inr \<lparr>jh_alg = RS256, jh_kid = Some ''k1''\<rparr>),
      jwt_find = (\<lambda>keys kid. find_first (\<lambda>k. k = kid) keys), jwt_from_jwk = (\<lambda>_. Inr 5),
      jwt_decode = (\<lambda>_ t _ v. if va_aud v = Some [''https://g/o/acme/''] then Inr (JObject sample_job_claims) else Inl ''no''),
      jwt_encode = (\<lambda>_ _ _. Inl ''cannot sign''),
      jwt_payload = (\<lambda>s. if s = ''p'' then Some (JObject sample_job_claims) else None),
      jwt_unreadable = (\<lambda>_. ''no''), jwt_variant = json_as_str\<rparr>"

definition sample_minter :: "string list platform_minter" where
  "sample_minter = \<lparr>pm_oidc = oidc_from_parts GitHubActions (verifier_new GITHUB_ACTIONS_ISSUER []),
     pm_base_url = ''https://g'', pm_ttl = 900, pm_owner_settings_url = ''https://c''\<rparr>"

definition sample_request_for :: mint_request where
  "sample_request_for = \<lparr>mr_org_id = ''org_1'', mr_identity = identify GitHubActions (object_map sample_job_claims),
     mr_subject = None, mr_owner_id = Some 7, mr_ttl_seconds = 900\<rparr>"

lemma sample_slug: "slug_of sample_job (pm_base_url sample_minter) ''h.p.s'' = Inr (''acme'', ''https://g/o/acme/'')"
proof -
  have a: "peek_audiences sample_job ''h.p.s'' = [''https://g/o/acme/'']"
    by (simp add: peek_audiences_def token_payload_def sample_job_def sample_job_claims_def object_map_def)
  have "is_valid_slug ''acme''"
    by (simp add: is_valid_slug_def SLUG_MAX_LEN_def starts_with_def ends_with_def strip_prefix_def strip_suffix_def
        is_ascii_lowercase_def char_code_def)
  moreover have "''https://g/o/acme/'' = tenant_audience ''https://g'' ''acme'' @ ''/''"
    by (simp add: tenant_audience_def trim_end_matches_def)
  ultimately have "slug_from_audience ''https://g'' ''https://g/o/acme/'' = Some ''acme''"
    using slug_from_audience_iff by blast
  then show ?thesis by (simp add: slug_of_def a sample_minter_def)
qed

lemma sample_owner:
  "mint_owner_check to_ascii_lowercase sample_minter ''acme''
     (tenant_new to_ascii_lowercase (spec_for sample_env (sample_entry ''org_1'' ''acme''))) (object_map sample_job_claims)
   = Inr sample_request_for"
proof -
  have c: "claims_get (object_map sample_job_claims) ''repository_owner'' = Some ''ACME''"
    "claims_owner_id (object_map sample_job_claims) = Some 7" "claims_subject (object_map sample_job_claims) = None"
    by (simp_all add: claims_get_def claims_owner_id_def claims_subject_def object_map_def sample_job_claims_def
        parse_u64_def parse_unsigned_def is_ascii_digit_def digits_val_def digit_val_def char_code_def Let_def)
  have n: "normalize_owner ''ACME'' = ''acme''" "normalize_owner '' Acme '' = ''acme''" "to_ascii_lowercase ''acme'' = ''acme''"
    by code_simp+
  show ?thesis
    by (simp add: mint_owner_check_def sample_minter_def oidc_from_parts_def github_def c n tenant_owns_def
        tenant_new_def spec_for_def sample_entry_def sample_request_for_def Let_def)
qed

theorem mint_requests_are_justified_witness:
  "\<exists>r reqs m'. platform_mint sample_job (\<lambda>n. (Inr [''k1''], n)) (\<lambda>_. ''e'') (pe_lower sample_env)
       (\<lambda>_. Inr \<lparr>is_token = ''c'', is_expires_in = 900\<rparr>) 0 5 (tenant_table sample_env sample_tenants) ''h.p.s'' sample_minter
       = (r, reqs, m') \<and>
     sample_request_for \<in> set reqs \<and>
     mint_justified sample_job 5 sample_env sample_tenants ''h.p.s'' sample_minter sample_request_for"
proof -
  have e: "sample_entry ''org_1'' ''acme'' \<in> set (dedup (tls_tenants sample_tenants))"
    "wt_slug (sample_entry ''org_1'' ''acme'') = ''acme''"
    by (simp_all add: sample_dedup sample_entry_def)
  have t: "resolve_slug (tenant_table sample_env sample_tenants) ''acme'' =
      Some (tenant_new (pe_lower sample_env) (spec_for sample_env (sample_entry ''org_1'' ''acme'')))"
    using tenant_table_slug(1) [OF tenant_table_serves [OF e(1), of sample_env]] e(2) by simp
  have v: "\<exists>ov. verify_claims_for_audience sample_job (\<lambda>n. (Inr [''k1''], n)) 0 5 ''h.p.s'' ''https://g/o/acme/'' (pm_oidc sample_minter)
      = (Inr (object_map sample_job_claims), ov)"
    by (simp add: verify_claims_for_audience_def verify_refreshing_def cache_keys_def cache_refresh_def
        sample_minter_def oidc_from_parts_def jwks_cache_new_def verifier_verify_def sample_job_def and_then_def
        map_err_def ok_or_def Let_def verifier_validation_def with_audience_def verifier_new_def)
  have l: "pe_lower sample_env = to_ascii_lowercase" by (simp add: sample_env_def)
  obtain m' where p: "platform_mint sample_job (\<lambda>n. (Inr [''k1''], n)) (\<lambda>_. ''e'') (pe_lower sample_env)
       (\<lambda>_. Inr \<lparr>is_token = ''c'', is_expires_in = 900\<rparr>) 0 5 (tenant_table sample_env sample_tenants) ''h.p.s'' sample_minter
       = (Inr \<lparr>mc_credential = ''c'', mc_expires_in = 900\<rparr>, [sample_request_for], m')"
    using v t sample_owner by (auto simp: platform_mint_def sample_slug l mint_answer_def)
  show ?thesis
    using mint_requests_are_justified [OF p] p by (metis list.set_intros(1))
qed

end
