(* ===== verification/Control_Sync.thy ===== *)
theory Control_Sync
  imports Platform_Mint
begin

text \<open>
  Keeping a gateway in step with its control plane: the shared sync state and the policy cache of
  \<^verbatim>\<open>skimasque-cli/src/control.rs\<close>, the polling loops for policies and revoked sessions of
  \<^verbatim>\<open>bin/skimasque-server.rs\<close>, and the tenant loop, start-up choice and heartbeat of
  \<^verbatim>\<open>platform.rs\<close>. A poll's answer is an argument of a turn of its loop; instants are nanoseconds of
  the monotonic clock and may lie before the process started. A turn returns what it slept, in
  seconds.
\<close>

subsection \<open>Freshness\<close>

datatype freshness = Fresh | Stale | Expired

record sync_state =
  sy_version :: u64
  sy_healthy :: bool
  sy_origin :: int
  sy_last_contact_secs :: nat
  sy_policy_lease :: nat
  sy_cache_ttl :: nat

text \<open>An instant holds its seconds in 64 signed bits.\<close>

definition instant_checked_sub :: "int \<Rightarrow> nat \<Rightarrow> int option" where
  "instant_checked_sub t d = (if - (2 ^ 63) * 10 ^ 9 \<le> t - int d then Some (t - int d) else None)"

definition sync_state_new :: "int \<Rightarrow> u64 option \<Rightarrow> nat option \<Rightarrow> nat \<Rightarrow> nat \<Rightarrow> sync_state" where
  "sync_state_new now initial_version cache_age policy_lease cache_ttl =
     (let age = (case cache_age of None \<Rightarrow> 0 | Some a \<Rightarrow> a)
      in \<lparr>sy_version = (case initial_version of None \<Rightarrow> 0 | Some v \<Rightarrow> v), sy_healthy = True,
          sy_origin = (case instant_checked_sub now age of Some t \<Rightarrow> t | None \<Rightarrow> now),
          sy_last_contact_secs = 0, sy_policy_lease = policy_lease, sy_cache_ttl = cache_ttl\<rparr>)"

definition set_version :: "u64 \<Rightarrow> sync_state \<Rightarrow> sync_state" where
  "set_version v s = s\<lparr>sy_version := v\<rparr>"

definition known_version :: "u64 \<Rightarrow> u64 option" where
  "known_version v = (if v = 0 then None else Some v)"

definition elapsed_secs :: "int \<Rightarrow> sync_state \<Rightarrow> nat" where
  "elapsed_secs now s = nat (now - sy_origin s) div 10 ^ 9"

definition mark_contact :: "int \<Rightarrow> sync_state \<Rightarrow> sync_state" where
  "mark_contact now s = s\<lparr>sy_last_contact_secs := elapsed_secs now s, sy_healthy := True\<rparr>"

definition mark_unreachable :: "sync_state \<Rightarrow> sync_state" where
  "mark_unreachable s = s\<lparr>sy_healthy := False\<rparr>"

definition policy_age :: "int \<Rightarrow> sync_state \<Rightarrow> nat" where
  "policy_age now s = (elapsed_secs now s - sy_last_contact_secs s) * 10 ^ 9"

definition sync_freshness :: "int \<Rightarrow> sync_state \<Rightarrow> freshness" where
  "sync_freshness now s =
     (let age = policy_age now s
      in if sy_cache_ttl s \<le> age then Expired else if sy_policy_lease s \<le> age then Stale else Fresh)"

definition heartbeat_healthy :: "int \<Rightarrow> sync_state \<Rightarrow> bool" where
  "heartbeat_healthy now s \<longleftrightarrow> sy_healthy s \<and> sync_freshness now s = Fresh"

definition platform_sync_state :: "int \<Rightarrow> u64 \<Rightarrow> nat option \<Rightarrow> bool \<Rightarrow> nat \<Rightarrow> nat \<Rightarrow> sync_state" where
  "platform_sync_state now version cache_age reachable policy_lease cache_ttl =
     (let s = sync_state_new now (Some version) cache_age policy_lease cache_ttl
      in if reachable then s else mark_unreachable s)"

record platform_heartbeat =
  ph_status :: string
  ph_tenants_version :: "u64 option"
  ph_usage_by_org :: "(string \<times> usage_snapshot) list"

definition platform_heartbeat_request :: "bool \<Rightarrow> u64 option \<Rightarrow> tenant_usage \<Rightarrow> platform_heartbeat" where
  "platform_heartbeat_request healthy tenants_version usage =
     \<lparr>ph_status = (if healthy then ''online'' else ''degraded''), ph_tenants_version = tenants_version,
      ph_usage_by_org = usage_report usage\<rparr>"

subsection \<open>The policy cache\<close>

definition trim_matches :: "char \<Rightarrow> string \<Rightarrow> string" where
  "trim_matches c s = trim_end_matches c (dropWhile (\<lambda>d. d = c) s)"

text \<open>The extension of a path without separators that neither starts nor ends with a dot.\<close>

definition stem_extension :: "string \<Rightarrow> string option" where
  "stem_extension s = map_option snd (rsplit_once_at (CHR ''.'') s)"

definition sanitize :: "string \<Rightarrow> string" where
  "sanitize name =
     (let stem = trim_matches (CHR ''.'')
            (filter (\<lambda>c. is_ascii_alphanumeric c \<or> c \<in> set ''-_.'') name)
      in if stem = [] then ''policy.toml''
         else (case stem_extension stem of
                 Some e \<Rightarrow> if e \<in> {''toml'', ''yaml'', ''yml''} then stem else stem @ ''.toml''
               | None \<Rightarrow> stem @ ''.toml''))"

text \<open>The directory of the cache: the files written, by name.\<close>

definition cache_policy :: "policy_document list \<Rightarrow> string \<rightharpoonup> string" where
  "cache_policy docs = fold (\<lambda>d files. files(sanitize (pd_name d) \<mapsto> pd_text d)) docs Map.empty"

subsection \<open>Polling\<close>

definition next_backoff :: "nat \<Rightarrow> nat" where
  "next_backoff b = min (b * 2) 60"

datatype 'a poll = Updated 'a | Unchanged | Failed

text \<open>One turn of \<^verbatim>\<open>run_tenant_sync\<close>, before the wait for the least time between polls.\<close>

record 'k tenant_sync =
  tsy_tenants :: "'k platform_tenants"
  tsy_state :: sync_state
  tsy_cache :: "tenant_list option"
  tsy_backoff :: nat

definition tenant_sync_known :: "'k tenant_sync \<Rightarrow> u64 option" where
  "tenant_sync_known s = known_version (sn_version (pt_table (tsy_tenants s)))"

definition tenant_sync_turn ::
  "('f, 'k) platform_env \<Rightarrow> int \<Rightarrow> (tenant_list \<Rightarrow> bool) \<Rightarrow> tenant_list poll \<Rightarrow> 'k tenant_sync \<Rightarrow> 'k tenant_sync \<times> nat" where
  "tenant_sync_turn env now cache_ok answer s =
     (case answer of
        Updated list \<Rightarrow>
          (s\<lparr>tsy_tenants := apply_tenants env list (tsy_tenants s),
             tsy_state := set_version (tls_version list) (mark_contact now (tsy_state s)),
             tsy_cache := (if cache_ok list then Some list else tsy_cache s), tsy_backoff := 1\<rparr>, 0)
      | Unchanged \<Rightarrow> (s\<lparr>tsy_state := mark_contact now (tsy_state s), tsy_backoff := 1\<rparr>, 0)
      | Failed \<Rightarrow>
          (s\<lparr>tsy_state := mark_unreachable (tsy_state s), tsy_backoff := next_backoff (tsy_backoff s)\<rparr>, tsy_backoff s))"

text \<open>One turn of \<^verbatim>\<open>run_control_plane_sync\<close>; having no policy yet is like having no newer one.\<close>

record policy_sync =
  psy_gateway :: gateway
  psy_state :: sync_state
  psy_backoff :: nat

definition policy_sync_turn ::
  "('f, 'k) platform_env \<Rightarrow> int \<Rightarrow> (u64 \<times> policy_document list) poll \<Rightarrow> policy_sync \<Rightarrow> policy_sync \<times> nat" where
  "policy_sync_turn env now answer s =
     (case answer of
        Updated (version, docs) \<Rightarrow>
          (case from_documents (pe_floats env) (pe_toml env) (pe_yaml env) (map (\<lambda>d. (pd_name d, pd_text d)) docs) of
             Inr ps \<Rightarrow> (s\<lparr>psy_gateway := policy_store ps (psy_gateway s), psy_state := set_version version (mark_contact now (psy_state s)),
                psy_backoff := 1\<rparr>, 0)
           | Inl _ \<Rightarrow> (s\<lparr>psy_state := mark_contact now (psy_state s), psy_backoff := 1\<rparr>, 0))
      | Unchanged \<Rightarrow> (s\<lparr>psy_state := mark_contact now (psy_state s), psy_backoff := 1\<rparr>, 0)
      | Failed \<Rightarrow>
          (s\<lparr>psy_state := mark_unreachable (psy_state s), psy_backoff := next_backoff (psy_backoff s)\<rparr>, psy_backoff s))"

text \<open>One turn of \<^verbatim>\<open>run_revocation_sync\<close>: the list is complete and replaces the revoked set.\<close>

record revocation_list =
  rv_generation :: u64
  rv_revoked :: "string list"

record revocation_sync =
  rsy_generation :: "u64 option"
  rsy_gateway :: gateway
  rsy_backoff :: nat

definition revocation_sync_turn :: "revocation_list poll \<Rightarrow> revocation_sync \<Rightarrow> revocation_sync \<times> nat" where
  "revocation_sync_turn answer s =
     (case answer of
        Updated l \<Rightarrow> (s\<lparr>rsy_generation := Some (rv_generation l), rsy_gateway := revocations_replace (rv_revoked l) (rsy_gateway s), rsy_backoff := 1\<rparr>, 0)
      | Unchanged \<Rightarrow> (s\<lparr>rsy_backoff := 1\<rparr>, 0)
      | Failed \<Rightarrow> (s\<lparr>rsy_backoff := next_backoff (rsy_backoff s)\<rparr>, rsy_backoff s))"

text \<open>
  The tenants a platform gateway starts with: fetched and cached, else the cached list, else none; with the
  cache afterwards.
\<close>

datatype initial_tenants = Fetched tenant_list | Cached tenant_list "nat option"

definition choose_initial_tenants ::
  "(tenant_list \<Rightarrow> bool) \<Rightarrow> tenant_list poll \<Rightarrow> tenant_list option \<Rightarrow> nat option \<Rightarrow>
   initial_tenants option \<times> tenant_list option" where
  "choose_initial_tenants cache_ok answer cache age =
     (case answer of
        Updated list \<Rightarrow> (Some (Fetched list), if cache_ok list then Some list else cache)
      | _ \<Rightarrow> (map_option (\<lambda>list. Cached list age) cache, cache))"

subsection \<open>Backing off\<close>

fun run_turns :: "('r \<Rightarrow> 's \<Rightarrow> 's \<times> nat) \<Rightarrow> 'r list \<Rightarrow> 's \<Rightarrow> 's \<times> nat list" where
  "run_turns turn [] s = (s, [])"
| "run_turns turn (r # rs) s =
     (case turn r s of (s1, n) \<Rightarrow> (case run_turns turn rs s1 of (s2, ns) \<Rightarrow> (s2, n # ns)))"

lemma run_turns_append:
  "run_turns turn (rs @ qs) s =
     (case run_turns turn rs s of (s1, ms) \<Rightarrow> (case run_turns turn qs s1 of (s2, ns) \<Rightarrow> (s2, ms @ ns)))"
  by (induction rs arbitrary: s) (simp_all add: split_beta)

text \<open>What the three loops share: a failed poll sleeps for the current delay and doubles it.\<close>

locale polling =
  fixes turn :: "'r \<Rightarrow> 's \<Rightarrow> 's \<times> nat"
    and failed :: "'r \<Rightarrow> bool"
    and backoff :: "'s \<Rightarrow> nat"
  assumes failing: "failed r \<Longrightarrow> snd (turn r s) = backoff s \<and> backoff (fst (turn r s)) = next_backoff (backoff s)"
    and answered: "\<not> failed r \<Longrightarrow> snd (turn r s) = 0 \<and> backoff (fst (turn r s)) = 1"
begin

lemma outage_delays:
  assumes "\<forall>r \<in> set rs. failed r" "backoff s = min (2 ^ k) 60"
  shows "snd (run_turns turn rs s) = map (\<lambda>i. min (2 ^ (k + i)) 60) [0..<length rs]"
    "backoff (fst (run_turns turn rs s)) = min (2 ^ (k + length rs)) 60"
proof -
  have "snd (run_turns turn rs s) = map (\<lambda>i. min (2 ^ (k + i)) 60) [0..<length rs] \<and>
    backoff (fst (run_turns turn rs s)) = min (2 ^ (k + length rs)) 60"
    using assms
  proof (induction rs arbitrary: s k)
    case (Cons r rs)
    have f: "snd (turn r s) = min (2 ^ k) 60" "backoff (fst (turn r s)) = min (2 ^ Suc k) 60"
      using failing [of r s] Cons.prems by (auto simp: next_backoff_def)
    have "map (\<lambda>i. min (2 ^ (k + i)) (60 :: nat)) [0..<length (r # rs)] =
        min (2 ^ k) 60 # map (\<lambda>i. min (2 ^ (Suc k + i)) 60) [0..<length rs]"
      by (simp add: upt_conv_Cons map_Suc_upt [symmetric] del: upt_Suc)
    then show ?case
      using Cons.IH [of "fst (turn r s)" "Suc k"] Cons.prems(1) f by (simp add: split_beta)
  qed simp
  then show "snd (run_turns turn rs s) = map (\<lambda>i. min (2 ^ (k + i)) 60) [0..<length rs]"
    "backoff (fst (run_turns turn rs s)) = min (2 ^ (k + length rs)) 60" by auto
qed

lemma delays_bounded:
  "backoff s \<le> 60 \<Longrightarrow> \<forall>n \<in> set (snd (run_turns turn rs s)). n \<le> 60"
proof (induction rs arbitrary: s)
  case (Cons r rs)
  have "snd (turn r s) \<le> 60" "backoff (fst (turn r s)) \<le> 60"
    using failing [of r s] answered [of r s] Cons.prems by (cases "failed r"; simp add: next_backoff_def)+
  then show ?case using Cons.IH [of "fst (turn r s)"] by (simp add: split_beta)
qed simp

end

fun poll_failed :: "'t \<times> 'a poll \<Rightarrow> bool" where
  "poll_failed (_, Failed) = True"
| "poll_failed (_, _) = False"

lemma poll_failed_iff: "poll_failed r \<longleftrightarrow> snd r = Failed"
  by (cases r rule: poll_failed.cases) simp_all

interpretation tenant_polling: polling "\<lambda>r. tenant_sync_turn env (fst r) cache_ok (snd r)" poll_failed tsy_backoff
  by unfold_locales (auto simp: poll_failed_iff tenant_sync_turn_def split: poll.splits)

interpretation policy_polling: polling "\<lambda>r. policy_sync_turn env (fst r) (snd r)" poll_failed psy_backoff
  by unfold_locales (auto simp: poll_failed_iff policy_sync_turn_def split: poll.splits sum.splits prod.splits)

interpretation revocation_polling: polling "\<lambda>r. revocation_sync_turn (snd r)" poll_failed rsy_backoff
  by unfold_locales (auto simp: poll_failed_iff revocation_sync_turn_def split: poll.splits)

text \<open>
  An outage of the control plane slows every polling loop down and never stops it: from a loop that
  has just been answered, consecutive failures sleep one, two, four seconds and so on, capped at a
  minute, in the tenant, the policy and the revocation loop alike.
\<close>

theorem outage_backoff_doubles_to_a_minute:
  assumes "\<forall>r \<in> set ts. snd r = Failed" "tsy_backoff t = 1"
    and "\<forall>r \<in> set ps. snd r = Failed" "psy_backoff p = 1"
    and "\<forall>r \<in> set rs. snd r = Failed" "rsy_backoff s = 1"
  shows "snd (run_turns (\<lambda>r. tenant_sync_turn env (fst r) cache_ok (snd r)) ts t) = map (\<lambda>i. min (2 ^ i) 60) [0..<length ts] \<and>
    snd (run_turns (\<lambda>r. policy_sync_turn env (fst r) (snd r)) ps p) = map (\<lambda>i. min (2 ^ i) 60) [0..<length ps] \<and>
    snd (run_turns (\<lambda>r. revocation_sync_turn (snd r)) rs s) = map (\<lambda>i. min (2 ^ i) 60) [0..<length rs]"
  using tenant_polling.outage_delays(1) [of ts t 0, where env = env and cache_ok = cache_ok]
    policy_polling.outage_delays(1) [of ps p 0, where env = env]
    revocation_polling.outage_delays(1) [of rs s 0] assms
  by (simp add: poll_failed_iff)

subsection \<open>What the loops leave in force\<close>

text \<open>The policies the control plane last published in a form that loads, with their version.\<close>

fun last_loadable ::
  "('f, 'k) platform_env \<Rightarrow> (int \<times> (u64 \<times> policy_document list) poll) list \<Rightarrow> policy_set \<times> u64 \<Rightarrow> policy_set \<times> u64" where
  "last_loadable env [] initial = initial"
| "last_loadable env ((now, Updated (version, docs)) # rs) initial =
     last_loadable env rs
       (case from_documents (pe_floats env) (pe_toml env) (pe_yaml env) (map (\<lambda>d. (pd_name d, pd_text d)) docs) of
          Inr ps \<Rightarrow> (ps, version) | Inl _ \<Rightarrow> initial)"
| "last_loadable env ((now, Unchanged) # rs) initial = last_loadable env rs initial"
| "last_loadable env ((now, Failed) # rs) initial = last_loadable env rs initial"

text \<open>The instant of the last answered poll.\<close>

fun last_answered :: "(int \<times> 'a poll) list \<Rightarrow> int option" where
  "last_answered [] = None"
| "last_answered ((now, answer) # rs) =
     (case last_answered rs of
        Some t \<Rightarrow> Some t
      | None \<Rightarrow> if answer = Failed then None else Some now)"

abbreviation run_policy_sync where
  "run_policy_sync env \<equiv> run_turns (\<lambda>r. policy_sync_turn env (fst r) (snd r))"

lemma last_loadable_wf:
  "list_all policy_wf (fst initial) \<Longrightarrow> list_all policy_wf (fst (last_loadable env rs initial))"
proof (induction env rs initial rule: last_loadable.induct)
  case (2 env now version docs rs initial)
  show ?case
  proof (cases "from_documents (pe_floats env) (pe_toml env) (pe_yaml env) (map (\<lambda>d. (pd_name d, pd_text d)) docs)")
    case (Inr ps)
    then have "list_all policy_wf ps" using from_documents_wf by blast
    then show ?thesis using 2 Inr by simp
  qed (use 2 in simp)
qed simp_all

text \<open>The effect of a turn, field by field.\<close>

lemma policy_sync_turn_effect:
  "psy_gateway (fst (policy_sync_turn env now answer s)) =
     policy_store (fst (last_loadable env [(now, answer)] (gw_policies (psy_gateway s), sy_version (psy_state s)))) (psy_gateway s)"
  "sy_version (psy_state (fst (policy_sync_turn env now answer s))) =
     snd (last_loadable env [(now, answer)] (gw_policies (psy_gateway s), sy_version (psy_state s)))"
  "sy_origin (psy_state (fst (policy_sync_turn env now answer s))) = sy_origin (psy_state s)"
  "sy_policy_lease (psy_state (fst (policy_sync_turn env now answer s))) = sy_policy_lease (psy_state s)"
  "sy_cache_ttl (psy_state (fst (policy_sync_turn env now answer s))) = sy_cache_ttl (psy_state s)"
  "sy_last_contact_secs (psy_state (fst (policy_sync_turn env now answer s))) =
     (if answer = Failed then sy_last_contact_secs (psy_state s) else nat (now - sy_origin (psy_state s)) div 10 ^ 9)"
  by (cases answer; simp add: policy_sync_turn_def policy_store_def mark_contact_def mark_unreachable_def
      set_version_def elapsed_secs_def split: sum.split prod.split)+

lemma last_loadable_Cons:
  "last_loadable env (r # rs) initial = last_loadable env rs (last_loadable env [r] initial)"
  by (cases "(env, r # rs, initial)" rule: last_loadable.cases) (simp_all split: sum.split)

lemma policy_sync_enforces:
  "psy_gateway (fst (run_policy_sync env rs s)) =
     policy_store (fst (last_loadable env rs (gw_policies (psy_gateway s), sy_version (psy_state s)))) (psy_gateway s) \<and>
   sy_version (psy_state (fst (run_policy_sync env rs s))) =
     snd (last_loadable env rs (gw_policies (psy_gateway s), sy_version (psy_state s)))"
proof (induction rs arbitrary: s)
  case Nil
  show ?case by (simp add: policy_store_def)
next
  case (Cons r rs)
  have g: "fst (run_policy_sync env (r # rs) s) = fst (run_policy_sync env rs (fst (policy_sync_turn env (fst r) (snd r) s)))"
    by (simp add: split_beta)
  have p: "(gw_policies (psy_gateway (fst (policy_sync_turn env (fst r) (snd r) s))),
      sy_version (psy_state (fst (policy_sync_turn env (fst r) (snd r) s)))) =
    last_loadable env [r] (gw_policies (psy_gateway s), sy_version (psy_state s))"
    by (simp only: policy_sync_turn_effect prod.collapse) (simp add: policy_store_def)
  show ?case
    by (subst (1 2) last_loadable_Cons)
      (simp only: g Cons.IH p, simp add: policy_sync_turn_effect(1) policy_store_def)
qed

lemma policy_sync_contact:
  "sy_origin (psy_state (fst (run_policy_sync env rs s))) = sy_origin (psy_state s) \<and>
   sy_policy_lease (psy_state (fst (run_policy_sync env rs s))) = sy_policy_lease (psy_state s) \<and>
   sy_cache_ttl (psy_state (fst (run_policy_sync env rs s))) = sy_cache_ttl (psy_state s) \<and>
   sy_last_contact_secs (psy_state (fst (run_policy_sync env rs s))) =
     (case last_answered rs of
        None \<Rightarrow> sy_last_contact_secs (psy_state s)
      | Some t \<Rightarrow> nat (t - sy_origin (psy_state s)) div 10 ^ 9)"
proof (induction rs arbitrary: s)
  case (Cons r rs)
  have g: "fst (run_policy_sync env (r # rs) s) = fst (run_policy_sync env rs (fst (policy_sync_turn env (fst r) (snd r) s)))"
    by (simp add: split_beta)
  have l: "last_answered (r # rs) = (case last_answered rs of Some t \<Rightarrow> Some t
      | None \<Rightarrow> if snd r = Failed then None else Some (fst r))"
    by (cases r) (simp split: option.split)
  show ?case unfolding g l
    using Cons.IH [of "fst (policy_sync_turn env (fst r) (snd r) s)"]
    by (simp add: policy_sync_turn_effect(3-6) split: option.split)
qed simp

text \<open>
  C18. A control-plane outage or a broken update never stops or weakens enforcement. After any sequence
  of polls, answered, failed or carrying policies that do not load, the gateway enforces the last
  published set that loaded (else the one it started with), every policy of it well formed, reports that set's
  version, and nothing else of the gateway has changed; and the policy counts as expired exactly
  when the time since the last answered poll, in whole seconds, reaches the cache's time to live.
\<close>

theorem policy_sync_fail_static:
  assumes "list_all policy_wf (gw_policies (psy_gateway s))"
    and "last_answered rs = Some t" "s' = fst (run_policy_sync env rs s)"
  shows "(gw_policies (psy_gateway s'), sy_version (psy_state s')) =
      last_loadable env rs (gw_policies (psy_gateway s), sy_version (psy_state s)) \<and>
    list_all policy_wf (gw_policies (psy_gateway s')) \<and>
    psy_gateway s' = (psy_gateway s)\<lparr>gw_policies := gw_policies (psy_gateway s')\<rparr> \<and>
    (sync_freshness now (psy_state s') = Expired \<longleftrightarrow>
       sy_cache_ttl (psy_state s) \<le> (nat (now - sy_origin (psy_state s)) div 10 ^ 9
          - nat (t - sy_origin (psy_state s)) div 10 ^ 9) * 10 ^ 9)"
proof -
  let ?i = "(gw_policies (psy_gateway s), sy_version (psy_state s))"
  note e = policy_sync_enforces [of env rs s] and c = policy_sync_contact [of env rs s]
  have g: "psy_gateway s' = policy_store (fst (last_loadable env rs ?i)) (psy_gateway s)"
    "sy_version (psy_state s') = snd (last_loadable env rs ?i)" using e by (simp_all only: assms(3))
  have p: "gw_policies (psy_gateway s') = fst (last_loadable env rs ?i)" by (simp add: g(1) policy_store_def)
  have wf: "list_all policy_wf (fst (last_loadable env rs ?i))" using assms(1) by (intro last_loadable_wf) simp
  have f: "sy_last_contact_secs (psy_state s') = nat (t - sy_origin (psy_state s)) div 10 ^ 9"
    "sy_origin (psy_state s') = sy_origin (psy_state s)" "sy_cache_ttl (psy_state s') = sy_cache_ttl (psy_state s)"
    using c by (simp_all add: assms(2,3))
  show ?thesis
    by (intro conjI, simp add: p g(2), simp add: p wf, simp add: g(1) policy_store_def,
        simp add: sync_freshness_def policy_age_def elapsed_secs_def f Let_def)
qed

definition sample_policy_sync :: policy_sync where
  "sample_policy_sync = \<lparr>psy_gateway = sample_gateway,
     psy_state = sync_state_new 0 (Some 3) None (900 * 10 ^ 9) (86400 * 10 ^ 9), psy_backoff = 1\<rparr>"

definition sample_polls :: "(int \<times> (u64 \<times> policy_document list) poll) list" where
  "sample_polls = [(10 ^ 9, Updated (4, [])), (2 * 10 ^ 9, Failed),
     (5 * 10 ^ 9, Updated (5, [\<lparr>pd_name = ''a.yaml'', pd_text = ''''\<rparr>]))]"

text \<open>The list of the last poll that delivered one.\<close>

fun last_list :: "('t \<times> revocation_list poll) list \<Rightarrow> revocation_list option" where
  "last_list [] = None"
| "last_list ((now, answer) # rs) =
     (case last_list rs of Some l \<Rightarrow> Some l | None \<Rightarrow> (case answer of Updated l \<Rightarrow> Some l | _ \<Rightarrow> None))"

lemma revocation_turn_revoked:
  "gw_revoked (rsy_gateway (fst (revocation_sync_turn answer s))) =
     (case answer of Updated l \<Rightarrow> set (rv_revoked l) | _ \<Rightarrow> gw_revoked (rsy_gateway s))"
  by (cases answer) (simp_all add: revocation_sync_turn_def revocations_replace_def)

lemma revocation_sync_keeps_list:
  "gw_revoked (rsy_gateway (fst (run_turns (\<lambda>r. revocation_sync_turn (snd r)) rs s))) =
     (case last_list rs of Some l \<Rightarrow> set (rv_revoked l) | None \<Rightarrow> gw_revoked (rsy_gateway s))"
proof (induction rs arbitrary: s)
  case (Cons r rs)
  have l: "last_list (r # rs) = (case last_list rs of Some l \<Rightarrow> Some l
      | None \<Rightarrow> (case snd r of Updated l \<Rightarrow> Some l | _ \<Rightarrow> None))"
    by (cases r) (simp split: option.split)
  have g: "fst (run_turns (\<lambda>r. revocation_sync_turn (snd r)) (r # rs) s) =
      fst (run_turns (\<lambda>r. revocation_sync_turn (snd r)) rs (fst (revocation_sync_turn (snd r) s)))"
    by (simp add: split_beta)
  show ?case unfolding g l Cons.IH revocation_turn_revoked
    by (cases "last_list rs"; cases "snd r") simp_all
qed simp

text \<open>
  C19. A session the control plane ended opens no tunnel. After any sequence of revocation polls whose last
  delivered list is the given one, the gateway's revoked set is exactly the listed sessions, whatever was revoked
  before, and a tunnel that opens on the multi-tenant stack belongs to a session that is not on the list.
\<close>

theorem ended_sessions_open_no_tunnel:
  assumes "last_list rs = Some l" "s' = fst (run_turns (\<lambda>r. revocation_sync_turn (snd r)) rs s)"
    and "gw_revoked w = gw_revoked (rsy_gateway s')"
    and "platform_service (platform_verify peek verifier) decode_exp disp rq w = (Opened a, w')"
  shows "gw_revoked (rsy_gateway s') = set (rv_revoked l) \<and>
    (\<exists>token org identity. bearer_token rq = Some token \<and> platform_verify peek verifier token w = Inr (org, identity) \<and>
       wi_sid identity \<notin> Some ` set (rv_revoked l))"
proof -
  have r: "gw_revoked (rsy_gateway s') = set (rv_revoked l)"
    using revocation_sync_keeps_list [of rs s] assms(1,2) by simp
  obtain token org identity e b where c: "bearer_token rq = Some token"
    "platform_verify peek verifier token w = Inr (org, identity)"
    "session_end decode_exp (identified rq org identity) w = Some e"
    using assms(4) by (rule platform_chain)
  show ?thesis using session_end_Some [OF c(3)] c(1,2) r assms(3) by auto
qed

definition sample_revocations :: revocation_list where
  "sample_revocations = \<lparr>rv_generation = 2, rv_revoked = [''x'']\<rparr>"

definition sample_revocation_sync :: revocation_sync where
  "sample_revocation_sync = \<lparr>rsy_generation = None, rsy_gateway = sample_gateway, rsy_backoff = 1\<rparr>"

theorem ended_sessions_open_no_tunnel_witness:
  "\<exists>rq w a w'. gw_revoked w = set (rv_revoked sample_revocations) \<and>
     platform_service (platform_verify sample_peek sample_verifier) (\<lambda>_. None)
       (dispatch_call (\<lambda>_ _. False) sample_network sample_dispatch) rq w = (Opened a, w') \<and>
     (\<exists>token org identity. bearer_token rq = Some token \<and> platform_verify sample_peek sample_verifier token w = Inr (org, identity) \<and>
       wi_sid identity \<notin> Some ` {''x''})"
proof -
  let ?rs = "[(0 :: int, Updated sample_revocations), (1, Failed)]"
  define s where "s = fst (run_turns (\<lambda>r. revocation_sync_turn (snd r)) ?rs sample_revocation_sync)"
  have l: "last_list ?rs = Some sample_revocations" by simp
  have w: "rsy_gateway s = sample_gateway\<lparr>gw_revoked := {''x''}\<rparr>"
    by (simp add: s_def revocation_sync_turn_def sample_revocation_sync_def revocations_replace_def
        sample_revocations_def sample_gateway_def)
  have v: "platform_verify sample_peek sample_verifier ''t'' (rsy_gateway s) = Inr (''o'', identity_default\<lparr>wi_sid := Some ''s''\<rparr>)"
    unfolding w by code_simp
  have "\<exists>a w'. platform_service (platform_verify sample_peek sample_verifier) (\<lambda>_. None)
     (dispatch_call (\<lambda>_ _. False) sample_network sample_dispatch) (sample_bearing ''t'') (rsy_gateway s) = (Opened a, w')"
  proof (rule sample_stack_opens [where verify = "platform_verify sample_peek sample_verifier", OF _ v])
    show "bearer_token (sample_bearing ''t'') = Some ''t''" by code_simp
    show "resolve_org (gw_tenants (rsy_gateway s)) ''o'' = Some \<lparr>tn_id = ''o'', tn_slug = ''o'', tn_owners = [],
        tn_owner_ids = Map.empty, tn_policy = [sample_policy ''open'' False Action_Allow HP_Any]\<rparr>"
      by (simp add: w sample_gateway_def resolve_org_def)
    show "wi_sid (identity_default\<lparr>wi_sid := Some ''s''\<rparr>) \<notin> Some ` gw_revoked (rsy_gateway s)"
      by (simp add: w)
    show "set_evaluate (tn_policy \<lparr>tn_id = ''o'', tn_slug = ''o'', tn_owners = [],
        tn_owner_ids = Map.empty, tn_policy = [sample_policy ''open'' False Action_Allow HP_Any]\<rparr>)
       (enforce_context (identified (sample_bearing ''t'') ''o'' (identity_default\<lparr>wi_sid := Some ''s''\<rparr>))
         \<lparr>tg_host = Name ''a'', tg_port = 443\<rparr>) = Allow sample_allowed"
      using sample_decision by (simp add: sample_credential_def)
  qed
  then obtain a w' where o: "platform_service (platform_verify sample_peek sample_verifier) (\<lambda>_. None)
     (dispatch_call (\<lambda>_ _. False) sample_network sample_dispatch) (sample_bearing ''t'') (rsy_gateway s) = (Opened a, w')"
    by blast
  have x: "set (rv_revoked sample_revocations) = {''x''}" by (simp add: sample_revocations_def)
  show ?thesis
    by (rule exI [of _ "sample_bearing ''t''"], rule exI [of _ "rsy_gateway s"], rule exI [of _ a], rule exI [of _ w'])
      (use ended_sessions_open_no_tunnel [OF l s_def refl o] o in \<open>simp only: x simp_thms\<close>)
qed

lemma sample_bad_document:
  "from_named_document F toml (pe_yaml sample_env) ''a.yaml'' t = Inl (PE_Yaml ''none'')"
proof -
  have "ends_with (to_ascii_lowercase ''a.yaml'') ''.yaml''" by code_simp
  then show ?thesis by (simp add: from_named_document_def from_yaml_def sample_env_def Let_def)
qed

theorem policy_sync_fail_static_witness:
  "gw_policies (psy_gateway (fst (run_policy_sync sample_env sample_polls sample_policy_sync))) = [] \<and>
   sy_version (psy_state (fst (run_policy_sync sample_env sample_polls sample_policy_sync))) = 4 \<and>
   sync_freshness (86406 * 10 ^ 9) (psy_state (fst (run_policy_sync sample_env sample_polls sample_policy_sync))) = Expired"
proof -
  have wf: "list_all policy_wf (gw_policies (psy_gateway sample_policy_sync))"
    by (simp add: sample_policy_sync_def sample_gateway_def)
  have t: "last_answered sample_polls = Some (5 * 10 ^ 9)" by (simp add: sample_polls_def)
  have l: "last_loadable sample_env sample_polls (gw_policies (psy_gateway sample_policy_sync),
      sy_version (psy_state sample_policy_sync)) = ([], 4)"
    by (simp add: sample_polls_def sample_policy_sync_def sample_gateway_def from_documents_def sample_bad_document)
  show ?thesis
    using policy_sync_fail_static [OF wf t refl, of sample_env "86406 * 10 ^ 9"]
    by (simp add: l) (simp add: sample_policy_sync_def sync_state_new_def instant_checked_sub_def)
qed

theorem outage_backoff_doubles_to_a_minute_witness:
  "snd (run_turns (\<lambda>r. revocation_sync_turn (snd r)) (replicate 8 (0 :: int, Failed)) sample_revocation_sync) =
     [1, 2, 4, 8, 16, 32, 60, 60]"
  using outage_backoff_doubles_to_a_minute [of "[]" "\<lparr>tsy_tenants = pt, tsy_state = psy_state sample_policy_sync,
      tsy_cache = None, tsy_backoff = 1\<rparr>" "[]" sample_policy_sync "replicate 8 (0 :: int, Failed)" sample_revocation_sync
      sample_env "\<lambda>_. True"]
  by (simp add: sample_policy_sync_def sample_revocation_sync_def upt_rec)

subsection \<open>The names of cached documents\<close>

lemma trim_matches_hd: "trim_matches c s \<noteq> [] \<Longrightarrow> hd (trim_matches c s) \<noteq> c"
proof -
  assume ne: "trim_matches c s \<noteq> []"
  let ?d = "dropWhile (\<lambda>d. d = c) s"
  have "rev ?d = takeWhile (\<lambda>d. d = c) (rev ?d) @ dropWhile (\<lambda>d. d = c) (rev ?d)" by simp
  from arg_cong [OF this, of rev]
  have p: "?d = trim_matches c s @ rev (takeWhile (\<lambda>d. d = c) (rev ?d))"
    by (simp add: trim_matches_def trim_end_matches_def del: takeWhile_dropWhile_id)
  then have "?d \<noteq> []" using ne by (metis append_is_Nil_conv)
  moreover have "hd ?d = hd (trim_matches c s)" using p ne by (metis hd_append2)
  ultimately show ?thesis using hd_dropWhile [of "\<lambda>d. d = c" s] by simp
qed

lemma set_trim_matches: "set (trim_matches c s) \<subseteq> set s"
  by (auto simp: trim_matches_def trim_end_matches_def dest!: set_dropWhileD)

lemma stem_extension_append: "stem_extension s = Some e \<Longrightarrow> \<exists>l. s = l @ CHR ''.'' # e"
  by (auto simp: stem_extension_def dest: rsplit_once_at_SomeD)

text \<open>
  A control plane cannot steer a write outside the policy directory: the name a document is cached under
  is a single path component of letters, digits, dashes, underscores and dots that does not start with a
  dot and ends in an extension the loader reads.
\<close>

theorem cached_name_is_contained:
  "sanitize name \<noteq> [] \<and> hd (sanitize name) \<noteq> CHR ''.'' \<and>
   (\<forall>c \<in> set (sanitize name). is_ascii_alphanumeric c \<or> c \<in> set ''-_.'') \<and>
   (\<exists>l. sanitize name = l @ ''.toml'' \<or> sanitize name = l @ ''.yaml'' \<or> sanitize name = l @ ''.yml'')"
proof -
  let ?ok = "\<lambda>c. is_ascii_alphanumeric c \<or> c \<in> set ''-_.''"
  define stem where "stem = trim_matches (CHR ''.'') (filter ?ok name)"
  have ok: "\<forall>c \<in> set stem. ?ok c"
    unfolding stem_def using set_trim_matches [of "CHR ''.''" "filter ?ok name"] by auto
  have suffix: "\<forall>c \<in> set (''policy.toml''). ?ok c" by code_simp
  have first: "stem \<noteq> [] \<Longrightarrow> hd stem \<noteq> CHR ''.''" unfolding stem_def by (rule trim_matches_hd)
  have s: "sanitize name = (if stem = [] then ''policy.toml''
      else (case stem_extension stem of
              Some e \<Rightarrow> if e \<in> {''toml'', ''yaml'', ''yml''} then stem else stem @ ''.toml''
            | None \<Rightarrow> stem @ ''.toml''))"
    by (simp only: sanitize_def stem_def Let_def)
  show ?thesis
  proof (cases "stem = []")
    case True
    then show ?thesis using suffix by (simp add: s)
  next
    case ne: False
    show ?thesis
    proof (cases "\<exists>e \<in> {''toml'', ''yaml'', ''yml''}. stem_extension stem = Some e")
      case True
      then obtain e where e: "e \<in> {''toml'', ''yaml'', ''yml''}" "stem_extension stem = Some e" by blast
      then obtain l where "stem = l @ CHR ''.'' # e" using stem_extension_append by blast
      then show ?thesis using e ne ok first by (auto simp: s)
    next
      case False
      then have "sanitize name = stem @ ''.toml''" using ne by (auto simp: s split: option.split)
      then show ?thesis using ne ok suffix first by simp
    qed
  qed
qed

theorem cached_name_is_contained_witness:
  "sanitize ''../etc/x'' = ''etcx.toml'' \<and> hd (sanitize ''../etc/x'') \<noteq> CHR ''.''"
proof -
  have "sanitize ''../etc/x'' = ''etcx.toml''" by code_simp
  then show ?thesis using cached_name_is_contained [of "''../etc/x''"] by blast
qed

text \<open>
  Dropping characters merges names: two documents of one published set can be cached under one file,
  and the directory then holds the later one only.
\<close>

lemma cache_merges_names:
  "cache_policy [\<lparr>pd_name = ''team/a'', pd_text = t1\<rparr>, \<lparr>pd_name = ''teama.toml'', pd_text = t2\<rparr>] = [''teama.toml'' \<mapsto> t2]"
proof -
  have "sanitize ''team/a'' = ''teama.toml''" "sanitize ''teama.toml'' = ''teama.toml''" by code_simp+
  then show ?thesis by (simp add: cache_policy_def)
qed

text \<open>
  An update that does not load keeps the known version and is followed by the next poll at once, however
  often it repeats: the control plane, asked again from the old version, answers again at once.
\<close>

lemma unloadable_update_is_repolled:
  assumes "from_documents (pe_floats env) (pe_toml env) (pe_yaml env) (map (\<lambda>d. (pd_name d, pd_text d)) docs) = Inl e"
  shows "snd (policy_sync_turn env now (Updated (version, docs)) s) = 0"
    "sy_version (psy_state (fst (policy_sync_turn env now (Updated (version, docs)) s))) = sy_version (psy_state s)"
  using assms by (simp_all add: policy_sync_turn_def mark_contact_def)

end
