(* ===== verification/Audit_Ship.thy ===== *)
theory Audit_Ship
  imports Control_Sync "HOL-Library.Sublist"
begin

text \<open>
  Shipping the audit trail to the control plane: the sink that records and queues
  (\<^verbatim>\<open>skimasque-cli/src/audit_ship.rs\<close>), the hash chain (\<^verbatim>\<open>skimasque-protocol/src/lib.rs\<close>) and the two
  shipping loops, of a single-organisation gateway and of a platform gateway (\<^verbatim>\<open>platform.rs\<close>).
  SHA-256 and the JSON writer are arguments; the answers of the control plane, and the events that
  arrive while a loop sleeps, are arguments of a turn. Sequence numbers are 64 bits wide.
\<close>

subsection \<open>The chain\<close>

record audit_head =
  ah_seq :: u64
  ah_hash :: string

definition AUDIT_GENESIS :: string where
  "AUDIT_GENESIS = replicate 64 (CHR ''0'')"

definition audit_head_genesis :: audit_head where
  "audit_head_genesis = \<lparr>ah_seq = 0, ah_hash = AUDIT_GENESIS\<rparr>"

fun hex_pairs :: "bytes \<Rightarrow> string" where
  "hex_pairs [] = []"
| "hex_pairs (b # bs) = hex_char (unat b div 16) # hex_char (unat b mod 16) # hex_pairs bs"

definition audit_input :: "u64 \<Rightarrow> string \<Rightarrow> string \<Rightarrow> bytes" where
  "audit_input seq prev_hash event_json = be_bytes 8 seq @ as_bytes prev_hash @ as_bytes event_json"

definition audit_hash :: "(bytes \<Rightarrow> bytes) \<Rightarrow> u64 \<Rightarrow> string \<Rightarrow> string \<Rightarrow> string" where
  "audit_hash sha256 seq prev_hash event_json = hex_pairs (sha256 (audit_input seq prev_hash event_json))"

record chained_event =
  ce_seq :: u64
  ce_prev_hash :: string
  ce_event_json :: string

record platform_audit_event =
  pa_org_id :: string
  pa_seq :: u64
  pa_prev_hash :: string
  pa_event_json :: string

fun chain_with ::
  "(bytes \<Rightarrow> bytes) \<Rightarrow> (audit_event \<Rightarrow> string) \<Rightarrow> (audit_event \<Rightarrow> u64 \<Rightarrow> string \<Rightarrow> string \<Rightarrow> 'i option) \<Rightarrow>
   audit_event list \<Rightarrow> u64 \<Rightarrow> string \<Rightarrow> 'i list \<times> string" where
  "chain_with sha json mk [] seq hash = ([], hash)"
| "chain_with sha json mk (event # events) seq hash =
     (case mk event seq hash (json event) of
        Some item \<Rightarrow>
          (case chain_with sha json mk events (seq + 1) (audit_hash sha seq hash (json event)) of
             (batch, last_hash) \<Rightarrow> (item # batch, last_hash))
      | None \<Rightarrow> chain_with sha json mk events seq hash)"

definition chain_batch ::
  "(bytes \<Rightarrow> bytes) \<Rightarrow> (audit_event \<Rightarrow> string) \<Rightarrow> audit_event list \<Rightarrow> u64 \<Rightarrow> string \<Rightarrow> chained_event list \<times> string" where
  "chain_batch sha json = chain_with sha json
     (\<lambda>_ seq prev event_json. Some \<lparr>ce_seq = seq, ce_prev_hash = prev, ce_event_json = event_json\<rparr>)"

definition chain_platform_batch ::
  "(bytes \<Rightarrow> bytes) \<Rightarrow> (audit_event \<Rightarrow> string) \<Rightarrow> audit_event list \<Rightarrow> u64 \<Rightarrow> string \<Rightarrow>
   platform_audit_event list \<times> string" where
  "chain_platform_batch sha json = chain_with sha json
     (\<lambda>event seq prev event_json. map_option
        (\<lambda>org. \<lparr>pa_org_id = org, pa_seq = seq, pa_prev_hash = prev, pa_event_json = event_json\<rparr>) (ae_org_id event))"

subsection \<open>The queue\<close>

definition AUDIT_BUFFER :: nat where "AUDIT_BUFFER = 4096"

definition BATCH_MAX :: nat where "BATCH_MAX = 256"

definition MAX_PENDING :: nat where "MAX_PENDING = 10000"

text \<open>
  The state of a sink and its shipping task: the events recorded locally, the channel between the
  two, and what the task holds.
\<close>

record shipper =
  sh_local :: "audit_event list"
  sh_queue :: "audit_event list"
  sh_pending :: "audit_event list"
  sh_next_seq :: u64
  sh_prev_hash :: string
  sh_backoff :: nat
  sh_disk :: "audit_head option"

definition sink_record :: "audit_event \<Rightarrow> shipper \<Rightarrow> shipper" where
  "sink_record event s =
     (let s1 = s\<lparr>sh_local := sh_local s @ [event]\<rparr>
      in if length (sh_queue s) < AUDIT_BUFFER then s1\<lparr>sh_queue := sh_queue s @ [event]\<rparr> else s1)"

definition resume_from :: "audit_head option \<Rightarrow> audit_head option \<Rightarrow> audit_head" where
  "resume_from fetched disk =
     (case fetched of Some head \<Rightarrow> head
      | None \<Rightarrow> (case disk of Some head \<Rightarrow> head | None \<Rightarrow> audit_head_genesis))"

definition shipper_start :: "audit_head option \<Rightarrow> shipper \<Rightarrow> shipper" where
  "shipper_start fetched s =
     (let head = resume_from fetched (sh_disk s)
      in s\<lparr>sh_pending := [], sh_next_seq := ah_seq head + 1, sh_prev_hash := ah_hash head, sh_backoff := 1\<rparr>)"

definition admit_platform_event :: "audit_event list \<Rightarrow> audit_event \<Rightarrow> audit_event list" where
  "admit_platform_event pending event = (if ae_org_id event = None then pending else pending @ [event])"

definition admit_event :: "audit_event list \<Rightarrow> audit_event \<Rightarrow> audit_event list" where
  "admit_event pending event = pending @ [event]"

text \<open>Taking from the channel without waiting until so many events are pending.\<close>

fun receive_up_to ::
  "(audit_event list \<Rightarrow> audit_event \<Rightarrow> audit_event list) \<Rightarrow> nat \<Rightarrow> audit_event list \<Rightarrow> audit_event list \<Rightarrow>
   audit_event list \<times> audit_event list" where
  "receive_up_to adm limit pending [] = (pending, [])"
| "receive_up_to adm limit pending (event # queue) =
     (if length pending < limit then receive_up_to adm limit (adm pending event) queue
      else (pending, event # queue))"

definition receive ::
  "(audit_event list \<Rightarrow> audit_event \<Rightarrow> audit_event list) \<Rightarrow> nat \<Rightarrow> shipper \<Rightarrow> shipper" where
  "receive adm limit s =
     (case receive_up_to adm limit (sh_pending s) (sh_queue s) of
        (pending, queue) \<Rightarrow> s\<lparr>sh_pending := pending, sh_queue := queue\<rparr>)"

text \<open>Waiting for the first event; nothing when the channel is empty.\<close>

definition receive_first ::
  "(audit_event list \<Rightarrow> audit_event \<Rightarrow> audit_event list) \<Rightarrow> shipper \<Rightarrow> shipper option" where
  "receive_first adm s =
     (if sh_pending s = [] then
        (case sh_queue s of
           [] \<Rightarrow> None
         | event # queue \<Rightarrow> Some (s\<lparr>sh_pending := adm (sh_pending s) event, sh_queue := queue\<rparr>))
      else Some s)"

subsection \<open>The shipping loops\<close>

text \<open>An answer to a shipped batch; with an error, the answer to asking for the head.\<close>

datatype ship_answer = Ship_Ok | Ship_Error string "audit_head option"

text \<open>
  What follows a failed request: on a conflict the chain is re-based on the head the control plane
  reports, otherwise the task sleeps while events arrive, and takes more of them.
\<close>

definition ship_failed ::
  "(audit_event list \<Rightarrow> audit_event \<Rightarrow> audit_event list) \<Rightarrow> string \<Rightarrow> audit_head option \<Rightarrow> audit_event list \<Rightarrow>
   shipper \<Rightarrow> shipper" where
  "ship_failed adm error head arrivals s =
     (case (str_contains ''409'' error, head) of
        (True, Some h) \<Rightarrow> s\<lparr>sh_next_seq := ah_seq h + 1, sh_prev_hash := ah_hash h\<rparr>
      | _ \<Rightarrow>
          (let s1 = fold sink_record arrivals (s\<lparr>sh_backoff := next_backoff (sh_backoff s)\<rparr>);
               s2 = receive adm MAX_PENDING s1
           in if MAX_PENDING < length (sh_pending s2)
              then s2\<lparr>sh_pending := drop (length (sh_pending s2) - MAX_PENDING) (sh_pending s2)\<rparr>
              else s2))"

definition persist :: "bool \<Rightarrow> u64 \<Rightarrow> string \<Rightarrow> shipper \<Rightarrow> shipper" where
  "persist writes seq hash s = (if writes then s\<lparr>sh_disk := Some \<lparr>ah_seq = seq, ah_hash = hash\<rparr>\<rparr> else s)"

text \<open>One turn of \<^verbatim>\<open>run_audit_shipping\<close>, with the batch it had accepted.\<close>

definition ship_turn ::
  "(bytes \<Rightarrow> bytes) \<Rightarrow> (audit_event \<Rightarrow> string) \<Rightarrow> bool \<Rightarrow> ship_answer \<Rightarrow> audit_event list \<Rightarrow> shipper \<Rightarrow>
   shipper \<times> chained_event list" where
  "ship_turn sha json writes answer arrivals s =
     (case receive_first admit_event s of
        None \<Rightarrow> (s, [])
      | Some s0 \<Rightarrow>
          (let s1 = receive admit_event BATCH_MAX s0;
               n = min (length (sh_pending s1)) BATCH_MAX
           in case chain_batch sha json (take n (sh_pending s1)) (sh_next_seq s1) (sh_prev_hash s1) of
                (batch, last_hash) \<Rightarrow>
                  (case answer of
                     Ship_Ok \<Rightarrow>
                       (let seq = sh_next_seq s1 + of_nat n
                        in ((persist writes (seq - 1) last_hash s1)
                              \<lparr>sh_next_seq := seq, sh_prev_hash := last_hash,
                               sh_pending := drop n (sh_pending s1), sh_backoff := 1\<rparr>, batch))
                   | Ship_Error error head \<Rightarrow> (ship_failed admit_event error head arrivals s1, []))))"

record platform_batch =
  pb_events :: "platform_audit_event list"
  pb_tail_hash :: string
  pb_next_seq :: u64
  pb_taken :: nat

definition platform_batch_of ::
  "(bytes \<Rightarrow> bytes) \<Rightarrow> (audit_event \<Rightarrow> string) \<Rightarrow> audit_event list \<Rightarrow> u64 \<Rightarrow> string \<Rightarrow> platform_batch" where
  "platform_batch_of sha json pending next_seq prev_hash =
     (let n = min (length pending) BATCH_MAX
      in case chain_platform_batch sha json (take n pending) next_seq prev_hash of
           (events, last_hash) \<Rightarrow>
             \<lparr>pb_events = events, pb_tail_hash = last_hash, pb_next_seq = next_seq + of_nat (length events), pb_taken = n\<rparr>)"

text \<open>One turn of \<^verbatim>\<open>run_platform_audit_shipping\<close>.\<close>

definition platform_ship_turn ::
  "(bytes \<Rightarrow> bytes) \<Rightarrow> (audit_event \<Rightarrow> string) \<Rightarrow> bool \<Rightarrow> ship_answer \<Rightarrow> audit_event list \<Rightarrow> shipper \<Rightarrow>
   shipper \<times> platform_audit_event list" where
  "platform_ship_turn sha json writes answer arrivals s =
     (case receive_first admit_platform_event s of
        None \<Rightarrow> (s, [])
      | Some s0 \<Rightarrow>
          if sh_pending s0 = [] then (s0, [])
          else
            (let s1 = receive admit_platform_event BATCH_MAX s0;
                 b = platform_batch_of sha json (sh_pending s1) (sh_next_seq s1) (sh_prev_hash s1)
             in if pb_events b = [] then (s1\<lparr>sh_pending := drop (pb_taken b) (sh_pending s1)\<rparr>, [])
                else (case answer of
                        Ship_Ok \<Rightarrow>
                          ((persist writes (pb_next_seq b - 1) (pb_tail_hash b) s1)
                             \<lparr>sh_next_seq := pb_next_seq b, sh_prev_hash := pb_tail_hash b,
                              sh_pending := drop (pb_taken b) (sh_pending s1), sh_backoff := 1\<rparr>, pb_events b)
                      | Ship_Error error head \<Rightarrow> (ship_failed admit_platform_event error head arrivals s1, []))))"

subsection \<open>Links of the chain\<close>

text \<open>Recomputing a chain from a position and hash, as a holder of the events does.\<close>

fun chain_checks :: "(bytes \<Rightarrow> bytes) \<Rightarrow> u64 \<times> string \<Rightarrow> chained_event list \<Rightarrow> (u64 \<times> string) option" where
  "chain_checks sha pos [] = Some pos"
| "chain_checks sha (seq, hash) (e # es) =
     (if ce_seq e = seq \<and> ce_prev_hash e = hash
      then chain_checks sha (seq + 1, audit_hash sha seq hash (ce_event_json e)) es else None)"

lemma chain_checks_append:
  "chain_checks sha pos (es @ fs) = Option.bind (chain_checks sha pos es) (\<lambda>p. chain_checks sha p fs)"
  by (induction sha pos es rule: chain_checks.induct) simp_all

definition wire_event :: "platform_audit_event \<Rightarrow> chained_event" where
  "wire_event e = \<lparr>ce_seq = pa_seq e, ce_prev_hash = pa_prev_hash e, ce_event_json = pa_event_json e\<rparr>"

lemma chain_batch_checks:
  assumes "chain_batch sha json events seq hash = (batch, last_hash)"
  shows "chain_checks sha (seq, hash) batch = Some (seq + of_nat (length events), last_hash)"
    "map ce_event_json batch = map json events"
proof -
  have "chain_checks sha (seq, hash) batch = Some (seq + of_nat (length events), last_hash) \<and>
    map ce_event_json batch = map json events"
    using assms unfolding chain_batch_def
  proof (induction events arbitrary: seq hash batch)
    case (Cons e events)
    then show ?case by (auto simp: ac_simps split: prod.splits)
  qed simp
  then show "chain_checks sha (seq, hash) batch = Some (seq + of_nat (length events), last_hash)"
    "map ce_event_json batch = map json events" by auto
qed

lemma chain_platform_batch_checks:
  assumes "chain_platform_batch sha json events seq hash = (batch, last_hash)" "list_all (\<lambda>e. ae_org_id e \<noteq> None) events"
  shows "chain_checks sha (seq, hash) (map wire_event batch) = Some (seq + of_nat (length events), last_hash)"
    "map (\<lambda>i. (Some (pa_org_id i), pa_event_json i)) batch = map (\<lambda>e. (ae_org_id e, json e)) events"
    "length batch = length events"
proof -
  have "chain_checks sha (seq, hash) (map wire_event batch) = Some (seq + of_nat (length events), last_hash) \<and>
    map (\<lambda>i. (Some (pa_org_id i), pa_event_json i)) batch = map (\<lambda>e. (ae_org_id e, json e)) events"
    using assms unfolding chain_platform_batch_def
  proof (induction events arbitrary: seq hash batch)
    case (Cons e events)
    then show ?case by (auto simp: wire_event_def ac_simps split: prod.splits)
  qed simp
  then show "chain_checks sha (seq, hash) (map wire_event batch) = Some (seq + of_nat (length events), last_hash)"
    "map (\<lambda>i. (Some (pa_org_id i), pa_event_json i)) batch = map (\<lambda>e. (ae_org_id e, json e)) events"
    "length batch = length events" by (auto dest: map_eq_imp_length_eq)
qed

subsection \<open>The flow of events\<close>

text \<open>What is still to be shipped: the pending events and those of the channel that will be admitted.\<close>

definition unshipped :: "(audit_event \<Rightarrow> bool) \<Rightarrow> shipper \<Rightarrow> audit_event list" where
  "unshipped keep s = sh_pending s @ filter keep (sh_queue s)"

definition admits :: "(audit_event list \<Rightarrow> audit_event \<Rightarrow> audit_event list) \<Rightarrow> (audit_event \<Rightarrow> bool) \<Rightarrow> bool" where
  "admits adm keep \<longleftrightarrow> (\<forall>pending event. adm pending event = (if keep event then pending @ [event] else pending))"

lemma admits_event: "admits admit_event (\<lambda>_. True)"
  by (simp add: admits_def admit_event_def)

lemma admits_platform_event: "admits admit_platform_event (\<lambda>e. ae_org_id e \<noteq> None)"
  by (simp add: admits_def admit_platform_event_def)

lemma receive_up_to_flow:
  assumes "admits adm keep" "receive_up_to adm limit p q = (p', q')"
  shows "p' @ filter keep q' = p @ filter keep q" "list_all keep p \<Longrightarrow> list_all keep p'"
    "length p' \<le> max (length p) limit"
proof -
  have "p' @ filter keep q' = p @ filter keep q \<and> (list_all keep p \<longrightarrow> list_all keep p') \<and>
    length p' \<le> max (length p) limit"
    using assms
  proof (induction q arbitrary: p)
    case (Cons e q)
    have a: "adm p e = (if keep e then p @ [e] else p)" using assms(1) by (simp add: admits_def)
    show ?case
    proof (cases "length p < limit")
      case True
      then have "receive_up_to adm limit (if keep e then p @ [e] else p) q = (p', q')"
        using Cons.prems(2) a by simp
      from Cons.IH [OF assms(1) this] show ?thesis using True by (cases "keep e") auto
    qed (use Cons.prems(2) in auto)
  qed simp
  then show "p' @ filter keep q' = p @ filter keep q" "list_all keep p \<Longrightarrow> list_all keep p'"
    "length p' \<le> max (length p) limit" by auto
qed

lemma receive_flow:
  assumes "admits adm keep"
  shows "unshipped keep (receive adm limit s) = unshipped keep s"
    "list_all keep (sh_pending s) \<Longrightarrow> list_all keep (sh_pending (receive adm limit s))"
    "length (sh_pending (receive adm limit s)) \<le> max (length (sh_pending s)) limit"
    "sh_local (receive adm limit s) = sh_local s" "sh_next_seq (receive adm limit s) = sh_next_seq s"
    "sh_prev_hash (receive adm limit s) = sh_prev_hash s" "sh_backoff (receive adm limit s) = sh_backoff s"
    "sh_disk (receive adm limit s) = sh_disk s"
proof -
  obtain p q where r: "receive_up_to adm limit (sh_pending s) (sh_queue s) = (p, q)" by fastforce
  note f = receive_up_to_flow [OF assms r]
  show "unshipped keep (receive adm limit s) = unshipped keep s"
    "list_all keep (sh_pending s) \<Longrightarrow> list_all keep (sh_pending (receive adm limit s))"
    "length (sh_pending (receive adm limit s)) \<le> max (length (sh_pending s)) limit"
    "sh_local (receive adm limit s) = sh_local s" "sh_next_seq (receive adm limit s) = sh_next_seq s"
    "sh_prev_hash (receive adm limit s) = sh_prev_hash s" "sh_backoff (receive adm limit s) = sh_backoff s"
    "sh_disk (receive adm limit s) = sh_disk s"
    using f by (simp_all add: receive_def r unshipped_def)
qed

lemma sink_records:
  "\<exists>new. sh_queue (fold sink_record es s) = sh_queue s @ new \<and> subseq new es \<and>
     sh_local (fold sink_record es s) = sh_local s @ es \<and> sh_pending (fold sink_record es s) = sh_pending s \<and>
     sh_next_seq (fold sink_record es s) = sh_next_seq s \<and> sh_prev_hash (fold sink_record es s) = sh_prev_hash s"
proof (induction es arbitrary: s)
  case (Cons e es)
  obtain new where n: "sh_queue (fold sink_record es (sink_record e s)) = sh_queue (sink_record e s) @ new" "subseq new es"
    "sh_local (fold sink_record es (sink_record e s)) = sh_local (sink_record e s) @ es"
    "sh_pending (fold sink_record es (sink_record e s)) = sh_pending (sink_record e s)"
    "sh_next_seq (fold sink_record es (sink_record e s)) = sh_next_seq (sink_record e s)"
    "sh_prev_hash (fold sink_record es (sink_record e s)) = sh_prev_hash (sink_record e s)"
    using Cons.IH by blast
  show ?case
  proof (cases "length (sh_queue s) < AUDIT_BUFFER")
    case True
    have r: "sink_record e s = s\<lparr>sh_local := sh_local s @ [e], sh_queue := sh_queue s @ [e]\<rparr>"
      using True by (simp add: sink_record_def Let_def)
    show ?thesis by (rule exI [of _ "e # new"]) (use n in \<open>simp add: r\<close>)
  next
    case False
    have r: "sink_record e s = s\<lparr>sh_local := sh_local s @ [e]\<rparr>"
      using False by (simp add: sink_record_def Let_def)
    show ?thesis by (rule exI [of _ new]) (use n in \<open>simp add: r list_emb_Cons\<close>)
  qed
qed simp

text \<open>
  From one state to another the task sent these events, from the front of what was unshipped, and the
  sink recorded those, some of which joined the end.
\<close>

definition flows :: "(audit_event \<Rightarrow> bool) \<Rightarrow> shipper \<Rightarrow> shipper \<Rightarrow> audit_event list \<Rightarrow> audit_event list \<Rightarrow> bool" where
  "flows keep s s' sent recorded \<longleftrightarrow> sh_local s' = sh_local s @ recorded \<and>
     (\<exists>new. unshipped keep s @ new = sent @ unshipped keep s' \<and> subseq new (filter keep recorded))"

lemma flows_trans:
  assumes "flows keep s s1 a r" "flows keep s1 s2 b q"
  shows "flows keep s s2 (a @ b) (r @ q)"
proof -
  obtain x y where x: "unshipped keep s @ x = a @ unshipped keep s1" "subseq x (filter keep r)"
    and y: "unshipped keep s1 @ y = b @ unshipped keep s2" "subseq y (filter keep q)"
    using assms by (auto simp: flows_def)
  have "unshipped keep s @ (x @ y) = (a @ b) @ unshipped keep s2"
    using x(1) y(1) by (metis append.assoc)
  moreover have "subseq (x @ y) (filter keep (r @ q))" using list_emb_append_mono [OF x(2) y(2)] by simp
  ultimately show ?thesis using assms unfolding flows_def by (metis append.assoc)
qed

lemma flows_same:
  assumes "unshipped keep s' = unshipped keep s" "sh_local s' = sh_local s"
  shows "flows keep s s' [] []"
  using assms by (simp add: flows_def)

lemma sink_flow: "flows keep s (sink_record e s) [] [e]"
proof -
  have "\<exists>new. unshipped keep (sink_record e s) = unshipped keep s @ new \<and> subseq new (filter keep [e])"
    by (cases "length (sh_queue s) < AUDIT_BUFFER"; cases "keep e") (simp_all add: sink_record_def unshipped_def)
  then show ?thesis by (auto simp: flows_def sink_record_def Let_def)
qed

lemma sink_keeps:
  "sh_pending (sink_record e s) = sh_pending s"
  "sh_next_seq (sink_record e s) = sh_next_seq s" "sh_prev_hash (sink_record e s) = sh_prev_hash s"
  by (simp_all add: sink_record_def Let_def)

lemma flows_sent_subseq:
  assumes "flows keep s s' sent recorded"
  shows "subseq (sent @ unshipped keep s') (unshipped keep s @ filter keep recorded)"
  using assms by (auto simp: flows_def) (metis list_emb_append_mono subseq_order.order_refl)

fun rebased :: "ship_answer \<Rightarrow> bool" where
  "rebased (Ship_Error error (Some _)) = str_contains ''409'' error"
| "rebased _ = False"

text \<open>
  A failed request ships nothing and drops nothing: what was unshipped stays in front, followed by
  some of what arrived.
\<close>

lemma ship_failed_flow:
  assumes "admits adm keep" "list_all keep (sh_pending s)" "length (sh_pending s) \<le> MAX_PENDING"
    and "s' = ship_failed adm error head arrivals s"
  shows "\<exists>recorded. flows keep s s' [] recorded" (is ?flow)
    and "list_all keep (sh_pending s')" "length (sh_pending s') \<le> MAX_PENDING"
    and "\<not> rebased (Ship_Error error head) \<Longrightarrow> sh_next_seq s' = sh_next_seq s \<and> sh_prev_hash s' = sh_prev_hash s"
proof -
  have "?flow \<and> list_all keep (sh_pending s') \<and> length (sh_pending s') \<le> MAX_PENDING \<and>
    (\<not> rebased (Ship_Error error head) \<longrightarrow> sh_next_seq s' = sh_next_seq s \<and> sh_prev_hash s' = sh_prev_hash s)"
  proof (cases "rebased (Ship_Error error head)")
    case True
    then obtain h where "head = Some h" "str_contains ''409'' error" by (cases head) simp_all
    then have s': "s' = s\<lparr>sh_next_seq := ah_seq h + 1, sh_prev_hash := ah_hash h\<rparr>"
      by (simp add: assms(4) ship_failed_def)
    show ?thesis
      by (intro conjI exI [of _ "[]"] flows_same) (use True assms(2,3) in \<open>simp_all add: s' unshipped_def\<close>)
  next
    case False
    let ?s0 = "s\<lparr>sh_backoff := next_backoff (sh_backoff s)\<rparr>"
    let ?s1 = "fold sink_record arrivals ?s0"
    obtain new where n: "sh_queue ?s1 = sh_queue s @ new" "subseq new arrivals" "sh_local ?s1 = sh_local s @ arrivals"
      "sh_pending ?s1 = sh_pending s" "sh_next_seq ?s1 = sh_next_seq s" "sh_prev_hash ?s1 = sh_prev_hash s"
      using sink_records [of arrivals ?s0] by auto
    note r = receive_flow [OF assms(1), where limit = MAX_PENDING and s = ?s1]
    have le: "length (sh_pending (receive adm MAX_PENDING ?s1)) \<le> MAX_PENDING"
      using r(3) assms(3) by (simp add: n(4))
    have s': "s' = receive adm MAX_PENDING ?s1"
      using False le by (cases head) (auto simp: assms(4) ship_failed_def Let_def split: bool.split)
    have flow: "unshipped keep s' = unshipped keep s @ filter keep new"
      by (simp add: s' r(1)) (simp add: unshipped_def n)
    have sub: "subseq (filter keep new) (filter keep arrivals)" using n(2) by (rule subseq_filter)
    have "flows keep s s' [] arrivals" using flow sub r(4) n(3) by (simp add: flows_def s')
    then show ?thesis using r(2,5,6) n le assms(2) by (auto simp: s')
  qed
  then show ?flow "list_all keep (sh_pending s')" "length (sh_pending s') \<le> MAX_PENDING"
    "\<not> rebased (Ship_Error error head) \<Longrightarrow> sh_next_seq s' = sh_next_seq s \<and> sh_prev_hash s' = sh_prev_hash s"
    by auto
qed

lemma receive_first_flow:
  assumes "admits adm keep" "receive_first adm s = Some s'"
  shows "unshipped keep s' = unshipped keep s" "list_all keep (sh_pending s) \<Longrightarrow> list_all keep (sh_pending s')"
    "length (sh_pending s') \<le> max 1 (length (sh_pending s))"
    "sh_local s' = sh_local s" "sh_next_seq s' = sh_next_seq s" "sh_prev_hash s' = sh_prev_hash s"
proof -
  have "unshipped keep s' = unshipped keep s \<and> (list_all keep (sh_pending s) \<longrightarrow> list_all keep (sh_pending s')) \<and>
    length (sh_pending s') \<le> max 1 (length (sh_pending s)) \<and>
    sh_local s' = sh_local s \<and> sh_next_seq s' = sh_next_seq s \<and> sh_prev_hash s' = sh_prev_hash s"
  proof (cases "sh_pending s = []")
    case True
    then obtain e q where q: "sh_queue s = e # q" "s' = s\<lparr>sh_pending := adm [] e, sh_queue := q\<rparr>"
      using assms(2) by (cases "sh_queue s") (simp_all add: receive_first_def)
    have "adm [] e = (if keep e then [e] else [])" using assms(1) by (simp add: admits_def)
    then show ?thesis by (simp add: q True unshipped_def)
  next
    case False
    then show ?thesis using assms(2) by (simp add: receive_first_def)
  qed
  then show "unshipped keep s' = unshipped keep s" "list_all keep (sh_pending s) \<Longrightarrow> list_all keep (sh_pending s')"
    "length (sh_pending s') \<le> max 1 (length (sh_pending s))"
    "sh_local s' = sh_local s" "sh_next_seq s' = sh_next_seq s" "sh_prev_hash s' = sh_prev_hash s" by auto
qed

text \<open>Collecting a batch: the wait for a first event and the take of what else is there.\<close>

lemma collect_flow:
  assumes "admits adm keep" "receive_first adm s = Some s0" "s1 = receive adm BATCH_MAX s0"
    and "list_all keep (sh_pending s)" "length (sh_pending s) \<le> MAX_PENDING"
  shows "unshipped keep s1 = unshipped keep s" "list_all keep (sh_pending s1)"
    "length (sh_pending s1) \<le> MAX_PENDING" "sh_local s1 = sh_local s"
    "sh_next_seq s1 = sh_next_seq s" "sh_prev_hash s1 = sh_prev_hash s"
proof -
  note f = receive_first_flow [OF assms(1,2)] and r = receive_flow [OF assms(1), where limit = BATCH_MAX and s = s0]
  show "unshipped keep s1 = unshipped keep s" "list_all keep (sh_pending s1)"
    "sh_local s1 = sh_local s" "sh_next_seq s1 = sh_next_seq s" "sh_prev_hash s1 = sh_prev_hash s"
    using f r assms(3,4) by simp_all
  have "length (sh_pending s1) \<le> max (length (sh_pending s0)) BATCH_MAX" using r(3) assms(3) by simp
  then show "length (sh_pending s1) \<le> MAX_PENDING" using f(3) assms(5) by (simp add: BATCH_MAX_def MAX_PENDING_def)
qed

text \<open>Steps of the whole: an event is recorded, or the shipping task takes a turn.\<close>

datatype ship_step = Record audit_event | Turn bool ship_answer "audit_event list"

fun run_shipping ::
  "(bool \<Rightarrow> ship_answer \<Rightarrow> audit_event list \<Rightarrow> shipper \<Rightarrow> shipper \<times> 'i list) \<Rightarrow> ship_step list \<Rightarrow> shipper \<Rightarrow>
   shipper \<times> 'i list" where
  "run_shipping turn [] s = (s, [])"
| "run_shipping turn (Record e # steps) s = run_shipping turn steps (sink_record e s)"
| "run_shipping turn (Turn writes answer arrivals # steps) s =
     (case turn writes answer arrivals s of (s1, items) \<Rightarrow>
        (case run_shipping turn steps s1 of (s2, later) \<Rightarrow> (s2, items @ later)))"

fun step_rebased :: "ship_step \<Rightarrow> bool" where
  "step_rebased (Turn _ answer _) = rebased answer"
| "step_rebased (Record _) = False"

text \<open>
  The contract both shipping loops keep: a turn ships the front of what is unshipped, in order and
  each event once, chained from the position the task holds, and loses nothing of the rest.
\<close>

locale audit_shipping =
  fixes sha :: "bytes \<Rightarrow> bytes"
    and turn :: "bool \<Rightarrow> ship_answer \<Rightarrow> audit_event list \<Rightarrow> shipper \<Rightarrow> shipper \<times> 'i list"
    and keep :: "audit_event \<Rightarrow> bool"
    and wire :: "'i \<Rightarrow> chained_event"
    and item_tag :: "'i \<Rightarrow> 't"
    and event_tag :: "audit_event \<Rightarrow> 't"
  assumes turn_flow: "\<lbrakk>turn writes answer arrivals s = (s', items); list_all keep (sh_pending s);
      length (sh_pending s) \<le> MAX_PENDING\<rbrakk> \<Longrightarrow>
      list_all keep (sh_pending s') \<and> length (sh_pending s') \<le> MAX_PENDING \<and>
      (\<exists>sent recorded. flows keep s s' sent recorded \<and> map item_tag items = map event_tag sent)"
    and turn_chain: "\<lbrakk>turn writes answer arrivals s = (s', items); list_all keep (sh_pending s);
      length (sh_pending s) \<le> MAX_PENDING; \<not> rebased answer\<rbrakk> \<Longrightarrow>
      chain_checks sha (sh_next_seq s, sh_prev_hash s) (map wire items) = Some (sh_next_seq s', sh_prev_hash s')"
begin

lemma run_flow:
  assumes "run_shipping turn steps s = (s', items)" "list_all keep (sh_pending s)" "length (sh_pending s) \<le> MAX_PENDING"
  shows "list_all keep (sh_pending s') \<and> length (sh_pending s') \<le> MAX_PENDING \<and>
    (\<exists>sent recorded. flows keep s s' sent recorded \<and> map item_tag items = map event_tag sent)"
  using assms
proof (induction steps arbitrary: s items)
  case Nil
  then show ?case using flows_same [of keep s s] by auto
next
  case (Cons st steps)
  show ?case
  proof (cases st)
    case (Record e)
    have "list_all keep (sh_pending s') \<and> length (sh_pending s') \<le> MAX_PENDING \<and>
      (\<exists>sent recorded. flows keep (sink_record e s) s' sent recorded \<and> map item_tag items = map event_tag sent)"
      by (rule Cons.IH) (use Cons.prems in \<open>simp_all add: Record sink_keeps\<close>)
    then show ?thesis using flows_trans [OF sink_flow] by (metis append_Nil)
  next
    case (Turn writes answer arrivals)
    obtain s1 a where t: "turn writes answer arrivals s = (s1, a)" by fastforce
    obtain b where r: "run_shipping turn steps s1 = (s', b)" "items = a @ b"
      using Cons.prems(1) by (auto simp: Turn t split: prod.splits)
    obtain sent recorded where f: "list_all keep (sh_pending s1)" "length (sh_pending s1) \<le> MAX_PENDING"
      "flows keep s s1 sent recorded" "map item_tag a = map event_tag sent"
      using turn_flow [OF t Cons.prems(2,3)] by blast
    obtain sent2 recorded2 where g: "list_all keep (sh_pending s')" "length (sh_pending s') \<le> MAX_PENDING"
      "flows keep s1 s' sent2 recorded2" "map item_tag b = map event_tag sent2"
      using Cons.IH [OF r(1) f(1,2)] by blast
    have "map item_tag items = map event_tag (sent @ sent2)" using f(4) g(4) by (simp add: r(2))
    then show ?thesis using flows_trans [OF f(3) g(3)] g(1,2) by blast
  qed
qed

lemma run_chain:
  assumes "run_shipping turn steps s = (s', items)" "list_all keep (sh_pending s)" "length (sh_pending s) \<le> MAX_PENDING"
    and "\<forall>st \<in> set steps. \<not> step_rebased st"
  shows "chain_checks sha (sh_next_seq s, sh_prev_hash s) (map wire items) = Some (sh_next_seq s', sh_prev_hash s')"
  using assms
proof (induction steps arbitrary: s items)
  case (Cons st steps)
  show ?case
  proof (cases st)
    case (Record e)
    have "chain_checks sha (sh_next_seq (sink_record e s), sh_prev_hash (sink_record e s)) (map wire items) =
        Some (sh_next_seq s', sh_prev_hash s')"
      by (rule Cons.IH) (use Cons.prems in \<open>simp_all add: Record sink_keeps\<close>)
    then show ?thesis by (simp add: sink_keeps)
  next
    case (Turn writes answer arrivals)
    obtain s1 a where t: "turn writes answer arrivals s = (s1, a)" by fastforce
    obtain b where r: "run_shipping turn steps s1 = (s', b)" "items = a @ b"
      using Cons.prems(1) by (auto simp: Turn t split: prod.splits)
    note f = turn_flow [OF t Cons.prems(2,3)]
    have c: "chain_checks sha (sh_next_seq s, sh_prev_hash s) (map wire a) = Some (sh_next_seq s1, sh_prev_hash s1)"
      using Cons.prems(4) by (intro turn_chain [OF t Cons.prems(2,3)]) (simp add: Turn)
    have "chain_checks sha (sh_next_seq s1, sh_prev_hash s1) (map wire b) = Some (sh_next_seq s', sh_prev_hash s')"
      using Cons.prems(4) f by (intro Cons.IH [OF r(1)]) auto
    then show ?thesis using c by (simp add: r(2) chain_checks_append)
  qed
qed simp

end

lemma take_front_flow:
  assumes "unshipped keep s1 = unshipped keep s" "sh_local s1 = sh_local s"
    and "sh_pending s' = drop n (sh_pending s1)" "sh_queue s' = sh_queue s1" "sh_local s' = sh_local s1"
  shows "flows keep s s' (take n (sh_pending s1)) []"
proof -
  have "take n (sh_pending s1) @ unshipped keep s' = unshipped keep s"
    by (simp add: assms(1) [symmetric]) (simp add: unshipped_def assms(3,4) flip: append.assoc)
  then show ?thesis by (simp add: flows_def assms(2,5))
qed

lemma ship_turn_cases:
  assumes "ship_turn sha json writes answer arrivals s = (s', items)"
  obtains (idle) "receive_first admit_event s = None" "s' = s" "items = []"
  | (sent) s0 s1 n last_hash where "receive_first admit_event s = Some s0" "s1 = receive admit_event BATCH_MAX s0"
      "n = min (length (sh_pending s1)) BATCH_MAX" "answer = Ship_Ok"
      "chain_batch sha json (take n (sh_pending s1)) (sh_next_seq s1) (sh_prev_hash s1) = (items, last_hash)"
      "s' = (persist writes (sh_next_seq s1 + of_nat n - 1) last_hash s1)
         \<lparr>sh_next_seq := sh_next_seq s1 + of_nat n, sh_prev_hash := last_hash,
          sh_pending := drop n (sh_pending s1), sh_backoff := 1\<rparr>"
  | (failed) s0 s1 error head where "receive_first admit_event s = Some s0" "s1 = receive admit_event BATCH_MAX s0"
      "answer = Ship_Error error head" "s' = ship_failed admit_event error head arrivals s1" "items = []"
proof (cases "receive_first admit_event s")
  case None
  have "(s', items) = (s, [])" using assms by (simp only: ship_turn_def None option.case)
  then show ?thesis using idle [OF None] by (simp only: prod.inject)
next
  case (Some s0)
  define s1 where "s1 = receive admit_event BATCH_MAX s0"
  define n where "n = min (length (sh_pending s1)) BATCH_MAX"
  obtain batch last_hash where b:
    "chain_batch sha json (take n (sh_pending s1)) (sh_next_seq s1) (sh_prev_hash s1) = (batch, last_hash)"
    by fastforce
  note d = assms [unfolded ship_turn_def Some option.case Let_def, folded s1_def, folded n_def, unfolded b prod.case]
  show ?thesis
  proof (cases answer)
    case Ship_Ok
    have "items = batch" "s' = (persist writes (sh_next_seq s1 + of_nat n - 1) last_hash s1)
         \<lparr>sh_next_seq := sh_next_seq s1 + of_nat n, sh_prev_hash := last_hash,
          sh_pending := drop n (sh_pending s1), sh_backoff := 1\<rparr>"
      using d by (simp_all only: Ship_Ok ship_answer.case prod.inject)
    then show ?thesis using sent [OF Some s1_def n_def Ship_Ok] b by (simp only:)
  next
    case (Ship_Error error head)
    have "s' = ship_failed admit_event error head arrivals s1" "items = []"
      using d by (simp_all only: Ship_Error ship_answer.case prod.inject)
    then show ?thesis using failed [OF Some s1_def Ship_Error] by (simp only:)
  qed
qed

lemma persist_keeps:
  "sh_local (persist w q h s) = sh_local s" "sh_queue (persist w q h s) = sh_queue s"
  by (simp_all add: persist_def)

interpretation gateway_shipping:
  audit_shipping sha "ship_turn sha json" "\<lambda>_. True" "\<lambda>i. i" ce_event_json json for sha json
proof (unfold_locales, goal_cases)
  case (1 writes answer arrivals s s' items)
  from 1(1) show ?case
  proof (cases rule: ship_turn_cases)
    case idle
    then show ?thesis using 1 flows_same [of "\<lambda>_. True" s s] by auto
  next
    case (sent s0 s1 n last_hash)
    note c = collect_flow [OF admits_event sent(1,2) 1(2,3)]
    have "flows (\<lambda>_. True) s s' (take n (sh_pending s1)) []"
      by (rule take_front_flow [OF c(1,4)]) (simp_all add: sent(6) persist_keeps)
    moreover have "length (sh_pending s') \<le> MAX_PENDING" using c(3) by (simp add: sent(6))
    ultimately show ?thesis using chain_batch_checks(2) [OF sent(5)] by (auto simp: list_all_iff)
  next
    case (failed s0 s1 error head)
    note c = collect_flow [OF admits_event failed(1,2) 1(2,3)]
    note f = ship_failed_flow [OF admits_event c(2,3) failed(4)]
    obtain recorded where "flows (\<lambda>_. True) s s' [] recorded"
      using f(1) flows_trans [OF flows_same [OF c(1,4)]] by (metis append_Nil)
    then show ?thesis using f(2,3) by (auto simp: failed(5))
  qed
next
  case (2 writes answer arrivals s s' items)
  from 2(1) show ?case
  proof (cases rule: ship_turn_cases)
    case idle
    then show ?thesis by simp
  next
    case (sent s0 s1 n last_hash)
    note c = collect_flow [OF admits_event sent(1,2) 2(2,3)]
    have "length (take n (sh_pending s1)) = n" by (simp add: sent(3))
    then show ?thesis using chain_batch_checks(1) [OF sent(5)] c(5,6) by (simp add: sent(6))
  next
    case (failed s0 s1 error head)
    note c = collect_flow [OF admits_event failed(1,2) 2(2,3)]
    show ?thesis
      using ship_failed_flow(4) [OF admits_event c(2,3) failed(4)] 2(4) c(5,6) by (simp add: failed(3,5))
  qed
qed

abbreviation names_org :: "audit_event \<Rightarrow> bool" where
  "names_org e \<equiv> ae_org_id e \<noteq> None"

text \<open>The batch a platform turn collects, before it is sent.\<close>

definition platform_collected ::
  "(bytes \<Rightarrow> bytes) \<Rightarrow> (audit_event \<Rightarrow> string) \<Rightarrow> shipper \<Rightarrow> shipper \<Rightarrow> platform_batch \<Rightarrow> bool" where
  "platform_collected sha json s s1 b \<longleftrightarrow> (\<exists>s0. receive_first admit_platform_event s = Some s0 \<and>
     s1 = receive admit_platform_event BATCH_MAX s0 \<and>
     b = platform_batch_of sha json (sh_pending s1) (sh_next_seq s1) (sh_prev_hash s1))"

lemma platform_ship_turn_cases:
  assumes "platform_ship_turn sha json writes answer arrivals s = (s', items)"
  obtains (idle) "receive_first admit_platform_event s = None" "s' = s" "items = []"
  | (dropped) "receive_first admit_platform_event s = Some s'" "items = []"
  | (skipped) s1 b where "platform_collected sha json s s1 b" "pb_events b = []" "items = []"
      "s' = s1\<lparr>sh_pending := drop (pb_taken b) (sh_pending s1)\<rparr>"
  | (sent) s1 b where "platform_collected sha json s s1 b" "items = pb_events b"
      "s' = (persist writes (pb_next_seq b - 1) (pb_tail_hash b) s1)
         \<lparr>sh_next_seq := pb_next_seq b, sh_prev_hash := pb_tail_hash b,
          sh_pending := drop (pb_taken b) (sh_pending s1), sh_backoff := 1\<rparr>" "answer = Ship_Ok"
  | (failed) s1 b error head where "platform_collected sha json s s1 b" "answer = Ship_Error error head"
      "s' = ship_failed admit_platform_event error head arrivals s1" "items = []"
proof (cases "receive_first admit_platform_event s")
  case None
  have "(s', items) = (s, [])" using assms by (simp only: platform_ship_turn_def None option.case)
  then show ?thesis using idle [OF None] by (simp only: prod.inject)
next
  case (Some s0)
  note d = assms [unfolded platform_ship_turn_def Some option.case]
  define s1 where "s1 = receive admit_platform_event BATCH_MAX s0"
  define b where "b = platform_batch_of sha json (sh_pending s1) (sh_next_seq s1) (sh_prev_hash s1)"
  have c: "platform_collected sha json s s1 b" using Some s1_def b_def by (auto simp: platform_collected_def)
  note e = d [unfolded Let_def, folded s1_def, folded b_def]
  show ?thesis
  proof (cases "sh_pending s0 = []")
    case True
    show ?thesis using dropped Some e True by (simp only: simp_thms if_True prod.inject)
  next
    case ne: False
    show ?thesis
    proof (cases "pb_events b = []")
      case True
      show ?thesis using skipped [OF c True] e ne True by (simp only: simp_thms if_True if_False prod.inject)
    next
      case False
      show ?thesis
      proof (cases answer)
        case Ship_Ok
        show ?thesis using sent [OF c _ _ Ship_Ok] e ne False by (simp only: Ship_Ok simp_thms if_False ship_answer.case prod.inject)
      next
        case (Ship_Error error head)
        show ?thesis
          using failed [OF c Ship_Error] e ne False by (simp only: Ship_Error simp_thms if_False ship_answer.case prod.inject)
      qed
    qed
  qed
qed

lemma platform_batch_checks:
  assumes "b = platform_batch_of sha json pending seq hash" "list_all names_org pending"
  shows "pb_taken b = min (length pending) BATCH_MAX"
    "chain_checks sha (seq, hash) (map wire_event (pb_events b)) = Some (pb_next_seq b, pb_tail_hash b)"
    "map (\<lambda>i. (Some (pa_org_id i), pa_event_json i)) (pb_events b) =
       map (\<lambda>e. (ae_org_id e, json e)) (take (pb_taken b) pending)"
proof -
  let ?n = "min (length pending) BATCH_MAX"
  obtain events last_hash where c: "chain_platform_batch sha json (take ?n pending) seq hash = (events, last_hash)"
    by fastforce
  have b: "b = \<lparr>pb_events = events, pb_tail_hash = last_hash, pb_next_seq = seq + of_nat (length events), pb_taken = ?n\<rparr>"
    by (simp add: assms(1) platform_batch_of_def c Let_def)
  have "list_all names_org (take ?n pending)" using assms(2) by (meson in_set_takeD list_all_iff)
  note k = chain_platform_batch_checks [OF c this]
  show "pb_taken b = ?n" by (simp add: b)
  show "chain_checks sha (seq, hash) (map wire_event (pb_events b)) = Some (pb_next_seq b, pb_tail_hash b)"
    using k(1,3) by (simp add: b)
  show "map (\<lambda>i. (Some (pa_org_id i), pa_event_json i)) (pb_events b) =
       map (\<lambda>e. (ae_org_id e, json e)) (take (pb_taken b) pending)"
    using k(2) by (simp add: b)
qed

lemma drop_keeps: "list_all P xs \<Longrightarrow> list_all P (drop n xs)"
  by (meson in_set_dropD list_all_iff)

lemma platform_collect_flow:
  assumes "platform_collected sha json s s1 b" "list_all names_org (sh_pending s)" "length (sh_pending s) \<le> MAX_PENDING"
  shows "unshipped names_org s1 = unshipped names_org s" "list_all names_org (sh_pending s1)"
    "length (sh_pending s1) \<le> MAX_PENDING" "sh_local s1 = sh_local s"
    "sh_next_seq s1 = sh_next_seq s" "sh_prev_hash s1 = sh_prev_hash s"
    "b = platform_batch_of sha json (sh_pending s1) (sh_next_seq s1) (sh_prev_hash s1)"
proof -
  obtain s0 where s0: "receive_first admit_platform_event s = Some s0" "s1 = receive admit_platform_event BATCH_MAX s0"
    and b: "b = platform_batch_of sha json (sh_pending s1) (sh_next_seq s1) (sh_prev_hash s1)"
    using assms(1) by (auto simp: platform_collected_def)
  note c = collect_flow [OF admits_platform_event s0 assms(2,3)]
  from c b show "unshipped names_org s1 = unshipped names_org s" "list_all names_org (sh_pending s1)"
    "length (sh_pending s1) \<le> MAX_PENDING" "sh_local s1 = sh_local s"
    "sh_next_seq s1 = sh_next_seq s" "sh_prev_hash s1 = sh_prev_hash s"
    "b = platform_batch_of sha json (sh_pending s1) (sh_next_seq s1) (sh_prev_hash s1)" by simp_all
qed

interpretation platform_shipping:
  audit_shipping sha "platform_ship_turn sha json" names_org wire_event
    "\<lambda>i. (Some (pa_org_id i), pa_event_json i)" "\<lambda>e. (ae_org_id e, json e)" for sha json
proof (unfold_locales, goal_cases)
  case (1 writes answer arrivals s s' items)
  from 1(1) show ?case
  proof (cases rule: platform_ship_turn_cases)
    case idle
    then show ?thesis using 1 flows_same [of names_org s s] by auto
  next
    case dropped
    note f = receive_first_flow [OF admits_platform_event dropped(1)]
    have "length (sh_pending s') \<le> MAX_PENDING" using f(3) 1(3) by (simp add: MAX_PENDING_def)
    then show ?thesis using f(2) 1(2) flows_same [OF f(1,4)] by (auto simp: dropped(2))
  next
    case (skipped s1 b)
    note c = platform_collect_flow [OF skipped(1) 1(2,3)]
    have "flows names_org s s' (take (pb_taken b) (sh_pending s1)) []"
      by (rule take_front_flow [OF c(1,4)]) (simp_all add: skipped(4))
    then show ?thesis
      using platform_batch_checks(3) [OF c(7,2)] c(2,3) by (auto simp: skipped drop_keeps)
  next
    case (sent s1 b)
    note c = platform_collect_flow [OF sent(1) 1(2,3)]
    have "flows names_org s s' (take (pb_taken b) (sh_pending s1)) []"
      by (rule take_front_flow [OF c(1,4)]) (simp_all add: sent(3) persist_keeps)
    then show ?thesis
      using platform_batch_checks(3) [OF c(7,2)] c(2,3) by (auto simp: sent(2,3) drop_keeps)
  next
    case (failed s1 b error head)
    note c = platform_collect_flow [OF failed(1) 1(2,3)]
    note f = ship_failed_flow [OF admits_platform_event c(2,3) failed(3)]
    obtain recorded where "flows names_org s s' [] recorded"
      using f(1) flows_trans [OF flows_same [OF c(1,4)]] by (metis append_Nil)
    then show ?thesis using f(2,3) by (auto simp: failed(4))
  qed
next
  case (2 writes answer arrivals s s' items)
  from 2(1) show ?case
  proof (cases rule: platform_ship_turn_cases)
    case idle
    then show ?thesis by simp
  next
    case dropped
    then show ?thesis using receive_first_flow [OF admits_platform_event dropped(1)] by simp
  next
    case (skipped s1 b)
    then show ?thesis using platform_collect_flow(5,6) [OF skipped(1) 2(2,3)] by simp
  next
    case (sent s1 b)
    note c = platform_collect_flow [OF sent(1) 2(2,3)]
    show ?thesis using platform_batch_checks(2) [OF c(7,2)] c(5,6) by (simp add: sent(2,3))
  next
    case (failed s1 b error head)
    note c = platform_collect_flow [OF failed(1) 2(2,3)]
    show ?thesis
      using ship_failed_flow(4) [OF admits_platform_event c(2,3) failed(3)] 2(4) c(5,6) by (simp add: failed(2,4))
  qed
qed

subsection \<open>The trail the control plane holds\<close>


subsection \<open>Tampering\<close>

lemma hex_pairs_inject: "length a = length b \<Longrightarrow> hex_pairs a = hex_pairs b \<longleftrightarrow> a = b"
proof (induction a b rule: list_induct2)
  case (Cons x xs y ys)
  have "unat x = unat y" if "hex_char (unat x div 16) = hex_char (unat y div 16)"
    "hex_char (unat x mod 16) = hex_char (unat y mod 16)"
  proof -
    have lt: "unat x < 256" "unat y < 256" using u8_unat_less by auto
    then have "unat x div 16 = unat y div 16" "unat x mod 16 = unat y mod 16"
      using arg_cong [OF that(1), of hex_val] arg_cong [OF that(2), of hex_val] by (simp_all add: hex_val_hex_char)
    then show ?thesis by (metis div_mult_mod_eq)
  qed
  then show ?case using Cons.IH by (auto simp: word_unat_eq_iff)
qed simp

lemma length_be_bytes_8: "length (be_bytes 8 w) = 8"
  by (simp add: be_bytes_def)

lemma length_hex_pairs: "length (hex_pairs b) = 2 * length b"
  by (induction b rule: hex_pairs.induct) simp_all

lemma audit_input_inject:
  assumes "length h = length h'" "audit_input seq h j = audit_input seq h' j'"
  shows "h = h' \<and> j = j'"
proof -
  have "as_bytes h @ as_bytes j = as_bytes h' @ as_bytes j'" using assms(2) by (simp add: audit_input_def)
  then have "as_bytes h = as_bytes h'" "as_bytes j = as_bytes j'" using assms(1) by (simp_all add: as_bytes_def)
  then show ?thesis by (simp add: as_bytes_inject)
qed

lemma chains_collide:
  assumes "\<forall>x. length (sha x) = 32"
    and "chain_checks sha (seq, h) es = Some (n, last_hash)" "chain_checks sha (seq, h') fs = Some (n', last_hash)"
    and "length es = length fs" "length h = 64" "length h' = 64" "(h, es) \<noteq> (h', fs)"
  shows "\<exists>x y. x \<noteq> y \<and> sha x = sha y"
  using assms(2-)
proof (induction es arbitrary: fs seq h h')
  case (Cons e es)
  obtain f fs' where fs: "fs = f # fs'" using Cons.prems(3) by (cases fs) simp_all
  let ?a = "audit_hash sha seq h (ce_event_json e)" and ?b = "audit_hash sha seq h' (ce_event_json f)"
  have c: "ce_seq e = seq" "ce_prev_hash e = h" "chain_checks sha (seq + 1, ?a) es = Some (n, last_hash)"
    "ce_seq f = seq" "ce_prev_hash f = h'" "chain_checks sha (seq + 1, ?b) fs' = Some (n', last_hash)"
    using Cons.prems(1,2) by (simp_all add: fs split: if_splits)
  show ?case
  proof (cases "(?a, es) = (?b, fs')")
    case False
    then show ?thesis
      using Cons.IH [OF c(3,6)] Cons.prems(3) assms(1) by (simp add: fs audit_hash_def length_hex_pairs)
  next
    case True
    have "sha (audit_input seq h (ce_event_json e)) = sha (audit_input seq h' (ce_event_json f))"
      using True assms(1) by (simp add: audit_hash_def hex_pairs_inject)
    moreover have "audit_input seq h (ce_event_json e) \<noteq> audit_input seq h' (ce_event_json f)"
    proof
      assume "audit_input seq h (ce_event_json e) = audit_input seq h' (ce_event_json f)"
      then have "h = h'" "ce_event_json e = ce_event_json f"
        using audit_input_inject Cons.prems(4,5) by metis+
      then have "e = f" using c by simp
      then show False using True \<open>h = h'\<close> Cons.prems(6) by (simp add: fs)
    qed
    ultimately show ?thesis by blast
  qed
qed simp

text \<open>
  The chain is tamper evident: whoever produces a different trail of the same length that recomputes,
  from the genesis hash, to the same head has found a collision of the digest. No event of a shipped trail
  can be altered, dropped for another or moved without that.
\<close>

theorem audit_chain_tamper_evident:
  assumes "\<forall>x. length (sha x) = 32"
    and "chain_checks sha (1, AUDIT_GENESIS) es = Some (n, head)" "chain_checks sha (1, AUDIT_GENESIS) fs = Some (n, head)"
    and "length es < 2 ^ 64" "length fs < 2 ^ 64" "es \<noteq> fs"
  shows "\<exists>x y. x \<noteq> y \<and> sha x = sha y"
proof -
  have pos: "fst p = seq + of_nat (length gs)" if "chain_checks sha (seq, h) gs = Some p" for seq h gs p
    using that by (induction gs arbitrary: seq h) (auto split: if_splits simp: ac_simps)
  have "(of_nat (length es) :: u64) = of_nat (length fs)" using pos [OF assms(2)] pos [OF assms(3)] by simp
  then have "unat (of_nat (length es) :: u64) = unat (of_nat (length fs) :: u64)" by simp
  then have "length es = length fs" using assms(4,5) by (simp add: unat_of_nat)
  then show ?thesis using chains_collide [OF assms(1-3)] assms(6) by (simp add: AUDIT_GENESIS_def)
qed

definition sample_sha :: "bytes \<Rightarrow> bytes" where
  "sample_sha x = replicate 32 (of_nat (length x))"

definition chained :: "u64 \<Rightarrow> string \<Rightarrow> string \<Rightarrow> chained_event" where
  "chained seq hash event_json = \<lparr>ce_seq = seq, ce_prev_hash = hash, ce_event_json = event_json\<rparr>"

theorem audit_chain_tamper_evident_witness:
  "\<exists>x y. x \<noteq> y \<and> sample_sha x = sample_sha y"
proof (rule audit_chain_tamper_evident [of sample_sha "[chained 1 AUDIT_GENESIS ''a'']" 2
      "audit_hash sample_sha 1 AUDIT_GENESIS ''a''" "[chained 1 AUDIT_GENESIS ''b'']"])
  show "\<forall>x. length (sample_sha x) = 32" by (simp add: sample_sha_def)
  show "chain_checks sample_sha (1, AUDIT_GENESIS) [chained 1 AUDIT_GENESIS ''a''] =
      Some (2, audit_hash sample_sha 1 AUDIT_GENESIS ''a'')"
    by (simp add: chained_def)
  show "chain_checks sample_sha (1, AUDIT_GENESIS) [chained 1 AUDIT_GENESIS ''b''] =
      Some (2, audit_hash sample_sha 1 AUDIT_GENESIS ''a'')"
    by (simp add: chained_def audit_hash_def sample_sha_def audit_input_def as_bytes_def)
qed (simp_all add: chained_def)

definition sample_audit :: "string \<Rightarrow> string option \<Rightarrow> audit_event" where
  "sample_audit decision org = \<lparr>ae_timestamp = ''t'', ae_decision = decision, ae_protocol = ''connect-tcp'',
     ae_application = ''a'', ae_destination = ''d'', ae_client = ''c'', ae_identity = identity_default,
     ae_policy = None, ae_rule = None, ae_reason = None, ae_suggested_rule = None, ae_requested_policy = None,
     ae_org_id = org\<rparr>"

definition sample_shipper :: shipper where
  "sample_shipper = \<lparr>sh_local = [], sh_queue = [], sh_pending = [], sh_next_seq = 0, sh_prev_hash = [],
     sh_backoff = 1, sh_disk = None\<rparr>"

definition sample_steps :: "ship_step list" where
  "sample_steps = [Record (sample_audit ''allow'' (Some ''o'')), Record (sample_audit ''deny'' None),
     Turn True (Ship_Error ''down'' None) [sample_audit ''late'' (Some ''p'')], Turn True Ship_Ok []]"


text \<open>
  During an outage it is the newest events that the control plane's copy loses: a failed request keeps all that
  waits, and once the channel is full a recorded event stays local.
\<close>

lemma full_channel_loses_newest:
  "AUDIT_BUFFER \<le> length (sh_queue s) \<Longrightarrow> unshipped keep (sink_record e s) = unshipped keep s"
  by (simp add: sink_record_def unshipped_def)

text \<open>
  A batch the control plane refuses for any other reason than a conflict is sent again, with the same
  event in front, for as long as it is refused.
\<close>

lemma refused_batch_is_retried:
  assumes "platform_ship_turn sha json writes (Ship_Error error None) arrivals s = (s', items)"
    and "list_all names_org (sh_pending s)" "length (sh_pending s) \<le> MAX_PENDING" "unshipped names_org s = e # es"
  shows "items = [] \<and> (\<exists>more_es. unshipped names_org s' = e # more_es)"
proof -
  have i: "items = []" using assms(1) by (cases rule: platform_ship_turn_cases) simp_all
  obtain sent recorded where f: "flows names_org s s' sent recorded"
    "map (\<lambda>i. (Some (pa_org_id i), pa_event_json i)) items = map (\<lambda>e. (ae_org_id e, json e)) sent"
    using platform_shipping.turn_flow [OF assms(1-3)] by blast
  then obtain new where "unshipped names_org s @ new = unshipped names_org s'" using i unfolding flows_def by auto
  then show ?thesis using i unfolding assms(4) append_Cons by metis
qed

text \<open>
  After a conflict the same events are chained again on the reported head. When the conflict came from a
  batch that was accepted but whose answer was lost, they are shipped a second time.
\<close>

lemma conflict_keeps_pending:
  assumes "str_contains ''409'' error"
  shows "sh_pending (ship_failed adm error (Some h) arrivals s) = sh_pending s"
    "sh_backoff (ship_failed adm error (Some h) arrivals s) = sh_backoff s"
  using assms by (simp_all add: ship_failed_def)

end
