(* ===== verification/Ip_Gateway.thy ===== *)
theory Ip_Gateway
  imports Tunnel_Service
begin

text \<open>
  CONNECT-IP at the gateway and at the client (\<^verbatim>\<open>skimasque/src/connect_ip.rs\<close>): the address pool with its
  leases, the proxy that opens IP tunnels, the answer to an address request, the packet link, and
  the two ends of a tunnel. The pool counts in 128-bit words; overflow wraps, as in a release
  build. The queues of a tunnel are arguments of its operations.
\<close>

subsection \<open>The address pool\<close>

record pool_state =
  ps_prefix :: ip_prefix
  ps_first_lease :: u128
  ps_last_lease :: u128
  ps_cursor :: u128
  ps_leased :: "u128 set"

definition u128_saturating_succ :: "u128 \<Rightarrow> u128" where
  "u128_saturating_succ a = (if a = - 1 then a else a + 1)"

definition is_ipv6 :: "ip_addr \<Rightarrow> bool" where
  "is_ipv6 a = (case a of V4 _ \<Rightarrow> False | V6 _ \<Rightarrow> True)"

definition to_integer :: "ip_addr \<Rightarrow> u128" where
  "to_integer a = (case a of V4 w \<Rightarrow> ucast w | V6 w \<Rightarrow> w)"

definition from_integer :: "u128 \<Rightarrow> bool \<Rightarrow> ip_addr" where
  "from_integer n v6 = (if v6 then V6 n else V4 (ucast n))"

definition usable_bounds :: "ip_prefix \<Rightarrow> u128 \<times> u128" where
  "usable_bounds prefix =
     (let v6 = is_ipv6 (ipp_addr prefix);
          bits = (if v6 then 128 else 32 :: u8);
          base = to_integer (ipp_addr prefix);
          host_bits = unat (bits - ipp_len prefix);
          range = (if host_bits < 128 then push_bit host_bits 1 else 0);
          last_addr = base + range - 1
      in if host_bits = 0 \<or> host_bits = 1 then (base, last_addr)
         else if v6 then (base + 1, last_addr) else (base + 1, last_addr - 1))"

definition pool_new :: "ip_prefix \<Rightarrow> pool_state" where
  "pool_new prefix =
     (case usable_bounds prefix of (first_usable, last_usable) \<Rightarrow>
        \<lparr>ps_prefix = prefix, ps_first_lease = u128_saturating_succ first_usable, ps_last_lease = last_usable,
         ps_cursor = u128_saturating_succ first_usable, ps_leased = {}\<rparr>)"

datatype pool_error = NotAPrefix | NotAnAddress string | NotALength string | BadPrefix ip_error

definition pool_parse :: "string \<Rightarrow> pool_error + pool_state" where
  "pool_parse input =
     (case split_once_at (CHR ''/'') input of
        None \<Rightarrow> Inl NotAPrefix
      | Some (a, l) \<Rightarrow>
          (case parse_ip a of
             None \<Rightarrow> Inl (NotAnAddress a)
           | Some ip \<Rightarrow>
               (case parse_u8 l of
                  None \<Rightarrow> Inl (NotALength l)
                | Some n \<Rightarrow>
                    (case ip_prefix_new ip n of
                       Inl e \<Rightarrow> Inl (BadPrefix e)
                     | Inr prefix \<Rightarrow> Inr (pool_new prefix)))))"

definition proxy_address :: "pool_state \<Rightarrow> ip_addr" where
  "proxy_address s = from_integer (fst (usable_bounds (ps_prefix s))) (is_ipv6 (ipp_addr (ps_prefix s)))"

definition capacity :: "pool_state \<Rightarrow> u128" where
  "capacity s = (if ps_last_lease s < ps_first_lease s then 0 else ps_last_lease s - ps_first_lease s + 1)"

definition leased_count :: "pool_state \<Rightarrow> nat" where
  "leased_count s = card (ps_leased s)"

text \<open>A lease: its key in the pool and the host prefix handed out.\<close>

record ip_lease =
  il_key :: u128
  il_prefix :: ip_prefix

fun lease_loop :: "nat \<Rightarrow> u128 \<Rightarrow> pool_state \<Rightarrow> u128 option" where
  "lease_loop 0 candidate s = None"
| "lease_loop (Suc n) candidate s =
     (let c = (if ps_last_lease s < candidate then ps_first_lease s else candidate)
      in if c \<notin> ps_leased s then Some c else lease_loop n (u128_saturating_succ c) s)"

definition pool_lease :: "pool_state \<Rightarrow> ip_lease option \<times> pool_state" where
  "pool_lease s =
     (if ps_last_lease s < ps_first_lease s then (None, s)
      else
        (case lease_loop (unat (ps_last_lease s - ps_first_lease s + 1)) (ps_cursor s) s of
           None \<Rightarrow> (None, s)
         | Some c \<Rightarrow>
             (Some \<lparr>il_key = c, il_prefix = ip_prefix_host (from_integer c (is_ipv6 (ipp_addr (ps_prefix s))))\<rparr>,
              s\<lparr>ps_leased := insert c (ps_leased s), ps_cursor := u128_saturating_succ c\<rparr>)))"

definition pool_release :: "u128 \<Rightarrow> pool_state \<Rightarrow> pool_state" where
  "pool_release key s = s\<lparr>ps_leased := ps_leased s - {key}\<rparr>"

subsection \<open>Opening IP tunnels\<close>

definition answer_address_request :: "requested_address list \<Rightarrow> ip_prefix list \<Rightarrow> assigned_address list" where
  "answer_address_request requests assigned =
     map (\<lambda>r. \<lparr>aa_request_id = ra_request_id r,
            aa_prefix = (case find (\<lambda>p. is_ipv6 (ipp_addr p) = is_ipv6 (ipp_addr (ra_prefix r))) assigned of
                           Some p \<Rightarrow> p
                         | None \<Rightarrow> ip_prefix_unspecified (is_ipv6 (ipp_addr (ra_prefix r))))\<rparr>) requests"

record ip_endpoint =
  ep_assigned :: "assigned_address list"
  ep_routes :: "ip_address_range list"

record ip_session =
  ises_client :: socket_addr
  ises_scope :: ip_scope
  ises_assigned :: ip_prefix
  ises_lease :: ip_lease

text \<open>
  The proxy: its pool, the routes it advertises, whether the application still takes sessions, and the sessions
  handed over. Dropping a session returns its lease.
\<close>

record ip_proxy =
  ipx_pool :: pool_state
  ipx_routes :: "ip_address_range list"
  ipx_attached :: bool
  ipx_sessions :: "ip_session list"

definition ip_proxy_new :: "pool_state \<Rightarrow> ip_address_range list \<Rightarrow> ip_proxy" where
  "ip_proxy_new pool routes = \<lparr>ipx_pool = pool, ipx_routes = routes, ipx_attached = True, ipx_sessions = []\<rparr>"

definition ip_proxy_call :: "(ip_proxy, ip_endpoint) service" where
  "ip_proxy_call rq w =
     (if rq_protocol rq \<noteq> ConnectIp then (Refused (rejection_new 501 ''IpProxy only serves connect-ip''), w)
      else
        (case as_ip (rq_destination rq) of
           None \<Rightarrow> (Refused (bad_request ''request carried no IP scope''), w)
         | Some scope \<Rightarrow>
             (case pool_lease (ipx_pool w) of
                (None, pool) \<Rightarrow>
                  (Refused (with_proxy_error ''proxy_internal_error''
                     (rejection_new 503 ''the proxy's address pool is exhausted'')), w\<lparr>ipx_pool := pool\<rparr>)
              | (Some lease, pool) \<Rightarrow>
                  (let session = \<lparr>ises_client = rq_client rq, ises_scope = scope,
                         ises_assigned = il_prefix lease, ises_lease = lease\<rparr>;
                       endpoint = \<lparr>ep_assigned = [\<lparr>aa_request_id = 0, aa_prefix = il_prefix lease\<rparr>],
                         ep_routes = ipx_routes w\<rparr>
                   in if ipx_attached w
                      then (Opened (accepted_of (AcIp endpoint)),
                            w\<lparr>ipx_pool := pool, ipx_sessions := ipx_sessions w @ [session]\<rparr>)
                      else (Refused (with_proxy_error ''proxy_internal_error''
                              (rejection_new 503 ''the proxy has no network attached'')),
                            w\<lparr>ipx_pool := pool_release (il_key lease) pool\<rparr>)))))"

text \<open>The application drops a session.\<close>

definition session_drop :: "ip_session \<Rightarrow> ip_proxy \<Rightarrow> ip_proxy" where
  "session_drop session w = w\<lparr>ipx_pool := pool_release (il_key (ises_lease session)) (ipx_pool w),
     ipx_sessions := remove1 session (ipx_sessions w)\<rparr>"

subsection \<open>Searching for a free address\<close>

text \<open>The pool in numbers: its lease range does not reach the greatest 128-bit word.\<close>

definition pool_ok :: "pool_state \<Rightarrow> bool" where
  "pool_ok s \<longleftrightarrow> unat (ps_last_lease s) < 2 ^ 128 - 1 \<and> finite (ps_leased s) \<and>
     (\<forall>c \<in> ps_leased s. ps_first_lease s \<le> c \<and> c \<le> ps_last_lease s) \<and>
     (ps_first_lease s \<le> ps_last_lease s \<longrightarrow>
        unat (ps_first_lease s) \<le> unat (ps_cursor s) \<and> unat (ps_cursor s) \<le> unat (ps_last_lease s) + 1)"

definition range_length :: "pool_state \<Rightarrow> nat" where
  "range_length s = unat (ps_last_lease s) + 1 - unat (ps_first_lease s)"

lemma saturating_succ_num: "unat c < 2 ^ 128 - 1 \<Longrightarrow> unat (u128_saturating_succ c) = unat c + 1"
proof -
  assume lt: "unat c < 2 ^ 128 - 1"
  have "unat (- 1 :: u128) = 2 ^ 128 - 1" by (simp add: unsigned_minus_1_eq_mask mask_eq_exp_minus_1)
  then have "c \<noteq> - 1" using lt by auto
  then show ?thesis using lt by (simp add: u128_saturating_succ_def unat_word_ariths)
qed

lemma lease_loop_Some:
  assumes "ps_first_lease s \<le> ps_last_lease s" "unat (ps_last_lease s) < 2 ^ 128 - 1"
    and "unat (ps_first_lease s) \<le> unat candidate" "lease_loop n candidate s = Some c"
  shows "ps_first_lease s \<le> c \<and> c \<le> ps_last_lease s \<and> c \<notin> ps_leased s"
  using assms(3,4)
proof (induction n arbitrary: candidate)
  case (Suc n)
  let ?c = "if ps_last_lease s < candidate then ps_first_lease s else candidate"
  have c: "ps_first_lease s \<le> ?c" "?c \<le> ps_last_lease s"
    using assms(1) Suc.prems(1) by (auto simp: word_le_nat_alt not_less)
  show ?case
  proof (cases "?c \<in> ps_leased s")
    case True
    have "unat (u128_saturating_succ ?c) = unat ?c + 1"
      using c(2) assms(2) by (intro saturating_succ_num) (simp add: word_le_nat_alt)
    then show ?thesis using Suc.IH [of "u128_saturating_succ ?c"] Suc.prems(2) True c(1)
      by (simp add: Let_def word_le_nat_alt)
  next
    case False
    then show ?thesis using Suc.prems(2) c by (auto simp: Let_def)
  qed
qed simp

text \<open>A search that fails has looked at the addresses that follow the cursor, around the end of the range.\<close>

lemma lease_loop_None:
  assumes "ps_first_lease s \<le> ps_last_lease s" "unat (ps_last_lease s) < 2 ^ 128 - 1"
    and "unat (ps_first_lease s) \<le> unat candidate" "unat candidate \<le> unat (ps_last_lease s) + 1"
    and "lease_loop n candidate s = None" "i < n"
  shows "of_nat (unat (ps_first_lease s) + (unat candidate - unat (ps_first_lease s) + i) mod range_length s) \<in> ps_leased s"
  using assms(3-)
proof (induction n arbitrary: candidate i)
  case (Suc n)
  let ?f = "unat (ps_first_lease s)" and ?r = "range_length s"
  let ?c = "if ps_last_lease s < candidate then ps_first_lease s else candidate"
  have le: "?f \<le> unat (ps_last_lease s)" using assms(1) by (simp add: word_le_nat_alt)
  have c: "unat ?c \<le> unat (ps_last_lease s)" "?f \<le> unat ?c"
    using le Suc.prems(1) by (auto simp: word_less_nat_alt not_less)
  have pos: "unat ?c - ?f = (unat candidate - ?f) mod ?r"
  proof (cases "ps_last_lease s < candidate")
    case True
    then have "unat candidate = unat (ps_last_lease s) + 1" using Suc.prems(2) by (simp add: word_less_nat_alt)
    then show ?thesis using True by (simp add: range_length_def)
  next
    case False
    then show ?thesis using c by (simp add: range_length_def)
  qed
  have taken: "?c \<in> ps_leased s" and rest: "lease_loop n (u128_saturating_succ ?c) s = None"
    using Suc.prems(3) by (auto simp: Let_def split: if_splits)
  have next_c: "unat (u128_saturating_succ ?c) = unat ?c + 1"
    using c(1) assms(2) by (intro saturating_succ_num) simp
  show ?case
  proof (cases i)
    case 0
    have "?f + (unat ?c - ?f) = unat ?c" using c(2) by simp
    then have "of_nat (?f + (unat candidate - ?f) mod ?r) = (of_nat (unat ?c) :: u128)" by (simp only: pos [symmetric])
    then show ?thesis using taken 0 by simp
  next
    case (Suc j)
    have "of_nat (?f + (unat (u128_saturating_succ ?c) - ?f + j) mod ?r) \<in> ps_leased s"
      using rest next_c c Suc.prems(4) \<open>i = Suc j\<close> by (intro Suc.IH) simp_all
    moreover have "(unat (u128_saturating_succ ?c) - ?f + j) mod ?r = (unat candidate - ?f + i) mod ?r"
    proof -
      have "unat (u128_saturating_succ ?c) - ?f + j = (unat candidate - ?f) mod ?r + i"
        using next_c c(2) Suc pos by simp
      then show ?thesis by (simp add: mod_add_left_eq)
    qed
    ultimately show ?thesis by simp
  qed
qed simp

lemma len128_nat: "LENGTH(128) = 128"
  by simp

lemma residue_reached:
  assumes "x < (r :: nat)"
  shows "\<exists>i < r. (k + i) mod r = x"
proof (intro exI conjI)
  let ?i = "(x + (r - k mod r)) mod r"
  show "?i < r" using assms by simp
  have "(k + ?i) mod r = (k mod r + (x + (r - k mod r))) mod r" by (simp add: mod_simps)
  also have "\<dots> = (x + r) mod r"
  proof -
    have "k mod r \<le> r" using assms by (simp add: less_imp_le)
    then show ?thesis by (simp add: ac_simps)
  qed
  finally show "(k + ?i) mod r = x" using assms by simp
qed

text \<open>A lease is granted exactly while an address of the range is free, and is one of those.\<close>

lemma pool_lease_spec:
  assumes "pool_ok s"
  shows "case pool_lease s of
      (None, s') \<Rightarrow> s' = s \<and> (\<forall>c. ps_first_lease s \<le> c \<and> c \<le> ps_last_lease s \<longrightarrow> c \<in> ps_leased s)
    | (Some l, s') \<Rightarrow> ps_first_lease s \<le> il_key l \<and> il_key l \<le> ps_last_lease s \<and> il_key l \<notin> ps_leased s \<and>
        il_prefix l = ip_prefix_host (from_integer (il_key l) (is_ipv6 (ipp_addr (ps_prefix s)))) \<and>
        s' = s\<lparr>ps_leased := insert (il_key l) (ps_leased s), ps_cursor := u128_saturating_succ (il_key l)\<rparr>"
proof (cases "ps_last_lease s < ps_first_lease s")
  case True
  then show ?thesis by (auto simp: pool_lease_def)
next
  case False
  then have le: "ps_first_lease s \<le> ps_last_lease s" by simp
  let ?n = "unat (ps_last_lease s - ps_first_lease s + 1)"
  have lt: "unat (ps_last_lease s) < 2 ^ 128 - 1"
    and cur: "unat (ps_first_lease s) \<le> unat (ps_cursor s)" "unat (ps_cursor s) \<le> unat (ps_last_lease s) + 1"
    using assms le by (auto simp: pool_ok_def)
  have num: "unat (ps_first_lease s) \<le> unat (ps_last_lease s)" using le by (simp add: word_le_nat_alt)
  have "unat (ps_last_lease s - ps_first_lease s) = unat (ps_last_lease s) - unat (ps_first_lease s)"
    using le by (simp add: unat_sub)
  then have n: "?n = range_length s" using lt num by (simp add: unat_word_ariths range_length_def)
  show ?thesis
  proof (cases "lease_loop ?n (ps_cursor s) s")
    case None
    have all: "c \<in> ps_leased s" if c: "ps_first_lease s \<le> c" "c \<le> ps_last_lease s" for c
    proof -
      have "unat c - unat (ps_first_lease s) < range_length s"
        using c by (simp add: range_length_def word_le_nat_alt)
      then obtain i where i: "i < range_length s"
        "(unat (ps_cursor s) - unat (ps_first_lease s) + i) mod range_length s = unat c - unat (ps_first_lease s)"
        using residue_reached by blast
      have "of_nat (unat (ps_first_lease s) + (unat c - unat (ps_first_lease s))) \<in> ps_leased s"
        using lease_loop_None [OF le lt cur None] i n by metis
      then show ?thesis using c(1) by (simp add: word_le_nat_alt)
    qed
    then show ?thesis using False None by (simp add: pool_lease_def)
  next
    case (Some c)
    then show ?thesis using lease_loop_Some [OF le lt cur(1) Some] False by (simp add: pool_lease_def)
  qed
qed

lemma card_word_range:
  "card {c :: u128. a \<le> c \<and> c \<le> b} = unat b + 1 - unat a"
proof -
  have img: "unat ` {c :: u128. a \<le> c \<and> c \<le> b} = {unat a..unat b}"
  proof (intro equalityI subsetI)
    fix n assume n: "n \<in> {unat a..unat b}"
    then have "n < 2 ^ 128" using unsigned_less [of b] by (auto intro: order.strict_trans1)
    then have "unat (of_nat n :: u128) = n" by (simp only: unat_of_nat len128_nat mod_less)
    then show "n \<in> unat ` {c :: u128. a \<le> c \<and> c \<le> b}"
      using n by (intro image_eqI [of _ _ "of_nat n"]) (simp_all add: word_le_nat_alt)
  qed (auto simp: word_le_nat_alt)
  have "inj_on unat {c :: u128. a \<le> c \<and> c \<le> b}" by (simp add: inj_on_def word_unat_eq_iff)
  from card_image [OF this] show ?thesis by (simp add: img)
qed

lemma lease_refused_iff:
  assumes "pool_ok s"
  shows "fst (pool_lease s) = None \<longleftrightarrow> card (ps_leased s) = unat (capacity s)"
proof -
  let ?r = "{c. ps_first_lease s \<le> c \<and> c \<le> ps_last_lease s}"
  have sub: "ps_leased s \<subseteq> ?r" using assms by (auto simp: pool_ok_def)
  have "unat (capacity s) = card ?r"
  proof (cases "ps_last_lease s < ps_first_lease s")
    case True
    then have "?r = {}" by auto
    then show ?thesis using True by (simp only: capacity_def if_True card.empty unsigned_0)
  next
    case False
    then have "unat (ps_last_lease s - ps_first_lease s) = unat (ps_last_lease s) - unat (ps_first_lease s)"
      "unat (ps_first_lease s) \<le> unat (ps_last_lease s)" by (simp_all add: unat_sub word_le_nat_alt not_less)
    moreover have "unat (ps_last_lease s) < 2 ^ 128 - 1" using assms by (simp add: pool_ok_def)
    ultimately show ?thesis using False by (simp add: capacity_def card_word_range unat_word_ariths)
  qed
  moreover have "fst (pool_lease s) = None \<longleftrightarrow> ?r \<subseteq> ps_leased s"
    using pool_lease_spec [OF assms] by (auto split: prod.splits option.splits)
  moreover have "?r \<subseteq> ps_leased s \<longleftrightarrow> card (ps_leased s) = card ?r"
    using sub card_subset_eq [of ?r "ps_leased s"] by (cases "ps_leased s = ?r") auto
  ultimately show ?thesis by simp
qed

lemma pool_ok_lease:
  assumes "pool_ok s" "pool_lease s = (r, s')"
  shows "pool_ok s'"
proof (cases r)
  case None
  then show ?thesis using pool_lease_spec [OF assms(1)] assms by simp
next
  case (Some l)
  have l: "ps_first_lease s \<le> il_key l" "il_key l \<le> ps_last_lease s"
    "s' = s\<lparr>ps_leased := insert (il_key l) (ps_leased s), ps_cursor := u128_saturating_succ (il_key l)\<rparr>"
    using pool_lease_spec [OF assms(1)] by (simp_all add: assms(2) Some)
  have "unat (u128_saturating_succ (il_key l)) = unat (il_key l) + 1"
    using l(2) assms(1) by (intro saturating_succ_num) (simp add: pool_ok_def word_le_nat_alt)
  then show ?thesis using assms(1) l by (simp add: pool_ok_def word_le_nat_alt)
qed

lemma pool_ok_release: "pool_ok s \<Longrightarrow> pool_ok (pool_release key s)"
  by (auto simp: pool_ok_def pool_release_def)

subsection \<open>The addresses of a prefix\<close>

definition host_bits :: "ip_prefix \<Rightarrow> nat" where
  "host_bits p = unat (address_bits (ipp_addr p)) - unat (ipp_len p)"

text \<open>The prefix is not the last of the 128-bit numbers.\<close>

definition below_top :: "ip_prefix \<Rightarrow> bool" where
  "below_top p \<longleftrightarrow> ip_num (ipp_addr p) + 2 ^ host_bits p < 2 ^ 128"

definition prefix_covers :: "ip_prefix \<Rightarrow> ip_addr \<Rightarrow> bool" where
  "prefix_covers p a \<longleftrightarrow> is_ipv6 a = is_ipv6 (ipp_addr p) \<and>
     ip_num (ipp_addr p) \<le> ip_num a \<and> ip_num a < ip_num (ipp_addr p) + 2 ^ host_bits p"

lemma masked_dvd:
  fixes w :: "'a::len word"
  assumes "w AND push_bit h (- 1) = w"
  shows "2 ^ h dvd unat w"
proof -
  have "take_bit h (push_bit h (- 1 :: 'a word)) = 0"
    by (rule bit_eqI) (simp add: bit_take_bit_iff bit_not_iff bit_mask_iff)
  then have "take_bit h (w AND push_bit h (- 1)) = 0" by (simp add: take_bit_and)
  then have "take_bit h (unat w) = 0" using assms by (metis unsigned_0 unsigned_take_bit_eq)
  then show ?thesis by (simp add: take_bit_eq_mod mod_0_imp_dvd)
qed

lemma prefix_ok_num:
  assumes "prefix_ok p"
  shows "unat (ipp_len p) \<le> unat (address_bits (ipp_addr p))"
    "ip_num (ipp_addr p) + 2 ^ host_bits p \<le> 2 ^ unat (address_bits (ipp_addr p))"
proof -
  have p: "ipp_len p \<le> address_bits (ipp_addr p)" "masked (ipp_addr p) (ipp_len p) = ipp_addr p"
    using assms by (auto simp: prefix_ok_def ip_prefix_new_def split: if_splits)
  show le: "unat (ipp_len p) \<le> unat (address_bits (ipp_addr p))" using p(1) by (simp add: word_le_nat_alt)
  have fits: "n + 2 ^ h \<le> 2 ^ b" if d: "2 ^ h dvd n" and lt: "n < 2 ^ b" "h \<le> b" for n h b :: nat
  proof -
    obtain k where k: "n = 2 ^ h * k" using d by (elim dvdE)
    have "2 ^ h * k < 2 ^ h * 2 ^ (b - h)" using lt by (simp add: k flip: power_add)
    then have "k < 2 ^ (b - h)" by simp
    then have "2 ^ h * (k + 1) \<le> 2 ^ h * 2 ^ (b - h)" by (intro mult_left_mono) simp_all
    then show ?thesis using lt(2) by (simp add: k algebra_simps flip: power_add)
  qed
  have dvd: "2 ^ host_bits p dvd ip_num (ipp_addr p)"
  proof (cases "ipp_len p = 0")
    case True
    then have "ip_num (ipp_addr p) = 0"
      using p(2) by (cases "ipp_addr p") (simp_all add: masked_def ip_num_def)
    then show ?thesis by simp
  next
    case False
    then show ?thesis
      using p(2) by (cases "ipp_addr p") (auto simp: masked_def ip_num_def host_bits_def address_bits_def
          intro: masked_dvd)
  qed
  have "ip_num (ipp_addr p) < 2 ^ unat (address_bits (ipp_addr p))"
    by (cases "ipp_addr p") (auto simp: ip_num_def address_bits_def intro: order.strict_trans2 [OF unsigned_less])
  then show "ip_num (ipp_addr p) + 2 ^ host_bits p \<le> 2 ^ unat (address_bits (ipp_addr p))"
    using fits [OF dvd] by (simp add: host_bits_def)
qed

lemma unat_to_integer: "unat (to_integer a) = ip_num a"
  by (cases a) (simp_all add: to_integer_def ip_num_def unsigned_ucast_eq take_bit_nat_eq_self_iff
      order.strict_trans2 [OF unsigned_less])

text \<open>The bounds a pool works with, in numbers.\<close>

lemma usable_bounds_num:
  assumes "prefix_ok p" "below_top p"
  shows "unat (fst (usable_bounds p)) = ip_num (ipp_addr p) + (if host_bits p \<le> 1 then 0 else 1)"
    "unat (snd (usable_bounds p)) =
       ip_num (ipp_addr p) + 2 ^ host_bits p - (if host_bits p \<le> 1 \<or> is_ipv6 (ipp_addr p) then 1 else 2)"
proof -
  let ?base = "to_integer (ipp_addr p)" and ?h = "host_bits p"
  have len: "ipp_len p \<le> address_bits (ipp_addr p)" using prefix_ok_num(1) [OF assms(1)] by (simp add: word_le_nat_alt)
  have bits: "(if is_ipv6 (ipp_addr p) then 128 else 32) = address_bits (ipp_addr p)"
    by (cases "ipp_addr p") (simp_all add: is_ipv6_def address_bits_def)
  have h: "unat (address_bits (ipp_addr p) - ipp_len p) = ?h" using len by (simp add: unat_sub host_bits_def)
  have top: "ip_num (ipp_addr p) + 2 ^ ?h < 2 ^ 128" using assms(2) by (simp add: below_top_def)
  then have "(2 :: nat) ^ ?h < 2 ^ 128" by simp
  then have h128: "?h < 128" by (simp only: power_strict_increasing_iff one_less_numeral_iff Num.num.distinct semiring_norm)
  have "unat (of_nat (2 ^ ?h) :: u128) = 2 ^ ?h" using \<open>2 ^ ?h < 2 ^ 128\<close> by (simp only: unat_of_nat len128_nat mod_less)
  then have two: "unat (2 ^ ?h :: u128) = 2 ^ ?h" by simp
  have pos: "(1 :: nat) \<le> 2 ^ ?h" by simp
  have end0: "unat (?base + push_bit ?h 1) = ip_num (ipp_addr p) + 2 ^ ?h"
    using top by (simp add: unat_word_ariths two unat_to_integer)
  have "1 \<le> ?base + 2 ^ ?h" using end0 pos by (simp add: word_le_nat_alt trans_le_add2)
  then have last1: "unat (?base + 2 ^ ?h - 1) = ip_num (ipp_addr p) + 2 ^ ?h - 1"
    using end0 by (simp add: unat_sub)
  have last2: "unat (?base + 2 ^ ?h - 1 - 1) = ip_num (ipp_addr p) + 2 ^ ?h - 2" if "1 < ?h"
  proof -
    have "(2 :: nat) ^ 1 < 2 ^ ?h" using that by (intro power_strict_increasing) simp_all
    then have "1 \<le> ?base + 2 ^ ?h - 1" using last1 by (simp add: word_le_nat_alt)
    then show ?thesis using last1 unat_sub [of 1 "?base + 2 ^ ?h - 1"] by simp
  qed
  have "ip_num (ipp_addr p) + 1 < 2 ^ 128" using top pos by linarith
  then have first: "unat (?base + 1) = ip_num (ipp_addr p) + 1" by (simp add: unat_word_ariths unat_to_integer)
  have ub: "usable_bounds p =
      (if ?h \<le> 1 then (?base, ?base + 2 ^ ?h - 1)
       else if is_ipv6 (ipp_addr p) then (?base + 1, ?base + 2 ^ ?h - 1) else (?base + 1, ?base + 2 ^ ?h - 1 - 1))"
    unfolding usable_bounds_def Let_def bits h using h128 by (cases ?h; cases "?h - 1") simp_all
  show "unat (fst (usable_bounds p)) = ip_num (ipp_addr p) + (if ?h \<le> 1 then 0 else 1)"
    using first by (simp add: ub unat_to_integer)
  show "unat (snd (usable_bounds p)) =
       ip_num (ipp_addr p) + 2 ^ ?h - (if ?h \<le> 1 \<or> is_ipv6 (ipp_addr p) then 1 else 2)"
    using last1 last2 by (simp add: ub)
qed

lemma pool_new_num:
  assumes "prefix_ok p" "below_top p"
  shows "unat (ps_first_lease (pool_new p)) = ip_num (ipp_addr p) + (if host_bits p \<le> 1 then 1 else 2)"
    "unat (ps_last_lease (pool_new p)) =
       ip_num (ipp_addr p) + 2 ^ host_bits p - (if host_bits p \<le> 1 \<or> is_ipv6 (ipp_addr p) then 1 else 2)"
    "pool_ok (pool_new p)"
proof -
  note u = usable_bounds_num [OF assms]
  have top: "ip_num (ipp_addr p) + 2 ^ host_bits p < 2 ^ 128" using assms(2) by (simp add: below_top_def)
  have pos: "(1 :: nat) \<le> 2 ^ host_bits p" by simp
  have two: "(2 :: nat) \<le> 2 ^ host_bits p" if "\<not> host_bits p \<le> 1"
    using that power_increasing [of 1 "host_bits p" "2 :: nat"] by simp
  have "unat (fst (usable_bounds p)) + 1 < 2 ^ 128"
  proof (cases "host_bits p \<le> 1")
    case True
    then have "unat (fst (usable_bounds p)) = ip_num (ipp_addr p)" using u(1) by simp
    then show ?thesis using top pos by linarith
  next
    case False
    then have "unat (fst (usable_bounds p)) = ip_num (ipp_addr p) + 1" using u(1) by simp
    then show ?thesis using top two [OF False] by linarith
  qed
  then have "unat (fst (usable_bounds p)) < 2 ^ 128 - 1" by linarith
  then have f: "unat (ps_first_lease (pool_new p)) = unat (fst (usable_bounds p)) + 1"
    by (simp add: pool_new_def split_beta saturating_succ_num)
  show first: "unat (ps_first_lease (pool_new p)) = ip_num (ipp_addr p) + (if host_bits p \<le> 1 then 1 else 2)"
    using f u(1) by simp
  show last_n: "unat (ps_last_lease (pool_new p)) =
       ip_num (ipp_addr p) + 2 ^ host_bits p - (if host_bits p \<le> 1 \<or> is_ipv6 (ipp_addr p) then 1 else 2)"
    using u(2) by (simp add: pool_new_def split_beta)
  have "unat (ps_last_lease (pool_new p)) \<le> ip_num (ipp_addr p) + 2 ^ host_bits p - 1" 
    unfolding last_n by (rule diff_le_mono2) simp
  then have "unat (ps_last_lease (pool_new p)) < 2 ^ 128 - 1" using top pos by linarith
  moreover have "ps_leased (pool_new p) = {}" "ps_cursor (pool_new p) = ps_first_lease (pool_new p)"
    by (simp_all add: pool_new_def split_beta)
  ultimately show "pool_ok (pool_new p)" by (simp add: pool_ok_def word_le_nat_alt)
qed

subsection \<open>Leases over time\<close>

datatype pool_op = Lease | Release nat

fun pool_step :: "pool_op \<Rightarrow> pool_state \<times> ip_lease list \<Rightarrow> pool_state \<times> ip_lease list" where
  "pool_step Lease (s, held) =
     (case pool_lease s of (None, s') \<Rightarrow> (s', held) | (Some l, s') \<Rightarrow> (s', held @ [l]))"
| "pool_step (Release i) (s, held) =
     (if i < length held then (pool_release (il_key (held ! i)) s, take i held @ drop (Suc i) held) else (s, held))"

definition held_ok :: "ip_prefix \<Rightarrow> pool_state \<times> ip_lease list \<Rightarrow> bool" where
  "held_ok p w \<longleftrightarrow> (case w of (s, held) \<Rightarrow>
     pool_ok s \<and> ps_prefix s = p \<and> ps_first_lease s = ps_first_lease (pool_new p) \<and>
     ps_last_lease s = ps_last_lease (pool_new p) \<and>
     distinct (map il_key held) \<and> set (map il_key held) = ps_leased s \<and>
     list_all (\<lambda>l. il_prefix l = ip_prefix_host (from_integer (il_key l) (is_ipv6 (ipp_addr p)))) held)"

lemma pool_step_held_ok:
  assumes "held_ok p w"
  shows "held_ok p (pool_step op w)"
proof -
  obtain s held where w: "w = (s, held)" by (cases w)
  have h: "pool_ok s" "ps_prefix s = p" "ps_first_lease s = ps_first_lease (pool_new p)"
    "ps_last_lease s = ps_last_lease (pool_new p)" "distinct (map il_key held)" "set (map il_key held) = ps_leased s"
    "list_all (\<lambda>l. il_prefix l = ip_prefix_host (from_integer (il_key l) (is_ipv6 (ipp_addr p)))) held"
    using assms by (simp_all add: held_ok_def w)
  show ?thesis
  proof (cases op)
    case Lease
    obtain r s' where r: "pool_lease s = (r, s')" by fastforce
    note spec = pool_lease_spec [OF h(1), unfolded r prod.case] and ok = pool_ok_lease [OF h(1) r]
    show ?thesis
    proof (cases r)
      case None
      then have "s' = s" using spec by simp
      then show ?thesis using assms by (simp add: Lease w r None)
    next
      case (Some l)
      have l: "il_key l \<notin> ps_leased s"
        "il_prefix l = ip_prefix_host (from_integer (il_key l) (is_ipv6 (ipp_addr p)))"
        "s' = s\<lparr>ps_leased := insert (il_key l) (ps_leased s), ps_cursor := u128_saturating_succ (il_key l)\<rparr>"
        using spec h(2) by (simp_all add: Some)
      have f: "ps_prefix s' = p" "ps_first_lease s' = ps_first_lease (pool_new p)"
        "ps_last_lease s' = ps_last_lease (pool_new p)" "ps_leased s' = insert (il_key l) (ps_leased s)"
        using h(2-4) by (simp_all add: l(3))
      have "distinct (map il_key (held @ [l]))" "set (map il_key (held @ [l])) = insert (il_key l) (ps_leased s)"
        using h(5,6) l(1) by auto
      then show ?thesis using ok f h(7) l(2) by (simp add: Lease w r Some held_ok_def)
    qed
  next
    case (Release i)
    show ?thesis
    proof (cases "i < length held")
      case True
      let ?rest = "take i held @ drop (Suc i) held"
      obtain xs l ys where x: "held = xs @ l # ys" "i = length xs" using True id_take_nth_drop [of i held] by fastforce
      have rest: "?rest = xs @ ys" "held ! i = l" by (simp_all add: x)
      have d: "distinct (map il_key (xs @ ys))" "set (map il_key (xs @ ys)) = ps_leased s - {il_key l}"
        using h(5,6) by (auto simp: x(1))
      have f: "ps_prefix (pool_release k s) = ps_prefix s" "ps_first_lease (pool_release k s) = ps_first_lease s"
        "ps_last_lease (pool_release k s) = ps_last_lease s" "ps_leased (pool_release k s) = ps_leased s - {k}" for k
        by (simp_all add: pool_release_def)
      have "pool_step op w = (pool_release (il_key l) s, xs @ ys)"
        using True by (simp add: Release w rest)
      then show ?thesis
        using d h(2-4,7) pool_ok_release [OF h(1)] by (simp add: held_ok_def f x(1) image_Un)
    next
      case False
      then show ?thesis using assms by (simp add: Release w)
    qed
  qed
qed

lemma pool_run_held_ok: "held_ok p w \<Longrightarrow> held_ok p (fold pool_step ops w)"
  by (induction ops arbitrary: w) (simp_all add: pool_step_held_ok)

lemma from_integer_num:
  assumes "prefix_ok p" "ip_num (ipp_addr p) \<le> unat k" "unat k < ip_num (ipp_addr p) + 2 ^ host_bits p"
  shows "ip_num (from_integer k (is_ipv6 (ipp_addr p))) = unat k"
    "prefix_covers p (from_integer k (is_ipv6 (ipp_addr p)))"
proof -
  have "unat k < 2 ^ unat (address_bits (ipp_addr p))" using prefix_ok_num(2) [OF assms(1)] assms(3) by linarith
  then show n: "ip_num (from_integer k (is_ipv6 (ipp_addr p))) = unat k"
    by (cases "ipp_addr p") (simp_all add: is_ipv6_def from_integer_def ip_num_def address_bits_def
        unsigned_ucast_eq take_bit_nat_eq_self_iff)
  have "is_ipv6 (from_integer k v6) = v6" for v6 by (simp add: is_ipv6_def from_integer_def)
  then show "prefix_covers p (from_integer k (is_ipv6 (ipp_addr p)))"
    using n assms(2,3) by (simp add: prefix_covers_def)
qed

text \<open>
  C21. Two tunnels never hold the same address. For a pool over any prefix below the very last of the
  IPv6 space, after any sequence of leases and releases: the addresses held are pairwise distinct, all inside the
  prefix and never the proxy's own; and the next lease is refused exactly when as many addresses are held as
  the pool's capacity.
\<close>

theorem leases_are_exclusive:
  assumes "prefix_ok p" "below_top p" "(s, held) = fold pool_step ops (pool_new p, [])"
  shows "distinct (map il_prefix held) \<and>
    (\<forall>l \<in> set held. prefix_covers p (ipp_addr (il_prefix l)) \<and> ipp_addr (il_prefix l) \<noteq> proxy_address s) \<and>
    (fst (pool_lease s) = None \<longleftrightarrow> length held = unat (capacity s))"
proof -
  let ?v6 = "is_ipv6 (ipp_addr p)"
  have "held_ok p (pool_new p, [])"
    using pool_new_num(3) [OF assms(1,2)] by (simp add: held_ok_def pool_new_def split_beta)
  then have "held_ok p (s, held)" using pool_run_held_ok assms(3) by simp
  then have h: "pool_ok s" "ps_prefix s = p" "ps_first_lease s = ps_first_lease (pool_new p)"
    "ps_last_lease s = ps_last_lease (pool_new p)" "distinct (map il_key held)" "set (map il_key held) = ps_leased s"
    "list_all (\<lambda>l. il_prefix l = ip_prefix_host (from_integer (il_key l) ?v6)) held"
    by (simp_all add: held_ok_def)
  note num = pool_new_num [OF assms(1,2)] and u = usable_bounds_num [OF assms(1,2)]
  have key: "unat (fst (usable_bounds p)) < unat (il_key l)" "ip_num (ipp_addr p) \<le> unat (il_key l)"
    "unat (il_key l) < ip_num (ipp_addr p) + 2 ^ host_bits p"
    "ps_first_lease s \<le> il_key l" "il_key l \<le> ps_last_lease s" if "l \<in> set held" for l
  proof -
    have "il_key l \<in> ps_leased s" using that h(6) by auto
    then show b: "ps_first_lease s \<le> il_key l" "il_key l \<le> ps_last_lease s" using h(1) by (auto simp: pool_ok_def)
    have pos: "(1 :: nat) \<le> 2 ^ host_bits p" by simp
    show "unat (fst (usable_bounds p)) < unat (il_key l)" "ip_num (ipp_addr p) \<le> unat (il_key l)"
      using b(1) num(1) u(1) by (auto simp: h(3) word_le_nat_alt split: if_splits)
    have "unat (il_key l) \<le> ip_num (ipp_addr p) + 2 ^ host_bits p - 1"
      using b(2) num(2) by (simp add: h(4) word_le_nat_alt split: if_splits)
    then show "unat (il_key l) < ip_num (ipp_addr p) + 2 ^ host_bits p" using pos by linarith
  qed
  note addr = from_integer_num [OF assms(1) key(2,3)]
  have prefix_l: "il_prefix l = ip_prefix_host (from_integer (il_key l) ?v6)" if "l \<in> set held" for l
    using h(7) that by (simp add: list_all_iff)
  show ?thesis
  proof (intro conjI ballI)
    have inj: "inj_on il_key (set held)" "distinct held" using h(5) by (simp_all only: distinct_map)
    have "inj_on il_prefix (set held)"
    proof (rule inj_onI)
      fix a b assume ab: "a \<in> set held" "b \<in> set held" "il_prefix a = il_prefix b"
      then have "from_integer (il_key a) ?v6 = from_integer (il_key b) ?v6"
        by (simp add: prefix_l ip_prefix_host_def)
      then have "unat (il_key a) = unat (il_key b)"
        using addr(1) [OF ab(1) ab(1)] addr(1) [OF ab(2) ab(2)] by simp
      then show "a = b" using inj_onD [OF inj(1) _ ab(1,2)] by (simp add: word_unat_eq_iff)
    qed
    then show "distinct (map il_prefix held)" using inj(2) by (simp only: distinct_map simp_thms)
  next
    fix l assume l: "l \<in> set held"
    show "prefix_covers p (ipp_addr (il_prefix l))" using addr(2) [OF l l] prefix_l [OF l] by (simp add: ip_prefix_host_def)
    have below: "unat (fst (usable_bounds p)) < ip_num (ipp_addr p) + 2 ^ host_bits p"
      using key(1,3) [OF l] by linarith
    have "ip_num (proxy_address s) = unat (fst (usable_bounds p))"
      unfolding proxy_address_def h(2) by (rule from_integer_num(1) [OF assms(1) _ below]) (simp add: u(1))
    moreover have "ip_num (ipp_addr (il_prefix l)) = unat (il_key l)"
      using addr(1) [OF l l] prefix_l [OF l] by (simp add: ip_prefix_host_def)
    ultimately show "ipp_addr (il_prefix l) \<noteq> proxy_address s" using key(1) [OF l] by auto
  next
    show "fst (pool_lease s) = None \<longleftrightarrow> length held = unat (capacity s)"
      unfolding lease_refused_iff [OF h(1)] h(6) [symmetric] distinct_card [OF h(5)] length_map ..
  qed
qed

definition sample_prefix :: ip_prefix where
  "sample_prefix = \<lparr>ipp_addr = V4 0xC0000200, ipp_len = 29\<rparr>"

lemma sample_prefix_ok: "prefix_ok sample_prefix" "below_top sample_prefix"
  by code_simp (simp add: below_top_def sample_prefix_def ip_num_def host_bits_def address_bits_def)

lemma sample_leases: "length (snd (fold pool_step [Lease, Lease, Release 0, Lease] (pool_new sample_prefix, []))) = 2"
  by code_simp

theorem leases_are_exclusive_witness:
  "\<exists>s held. (s, held) = fold pool_step [Lease, Lease, Release 0, Lease] (pool_new sample_prefix, []) \<and>
     distinct (map il_prefix held) \<and> length held = 2 \<and>
     (fst (pool_lease s) = None \<longleftrightarrow> length held = unat (capacity s))"
proof -
  obtain s held where r: "(s, held) = fold pool_step [Lease, Lease, Release 0, Lease] (pool_new sample_prefix, [])"
    by (metis surj_pair)
  then have "length held = 2" using sample_leases by (metis snd_conv)
  then show ?thesis
    using r leases_are_exclusive [OF sample_prefix_ok r] by (intro exI [of _ s] exI [of _ held]) simp
qed

text \<open>
  The prefix that ends with the last IPv6 address is the exception: the search never gets past the greatest word
  to start over, so once that address is leased the pool refuses although every other address is free. And a pool
  of just that address leases the proxy's own.
\<close>

lemma top_pool_never_wraps:
  assumes "ps_last_lease s = - 1" "- 1 \<in> ps_leased s"
  shows "lease_loop n (- 1) s = None"
  using assms by (induction n) (simp_all add: u128_saturating_succ_def)

lemma top_address_pool_leases_proxy:
  "usable_bounds \<lparr>ipp_addr = V6 (- 1), ipp_len = 128\<rparr> = (- 1, - 1)"
  "ps_first_lease (pool_new \<lparr>ipp_addr = V6 (- 1), ipp_len = 128\<rparr>) = - 1"
  by (simp_all add: usable_bounds_def pool_new_def is_ipv6_def to_integer_def u128_saturating_succ_def)

subsection \<open>The proxy\<close>

definition ip_proxy_ok :: "ip_prefix \<Rightarrow> ip_proxy \<Rightarrow> bool" where
  "ip_proxy_ok p w \<longleftrightarrow> held_ok p (ipx_pool w, map ises_lease (ipx_sessions w))"

lemma release_undoes_lease:
  assumes "pool_ok s" "pool_lease s = (Some l, s')"
  shows "ps_leased (pool_release (il_key l) s') = ps_leased s"
  using pool_lease_spec [OF assms(1)] assms(2) by (auto simp: pool_release_def)

text \<open>
  An IP tunnel opens with an address of its own, and a refused request leaves none behind. The request
  must be a CONNECT-IP request with a scope; the client is assigned, unprompted, exactly the address leased for
  the session handed to the application; a pool with no free address, or an application that takes
  no more sessions, refuses the request with every address that was free still free; and the addresses held by sessions
  are again pairwise distinct and those of the pool's books.
\<close>

theorem ip_tunnel_holds_one_lease:
  assumes "ip_proxy_ok p w" "ip_proxy_call rq w = (r, w')"
  shows "ip_proxy_ok p w' \<and>
    (case r of
       Opened a \<Rightarrow> rq_protocol rq = ConnectIp \<and> (\<exists>scope session. as_ip (rq_destination rq) = Some scope \<and>
         ipx_sessions w' = ipx_sessions w @ [session] \<and> ises_scope session = scope \<and>
         il_key (ises_lease session) \<notin> ps_leased (ipx_pool w) \<and>
         a = accepted_of (AcIp \<lparr>ep_assigned = [\<lparr>aa_request_id = 0, aa_prefix = il_prefix (ises_lease session)\<rparr>],
               ep_routes = ipx_routes w\<rparr>))
     | Refused _ \<Rightarrow> ps_leased (ipx_pool w') = ps_leased (ipx_pool w) \<and> ipx_sessions w' = ipx_sessions w
     | Panicked \<Rightarrow> False)"
proof -
  let ?held = "map ises_lease (ipx_sessions w)"
  have held: "held_ok p (ipx_pool w, ?held)" using assms(1) by (simp add: ip_proxy_ok_def)
  then have ok: "pool_ok (ipx_pool w)" by (simp add: held_ok_def)
  obtain l pool where l: "pool_lease (ipx_pool w) = (l, pool)" by fastforce
  consider "rq_protocol rq \<noteq> ConnectIp \<or> as_ip (rq_destination rq) = None"
    | scope where "rq_protocol rq = ConnectIp" "as_ip (rq_destination rq) = Some scope" by blast
  then show ?thesis
  proof cases
    case 1
    then have "w' = w" "\<exists>e. r = Refused e" using assms(2) by (auto simp: ip_proxy_call_def split: option.splits if_splits)
    then show ?thesis using assms(1) by auto
  next
    case (2 scope)
    note d = assms(2) [unfolded ip_proxy_call_def]
    show ?thesis
    proof (cases l)
      case None
      have "pool = ipx_pool w" using pool_lease_spec [OF ok] by (simp add: l None)
      then have "w' = w" "\<exists>e. r = Refused e" using d 2 by (auto simp: l None)
      then show ?thesis using assms(1) by auto
    next
      case (Some lease)
      let ?s = "\<lparr>ises_client = rq_client rq, ises_scope = scope, ises_assigned = il_prefix lease, ises_lease = lease\<rparr>"
      have fresh: "il_key lease \<notin> ps_leased (ipx_pool w)" using pool_lease_spec [OF ok] by (simp add: l Some)
      have step: "held_ok p (pool, ?held @ [lease])"
        using pool_step_held_ok [OF held, of Lease] by (simp add: l Some)
      show ?thesis
      proof (cases "ipx_attached w")
        case True
        have r: "r = Opened (accepted_of (AcIp \<lparr>ep_assigned = [\<lparr>aa_request_id = 0, aa_prefix = il_prefix lease\<rparr>],
            ep_routes = ipx_routes w\<rparr>))"
          "w' = w\<lparr>ipx_pool := pool, ipx_sessions := ipx_sessions w @ [?s]\<rparr>"
          using d 2 True by (simp_all add: l Some)
        have "ip_proxy_ok p w'" using step by (simp add: ip_proxy_ok_def r(2))
        then show ?thesis using fresh 2 by (auto simp: r)
      next
        case False
        have r: "\<exists>e. r = Refused e" "w' = w\<lparr>ipx_pool := pool_release (il_key lease) pool\<rparr>"
          using d 2 False by (auto simp: l Some)
        have "held_ok p (pool_release (il_key lease) pool, ?held)"
          using pool_step_held_ok [OF step, of "Release (length ?held)"] by (simp add: nth_append)
        then have "ip_proxy_ok p w'" by (simp add: ip_proxy_ok_def r(2))
        then show ?thesis using release_undoes_lease [OF ok] l Some r by auto
      qed
    qed
  qed
qed

definition sample_ip_request :: tunnel_request where
  "sample_ip_request = request_new ConnectIp (DestIp scope_any) (SocketAddr (V4 1) 9) (\<lambda>_. None)"

theorem ip_tunnel_holds_one_lease_witness:
  "ip_proxy_ok sample_prefix (ip_proxy_new (pool_new sample_prefix) []) \<and>
   ip_proxy_ok sample_prefix (snd (ip_proxy_call sample_ip_request (ip_proxy_new (pool_new sample_prefix) [])))"
proof -
  have s: "ip_proxy_ok sample_prefix (ip_proxy_new (pool_new sample_prefix) [])"
    using pool_new_num(3) [OF sample_prefix_ok]
    by (simp add: ip_proxy_ok_def ip_proxy_new_def held_ok_def pool_new_def split_beta)
  obtain r w' where c: "ip_proxy_call sample_ip_request (ip_proxy_new (pool_new sample_prefix) []) = (r, w')" by fastforce
  show ?thesis using s ip_tunnel_holds_one_lease [OF s c] by (simp add: c)
qed

subsection \<open>The ends of a tunnel\<close>

record ip_tunnel =
  it_scope :: ip_scope
  it_reader :: bool
  it_assigned :: "assigned_address list"
  it_peer_routes :: "ip_address_range list"
  it_next_request_id :: u64

definition ip_tunnel_new :: "ip_scope \<Rightarrow> ip_tunnel" where
  "ip_tunnel_new scope = \<lparr>it_scope = scope, it_reader = True, it_assigned = [], it_peer_routes = [], it_next_request_id = 1\<rparr>"

definition max_packet_size :: "nat option \<Rightarrow> nat option" where
  "max_packet_size max_payload = Option.bind max_payload (\<lambda>n. if n = 0 then None else Some (n - 1))"

fun number_requests :: "u64 \<Rightarrow> ip_prefix list \<Rightarrow> requested_address list" where
  "number_requests next_id [] = []"
| "number_requests next_id (prefix # rest) =
     \<lparr>ra_request_id = next_id, ra_prefix = prefix\<rparr> # number_requests (next_id + 1) rest"

text \<open>The ids given to the requests and the capsule sent, or why it could not be built.\<close>

definition request_addresses ::
  "ip_prefix list \<Rightarrow> ip_tunnel \<Rightarrow> (ip_error + u64 list \<times> capsule) \<times> ip_tunnel" where
  "request_addresses prefixes t =
     (let requests = number_requests (it_next_request_id t) prefixes;
          t' = t\<lparr>it_next_request_id := it_next_request_id t + of_nat (length prefixes)\<rparr>
      in (and_then (to_capsule (AddressRequest requests)) (\<lambda>c. Inr (map ra_request_id requests, c)), t'))"

datatype ip_event =
    EvPacket bytes
  | EvAssigned "assigned_address list"
  | EvRequested "requested_address list"
  | EvRoutes "ip_address_range list"

text \<open>What waits on a tunnel: capsules and datagrams, whether their senders are gone, and whether the peer closed.\<close>

record tunnel_queues =
  tq_capsules :: "capsule list"
  tq_capsules_closed :: bool
  tq_datagrams :: "bytes list"
  tq_datagrams_closed :: bool
  tq_reader_done :: bool

datatype recv_result = RecvEvent ip_event | RecvEnd | RecvWaiting

definition packet_event :: "bytes \<Rightarrow> ip_event option" where
  "packet_event payload =
     (case decode_packet payload of
        Inr (IpPacket packet) \<Rightarrow> Some (EvPacket packet)
      | Inr (IpUnknownContext _ _) \<Rightarrow> None
      | Inl _ \<Rightarrow> None)"

definition capsule_event :: "ip_capsule \<Rightarrow> ip_tunnel \<Rightarrow> ip_event \<times> ip_tunnel" where
  "capsule_event c t =
     (case c of
        AddressAssign a \<Rightarrow> (EvAssigned a, t\<lparr>it_assigned := a\<rparr>)
      | RouteAdvertisement r \<Rightarrow> (EvRoutes r, t\<lparr>it_peer_routes := r\<rparr>)
      | AddressRequest r \<Rightarrow> (EvRequested r, t))"

function ip_recv :: "ip_tunnel \<Rightarrow> tunnel_queues \<Rightarrow> recv_result \<times> ip_tunnel \<times> tunnel_queues" where
  "ip_recv t q =
     (if \<not> it_reader t then (RecvEnd, t, q)
      else
        (case tq_capsules q of
           c # cs \<Rightarrow>
             (case from_capsule c of
                Inl _ \<Rightarrow> (RecvEnd, t, q\<lparr>tq_capsules := cs\<rparr>)
              | Inr None \<Rightarrow> ip_recv t (q\<lparr>tq_capsules := cs\<rparr>)
              | Inr (Some x) \<Rightarrow>
                  (case capsule_event x t of (e, t') \<Rightarrow> (RecvEvent e, t', q\<lparr>tq_capsules := cs\<rparr>)))
         | [] \<Rightarrow>
             if tq_capsules_closed q then (RecvEnd, t, q)
             else
               (case tq_datagrams q of
                  d # ds \<Rightarrow>
                    (case packet_event d of
                       Some e \<Rightarrow> (RecvEvent e, t, q\<lparr>tq_datagrams := ds\<rparr>)
                     | None \<Rightarrow> ip_recv t (q\<lparr>tq_datagrams := ds\<rparr>))
                | [] \<Rightarrow>
                    if tq_datagrams_closed q then (RecvEnd, t, q)
                    else if tq_reader_done q then (RecvEnd, t\<lparr>it_reader := False\<rparr>, q)
                    else (RecvWaiting, t, q))))"
  by pat_completeness auto

termination
  by (relation "measure (\<lambda>(t, q). length (tq_capsules q) + length (tq_datagrams q))") auto

declare ip_recv.simps [simp del]

datatype link_error = Congested | LinkClosed

definition link_send :: "nat \<Rightarrow> bool \<Rightarrow> bytes \<Rightarrow> bytes list \<Rightarrow> (link_error + unit) \<times> bytes list" where
  "link_send link_capacity closed packet outbound =
     (if closed then (Inl LinkClosed, outbound)
      else if length outbound < link_capacity then (Inr (), outbound @ [packet])
      else (Inl Congested, outbound))"

definition DEFAULT_LINK_CAPACITY :: nat where
  "DEFAULT_LINK_CAPACITY = 1024"

text \<open>Request ids of one tunnel are consecutive.\<close>

lemma number_requests_ids:
  "map ra_request_id (number_requests n ps) = map (\<lambda>i. n + of_nat i) [0..<length ps]"
proof (induction ps arbitrary: n)
  case (Cons p ps)
  have "map (\<lambda>i. n + of_nat i) [0..<length (p # ps)] = n # map (\<lambda>i. n + 1 + of_nat i) [0..<length ps]"
    by (simp add: upt_conv_Cons map_Suc_upt [symmetric] ac_simps del: upt_Suc)
  then show ?case using Cons.IH [of "n + 1"] by simp
qed simp

text \<open>
  Taking events until none is ready.
\<close>

fun ip_drain :: "nat \<Rightarrow> ip_tunnel \<Rightarrow> tunnel_queues \<Rightarrow> ip_event list \<times> ip_tunnel" where
  "ip_drain 0 t q = ([], t)"
| "ip_drain (Suc n) t q =
     (case ip_recv t q of
        (RecvEvent e, t', q') \<Rightarrow> (case ip_drain n t' q' of (es, t'') \<Rightarrow> (e # es, t''))
      | (_, t', _) \<Rightarrow> ([], t'))"

lemma packet_event_encoded: "encode_packet p = Some d \<Longrightarrow> packet_event d = Some (EvPacket p)"
proof -
  assume "encode_packet p = Some d"
  then have "d = varint_bytes 0 @ p"
    by (simp add: encode_packet_def default_context_def payload_encode_eq context_DEFAULT_def)
  then have "decode_packet d = Inr (IpPacket p)"
    by (simp add: decode_packet_def payload_decode_eq context_is_default_def context_DEFAULT_def)
  then show ?thesis by (simp add: packet_event_def)
qed

lemma capsule_event_keeps: "capsule_event x t = (e, t') \<Longrightarrow> it_reader t' = it_reader t"
  by (auto simp: capsule_event_def split: ip_capsule.splits)

text \<open>
  Whatever order the network delivers them in, a tunnel's reader acts on waiting control capsules before
  packets and loses neither: with capsules built from the given messages and datagrams from the given packets waiting, the
  reader sees exactly those messages and then those packets, in order, and ends up with the last assignment and the
  last advertisement, each replacing the one before.
\<close>

theorem tunnel_events_in_order:
  assumes "it_reader t" "list_all2 (\<lambda>x c. ip_capsule_ok x \<and> to_capsule x = Inr c) xs (tq_capsules q)"
    and "list_all2 (\<lambda>p d. encode_packet p = Some d) ps (tq_datagrams q)"
    and "\<not> tq_capsules_closed q" "length xs + length ps < n"
  shows "fst (ip_drain n t q) = map (\<lambda>x. fst (capsule_event x t)) xs @ map EvPacket ps \<and>
    it_assigned (snd (ip_drain n t q)) =
      foldl (\<lambda>a x. case x of AddressAssign b \<Rightarrow> b | _ \<Rightarrow> a) (it_assigned t) xs \<and>
    it_peer_routes (snd (ip_drain n t q)) =
      foldl (\<lambda>a x. case x of RouteAdvertisement b \<Rightarrow> b | _ \<Rightarrow> a) (it_peer_routes t) xs"
  using assms
proof (induction n arbitrary: t q xs ps)
  case (Suc n)
  consider x xs' c cs where "xs = x # xs'" "tq_capsules q = c # cs" | "xs = []" "tq_capsules q = []"
    using Suc.prems(2) by (cases xs; cases "tq_capsules q") simp_all
  then show ?case
  proof cases
    case (1 x xs' c cs)
    have x: "ip_capsule_ok x" "to_capsule x = Inr c" using Suc.prems(2) 1 by simp_all
    then have f: "from_capsule c = Inr (Some x)" using ip_capsule_roundtrip_ok by fastforce
    obtain e t' where e: "capsule_event x t = (e, t')" by fastforce
    have r: "ip_recv t q = (RecvEvent e, t', q\<lparr>tq_capsules := cs\<rparr>)"
      using Suc.prems(1) 1 f e by (simp add: ip_recv.simps)
    have "\<forall>y. fst (capsule_event y t') = fst (capsule_event y t)" by (simp add: capsule_event_def split: ip_capsule.split)
    moreover have "it_assigned t' = (case x of AddressAssign b \<Rightarrow> b | _ \<Rightarrow> it_assigned t)"
      "it_peer_routes t' = (case x of RouteAdvertisement b \<Rightarrow> b | _ \<Rightarrow> it_peer_routes t)"
      using e by (auto simp: capsule_event_def split: ip_capsule.splits)
    ultimately show ?thesis
      using Suc.IH [of t' xs' "q\<lparr>tq_capsules := cs\<rparr>" ps] Suc.prems 1 capsule_event_keeps [OF e]
      by (simp add: r e split_beta)
  next
    case 2
    show ?thesis
    proof (cases ps)
      case Nil
      then have "tq_datagrams q = []" using Suc.prems(3) by simp
      then show ?thesis using 2 Nil Suc.prems(1,4) by (simp add: ip_recv.simps)
    next
      case (Cons p ps')
      then obtain d ds where d: "tq_datagrams q = d # ds" "encode_packet p = Some d"
        using Suc.prems(3) by (cases "tq_datagrams q") simp_all
      have "ip_recv t q = (RecvEvent (EvPacket p), t, q\<lparr>tq_datagrams := ds\<rparr>)"
        using Suc.prems(1,4) 2 d by (simp add: ip_recv.simps packet_event_encoded)
      then show ?thesis
        using Suc.IH [of t "[]" "q\<lparr>tq_datagrams := ds\<rparr>" ps'] Suc.prems 2 Cons d by (simp add: split_beta)
    qed
  qed
qed simp

theorem tunnel_events_in_order_witness:
  "\<exists>c d. to_capsule (AddressAssign []) = Inr c \<and> encode_packet [69] = Some d \<and>
     fst (ip_drain 3 (ip_tunnel_new scope_any) \<lparr>tq_capsules = [c], tq_capsules_closed = False,
       tq_datagrams = [d], tq_datagrams_closed = False, tq_reader_done = False\<rparr>) = [EvAssigned [], EvPacket [69]]"
proof -
  have ok: "ip_capsule_ok (AddressAssign [])" by (simp add: ip_capsule_ok_def)
  obtain c where c: "to_capsule (AddressAssign []) = Inr c" using ip_capsule_roundtrip_ok [OF ok] by blast
  obtain d where d: "encode_packet [69] = Some d"
    by (simp add: encode_packet_def default_context_def payload_encode_eq context_DEFAULT_def)
  let ?q = "\<lparr>tq_capsules = [c], tq_capsules_closed = False, tq_datagrams = [d], tq_datagrams_closed = False,
    tq_reader_done = False\<rparr>"
  have "fst (ip_drain 3 (ip_tunnel_new scope_any) ?q) =
      map (\<lambda>x. fst (capsule_event x (ip_tunnel_new scope_any))) [AddressAssign []] @ map EvPacket [[69]]"
    using tunnel_events_in_order [of "ip_tunnel_new scope_any" "[AddressAssign []]" ?q "[[69]]" 3] ok c d
    by (simp add: ip_tunnel_new_def)
  then show ?thesis using c d by (simp add: capsule_event_def)
qed

text \<open>The answer to an address request that was received can be sent.\<close>

lemma address_answer_is_sendable:
  assumes "list_all requested_ok requests" "list_all prefix_ok assigned"
  shows "ip_capsule_ok (AddressAssign (answer_address_request requests assigned))"
proof -
  have "prefix_ok (ip_prefix_unspecified v6)" for v6
    by (cases v6) (simp_all add: ip_prefix_unspecified_def ip_prefix_host_def prefix_ok_def ip_prefix_new_def
        masked_def address_bits_def)
  then show ?thesis
    using assms
    by (auto simp: ip_capsule_ok_def answer_address_request_def list_all_iff assigned_ok_def requested_ok_def
        find_Some_iff split: option.split dest: nth_mem)
qed

end
