(* ===== verification/Socks5.thy ===== *)
theory Socks5
  imports Target
begin

text \<open>
  The SOCKS5 front end of the client (\<^verbatim>\<open>skimasque-cli/src/socks5.rs\<close>): addresses on the wire, the method
  negotiation and the request as read from the control connection, the reply codes, and the UDP association that
  opens one tunnel per destination. The bytes a client has sent before it closes are an argument, and
  so is what the gateway answers.
\<close>

subsection \<open>Addresses\<close>

definition VERSION :: u8 where "VERSION = 0x05"
definition METHOD_NO_AUTH :: u8 where "METHOD_NO_AUTH = 0x00"
definition METHOD_NONE_ACCEPTABLE :: u8 where "METHOD_NONE_ACCEPTABLE = 0xff"
definition CMD_CONNECT :: u8 where "CMD_CONNECT = 0x01"
definition CMD_UDP_ASSOCIATE :: u8 where "CMD_UDP_ASSOCIATE = 0x03"
definition REPLY_SUCCEEDED :: u8 where "REPLY_SUCCEEDED = 0x00"
definition REPLY_GENERAL_FAILURE :: u8 where "REPLY_GENERAL_FAILURE = 0x01"
definition REPLY_NOT_ALLOWED :: u8 where "REPLY_NOT_ALLOWED = 0x02"
definition REPLY_HOST_UNREACHABLE :: u8 where "REPLY_HOST_UNREACHABLE = 0x04"
definition REPLY_CONNECTION_REFUSED :: u8 where "REPLY_CONNECTION_REFUSED = 0x05"
definition REPLY_COMMAND_NOT_SUPPORTED :: u8 where "REPLY_COMMAND_NOT_SUPPORTED = 0x07"
definition REPLY_ADDRESS_TYPE_NOT_SUPPORTED :: u8 where "REPLY_ADDRESS_TYPE_NOT_SUPPORTED = 0x08"
definition ATYP_IPV4 :: u8 where "ATYP_IPV4 = 0x01"
definition ATYP_DOMAIN :: u8 where "ATYP_DOMAIN = 0x03"
definition ATYP_IPV6 :: u8 where "ATYP_IPV6 = 0x04"

datatype protocol_error = WrongVersion u8 | UnsupportedAddressType u8 | Truncated | InvalidDomain

datatype address = AddrIp socket_addr | AddrDomain string u16

definition socks_take :: "nat \<Rightarrow> bytes \<Rightarrow> protocol_error + (bytes \<times> bytes)" where
  "socks_take len input = (if len \<le> length input then Inr (take len input, drop len input) else Inl Truncated)"

definition take_port :: "bytes \<Rightarrow> protocol_error + (u16 \<times> bytes)" where
  "take_port input = and_then (socks_take 2 input) (\<lambda>(b, rest). Inr (be_word b, rest))"

definition address_decode :: "bytes \<Rightarrow> protocol_error + (address \<times> bytes)" where
  "address_decode input =
     (case input of
        [] \<Rightarrow> Inl Truncated
      | atyp # rest \<Rightarrow>
          if atyp = ATYP_IPV4 then
            and_then (socks_take 4 rest) (\<lambda>(octets, rest).
            and_then (take_port rest) (\<lambda>(port, rest). Inr (AddrIp (SocketAddr (V4 (be_word octets)) port), rest)))
          else if atyp = ATYP_IPV6 then
            and_then (socks_take 16 rest) (\<lambda>(octets, rest).
            and_then (take_port rest) (\<lambda>(port, rest). Inr (AddrIp (SocketAddr (V6 (be_word octets)) port), rest)))
          else if atyp = ATYP_DOMAIN then
            and_then (socks_take 1 rest) (\<lambda>(len, rest).
            and_then (socks_take (unat (hd len)) rest) (\<lambda>(name, rest).
            and_then (if str_valid (from_bytes name) then Inr (from_bytes name) else Inl InvalidDomain) (\<lambda>name.
            and_then (take_port rest) (\<lambda>(port, rest). Inr (AddrDomain name port, rest)))))
          else Inl (UnsupportedAddressType atyp))"

definition address_encode :: "address \<Rightarrow> bytes" where
  "address_encode a =
     (case a of
        AddrIp s \<Rightarrow>
          (case sa_ip s of
             V4 ip \<Rightarrow> ATYP_IPV4 # octets4 ip @ be_bytes 2 (sa_port s)
           | V6 ip \<Rightarrow> ATYP_IPV6 # octets6 ip @ be_bytes 2 (sa_port s))
      | AddrDomain name port \<Rightarrow>
          (let b = as_bytes name; len = min (length b) 255
           in ATYP_DOMAIN # of_nat len # take len b @ be_bytes 2 port))"

definition address_to_target :: "address \<Rightarrow> target_error + target" where
  "address_to_target a =
     (case a of
        AddrIp s \<Rightarrow> target_new (Ip (sa_ip s)) (sa_port s)
      | AddrDomain name port \<Rightarrow> and_then (target_host_parse name) (\<lambda>h. target_new h port))"

definition address_display :: "address \<Rightarrow> string" where
  "address_display a =
     (case a of
        AddrIp s \<Rightarrow> display_socket_addr s
      | AddrDomain name port \<Rightarrow> name @ '':'' @ nat_to_string (unat port))"

definition decode_udp_packet :: "bytes \<Rightarrow> protocol_error + (u8 \<times> address \<times> bytes)" where
  "decode_udp_packet packet =
     and_then (socks_take 3 packet) (\<lambda>(header, input).
     and_then (address_decode input) (\<lambda>(destination, payload). Inr (header ! 2, destination, payload)))"

definition encode_udp_packet :: "address \<Rightarrow> bytes \<Rightarrow> bytes" where
  "encode_udp_packet source payload = [0x00, 0x00, 0x00] @ address_encode source @ payload"

definition unspecified_address :: address where
  "unspecified_address = AddrIp (SocketAddr (V4 0) 0)"

definition reply_bytes :: "u8 \<Rightarrow> address \<Rightarrow> bytes" where
  "reply_bytes reply bound = [VERSION, reply, 0x00] @ address_encode bound"

subsection \<open>The control connection\<close>

datatype socks_error = UnexpectedEof | Protocol protocol_error | NoAcceptableMethod

text \<open>Reading exactly so many bytes of what the client sends.\<close>

definition read_exact :: "nat \<Rightarrow> bytes \<Rightarrow> socks_error + (bytes \<times> bytes)" where
  "read_exact len input = (if len \<le> length input then Inr (take len input, drop len input) else Inl UnexpectedEof)"

text \<open>The operations below return their result and what they wrote to the client.\<close>

definition negotiate_method :: "bytes \<Rightarrow> (socks_error + bytes) \<times> bytes" where
  "negotiate_method input =
     (case read_exact 2 input of
        Inl e \<Rightarrow> (Inl e, [])
      | Inr (head, rest) \<Rightarrow>
          if head ! 0 \<noteq> VERSION then (Inl (Protocol (WrongVersion (head ! 0))), [])
          else
            (case read_exact (unat (head ! 1)) rest of
               Inl e \<Rightarrow> (Inl e, [])
             | Inr (methods, rest) \<Rightarrow>
                 if METHOD_NO_AUTH \<in> set methods then (Inr rest, [VERSION, METHOD_NO_AUTH])
                 else (Inl NoAcceptableMethod, [VERSION, METHOD_NONE_ACCEPTABLE])))"

definition read_body :: "bytes \<Rightarrow> nat \<Rightarrow> bytes \<Rightarrow> socks_error + (address \<times> bytes)" where
  "read_body before len input =
     and_then (read_exact len input) (\<lambda>(rest, input).
     and_then (map_err Protocol (address_decode (before @ rest))) (\<lambda>(a, _). Inr (a, input)))"

definition read_address :: "bytes \<Rightarrow> (socks_error + (address \<times> bytes)) \<times> bytes" where
  "read_address input =
     (case read_exact 1 input of
        Inl e \<Rightarrow> (Inl e, [])
      | Inr (atyp, rest) \<Rightarrow>
          if hd atyp = ATYP_IPV4 then (read_body atyp (4 + 2) rest, [])
          else if hd atyp = ATYP_IPV6 then (read_body atyp (16 + 2) rest, [])
          else if hd atyp = ATYP_DOMAIN then
            (and_then (read_exact 1 rest) (\<lambda>(len, rest). read_body (atyp @ len) (unat (hd len) + 2) rest), [])
          else (Inl (Protocol (UnsupportedAddressType (hd atyp))),
                reply_bytes REPLY_ADDRESS_TYPE_NOT_SUPPORTED unspecified_address))"

datatype socks_next = Socks_Connect address | Socks_Associate "socket_addr option" | Socks_Done

definition ip_is_unspecified :: "ip_addr \<Rightarrow> bool" where
  "ip_is_unspecified a = (case a of V4 w \<Rightarrow> w = 0 | V6 w \<Rightarrow> w = 0)"

definition expected_sender :: "address \<Rightarrow> socket_addr option" where
  "expected_sender requested =
     (case requested of
        AddrIp s \<Rightarrow> if \<not> ip_is_unspecified (sa_ip s) \<and> sa_port s \<noteq> 0 then Some s else None
      | AddrDomain _ _ \<Rightarrow> None)"

definition serve_client :: "socket_addr \<Rightarrow> bytes \<Rightarrow> (socks_error + socks_next) \<times> bytes" where
  "serve_client relay_addr input =
     (case negotiate_method input of
        (Inl e, out) \<Rightarrow> (Inl e, out)
      | (Inr rest, out) \<Rightarrow>
          (case read_exact 3 rest of
             Inl e \<Rightarrow> (Inl e, out)
           | Inr (head, rest) \<Rightarrow>
               if head ! 0 \<noteq> VERSION then (Inl (Protocol (WrongVersion (head ! 0))), out)
               else
                 (case read_address rest of
                    (Inl e, out1) \<Rightarrow> (Inl e, out @ out1)
                  | (Inr (requested, _), out1) \<Rightarrow>
                      if head ! 1 = CMD_CONNECT then (Inr (Socks_Connect requested), out @ out1)
                      else if head ! 1 = CMD_UDP_ASSOCIATE then
                        (Inr (Socks_Associate (expected_sender requested)),
                         out @ out1 @ reply_bytes REPLY_SUCCEEDED (AddrIp relay_addr))
                      else (Inr Socks_Done,
                            out @ out1 @ reply_bytes REPLY_COMMAND_NOT_SUPPORTED unspecified_address))))"

text \<open>What the gateway answered a request to open a tunnel.\<close>

datatype gateway_answer = Tunnel_Opened | Tunnel_Rejected nat "string option" | Tunnel_Failed

definition connect_reply_for :: "gateway_answer \<Rightarrow> u8" where
  "connect_reply_for answer =
     (case answer of
        Tunnel_Rejected status proxy_status \<Rightarrow>
          if status = 403 then REPLY_NOT_ALLOWED
          else (case proxy_status of
                  Some s \<Rightarrow>
                    if str_contains ''connection_refused'' s then REPLY_CONNECTION_REFUSED
                    else if str_contains ''dns_error'' s then REPLY_HOST_UNREACHABLE
                    else REPLY_GENERAL_FAILURE
                | None \<Rightarrow> REPLY_GENERAL_FAILURE)
      | _ \<Rightarrow> REPLY_GENERAL_FAILURE)"

text \<open>The reply to a CONNECT, and the target whose tunnel is then relayed.\<close>

definition serve_connect :: "(target \<Rightarrow> gateway_answer) \<Rightarrow> address \<Rightarrow> u8 \<times> target option" where
  "serve_connect connect_tcp requested =
     (case address_to_target requested of
        Inl _ \<Rightarrow> (REPLY_GENERAL_FAILURE, None)
      | Inr t \<Rightarrow>
          (case connect_tcp t of
             Tunnel_Opened \<Rightarrow> (REPLY_SUCCEEDED, Some t)
           | answer \<Rightarrow> (connect_reply_for answer, None)))"

subsection \<open>The UDP association\<close>

text \<open>
  A destination's tunnel, as the association sees it: the channel to the task that serves it, and whether that
  task is still there. The association knows a task by its position in the list of those it started.
\<close>

record udp_pump =
  up_destination :: address
  up_target :: target
  up_queue :: "bytes list"
  up_gone :: bool

record association =
  as_expected :: "socket_addr option"
  as_tunnels :: "address \<rightharpoonup> nat"
  as_pumps :: "udp_pump list"

definition PUMP_CAPACITY :: nat where "PUMP_CAPACITY = 256"

definition pump_try_send :: "bytes \<Rightarrow> udp_pump \<Rightarrow> udp_pump option" where
  "pump_try_send payload p =
     (if \<not> up_gone p \<and> length (up_queue p) < PUMP_CAPACITY then Some (p\<lparr>up_queue := up_queue p @ [payload]\<rparr>) else None)"

datatype forward_error = Forward_Protocol protocol_error | Fragmented | Bad_Target target_error | Not_Opened

definition open_pump :: "(target \<Rightarrow> bool) \<Rightarrow> address \<Rightarrow> bytes \<Rightarrow> association \<Rightarrow> (forward_error + unit) \<times> association" where
  "open_pump connect_udp destination payload a =
     (case address_to_target destination of
        Inl e \<Rightarrow> (Inl (Bad_Target e), a)
      | Inr t \<Rightarrow>
          if connect_udp t
          then (Inr (), a\<lparr>as_tunnels := (as_tunnels a)(destination \<mapsto> length (as_pumps a)),
                  as_pumps := as_pumps a @ [\<lparr>up_destination = destination, up_target = t, up_queue = [payload], up_gone = False\<rparr>]\<rparr>)
          else (Inl Not_Opened, a))"

definition forward :: "(target \<Rightarrow> bool) \<Rightarrow> bytes \<Rightarrow> association \<Rightarrow> (forward_error + unit) \<times> association" where
  "forward connect_udp packet a =
     (case decode_udp_packet packet of
        Inl e \<Rightarrow> (Inl (Forward_Protocol e), a)
      | Inr (frag, destination, payload) \<Rightarrow>
          if frag \<noteq> 0 then (Inl Fragmented, a)
          else
            (case as_tunnels a destination of
               None \<Rightarrow> open_pump connect_udp destination payload a
             | Some i \<Rightarrow>
                 (case pump_try_send payload (as_pumps a ! i) of
                    Some p \<Rightarrow> (Inr (), a\<lparr>as_pumps := (as_pumps a)[i := p]\<rparr>)
                  | None \<Rightarrow> open_pump connect_udp destination payload
                      (a\<lparr>as_tunnels := (as_tunnels a)(destination := None)\<rparr>))))"

text \<open>One datagram of \<^verbatim>\<open>run_association\<close>: the first sender is pinned, others are ignored.\<close>

definition association_datagram ::
  "(target \<Rightarrow> bool) \<Rightarrow> socket_addr \<Rightarrow> bytes \<Rightarrow> association \<Rightarrow> association" where
  "association_datagram connect_udp from packet a =
     (case as_expected a of
        Some client \<Rightarrow> if client \<noteq> from then a else snd (forward connect_udp packet a)
      | None \<Rightarrow> snd (forward connect_udp packet (a\<lparr>as_expected := Some from\<rparr>)))"

definition association_new :: "socket_addr option \<Rightarrow> association" where
  "association_new expected = \<lparr>as_expected = expected, as_tunnels = Map.empty, as_pumps = []\<rparr>"

text \<open>What happens to an association: a datagram arrives, a task takes a payload, a task ends.\<close>

datatype association_event = Datagram socket_addr bytes | Pump_Takes nat | Pump_Ends nat

fun association_step :: "(target \<Rightarrow> bool) \<Rightarrow> association_event \<Rightarrow> association \<Rightarrow> association" where
  "association_step connect_udp (Datagram from packet) a = association_datagram connect_udp from packet a"
| "association_step connect_udp (Pump_Takes i) a =
     (if i < length (as_pumps a)
      then a\<lparr>as_pumps := (as_pumps a)[i := (as_pumps a ! i)\<lparr>up_queue := tl (up_queue (as_pumps a ! i))\<rparr>]\<rparr> else a)"
| "association_step connect_udp (Pump_Ends i) a =
     (if i < length (as_pumps a)
      then a\<lparr>as_pumps := (as_pumps a)[i := (as_pumps a ! i)\<lparr>up_gone := True\<rparr>]\<rparr> else a)"

subsection \<open>Round trips\<close>

definition address_ok :: "address \<Rightarrow> bool" where
  "address_ok a = (case a of AddrIp _ \<Rightarrow> True | AddrDomain name _ \<Rightarrow> length name \<le> 255 \<and> str_valid name)"

lemma atyp_distinct [simp]: "ATYP_IPV6 \<noteq> ATYP_IPV4" "ATYP_DOMAIN \<noteq> ATYP_IPV4" "ATYP_DOMAIN \<noteq> ATYP_IPV6"
  by (simp_all add: ATYP_IPV4_def ATYP_IPV6_def ATYP_DOMAIN_def)

lemma socks_take_append: "length b = n \<Longrightarrow> socks_take n (b @ rest) = Inr (b, rest)"
  by (simp add: socks_take_def)

lemma take_port_be_bytes: "take_port (be_bytes 2 port @ rest) = Inr (port, rest)"
  by (simp add: take_port_def socks_take_append be_bytes_def [symmetric] be_word_be_bytes)

lemma address_roundtrip:
  assumes "address_ok a"
  shows "address_decode (address_encode a @ rest) = Inr (a, rest)"
proof (cases a)
  case (AddrIp s)
  then show ?thesis
    by (cases s; cases "sa_ip s")
      (simp_all add: address_encode_def address_decode_def socks_take_append octets4_def octets6_def
        take_port_be_bytes be_word_be_bytes)
next
  case (AddrDomain name port)
  then have n: "length name \<le> 255" "str_valid name" using assms by (simp_all add: address_ok_def)
  have "unat (of_nat (length name) :: u8) = length name" using n(1) by (simp add: unat_of_nat)
  moreover have "socks_take 1 (w # r) = Inr ([w], r)" for w r by (simp add: socks_take_def)
  ultimately show ?thesis
    using n by (simp add: AddrDomain address_encode_def address_decode_def Let_def socks_take_append take_port_be_bytes)
qed

interpretation socks_address: prefix_codec address_encode address_decode address_ok
  by unfold_locales (rule address_roundtrip)

lemma udp_packet_roundtrip:
  "address_ok source \<Longrightarrow> decode_udp_packet (encode_udp_packet source payload) = Inr (0, source, payload)"
  by (simp add: decode_udp_packet_def encode_udp_packet_def socks_take_def address_roundtrip)

text \<open>
  C39. Reading an address off the control connection, type first and then as much as the type asks for, accepts
  exactly the addresses the decoder accepts, and leaves the same bytes unread.
\<close>

theorem read_address_agrees_with_decoder:
  "result_ok (fst (read_address input)) = result_ok (address_decode input)"
proof (cases input)
  case Nil
  then show ?thesis by (simp add: read_address_def read_exact_def address_decode_def result_ok_def)
next
  case (Cons atyp rest)
  have one: "read_exact 1 input = Inr ([atyp], rest)" by (simp add: Cons read_exact_def)
  show ?thesis
  proof (cases "atyp = ATYP_DOMAIN")
    case dom: True
    show ?thesis
    proof (cases rest)
      case Nil
      then show ?thesis
        using one by (simp add: dom Cons read_address_def read_exact_def address_decode_def socks_take_def result_ok_def)
    next
      case (Cons len r)
      have "read_address input = (read_body [atyp, len] (unat len + 2) r, [])"
        using one by (simp add: dom read_address_def Cons) (simp add: read_exact_def)
      then show ?thesis
        using \<open>input = atyp # rest\<close>
        by (cases "unat len \<le> length r"; cases "2 \<le> length (drop (unat len) r)")
          (auto simp: dom Cons read_body_def read_exact_def address_decode_def socks_take_def take_port_def
            result_ok_def and_then_def map_err_def drop_take numeral_2_eq_2 split: sum.splits if_splits)
    qed
  next
    case False
    then show ?thesis
      using one Cons
      by (auto simp: read_address_def read_body_def read_exact_def address_decode_def socks_take_def take_port_def
          result_ok_def and_then_def map_err_def drop_take split: sum.splits if_splits)
  qed
qed

subsection \<open>Whose datagrams a relay carries\<close>

definition carries_for :: "socket_addr \<Rightarrow> association_event list \<Rightarrow> udp_pump \<Rightarrow> bool" where
  "carries_for client evs p \<longleftrightarrow> address_to_target (up_destination p) = Inr (up_target p) \<and>
     (\<forall>payload \<in> set (up_queue p). \<exists>packet. Datagram client packet \<in> set evs \<and>
        decode_udp_packet packet = Inr (0, up_destination p, payload))"

definition tunnels_ok :: "association \<Rightarrow> bool" where
  "tunnels_ok a \<longleftrightarrow> (\<forall>d i. as_tunnels a d = Some i \<longrightarrow> i < length (as_pumps a) \<and> up_destination (as_pumps a ! i) = d)"

lemma carries_for_mono: "carries_for c evs p \<Longrightarrow> set evs \<subseteq> set evs' \<Longrightarrow> carries_for c evs' p"
  by (auto simp: carries_for_def) (metis subsetD)

lemma open_pump_carries:
  assumes "tunnels_ok a" "list_all (carries_for c evs) (as_pumps a)"
    and "Datagram c packet \<in> set evs" "decode_udp_packet packet = Inr (0, d, payload)"
    and "open_pump connect_udp d payload a = (r, a')"
  shows "tunnels_ok a' \<and> list_all (carries_for c evs) (as_pumps a') \<and> as_expected a' = as_expected a"
proof (cases "address_to_target d")
  case (Inl e)
  then show ?thesis using assms by (simp add: open_pump_def)
next
  case (Inr t)
  show ?thesis
  proof (cases "connect_udp t")
    case True
    let ?p = "\<lparr>up_destination = d, up_target = t, up_queue = [payload], up_gone = False\<rparr>"
    have a': "a' = a\<lparr>as_tunnels := (as_tunnels a)(d \<mapsto> length (as_pumps a)), as_pumps := as_pumps a @ [?p]\<rparr>"
      using assms(5) Inr True by (simp add: open_pump_def)
    have "carries_for c evs ?p" using Inr assms(3,4) by (auto simp: carries_for_def)
    moreover have "tunnels_ok a'" using assms(1) by (auto simp: tunnels_ok_def a' nth_append less_Suc_eq)
    ultimately show ?thesis using assms(2) by (simp add: a')
  next
    case False
    then show ?thesis using assms Inr by (simp add: open_pump_def)
  qed
qed

lemma forward_carries:
  assumes "tunnels_ok a" "list_all (carries_for c evs) (as_pumps a)" "Datagram c packet \<in> set evs"
    and "forward connect_udp packet a = (r, a')"
  shows "tunnels_ok a' \<and> list_all (carries_for c evs) (as_pumps a') \<and> as_expected a' = as_expected a"
proof (cases "decode_udp_packet packet")
  case (Inl e)
  then show ?thesis using assms by (simp add: forward_def)
next
  case (Inr x)
  obtain frag d payload where x: "x = (frag, d, payload)" by (cases x)
  note fwd = assms(4) [unfolded forward_def Inr x]
  show ?thesis
  proof (cases "frag = 0")
    case False
    then show ?thesis using assms(1,2) fwd by simp
  next
    case True
    then have dec: "decode_udp_packet packet = Inr (0, d, payload)" by (simp add: Inr x)
    show ?thesis
    proof (cases "as_tunnels a d")
      case None
      then show ?thesis using open_pump_carries [OF assms(1-3) dec] fwd True by simp
    next
      case (Some i)
      have i: "i < length (as_pumps a)" "up_destination (as_pumps a ! i) = d"
        using assms(1) Some by (simp_all add: tunnels_ok_def)
      show ?thesis
      proof (cases "pump_try_send payload (as_pumps a ! i)")
        case None
        let ?b = "a\<lparr>as_tunnels := (as_tunnels a)(d := None)\<rparr>"
        have b: "tunnels_ok ?b" "list_all (carries_for c evs) (as_pumps ?b)"
          using assms(1,2) by (simp_all add: tunnels_ok_def)
        show ?thesis using open_pump_carries [OF b assms(3) dec] fwd True Some None by simp
      next
        case p: (Some p)
        then have p': "p = (as_pumps a ! i)\<lparr>up_queue := up_queue (as_pumps a ! i) @ [payload]\<rparr>"
          by (simp add: pump_try_send_def split: if_splits)
        have "carries_for c evs (as_pumps a ! i)" using assms(2) i(1) by (simp add: list_all_length)
        then have "carries_for c evs p" using i(2) assms(3) dec by (auto simp: carries_for_def p')
        then have l: "list_all (carries_for c evs) ((as_pumps a)[i := p])"
          using assms(2) by (auto simp: list_all_iff dest!: set_update_subset_insert [THEN subsetD])
        have a': "a' = a\<lparr>as_pumps := (as_pumps a)[i := p]\<rparr>" using fwd True Some p by simp
        have "up_destination ((as_pumps a)[i := p] ! j) = up_destination (as_pumps a ! j)" for j
          by (cases "j = i") (simp_all add: i(1) p')
        then have "tunnels_ok a'" using assms(1) by (simp add: tunnels_ok_def a')
        then show ?thesis using l by (simp add: a')
      qed
    qed
  qed
qed

lemma pump_update_carries:
  assumes "tunnels_ok a" "list_all (carries_for c evs) (as_pumps a)" "i < length (as_pumps a)"
    and "set (up_queue p) \<subseteq> set (up_queue (as_pumps a ! i))" "up_destination p = up_destination (as_pumps a ! i)"
      "up_target p = up_target (as_pumps a ! i)"
  shows "tunnels_ok (a\<lparr>as_pumps := (as_pumps a)[i := p]\<rparr>) \<and> list_all (carries_for c evs) ((as_pumps a)[i := p])"
proof -
  have "up_destination ((as_pumps a)[i := p] ! j) = up_destination (as_pumps a ! j)" for j
    by (cases "j = i") (simp_all add: assms(3,5))
  moreover have "carries_for c evs p"
    using assms(2-6) by (auto simp: carries_for_def list_all_length)
  ultimately show ?thesis
    using assms(1,2) by (auto simp: tunnels_ok_def list_all_iff dest!: set_update_subset_insert [THEN subsetD])
qed

definition association_inv :: "socket_addr option \<Rightarrow> association_event list \<Rightarrow> association \<Rightarrow> bool" where
  "association_inv expected evs a \<longleftrightarrow> tunnels_ok a \<and> (\<forall>c. expected = Some c \<longrightarrow> as_expected a = Some c) \<and>
     (case as_expected a of None \<Rightarrow> as_pumps a = [] | Some c \<Rightarrow> list_all (carries_for c evs) (as_pumps a))"

lemma association_step_inv:
  assumes "association_inv expected evs a"
  shows "association_inv expected (evs @ [e]) (association_step connect_udp e a)"
proof -
  have inv: "tunnels_ok a" "\<forall>c. expected = Some c \<longrightarrow> as_expected a = Some c" using assms by (simp_all add: association_inv_def)
  have later: "list_all (carries_for c (evs @ [e])) (as_pumps a)" if "as_expected a = Some c" for c
  proof -
    have "list_all (carries_for c evs) (as_pumps a)" using assms that by (simp add: association_inv_def)
    then show ?thesis by (rule list.pred_mono_strong) (auto intro: carries_for_mono)
  qed
  have same: "association_inv expected (evs @ [e]) a"
    using assms later by (auto simp: association_inv_def split: option.splits)
  show ?thesis
  proof (cases e)
    case (Datagram sender packet)
    have fwd: "association_inv expected (evs @ [e]) (snd (forward connect_udp packet b))"
      if "tunnels_ok b" "as_expected b = Some sender" "list_all (carries_for sender (evs @ [e])) (as_pumps b)"
        "\<forall>c. expected = Some c \<longrightarrow> c = sender" for b
      using forward_carries [OF that(1,3), of packet connect_udp] that(2,4)
      by (cases "forward connect_udp packet b") (auto simp: association_inv_def Datagram)
    show ?thesis
    proof (cases "as_expected a")
      case None
      then have "as_pumps a = []" using assms by (simp add: association_inv_def)
      then have "association_inv expected (evs @ [e]) (snd (forward connect_udp packet (a\<lparr>as_expected := Some sender\<rparr>)))"
        using inv None by (intro fwd) (simp_all add: tunnels_ok_def)
      then show ?thesis by (simp add: Datagram association_datagram_def None)
    next
      case (Some c)
      then show ?thesis
        using same fwd [OF inv(1)] later inv(2) by (auto simp: Datagram association_datagram_def)
    qed
  next
    case (Pump_Takes i)
    let ?p = "(as_pumps a ! i)\<lparr>up_queue := tl (up_queue (as_pumps a ! i))\<rparr>"
    have "set (up_queue ?p) \<subseteq> set (up_queue (as_pumps a ! i))" by (cases "up_queue (as_pumps a ! i)") auto
    then show ?thesis
      using same pump_update_carries [OF inv(1), of _ "evs @ [e]" i ?p]
      by (cases "i < length (as_pumps a)") (auto simp: Pump_Takes association_inv_def split: option.splits)
  next
    case (Pump_Ends i)
    let ?p = "(as_pumps a ! i)\<lparr>up_gone := True\<rparr>"
    show ?thesis
      using same pump_update_carries [OF inv(1), of _ "evs @ [e]" i ?p]
      by (cases "i < length (as_pumps a)") (auto simp: Pump_Ends association_inv_def split: option.splits)
  qed
qed

lemma association_run_inv:
  "association_inv expected evs (fold (association_step connect_udp) evs (association_new expected))"
proof (induction evs rule: rev_induct)
  case Nil
  show ?case by (simp add: association_inv_def association_new_def tunnels_ok_def split: option.split)
next
  case (snoc e evs)
  then show ?case using association_step_inv by simp
qed

text \<open>
  C30. A SOCKS5 relay serves one client and keeps destinations apart. Over any sequence of datagrams from any
  senders, tasks taking payloads and tasks ending: all payloads waiting for a tunnel came in datagrams of one
  and the same sender, the one the client announced if it announced one; each waits for the tunnel of
  exactly the destination its datagram named, unfragmented; and that tunnel was opened to the target of that destination.
\<close>

theorem association_serves_one_client:
  "\<exists>client. (\<forall>c. expected = Some c \<longrightarrow> client = c) \<and>
    (\<forall>p \<in> set (as_pumps (fold (association_step connect_udp) evs (association_new expected))).
       address_to_target (up_destination p) = Inr (up_target p) \<and>
       (\<forall>payload \<in> set (up_queue p). \<exists>packet. Datagram client packet \<in> set evs \<and>
          decode_udp_packet packet = Inr (0, up_destination p, payload)))"
proof -
  let ?a = "fold (association_step connect_udp) evs (association_new expected)"
  note inv = association_run_inv [of expected evs connect_udp, unfolded association_inv_def]
  show ?thesis
  proof (cases "as_expected ?a")
    case None
    then show ?thesis using inv by (cases expected) auto
  next
    case (Some c)
    then show ?thesis using inv by (intro exI [of _ c]) (auto simp: carries_for_def list_all_iff)
  qed
qed

text \<open>
  A full queue is taken for a task that has ended: the destination's tunnel is replaced while its task still runs.
\<close>

lemma busy_tunnel_is_replaced:
  assumes "decode_udp_packet packet = Inr (0, d, payload)" "as_tunnels a d = Some i"
    "PUMP_CAPACITY \<le> length (up_queue (as_pumps a ! i))" "address_to_target d = Inr t" "connect_udp t"
  shows "as_tunnels (snd (forward connect_udp packet a)) d = Some (length (as_pumps a))"
  using assms by (simp add: forward_def pump_try_send_def open_pump_def)

definition sample_datagrams :: "association_event list" where
  "sample_datagrams = [Datagram (SocketAddr (V4 1) 9) (encode_udp_packet (AddrDomain ''a'' 53) [1]),
     Datagram (SocketAddr (V4 2) 9) (encode_udp_packet (AddrDomain ''b'' 53) [2]), Pump_Ends 0]"

theorem association_serves_one_client_witness:
  "length (as_pumps (fold (association_step (\<lambda>_. True)) sample_datagrams (association_new (Some (SocketAddr (V4 1) 9))))) = 1 \<and>
   list_all (\<lambda>p. list_all (\<lambda>payload. \<exists>packet. Datagram (SocketAddr (V4 1) 9) packet \<in> set sample_datagrams \<and>
        decode_udp_packet packet = Inr (0, up_destination p, payload)) (up_queue p))
     (as_pumps (fold (association_step (\<lambda>_. True)) sample_datagrams (association_new (Some (SocketAddr (V4 1) 9)))))"
proof -
  have "length (as_pumps (fold (association_step (\<lambda>_. True)) sample_datagrams
      (association_new (Some (SocketAddr (V4 1) 9))))) = 1"
    by code_simp
  then show ?thesis
    using association_serves_one_client [of "Some (SocketAddr (V4 1) 9)" "\<lambda>_. True" sample_datagrams]
    by (auto simp: list_all_iff)
qed

end
