(* ===== verification/Http_Connect.thy ===== *)
theory Http_Connect
  imports Target
begin

text \<open>
  The HTTP/1.1 front end of the client (\<^verbatim>\<open>skimasque-cli/src/http_connect.rs\<close>): reading a request head, telling
  CONNECT from absolute-form requests, rewriting the latter for the origin server, and what becomes of a
  connection. Text is a list of bytes; what the client sends, piece by piece, and what the gateway
  answers are arguments.
\<close>

definition MAX_HEAD :: nat where
  "MAX_HEAD = 8 * 1024"

datatype http_head = Head_Connect string | Head_OtherMethod "string option" | Head_Malformed

definition crlf :: string where
  "crlf = [CHR 0x0D, CHR 0x0A]"

text \<open>\<^verbatim>\<open>split\<close> at the two-byte line end.\<close>

fun split_crlf :: "string \<Rightarrow> string list" where
  "split_crlf [] = [[]]"
| "split_crlf [c] = [[c]]"
| "split_crlf (c # d # s) =
     (if c = CHR 0x0D \<and> d = CHR 0x0A then [] # split_crlf s
      else (case split_crlf (d # s) of [] \<Rightarrow> [[c]] | p # ps \<Rightarrow> (c # p) # ps))"

definition not_url_delim :: "char \<Rightarrow> bool" where
  "not_url_delim c \<longleftrightarrow> c \<notin> set ''/?#''"

definition plain_http_authority :: "string \<Rightarrow> string option" where
  "plain_http_authority t =
     (if 7 \<le> length t \<and> eq_ignore_ascii_case (take 7 t) ''http://'' then
        (let authority = takeWhile not_url_delim (drop 7 t);
             host = (case rsplit_once_at (CHR ''@'') authority of None \<Rightarrow> authority | Some (_, h) \<Rightarrow> h)
         in if host = [] then None else Some host)
      else None)"

definition request_line :: "string \<Rightarrow> (string \<times> string \<times> string) option" where
  "request_line line = (case split_on (CHR '' '') line of [m, t, v] \<Rightarrow> Some (m, t, v) | _ \<Rightarrow> None)"

definition parse_head :: "string \<Rightarrow> http_head" where
  "parse_head text =
     (if \<not> str_valid text then Head_Malformed
      else
        (case request_line (hd (split_crlf text)) of
           None \<Rightarrow> Head_Malformed
         | Some (m, t, v) \<Rightarrow>
             if \<not> starts_with v ''HTTP/1.'' \<or> t = [] then Head_Malformed
             else if m \<noteq> ''CONNECT'' then Head_OtherMethod (plain_http_authority t)
             else Head_Connect t))"

record http_forward =
  hf_target :: string
  hf_head :: string

definition HOP_BY_HOP :: "string list" where
  "HOP_BY_HOP = [''connection'', ''proxy-connection'', ''proxy-authorization'', ''proxy-authenticate'',
     ''keep-alive'', ''te'', ''upgrade'', ''host'']"

definition nominated :: "string list \<Rightarrow> string list" where
  "nominated headers =
     concat (map (\<lambda>h. case split_once_at (CHR '':'') h of
          Some (n, v) \<Rightarrow>
            if eq_ignore_ascii_case (str_trim n) ''connection''
            then map (\<lambda>t. to_ascii_lowercase (str_trim t)) (split_on (CHR '','') v) else []
        | None \<Rightarrow> []) headers)"

fun keep_headers :: "string list \<Rightarrow> string list \<Rightarrow> string list option" where
  "keep_headers named [] = Some []"
| "keep_headers named (h # hs) =
     (case split_once_at (CHR '':'') h of
        None \<Rightarrow> None
      | Some (n, _) \<Rightarrow>
          (let name = to_ascii_lowercase (str_trim n)
           in if name \<in> set HOP_BY_HOP \<or> name \<in> set named then keep_headers named hs
              else map_option (Cons h) (keep_headers named hs)))"

definition has_port :: "string \<Rightarrow> bool" where
  "has_port authority =
     (case strip_prefix ''['' authority of
        Some v6 \<Rightarrow> (case split_once_at (CHR '']'') v6 of Some (_, after) \<Rightarrow> starts_with after '':'' | None \<Rightarrow> False)
      | None \<Rightarrow> CHR '':'' \<in> set authority)"

definition origin_path :: "string \<Rightarrow> string" where
  "origin_path t =
     (case dropWhile not_url_delim (drop 7 t) of
        [] \<Rightarrow> ''/''
      | c # r \<Rightarrow> if c = CHR ''/'' then c # r else CHR ''/'' # c # r)"

definition with_port :: "string \<Rightarrow> string" where
  "with_port authority = (if has_port authority then authority else authority @ '':80'')"

definition rewrite_plain :: "string \<Rightarrow> http_forward option" where
  "rewrite_plain text =
     (if \<not> str_valid text then None
      else
        (case request_line (hd (split_crlf text)) of
           None \<Rightarrow> None
         | Some (m, t, v) \<Rightarrow>
             if m = ''CONNECT'' \<or> \<not> starts_with v ''HTTP/1.'' then None
             else
               Option.bind (plain_http_authority t) (\<lambda>authority.
               let headers = takeWhile (\<lambda>l. l \<noteq> []) (tl (split_crlf text))
               in map_option (\<lambda>kept.
                    \<lparr>hf_target = with_port authority,
                     hf_head = m @ '' '' @ origin_path t @ '' '' @ v @ crlf @ ''Host: '' @ authority @ crlf @
                       concat (map (\<lambda>h. h @ crlf) kept) @ ''Connection: close'' @ crlf @ crlf\<rparr>)
                    (keep_headers (nominated headers) headers))))"

text \<open>Reading up to the end of the head, from the pieces the connection delivers before it closes.\<close>

fun find_head_end :: "string \<Rightarrow> nat option" where
  "find_head_end s =
     (if take 4 s = crlf @ crlf then Some 0
      else (case s of [] \<Rightarrow> None | _ # r \<Rightarrow> map_option Suc (find_head_end r)))"

declare find_head_end.simps [simp del]

fun read_head :: "string \<Rightarrow> string list \<Rightarrow> (string \<times> string \<times> string list) option" where
  "read_head buf chunks =
     (case find_head_end buf of
        Some n \<Rightarrow> Some (take (n + 4) buf, drop (n + 4) buf, chunks)
      | None \<Rightarrow>
          if MAX_HEAD < length buf then None
          else (case chunks of [] \<Rightarrow> None | c # cs \<Rightarrow> if c = [] then None else read_head (buf @ c) cs))"

declare read_head.simps [simp del]

datatype tunnel_answer = Answer_Opened | Answer_Rejected nat | Answer_Failed

text \<open>What becomes of a connection: a refusal, or a tunnel and the bytes first sent into it and back.\<close>

datatype http_outcome = Http_Respond string | Http_Relay target string string

definition http_handle :: "(target \<Rightarrow> tunnel_answer) \<Rightarrow> string list \<Rightarrow> http_outcome" where
  "http_handle connect_tcp chunks =
     (case read_head [] chunks of
        None \<Rightarrow> Http_Respond ''400 Bad Request''
      | Some (head, early, _) \<Rightarrow>
          (let relay = (\<lambda>authority plain.
                 case target_parse authority of
                   Inl _ \<Rightarrow> Http_Respond ''400 Bad Request''
                 | Inr t \<Rightarrow>
                     (case connect_tcp t of
                        Answer_Opened \<Rightarrow>
                          (case plain of
                             Some h \<Rightarrow> Http_Relay t (h @ early) []
                           | None \<Rightarrow> Http_Relay t early
                               (''HTTP/1.1 200 Connection Established'' @ crlf @ crlf))
                      | Answer_Rejected status \<Rightarrow>
                          Http_Respond (if status = 403 then ''403 Forbidden'' else ''502 Bad Gateway'')
                      | Answer_Failed \<Rightarrow> Http_Respond ''502 Bad Gateway''))
           in case parse_head head of
                Head_Connect authority \<Rightarrow> relay authority None
              | Head_OtherMethod (Some _) \<Rightarrow>
                  (case rewrite_plain head of
                     Some f \<Rightarrow> relay (hf_target f) (Some (hf_head f))
                   | None \<Rightarrow> Http_Respond ''400 Bad Request'')
              | Head_OtherMethod None \<Rightarrow> Http_Respond (''405 Method Not Allowed'' @ crlf @ ''Allow: CONNECT'')
              | Head_Malformed \<Rightarrow> Http_Respond ''400 Bad Request''))"

definition respond_bytes :: "string \<Rightarrow> string" where
  "respond_bytes status = ''HTTP/1.1 '' @ status @ crlf @ ''Content-Length: 0'' @ crlf @ ''Connection: close'' @ crlf @ crlf"

subsection \<open>Lines\<close>

fun has_crlf :: "string \<Rightarrow> bool" where
  "has_crlf [] = False"
| "has_crlf [c] = False"
| "has_crlf (c # d # s) = ((c = CHR 0x0D \<and> d = CHR 0x0A) \<or> has_crlf (d # s))"

lemma has_crlf_append:
  "has_crlf (a @ b) \<longleftrightarrow> has_crlf a \<or> has_crlf b \<or> (a \<noteq> [] \<and> b \<noteq> [] \<and> last a = CHR 0x0D \<and> hd b = CHR 0x0A)"
proof (induction a rule: has_crlf.induct)
  case (2 c)
  then show ?case by (cases b) auto
qed auto

lemma split_crlf_not_Nil [simp]: "split_crlf s \<noteq> []"
  by (induction s rule: split_crlf.induct) (auto split: list.split)

lemma split_crlf_line: "\<not> has_crlf l \<Longrightarrow> split_crlf (l @ crlf @ r) = l # split_crlf r"
proof (induction l rule: has_crlf.induct)
  case (2 c)
  then show ?case by (simp add: crlf_def)
qed (auto simp: crlf_def)

lemma split_crlf_first:
  "split_crlf (d # s) = p # ps \<Longrightarrow> p \<noteq> [] \<Longrightarrow> hd p = d"
  by (cases s) (auto split: if_splits list.splits)

lemma split_crlf_pieces: "p \<in> set (split_crlf s) \<Longrightarrow> \<not> has_crlf p"
proof (induction s arbitrary: p rule: split_crlf.induct)
  case (3 c d s)
  show ?case
  proof (cases "c = CHR 0x0D \<and> d = CHR 0x0A")
    case True
    then show ?thesis using 3 by auto
  next
    case False
    obtain q qs where q: "split_crlf (d # s) = q # qs" by (cases "split_crlf (d # s)") simp_all
    have "\<not> has_crlf q" using "3.IH"(2) [OF False] q by simp
    then have "\<not> has_crlf (c # q)" using False split_crlf_first [OF q] by (cases q) auto
    then show ?thesis using "3.prems" "3.IH"(2) [OF False] False q by auto
  qed
qed auto

lemma split_on_joins: "split_on c s = p # ps \<Longrightarrow> s = p @ concat (map (Cons c) ps)"
proof (induction s arbitrary: p ps)
  case (Cons d s)
  obtain q qs where q: "split_on c s = q # qs"
    using Cons.prems by (cases "split_on c s"; cases "d = c") (auto elim: split_on.elims)
  then have s: "s = q @ concat (map (Cons c) qs)" by (rule Cons.IH)
  have "(d = c \<and> p = [] \<and> ps = q # qs) \<or> (d \<noteq> c \<and> p = d # q \<and> ps = qs)"
    using Cons.prems q by (auto split: if_splits)
  then show ?case using s by auto
qed simp

lemma request_line_joins: "request_line line = Some (m, t, v) \<Longrightarrow> line = m @ '' '' @ t @ '' '' @ v"
  by (auto simp: request_line_def split: list.splits dest!: split_on_joins)

lemma has_crlf_space: "has_crlf (a @ '' '' @ b) \<longleftrightarrow> has_crlf a \<or> has_crlf b"
  by (cases b) (auto simp: has_crlf_append)

lemma part_has_no_crlf: "\<not> has_crlf (a @ p @ b) \<Longrightarrow> \<not> has_crlf p"
  by (auto simp: has_crlf_append)

lemma authority_part:
  assumes "plain_http_authority t = Some authority"
  shows "\<exists>a b. t = a @ authority @ b"
proof -
  let ?auth = "takeWhile not_url_delim (drop 7 t)"
  have "t = take 7 t @ ?auth @ dropWhile not_url_delim (drop 7 t)" by simp
  moreover have "\<exists>c. ?auth = c @ authority"
    using assms by (auto simp: plain_http_authority_def Let_def split: if_splits option.splits dest!: rsplit_once_at_SomeD)
  ultimately show ?thesis by (metis append_assoc)
qed

lemma origin_path_part: "\<exists>a p. t = a @ p \<and> (origin_path t = p \<or> origin_path t = CHR ''/'' # p)"
proof -
  define p where "p = dropWhile not_url_delim (drop 7 t)"
  have "t = (take 7 t @ takeWhile not_url_delim (drop 7 t)) @ p" by (simp add: p_def)
  moreover have "origin_path t = p \<or> origin_path t = CHR ''/'' # p"
    unfolding origin_path_def p_def [symmetric] by (cases p) simp_all
  ultimately show ?thesis by blast
qed

lemma keep_headers_kept:
  assumes "keep_headers named hs = Some kept" "h \<in> set kept"
  shows "h \<in> set hs \<and> (\<exists>n v. split_once_at (CHR '':'') h = Some (n, v) \<and>
    to_ascii_lowercase (str_trim n) \<notin> set HOP_BY_HOP \<and> to_ascii_lowercase (str_trim n) \<notin> set named)"
  using assms
proof (induction named hs arbitrary: kept rule: keep_headers.induct)
  case (2 named g hs)
  obtain n v where g: "split_once_at (CHR '':'') g = Some (n, v)" using "2.prems"(1) by (auto split: option.splits)
  show ?case
  proof (cases "to_ascii_lowercase (str_trim n) \<in> set HOP_BY_HOP \<or> to_ascii_lowercase (str_trim n) \<in> set named")
    case True
    then show ?thesis using "2.IH"(1) [OF g refl refl True] "2.prems" g by (simp add: Let_def)
  next
    case False
    then obtain k where k: "keep_headers named hs = Some k" "kept = g # k" using "2.prems"(1) g by (auto simp: Let_def)
    show ?thesis
    proof (cases "h = g")
      case True
      then show ?thesis using False g by auto
    next
      case ne: False
      then show ?thesis using "2.IH"(2) [OF g refl refl False k(1)] "2.prems"(2) k(2) by auto
    qed
  qed
qed simp

lemma split_crlf_lines:
  "list_all (\<lambda>l. \<not> has_crlf l) ls \<Longrightarrow> split_crlf (concat (map (\<lambda>l. l @ crlf) ls) @ r) = ls @ split_crlf r"
  by (induction ls) (simp_all add: split_crlf_line)

text \<open>
  A plain request leaves the client proxy for the destination its URL names and no other, and without what was
  meant for the proxy. The tunnel's target is the URL's authority, port 80 when it names none; the rewritten head, read
  line by line as the origin server will, is the request line in origin form, one Host line with
  that authority, header lines of the original request only, none of them a hop-by-hop header, proxy
  credentials, a second Host, or a header the Connection header nominated, and a Connection line
  that ends the exchange.
\<close>

theorem rewritten_request_is_clean:
  assumes "rewrite_plain text = Some f"
  shows "\<exists>m t v authority kept. request_line (hd (split_crlf text)) = Some (m, t, v) \<and>
    plain_http_authority t = Some authority \<and> hf_target f = with_port authority \<and>
    split_crlf (hf_head f) = (m @ '' '' @ origin_path t @ '' '' @ v) # (''Host: '' @ authority) # kept @
      [''Connection: close'', [], []] \<and>
    (\<forall>h \<in> set kept. h \<in> set (tl (split_crlf text)) \<and> (\<exists>n x. split_once_at (CHR '':'') h = Some (n, x) \<and>
       to_ascii_lowercase (str_trim n) \<notin> set HOP_BY_HOP \<and>
       to_ascii_lowercase (str_trim n) \<notin> set (nominated (takeWhile (\<lambda>l. l \<noteq> []) (tl (split_crlf text))))))"
proof -
  let ?headers = "takeWhile (\<lambda>l. l \<noteq> []) (tl (split_crlf text))"
  obtain m t v authority kept where r: "request_line (hd (split_crlf text)) = Some (m, t, v)"
    "plain_http_authority t = Some authority" "keep_headers (nominated ?headers) ?headers = Some kept"
    "f = \<lparr>hf_target = with_port authority,
       hf_head = m @ '' '' @ origin_path t @ '' '' @ v @ crlf @ ''Host: '' @ authority @ crlf @
         concat (map (\<lambda>h. h @ crlf) kept) @ ''Connection: close'' @ crlf @ crlf\<rparr>"
    using assms by (auto simp: rewrite_plain_def Let_def bind_eq_Some_conv split: if_splits option.splits)
  have line: "\<not> has_crlf (m @ '' '' @ t @ '' '' @ v)"
    using split_crlf_pieces [OF list.set_sel(1) [OF split_crlf_not_Nil]] request_line_joins [OF r(1)] by metis
  then have parts: "\<not> has_crlf m" "\<not> has_crlf t" "\<not> has_crlf v"
    using has_crlf_space [of m] has_crlf_space [of t] by blast+
  obtain a b where "t = a @ authority @ b" using authority_part [OF r(2)] by blast
  then have authority: "\<not> has_crlf authority" using parts(2) part_has_no_crlf by blast
  obtain a p where p: "t = a @ p" "origin_path t = p \<or> origin_path t = CHR ''/'' # p" using origin_path_part by blast
  have "\<not> has_crlf p" using parts(2) by (simp add: p(1) has_crlf_append)
  then have path: "\<not> has_crlf (origin_path t)" using p(2) by (cases p) auto
  have first: "\<not> has_crlf (m @ '' '' @ origin_path t @ '' '' @ v)"
    using parts path has_crlf_space [of m] has_crlf_space [of "origin_path t"] by blast
  have host: "\<not> has_crlf (''Host: '' @ authority)" using authority has_crlf_space [of "''Host:''" authority] by simp
  have kept: "h \<in> set (tl (split_crlf text)) \<and> (\<exists>n x. split_once_at (CHR '':'') h = Some (n, x) \<and>
       to_ascii_lowercase (str_trim n) \<notin> set HOP_BY_HOP \<and>
       to_ascii_lowercase (str_trim n) \<notin> set (nominated ?headers))" if "h \<in> set kept" for h
    using keep_headers_kept [OF r(3) that] set_takeWhileD by fast
  have "\<not> has_crlf h" if "h \<in> set kept" for h
    using kept [OF that] split_crlf_pieces by (metis list.set_sel(2) split_crlf_not_Nil)
  then have ks: "list_all (\<lambda>l. \<not> has_crlf l) kept" by (simp add: list_all_iff)
  have fin: "\<not> has_crlf ''Connection: close''" "split_crlf crlf = [[], []]" by (simp_all add: crlf_def)
  have "split_crlf (hf_head f) = (m @ '' '' @ origin_path t @ '' '' @ v) # (''Host: '' @ authority) # kept @
      [''Connection: close'', [], []]"
    using split_crlf_line [OF first, of "(''Host: '' @ authority) @ crlf @ concat (map (\<lambda>h. h @ crlf) kept) @
        ''Connection: close'' @ crlf @ crlf"] split_crlf_line [OF host] split_crlf_lines [OF ks]
      split_crlf_line [OF fin(1), of crlf]
    by (simp add: r(4) fin(2))
  then show ?thesis using r(1,2) kept by (auto simp: r(4))
qed

definition sample_plain :: string where
  "sample_plain = ''GET http://a:8080/x HTTP/1.1'' @ crlf @ ''Proxy-Authorization: s'' @ crlf @ ''Accept: y'' @ crlf @ crlf"

lemma sample_rewrites:
  "rewrite_plain sample_plain = Some \<lparr>hf_target = ''a:8080'',
     hf_head = ''GET /x HTTP/1.1'' @ crlf @ ''Host: a:8080'' @ crlf @ ''Accept: y'' @ crlf @ ''Connection: close'' @ crlf @ crlf\<rparr>"
  by code_simp

theorem rewritten_request_is_clean_witness:
  "\<exists>f m t v authority kept. rewrite_plain sample_plain = Some f \<and>
     request_line (hd (split_crlf sample_plain)) = Some (m, t, v) \<and> plain_http_authority t = Some authority \<and>
     hf_target f = with_port authority \<and>
     split_crlf (hf_head f) = (m @ '' '' @ origin_path t @ '' '' @ v) # (''Host: '' @ authority) # kept @
       [''Connection: close'', [], []]"
  using rewritten_request_is_clean [OF sample_rewrites] sample_rewrites by metis

subsection \<open>Reading the head\<close>

lemma find_head_end_Nil [simp]: "find_head_end [] = None"
  by (simp add: find_head_end.simps crlf_def)

lemma find_head_end_Some: "find_head_end s = Some n \<Longrightarrow> take 4 (drop n s) = crlf @ crlf \<and> n + 4 \<le> length s"
proof (induction s arbitrary: n)
  case (Cons c s)
  show ?case
  proof (cases "take 4 (c # s) = crlf @ crlf")
    case True
    have "length (take 4 (c # s)) = 4" unfolding True by (simp add: crlf_def)
    then show ?thesis using Cons.prems True by (simp add: find_head_end.simps [of "c # s"] min_def split: if_splits)
  next
    case False
    then obtain k where "find_head_end s = Some k" "n = Suc k"
      using Cons.prems by (auto simp: find_head_end.simps [of "c # s"])
    then show ?thesis using Cons.IH by simp
  qed
qed simp

lemma find_head_end_append: "find_head_end s = Some n \<Longrightarrow> find_head_end (s @ x) = Some n"
proof (induction s arbitrary: n)
  case (Cons c s)
  show ?case
  proof (cases "take 4 (c # s) = crlf @ crlf")
    case True
    have "length (take 4 (c # s)) = 4" unfolding True by (simp add: crlf_def)
    then have "3 \<le> length s" by (simp add: min_def split: if_splits)
    then have "take 3 (s @ x) = take 3 s" by simp
    then show ?thesis
      using Cons.prems True by (simp add: find_head_end.simps [of "c # s @ x"] find_head_end.simps [of "c # s"] del: take_append)
  next
    case False
    then obtain k where k: "find_head_end s = Some k" "n = Suc k"
      using Cons.prems by (auto simp: find_head_end.simps [of "c # s"])
    have "4 \<le> length s" using find_head_end_Some [OF k(1)] by simp
    then have "take 3 (s @ x) = take 3 s" by simp
    then show ?thesis using Cons.IH [OF k(1)] k(2) False
      by (simp add: find_head_end.simps [of "c # s @ x"] del: take_append)
  qed
qed simp

lemma head_cut:
  assumes "find_head_end buf = Some n"
  shows "take (n + 4) buf @ drop (n + 4) buf = buf" "take (n + 4) buf = take n buf @ crlf @ crlf"
    "length (take (n + 4) buf) - 4 = n"
proof -
  show "take (n + 4) buf @ drop (n + 4) buf = buf" by (rule append_take_drop_id)
  show "take (n + 4) buf = take n buf @ crlf @ crlf" "length (take (n + 4) buf) - 4 = n"
    using find_head_end_Some [OF assms] by (simp add: take_add, simp)
qed

text \<open>
  How the network cuts a request head into pieces does not matter, and a client cannot make the proxy
  buffer without end: if a head is read, it is exactly what the client sent up to and including its first blank
  line, what follows it is kept for the tunnel, nothing is lost, and no more than one piece beyond the head limit
  was held.
\<close>

theorem head_is_read_exactly:
  assumes "read_head buf chunks = Some (head, early, rest)" "length buf \<le> MAX_HEAD + 1024"
    and "list_all (\<lambda>c. length c \<le> 1024) chunks"
  shows "head @ early @ concat rest = buf @ concat chunks \<and>
    find_head_end (buf @ concat chunks) = Some (length head - 4) \<and>
    (\<exists>h. head = h @ crlf @ crlf) \<and> length (head @ early) \<le> MAX_HEAD + 1024"
  using assms
proof (induction chunks arbitrary: buf)
  case Nil
  then obtain n where n: "find_head_end buf = Some n" by (auto simp: read_head.simps [of buf] split: option.splits if_splits)
  then have "head = take (n + 4) buf" "early = drop (n + 4) buf" "rest = []"
    using Nil.prems(1) by (simp_all add: read_head.simps [of buf])
  then show ?case using n head_cut [OF n] Nil.prems(2) by simp
next
  case (Cons c chunks)
  show ?case
  proof (cases "find_head_end buf")
    case (Some n)
    then have r: "head = take (n + 4) buf" "early = drop (n + 4) buf" "rest = c # chunks"
      using Cons.prems(1) by (simp_all add: read_head.simps [of buf])
    show ?thesis
      unfolding r using find_head_end_append [OF Some] head_cut [OF Some] Cons.prems(2) by (metis append_assoc append_take_drop_id concat.simps(2))
  next
    case None
    then have r: "read_head (buf @ c) chunks = Some (head, early, rest)" "length buf \<le> MAX_HEAD"
      using Cons.prems(1) by (simp_all add: read_head.simps [of buf] split: if_splits)
    show ?thesis using Cons.IH [OF r(1)] r(2) Cons.prems(3) by simp
  qed
qed

theorem head_is_read_exactly_witness:
  "\<exists>head early rest. read_head [] [''CONNECT a:1 HTTP/1.1'' @ crlf, crlf @ ''x''] = Some (head, early, rest) \<and>
     head @ early @ concat rest = ''CONNECT a:1 HTTP/1.1'' @ crlf @ crlf @ ''x''"
proof -
  have r: "read_head [] [''CONNECT a:1 HTTP/1.1'' @ crlf, crlf @ ''x''] =
      Some (''CONNECT a:1 HTTP/1.1'' @ crlf @ crlf, ''x'', [])"
    by (simp add: read_head.simps find_head_end.simps crlf_def MAX_HEAD_def)
  show ?thesis using head_is_read_exactly [OF r] r by (auto simp: MAX_HEAD_def crlf_def)
qed

subsection \<open>What a connection reaches\<close>

text \<open>
  A connection to the client's HTTP proxy reaches only the destination its first request names, and only once the
  gateway opened a tunnel to it: for a CONNECT the authority it gives, with nothing but the client's own bytes sent
  into the tunnel; for a plain request the authority of its URL, with the rewritten request in
  front. Every other head is answered and goes nowhere.
\<close>

theorem http_proxy_reaches_named_destination:
  assumes "http_handle connect_tcp chunks = Http_Relay t out back"
  shows "connect_tcp t = Answer_Opened \<and>
    (\<exists>head early rest. read_head [] chunks = Some (head, early, rest) \<and>
       ((\<exists>a. parse_head head = Head_Connect a \<and> target_parse a = Inr t \<and> out = early \<and>
           back = ''HTTP/1.1 200 Connection Established'' @ crlf @ crlf) \<or>
        (\<exists>m u v a f. request_line (hd (split_crlf head)) = Some (m, u, v) \<and> m \<noteq> ''CONNECT'' \<and>
           plain_http_authority u = Some a \<and> target_parse (with_port a) = Inr t \<and>
           rewrite_plain head = Some f \<and> out = hf_head f @ early \<and> back = [])))"
proof -
  obtain head early rest where r: "read_head [] chunks = Some (head, early, rest)"
    using assms by (auto simp: http_handle_def split: option.splits)
  note d = assms [unfolded http_handle_def r option.case prod.case Let_def]
  show ?thesis
  proof (cases "parse_head head")
    case (Head_Connect a)
    then have "target_parse a = Inr t" "connect_tcp t = Answer_Opened" "out = early"
      "back = ''HTTP/1.1 200 Connection Established'' @ crlf @ crlf"
      using d by (auto split: sum.splits tunnel_answer.splits)
    then show ?thesis using r Head_Connect by blast
  next
    case (Head_OtherMethod o)
    obtain f where f: "rewrite_plain head = Some f" "target_parse (hf_target f) = Inr t"
      "connect_tcp t = Answer_Opened" "out = hf_head f @ early" "back = []"
      using d Head_OtherMethod by (auto split: option.splits sum.splits tunnel_answer.splits)
    obtain m u v a where "request_line (hd (split_crlf head)) = Some (m, u, v)" "m \<noteq> ''CONNECT''"
      "plain_http_authority u = Some a" "hf_target f = with_port a"
      using f(1) by (auto simp: rewrite_plain_def Let_def bind_eq_Some_conv split: if_splits option.splits)
    then show ?thesis using r f by metis
  next
    case Head_Malformed
    then show ?thesis using d by simp
  qed
qed

lemma sample_authority: "target_parse ''a:1'' = Inr \<lparr>tg_host = Name ''a'', tg_port = 1\<rparr>"
proof -
  have "target_split ''a:1'' = Inr (''a'', ''1'')" by code_simp
  moreover have "target_host_parse ''a'' = Inr (Name ''a'')" by code_simp
  moreover have "parse_u16 ''1'' = Some 1"
    by (simp add: parse_u16_def parse_unsigned_def is_ascii_digit_def digits_val_def digit_val_def)
  ultimately show ?thesis by (simp add: target_parse_def target_new_def)
qed

theorem http_proxy_reaches_named_destination_witness:
  "\<exists>t out back. http_handle (\<lambda>_. Answer_Opened) [''CONNECT a:1 HTTP/1.1'' @ crlf @ crlf] = Http_Relay t out back \<and>
     t = \<lparr>tg_host = Name ''a'', tg_port = 1\<rparr>"
proof -
  have h: "http_handle (\<lambda>_. Answer_Opened) [''CONNECT a:1 HTTP/1.1'' @ crlf @ crlf] =
      Http_Relay \<lparr>tg_host = Name ''a'', tg_port = 1\<rparr> [] (''HTTP/1.1 200 Connection Established'' @ crlf @ crlf)"
  proof -
    have "read_head [] [''CONNECT a:1 HTTP/1.1'' @ crlf @ crlf] = Some (''CONNECT a:1 HTTP/1.1'' @ crlf @ crlf, [], [])"
      by (simp add: read_head.simps find_head_end.simps crlf_def MAX_HEAD_def)
    moreover have "parse_head (''CONNECT a:1 HTTP/1.1'' @ crlf @ crlf) = Head_Connect ''a:1''"
      by code_simp
    ultimately show ?thesis by (simp add: http_handle_def sample_authority)
  qed
  show ?thesis using http_proxy_reaches_named_destination [OF h] h by auto
qed

text \<open>
  Only the two-byte line end separates headers here, while servers commonly accept a bare line feed: a header that
  must not be passed on passes behind one.
\<close>

lemma bare_line_feed_hides_a_header:
  "rewrite_plain (''GET http://a/ HTTP/1.1'' @ crlf @ ''X: 1'' @ [CHR 0x0A] @ ''Proxy-Authorization: s'' @ crlf @ crlf) =
     Some \<lparr>hf_target = ''a:80'', hf_head = ''GET / HTTP/1.1'' @ crlf @ ''Host: a'' @ crlf @
       ''X: 1'' @ [CHR 0x0A] @ ''Proxy-Authorization: s'' @ crlf @ ''Connection: close'' @ crlf @ crlf\<rparr>"
  by code_simp

end
