(* ===== verification/Local_Credentials.thy ===== *)
theory Local_Credentials
  imports Platform_Mint
begin

text \<open>
  The credential exchange of a single-organisation gateway
  (\<^verbatim>\<open>skimasque-cli/src/bin/skimasque-server.rs\<close>): the local minter, the minter that asks the control
  plane and falls back to the local secret, the check of a presented credential, and the organisation's
  signing key with its cache and its refresh (\<^verbatim>\<open>fetch_signing_key\<close> of
  \<^verbatim>\<open>skimasque-cli/src/control.rs\<close>). The HTTP answers, base64, the token library and the printing of
  errors are arguments, the clock readings too.
\<close>

subsection \<open>Minting\<close>

definition FALLBACK_CREDENTIAL_TTL :: nat where
  "FALLBACK_CREDENTIAL_TTL = 300"

definition exchange_error :: "(identity_error \<Rightarrow> string) \<Rightarrow> identity_error \<Rightarrow> mint_error" where
  "exchange_error show_error e =
     (case e of
        Discovery _ \<Rightarrow> Mint_Unavailable (show_error e)
      | Jwks _ \<Rightarrow> Mint_Unavailable (show_error e)
      | other \<Rightarrow> Unauthorized (show_error other))"

definition issued_answer ::
  "(identity_error \<Rightarrow> string) \<Rightarrow> identity_error + issued \<Rightarrow> mint_error + minted_credential" where
  "issued_answer show_error r =
     (case r of
        Inl e \<Rightarrow> Inl (Mint_Unavailable (show_error e))
      | Inr i \<Rightarrow> Inr \<lparr>mc_credential = is_token i, mc_expires_in = is_expires_in i\<rparr>)"

text \<open>\<open>now\<close> and \<open>secs\<close> are read for the token's verification, \<open>t0\<close> when the credential is issued.\<close>

record ('j, 'k, 'e) oidc_minter =
  om_oidc :: "'j oidc_verifier"
  om_credentials :: "('k, 'e) credential_issuer"

definition oidc_mint ::
  "('j, 'w, 'k, 'e) jwt \<Rightarrow> 'j jwks_provider \<Rightarrow> (identity_error \<Rightarrow> string) \<Rightarrow> nat \<Rightarrow> nat \<Rightarrow> nat \<Rightarrow> string \<Rightarrow>
     ('j, 'k, 'e) oidc_minter \<Rightarrow> (mint_error + minted_credential) \<times> ('j, 'k, 'e) oidc_minter" where
  "oidc_mint lib fetch show_error now secs t0 token m =
     (case verify_claims lib fetch now secs token (om_oidc m) of
        (Inl e, ov) \<Rightarrow> (Inl (exchange_error show_error e), m\<lparr>om_oidc := ov\<rparr>)
      | (Inr c, ov) \<Rightarrow>
          (issued_answer show_error
             (issuer_issue lib t0 (om_credentials m) (identify (ov_provider (om_oidc m)) c) (claims_subject c)),
           m\<lparr>om_oidc := ov\<rparr>))"

text \<open>
  The remote minter. \<open>control\<close> is the control plane's answer to a request for an identity, a subject and a
  lifetime; any failure of the call is an error text. The result carries the requests sent.
\<close>

record ('j, 'k, 'e) remote_minter =
  rm_oidc :: "'j oidc_verifier"
  rm_ttl :: nat
  rm_fallback :: "('k, 'e) credential_issuer option"

record gateway_mint_request =
  gm_identity :: workload_identity
  gm_subject :: "string option"
  gm_ttl_seconds :: nat

definition remote_mint ::
  "('j, 'w, 'k, 'e) jwt \<Rightarrow> 'j jwks_provider \<Rightarrow> (identity_error \<Rightarrow> string) \<Rightarrow>
     (gateway_mint_request \<Rightarrow> string + issued) \<Rightarrow> nat \<Rightarrow> nat \<Rightarrow> nat \<Rightarrow> string \<Rightarrow> ('j, 'k, 'e) remote_minter \<Rightarrow>
     (mint_error + minted_credential) \<times> gateway_mint_request list \<times> ('j, 'k, 'e) remote_minter" where
  "remote_mint lib fetch show_error control now secs t0 token m =
     (case verify_claims lib fetch now secs token (rm_oidc m) of
        (Inl e, ov) \<Rightarrow> (Inl (exchange_error show_error e), [], m\<lparr>rm_oidc := ov\<rparr>)
      | (Inr c, ov) \<Rightarrow>
          (let workload = identify (ov_provider (rm_oidc m)) c;
               req = \<lparr>gm_identity = workload, gm_subject = claims_subject c, gm_ttl_seconds = rm_ttl m\<rparr>
           in (case control req of
                 Inr minted \<Rightarrow> Inr \<lparr>mc_credential = is_token minted, mc_expires_in = is_expires_in minted\<rparr>
               | Inl e \<Rightarrow>
                   (case rm_fallback m of
                      Some issuer \<Rightarrow>
                        issued_answer show_error
                          (issuer_issue_for lib t0 issuer workload (claims_subject c) FALLBACK_CREDENTIAL_TTL)
                    | None \<Rightarrow> Inl (Mint_Unavailable (''the control plane could not mint a credential: '' @ e))),
               [req], m\<lparr>rm_oidc := ov\<rparr>)))"

subsection \<open>The check of a presented credential\<close>

text \<open>\<open>ed\<close> is the live view of the organisation's public keys, absent without a control plane.\<close>

definition credential_identity_verify ::
  "('j, 'w, 'k, 'e) jwt \<Rightarrow> (identity_error \<Rightarrow> string) \<Rightarrow> nat \<Rightarrow> 'k list option \<Rightarrow> ('k, 'e) credential_issuer \<Rightarrow>
     string \<Rightarrow> string + workload_identity" where
  "credential_identity_verify lib show_error now ed hs token =
     (let local = map_err show_error (issuer_verify lib now hs token)
      in case ed of
           None \<Rightarrow> local
         | Some keys \<Rightarrow>
             (case credential_verify lib now keys token of
                Inr identity \<Rightarrow> Inr identity
              | Inl _ \<Rightarrow> local))"

subsection \<open>The organisation's signing key\<close>

text \<open>
  What a request for the key met: the answer, whether the state directory exists or could be created, and
  whether the cache file could be written.
\<close>

record key_answer =
  ka_answer :: "string + signing_key"
  ka_dir :: bool
  ka_writes :: bool

definition fetch_signing_key ::
  "(string \<Rightarrow> string + bytes) \<Rightarrow> key_answer \<Rightarrow> signing_key option \<Rightarrow> (string + signing_key) \<times> signing_key option" where
  "fetch_signing_key base64 a cache =
     (case ka_answer a of
        Inl e \<Rightarrow> (Inl e, cache)
      | Inr key \<Rightarrow>
          if \<not> eq_ignore_ascii_case (sk_algorithm key) ''ed25519'' then
            (Inl (''the control plane served a '' @ sk_algorithm key @ '' signing key, expected Ed25519''), cache)
          else
            (case base64 (sk_public_key_b64 key) of
               Inl _ \<Rightarrow> (Inl ''the org signing key'', cache)
             | Inr _ \<Rightarrow>
                 if \<not> ka_dir a then (Inl ''creating the control-plane state directory'', cache)
                 else (Inr key, if ka_writes a then Some key else cache)))"

record 'k org_keys =
  ok_keys :: "'k list"
  ok_cache :: "signing_key option"

text \<open>The keys a gateway starts with: fetched, else cached, else it does not start.\<close>

definition wire_signing_key ::
  "(string \<Rightarrow> string + bytes) \<Rightarrow> (bytes \<Rightarrow> 'k) \<Rightarrow> key_answer \<Rightarrow> signing_key option \<Rightarrow> string + 'k org_keys" where
  "wire_signing_key base64 ed_key a cache =
     (case fetch_signing_key base64 a cache of
        (r, cache') \<Rightarrow>
          and_then
            (case r of
               Inr key \<Rightarrow> Inr key
             | Inl _ \<Rightarrow>
                 ok_or ''the control plane's org signing key is needed to verify credentials and is not cached'' cache')
            (\<lambda>key. and_then (all_public_key_bytes base64 key) (\<lambda>keys.
              Inr \<lparr>ok_keys = map ed_key keys, ok_cache = cache'\<rparr>)))"

text \<open>One turn of \<^verbatim>\<open>run_signing_key_refresh\<close>.\<close>

definition signing_key_turn ::
  "(string \<Rightarrow> string + bytes) \<Rightarrow> (bytes \<Rightarrow> 'k) \<Rightarrow> key_answer \<Rightarrow> 'k org_keys \<Rightarrow> 'k org_keys" where
  "signing_key_turn base64 ed_key a s =
     (case fetch_signing_key base64 a (ok_cache s) of
        (Inl _, cache) \<Rightarrow> s\<lparr>ok_cache := cache\<rparr>
      | (Inr key, cache) \<Rightarrow>
          (case all_public_key_bytes base64 key of
             Inl _ \<Rightarrow> s\<lparr>ok_cache := cache\<rparr>
           | Inr keys \<Rightarrow> s\<lparr>ok_keys := map ed_key keys, ok_cache := cache\<rparr>))"

subsection \<open>What an exchange rests on\<close>

definition job_verified ::
  "('j, 'w, 'k, 'e) jwt \<Rightarrow> 'j jwks_provider \<Rightarrow> nat \<Rightarrow> nat \<Rightarrow> string \<Rightarrow> 'j oidc_verifier \<Rightarrow> 'j oidc_verifier \<Rightarrow>
     claims \<Rightarrow> bool" where
  "job_verified lib fetch now secs token ov ov' c \<longleftrightarrow>
     (\<exists>keys.
        ((\<exists>entry. jc_cached (ov_jwks ov) = Some entry \<and> now - je_fetched entry < jc_ttl (ov_jwks ov) \<and>
            keys = je_keys entry) \<or> fetched_between fetch (ov_jwks ov) (ov_jwks ov') keys) \<and>
        token_accepted lib secs (vf_issuer (ov_verifier ov)) (vf_audiences (ov_verifier ov))
          (vf_leeway_secs (ov_verifier ov)) token keys c)"

lemma verify_claims_Inr:
  assumes "verify_claims lib fetch now secs token ov = (Inr c, ov')"
  shows "job_verified lib fetch now secs token ov ov' c"
proof -
  have v: "verify_refreshing lib fetch now secs (ov_verifier ov) token (ov_jwks ov) = (Inr c, ov_jwks ov')"
    using assms by (auto simp: verify_claims_def split: prod.splits)
  then show ?thesis
    unfolding job_verified_def by (rule verify_refreshing_Inr) (blast dest: verifier_verify_Inr)
qed

lemma oidc_mint_Inr:
  assumes "oidc_mint lib fetch show_error now secs t0 token m = (Inr cred, m')"
  obtains c i where "job_verified lib fetch now secs token (om_oidc m) (om_oidc m') c"
    "issuer_issue lib t0 (om_credentials m) (identify (ov_provider (om_oidc m)) c) (claims_subject c) = Inr i"
    "cred = \<lparr>mc_credential = is_token i, mc_expires_in = is_expires_in i\<rparr>"
proof -
  obtain r ov where v: "verify_claims lib fetch now secs token (om_oidc m) = (r, ov)" by (cases "verify_claims lib fetch now secs token (om_oidc m)")
  obtain c where c: "r = Inr c" using assms v by (cases r) (simp_all add: oidc_mint_def)
  have "job_verified lib fetch now secs token (om_oidc m) ov c" using verify_claims_Inr v c by simp
  then show ?thesis
    using assms v c that by (auto simp: oidc_mint_def issued_answer_def split: sum.splits)
qed

definition request_of :: "('j, 'k, 'e) remote_minter \<Rightarrow> claims \<Rightarrow> gateway_mint_request" where
  "request_of m c =
     \<lparr>gm_identity = identify (ov_provider (rm_oidc m)) c, gm_subject = claims_subject c, gm_ttl_seconds = rm_ttl m\<rparr>"

definition locally_issued ::
  "('j, 'w, 'k, 'e) jwt \<Rightarrow> nat \<Rightarrow> gateway_mint_request \<Rightarrow> ('k, 'e) credential_issuer option \<Rightarrow> issued \<Rightarrow> bool" where
  "locally_issued lib t0 req fallback i \<longleftrightarrow>
     (\<exists>issuer. fallback = Some issuer \<and>
        issuer_issue_for lib t0 issuer (gm_identity req) (gm_subject req) FALLBACK_CREDENTIAL_TTL = Inr i)"

lemma remote_mint_cases:
  assumes "remote_mint lib fetch show_error control now secs t0 token m = (r, reqs, m')"
  obtains (refused) e where "r = Inl e" "reqs = []"
    | (asked) c where "job_verified lib fetch now secs token (rm_oidc m) (rm_oidc m') c" "reqs = [request_of m c]"
        "\<And>cred. r = Inr cred \<Longrightarrow> \<exists>i. cred = \<lparr>mc_credential = is_token i, mc_expires_in = is_expires_in i\<rparr> \<and>
           (control (request_of m c) = Inr i \<or>
            (\<exists>e. control (request_of m c) = Inl e) \<and> locally_issued lib t0 (request_of m c) (rm_fallback m) i)"
proof (cases "verify_claims lib fetch now secs token (rm_oidc m)")
  case (Pair v ov)
  show ?thesis
  proof (cases v)
    case (Inl e)
    then show ?thesis
      using assms Pair by (intro refused [of "exchange_error show_error e"]) (simp_all add: remote_mint_def)
  next
    case (Inr c)
    have j: "job_verified lib fetch now secs token (rm_oidc m) ov c" using verify_claims_Inr Pair Inr by simp
    have m: "rm_oidc m' = ov" "reqs = [request_of m c]"
      using assms Pair Inr by (auto simp: remote_mint_def request_of_def Let_def)
    show ?thesis
    proof (rule asked)
      show "job_verified lib fetch now secs token (rm_oidc m) (rm_oidc m') c" using j m by simp
      show "reqs = [request_of m c]" by (rule m)
      show "\<exists>i. cred = \<lparr>mc_credential = is_token i, mc_expires_in = is_expires_in i\<rparr> \<and>
           (control (request_of m c) = Inr i \<or>
            (\<exists>e. control (request_of m c) = Inl e) \<and> locally_issued lib t0 (request_of m c) (rm_fallback m) i)"
        if "r = Inr cred" for cred
        using that assms Pair Inr
        by (auto simp: remote_mint_def request_of_def locally_issued_def issued_answer_def Let_def
            split: sum.splits option.splits)
    qed
  qed
qed

text \<open>
  C11. An exchange of a gateway with a control plane rests on a verified job. Whatever the control plane
  answers, the gateway asks it at most once, and only after the job's token was checked against the
  issuer's current keys; it asks for exactly the identity the provider reads out of those claims, which
  is a CI identity without a session. A credential it hands out is the control plane's answer to that
  request, or, when the call failed and a fallback is configured, one of five minutes signed with the
  gateway's own secret for the same identity; without a fallback a failed call gives no credential.
\<close>

theorem exchange_rests_on_verified_job:
  assumes "remote_mint lib fetch show_error control now secs t0 token m = (r, reqs, m')"
  shows "(\<forall>req \<in> set reqs. reqs = [req] \<and> gm_ttl_seconds req = rm_ttl m \<and> wi_kind (gm_identity req) = Some Ci \<and>
        wi_sid (gm_identity req) = None \<and>
        (\<exists>c. job_verified lib fetch now secs token (rm_oidc m) (rm_oidc m') c \<and>
           gm_identity req = identify (ov_provider (rm_oidc m)) c \<and> gm_subject req = claims_subject c)) \<and>
    (\<forall>cred. r = Inr cred \<longrightarrow>
       (\<exists>req i. reqs = [req] \<and> mc_credential cred = is_token i \<and> mc_expires_in cred = is_expires_in i \<and>
          (control req = Inr i \<or>
           (\<exists>e. control req = Inl e) \<and> is_expires_in i = 300 \<and> locally_issued lib t0 req (rm_fallback m) i)))"
  using assms
proof (cases rule: remote_mint_cases)
  case (asked c)
  have "is_expires_in i = 300" if "locally_issued lib t0 (request_of m c) (rm_fallback m) i" for i
    using that by (auto simp: locally_issued_def issuer_issue_for_def credential_encode_def and_then_def map_err_def
        FALLBACK_CREDENTIAL_TTL_def split: sum.splits)
  then show ?thesis
    using asked identify_is_ci [of "ov_provider (rm_oidc m)" c] by (fastforce simp: request_of_def)
qed simp

subsection \<open>Handing out and accepting a credential\<close>

text \<open>The library refuses a token whose header names another algorithm than the expected one.\<close>

definition jwt_alg_checked :: "('j, 'w, 'k, 'e) jwt \<Rightarrow> bool" where
  "jwt_alg_checked lib \<longleftrightarrow>
     (\<forall>payload ek token now dk v. jwt_encode lib HS256 payload ek = Inr token \<and> va_alg v = EdDSA \<longrightarrow>
        (\<exists>e. jwt_decode lib now token dk v = Inl e))"

lemma credential_decode_Inl:
  "jwt_decode lib now token k (credential_validation alg) = Inl e \<Longrightarrow>
     credential_decode lib now alg k token = Inl (Verification e)"
  by (simp add: credential_decode_def decode_claims_def and_then_def)

lemma all_keys_reject:
  "(\<And>k. k \<in> set keys \<Longrightarrow> \<exists>e. f k = Inl e) \<Longrightarrow> \<exists>e. try_keys f keys d = Inl e"
  by (induction keys arbitrary: d) fastforce+

lemma local_credential_accepted:
  assumes "jwt_pair lib HS256 (ci_encoding hs) (ci_decoding hs)" "jwt_names lib" "jwt_alg_checked lib"
    and "issuer_issue_for lib t0 hs identity subject ttl = Inr i" "t0 + ttl < 2 ^ 63" "later \<le> t0 + ttl + 30"
  shows "credential_identity_verify lib show_error later ed hs (is_token i) = Inr identity"
proof -
  let ?c = "issue_claims t0 ttl identity subject None"
  have enc: "jwt_encode lib HS256 (claims_json ?c) (ci_encoding hs) = Inr (is_token i)"
    using assms(4) by (auto simp: issuer_issue_for_def credential_encode_def and_then_def map_err_def split: sum.splits)
  have v: "issuer_verify lib later hs (is_token i) = Inr identity"
    using minted_decodes(1) [OF assms(1,2,5,6) enc]
    by (simp add: issuer_verify_def credential_decode_def and_then_def issue_claims_def)
  have r: "\<exists>e. credential_verify lib later keys (is_token i) = Inl e" for keys
    unfolding credential_verify_def
  proof (rule all_keys_reject)
    fix k
    have "va_alg (credential_validation EdDSA) = EdDSA" by (simp add: credential_validation_def validation_new_def)
    then show "\<exists>e. credential_decode lib later EdDSA k (is_token i) = Inl e"
      using assms(3) enc unfolding jwt_alg_checked_def by (meson credential_decode_Inl)
  qed
  show ?thesis
  proof (cases ed)
    case (Some keys)
    obtain e where "credential_verify lib later keys (is_token i) = Inl e" using r by blast
    then show ?thesis using v Some by (simp add: credential_identity_verify_def map_err_def)
  qed (simp add: credential_identity_verify_def map_err_def v)
qed

lemma org_credential_accepted:
  assumes "jwt_pair lib EdDSA ek k" "jwt_names lib" "t0 + ttl < 2 ^ 63" "later \<le> t0 + ttl + 30"
    and "jwt_encode lib EdDSA (claims_json (issue_claims t0 ttl identity subject org)) ek = Inr token"
    and "\<forall>b \<in> set before. \<exists>e. jwt_decode lib later token b (credential_validation EdDSA) = Inl e"
  shows "credential_identity_verify lib show_error later (Some (before @ k # after)) hs token = Inr identity"
proof -
  have "credential_verify lib later (before @ k # after) token = Inr identity"
    unfolding credential_verify_def
  proof (rule try_keys_reaches)
    show "\<forall>b \<in> set before. \<exists>e. credential_decode lib later EdDSA b token = Inl e"
      using assms(6) by (meson credential_decode_Inl)
    show "credential_decode lib later EdDSA k token = Inr identity"
      using minted_decodes(1) [OF assms(1-5)] by (simp add: credential_decode_def and_then_def issue_claims_def)
  qed
  then show ?thesis by (simp add: credential_identity_verify_def)
qed

text \<open>
  A job gets through with what the exchange gave it. When the control plane signs with the
  organisation's key, as it documents, and the gateway holds the matching public key, the credential the
  exchange handed out identifies its bearer as the verified job until thirty seconds past its lifetime,
  whether it came from the control plane or from the fallback, and whatever other keys the gateway
  holds before it, as long as they reject the token.
\<close>

theorem exchanged_credential_identifies:
  assumes "remote_mint lib fetch show_error control now secs t0 token m = (Inr cred, reqs, m')"
    and "jwt_names lib" "jwt_alg_checked lib" "jwt_pair lib EdDSA ek k"
    and "jwt_pair lib HS256 (ci_encoding hs) (ci_decoding hs)" "rm_fallback m = None \<or> rm_fallback m = Some hs"
    and "\<forall>req i. control req = Inr i \<longrightarrow>
      jwt_encode lib EdDSA (claims_json (issue_claims t0 (is_expires_in i) (gm_identity req) (gm_subject req) org)) ek
        = Inr (is_token i)"
    and "t0 + mc_expires_in cred < 2 ^ 63" "later \<le> t0 + mc_expires_in cred + 30"
    and "\<forall>b \<in> set before. \<exists>e. jwt_decode lib later (mc_credential cred) b (credential_validation EdDSA) = Inl e"
  shows "\<exists>c. job_verified lib fetch now secs token (rm_oidc m) (rm_oidc m') c \<and>
    credential_identity_verify lib show_error later (Some (before @ k # after)) hs (mc_credential cred)
      = Inr (identify (ov_provider (rm_oidc m)) c)"
  using assms(1)
proof (cases rule: remote_mint_cases)
  case (asked c)
  obtain i where i: "cred = \<lparr>mc_credential = is_token i, mc_expires_in = is_expires_in i\<rparr>"
    "control (request_of m c) = Inr i \<or> locally_issued lib t0 (request_of m c) (rm_fallback m) i"
    using asked(3) by blast
  have "credential_identity_verify lib show_error later (Some (before @ k # after)) hs (is_token i)
      = Inr (gm_identity (request_of m c))"
    using i(2)
  proof
    assume "control (request_of m c) = Inr i"
    then show ?thesis
      using assms(7-10) i(1) by (intro org_credential_accepted [OF assms(4,2)]) auto
  next
    assume "locally_issued lib t0 (request_of m c) (rm_fallback m) i"
    then have l: "issuer_issue_for lib t0 hs (gm_identity (request_of m c)) (gm_subject (request_of m c))
        FALLBACK_CREDENTIAL_TTL = Inr i"
      using assms(6) by (auto simp: locally_issued_def)
    then have "is_expires_in i = FALLBACK_CREDENTIAL_TTL"
      by (auto simp: issuer_issue_for_def credential_encode_def and_then_def map_err_def split: sum.splits)
    then show ?thesis
      using assms(8,9) i(1) by (intro local_credential_accepted [OF assms(5,2,3) l]) simp_all
  qed
  then show ?thesis using asked(1) i(1) by (auto simp: request_of_def)
qed simp

text \<open>The minter keeps no control plane in front of the local secret: what it issues, the gateway accepts.\<close>

lemma local_exchange_identifies:
  assumes "oidc_mint lib fetch show_error now secs t0 token m = (Inr cred, m')"
    and "jwt_names lib" "jwt_alg_checked lib"
    and "jwt_pair lib HS256 (ci_encoding (om_credentials m)) (ci_decoding (om_credentials m))"
    and "t0 + ci_ttl (om_credentials m) < 2 ^ 63" "later \<le> t0 + ci_ttl (om_credentials m) + 30"
  shows "\<exists>c. job_verified lib fetch now secs token (om_oidc m) (om_oidc m') c \<and>
    credential_identity_verify lib show_error later ed (om_credentials m) (mc_credential cred)
      = Inr (identify (ov_provider (om_oidc m)) c)"
proof -
  obtain c i where c: "job_verified lib fetch now secs token (om_oidc m) (om_oidc m') c"
    "issuer_issue lib t0 (om_credentials m) (identify (ov_provider (om_oidc m)) c) (claims_subject c) = Inr i"
    "cred = \<lparr>mc_credential = is_token i, mc_expires_in = is_expires_in i\<rparr>"
    using assms(1) by (rule oidc_mint_Inr)
  then show ?thesis
    using local_credential_accepted [OF assms(4,2,3) c(2) [unfolded issuer_issue_def] assms(5,6)] by auto
qed

text \<open>
  The fallback answers every failed call, also one the control plane answered with a refusal: the job it
  turned away gets a credential all the same.
\<close>

lemma refusal_falls_back:
  assumes "verify_claims lib fetch now secs token (rm_oidc m) = (Inr c, ov)" "rm_fallback m = Some hs"
    and "control (request_of m c) = Inl ''credential mint failed: 403 Forbidden over_cap''"
    and "issuer_issue_for lib t0 hs (identify (ov_provider (rm_oidc m)) c) (claims_subject c) 300 = Inr i"
  shows "fst (remote_mint lib fetch show_error control now secs t0 token m) =
    Inr \<lparr>mc_credential = is_token i, mc_expires_in = is_expires_in i\<rparr>"
  using assms by (simp add: remote_mint_def request_of_def issued_answer_def FALLBACK_CREDENTIAL_TTL_def Let_def)

subsection \<open>Rotation of the organisation's key\<close>

definition usable_keys :: "(string \<Rightarrow> string + bytes) \<Rightarrow> key_answer \<Rightarrow> bytes list option" where
  "usable_keys base64 a =
     (case fst (fetch_signing_key base64 a None) of
        Inl _ \<Rightarrow> None
      | Inr key \<Rightarrow> (case all_public_key_bytes base64 key of Inl _ \<Rightarrow> None | Inr keys \<Rightarrow> Some keys))"

fun keys_in_force :: "(string \<Rightarrow> string + bytes) \<Rightarrow> key_answer list \<Rightarrow> bytes list \<Rightarrow> bytes list" where
  "keys_in_force base64 [] keys = keys"
| "keys_in_force base64 (a # as) keys =
     keys_in_force base64 as (case usable_keys base64 a of None \<Rightarrow> keys | Some ks \<Rightarrow> ks)"

lemma fetch_signing_key_fst: "fst (fetch_signing_key base64 a cache) = fst (fetch_signing_key base64 a cache')"
  by (auto simp: fetch_signing_key_def split: sum.splits)

lemma signing_key_turn_keys:
  "ok_keys (signing_key_turn base64 ed_key a s) =
     (case usable_keys base64 a of None \<Rightarrow> ok_keys s | Some ks \<Rightarrow> map ed_key ks)"
  unfolding signing_key_turn_def usable_keys_def fetch_signing_key_fst [of base64 a None "ok_cache s"]
  by (auto split: prod.splits sum.splits)

lemma refreshed_keys:
  "ok_keys s = map ed_key start \<Longrightarrow>
     ok_keys (fold (signing_key_turn base64 ed_key) as s) = map ed_key (keys_in_force base64 as start)"
proof (induction as arbitrary: s start)
  case (Cons a as)
  show ?case
    using Cons.prems Cons.IH [of "signing_key_turn base64 ed_key a s"]
    by (cases "usable_keys base64 a") (simp_all add: signing_key_turn_keys)
qed simp

lemma wired_keys:
  assumes "wire_signing_key base64 ed_key a cache = Inr s"
  obtains key start where "ka_answer a = Inr key \<or> cache = Some key" "all_public_key_bytes base64 key = Inr start"
    "start \<noteq> []" "ok_keys s = map ed_key start"
proof -
  obtain r cache' where f: "fetch_signing_key base64 a cache = (r, cache')" by (cases "fetch_signing_key base64 a cache")
  have c: "r = Inr key \<Longrightarrow> ka_answer a = Inr key" "r = Inl e \<Longrightarrow> cache' = cache" for key e
    using f by (cases "ka_answer a"; auto simp: fetch_signing_key_def split: sum.splits if_split_asm)+
  obtain key where k: "r = Inr key \<or> (\<exists>e. r = Inl e) \<and> cache' = Some key" "and_then (all_public_key_bytes base64 key)
      (\<lambda>keys. Inr \<lparr>ok_keys = map ed_key keys, ok_cache = cache'\<rparr>) = Inr s"
  proof (cases r)
    case (Inl e)
    then show ?thesis using assms f that by (cases cache') (simp_all add: wire_signing_key_def and_then_simps ok_or_simps)
  next
    case (Inr key)
    then show ?thesis using assms f that by (simp add: wire_signing_key_def and_then_simps)
  qed
  obtain start where s: "all_public_key_bytes base64 key = Inr start" "ok_keys s = map ed_key start"
    using k(2) by (auto simp: and_then_def split: sum.splits)
  have "start \<noteq> []"
    using s(1) by (auto simp: all_public_key_bytes_def and_then_def split: sum.splits option.splits)
  moreover have "ka_answer a = Inr key \<or> cache = Some key" using k(1) c by metis
  ultimately show ?thesis using that s by simp
qed

text \<open>
  Outages and rotations of the signing key do not lock out a running gateway. A gateway that started
  holds the keys of an answer or of its cache; after any sequence of refreshes, failed and unusable answers
  included, it holds exactly the keys of the last usable answer, or those it started with; and a credential
  signed with any of them, the current key or the previous one, identifies its bearer until thirty seconds
  past its lifetime.
\<close>

theorem signing_key_rotation_keeps_credentials:
  assumes "wire_signing_key base64 ed_key a cache = Inr s0"
    and "jwt_names lib" "jwt_pair lib EdDSA ek (ed_key pub)" "t0 + ttl < 2 ^ 63" "later \<le> t0 + ttl + 30"
    and "jwt_encode lib EdDSA (claims_json (issue_claims t0 ttl identity subject org)) ek = Inr token"
  shows "\<exists>start key. (ka_answer a = Inr key \<or> cache = Some key) \<and> all_public_key_bytes base64 key = Inr start \<and>
    start \<noteq> [] \<and>
    ok_keys (fold (signing_key_turn base64 ed_key) as s0) = map ed_key (keys_in_force base64 as start) \<and>
    (\<forall>before after. keys_in_force base64 as start = before @ pub # after \<and>
       list_all (\<lambda>b. \<exists>e. jwt_decode lib later token (ed_key b) (credential_validation EdDSA) = Inl e) before \<longrightarrow>
       credential_identity_verify lib show_error later (Some (ok_keys (fold (signing_key_turn base64 ed_key) as s0)))
         hs token = Inr identity)"
proof -
  obtain key start where w: "ka_answer a = Inr key \<or> cache = Some key" "all_public_key_bytes base64 key = Inr start"
    "start \<noteq> []" "ok_keys s0 = map ed_key start"
    using assms(1) by (rule wired_keys)
  note k = refreshed_keys [OF w(4), of base64 as]
  have v: "credential_identity_verify lib show_error later (Some (map ed_key (before @ pub # after))) hs token = Inr identity"
    if "list_all (\<lambda>b. \<exists>e. jwt_decode lib later token (ed_key b) (credential_validation EdDSA) = Inl e) before"
    for before after
    using org_credential_accepted [OF assms(3,2,4-6), of "map ed_key before" show_error "map ed_key after" hs] that
    by (simp add: list_all_iff)
  show ?thesis
  proof (rule exI [of _ start], rule exI [of _ key], intro conjI allI impI, goal_cases)
    case (5 before after)
    then show ?case using v unfolding k by simp
  qed (use w k in simp_all)
qed

text \<open>
  Only the current key is checked before an answer is cached. An answer whose previous key does not decode
  leaves the running gateway alone, but takes the place of the good key in the cache, and a restart during an
  outage fails on it.
\<close>

lemma corrupt_previous_key_is_cached:
  assumes "base64 p = Inl err" "base64 c = Inr bs" "eq_ignore_ascii_case alg ''ed25519''"
    and "key = \<lparr>sk_org_id = g, sk_algorithm = alg, sk_public_key_b64 = c, sk_previous_public_key_b64 = Some p\<rparr>"
  shows "signing_key_turn base64 ed_key \<lparr>ka_answer = Inr key, ka_dir = True, ka_writes = True\<rparr> s = s\<lparr>ok_cache := Some key\<rparr>"
    "wire_signing_key base64 ed_key \<lparr>ka_answer = Inl e, ka_dir = True, ka_writes = True\<rparr> (Some key) = Inl err"
  using assms by (simp_all add: signing_key_turn_def wire_signing_key_def fetch_signing_key_def all_public_key_bytes_def
      and_then_def ok_or_def)

subsection \<open>A sample exchange during an outage\<close>

definition sample_workload :: workload_identity where
  "sample_workload = identify GitHubActions (object_map sample_job_claims)"

definition sample_fallback_claims :: json where
  "sample_fallback_claims = claims_json (issue_claims 1000 300 sample_workload None None)"

definition sample_org_claims :: json where
  "sample_org_claims = claims_json (issue_claims 1000 900 sample_workload None (Some ''org_1''))"

definition sample_exchange :: "(string list, string, nat, string) jwt" where
  "sample_exchange =
     \<lparr>jwt_decode_header = (\<lambda>_. Inr \<lparr>jh_alg = RS256, jh_kid = Some ''k1''\<rparr>),
      jwt_find = (\<lambda>keys kid. find_first (\<lambda>k. k = kid) keys), jwt_from_jwk = (\<lambda>_. Inr 5),
      jwt_decode = (\<lambda>now t k v.
        if t = ''h.p.s'' \<and> k = 5 \<and> va_alg v = RS256 then Inr (JObject sample_job_claims)
        else if t = ''h.f.s'' \<and> k = 1 \<and> va_alg v = HS256 \<and> claims_valid now v sample_fallback_claims
        then Inr sample_fallback_claims
        else if t = ''h.o.s'' \<and> k = 2 \<and> va_alg v = EdDSA \<and> claims_valid now v sample_org_claims
        then Inr sample_org_claims
        else Inl ''no''),
      jwt_encode = (\<lambda>alg p k.
        if alg = HS256 \<and> p = sample_fallback_claims \<and> k = ''secret'' then Inr ''h.f.s''
        else if alg = EdDSA \<and> p = sample_org_claims \<and> k = ''org key'' then Inr ''h.o.s''
        else Inl ''no''),
      jwt_payload = (\<lambda>s. if s = ''f'' then Some sample_fallback_claims else if s = ''o'' then Some sample_org_claims else None),
      jwt_unreadable = (\<lambda>_. ''no''), jwt_variant = json_as_str\<rparr>"

definition sample_issuer :: "(nat, string) credential_issuer" where
  "sample_issuer = \<lparr>ci_encoding = ''secret'', ci_decoding = 1, ci_ttl = 3600\<rparr>"

definition sample_remote :: "(string list, nat, string) remote_minter" where
  "sample_remote = \<lparr>rm_oidc = oidc_from_parts GitHubActions (verifier_new GITHUB_ACTIONS_ISSUER [''a'']),
     rm_ttl = 900, rm_fallback = Some sample_issuer\<rparr>"

definition sample_gateway_request :: gateway_mint_request where
  "sample_gateway_request = \<lparr>gm_identity = sample_workload, gm_subject = None, gm_ttl_seconds = 900\<rparr>"

lemma sample_exchange_laws:
  "jwt_names sample_exchange" "jwt_alg_checked sample_exchange" "jwt_pair sample_exchange EdDSA ''org key'' 2"
  "jwt_pair sample_exchange HS256 (ci_encoding sample_issuer) (ci_decoding sample_issuer)"
  by (auto simp: jwt_names_def jwt_alg_checked_def jwt_pair_def sample_exchange_def token_payload_def sample_issuer_def
      split: if_splits)

lemma sample_remote_mint:
  "\<exists>m'. remote_mint sample_exchange (\<lambda>n. (Inr [''k1''], n)) (\<lambda>_. ''e'') (\<lambda>_. Inl ''down'') 0 5 1000 ''h.p.s'' sample_remote
     = (Inr \<lparr>mc_credential = ''h.f.s'', mc_expires_in = 300\<rparr>, [sample_gateway_request], m')"
proof -
  have v: "\<exists>ov. verify_claims sample_exchange (\<lambda>n. (Inr [''k1''], n)) 0 5 ''h.p.s'' (rm_oidc sample_remote)
      = (Inr (object_map sample_job_claims), ov)"
    by (simp add: verify_claims_def verify_refreshing_def cache_keys_def cache_refresh_def sample_remote_def
        oidc_from_parts_def jwks_cache_new_def verifier_verify_def sample_exchange_def and_then_def map_err_def ok_or_def
        verifier_validation_def validation_new_def Let_def)
  have s: "claims_subject (object_map sample_job_claims) = None"
    by (simp add: claims_subject_def claims_get_def object_map_def sample_job_claims_def)
  have i: "issuer_issue_for sample_exchange 1000 sample_issuer sample_workload None FALLBACK_CREDENTIAL_TTL
      = Inr \<lparr>is_token = ''h.f.s'', is_expires_in = 300\<rparr>"
    by (simp add: issuer_issue_for_def credential_encode_def sample_exchange_def sample_issuer_def and_then_def map_err_def
        FALLBACK_CREDENTIAL_TTL_def sample_fallback_claims_def)
  have p: "ov_provider (rm_oidc sample_remote) = GitHubActions" "rm_fallback sample_remote = Some sample_issuer"
    "rm_ttl sample_remote = 900"
    by (simp_all add: sample_remote_def oidc_from_parts_def)
  show ?thesis
    using v i by (auto simp: remote_mint_def p s sample_workload_def sample_gateway_request_def issued_answer_def Let_def)
qed

theorem exchange_rests_on_verified_job_witness:
  "\<exists>m'. remote_mint sample_exchange (\<lambda>n. (Inr [''k1''], n)) (\<lambda>_. ''e'') (\<lambda>_. Inl ''down'') 0 5 1000 ''h.p.s'' sample_remote
     = (Inr \<lparr>mc_credential = ''h.f.s'', mc_expires_in = 300\<rparr>, [sample_gateway_request], m') \<and>
   (\<exists>c. job_verified sample_exchange (\<lambda>n. (Inr [''k1''], n)) 0 5 ''h.p.s'' (rm_oidc sample_remote) (rm_oidc m') c \<and>
      sample_workload = identify (ov_provider (rm_oidc sample_remote)) c)"
proof -
  obtain m' where m: "remote_mint sample_exchange (\<lambda>n. (Inr [''k1''], n)) (\<lambda>_. ''e'') (\<lambda>_. Inl ''down'') 0 5 1000 ''h.p.s''
      sample_remote = (Inr \<lparr>mc_credential = ''h.f.s'', mc_expires_in = 300\<rparr>, [sample_gateway_request], m')"
    using sample_remote_mint by blast
  have g: "gm_identity sample_gateway_request = sample_workload" by (simp add: sample_gateway_request_def)
  have "sample_gateway_request \<in> set [sample_gateway_request]" by simp
  note bspec [OF conjunct1 [OF exchange_rests_on_verified_job [OF m]] this, unfolded g]
  then obtain c where "job_verified sample_exchange (\<lambda>n. (Inr [''k1''], n)) 0 5 ''h.p.s'' (rm_oidc sample_remote) (rm_oidc m') c"
    "sample_workload = identify (ov_provider (rm_oidc sample_remote)) c"
    by (elim conjE exE)
  then show ?thesis by (intro exI conjI) (rule m)
qed

theorem exchanged_credential_identifies_witness:
  "\<exists>m' c. remote_mint sample_exchange (\<lambda>n. (Inr [''k1''], n)) (\<lambda>_. ''e'') (\<lambda>_. Inl ''down'') 0 5 1000 ''h.p.s'' sample_remote
     = (Inr \<lparr>mc_credential = ''h.f.s'', mc_expires_in = 300\<rparr>, [sample_gateway_request], m') \<and>
   credential_identity_verify sample_exchange (\<lambda>_. ''e'') 1330 (Some ([7] @ 2 # [])) sample_issuer ''h.f.s''
     = Inr (identify GitHubActions c)"
proof -
  obtain m' where m: "remote_mint sample_exchange (\<lambda>n. (Inr [''k1''], n)) (\<lambda>_. ''e'') (\<lambda>_. Inl ''down'') 0 5 1000 ''h.p.s''
      sample_remote = (Inr \<lparr>mc_credential = ''h.f.s'', mc_expires_in = 300\<rparr>, [sample_gateway_request], m')"
    using sample_remote_mint by blast
  have p: "ov_provider (rm_oidc sample_remote) = GitHubActions" "rm_fallback sample_remote = Some sample_issuer"
    by (simp_all add: sample_remote_def oidc_from_parts_def)
  have r: "\<forall>b \<in> set [7 :: nat]. \<exists>e. jwt_decode sample_exchange 1330
      (mc_credential \<lparr>mc_credential = ''h.f.s'', mc_expires_in = 300\<rparr>) b (credential_validation EdDSA) = Inl e"
    by (simp add: sample_exchange_def credential_validation_def validation_new_def)
  have "\<exists>c. credential_identity_verify sample_exchange (\<lambda>_. ''e'') 1330 (Some ([7] @ 2 # [])) sample_issuer ''h.f.s''
      = Inr (identify GitHubActions c)"
    using exchanged_credential_identifies [OF m sample_exchange_laws _ _ _ _ r, where org = None and after = "[]", unfolded p]
    by (simp only: simp_thms sum.distinct) (simp, blast)
  then show ?thesis using m by blast
qed

definition sample_base64 :: "string \<Rightarrow> string + bytes" where
  "sample_base64 s = (if s = ''old'' then Inr [2] else if s = ''new'' then Inr [3] else Inl ''no'')"

definition sample_key_answer :: "string \<Rightarrow> string option \<Rightarrow> key_answer" where
  "sample_key_answer c p = \<lparr>ka_answer = Inr \<lparr>sk_org_id = ''org_1'', sk_algorithm = ''Ed25519'', sk_public_key_b64 = c,
     sk_previous_public_key_b64 = p\<rparr>, ka_dir = True, ka_writes = True\<rparr>"

definition sample_refreshes :: "key_answer list" where
  "sample_refreshes = [sample_key_answer ''new'' (Some ''old''), sample_key_answer ''new'' (Some ''corrupt''),
     \<lparr>ka_answer = Inl ''down'', ka_dir = True, ka_writes = True\<rparr>]"

lemma sample_key_answers:
  "usable_keys sample_base64 (sample_key_answer ''old'' None) = Some [[2]]"
  "usable_keys sample_base64 (sample_key_answer ''new'' (Some ''old'')) = Some [[3], [2]]"
  "usable_keys sample_base64 (sample_key_answer ''new'' (Some ''corrupt'')) = None"
proof -
  have "eq_ignore_ascii_case ''Ed25519'' ''ed25519''" by code_simp
  then show "usable_keys sample_base64 (sample_key_answer ''old'' None) = Some [[2]]"
    "usable_keys sample_base64 (sample_key_answer ''new'' (Some ''old'')) = Some [[3], [2]]"
    "usable_keys sample_base64 (sample_key_answer ''new'' (Some ''corrupt'')) = None"
    by (simp_all add: usable_keys_def fetch_signing_key_def sample_key_answer_def sample_base64_def all_public_key_bytes_def)
qed

theorem signing_key_rotation_keeps_credentials_witness:
  "\<exists>s0. wire_signing_key sample_base64 (\<lambda>bs. unat (hd bs)) (sample_key_answer ''old'' None) None = Inr s0 \<and>
     ok_keys (fold (signing_key_turn sample_base64 (\<lambda>bs. unat (hd bs))) sample_refreshes s0) = [3, 2] \<and>
     credential_identity_verify sample_exchange (\<lambda>_. ''e'') 1930
       (Some (ok_keys (fold (signing_key_turn sample_base64 (\<lambda>bs. unat (hd bs))) sample_refreshes s0))) sample_issuer ''h.o.s''
       = Inr sample_workload"
proof -
  define s0 where "s0 = \<lparr>ok_keys = [2 :: nat], ok_cache = Some \<lparr>sk_org_id = ''org_1'', sk_algorithm = ''Ed25519'', sk_public_key_b64 = ''old'',
      sk_previous_public_key_b64 = None\<rparr>\<rparr>"
  have "eq_ignore_ascii_case ''Ed25519'' ''ed25519''" by code_simp
  then have w: "wire_signing_key sample_base64 (\<lambda>bs. unat (hd bs)) (sample_key_answer ''old'' None) None = Inr s0"
    by (simp add: s0_def wire_signing_key_def fetch_signing_key_def sample_key_answer_def sample_base64_def all_public_key_bytes_def)
  have enc: "jwt_encode sample_exchange EdDSA (claims_json (issue_claims 1000 900 sample_workload None (Some ''org_1''))) ''org key''
      = Inr ''h.o.s''"
    by (simp add: sample_exchange_def sample_org_claims_def)
  have pair: "jwt_pair sample_exchange EdDSA ''org key'' (unat (hd [2 :: u8]))" using sample_exchange_laws(3) by simp
  have n: "1000 + 900 < (2 :: nat) ^ 63" "1930 \<le> 1000 + 900 + (30 :: nat)" by simp_all
  have u: "usable_keys sample_base64 \<lparr>ka_answer = Inl ''down'', ka_dir = True, ka_writes = True\<rparr> = None"
    by (simp add: usable_keys_def fetch_signing_key_def)
  have k: "keys_in_force sample_base64 sample_refreshes start = [[3], [2]]" for start
    by (simp add: sample_refreshes_def sample_key_answers u)
  have r: "list_all (\<lambda>b. \<exists>e. jwt_decode sample_exchange 1930 ''h.o.s'' (unat (hd b)) (credential_validation EdDSA) = Inl e) [[3 :: u8]]"
    by (simp add: sample_exchange_def)
  obtain start where s: "ok_keys (fold (signing_key_turn sample_base64 (\<lambda>bs. unat (hd bs))) sample_refreshes s0) =
      map (\<lambda>bs. unat (hd bs)) (keys_in_force sample_base64 sample_refreshes start)"
    "\<forall>before after. keys_in_force sample_base64 sample_refreshes start = before @ [2] # after \<and>
       list_all (\<lambda>b. \<exists>e. jwt_decode sample_exchange 1930 ''h.o.s'' (unat (hd b)) (credential_validation EdDSA) = Inl e) before \<longrightarrow>
       credential_identity_verify sample_exchange (\<lambda>_. ''e'') 1930
         (Some (ok_keys (fold (signing_key_turn sample_base64 (\<lambda>bs. unat (hd bs))) sample_refreshes s0))) sample_issuer ''h.o.s''
         = Inr sample_workload"
    using signing_key_rotation_keeps_credentials
      [OF w sample_exchange_laws(1) pair n enc, of sample_refreshes "\<lambda>_. ''e''" sample_issuer]
    by (elim exE conjE)
  have "keys_in_force sample_base64 sample_refreshes start = [[3]] @ [2] # []" by (simp add: k)
  then have "credential_identity_verify sample_exchange (\<lambda>_. ''e'') 1930
         (Some (ok_keys (fold (signing_key_turn sample_base64 (\<lambda>bs. unat (hd bs))) sample_refreshes s0))) sample_issuer ''h.o.s''
         = Inr sample_workload"
    using s(2) r by blast
  then show ?thesis using w s(1) k by (intro exI [of _ s0]) simp
qed

end
