(* ===== verification/Policy_Files.thy ===== *)
theory Policy_Files
  imports Control_Sync Policy_Learn
begin

text \<open>
  Policy files and the commands on them (\<^verbatim>\<open>skimasque-cli/src/policy.rs\<close>), and the reload loop of the
  gateway (\<^verbatim>\<open>watch_and_reload\<close>, \<^verbatim>\<open>run_policy_reload\<close> and \<^verbatim>\<open>run_tls_reload\<close> of
  \<^verbatim>\<open>skimasque-cli/src/bin/skimasque-server.rs\<close>). A file system is a value: what a directory lists and
  what each file holds at one moment. Paths are Unix paths whose names are valid UTF-8.
\<close>

subsection \<open>Paths\<close>

text \<open>
  The components of a path: repeated separators and inner dots vanish, a leading separator and a leading dot
  stay. Paths are ordered by their components.
\<close>

definition path_components :: "string \<Rightarrow> string list" where
  "path_components p =
     (let segs = split_on (CHR ''/'') p
      in (if starts_with p ''/'' then [''/''] else if hd segs = ''.'' then [''.''] else []) @
         filter (\<lambda>c. c \<noteq> [] \<and> c \<noteq> ''.'') segs)"

definition component_key :: "string \<Rightarrow> nat list" where
  "component_key c = (if c = ''/'' then [1] else if c = ''.'' then [2] else if c = ''..'' then [3] else 4 # map char_code c)"

definition path_key :: "string \<Rightarrow> nat list list" where
  "path_key p = map component_key (path_components p)"

definition path_file_name :: "string \<Rightarrow> string option" where
  "path_file_name p =
     (let cs = path_components p
      in if cs = [] \<or> last cs \<in> {''/'', ''.'', ''..''} then None else Some (last cs))"

definition path_extension :: "string \<Rightarrow> string option" where
  "path_extension p =
     Option.bind (path_file_name p) (\<lambda>f.
       case rsplit_once_at (CHR ''.'') f of
         None \<Rightarrow> None
       | Some (stem, ext) \<Rightarrow> if stem = [] then None else Some ext)"

subsection \<open>Loading\<close>

record file_system =
  fs_read_dir :: "string \<Rightarrow> string list option"
  fs_read :: "string \<Rightarrow> string option"
  fs_modified :: "string \<Rightarrow> int option"
  fs_len :: "string \<Rightarrow> nat option"

datatype source_spec = Dir string | Files "string list"

type_synonym fingerprint = "(string \<times> int option \<times> nat option) list"

definition fingerprint_of :: "file_system \<Rightarrow> string list \<Rightarrow> fingerprint" where
  "fingerprint_of fs paths = map (\<lambda>p. (p, fs_modified fs p, fs_len fs p)) (sort_key path_key paths)"

definition source_from_args :: "string option \<Rightarrow> string list \<Rightarrow> source_spec option" where
  "source_from_args policy_dir policy_files =
     (case policy_dir of
        Some dir \<Rightarrow> Some (Dir dir)
      | None \<Rightarrow> if policy_files \<noteq> [] then Some (Files policy_files) else None)"

definition source_describe :: "source_spec \<Rightarrow> string" where
  "source_describe spec = (case spec of Dir dir \<Rightarrow> dir | Files files \<Rightarrow> join_with '', '' files)"

definition is_policy_file :: "string \<Rightarrow> bool" where
  "is_policy_file p =
     (case path_extension p of
        None \<Rightarrow> False
      | Some ext \<Rightarrow> to_ascii_lowercase ext \<in> {''toml'', ''yaml'', ''yml''})"

definition display_name :: "string \<Rightarrow> string" where
  "display_name p = (case path_file_name p of Some name \<Rightarrow> name | None \<Rightarrow> p)"

record loaded =
  ld_set :: policy_set
  ld_sources :: "string list"

definition load_files :: "('f, 'k) platform_env \<Rightarrow> file_system \<Rightarrow> string list \<Rightarrow> string + loaded" where
  "load_files env fs paths =
     and_then
       (try_map (\<lambda>p. case fs_read fs p of
          None \<Rightarrow> Inl (''reading '' @ p)
        | Some t \<Rightarrow> Inr (display_name p, t)) paths)
       (\<lambda>documents.
          and_then
            (map_err (\<lambda>_. ''loading the policy set'')
              (from_documents (pe_floats env) (pe_toml env) (pe_yaml env) documents))
            (\<lambda>ps. Inr \<lparr>ld_set = ps, ld_sources = paths\<rparr>))"

definition load_dir :: "('f, 'k) platform_env \<Rightarrow> file_system \<Rightarrow> string \<Rightarrow> string + loaded" where
  "load_dir env fs dir =
     (case fs_read_dir fs dir of
        None \<Rightarrow> Inl (''reading the policy directory '' @ dir)
      | Some listing \<Rightarrow>
          (let files = sort_key path_key (filter is_policy_file listing)
           in if files = [] then Inl (''no .toml/.yaml policy files in '' @ dir)
              else load_files env fs files))"

definition source_load :: "('f, 'k) platform_env \<Rightarrow> source_spec \<Rightarrow> file_system \<Rightarrow> string + loaded" where
  "source_load env spec fs = (case spec of Dir dir \<Rightarrow> load_dir env fs dir | Files files \<Rightarrow> load_files env fs files)"

definition source_fingerprint :: "source_spec \<Rightarrow> file_system \<Rightarrow> fingerprint" where
  "source_fingerprint spec fs =
     fingerprint_of fs
       (case spec of
          Dir dir \<Rightarrow> filter is_policy_file (case fs_read_dir fs dir of None \<Rightarrow> [] | Some listing \<Rightarrow> listing)
        | Files files \<Rightarrow> files)"

subsection \<open>Reloading\<close>

text \<open>
  One turn of \<^verbatim>\<open>watch_and_reload\<close>, forced by a signal or by the clock. The fingerprint is taken before
  the files are read, so the two may see different file systems.
\<close>

record 'fs tick =
  tk_forced :: bool
  tk_fingerprinted :: 'fs
  tk_reloaded :: 'fs

definition watch_turn ::
  "('fs \<Rightarrow> 'fp) \<Rightarrow> ('fs \<Rightarrow> 's \<Rightarrow> 's option) \<Rightarrow> 'fs tick \<Rightarrow> 'fp \<times> 's \<Rightarrow> 'fp \<times> 's" where
  "watch_turn fp reload t st =
     (case st of
        (current, s) \<Rightarrow>
          (let next = fp (tk_fingerprinted t)
           in if \<not> tk_forced t \<and> next = current then (current, s)
              else (case reload (tk_reloaded t) s of
                      Some s' \<Rightarrow> (next, s')
                    | None \<Rightarrow> (current, s))))"

definition reload_policy ::
  "('f, 'k) platform_env \<Rightarrow> source_spec \<Rightarrow> file_system \<Rightarrow> gateway \<Rightarrow> gateway option" where
  "reload_policy env spec fs w =
     (case source_load env spec fs of
        Inl _ \<Rightarrow> None
      | Inr l \<Rightarrow> Some (policy_store (ld_set l) w))"

text \<open>
  The serving certificate. Building a TLS configuration from the two files is an argument, and so is the
  conversion for QUIC, which may fail.
\<close>

definition tls_load ::
  "(string \<Rightarrow> string \<Rightarrow> 'c option) \<Rightarrow> ('c \<Rightarrow> 'q option) \<Rightarrow> string \<Rightarrow> string \<Rightarrow> file_system \<Rightarrow> 'q option" where
  "tls_load from_pem quic cert key fs =
     Option.bind (fs_read fs cert) (\<lambda>cert_pem.
     Option.bind (fs_read fs key) (\<lambda>key_pem.
     Option.bind (from_pem cert_pem key_pem) quic))"

definition reload_tls ::
  "(string \<Rightarrow> string \<Rightarrow> 'c option) \<Rightarrow> ('c \<Rightarrow> 'q option) \<Rightarrow> string \<Rightarrow> string \<Rightarrow> file_system \<Rightarrow> 'q \<Rightarrow> 'q option" where
  "reload_tls from_pem quic cert key fs serving = tls_load from_pem quic cert key fs"

subsection \<open>What is in force\<close>

text \<open>
  What a state was loaded from, and file systems whose fingerprints tell their contents apart.
\<close>

definition loaded_from :: "('fs \<Rightarrow> 'fp) \<Rightarrow> ('fs \<Rightarrow> 'v option) \<Rightarrow> ('s \<Rightarrow> 'v) \<Rightarrow> 'fs set \<Rightarrow> 'fp \<times> 's \<Rightarrow> bool" where
  "loaded_from fp load view S st \<longleftrightarrow> (\<exists>g \<in> S. fst st = fp g \<and> load g = Some (view (snd st)))"

definition honest :: "('fs \<Rightarrow> 'fp) \<Rightarrow> ('fs \<Rightarrow> 'v) \<Rightarrow> 'fs set \<Rightarrow> bool" where
  "honest fp load S \<longleftrightarrow> (\<forall>f \<in> S. \<forall>g \<in> S. fp f = fp g \<longrightarrow> load f = load g)"

text \<open>
  A reloader either refuses a file system and changes nothing, or installs what it loaded from it.
\<close>

locale reloader =
  fixes fp :: "'fs \<Rightarrow> 'fp" and reload :: "'fs \<Rightarrow> 's \<Rightarrow> 's option" and load :: "'fs \<Rightarrow> 'v option" and view :: "'s \<Rightarrow> 'v"
  assumes refused: "load fs = None \<Longrightarrow> reload fs s = None"
    and installed: "load fs = Some v \<Longrightarrow> \<exists>s'. reload fs s = Some s' \<and> view s' = v"
begin

lemma turn_cases:
  assumes "watch_turn fp reload t (current, s) = (current', s')"
  obtains (kept) "current' = current" "s' = s" "load (tk_reloaded t) = None \<or> \<not> tk_forced t \<and> fp (tk_fingerprinted t) = current"
    | (swapped) "current' = fp (tk_fingerprinted t)" "load (tk_reloaded t) = Some (view s')"
  using assms refused [of "tk_reloaded t" s] installed [of "tk_reloaded t" _ s]
  by (cases "load (tk_reloaded t)") (auto simp: watch_turn_def Let_def split: if_splits option.splits)

text \<open>
  When no file changes between the fingerprint and the read, and equal fingerprints mean equal contents, a
  turn leaves exactly the current files in force if they load, and what was in force otherwise.
\<close>

lemma turn_in_force:
  assumes "loaded_from fp load view S st" "tk_fingerprinted t = tk_reloaded t" "tk_reloaded t \<in> S"
    and "honest fp load S"
  shows "loaded_from fp load view S (watch_turn fp reload t st) \<and>
    view (snd (watch_turn fp reload t st)) = (case load (tk_reloaded t) of None \<Rightarrow> view (snd st) | Some v \<Rightarrow> v)"
proof -
  obtain current s where st: "st = (current, s)" by (cases st)
  obtain current' s' where t: "watch_turn fp reload t (current, s) = (current', s')" by fastforce
  obtain g where g: "g \<in> S" "current = fp g" "load g = Some (view s)"
    using assms(1) by (auto simp: loaded_from_def st)
  from t show ?thesis
  proof (cases rule: turn_cases)
    case kept
    have "load (tk_reloaded t) = None \<or> load (tk_reloaded t) = Some (view s)"
      using kept(3) assms(4) [unfolded honest_def] assms(2,3) g by metis
    then show ?thesis using kept(1,2) t st assms(1) by auto
  next
    case swapped
    then have "loaded_from fp load view S (current', s')"
      unfolding loaded_from_def by (intro bexI [OF _ assms(3)]) (simp add: assms(2))
    then show ?thesis using swapped t st by simp
  qed
qed

lemma run_in_force:
  assumes "loaded_from fp load view S st" "list_all (\<lambda>t. tk_fingerprinted t = tk_reloaded t \<and> tk_reloaded t \<in> S) ts"
    and "honest fp load S"
  shows "view (snd (fold (watch_turn fp reload) ts st)) =
    fold (\<lambda>t v. case load (tk_reloaded t) of None \<Rightarrow> v | Some v' \<Rightarrow> v') ts (view (snd st))"
  using assms(1,2)
proof (induction ts arbitrary: st)
  case (Cons t ts)
  from Cons.prems(2) have t: "tk_fingerprinted t = tk_reloaded t" "tk_reloaded t \<in> S"
    and ts: "list_all (\<lambda>t. tk_fingerprinted t = tk_reloaded t \<and> tk_reloaded t \<in> S) ts"
    by simp_all
  note s = turn_in_force [OF Cons.prems(1) t assms(3)]
  show ?case using Cons.IH [OF conjunct1 [OF s] ts] conjunct2 [OF s] by simp
qed simp

text \<open>A revision that does not load changes nothing and is tried again while the files stay as they are.\<close>

lemma unloadable_retried:
  assumes "load g = None" "fp g \<noteq> fst st" "list_all (\<lambda>t. tk_fingerprinted t = g \<and> tk_reloaded t = g) ts"
    and "load g' = Some v" "fp g' \<noteq> fst st" "tk_fingerprinted t = g'" "tk_reloaded t = g'"
  shows "fold (watch_turn fp reload) ts st = st" "view (snd (fold (watch_turn fp reload) (ts @ [t]) st)) = v"
proof -
  obtain current s where st: "st = (current, s)" by (cases st)
  show k: "fold (watch_turn fp reload) ts st = st"
    using assms(3)
  proof (induction ts)
    case (Cons t ts)
    have "watch_turn fp reload t st = st"
      using Cons.prems refused [OF assms(1), of s] unfolding watch_turn_def st Let_def by simp
    then show ?case using Cons by simp
  qed simp
  show "view (snd (fold (watch_turn fp reload) (ts @ [t]) st)) = v"
    using installed [OF assms(4), of s] assms(5-7) k by (auto simp: watch_turn_def Let_def st)
qed

text \<open>
  The fingerprint the loop starts from is taken after the value in force was loaded: a change in between is
  not noticed by any later turn of the clock.
\<close>

lemma change_before_watching_missed:
  assumes "fst st = fp g" "list_all (\<lambda>t. \<not> tk_forced t \<and> tk_fingerprinted t = g) ts"
  shows "fold (watch_turn fp reload) ts st = st"
  using assms(2)
proof (induction ts)
  case (Cons t ts)
  obtain current s where st: "st = (current, s)" by (cases st)
  have "watch_turn fp reload t st = st"
    using Cons.prems assms(1) unfolding watch_turn_def st Let_def by simp
  then show ?case using Cons by simp
qed simp

end

interpretation policy_reloader: reloader "source_fingerprint spec" "reload_policy env spec"
  "\<lambda>fs. case source_load env spec fs of Inl _ \<Rightarrow> None | Inr l \<Rightarrow> Some (ld_set l)" gw_policies
  for spec env
proof (unfold_locales, goal_cases)
  case (1 fs s)
  then show ?case by (cases "source_load env spec fs") (simp_all add: reload_policy_def)
next
  case (2 fs v s)
  then show ?case by (cases "source_load env spec fs") (simp_all add: reload_policy_def policy_store_def)
qed

interpretation tls_reloader: reloader "\<lambda>fs. fingerprint_of fs [cert, key]" "reload_tls from_pem quic cert key"
  "tls_load from_pem quic cert key" "\<lambda>c. c"
  for cert key from_pem quic
  by unfold_locales (simp_all add: reload_tls_def)

definition last_loaded ::
  "('f, 'k) platform_env \<Rightarrow> source_spec \<Rightarrow> file_system tick list \<Rightarrow> policy_set \<Rightarrow> policy_set" where
  "last_loaded env spec ts ps =
     fold (\<lambda>t v. case source_load env spec (tk_reloaded t) of Inl _ \<Rightarrow> v | Inr l \<Rightarrow> ld_set l) ts ps"

lemma watch_policy_frame:
  "snd (watch_turn (source_fingerprint spec) (reload_policy env spec) t (c, w)) =
     w\<lparr>gw_policies := gw_policies (snd (watch_turn (source_fingerprint spec) (reload_policy env spec) t (c, w)))\<rparr>"
  by (cases "source_load env spec (tk_reloaded t)") (simp_all add: watch_turn_def reload_policy_def policy_store_def Let_def)

lemma watch_policies_frame:
  "\<exists>ps. snd (fold (watch_turn (source_fingerprint spec) (reload_policy env spec)) ts st) = (snd st)\<lparr>gw_policies := ps\<rparr>"
proof (induction ts arbitrary: st)
  case Nil
  have "snd st = (snd st)\<lparr>gw_policies := gw_policies (snd st)\<rparr>" by simp
  then show ?case unfolding fold_simps by blast
next
  case (Cons t ts)
  obtain c w where st: "st = (c, w)" by (cases st)
  obtain ps where ps: "snd (fold (watch_turn (source_fingerprint spec) (reload_policy env spec)) (t # ts) st) =
      (snd (watch_turn (source_fingerprint spec) (reload_policy env spec) t st))\<lparr>gw_policies := ps\<rparr>"
    using Cons.IH [of "watch_turn (source_fingerprint spec) (reload_policy env spec) t st"] by auto
  have "(snd (watch_turn (source_fingerprint spec) (reload_policy env spec) t st))\<lparr>gw_policies := ps\<rparr> = (snd st)\<lparr>gw_policies := ps\<rparr>"
    unfolding st by (subst watch_policy_frame) simp
  then show ?case using ps by metis
qed

lemma source_load_wf: "source_load env spec fs = Inr l \<Longrightarrow> list_all policy_wf (ld_set l)"
proof -
  have f: "load_files env fs paths = Inr l \<Longrightarrow> list_all policy_wf (ld_set l)" for paths
    by (auto simp: load_files_def and_then_Inr_iff map_err_Inr_iff dest!: from_documents_wf)
  show "source_load env spec fs = Inr l \<Longrightarrow> list_all policy_wf (ld_set l)"
    by (auto simp: source_load_def load_dir_def Let_def intro: f split: source_spec.splits option.splits if_splits)
qed

lemma last_loaded_wf: "list_all policy_wf ps \<Longrightarrow> list_all policy_wf (last_loaded env spec ts ps)"
proof (induction ts arbitrary: ps)
  case (Cons t ts)
  then show ?case
    using source_load_wf [of env spec "tk_reloaded t"]
    by (cases "source_load env spec (tk_reloaded t)") (simp_all add: last_loaded_def)
qed (simp add: last_loaded_def)

text \<open>
  A watching gateway enforces its files. When equal fingerprints mean equal contents among the
  revisions seen, and no file changes between a fingerprint and the read that follows it, then after any
  sequence of turns, forced by a signal or not, the policy in force is that of the last revision that
  loads, or the one it started with; every policy of it is well formed; and a reload touches nothing else
  of the gateway. A revision that does not load, an emptied directory or an unreadable file included,
  never weakens what was in force.
\<close>

theorem policy_reload_follows_files:
  assumes "source_load env spec f0 = Inr l0" "gw_policies w = ld_set l0"
    and "list_all (\<lambda>t. tk_fingerprinted t = tk_reloaded t) ts"
    and "\<forall>f \<in> insert f0 (tk_reloaded ` set ts). \<forall>g \<in> insert f0 (tk_reloaded ` set ts).
      source_fingerprint spec f = source_fingerprint spec g \<longrightarrow> source_load env spec f = source_load env spec g"
  shows "snd (fold (watch_turn (source_fingerprint spec) (reload_policy env spec)) ts (source_fingerprint spec f0, w)) =
      w\<lparr>gw_policies := last_loaded env spec ts (ld_set l0)\<rparr> \<and>
    list_all policy_wf (last_loaded env spec ts (ld_set l0))"
proof -
  let ?S = "insert f0 (tk_reloaded ` set ts)"
  let ?load = "\<lambda>fs. case source_load env spec fs of Inl _ \<Rightarrow> None | Inr l \<Rightarrow> Some (ld_set l)"
  let ?st = "(source_fingerprint spec f0, w)"
  let ?final = "snd (fold (watch_turn (source_fingerprint spec) (reload_policy env spec)) ts ?st)"
  have s: "loaded_from (source_fingerprint spec) ?load gw_policies ?S ?st"
    unfolding loaded_from_def using assms(1,2) by (intro bexI [of _ f0]) simp_all
  have h: "honest (source_fingerprint spec) ?load ?S"
    unfolding honest_def using assms(4) by (metis (no_types, lifting))
  have l: "list_all (\<lambda>t. tk_fingerprinted t = tk_reloaded t \<and> tk_reloaded t \<in> ?S) ts"
    using assms(3) by (simp add: list_all_iff)
  have e: "fold (\<lambda>t v. case ?load (tk_reloaded t) of None \<Rightarrow> v | Some v' \<Rightarrow> v') ts = last_loaded env spec ts"
    unfolding last_loaded_def [abs_def]
    by (rule arg_cong [of _ _ "\<lambda>f. fold f ts"]) (auto simp: fun_eq_iff split: sum.splits)
  have "gw_policies ?final = last_loaded env spec ts (ld_set l0)"
    using policy_reloader.run_in_force [OF s l h] unfolding e by (simp add: assms(2))
  then have "?final = w\<lparr>gw_policies := last_loaded env spec ts (ld_set l0)\<rparr>"
    using watch_policies_frame [of spec env ts ?st] by auto
  moreover have "list_all policy_wf (last_loaded env spec ts (ld_set l0))"
    using assms(1) by (intro last_loaded_wf source_load_wf)
  ultimately show ?thesis by blast
qed

text \<open>
  The loop takes its first fingerprint after the policy was loaded. A change that falls in between is not
  picked up by the clock, however often it ticks.
\<close>

lemma startup_change_is_missed:
  assumes "list_all (\<lambda>t. \<not> tk_forced t \<and> tk_fingerprinted t = f1) ts"
  shows "fold (watch_turn (source_fingerprint spec) (reload_policy env spec)) ts (source_fingerprint spec f1, w) =
    (source_fingerprint spec f1, w)"
  using assms by (intro policy_reloader.change_before_watching_missed) simp_all

text \<open>The serving certificate follows its files in the same way.\<close>

lemma certificate_follows_files:
  assumes "tls_load from_pem quic cert key f0 = Some c0"
    and "list_all (\<lambda>t. tk_fingerprinted t = tk_reloaded t) ts"
    and "honest (\<lambda>fs. fingerprint_of fs [cert, key]) (tls_load from_pem quic cert key) (insert f0 (tk_reloaded ` set ts))"
  shows "snd (fold (watch_turn (\<lambda>fs. fingerprint_of fs [cert, key]) (reload_tls from_pem quic cert key)) ts
      (fingerprint_of f0 [cert, key], c0)) =
    fold (\<lambda>t v. case tls_load from_pem quic cert key (tk_reloaded t) of None \<Rightarrow> v | Some v' \<Rightarrow> v') ts c0"
proof -
  have "loaded_from (\<lambda>fs. fingerprint_of fs [cert, key]) (tls_load from_pem quic cert key) (\<lambda>c. c)
      (insert f0 (tk_reloaded ` set ts)) (fingerprint_of f0 [cert, key], c0)"
    using assms(1) by (auto simp: loaded_from_def)
  then show ?thesis
    using tls_reloader.run_in_force [where from_pem = from_pem and quic = quic, OF _ _ assms(3)] assms(2)
    by (simp add: list_all_iff)
qed

subsection \<open>A sample watch\<close>

definition sample_files :: "string option \<Rightarrow> int \<Rightarrow> file_system" where
  "sample_files t n = \<lparr>fs_read_dir = (\<lambda>_. Some [''p/a.TOML'', ''p/notes.md'']), fs_read = (\<lambda>_. t), fs_modified = (\<lambda>_. Some n),
     fs_len = (\<lambda>_. map_option length t)\<rparr>"

definition sample_ticks :: "file_system tick list" where
  "sample_ticks =
     [\<lparr>tk_forced = False, tk_fingerprinted = sample_files None 2, tk_reloaded = sample_files None 2\<rparr>,
      \<lparr>tk_forced = True, tk_fingerprinted = sample_files (Some ''x'') 3, tk_reloaded = sample_files (Some ''x'') 3\<rparr>]"

lemma sample_source_load:
  "source_load sample_env (Dir ''p'') (sample_files (Some t) n) =
     Inr \<lparr>ld_set = [sample_policy ''open'' False Action_Allow HP_Any], ld_sources = [''p/a.TOML'']\<rparr>"
  "source_load sample_env (Dir ''p'') (sample_files None n) = Inl ''reading p/a.TOML''"
proof -
  have p: "is_policy_file ''p/a.TOML''" "\<not> is_policy_file ''p/notes.md''" "display_name ''p/a.TOML'' = ''a.TOML''"
    by code_simp+
  have "from_named_document no_floats (\<lambda>_. Inr sample_raw) (\<lambda>_. Inl (PE_Yaml ''none'')) ''a.TOML'' t =
      from_named_document no_floats (\<lambda>_. Inr sample_raw) (\<lambda>_. Inl (PE_Yaml ''none'')) ''a.TOML'' ''x''"
    by (simp add: from_named_document_def from_toml_def from_yaml_def Let_def)
  moreover have "from_documents no_floats (\<lambda>_. Inr sample_raw) (\<lambda>_. Inl (PE_Yaml ''none'')) [(''a.TOML'', ''x'')] =
      Inr [sample_policy ''open'' False Action_Allow HP_Any]"
    by code_simp
  ultimately have d: "from_documents no_floats (\<lambda>_. Inr sample_raw) (\<lambda>_. Inl (PE_Yaml ''none'')) [(''a.TOML'', t)] =
      Inr [sample_policy ''open'' False Action_Allow HP_Any]"
    by (simp add: from_documents_def)
  show "source_load sample_env (Dir ''p'') (sample_files (Some t) n) =
     Inr \<lparr>ld_set = [sample_policy ''open'' False Action_Allow HP_Any], ld_sources = [''p/a.TOML'']\<rparr>"
    "source_load sample_env (Dir ''p'') (sample_files None n) = Inl ''reading p/a.TOML''"
    by (simp_all add: source_load_def load_dir_def sample_files_def p load_files_def sample_env_def d)
qed

theorem policy_reload_follows_files_witness:
  "snd (fold (watch_turn (source_fingerprint (Dir ''p'')) (reload_policy sample_env (Dir ''p''))) sample_ticks
      (source_fingerprint (Dir ''p'') (sample_files (Some ''y'') 1),
       sample_gateway\<lparr>gw_policies := [sample_policy ''open'' False Action_Allow HP_Any]\<rparr>)) =
    sample_gateway\<lparr>gw_policies := [sample_policy ''open'' False Action_Allow HP_Any]\<rparr>"
proof -
  let ?l = "\<lparr>ld_set = [sample_policy ''open'' False Action_Allow HP_Any], ld_sources = [''p/a.TOML'']\<rparr>"
  have p: "is_policy_file ''p/a.TOML''" "\<not> is_policy_file ''p/notes.md''" by code_simp+
  have f: "source_fingerprint (Dir ''p'') (sample_files t n) = [(''p/a.TOML'', Some n, map_option length t)]" for t n
    by (simp add: source_fingerprint_def fingerprint_of_def sample_files_def p)
  have h: "\<forall>f \<in> insert (sample_files (Some ''y'') 1) (tk_reloaded ` set sample_ticks).
      \<forall>g \<in> insert (sample_files (Some ''y'') 1) (tk_reloaded ` set sample_ticks).
      source_fingerprint (Dir ''p'') f = source_fingerprint (Dir ''p'') g \<longrightarrow>
      source_load sample_env (Dir ''p'') f = source_load sample_env (Dir ''p'') g"
    by (simp add: sample_ticks_def f)
  have l: "last_loaded sample_env (Dir ''p'') sample_ticks (ld_set ?l) = ld_set ?l"
    by (simp add: last_loaded_def sample_ticks_def sample_source_load)
  show ?thesis
    using policy_reload_follows_files [where ts = sample_ticks and w = "sample_gateway\<lparr>gw_policies := ld_set ?l\<rparr>",
        OF sample_source_load(1) _ _ h] l
    by (simp add: sample_ticks_def)
qed

end
