(* ===== verification/Protocol_Wire.thy ===== *)
theory Protocol_Wire
  imports Local_Credentials Audit_Ship
begin

text \<open>
  The messages of the control-plane protocol on the wire (\<^verbatim>\<open>skimasque-protocol/src/lib.rs\<close> and
  \<^verbatim>\<open>platform.rs\<close>): the paths of the endpoints and, for every message, the JSON its derived serialiser
  writes and the reading of its derived deserialiser. A 64-bit number is a word, a \<^verbatim>\<open>BTreeMap\<close> an
  association list in key order. The locale \<open>json_message\<close> is what both ends rely on: a valid message is read
  back as it was written.
\<close>

subsection \<open>Derived readers\<close>

text \<open>
  A struct is read from an object, where a field may not occur twice and unknown members are ignored, or
  from an array with the fields in order, where only fields with a default may be missing at the end.
\<close>

definition struct_fields :: "(string \<times> bool) list \<Rightarrow> json \<Rightarrow> (string \<times> json) list option" where
  "struct_fields fs j =
     (case j of
        JObject ms \<Rightarrow>
          if list_ex (\<lambda>(name, _). 1 < length (filter (\<lambda>m. fst m = name) ms)) fs then None else Some ms
      | JArray vs \<Rightarrow>
          if length vs \<le> length fs \<and> list_all snd (drop (length vs) fs) then Some (zip (map fst fs) vs) else None
      | _ \<Rightarrow> None)"

definition json_u64 :: "json \<Rightarrow> u64 option" where
  "json_u64 j = (case j of JInt n \<Rightarrow> if 0 \<le> n \<and> n < 2 ^ 64 then Some (of_int n) else None | _ \<Rightarrow> None)"

definition json_list :: "(json \<Rightarrow> 'a option) \<Rightarrow> json \<Rightarrow> 'a list option" where
  "json_list f j = (case j of JArray vs \<Rightarrow> those (map f vs) | _ \<Rightarrow> None)"

fun btree_insert :: "string \<Rightarrow> 'a \<Rightarrow> (string \<times> 'a) list \<Rightarrow> (string \<times> 'a) list" where
  "btree_insert k v [] = [(k, v)]"
| "btree_insert k v ((j, w) # m) =
     (if map char_code k < map char_code j then (k, v) # (j, w) # m
      else if k = j then (k, v) # m
      else (j, w) # btree_insert k v m)"

definition json_map :: "(json \<Rightarrow> 'a option) \<Rightarrow> json \<Rightarrow> (string \<times> 'a) list option" where
  "json_map f j =
     (case j of
        JObject ms \<Rightarrow>
          map_option (\<lambda>kvs. fold (\<lambda>(k, v). btree_insert k v) kvs [])
            (those (map (\<lambda>(k, v). map_option (Pair k) (f v)) ms))
      | _ \<Rightarrow> None)"

definition field :: "(json \<Rightarrow> 'a option) \<Rightarrow> (string \<times> json) list \<Rightarrow> string \<Rightarrow> 'a option" where
  "field f ms name = Option.bind (map_of ms name) f"

definition field_opt :: "(json \<Rightarrow> 'a option) \<Rightarrow> (string \<times> json) list \<Rightarrow> string \<Rightarrow> 'a option option" where
  "field_opt f ms name =
     (case map_of ms name of
        None \<Rightarrow> Some None
      | Some v \<Rightarrow> if v = JNull then Some None else map_option Some (f v))"

definition field_or :: "'a \<Rightarrow> (json \<Rightarrow> 'a option) \<Rightarrow> (string \<times> json) list \<Rightarrow> string \<Rightarrow> 'a option" where
  "field_or d f ms name = (case map_of ms name of None \<Rightarrow> Some d | Some v \<Rightarrow> f v)"

text \<open>Writers: a number, an option that is written as null or left out, a map that is left out when empty.\<close>

definition u64_json :: "u64 \<Rightarrow> json" where
  "u64_json n = JInt (uint n)"

definition opt_json :: "('a \<Rightarrow> json) \<Rightarrow> 'a option \<Rightarrow> json" where
  "opt_json f v = (case v of None \<Rightarrow> JNull | Some x \<Rightarrow> f x)"

definition opt_field :: "string \<Rightarrow> ('a \<Rightarrow> json) \<Rightarrow> 'a option \<Rightarrow> (string \<times> json) list" where
  "opt_field name f v = (case v of None \<Rightarrow> [] | Some x \<Rightarrow> [(name, f x)])"

definition map_json :: "('a \<Rightarrow> json) \<Rightarrow> (string \<times> 'a) list \<Rightarrow> json" where
  "map_json f m = JObject (map (\<lambda>(k, v). (k, f v)) m)"

definition map_field :: "string \<Rightarrow> ('a \<Rightarrow> json) \<Rightarrow> (string \<times> 'a) list \<Rightarrow> (string \<times> json) list" where
  "map_field name f m = (if m = [] then [] else [(name, map_json f m)])"

definition btree_ok :: "(string \<times> 'a) list \<Rightarrow> bool" where
  "btree_ok m \<longleftrightarrow> sorted_wrt (<) (map (map char_code \<circ> fst) m)"

subsection \<open>Laws of the readers\<close>

named_theorems wire

lemma json_u64_json [simp, wire]: "json_u64 (u64_json n) = Some n"
proof -
  have "uint n < 2 ^ 64" using uint_lt2p [of n] by simp
  then show ?thesis by (simp add: json_u64_def u64_json_def)
qed

lemma those_map_Some: "list_all (\<lambda>x. g x = Some (h x)) xs \<Longrightarrow> those (map g xs) = Some (map h xs)"
  by (induction xs) simp_all

lemma json_strings [simp, wire]: "json_list json_as_str (JArray (map JString ss)) = Some ss"
  using those_map_Some [of "\<lambda>s. json_as_str (JString s)" "\<lambda>s. s" ss] by (simp add: json_list_def comp_def list_all_iff)

lemma btree_insert_last:
  "list_all (\<lambda>j. map char_code (fst j) < map char_code k) m \<Longrightarrow> btree_insert k v m = m @ [(k, v)]"
  by (induction m) (auto simp: less_not_sym)

lemma btree_fold_append:
  "btree_ok (m @ xs) \<Longrightarrow> fold (\<lambda>(k, v). btree_insert k v) xs m = m @ xs"
proof (induction xs arbitrary: m)
  case Nil
  show ?case by simp
next
  case (Cons x xs)
  obtain k v where x: "x = (k, v)" by (cases x)
  have "list_all (\<lambda>j. map char_code (fst j) < map char_code k) m"
    using Cons.prems by (auto simp: btree_ok_def x sorted_wrt_append list_all_iff)
  then have "btree_insert k v m = m @ [(k, v)]" by (rule btree_insert_last)
  then show ?case using Cons.IH [of "m @ [x]"] Cons.prems by (simp add: x)
qed

lemma json_map_json:
  assumes "btree_ok m" "list_all (\<lambda>(k, v). f (g v) = Some v) m"
  shows "json_map f (map_json g m) = Some m"
proof -
  have "those (map ((\<lambda>(k, v). map_option (Pair k) (f v)) \<circ> (\<lambda>(k, v). (k, g v))) m) = Some (map (\<lambda>x. x) m)"
    using assms(2) by (intro those_map_Some) (auto simp: list_all_iff)
  then show ?thesis using btree_fold_append [of "[]" m] assms(1) by (simp add: json_map_def map_json_def)
qed

lemma option_case_map [simp]:
  "(case y of None \<Rightarrow> None | Some x \<Rightarrow> Some x) = y"
  "(case v of None \<Rightarrow> None | Some x \<Rightarrow> Some (f x)) = map_option f v"
  by (cases y; simp) (cases v; simp)

lemma map_of_opt_field:
  "map_of (opt_field n f v @ rest) m =
     (if m = n then (case map_option f v of None \<Rightarrow> map_of rest m | Some x \<Rightarrow> Some x) else map_of rest m)"
  "map_of (opt_field n f v) m = (if m = n then map_option f v else None)"
  by (auto simp: opt_field_def split: option.split)

lemma map_of_map_field:
  "map_of (map_field n f v @ rest) m = (if m = n \<and> v \<noteq> [] then Some (map_json f v) else map_of rest m)"
  "map_of (map_field n f v) m = (if m = n \<and> v \<noteq> [] then Some (map_json f v) else None)"
  by (auto simp: map_field_def)

lemma count_opt_field:
  "length (filter (\<lambda>m. fst m = name) (opt_field n f v @ rest)) =
     (if n = name \<and> v \<noteq> None then 1 else 0) + length (filter (\<lambda>m. fst m = name) rest)"
  "length (filter (\<lambda>m. fst m = name) (opt_field n f v)) = (if n = name \<and> v \<noteq> None then 1 else 0)"
  by (auto simp: opt_field_def split: option.split)

lemma count_map_field:
  "length (filter (\<lambda>m. fst m = name) (map_field n f v @ rest)) =
     (if n = name \<and> v \<noteq> [] then 1 else 0) + length (filter (\<lambda>m. fst m = name) rest)"
  "length (filter (\<lambda>m. fst m = name) (map_field n f v)) = (if n = name \<and> v \<noteq> [] then 1 else 0)"
  by (auto simp: map_field_def)

lemmas field_counts = map_of_opt_field map_of_map_field count_opt_field count_map_field member_simps

lemma field_opt_written:
  "map_of ms name = map_option g v \<Longrightarrow> pred_option (\<lambda>x. f (g x) = Some x \<and> g x \<noteq> JNull) v \<Longrightarrow>
     field_opt f ms name = Some v"
  by (cases v) (simp_all add: field_opt_def)

lemma u64_json_not_null [simp]: "u64_json n \<noteq> JNull"
  by (simp add: u64_json_def)

locale json_message =
  fixes enc :: "'m \<Rightarrow> json" and dec :: "json \<Rightarrow> 'm option" and valid :: "'m \<Rightarrow> bool"
  assumes reads_back: "valid m \<Longrightarrow> dec (enc m) = Some m"
begin

lemma list_reads_back: "list_all valid ms \<Longrightarrow> json_list dec (JArray (map enc ms)) = Some ms"
  by (induction ms) (simp_all add: json_list_def reads_back)

lemma written_apart: "valid a \<Longrightarrow> valid b \<Longrightarrow> enc a = enc b \<Longrightarrow> a = b"
  by (metis option.inject reads_back)

end

subsection \<open>Paths\<close>

definition REGISTER :: string where "REGISTER = ''/v1/gateways/register''"

definition PLATFORM_REGISTER :: string where "PLATFORM_REGISTER = ''/v1/platform/register''"

definition gateway_policy_path :: "string \<Rightarrow> string" where
  "gateway_policy_path gid = ''/v1/gateways/'' @ gid @ ''/policy''"

definition gateway_revocations_path :: "string \<Rightarrow> string" where
  "gateway_revocations_path gid = ''/v1/gateways/'' @ gid @ ''/revocations''"

definition gateway_heartbeat_path :: "string \<Rightarrow> string" where
  "gateway_heartbeat_path gid = ''/v1/gateways/'' @ gid @ ''/heartbeat''"

definition gateway_labels_path :: "string \<Rightarrow> string" where
  "gateway_labels_path gid = ''/v1/gateways/'' @ gid @ ''/labels''"

definition gateway_credentials_path :: "string \<Rightarrow> string" where
  "gateway_credentials_path gid = ''/v1/gateways/'' @ gid @ ''/credentials''"

definition gateway_audit_path :: "string \<Rightarrow> string" where
  "gateway_audit_path gid = ''/v1/gateways/'' @ gid @ ''/audit''"

definition gateway_audit_head_path :: "string \<Rightarrow> string" where
  "gateway_audit_head_path gid = ''/v1/gateways/'' @ gid @ ''/audit/head''"

definition org_signing_key_path :: "string \<Rightarrow> string" where
  "org_signing_key_path org = ''/v1/orgs/'' @ org @ ''/signing-key''"

definition org_credentials_path :: "string \<Rightarrow> string" where
  "org_credentials_path org = ''/v1/orgs/'' @ org @ ''/credentials''"

definition org_agent_sessions_path :: "string \<Rightarrow> string" where
  "org_agent_sessions_path org = ''/v1/orgs/'' @ org @ ''/agent-sessions''"

definition org_agent_session_end_path :: "string \<Rightarrow> string \<Rightarrow> string" where
  "org_agent_session_end_path org sid = ''/v1/orgs/'' @ org @ ''/agent-sessions/'' @ sid @ ''/end''"

definition platform_tenants_path :: "string \<Rightarrow> string" where
  "platform_tenants_path gid = ''/v1/platform/gateways/'' @ gid @ ''/tenants''"

definition platform_credentials_path :: "string \<Rightarrow> string" where
  "platform_credentials_path gid = ''/v1/platform/gateways/'' @ gid @ ''/credentials''"

definition platform_audit_path :: "string \<Rightarrow> string" where
  "platform_audit_path gid = ''/v1/platform/gateways/'' @ gid @ ''/audit''"

definition platform_audit_head_path :: "string \<Rightarrow> string" where
  "platform_audit_head_path gid = ''/v1/platform/gateways/'' @ gid @ ''/audit/head''"

definition platform_revocations_path :: "string \<Rightarrow> string" where
  "platform_revocations_path gid = ''/v1/platform/gateways/'' @ gid @ ''/revocations''"

definition platform_heartbeat_path :: "string \<Rightarrow> string" where
  "platform_heartbeat_path gid = ''/v1/platform/gateways/'' @ gid @ ''/heartbeat''"

subsection \<open>Registration\<close>

record gateway_identity =
  gi_gateway_id :: string
  gi_org_id :: string
  gi_secret :: string

definition identity_json :: "gateway_identity \<Rightarrow> json" where
  "identity_json i = JObject [(''gateway_id'', JString (gi_gateway_id i)), (''org_id'', JString (gi_org_id i)),
     (''secret'', JString (gi_secret i))]"

definition read_gateway_identity :: "json \<Rightarrow> gateway_identity option" where
  "read_gateway_identity j =
     Option.bind (struct_fields [(''gateway_id'', False), (''org_id'', False), (''secret'', False)] j) (\<lambda>ms.
     Option.bind (field json_as_str ms ''gateway_id'') (\<lambda>gid.
     Option.bind (field json_as_str ms ''org_id'') (\<lambda>org.
     Option.bind (field json_as_str ms ''secret'') (\<lambda>secret.
       Some \<lparr>gi_gateway_id = gid, gi_org_id = org, gi_secret = secret\<rparr>))))"

record register_request =
  rr_registration_token :: string
  rr_name :: string
  rr_labels :: "(string \<times> string) list"

definition register_json :: "register_request \<Rightarrow> json" where
  "register_json r = JObject ([(''registration_token'', JString (rr_registration_token r)), (''name'', JString (rr_name r))] @
     map_field ''labels'' JString (rr_labels r))"

definition read_register_request :: "json \<Rightarrow> register_request option" where
  "read_register_request j =
     Option.bind (struct_fields [(''registration_token'', False), (''name'', False), (''labels'', True)] j) (\<lambda>ms.
     Option.bind (field json_as_str ms ''registration_token'') (\<lambda>token.
     Option.bind (field json_as_str ms ''name'') (\<lambda>name.
     Option.bind (field_or [] (json_map json_as_str) ms ''labels'') (\<lambda>labels.
       Some \<lparr>rr_registration_token = token, rr_name = name, rr_labels = labels\<rparr>))))"

text \<open>The response of a registration has the fields of the identity; a platform gateway's has no organisation.\<close>

record platform_registered =
  pr_gateway_id :: string
  pr_secret :: string

definition platform_registered_json :: "platform_registered \<Rightarrow> json" where
  "platform_registered_json r = JObject [(''gateway_id'', JString (pr_gateway_id r)), (''secret'', JString (pr_secret r))]"

definition read_platform_registered :: "json \<Rightarrow> platform_registered option" where
  "read_platform_registered j =
     Option.bind (struct_fields [(''gateway_id'', False), (''secret'', False)] j) (\<lambda>ms.
     Option.bind (field json_as_str ms ''gateway_id'') (\<lambda>gid.
     Option.bind (field json_as_str ms ''secret'') (\<lambda>secret.
       Some \<lparr>pr_gateway_id = gid, pr_secret = secret\<rparr>)))"

subsection \<open>Policy, tenants and signing keys\<close>

definition policy_document_json :: "policy_document \<Rightarrow> json" where
  "policy_document_json d = JObject [(''name'', JString (pd_name d)), (''text'', JString (pd_text d))]"

definition read_policy_document :: "json \<Rightarrow> policy_document option" where
  "read_policy_document j =
     Option.bind (struct_fields [(''name'', False), (''text'', False)] j) (\<lambda>ms.
     Option.bind (field json_as_str ms ''name'') (\<lambda>name.
     Option.bind (field json_as_str ms ''text'') (\<lambda>txt.
       Some \<lparr>pd_name = name, pd_text = txt\<rparr>)))"

text \<open>A policy response and a tenant's policy have the same two fields.\<close>

definition policy_response_json :: "tenant_policy \<Rightarrow> json" where
  "policy_response_json p = JObject [(''version'', u64_json (tp_version p)),
     (''documents'', JArray (map policy_document_json (tp_documents p)))]"

definition read_policy_response :: "json \<Rightarrow> tenant_policy option" where
  "read_policy_response j =
     Option.bind (struct_fields [(''version'', False), (''documents'', False)] j) (\<lambda>ms.
     Option.bind (field json_u64 ms ''version'') (\<lambda>version.
     Option.bind (field (json_list read_policy_document) ms ''documents'') (\<lambda>documents.
       Some \<lparr>tp_version = version, tp_documents = documents\<rparr>)))"

definition signing_key_json :: "signing_key \<Rightarrow> json" where
  "signing_key_json k = JObject ([(''org_id'', JString (sk_org_id k)), (''algorithm'', JString (sk_algorithm k)),
     (''public_key_b64'', JString (sk_public_key_b64 k))] @
     opt_field ''previous_public_key_b64'' JString (sk_previous_public_key_b64 k))"

definition read_signing_key :: "json \<Rightarrow> signing_key option" where
  "read_signing_key j =
     Option.bind (struct_fields [(''org_id'', False), (''algorithm'', False), (''public_key_b64'', False),
       (''previous_public_key_b64'', True)] j) (\<lambda>ms.
     Option.bind (field json_as_str ms ''org_id'') (\<lambda>org.
     Option.bind (field json_as_str ms ''algorithm'') (\<lambda>alg.
     Option.bind (field json_as_str ms ''public_key_b64'') (\<lambda>key.
     Option.bind (field_opt json_as_str ms ''previous_public_key_b64'') (\<lambda>prev.
       Some \<lparr>sk_org_id = org, sk_algorithm = alg, sk_public_key_b64 = key, sk_previous_public_key_b64 = prev\<rparr>)))))"

definition tenant_json :: "wire_tenant \<Rightarrow> json" where
  "tenant_json t = JObject ([(''org_id'', JString (wt_org_id t)), (''slug'', JString (wt_slug t)),
       (''owners'', JArray (map JString (wt_owners t)))] @ map_field ''owner_ids'' u64_json (wt_owner_ids t) @
     [(''policy'', opt_json policy_response_json (wt_policy t)), (''signing_key'', signing_key_json (wt_signing_key t))])"

definition read_tenant :: "json \<Rightarrow> wire_tenant option" where
  "read_tenant j =
     Option.bind (struct_fields [(''org_id'', False), (''slug'', False), (''owners'', False), (''owner_ids'', True),
       (''policy'', False), (''signing_key'', False)] j) (\<lambda>ms.
     Option.bind (field json_as_str ms ''org_id'') (\<lambda>org.
     Option.bind (field json_as_str ms ''slug'') (\<lambda>slug.
     Option.bind (field (json_list json_as_str) ms ''owners'') (\<lambda>owners.
     Option.bind (field_or [] (json_map json_u64) ms ''owner_ids'') (\<lambda>owner_ids.
     Option.bind (field_opt read_policy_response ms ''policy'') (\<lambda>policy.
     Option.bind (field read_signing_key ms ''signing_key'') (\<lambda>key.
       Some \<lparr>wt_org_id = org, wt_slug = slug, wt_owners = owners, wt_owner_ids = owner_ids, wt_policy = policy,
         wt_signing_key = key\<rparr>)))))))"

definition tenant_list_json :: "tenant_list \<Rightarrow> json" where
  "tenant_list_json l = JObject [(''version'', u64_json (tls_version l)),
     (''tenants'', JArray (map tenant_json (tls_tenants l)))]"

definition read_tenant_list :: "json \<Rightarrow> tenant_list option" where
  "read_tenant_list j =
     Option.bind (struct_fields [(''version'', False), (''tenants'', False)] j) (\<lambda>ms.
     Option.bind (field json_u64 ms ''version'') (\<lambda>version.
     Option.bind (field (json_list read_tenant) ms ''tenants'') (\<lambda>tenants.
       Some \<lparr>tls_version = version, tls_tenants = tenants\<rparr>)))"

subsection \<open>Revoked sessions\<close>

record revoked_session =
  rs_sid :: string
  rs_expires_at_ms :: u64

record revocations_response =
  rp_generation :: u64
  rp_revoked :: "revoked_session list"

definition revoked_session_json :: "revoked_session \<Rightarrow> json" where
  "revoked_session_json s = JObject [(''sid'', JString (rs_sid s)), (''expires_at_ms'', u64_json (rs_expires_at_ms s))]"

definition read_revoked_session :: "json \<Rightarrow> revoked_session option" where
  "read_revoked_session j =
     Option.bind (struct_fields [(''sid'', False), (''expires_at_ms'', False)] j) (\<lambda>ms.
     Option.bind (field json_as_str ms ''sid'') (\<lambda>sid.
     Option.bind (field json_u64 ms ''expires_at_ms'') (\<lambda>at_ms.
       Some \<lparr>rs_sid = sid, rs_expires_at_ms = at_ms\<rparr>)))"

definition revocations_json :: "revocations_response \<Rightarrow> json" where
  "revocations_json r = JObject [(''generation'', u64_json (rp_generation r)),
     (''revoked'', JArray (map revoked_session_json (rp_revoked r)))]"

definition read_revocations :: "json \<Rightarrow> revocations_response option" where
  "read_revocations j =
     Option.bind (struct_fields [(''generation'', False), (''revoked'', False)] j) (\<lambda>ms.
     Option.bind (field json_u64 ms ''generation'') (\<lambda>generation.
     Option.bind (field (json_list read_revoked_session) ms ''revoked'') (\<lambda>revoked.
       Some \<lparr>rp_generation = generation, rp_revoked = revoked\<rparr>)))"

subsection \<open>Heartbeats and labels\<close>

definition usage_json :: "usage_snapshot \<Rightarrow> json" where
  "usage_json u = JObject [(''tunnels_opened'', u64_json (um_tunnels_opened u)),
     (''bytes_to_target'', u64_json (um_bytes_to_target u)), (''bytes_to_client'', u64_json (um_bytes_to_client u))]"

definition read_usage :: "json \<Rightarrow> usage_snapshot option" where
  "read_usage j =
     Option.bind (struct_fields [(''tunnels_opened'', False), (''bytes_to_target'', False), (''bytes_to_client'', False)] j) (\<lambda>ms.
     Option.bind (field json_u64 ms ''tunnels_opened'') (\<lambda>opened.
     Option.bind (field json_u64 ms ''bytes_to_target'') (\<lambda>to_target.
     Option.bind (field json_u64 ms ''bytes_to_client'') (\<lambda>to_client.
       Some \<lparr>um_tunnels_opened = opened, um_bytes_to_target = to_target, um_bytes_to_client = to_client\<rparr>))))"

record heartbeat_request =
  hb_status :: string
  hb_policy_version :: "u64 option"
  hb_usage :: "usage_snapshot option"

definition heartbeat_json :: "heartbeat_request \<Rightarrow> json" where
  "heartbeat_json h = JObject ([(''status'', JString (hb_status h)),
     (''policy_version'', opt_json u64_json (hb_policy_version h))] @ opt_field ''usage'' usage_json (hb_usage h))"

definition read_heartbeat :: "json \<Rightarrow> heartbeat_request option" where
  "read_heartbeat j =
     Option.bind (struct_fields [(''status'', False), (''policy_version'', False), (''usage'', True)] j) (\<lambda>ms.
     Option.bind (field json_as_str ms ''status'') (\<lambda>status.
     Option.bind (field_opt json_u64 ms ''policy_version'') (\<lambda>version.
     Option.bind (field_opt read_usage ms ''usage'') (\<lambda>usage.
       Some \<lparr>hb_status = status, hb_policy_version = version, hb_usage = usage\<rparr>))))"

definition platform_heartbeat_json :: "platform_heartbeat \<Rightarrow> json" where
  "platform_heartbeat_json h = JObject ([(''status'', JString (ph_status h))] @
     opt_field ''tenants_version'' u64_json (ph_tenants_version h) @ map_field ''usage_by_org'' usage_json (ph_usage_by_org h))"

definition read_platform_heartbeat :: "json \<Rightarrow> platform_heartbeat option" where
  "read_platform_heartbeat j =
     Option.bind (struct_fields [(''status'', False), (''tenants_version'', True), (''usage_by_org'', True)] j) (\<lambda>ms.
     Option.bind (field json_as_str ms ''status'') (\<lambda>status.
     Option.bind (field_opt json_u64 ms ''tenants_version'') (\<lambda>version.
     Option.bind (field_or [] (json_map read_usage) ms ''usage_by_org'') (\<lambda>usage.
       Some \<lparr>ph_status = status, ph_tenants_version = version, ph_usage_by_org = usage\<rparr>))))"

definition labels_json :: "(string \<times> string) list \<Rightarrow> json" where
  "labels_json labels = JObject [(''labels'', map_json JString labels)]"

definition read_labels :: "json \<Rightarrow> (string \<times> string) list option" where
  "read_labels j =
     Option.bind (struct_fields [(''labels'', False)] j) (\<lambda>ms. field (json_map json_as_str) ms ''labels'')"

subsection \<open>Credentials\<close>

text \<open>Lifetimes are whole seconds.\<close>

definition secs_json :: "nat \<Rightarrow> json" where
  "secs_json n = u64_json (of_nat n)"

definition json_secs :: "json \<Rightarrow> nat option" where
  "json_secs j = map_option unat (json_u64 j)"

definition identity_fields :: "(string \<times> bool) list" where
  "identity_fields = map (\<lambda>n. (n, True)) [''organization'', ''repository'', ''workflow'', ''git_ref'', ''environment'',
     ''actor'', ''kind'', ''run_id'', ''runtime'', ''sid'']"

definition read_workload :: "('j, 'w, 'k, 'e) jwt \<Rightarrow> json \<Rightarrow> workload_identity option" where
  "read_workload lib j = Option.bind (struct_fields identity_fields j) (read_identity lib)"

definition mint_request_json :: "gateway_mint_request \<Rightarrow> json" where
  "mint_request_json r = JObject ([(''identity'', JObject (identity_members (gm_identity r)))] @
     opt_field ''subject'' JString (gm_subject r) @ [(''ttl_seconds'', secs_json (gm_ttl_seconds r))])"

definition read_mint_request :: "('j, 'w, 'k, 'e) jwt \<Rightarrow> json \<Rightarrow> gateway_mint_request option" where
  "read_mint_request lib j =
     Option.bind (struct_fields [(''identity'', False), (''subject'', True), (''ttl_seconds'', False)] j) (\<lambda>ms.
     Option.bind (field (read_workload lib) ms ''identity'') (\<lambda>identity.
     Option.bind (field_opt json_as_str ms ''subject'') (\<lambda>subject.
     Option.bind (field json_secs ms ''ttl_seconds'') (\<lambda>ttl.
       Some \<lparr>gm_identity = identity, gm_subject = subject, gm_ttl_seconds = ttl\<rparr>))))"

definition platform_mint_json :: "mint_request \<Rightarrow> json" where
  "platform_mint_json r = JObject ([(''org_id'', JString (mr_org_id r)),
       (''identity'', JObject (identity_members (mr_identity r)))] @
     opt_field ''subject'' JString (mr_subject r) @ opt_field ''owner_id'' u64_json (mr_owner_id r) @
     [(''ttl_seconds'', secs_json (mr_ttl_seconds r))])"

definition read_platform_mint :: "('j, 'w, 'k, 'e) jwt \<Rightarrow> json \<Rightarrow> mint_request option" where
  "read_platform_mint lib j =
     Option.bind (struct_fields [(''org_id'', False), (''identity'', False), (''subject'', True), (''owner_id'', True),
       (''ttl_seconds'', False)] j) (\<lambda>ms.
     Option.bind (field json_as_str ms ''org_id'') (\<lambda>org.
     Option.bind (field (read_workload lib) ms ''identity'') (\<lambda>identity.
     Option.bind (field_opt json_as_str ms ''subject'') (\<lambda>subject.
     Option.bind (field_opt json_u64 ms ''owner_id'') (\<lambda>owner.
     Option.bind (field json_secs ms ''ttl_seconds'') (\<lambda>ttl.
       Some \<lparr>mr_org_id = org, mr_identity = identity, mr_subject = subject, mr_owner_id = owner, mr_ttl_seconds = ttl\<rparr>))))))"

definition mint_response_json :: "issued \<Rightarrow> json" where
  "mint_response_json r = JObject [(''credential'', JString (is_token r)), (''expires_in'', secs_json (is_expires_in r))]"

definition read_mint_response :: "json \<Rightarrow> issued option" where
  "read_mint_response j =
     Option.bind (struct_fields [(''credential'', False), (''expires_in'', False)] j) (\<lambda>ms.
     Option.bind (field json_as_str ms ''credential'') (\<lambda>token.
     Option.bind (field json_secs ms ''expires_in'') (\<lambda>ttl.
       Some \<lparr>is_token = token, is_expires_in = ttl\<rparr>)))"

definition developer_credential_json :: "nat option \<Rightarrow> json" where
  "developer_credential_json ttl = JObject (opt_field ''ttl_seconds'' secs_json ttl)"

definition read_developer_credential :: "json \<Rightarrow> nat option option" where
  "read_developer_credential j =
     Option.bind (struct_fields [(''ttl_seconds'', True)] j) (\<lambda>ms. field_opt json_secs ms ''ttl_seconds'')"

record refusal_body =
  rf_code :: string
  rf_message :: string

definition refusal_json :: "refusal_body \<Rightarrow> json" where
  "refusal_json r = JObject [(''code'', JString (rf_code r)), (''message'', JString (rf_message r))]"

definition read_refusal :: "json \<Rightarrow> refusal_body option" where
  "read_refusal j =
     Option.bind (struct_fields [(''code'', False), (''message'', False)] j) (\<lambda>ms.
     Option.bind (field json_as_str ms ''code'') (\<lambda>code.
     Option.bind (field json_as_str ms ''message'') (\<lambda>message.
       Some \<lparr>rf_code = code, rf_message = message\<rparr>)))"

subsection \<open>Agent sessions\<close>

record agent_session_request =
  as_ttl_seconds :: "nat option"
  as_run_id :: "string option"
  as_runtime :: "string option"
  as_parent :: "string option"

definition agent_session_json :: "agent_session_request \<Rightarrow> json" where
  "agent_session_json r = JObject (opt_field ''ttl_seconds'' secs_json (as_ttl_seconds r) @
     opt_field ''run_id'' JString (as_run_id r) @ opt_field ''runtime'' JString (as_runtime r) @
     opt_field ''parent'' JString (as_parent r))"

definition read_agent_session_request :: "json \<Rightarrow> agent_session_request option" where
  "read_agent_session_request j =
     Option.bind (struct_fields [(''ttl_seconds'', True), (''run_id'', True), (''runtime'', True), (''parent'', True)] j) (\<lambda>ms.
     Option.bind (field_opt json_secs ms ''ttl_seconds'') (\<lambda>ttl.
     Option.bind (field_opt json_as_str ms ''run_id'') (\<lambda>run.
     Option.bind (field_opt json_as_str ms ''runtime'') (\<lambda>runtime.
     Option.bind (field_opt json_as_str ms ''parent'') (\<lambda>parent.
       Some \<lparr>as_ttl_seconds = ttl, as_run_id = run, as_runtime = runtime, as_parent = parent\<rparr>)))))"

record agent_session =
  ag_session_id :: string
  ag_credential :: string
  ag_expires_in :: nat
  ag_expires_at_ms :: u64

definition agent_session_response_json :: "agent_session \<Rightarrow> json" where
  "agent_session_response_json r = JObject [(''session_id'', JString (ag_session_id r)),
     (''credential'', JString (ag_credential r)), (''expires_in'', secs_json (ag_expires_in r)),
     (''expires_at_ms'', u64_json (ag_expires_at_ms r))]"

definition read_agent_session :: "json \<Rightarrow> agent_session option" where
  "read_agent_session j =
     Option.bind (struct_fields [(''session_id'', False), (''credential'', False), (''expires_in'', False),
       (''expires_at_ms'', False)] j) (\<lambda>ms.
     Option.bind (field json_as_str ms ''session_id'') (\<lambda>sid.
     Option.bind (field json_as_str ms ''credential'') (\<lambda>credential.
     Option.bind (field json_secs ms ''expires_in'') (\<lambda>ttl.
     Option.bind (field json_u64 ms ''expires_at_ms'') (\<lambda>at_ms.
       Some \<lparr>ag_session_id = sid, ag_credential = credential, ag_expires_in = ttl, ag_expires_at_ms = at_ms\<rparr>)))))"

record agent_session_view =
  av_id :: string
  av_initiator :: string
  av_run_id :: "string option"
  av_runtime :: "string option"
  av_parent :: "string option"
  av_created_at_ms :: u64
  av_expires_at_ms :: u64
  av_ended_at_ms :: "u64 option"

definition agent_session_view_json :: "agent_session_view \<Rightarrow> json" where
  "agent_session_view_json v = JObject ([(''id'', JString (av_id v)), (''initiator'', JString (av_initiator v))] @
     opt_field ''run_id'' JString (av_run_id v) @ opt_field ''runtime'' JString (av_runtime v) @
     opt_field ''parent'' JString (av_parent v) @
     [(''created_at_ms'', u64_json (av_created_at_ms v)), (''expires_at_ms'', u64_json (av_expires_at_ms v))] @
     opt_field ''ended_at_ms'' u64_json (av_ended_at_ms v))"

definition read_agent_session_view :: "json \<Rightarrow> agent_session_view option" where
  "read_agent_session_view j =
     Option.bind (struct_fields [(''id'', False), (''initiator'', False), (''run_id'', True), (''runtime'', True),
       (''parent'', True), (''created_at_ms'', False), (''expires_at_ms'', False), (''ended_at_ms'', True)] j) (\<lambda>ms.
     Option.bind (field json_as_str ms ''id'') (\<lambda>vid.
     Option.bind (field json_as_str ms ''initiator'') (\<lambda>initiator.
     Option.bind (field_opt json_as_str ms ''run_id'') (\<lambda>run.
     Option.bind (field_opt json_as_str ms ''runtime'') (\<lambda>runtime.
     Option.bind (field_opt json_as_str ms ''parent'') (\<lambda>parent.
     Option.bind (field json_u64 ms ''created_at_ms'') (\<lambda>created.
     Option.bind (field json_u64 ms ''expires_at_ms'') (\<lambda>expires.
     Option.bind (field_opt json_u64 ms ''ended_at_ms'') (\<lambda>ended.
       Some \<lparr>av_id = vid, av_initiator = initiator, av_run_id = run, av_runtime = runtime, av_parent = parent,
         av_created_at_ms = created, av_expires_at_ms = expires, av_ended_at_ms = ended\<rparr>)))))))))"

record ended_session =
  es_session_id :: string
  es_ended_at_ms :: u64
  es_also_ended :: "string list"

definition ended_session_json :: "ended_session \<Rightarrow> json" where
  "ended_session_json e = JObject [(''session_id'', JString (es_session_id e)), (''ended_at_ms'', u64_json (es_ended_at_ms e)),
     (''also_ended'', JArray (map JString (es_also_ended e)))]"

definition read_ended_session :: "json \<Rightarrow> ended_session option" where
  "read_ended_session j =
     Option.bind (struct_fields [(''session_id'', False), (''ended_at_ms'', False), (''also_ended'', True)] j) (\<lambda>ms.
     Option.bind (field json_as_str ms ''session_id'') (\<lambda>sid.
     Option.bind (field json_u64 ms ''ended_at_ms'') (\<lambda>at_ms.
     Option.bind (field_or [] (json_list json_as_str) ms ''also_ended'') (\<lambda>also_ended.
       Some \<lparr>es_session_id = sid, es_ended_at_ms = at_ms, es_also_ended = also_ended\<rparr>))))"

subsection \<open>The audit trail\<close>

definition audit_head_json :: "audit_head \<Rightarrow> json" where
  "audit_head_json h = JObject [(''seq'', u64_json (ah_seq h)), (''hash'', JString (ah_hash h))]"

definition read_audit_head :: "json \<Rightarrow> audit_head option" where
  "read_audit_head j =
     Option.bind (struct_fields [(''seq'', False), (''hash'', False)] j) (\<lambda>ms.
     Option.bind (field json_u64 ms ''seq'') (\<lambda>sq.
     Option.bind (field json_as_str ms ''hash'') (\<lambda>hash.
       Some \<lparr>ah_seq = sq, ah_hash = hash\<rparr>)))"

definition chained_event_json :: "chained_event \<Rightarrow> json" where
  "chained_event_json e = JObject [(''seq'', u64_json (ce_seq e)), (''prev_hash'', JString (ce_prev_hash e)),
     (''event_json'', JString (ce_event_json e))]"

definition read_chained_event :: "json \<Rightarrow> chained_event option" where
  "read_chained_event j =
     Option.bind (struct_fields [(''seq'', False), (''prev_hash'', False), (''event_json'', False)] j) (\<lambda>ms.
     Option.bind (field json_u64 ms ''seq'') (\<lambda>sq.
     Option.bind (field json_as_str ms ''prev_hash'') (\<lambda>prev.
     Option.bind (field json_as_str ms ''event_json'') (\<lambda>event.
       Some \<lparr>ce_seq = sq, ce_prev_hash = prev, ce_event_json = event\<rparr>))))"

definition platform_event_json :: "platform_audit_event \<Rightarrow> json" where
  "platform_event_json e = JObject [(''org_id'', JString (pa_org_id e)), (''seq'', u64_json (pa_seq e)),
     (''prev_hash'', JString (pa_prev_hash e)), (''event_json'', JString (pa_event_json e))]"

definition read_platform_event :: "json \<Rightarrow> platform_audit_event option" where
  "read_platform_event j =
     Option.bind (struct_fields [(''org_id'', False), (''seq'', False), (''prev_hash'', False), (''event_json'', False)] j) (\<lambda>ms.
     Option.bind (field json_as_str ms ''org_id'') (\<lambda>org.
     Option.bind (field json_u64 ms ''seq'') (\<lambda>sq.
     Option.bind (field json_as_str ms ''prev_hash'') (\<lambda>prev.
     Option.bind (field json_as_str ms ''event_json'') (\<lambda>event.
       Some \<lparr>pa_org_id = org, pa_seq = sq, pa_prev_hash = prev, pa_event_json = event\<rparr>)))))"

definition ship_audit_json :: "('e \<Rightarrow> json) \<Rightarrow> 'e list \<Rightarrow> json" where
  "ship_audit_json f events = JObject [(''events'', JArray (map f events))]"

definition read_ship_audit :: "(json \<Rightarrow> 'e option) \<Rightarrow> json \<Rightarrow> 'e list option" where
  "read_ship_audit f j = Option.bind (struct_fields [(''events'', False)] j) (\<lambda>ms. field (json_list f) ms ''events'')"

definition ship_response_json :: "u64 \<Rightarrow> json" where
  "ship_response_json head_seq = JObject [(''head_seq'', u64_json head_seq)]"

definition read_ship_response :: "json \<Rightarrow> u64 option" where
  "read_ship_response j = Option.bind (struct_fields [(''head_seq'', False)] j) (\<lambda>ms. field json_u64 ms ''head_seq'')"

subsection \<open>Every message is read back as it was written\<close>

lemmas readers = struct_fields_def field_def field_or_def field_counts json_strings json_u64_json

lemma field_opt_member:
  "map_of ms name = map_option JString v \<Longrightarrow> field_opt json_as_str ms name = Some v"
  "map_of ms name = map_option u64_json w \<Longrightarrow> field_opt json_u64 ms name = Some w"
  by (cases v; simp add: field_opt_def) (cases w; simp add: field_opt_def)

lemma json_secs_json: "n < 2 ^ 64 \<Longrightarrow> json_secs (secs_json n) = Some n"
  by (simp add: json_secs_def secs_json_def unsigned_of_nat take_bit_nat_eq_self)

lemma field_opt_secs:
  "map_of ms name = map_option secs_json v \<Longrightarrow> pred_option (\<lambda>n. n < 2 ^ 64) v \<Longrightarrow> field_opt json_secs ms name = Some v"
  by (cases v) (simp_all add: field_opt_def json_secs_json, simp add: secs_json_def)

abbreviation any_message :: "'m \<Rightarrow> bool" where
  "any_message \<equiv> \<lambda>_. True"

interpretation identity_wire: json_message identity_json read_gateway_identity any_message
  by unfold_locales (simp del: map_of_append filter_append add: identity_json_def read_gateway_identity_def readers)

interpretation register_wire: json_message register_json read_register_request "\<lambda>r. btree_ok (rr_labels r)"
  by unfold_locales (simp del: map_of_append filter_append add: register_json_def read_register_request_def readers json_map_json list_all_iff)

interpretation platform_registered_wire: json_message platform_registered_json read_platform_registered any_message
  by unfold_locales (simp del: map_of_append filter_append add: platform_registered_json_def read_platform_registered_def readers)

interpretation policy_document_wire: json_message policy_document_json read_policy_document any_message
  by unfold_locales (simp del: map_of_append filter_append add: policy_document_json_def read_policy_document_def readers)

interpretation policy_response_wire: json_message policy_response_json read_policy_response any_message
  by unfold_locales (simp del: map_of_append filter_append add: policy_response_json_def read_policy_response_def readers
      policy_document_wire.list_reads_back list_all_iff)

interpretation signing_key_wire: json_message signing_key_json read_signing_key any_message
  by unfold_locales (simp del: map_of_append filter_append add: signing_key_json_def read_signing_key_def readers field_opt_member(1))

lemma field_opt_json:
  "map_of ms name = Some (opt_json f v) \<Longrightarrow> pred_option (\<lambda>x. g (f x) = Some x \<and> f x \<noteq> JNull) v \<Longrightarrow>
     field_opt g ms name = Some v"
  by (cases v) (simp_all add: field_opt_def opt_json_def)

lemma policy_response_not_null [simp]: "policy_response_json p \<noteq> JNull"
  by (simp add: policy_response_json_def)

lemma usage_not_null [simp]: "usage_json u \<noteq> JNull"
  by (simp add: usage_json_def)

interpretation tenant_wire: json_message tenant_json read_tenant "\<lambda>t. btree_ok (wt_owner_ids t)"
proof (unfold_locales, goal_cases)
  case (1 t)
  have p: "field_opt read_policy_response ms ''policy'' = Some (wt_policy t)"
    if "map_of ms ''policy'' = Some (opt_json policy_response_json (wt_policy t))" for ms
    by (rule field_opt_json [OF that]) (simp add: policy_response_wire.reads_back pred_option_def)
  show ?case
    using 1 by (simp del: map_of_append filter_append add: tenant_json_def read_tenant_def readers p signing_key_wire.reads_back json_map_json list_all_iff)
qed

interpretation tenant_list_wire: json_message tenant_list_json read_tenant_list
  "\<lambda>l. list_all (\<lambda>t. btree_ok (wt_owner_ids t)) (tls_tenants l)"
  by unfold_locales (simp del: map_of_append filter_append add: tenant_list_json_def read_tenant_list_def readers tenant_wire.list_reads_back)

interpretation revoked_session_wire: json_message revoked_session_json read_revoked_session any_message
  by unfold_locales (simp del: map_of_append filter_append add: revoked_session_json_def read_revoked_session_def readers)

interpretation revocations_wire: json_message revocations_json read_revocations any_message
  by unfold_locales (simp del: map_of_append filter_append add: revocations_json_def read_revocations_def readers revoked_session_wire.list_reads_back list_all_iff)

interpretation usage_wire: json_message usage_json read_usage any_message
  by unfold_locales (simp del: map_of_append filter_append add: usage_json_def read_usage_def readers)

interpretation heartbeat_wire: json_message heartbeat_json read_heartbeat any_message
proof (unfold_locales, goal_cases)
  case (1 h)
  have v: "field_opt json_u64 ms ''policy_version'' = Some (hb_policy_version h)"
    if "map_of ms ''policy_version'' = Some (opt_json u64_json (hb_policy_version h))" for ms
    by (rule field_opt_json [OF that]) (simp add: pred_option_def)
  have u: "field_opt read_usage ms ''usage'' = Some (hb_usage h)"
    if "map_of ms ''usage'' = map_option usage_json (hb_usage h)" for ms
    by (rule field_opt_written [OF that]) (simp add: usage_wire.reads_back pred_option_def)
  show ?case by (simp del: map_of_append filter_append add: heartbeat_json_def read_heartbeat_def readers v u)
qed

interpretation platform_heartbeat_wire: json_message platform_heartbeat_json read_platform_heartbeat
  "\<lambda>h. btree_ok (ph_usage_by_org h)"
proof (unfold_locales, goal_cases)
  case (1 h)
  then show ?case
    by (cases "ph_tenants_version h") (simp_all del: map_of_append filter_append
        add: platform_heartbeat_json_def read_platform_heartbeat_def readers opt_field_def field_opt_def
        json_map_json usage_wire.reads_back list_all_iff)
qed

interpretation labels_wire: json_message labels_json read_labels btree_ok
  by unfold_locales (simp del: map_of_append filter_append add: labels_json_def read_labels_def readers json_map_json list_all_iff)

interpretation mint_response_wire: json_message mint_response_json read_mint_response "\<lambda>r. is_expires_in r < 2 ^ 64"
  by unfold_locales (simp del: map_of_append filter_append add: mint_response_json_def read_mint_response_def readers json_secs_json)

interpretation developer_credential_wire: json_message developer_credential_json read_developer_credential
  "pred_option (\<lambda>n. n < 2 ^ 64)"
  by unfold_locales (simp del: map_of_append filter_append add: developer_credential_json_def read_developer_credential_def readers field_opt_secs)

interpretation refusal_wire: json_message refusal_json read_refusal any_message
  by unfold_locales (simp del: map_of_append filter_append add: refusal_json_def read_refusal_def readers)

interpretation agent_session_request_wire: json_message agent_session_json read_agent_session_request
  "\<lambda>r. pred_option (\<lambda>n. n < 2 ^ 64) (as_ttl_seconds r)"
proof (unfold_locales, goal_cases)
  case (1 r)
  then show ?case
    by (cases "as_ttl_seconds r"; cases "as_run_id r"; cases "as_runtime r"; cases "as_parent r")
      (simp_all add: agent_session_json_def read_agent_session_request_def struct_fields_def opt_field_def field_opt_def
        json_secs_json, simp_all add: secs_json_def)
qed

interpretation agent_session_wire: json_message agent_session_response_json read_agent_session
  "\<lambda>r. ag_expires_in r < 2 ^ 64"
  by unfold_locales (simp del: map_of_append filter_append add: agent_session_response_json_def read_agent_session_def readers json_secs_json)

interpretation agent_session_view_wire: json_message agent_session_view_json read_agent_session_view any_message
proof (unfold_locales, goal_cases)
  case (1 v)
  show ?case
    by (cases "av_run_id v"; cases "av_runtime v"; cases "av_parent v"; cases "av_ended_at_ms v")
      (simp_all add: agent_session_view_json_def read_agent_session_view_def struct_fields_def opt_field_def field_opt_def
        field_def)
qed

interpretation ended_session_wire: json_message ended_session_json read_ended_session any_message
  by unfold_locales (simp del: map_of_append filter_append add: ended_session_json_def read_ended_session_def readers)

interpretation audit_head_wire: json_message audit_head_json read_audit_head any_message
  by unfold_locales (simp del: map_of_append filter_append add: audit_head_json_def read_audit_head_def readers)

interpretation chained_event_wire: json_message chained_event_json read_chained_event any_message
  by unfold_locales (simp del: map_of_append filter_append add: chained_event_json_def read_chained_event_def readers)

interpretation platform_event_wire: json_message platform_event_json read_platform_event any_message
  by unfold_locales (simp del: map_of_append filter_append add: platform_event_json_def read_platform_event_def readers)

interpretation ship_audit_wire: json_message "ship_audit_json chained_event_json" "read_ship_audit read_chained_event" any_message
  by unfold_locales (simp del: map_of_append filter_append add: ship_audit_json_def read_ship_audit_def readers chained_event_wire.list_reads_back list_all_iff)

interpretation ship_platform_wire: json_message "ship_audit_json platform_event_json" "read_ship_audit read_platform_event" any_message
  by unfold_locales (simp del: map_of_append filter_append add: ship_audit_json_def read_ship_audit_def readers platform_event_wire.list_reads_back list_all_iff)

interpretation ship_response_wire: json_message ship_response_json read_ship_response any_message
  by unfold_locales (simp del: map_of_append filter_append add: ship_response_json_def read_ship_response_def readers)

lemma identity_members_distinct:
  "\<not> list_ex (\<lambda>(name, _). 1 < length (filter (\<lambda>m. fst m = name) (identity_members i))) identity_fields"
  unfolding identity_members_def identity_fields_def by (simp add: member_simps del: filter_append)

lemma map_of_identity_members:
  "map_of (identity_members i) ''organization'' = map_option JString (wi_organization i)"
  "map_of (identity_members i) ''repository'' = map_option JString (wi_repository i)"
  "map_of (identity_members i) ''workflow'' = map_option JString (wi_workflow i)"
  "map_of (identity_members i) ''git_ref'' = map_option JString (wi_git_ref i)"
  "map_of (identity_members i) ''environment'' = map_option JString (wi_environment i)"
  "map_of (identity_members i) ''actor'' = map_option JString (wi_actor i)"
  "map_of (identity_members i) ''kind'' = map_option (\<lambda>k. JString (kind_as_str k)) (wi_kind i)"
  "map_of (identity_members i) ''run_id'' = map_option JString (wi_run_id i)"
  "map_of (identity_members i) ''runtime'' = map_option JString (wi_runtime i)"
  "map_of (identity_members i) ''sid'' = map_option JString (wi_sid i)"
  by (auto simp: identity_members_def member_simps option.map_comp comp_def simp del: map_of_append split: option.split)

lemma read_workload_members:
  assumes "jwt_names lib"
  shows "read_workload lib (JObject (identity_members i)) = Some i"
proof -
  have "struct_fields identity_fields (JObject (identity_members i)) = Some (identity_members i)"
    using identity_members_distinct [of i] by (simp add: struct_fields_def)
  then show ?thesis
    using assms by (simp add: read_workload_def read_identity_def read_opt_kind_member
        map_of_identity_members(1-6,8-10) [THEN read_opt_string_member] map_of_identity_members(7))
qed

text \<open>
  What a gateway asks for is what the control plane reads. A mint request, of the gateway's own
  organisation or of a tenant, is read back from its JSON with the same identity, field by field, the same
  subject, owner id and lifetime, for every lifetime that fits 64 bits; the token library's reading of a
  variant name is the hypothesis.
\<close>

theorem mint_requests_cross_the_wire:
  assumes "jwt_names lib" "gm_ttl_seconds g < 2 ^ 64" "mr_ttl_seconds r < 2 ^ 64"
  shows "read_mint_request lib (mint_request_json g) = Some g \<and> read_platform_mint lib (platform_mint_json r) = Some r"
proof
  show "read_mint_request lib (mint_request_json g) = Some g"
    using assms(2) by (cases "gm_subject g") (simp_all add: mint_request_json_def read_mint_request_def struct_fields_def
        opt_field_def field_opt_def field_def json_secs_json read_workload_members [OF assms(1)])
  show "read_platform_mint lib (platform_mint_json r) = Some r"
    using assms(3) by (cases "mr_subject r"; cases "mr_owner_id r") (simp_all add: platform_mint_json_def
        read_platform_mint_def struct_fields_def opt_field_def field_opt_def field_def json_secs_json
        read_workload_members [OF assms(1)])
qed

text \<open>
  The tenants a platform gateway applies are the ones it was sent. A tenant list, with its policies,
  verified owners, owner ids and signing keys, is read back from its JSON unchanged, and two different lists
  never have the same JSON. A map of owner ids is in key order, as a \<^verbatim>\<open>BTreeMap\<close> always is.
\<close>

theorem tenant_list_crosses_the_wire:
  assumes "list_all (\<lambda>t. btree_ok (wt_owner_ids t)) (tls_tenants l)"
  shows "read_tenant_list (tenant_list_json l) = Some l \<and>
    (list_all (\<lambda>t. btree_ok (wt_owner_ids t)) (tls_tenants l') \<longrightarrow> tenant_list_json l = tenant_list_json l' \<longrightarrow> l = l')"
  using tenant_list_wire.reads_back [OF assms] tenant_list_wire.written_apart [OF assms] by blast

definition wire_workload :: workload_identity where
  "wire_workload = \<lparr>wi_organization = Some ''acme'', wi_repository = Some ''acme/api'', wi_workflow = None,
     wi_git_ref = Some ''refs/heads/main'', wi_environment = None, wi_actor = Some ''octocat'', wi_kind = Some Agent,
     wi_run_id = None, wi_runtime = None, wi_sid = Some ''ses_1''\<rparr>"

definition sample_names :: "(unit, unit, unit, unit) jwt" where
  "sample_names = \<lparr>jwt_decode_header = (\<lambda>_. Inl ''no''), jwt_find = (\<lambda>_ _. None), jwt_from_jwk = (\<lambda>_. Inl ''no''),
     jwt_decode = (\<lambda>_ _ _ _. Inl ''no''), jwt_encode = (\<lambda>_ _ _. Inl ''no''), jwt_payload = (\<lambda>_. None),
     jwt_unreadable = (\<lambda>_. ''no''), jwt_variant = json_as_str\<rparr>"

theorem mint_requests_cross_the_wire_witness:
  "jwt_names sample_names \<and>
   read_mint_request sample_names (mint_request_json \<lparr>gm_identity = wire_workload, gm_subject = None, gm_ttl_seconds = 3600\<rparr>) =
     Some \<lparr>gm_identity = wire_workload, gm_subject = None, gm_ttl_seconds = 3600\<rparr> \<and>
   read_platform_mint sample_names (platform_mint_json \<lparr>mr_org_id = ''org_1'', mr_identity = wire_workload,
       mr_subject = Some ''job'', mr_owner_id = Some 7, mr_ttl_seconds = 900\<rparr>) =
     Some \<lparr>mr_org_id = ''org_1'', mr_identity = wire_workload, mr_subject = Some ''job'', mr_owner_id = Some 7,
       mr_ttl_seconds = 900\<rparr>"
proof -
  have n: "jwt_names sample_names" by (simp add: jwt_names_def sample_names_def)
  show ?thesis
    using n mint_requests_cross_the_wire [OF n, of "\<lparr>gm_identity = wire_workload, gm_subject = None, gm_ttl_seconds = 3600\<rparr>"
        "\<lparr>mr_org_id = ''org_1'', mr_identity = wire_workload, mr_subject = Some ''job'', mr_owner_id = Some 7, mr_ttl_seconds = 900\<rparr>"]
    by simp
qed

definition sample_wire_list :: tenant_list where
  "sample_wire_list = \<lparr>tls_version = 4, tls_tenants = [\<lparr>wt_org_id = ''org_1'', wt_slug = ''acme'', wt_owners = [''acme''],
     wt_owner_ids = [(''acme'', 7), (''beta'', 9)], wt_policy = Some \<lparr>tp_version = 2, tp_documents = []\<rparr>,
     wt_signing_key = \<lparr>sk_org_id = ''org_1'', sk_algorithm = ''ed25519'', sk_public_key_b64 = ''k'',
       sk_previous_public_key_b64 = None\<rparr>\<rparr>]\<rparr>"

theorem tenant_list_crosses_the_wire_witness:
  "read_tenant_list (tenant_list_json sample_wire_list) = Some sample_wire_list \<and>
   tls_version sample_wire_list = 4"
proof -
  have "list_all (\<lambda>t. btree_ok (wt_owner_ids t)) (tls_tenants sample_wire_list)"
    by (simp add: sample_wire_list_def btree_ok_def char_code_def)
  from tenant_list_crosses_the_wire [OF this] show ?thesis by (simp add: sample_wire_list_def)
qed

end
