(* ===== verification/Client_Session.thy ===== *)
theory Client_Session
  imports Server_Request Gateway_Layers
begin

text \<open>
  Opening a gateway session from the command line (\<^verbatim>\<open>skimasque-cli/src/session.rs\<close>, with
  \<^verbatim>\<open>resolve_org\<close> of \<^verbatim>\<open>account.rs\<close> and \<^verbatim>\<open>normalize_base_url\<close> of \<^verbatim>\<open>lib.rs\<close>): the gateway's
  address, the credential and the loop that keeps it fresh, and the line a refused tunnel prints. Calls to
  the control plane, the exchange with the gateway and files are arguments. Durations are in nanoseconds.
\<close>

subsection \<open>Addresses\<close>

definition normalize_base_url :: "string \<Rightarrow> string" where
  "normalize_base_url addr =
     (let a = rev (dropWhile (\<lambda>c. c = CHR ''/'') (rev (str_trim addr)))
      in if str_contains ''://'' a then a else ''https://'' @ a)"

definition proxy_with_port :: "string \<Rightarrow> string" where
  "proxy_with_port spec =
     (if starts_with spec ''['' then (if ends_with spec '']'' then spec @ '':443'' else spec)
      else if parse_ipv6 spec \<noteq> None then ''['' @ spec @ '']:443''
      else (case rsplit_once_at (CHR '':'') spec of
              Some (_, port) \<Rightarrow> if parse_u16 port \<noteq> None then spec else spec @ '':443''
            | None \<Rightarrow> spec @ '':443''))"

text \<open>
  The host of a plain \<^verbatim>\<open>http://\<close> address, and the guard that keeps a sign-in session from crossing a
  network in the clear.
\<close>

definition url_host :: "string \<Rightarrow> string" where
  "url_host rest =
     (let authority = takeWhile (\<lambda>c. c \<notin> set ''/?#'') rest;
          host = (case rsplit_once_at (CHR ''@'') authority of Some (_, h) \<Rightarrow> h | None \<Rightarrow> authority)
      in case strip_prefix ''['' host of
           Some v6 \<Rightarrow> takeWhile (\<lambda>c. c \<noteq> CHR '']'') v6
         | None \<Rightarrow> (case rsplit_once_at (CHR '':'') host of Some (h, _) \<Rightarrow> h | None \<Rightarrow> host))"

definition ip_is_loopback :: "ip_addr \<Rightarrow> bool" where
  "ip_is_loopback ip = (case ip of V4 a \<Rightarrow> v4_is_loopback a | V6 a \<Rightarrow> v6_is_loopback a)"

definition loopback_host :: "string \<Rightarrow> bool" where
  "loopback_host host \<longleftrightarrow> eq_ignore_ascii_case host ''localhost'' \<or> ends_with (to_ascii_lowercase host) ''.localhost'' \<or>
     (case parse_ip host of None \<Rightarrow> False | Some ip \<Rightarrow> ip_is_loopback ip)"

definition require_secure_transport :: "string \<Rightarrow> string + unit" where
  "require_secure_transport base_url =
     (case strip_prefix ''http://'' base_url of
        None \<Rightarrow> Inr ()
      | Some rest \<Rightarrow>
          if loopback_host (url_host rest) then Inr ()
          else Inl (base_url @ '' is plain HTTP, which would send your sign-in session in the clear.          Use an '' @
                 ''https:// address (http:// is accepted only for localhost)''))"

record api =
  api_base_url :: string

text \<open>\<open>client_ok\<close>: the HTTP library could build its client.\<close>

definition api_new :: "bool \<Rightarrow> string \<Rightarrow> string + api" where
  "api_new client_ok base_url =
     (let base = normalize_base_url base_url
      in and_then (require_secure_transport base) (\<lambda>_.
           if client_ok then Inr \<lparr>api_base_url = base\<rparr> else Inl ''building the HTTP client''))"

subsection \<open>Credentials\<close>

record auth_args =
  aa_auth_token :: "string option"
  aa_auth_token_file :: "string option"
  aa_github_oidc :: bool
  aa_oidc_token :: "string option"
  aa_oidc_audience :: "string option"
  aa_org :: "string option"

datatype auth_mode = Mode_Oidc | Mode_Static | Mode_Session | Mode_None

definition auth_mode_of :: "auth_args \<Rightarrow> bool \<Rightarrow> auth_mode" where
  "auth_mode_of args has_session =
     (if aa_github_oidc args \<or> aa_oidc_token args \<noteq> None then Mode_Oidc
      else if aa_auth_token args \<noteq> None \<or> aa_auth_token_file args \<noteq> None then Mode_Static
      else if has_session then Mode_Session
      else Mode_None)"

text \<open>\<open>read\<close> reads a file as text.\<close>

definition static_token :: "(string \<Rightarrow> string option) \<Rightarrow> auth_args \<Rightarrow> string + string option" where
  "static_token read args =
     (case aa_auth_token_file args of
        Some path \<Rightarrow>
          (case read path of
             None \<Rightarrow> Inl (''reading the token file '' @ path)
           | Some t \<Rightarrow>
               (let token = str_trim t
                in if token = [] then Inl (''the token file '' @ path @ '' is empty'') else Inr (Some token)))
      | None \<Rightarrow> Inr (aa_auth_token args))"

record login_credentials =
  lc_control_plane :: string
  lc_session_token :: string
  lc_github_login :: string
  lc_user_id :: string

record org_view =
  ov_id :: string
  ov_name :: string

definition resolve_org_arg ::
  "(string \<Rightarrow> string + org_view list) \<Rightarrow> login_credentials \<Rightarrow> string option \<Rightarrow> string + string" where
  "resolve_org_arg list_orgs creds explicit =
     (case explicit of
        Some org \<Rightarrow> Inr org
      | None \<Rightarrow>
          and_then (list_orgs (lc_session_token creds)) (\<lambda>orgs.
            case orgs of
              [only] \<Rightarrow> Inr (ov_id only)
            | [] \<Rightarrow> Inl (''you are not a member of any organisation on '' @ lc_control_plane creds @
                  '' -- `skimasque org create <name>`'')
            | _ \<Rightarrow> Inl ''--org is required''))"

record client_credential =
  cl_token :: string
  cl_expires_in :: nat

text \<open>
  How a credential is renewed: through the gateway with an OIDC token, given or fetched for an audience, or
  from the login session for one organisation.
\<close>

datatype refresh_mode = Refresh_Oidc string "string option" | Refresh_Session login_credentials string

record session_env =
  se_id_token :: "string \<Rightarrow> string + string"
  se_exchange :: "string \<Rightarrow> string + client_credential"
  se_client :: bool
  se_mint :: "api \<Rightarrow> string \<Rightarrow> string \<Rightarrow> string + client_credential"
  se_list_orgs :: "api \<Rightarrow> string \<Rightarrow> string + org_view list"
  se_read :: "string \<Rightarrow> string option"

definition refresh_run :: "session_env \<Rightarrow> refresh_mode \<Rightarrow> string + client_credential" where
  "refresh_run env mode =
     (case mode of
        Refresh_Oidc audience given \<Rightarrow>
          and_then
            (case given of
               Some token \<Rightarrow> Inr token
             | None \<Rightarrow> map_err (\<lambda>_. ''fetching a GitHub Actions OIDC token'') (se_id_token env audience))
            (\<lambda>oidc. map_err (\<lambda>_. ''exchanging the OIDC token for a platform credential'') (se_exchange env oidc))
      | Refresh_Session creds org \<Rightarrow>
          and_then (api_new (se_client env) (lc_control_plane creds)) (\<lambda>api. se_mint env api (lc_session_token creds) org))"

record bearer =
  be_header :: "string option"
  be_refresh :: "(refresh_mode \<times> nat) option"
  be_login :: "(login_credentials \<times> string) option"

definition resolve_bearer ::
  "session_env \<Rightarrow> auth_args \<Rightarrow> string + login_credentials option \<Rightarrow> string + bearer" where
  "resolve_bearer env args stored =
     and_then stored (\<lambda>creds.
       case auth_mode_of args (creds \<noteq> None) of
         Mode_Oidc \<Rightarrow>
           and_then
             (ok_or ''--github-oidc / --oidc-token also need --oidc-audience (the value the gateway expects)''
               (aa_oidc_audience args))
             (\<lambda>audience.
               let exchange = Refresh_Oidc audience (aa_oidc_token args)
               in and_then (refresh_run env exchange) (\<lambda>c.
                    Inr \<lparr>be_header = Some (cl_token c), be_refresh = Some (exchange, cl_expires_in c), be_login = None\<rparr>))
       | Mode_Static \<Rightarrow>
           and_then (static_token (se_read env) args) (\<lambda>t.
             Inr \<lparr>be_header = t, be_refresh = None, be_login = None\<rparr>)
       | Mode_Session \<Rightarrow>
           (case creds of
              None \<Rightarrow> Inl ''panic''
            | Some login \<Rightarrow>
                and_then (api_new (se_client env) (lc_control_plane login)) (\<lambda>api.
                and_then (resolve_org_arg (se_list_orgs env api) login (aa_org args)) (\<lambda>org.
                  let exchange = Refresh_Session login org
                  in and_then (refresh_run env exchange) (\<lambda>c.
                       Inr \<lparr>be_header = Some (cl_token c), be_refresh = Some (exchange, cl_expires_in c),
                         be_login = Some (login, org)\<rparr>))))
       | Mode_None \<Rightarrow> Inl (''not authenticated: run `skimasque login`, or pass '' @
             ''--github-oidc/--oidc-token/--auth-token''))"

subsection \<open>Keeping a credential fresh\<close>

definition secs :: "nat \<Rightarrow> nat" where
  "secs n = n * 10 ^ 9"

definition REFRESH_RETRY :: nat where
  "REFRESH_RETRY = secs 30"

definition refresh_lead_time :: "nat \<Rightarrow> nat" where
  "refresh_lead_time ttl = min (max (secs 10) (min (ttl div 4) (secs (15 * 60)))) (ttl div 2)"

text \<open>
  One turn of \<^verbatim>\<open>refresh_credential\<close>: it sleeps, runs the exchange, which takes some time, and installs
  what it got. A credential that no header can carry ends the loop. The clock and the expiry of the
  installed credential, counted from the start of its exchange, belong to the world around the loop.
\<close>

datatype refresh_answer = Refreshed nat | Uninstallable | Refresh_Failed

record refresher =
  rf_running :: bool
  rf_ttl :: nat
  rf_now :: nat
  rf_expires :: nat

definition refresh_turn :: "nat \<times> refresh_answer \<Rightarrow> refresher \<Rightarrow> refresher" where
  "refresh_turn step s =
     (if \<not> rf_running s then s
      else
        (let begun = rf_now s + (rf_ttl s - refresh_lead_time (rf_ttl s));
             s1 = s\<lparr>rf_now := begun + fst step\<rparr>
         in case snd step of
              Refreshed ttl \<Rightarrow> s1\<lparr>rf_ttl := ttl, rf_expires := begun + ttl\<rparr>
            | Uninstallable \<Rightarrow> s1\<lparr>rf_running := False\<rparr>
            | Refresh_Failed \<Rightarrow> s1\<lparr>rf_ttl := REFRESH_RETRY\<rparr>))"

subsection \<open>Reporting a refusal\<close>

definition proxy_status_details :: "string \<Rightarrow> string option" where
  "proxy_status_details v =
     Option.bind (split_once_str (''details='' @ [CHR 0x22]) v) (\<lambda>(_, rest). map_option fst (sf_unquote rest))"

datatype tunnel_error = Rejected nat "string option" | Other_Error string

text \<open>\<open>show_error\<close> prints an error.\<close>

definition refusal_line :: "(tunnel_error \<Rightarrow> string) \<Rightarrow> string \<Rightarrow> tunnel_error \<Rightarrow> string" where
  "refusal_line show_error destination error =
     (let other = ''could not reach '' @ destination @ '': '' @ show_error error
      in case error of
           Rejected status header \<Rightarrow>
             if status = 403 then
               (case Option.bind header proxy_status_details of
                  Some details \<Rightarrow>
                    (case split_once_str '' suggested rule: '' details of
                       Some (reason, rule) \<Rightarrow> ''denied '' @ destination @ '': '' @ reason @ '' To allow it: '' @ rule
                     | None \<Rightarrow> ''denied '' @ destination @ '': '' @ details)
                | None \<Rightarrow> ''denied '' @ destination)
             else other
         | Other_Error _ \<Rightarrow> other)"

subsection \<open>A denial explains itself to the user\<close>

lemma split_once_str_at_mark:
  assumes "c \<notin> set q" "c \<notin> set a"
  shows "split_once_str (q @ [c]) (a @ q @ c # b) = Some (a, b)"
  using assms(2)
proof (induction a)
  case Nil
  have "strip_prefix (q @ [c]) ((q @ [c]) @ b) = Some b" by (rule strip_prefix_append)
  then show ?case by (cases q) (simp_all add: strip_prefix_def)
next
  case (Cons x a)
  have "take (length (q @ [c])) ((x # a) @ q @ c # b) \<noteq> q @ [c]"
  proof
    assume "take (length (q @ [c])) ((x # a) @ q @ c # b) = q @ [c]"
    then have "take (length (q @ [c])) ((x # a) @ q @ c # b) ! length q = c" by (metis nth_append_length)
    then have "(((x # a) @ q) @ c # b) ! length q = c" by (subst (asm) nth_take) simp_all
    then have "((x # a) @ q) ! length q = c" by (subst (asm) nth_append) simp
    moreover have "((x # a) @ q) ! length q \<in> set ((x # a) @ q)" by (rule nth_mem) simp
    ultimately show False using assms(1) Cons.prems by auto
  qed
  then have "strip_prefix (q @ [c]) ((x # a) @ q @ c # b) = None" by (simp add: strip_prefix_def)
  then show ?case using Cons by simp
qed

lemma split_once_str_extend:
  "split_once_str p (a @ p) = Some (a, []) \<Longrightarrow> p \<noteq> [] \<Longrightarrow> split_once_str p (a @ p @ b) = Some (a, b)"
proof (induction a)
  case Nil
  then show ?case using strip_prefix_append [of p b] by (cases p) (simp_all add: strip_prefix_def)
next
  case (Cons x a)
  have n: "strip_prefix p ((x # a) @ p) = None"
  proof (rule ccontr)
    assume "strip_prefix p ((x # a) @ p) \<noteq> None"
    then obtain r where "strip_prefix p ((x # a) @ p) = Some r" by blast
    then show False using Cons.prems by simp
  qed
  have "take (length p) (((x # a) @ p) @ b) = take (length p) ((x # a) @ p)" by (subst take_append) simp
  then have "take (length p) ((x # a) @ p @ b) = take (length p) ((x # a) @ p)" by (simp only: append_assoc)
  then have "strip_prefix p ((x # a) @ p @ b) = None" using n by (auto simp: strip_prefix_def split: if_splits)
  moreover have "split_once_str p (a @ p) = Some (a, [])" using Cons.prems n by auto
  ultimately show ?case using Cons by simp
qed

lemma structured_token_quote_free: "CHR 0x22 \<notin> set (structured_token name)"
  by (auto simp: structured_token_def Let_def is_ascii_alphanumeric_def is_ascii_alphabetic_def is_ascii_digit_def
      is_ascii_lowercase_def is_ascii_uppercase_def char_code_def)

lemma proxy_status_details_read:
  assumes "CHR 0x22 \<notin> set e" "sf_unquote (structured_string detail @ [CHR 0x22]) = Some (t, [])"
  shows "proxy_status_details (proxy_status name e detail) = Some t"
proof -
  have "proxy_status name e detail = (structured_token name @ ''; error='' @ e @ ''; '') @ ''details='' @
      CHR 0x22 # (structured_string detail @ [CHR 0x22])"
    by (simp add: proxy_status_def)
  moreover have "CHR 0x22 \<notin> set (structured_token name @ ''; error='' @ e @ ''; '')"
    using structured_token_quote_free assms(1) by simp
  ultimately have "split_once_str (''details='' @ [CHR 0x22]) (proxy_status name e detail) =
      Some (structured_token name @ ''; error='' @ e @ ''; '', structured_string detail @ [CHR 0x22])"
    by (simp only:) (rule split_once_str_at_mark, simp_all)
  then show ?thesis by (simp add: proxy_status_details_def assms(2))
qed

lemma header_insert_lookup: "map_of (header_insert n v hs) n = Some v"
  by (simp add: header_insert_def)

text \<open>
  A denial explains itself. When a policy denies a request because no rule allows it, the response the
  gateway writes carries a \<^verbatim>\<open>Proxy-Status\<close> field from which the command line prints the deciding policy, the
  reason and the rule that would allow the request, character by character as the policy engine wrote them,
  whatever quotes and backslashes they hold. The detail has to be ASCII without control characters and short
  enough not to be cut, and the policy's name must not contain the separator itself.
\<close>

theorem denial_explains_itself:
  assumes "dn_reason d = NoMatchingAllowRule" "dn_policy d = Some p"
    and "r = denial_rejection d" "is_ascii_str (rj_detail r)" "list_all (\<lambda>c. \<not> char_is_control [c]) (rj_detail r)"
    and "length (concat (map sf_escape (str_chars (rj_detail r)))) \<le> 256"
    and "header_ok (proxy_status name ''destination_prohibited'' (rj_detail r))"
    and "reason = ''policy '' @ quoted p @ '': No matching allow rule.''"
    and "split_once_str '' suggested rule: '' (reason @ '' suggested rule: '') = Some (reason, [])"
  shows "\<exists>v. map_of (rs_headers (rejection_response header_ok r name)) ''proxy-status'' = Some v \<and>
    rs_status (rejection_response header_ok r name) = 403 \<and>
    refusal_line show_error dest (Rejected 403 (Some v)) =
      ''denied '' @ dest @ '': '' @ reason @ '' To allow it: '' @ dn_suggested_rule d"
proof -
  let ?v = "proxy_status name ''destination_prohibited'' (rj_detail r)"
  have r: "rj_detail r = reason @ '' suggested rule: '' @ dn_suggested_rule d" "rj_status r = 403"
    "rj_proxy_error r = Some ''destination_prohibited''"
    using assms(1,2) unfolding assms(3,8)
    by (simp_all add: denial_rejection_def with_proxy_error_def rejection_new_def reason_summary_def)
  have "sf_unquote (structured_string (rj_detail r) @ [CHR 0x22]) = Some (rj_detail r, [])"
    using refusal_detail_readable [OF assms(4,6), of "[]"] assms(5) by (simp add: list_all_iff)
  then have d: "proxy_status_details ?v = Some (rj_detail r)" by (intro proxy_status_details_read) simp_all
  have "split_once_str '' suggested rule: '' (rj_detail r) = Some (reason, dn_suggested_rule d)"
    unfolding r(1) by (rule split_once_str_extend [OF assms(9)]) simp
  then have "refusal_line show_error dest (Rejected 403 (Some ?v)) =
      ''denied '' @ dest @ '': '' @ reason @ '' To allow it: '' @ dn_suggested_rule d"
    by (simp add: refusal_line_def d)
  moreover have "map_of (rs_headers (rejection_response header_ok r name)) ''proxy-status'' = Some ?v"
    "rs_status (rejection_response header_ok r name) = 403"
    using assms(7) r(2,3) by (simp_all add: rejection_response_def header_insert_lookup Let_def)
  ultimately show ?thesis by blast
qed

definition sample_denial :: denied where
  "sample_denial = \<lparr>dn_policy = Some ''agent-staging'', dn_reason = NoMatchingAllowRule,
     dn_suggested_rule = ''allow psql db.prod:5432'', dn_closest = []\<rparr>"

theorem denial_explains_itself_witness:
  "\<exists>v. map_of (rs_headers (rejection_response (\<lambda>_. True) (denial_rejection sample_denial) ''gw'')) ''proxy-status'' = Some v \<and>
    refusal_line (\<lambda>_. ''e'') ''db.prod:5432'' (Rejected 403 (Some v)) =
      ''denied db.prod:5432: policy '' @ quoted ''agent-staging'' @ '': No matching allow rule. To allow it: allow psql db.prod:5432''"
proof -
  let ?r = "denial_rejection sample_denial"
  have a: "is_ascii_str (rj_detail ?r)" "list_all (\<lambda>c. \<not> char_is_control [c]) (rj_detail ?r)"
    "length (concat (map sf_escape (str_chars (rj_detail ?r)))) \<le> 256"
    "split_once_str '' suggested rule: '' ((''policy '' @ quoted ''agent-staging'' @ '': No matching allow rule.'') @ '' suggested rule: '')
      = Some (''policy '' @ quoted ''agent-staging'' @ '': No matching allow rule.'', [])"
    by code_simp+
  have d: "dn_reason sample_denial = NoMatchingAllowRule" "dn_policy sample_denial = Some ''agent-staging''"
    "dn_suggested_rule sample_denial = ''allow psql db.prod:5432''"
    by (simp_all add: sample_denial_def)
  show ?thesis
    using denial_explains_itself [OF d(1,2) refl a(1-3) _ refl a(4), of "\<lambda>_. True" "''gw''" "\<lambda>_. ''e''" "''db.prod:5432''"]
    by (auto simp: d(3))
qed

subsection \<open>A session is never silently without a credential\<close>

lemma resolve_bearer_Inr:
  assumes "resolve_bearer env args stored = Inr b"
  shows "\<exists>token. be_header b = Some token \<and>
    (case be_refresh b of
       None \<Rightarrow> Inr (Some token) = static_token (se_read env) args \<and> \<not> aa_github_oidc args \<and> aa_oidc_token args = None \<and>
         (aa_auth_token_file args \<noteq> None \<longrightarrow> token \<noteq> [])
     | Some (mode, ttl) \<Rightarrow>
         refresh_run env mode = Inr \<lparr>cl_token = token, cl_expires_in = ttl\<rparr> \<and>
         (case mode of
            Refresh_Oidc audience _ \<Rightarrow> aa_oidc_audience args = Some audience \<and> be_login b = None
          | Refresh_Session login org \<Rightarrow> stored = Inr (Some login) \<and> be_login b = Some (login, org)))"
proof -
  obtain creds where c: "stored = Inr creds" using assms by (cases stored) (simp_all add: resolve_bearer_def)
  show ?thesis
  proof (cases "auth_mode_of args (creds \<noteq> None)")
    case Mode_Oidc
    then show ?thesis
      using assms c by (cases "aa_oidc_audience args") (auto simp: resolve_bearer_def and_then_Inr_iff Let_def)
  next
    case Mode_Static
    then have m: "\<not> aa_github_oidc args" "aa_oidc_token args = None"
      "aa_auth_token args \<noteq> None \<or> aa_auth_token_file args \<noteq> None"
      by (auto simp: auth_mode_of_def split: if_splits)
    show ?thesis
      using assms c Mode_Static m
      by (cases "aa_auth_token_file args")
        (auto simp: resolve_bearer_def static_token_def and_then_Inr_iff Let_def split: option.splits if_splits)
  next
    case Mode_Session
    then show ?thesis
      using assms c by (cases creds) (auto simp: resolve_bearer_def and_then_Inr_iff Let_def)
  next
    case Mode_None
    then show ?thesis using assms c by (simp add: resolve_bearer_def)
  qed
qed

text \<open>
  A session that opens carries a credential. Whatever flags are given and whatever a login left on disk,
  resolving the credential either fails with a message or yields a token to send: an exchanged or minted one,
  which comes with the means to renew it and its lifetime, or the static one, which is not renewed. A token
  from a file is never empty, and an OIDC exchange never happens without the audience the gateway expects.
\<close>

theorem session_carries_a_credential:
  assumes "resolve_bearer env args stored = Inr b"
  shows "\<exists>token. be_header b = Some token \<and>
    (case be_refresh b of
       None \<Rightarrow> Inr (Some token) = static_token (se_read env) args \<and> \<not> aa_github_oidc args \<and> aa_oidc_token args = None \<and>
         (aa_auth_token_file args \<noteq> None \<longrightarrow> token \<noteq> [])
     | Some (mode, ttl) \<Rightarrow>
         refresh_run env mode = Inr \<lparr>cl_token = token, cl_expires_in = ttl\<rparr> \<and>
         (case mode of
            Refresh_Oidc audience _ \<Rightarrow> aa_oidc_audience args = Some audience \<and> be_login b = None
          | Refresh_Session login org \<Rightarrow> stored = Inr (Some login) \<and> be_login b = Some (login, org)))"
  using assms by (rule resolve_bearer_Inr)

definition sample_session_env :: session_env where
  "sample_session_env = \<lparr>se_id_token = (\<lambda>a. Inr (''id:'' @ a)), se_exchange = (\<lambda>t. Inr \<lparr>cl_token = ''c'', cl_expires_in = secs 3600\<rparr>),
     se_client = True, se_mint = (\<lambda>_ _ _. Inl ''down''), se_list_orgs = (\<lambda>_ _. Inr []), se_read = (\<lambda>_. Some '' tok '')\<rparr>"

definition sample_auth :: auth_args where
  "sample_auth = \<lparr>aa_auth_token = None, aa_auth_token_file = None, aa_github_oidc = True, aa_oidc_token = None,
     aa_oidc_audience = Some ''g'', aa_org = None\<rparr>"

theorem session_carries_a_credential_witness:
  "\<exists>b token. resolve_bearer sample_session_env sample_auth (Inr None) = Inr b \<and> be_header b = Some token \<and>
     refresh_run sample_session_env (Refresh_Oidc ''g'' None) = Inr \<lparr>cl_token = token, cl_expires_in = secs 3600\<rparr>"
proof -
  have r: "resolve_bearer sample_session_env sample_auth (Inr None) =
      Inr \<lparr>be_header = Some ''c'', be_refresh = Some (Refresh_Oidc ''g'' None, secs 3600), be_login = None\<rparr>"
    by (simp add: resolve_bearer_def auth_mode_of_def sample_auth_def sample_session_env_def refresh_run_def map_err_def)
  show ?thesis using session_carries_a_credential [OF r] r by auto
qed

subsection \<open>The credential does not lapse\<close>

lemma refresh_lead_time_bounds:
  "refresh_lead_time ttl \<le> ttl div 2" "secs 20 \<le> ttl \<Longrightarrow> secs 10 \<le> refresh_lead_time ttl"
  "refresh_lead_time ttl \<le> secs 900"
  by (auto simp: refresh_lead_time_def secs_def min_def max_def)

lemma retry_wait: "REFRESH_RETRY - refresh_lead_time REFRESH_RETRY = secs 20"
  by (simp add: refresh_lead_time_def REFRESH_RETRY_def secs_def)

text \<open>
  A renewal: some failed attempts, each taking at most \<open>D\<close>, then a success. \<open>renewed\<close> is the clock when the
  new credential is installed and the expiry of the one it replaces.
\<close>

definition renewal :: "nat list \<Rightarrow> nat \<Rightarrow> nat \<Rightarrow> (nat \<times> refresh_answer) list" where
  "renewal failed taken ttl = map (\<lambda>d. (d, Refresh_Failed)) failed @ [(taken, Refreshed ttl)]"

lemma retries_clock:
  assumes "rf_running s" "rf_ttl s = REFRESH_RETRY" "list_all (\<lambda>d. d \<le> D) failed"
  shows "let u = fold refresh_turn (map (\<lambda>d. (d, Refresh_Failed)) failed) s
    in rf_now u \<le> rf_now s + length failed * (secs 20 + D) \<and> rf_running u \<and> rf_ttl u = REFRESH_RETRY \<and>
       rf_expires u = rf_expires s"
  using assms
proof (induction failed arbitrary: s)
  case (Cons d failed)
  let ?s = "refresh_turn (d, Refresh_Failed) s"
  have t: "rf_now ?s = rf_now s + secs 20 + d" "rf_running ?s" "rf_ttl ?s = REFRESH_RETRY" "rf_expires ?s = rf_expires s"
    using Cons.prems by (simp_all add: refresh_turn_def retry_wait Let_def)
  have d: "d \<le> D" "list_all (\<lambda>d. d \<le> D) failed" using Cons.prems by simp_all
  show ?case using Cons.IH [OF t(2,3) d(2)] t(1,4) d(1) by (simp add: Let_def)
qed (simp add: Let_def)

text \<open>
  The first attempt of a renewal starts a lead time before the expiry of a credential that was itself
  installed at most \<open>D\<close> after its lifetime began.
\<close>

definition fresh :: "nat \<Rightarrow> refresher \<Rightarrow> bool" where
  "fresh D s \<longleftrightarrow> rf_running s \<and> rf_now s + rf_ttl s \<le> rf_expires s + D"

lemma renewal_in_time:
  assumes "fresh D s" "list_all (\<lambda>d. d \<le> D) failed" "taken \<le> D"
    and "2 * D + length failed * (secs 20 + D) \<le> refresh_lead_time (rf_ttl s)"
  shows "rf_now (fold refresh_turn (renewal failed taken ttl) s) \<le> rf_expires s \<and>
    fresh D (fold refresh_turn (renewal failed taken ttl) s) \<and> rf_ttl (fold refresh_turn (renewal failed taken ttl) s) = ttl"
proof -
  have lead: "refresh_lead_time (rf_ttl s) \<le> rf_ttl s" using refresh_lead_time_bounds(1) [of "rf_ttl s"] by simp
  have s: "rf_running s" "rf_now s + rf_ttl s \<le> rf_expires s + D" using assms(1) by (simp_all add: fresh_def)
  show ?thesis
  proof (cases failed)
    case Nil
    let ?t = "refresh_turn (taken, Refreshed ttl) s"
    have t: "rf_now ?t = rf_now s + (rf_ttl s - refresh_lead_time (rf_ttl s)) + taken" "rf_running ?t" "rf_ttl ?t = ttl"
      "rf_expires ?t = rf_now s + (rf_ttl s - refresh_lead_time (rf_ttl s)) + ttl"
      using s(1) by (simp_all add: refresh_turn_def Let_def)
    have "2 * D \<le> refresh_lead_time (rf_ttl s)" using assms(4) Nil by simp
    then have "rf_now ?t \<le> rf_expires s" using t(1) s(2) assms(3) lead by linarith
    moreover have "fold refresh_turn (renewal failed taken ttl) s = ?t" using Nil by (simp add: renewal_def)
    ultimately show ?thesis using t assms(3) by (simp add: fresh_def)
  next
    case (Cons d ds)
    let ?t = "refresh_turn (d, Refresh_Failed) s"
    let ?u = "fold refresh_turn (map (\<lambda>d. (d, Refresh_Failed)) ds) ?t"
    let ?v = "refresh_turn (taken, Refreshed ttl) ?u"
    have t: "rf_now ?t = rf_now s + (rf_ttl s - refresh_lead_time (rf_ttl s)) + d" "rf_running ?t"
      "rf_ttl ?t = REFRESH_RETRY" "rf_expires ?t = rf_expires s"
      using s(1) by (simp_all add: refresh_turn_def Let_def)
    have d: "d \<le> D" "list_all (\<lambda>d. d \<le> D) ds" using assms(2) Cons by simp_all
    have u: "rf_now ?u \<le> rf_now ?t + length ds * (secs 20 + D)" "rf_running ?u" "rf_ttl ?u = REFRESH_RETRY"
      using retries_clock [OF t(2,3) d(2)] by (simp_all add: Let_def)
    have v: "rf_now ?v = rf_now ?u + secs 20 + taken" "rf_running ?v" "rf_ttl ?v = ttl"
      "rf_expires ?v = rf_now ?u + secs 20 + ttl"
      using u(2,3) by (simp_all add: refresh_turn_def retry_wait Let_def)
    have n: "2 * D + (secs 20 + D) + length ds * (secs 20 + D) \<le> refresh_lead_time (rf_ttl s)"
      using assms(4) Cons by (simp add: algebra_simps)
    have "rf_now ?v \<le> rf_expires s"
      using v(1) u(1) t(1) n s(2) d(1) assms(3) lead by linarith
    moreover have "fold refresh_turn (renewal failed taken ttl) s = ?v" using Cons by (simp add: renewal_def)
    ultimately show ?thesis using v assms(3) by (simp add: fresh_def)
  qed
qed

fun tolerable :: "nat \<Rightarrow> nat \<Rightarrow> (nat list \<times> nat \<times> nat) list \<Rightarrow> bool" where
  "tolerable D cur [] \<longleftrightarrow> True"
| "tolerable D cur ((failed, taken, ttl) # rs) \<longleftrightarrow>
     list_all (\<lambda>d. d \<le> D) failed \<and> taken \<le> D \<and>
     2 * D + length failed * (secs 20 + D) \<le> refresh_lead_time cur \<and> tolerable D ttl rs"

fun never_lapses :: "refresher \<Rightarrow> (nat list \<times> nat \<times> nat) list \<Rightarrow> bool" where
  "never_lapses s [] \<longleftrightarrow> True"
| "never_lapses s ((failed, taken, ttl) # rs) \<longleftrightarrow>
     (let s' = fold refresh_turn (renewal failed taken ttl) s
      in rf_now s' \<le> rf_expires s \<and> never_lapses s' rs)"

text \<open>
  A running session does not outlive its credential. Let every exchange take at most \<open>D\<close>, and let
  the attempts that fail before a renewal, at twenty seconds and one exchange each, together with two
  exchanges fit in the lead time of the credential they are to replace. Then, however many renewals there
  are and whatever lifetimes they bring, each new credential is installed before the previous one expires.
  With exchanges of five seconds a credential of an hour survives thirty-five failed attempts.
\<close>

theorem refreshed_credential_never_lapses:
  assumes "fresh D s" "tolerable D (rf_ttl s) rs"
  shows "never_lapses s rs \<and> 2 * secs 5 + 35 * (secs 20 + secs 5) \<le> refresh_lead_time (secs 3600)"
proof -
  have "never_lapses s rs"
    using assms
  proof (induction rs arbitrary: s)
    case (Cons r rs)
    obtain failed taken ttl where r: "r = (failed, taken, ttl)" by (cases r)
    show ?case
      using renewal_in_time [OF Cons.prems(1), of failed taken ttl] Cons.prems(2) Cons.IH
      by (simp add: r Let_def)
  qed simp
  then show ?thesis by (simp add: refresh_lead_time_def secs_def)
qed

theorem refreshed_credential_never_lapses_witness:
  "never_lapses \<lparr>rf_running = True, rf_ttl = secs 3600, rf_now = secs 1, rf_expires = secs 3600\<rparr>
     [(replicate 35 (secs 5), secs 5, secs 60), ([], secs 1, secs 3600)]"
proof -
  have f: "fresh (secs 5) \<lparr>rf_running = True, rf_ttl = secs 3600, rf_now = secs 1, rf_expires = secs 3600\<rparr>"
    by (simp add: fresh_def secs_def)
  have t: "tolerable (secs 5) (rf_ttl \<lparr>rf_running = True, rf_ttl = secs 3600, rf_now = secs 1, rf_expires = secs 3600\<rparr>)
      [(replicate 35 (secs 5), secs 5, secs 60), ([], secs 1, secs 3600)]"
    by (simp add: secs_def refresh_lead_time_def list_all_iff)
  show ?thesis using refreshed_credential_never_lapses [OF f t] by blast
qed

text \<open>A credential that is handed out already expired makes the loop ask again at once, without any pause.\<close>

lemma expired_credential_spins:
  "rf_running s \<Longrightarrow> rf_ttl s = 0 \<Longrightarrow> rf_now (refresh_turn (d, Refreshed 0) s) = rf_now s + d"
  by (simp add: refresh_turn_def Let_def)

end
