(* ===== verification/Control_Http.thy ===== *)
theory Control_Http
  imports Protocol_Wire Client_Session
begin

text \<open>
  The gateway's HTTP client for the control plane (\<^verbatim>\<open>ControlPlane\<close> of
  \<^verbatim>\<open>skimasque-cli/src/control.rs\<close>): the requests it builds, the reading of the answers, and the files of its
  state directory. The HTTP library, the JSON reader and printer and the outcomes of file operations are
  arguments; an error is the context the code attaches to it.
\<close>

subsection \<open>Requests and answers\<close>

datatype web_method = GET | POST | PUT | DELETE

record web_request =
  hr_method :: web_method
  hr_url :: string
  hr_bearer :: "string option"
  hr_if_none_match :: "string option"
  hr_query :: "(string \<times> string) list"
  hr_body :: "json option"

record web_response =
  hp_status :: nat
  hp_body :: string

record web =
  wb_send :: "web_request \<Rightarrow> string + web_response"
  wb_parse :: "string \<Rightarrow> json option"
  wb_print :: "json \<Rightarrow> string"
  wb_show_status :: "nat \<Rightarrow> string"

definition plain_request :: "web_method \<Rightarrow> string \<Rightarrow> web_request" where
  "plain_request m url = \<lparr>hr_method = m, hr_url = url, hr_bearer = None, hr_if_none_match = None, hr_query = [], hr_body = None\<rparr>"

definition bearer_auth :: "string \<Rightarrow> web_request \<Rightarrow> web_request" where
  "bearer_auth token r = r\<lparr>hr_bearer := Some token\<rparr>"

definition json_body :: "json \<Rightarrow> web_request \<Rightarrow> web_request" where
  "json_body j r = r\<lparr>hr_body := Some j\<rparr>"

definition query_param :: "string \<Rightarrow> string \<Rightarrow> web_request \<Rightarrow> web_request" where
  "query_param k v r = r\<lparr>hr_query := hr_query r @ [(k, v)]\<rparr>"

definition is_success :: "web_response \<Rightarrow> bool" where
  "is_success r \<longleftrightarrow> 200 \<le> hp_status r \<and> hp_status r < 300"

definition error_for_status :: "web \<Rightarrow> string \<Rightarrow> web_response \<Rightarrow> string + web_response" where
  "error_for_status w what r =
     (if is_success r then Inr r
      else Inl (what @ '' failed: '' @ wb_show_status w (hp_status r) @ '' '' @ str_trim (hp_body r)))"

definition send_request :: "web \<Rightarrow> string \<Rightarrow> web_request \<Rightarrow> string + web_response" where
  "send_request w ctx req = map_err (\<lambda>_. ctx) (wb_send w req)"

definition answer_body :: "web \<Rightarrow> string \<Rightarrow> (json \<Rightarrow> 'a option) \<Rightarrow> web_response \<Rightarrow> string + 'a" where
  "answer_body w ctx dec r = ok_or ctx (Option.bind (wb_parse w (hp_body r)) dec)"

text \<open>The shape most calls share: send, refuse an error status, read the body.\<close>

definition http_call ::
  "web \<Rightarrow> string \<Rightarrow> string \<Rightarrow> string \<Rightarrow> (json \<Rightarrow> 'a option) \<Rightarrow> web_request \<Rightarrow> string + 'a" where
  "http_call w ctx what parsing dec req =
     and_then (send_request w ctx req) (\<lambda>r. and_then (error_for_status w what r) (answer_body w parsing dec))"

definition http_call_unit :: "web \<Rightarrow> string \<Rightarrow> string \<Rightarrow> web_request \<Rightarrow> string + unit" where
  "http_call_unit w ctx what req =
     and_then (send_request w ctx req) (\<lambda>r. and_then (error_for_status w what r) (\<lambda>_. Inr ()))"

subsection \<open>Files of the state directory\<close>

text \<open>
  The contents of the files the client keeps. A write succeeds, or fails and leaves the file as it was or
  with other contents.
\<close>

record gateway_store =
  gs_identity :: "string option"
  gs_policies :: "(string \<rightharpoonup> string) option"
  gs_meta :: "string option"
  gs_revocations :: "string option"

datatype disk_write = Write_Done | Write_Failed "string option"

fun file_after :: "disk_write \<Rightarrow> string \<Rightarrow> string option \<Rightarrow> string option" where
  "file_after Write_Done bytes before = Some bytes"
| "file_after (Write_Failed None) bytes before = before"
| "file_after (Write_Failed (Some left)) bytes before = Some left"

record disk =
  dk_dir :: bool
  dk_write :: disk_write
  dk_rename :: bool

record control_plane =
  cpl_base_url :: string
  cpl_state_dir :: string

definition control_new :: "string \<Rightarrow> string \<Rightarrow> control_plane" where
  "control_new base_url state_dir = \<lparr>cpl_base_url = normalize_base_url base_url, cpl_state_dir = state_dir\<rparr>"

text \<open>A read of a file that is absent, unreadable, or gives its contents.\<close>

definition load_identity :: "web \<Rightarrow> bool \<Rightarrow> gateway_store \<Rightarrow> string + gateway_identity option" where
  "load_identity w readable st =
     (case gs_identity st of
        None \<Rightarrow> Inr None
      | Some bytes \<Rightarrow>
          if \<not> readable then Inl ''reading the stored gateway identity''
          else and_then (ok_or ''parsing the stored gateway identity'' (Option.bind (wb_parse w bytes) read_gateway_identity))
                 (\<lambda>i. Inr (Some i)))"

definition persist_identity :: "web \<Rightarrow> disk \<Rightarrow> gateway_identity \<Rightarrow> gateway_store \<Rightarrow> (string + gateway_identity) \<times> gateway_store" where
  "persist_identity w d i st =
     (if \<not> dk_dir d then (Inl ''creating the control-plane state directory'', st)
      else
        (let st' = st\<lparr>gs_identity := file_after (dk_write d) (wb_print w (identity_json i)) (gs_identity st)\<rparr>
         in if dk_write d = Write_Done then (Inr i, st') else (Inl ''persisting the gateway identity'', st')))"

subsection \<open>Registration\<close>

definition register_call :: "control_plane \<Rightarrow> string \<Rightarrow> string \<Rightarrow> (string \<times> string) list \<Rightarrow> web_request" where
  "register_call cp token name labels =
     json_body (register_json \<lparr>rr_registration_token = token, rr_name = name, rr_labels = labels\<rparr>)
       (plain_request POST (cpl_base_url cp @ REGISTER))"

definition gateway_register ::
  "web \<Rightarrow> disk \<Rightarrow> control_plane \<Rightarrow> string \<Rightarrow> string \<Rightarrow> (string \<times> string) list \<Rightarrow> gateway_store \<Rightarrow>
     (string + gateway_identity) \<times> gateway_store" where
  "gateway_register w d cp token name labels st =
     (case http_call w ''sending the registration request'' ''registration'' ''parsing the registration response''
             read_gateway_identity (register_call cp token name labels) of
        Inl e \<Rightarrow> (Inl e, st)
      | Inr body \<Rightarrow> persist_identity w d body st)"

definition register_platform_call :: "control_plane \<Rightarrow> string \<Rightarrow> string \<Rightarrow> (string \<times> string) list \<Rightarrow> web_request" where
  "register_platform_call cp token name labels =
     json_body (register_json \<lparr>rr_registration_token = token, rr_name = name, rr_labels = labels\<rparr>)
       (plain_request POST (cpl_base_url cp @ PLATFORM_REGISTER))"

definition register_platform ::
  "web \<Rightarrow> disk \<Rightarrow> control_plane \<Rightarrow> string \<Rightarrow> string \<Rightarrow> (string \<times> string) list \<Rightarrow> gateway_store \<Rightarrow>
     (string + gateway_identity) \<times> gateway_store" where
  "register_platform w d cp token name labels st =
     (case http_call w ''sending the platform registration request'' ''platform registration''
             ''parsing the platform registration response'' read_platform_registered
             (register_platform_call cp token name labels) of
        Inl e \<Rightarrow> (Inl e, st)
      | Inr body \<Rightarrow>
          persist_identity w d \<lparr>gi_gateway_id = pr_gateway_id body, gi_org_id = [], gi_secret = pr_secret body\<rparr> st)"

subsection \<open>The policy cache\<close>

record cache_meta =
  cm_version :: u64
  cm_fetched_at_ms :: u64

definition meta_json :: "cache_meta \<Rightarrow> json" where
  "meta_json m = JObject [(''version'', u64_json (cm_version m)), (''fetched_at_ms'', u64_json (cm_fetched_at_ms m))]"

definition read_meta :: "json \<Rightarrow> cache_meta option" where
  "read_meta j =
     Option.bind (struct_fields [(''version'', False), (''fetched_at_ms'', False)] j) (\<lambda>ms.
     Option.bind (field json_u64 ms ''version'') (\<lambda>version.
     Option.bind (field json_u64 ms ''fetched_at_ms'') (\<lambda>at_ms.
       Some \<lparr>cm_version = version, cm_fetched_at_ms = at_ms\<rparr>)))"

definition meta_age :: "u64 \<Rightarrow> cache_meta \<Rightarrow> nat option" where
  "meta_age now_ms m =
     (if cm_fetched_at_ms m \<le> now_ms then Some (unat now_ms - unat (cm_fetched_at_ms m)) else None)"

text \<open>
  How the steps of replacing the cache come out: creating the staging directory, the first document that
  cannot be written, removing the old directory, the rename, and the write of the metadata at some time.
\<close>

record cache_steps =
  cs_staging :: bool
  cs_bad_document :: "nat option"
  cs_removed :: bool
  cs_renamed :: bool
  cs_now_ms :: u64
  cs_meta :: disk_write

definition write_policy_cache ::
  "web \<Rightarrow> cache_steps \<Rightarrow> u64 \<Rightarrow> policy_document list \<Rightarrow> gateway_store \<Rightarrow> (string + unit) \<times> gateway_store" where
  "write_policy_cache w c version docs st =
     (if \<not> cs_staging c then (Inl ''creating the policy staging directory'', st)
      else
        (case Option.bind (cs_bad_document c) (\<lambda>i. if i < length docs then Some (docs ! i) else None) of
           Some doc \<Rightarrow> (Inl (''writing '' @ sanitize (pd_name doc)), st)
         | None \<Rightarrow>
             (let st1 = (if cs_removed c then st\<lparr>gs_policies := None\<rparr> else st)
              in if \<not> cs_renamed c then (Inl ''swapping in the new policy cache'', st1)
                 else
                   (Inr (), st1\<lparr>gs_policies := Some (cache_policy docs),
                      gs_meta := file_after (cs_meta c)
                        (wb_print w (meta_json \<lparr>cm_version = version, cm_fetched_at_ms = cs_now_ms c\<rparr>)) (gs_meta st1)\<rparr>))))"

definition has_cached_policy :: "gateway_store \<Rightarrow> bool" where
  "has_cached_policy st \<longleftrightarrow> (case gs_policies st of None \<Rightarrow> False | Some files \<Rightarrow> files \<noteq> Map.empty)"

definition load_cache_meta :: "web \<Rightarrow> gateway_store \<Rightarrow> cache_meta option" where
  "load_cache_meta w st = Option.bind (Option.bind (gs_meta st) (wb_parse w)) read_meta"

text \<open>\<open>dir_age\<close> is the age of the cache directory by its modification time, when it can be told.\<close>

definition cached_policy_age :: "web \<Rightarrow> u64 \<Rightarrow> nat option \<Rightarrow> gateway_store \<Rightarrow> nat option" where
  "cached_policy_age w now_ms dir_age st =
     (case Option.bind (load_cache_meta w st) (meta_age now_ms) of
        Some age \<Rightarrow> Some age
      | None \<Rightarrow> if gs_policies st = None then None else dir_age)"

subsection \<open>Polls\<close>

definition conditional :: "u64 option \<Rightarrow> web_request \<Rightarrow> web_request" where
  "conditional known r =
     (case known of
        None \<Rightarrow> r
      | Some v \<Rightarrow> r\<lparr>hr_if_none_match := Some ([CHR 0x22] @ nat_to_string (unat v) @ [CHR 0x22])\<rparr>)"

definition wait_suffix :: "nat option \<Rightarrow> string" where
  "wait_suffix wait = (case wait of None \<Rightarrow> [] | Some s \<Rightarrow> ''?wait='' @ nat_to_string s)"

datatype policy_fetch = Policy_Unchanged | Policy_Updated u64 "policy_document list" | Policy_None

definition policy_poll_call :: "control_plane \<Rightarrow> gateway_identity \<Rightarrow> u64 option \<Rightarrow> nat option \<Rightarrow> web_request" where
  "policy_poll_call cp i known wait =
     conditional known (bearer_auth (gi_secret i)
       (plain_request GET (cpl_base_url cp @ gateway_policy_path (gi_gateway_id i) @ wait_suffix wait)))"

definition fetch_policy ::
  "web \<Rightarrow> cache_steps \<Rightarrow> control_plane \<Rightarrow> gateway_identity \<Rightarrow> u64 option \<Rightarrow> nat option \<Rightarrow> gateway_store \<Rightarrow>
     (string + policy_fetch) \<times> gateway_store" where
  "fetch_policy w c cp i known wait st =
     (case send_request w ''polling for policy'' (policy_poll_call cp i known wait) of
        Inl e \<Rightarrow> (Inl e, st)
      | Inr r \<Rightarrow>
          if hp_status r = 304 then (Inr Policy_Unchanged, st)
          else if hp_status r = 204 then (Inr Policy_None, st)
          else
            (case and_then (error_for_status w ''policy poll'' r)
                    (answer_body w ''parsing the policy response'' read_policy_response) of
               Inl e \<Rightarrow> (Inl e, st)
             | Inr body \<Rightarrow>
                 (case write_policy_cache w c (tp_version body) (tp_documents body) st of
                    (Inl _, st') \<Rightarrow> (Inl ''writing the policy cache'', st')
                  | (Inr _, st') \<Rightarrow> (Inr (Policy_Updated (tp_version body) (tp_documents body)), st'))))"

datatype revocation_fetch = Revocations_Unchanged | Revocations_Updated revocations_response

definition revocations_query :: "u64 option \<Rightarrow> nat option \<Rightarrow> string list" where
  "revocations_query known wait =
     (case known of None \<Rightarrow> [] | Some g \<Rightarrow> [''generation='' @ nat_to_string (unat g)]) @
     (case wait of None \<Rightarrow> [] | Some s \<Rightarrow> [''wait='' @ nat_to_string s])"

definition revocations_poll_call ::
  "control_plane \<Rightarrow> gateway_identity \<Rightarrow> bool \<Rightarrow> u64 option \<Rightarrow> nat option \<Rightarrow> web_request" where
  "revocations_poll_call cp i platform known wait =
     (let path = (if platform then platform_revocations_path (gi_gateway_id i) else gateway_revocations_path (gi_gateway_id i));
          query = revocations_query known wait
      in bearer_auth (gi_secret i) (plain_request GET
           (cpl_base_url cp @ path @ (if query = [] then [] else ''?'' @ join_with ''&'' query))))"

definition cache_revocations :: "web \<Rightarrow> disk \<Rightarrow> revocations_response \<Rightarrow> gateway_store \<Rightarrow> (string + unit) \<times> gateway_store" where
  "cache_revocations w d l st =
     (if \<not> dk_dir d then (Inl ''creating the state directory'', st)
      else if dk_write d \<noteq> Write_Done then (Inl ''writing the revocation cache'', st)
      else if \<not> dk_rename d then (Inl ''swapping in the revocation cache'', st)
      else (Inr (), st\<lparr>gs_revocations := Some (wb_print w (revocations_json l))\<rparr>))"

definition load_cached_revocations :: "web \<Rightarrow> gateway_store \<Rightarrow> revocations_response option" where
  "load_cached_revocations w st = Option.bind (Option.bind (gs_revocations st) (wb_parse w)) read_revocations"

definition fetch_revocations ::
  "web \<Rightarrow> disk \<Rightarrow> control_plane \<Rightarrow> gateway_identity \<Rightarrow> bool \<Rightarrow> u64 option \<Rightarrow> nat option \<Rightarrow> gateway_store \<Rightarrow>
     (string + revocation_fetch) \<times> gateway_store" where
  "fetch_revocations w d cp i platform known wait st =
     (case send_request w ''polling for revoked sessions'' (revocations_poll_call cp i platform known wait) of
        Inl e \<Rightarrow> (Inl e, st)
      | Inr r \<Rightarrow>
          if hp_status r = 304 then (Inr Revocations_Unchanged, st)
          else
            (case and_then (error_for_status w ''revocation poll'' r)
                    (answer_body w ''parsing the revocation list'' read_revocations) of
               Inl e \<Rightarrow> (Inl e, st)
             | Inr l \<Rightarrow> (Inr (Revocations_Updated l), snd (cache_revocations w d l st))))"

datatype tenant_fetch = Tenants_Updated tenant_list | Tenants_Unchanged

definition tenants_poll_call :: "control_plane \<Rightarrow> gateway_identity \<Rightarrow> u64 option \<Rightarrow> nat option \<Rightarrow> web_request" where
  "tenants_poll_call cp i known wait =
     conditional known (bearer_auth (gi_secret i)
       (plain_request GET (cpl_base_url cp @ platform_tenants_path (gi_gateway_id i) @ wait_suffix wait)))"

definition fetch_tenants ::
  "web \<Rightarrow> control_plane \<Rightarrow> gateway_identity \<Rightarrow> u64 option \<Rightarrow> nat option \<Rightarrow> string + tenant_fetch" where
  "fetch_tenants w cp i known wait =
     and_then (send_request w ''polling for tenants'' (tenants_poll_call cp i known wait)) (\<lambda>r.
       if hp_status r = 304 then Inr Tenants_Unchanged
       else and_then (error_for_status w ''tenant poll'' r) (\<lambda>r.
              and_then (answer_body w ''parsing the tenant list'' read_tenant_list r) (\<lambda>l. Inr (Tenants_Updated l))))"

subsection \<open>Reports\<close>

definition heartbeat_call ::
  "control_plane \<Rightarrow> gateway_identity \<Rightarrow> bool \<Rightarrow> u64 option \<Rightarrow> usage_snapshot option \<Rightarrow> web_request" where
  "heartbeat_call cp i healthy version usage =
     json_body (heartbeat_json \<lparr>hb_status = (if healthy then ''online'' else ''degraded''), hb_policy_version = version,
         hb_usage = usage\<rparr>)
       (bearer_auth (gi_secret i) (plain_request POST (cpl_base_url cp @ gateway_heartbeat_path (gi_gateway_id i))))"

definition heartbeat :: "web \<Rightarrow> control_plane \<Rightarrow> gateway_identity \<Rightarrow> bool \<Rightarrow> u64 option \<Rightarrow> usage_snapshot option \<Rightarrow> string + unit" where
  "heartbeat w cp i healthy version usage =
     http_call_unit w ''sending a heartbeat'' ''heartbeat'' (heartbeat_call cp i healthy version usage)"

definition platform_heartbeat_call :: "control_plane \<Rightarrow> gateway_identity \<Rightarrow> platform_heartbeat \<Rightarrow> web_request" where
  "platform_heartbeat_call cp i h =
     json_body (platform_heartbeat_json h)
       (bearer_auth (gi_secret i) (plain_request POST (cpl_base_url cp @ platform_heartbeat_path (gi_gateway_id i))))"

definition send_platform_heartbeat :: "web \<Rightarrow> control_plane \<Rightarrow> gateway_identity \<Rightarrow> platform_heartbeat \<Rightarrow> string + unit" where
  "send_platform_heartbeat w cp i h =
     http_call_unit w ''sending a platform heartbeat'' ''platform heartbeat'' (platform_heartbeat_call cp i h)"

definition labels_call :: "control_plane \<Rightarrow> gateway_identity \<Rightarrow> (string \<times> string) list \<Rightarrow> web_request" where
  "labels_call cp i labels =
     json_body (labels_json labels)
       (bearer_auth (gi_secret i) (plain_request PUT (cpl_base_url cp @ gateway_labels_path (gi_gateway_id i))))"

definition set_labels :: "web \<Rightarrow> control_plane \<Rightarrow> gateway_identity \<Rightarrow> (string \<times> string) list \<Rightarrow> string + unit" where
  "set_labels w cp i labels =
     http_call_unit w ''sending the gateway labels'' ''setting gateway labels'' (labels_call cp i labels)"

definition audit_head_call :: "control_plane \<Rightarrow> gateway_identity \<Rightarrow> web_request" where
  "audit_head_call cp i =
     bearer_auth (gi_secret i) (plain_request GET (cpl_base_url cp @ gateway_audit_head_path (gi_gateway_id i)))"

definition fetch_audit_head :: "web \<Rightarrow> control_plane \<Rightarrow> gateway_identity \<Rightarrow> string + audit_head" where
  "fetch_audit_head w cp i =
     http_call w ''fetching the audit head'' ''audit head'' ''parsing the audit head'' read_audit_head (audit_head_call cp i)"

definition platform_audit_head_call :: "control_plane \<Rightarrow> gateway_identity \<Rightarrow> web_request" where
  "platform_audit_head_call cp i =
     bearer_auth (gi_secret i) (plain_request GET (cpl_base_url cp @ platform_audit_head_path (gi_gateway_id i)))"

definition fetch_platform_audit_head :: "web \<Rightarrow> control_plane \<Rightarrow> gateway_identity \<Rightarrow> string + audit_head" where
  "fetch_platform_audit_head w cp i =
     http_call w ''fetching the platform audit head'' ''platform audit head'' ''parsing the platform audit head''
       read_audit_head (platform_audit_head_call cp i)"

definition ship_audit_call :: "control_plane \<Rightarrow> gateway_identity \<Rightarrow> chained_event list \<Rightarrow> web_request" where
  "ship_audit_call cp i events =
     json_body (ship_audit_json chained_event_json events)
       (bearer_auth (gi_secret i) (plain_request POST (cpl_base_url cp @ gateway_audit_path (gi_gateway_id i))))"

definition ship_audit :: "web \<Rightarrow> control_plane \<Rightarrow> gateway_identity \<Rightarrow> chained_event list \<Rightarrow> string + u64" where
  "ship_audit w cp i events =
     http_call w ''shipping audit events'' ''audit ship'' ''parsing the audit-ship response'' read_ship_response
       (ship_audit_call cp i events)"

definition ship_platform_audit_call :: "control_plane \<Rightarrow> gateway_identity \<Rightarrow> platform_audit_event list \<Rightarrow> web_request" where
  "ship_platform_audit_call cp i events =
     json_body (ship_audit_json platform_event_json events)
       (bearer_auth (gi_secret i) (plain_request POST (cpl_base_url cp @ platform_audit_path (gi_gateway_id i))))"

definition ship_platform_audit :: "web \<Rightarrow> control_plane \<Rightarrow> gateway_identity \<Rightarrow> platform_audit_event list \<Rightarrow> string + u64" where
  "ship_platform_audit w cp i events =
     http_call w ''shipping platform audit events'' ''platform audit ship'' ''parsing the platform audit-ship response''
       read_ship_response (ship_platform_audit_call cp i events)"

subsection \<open>Credentials and keys\<close>

definition signing_key_call :: "control_plane \<Rightarrow> string \<Rightarrow> web_request" where
  "signing_key_call cp org = plain_request GET (cpl_base_url cp @ org_signing_key_path org)"

text \<open>The answer \<^verbatim>\<open>fetch_signing_key\<close> goes on with.\<close>

definition signing_key_answer :: "web \<Rightarrow> disk \<Rightarrow> control_plane \<Rightarrow> string \<Rightarrow> key_answer" where
  "signing_key_answer w d cp org =
     \<lparr>ka_answer = http_call w ''fetching the org signing key'' ''signing-key fetch'' ''parsing the signing-key response''
        read_signing_key (signing_key_call cp org),
      ka_dir = dk_dir d, ka_writes = (dk_write d = Write_Done)\<rparr>"

definition mint_call :: "control_plane \<Rightarrow> gateway_identity \<Rightarrow> gateway_mint_request \<Rightarrow> web_request" where
  "mint_call cp i req =
     json_body (mint_request_json req)
       (bearer_auth (gi_secret i) (plain_request POST (cpl_base_url cp @ gateway_credentials_path (gi_gateway_id i))))"

definition mint_credential :: "web \<Rightarrow> control_plane \<Rightarrow> gateway_identity \<Rightarrow> gateway_mint_request \<Rightarrow> string + issued" where
  "mint_credential w cp i req =
     http_call w ''requesting a minted credential'' ''credential mint'' ''parsing the mint response'' read_mint_response
       (mint_call cp i req)"

definition platform_mint_call :: "control_plane \<Rightarrow> gateway_identity \<Rightarrow> mint_request \<Rightarrow> web_request" where
  "platform_mint_call cp i req =
     json_body (platform_mint_json req)
       (bearer_auth (gi_secret i) (plain_request POST (cpl_base_url cp @ platform_credentials_path (gi_gateway_id i))))"

definition platform_mint_http ::
  "web \<Rightarrow> control_plane \<Rightarrow> gateway_identity \<Rightarrow> mint_request \<Rightarrow> platform_mint_error + issued" where
  "platform_mint_http w cp i req =
     and_then (map_err Plane_Unavailable (send_request w ''requesting a platform credential'' (platform_mint_call cp i req)))
       (\<lambda>r.
         if hp_status r = 403 \<or> hp_status r = 422 then
           Inl (case Option.bind (wb_parse w (hp_body r)) read_refusal of
                  Some f \<Rightarrow> Plane_Refused (rf_code f) (rf_message f)
                | None \<Rightarrow> Plane_Unavailable (''platform credential mint failed: '' @ wb_show_status w (hp_status r) @ '' '' @
                    str_trim (hp_body r)))
         else
           map_err Plane_Unavailable (and_then (error_for_status w ''platform credential mint'' r)
             (answer_body w ''parsing the platform mint response'' read_mint_response)))"

subsection \<open>What survives a restart\<close>

text \<open>The JSON library reads a value back from its own printing.\<close>

definition reads_back_text :: "web \<Rightarrow> json \<Rightarrow> bool" where
  "reads_back_text w j \<longleftrightarrow> wb_parse w (wb_print w j) = Some j"

interpretation meta_wire: json_message meta_json read_meta any_message
  by unfold_locales (simp add: meta_json_def read_meta_def readers)

lemma http_call_Inr:
  "http_call w ctx what parsing dec req = Inr x \<longleftrightarrow>
     (\<exists>r. wb_send w req = Inr r \<and> is_success r \<and> Option.bind (wb_parse w (hp_body r)) dec = Some x)"
  by (cases "wb_send w req")
    (auto simp: http_call_def send_request_def error_for_status_def answer_body_def ok_or_def split: option.splits)

lemma persist_identity_Inr:
  assumes "persist_identity w d i st = (Inr j, st')" "reads_back_text w (identity_json i)"
  shows "j = i \<and> load_identity w True st' = Inr (Some i) \<and> st' = st\<lparr>gs_identity := gs_identity st'\<rparr>"
proof -
  have "dk_dir d" "dk_write d = Write_Done" "j = i" "st' = st\<lparr>gs_identity := Some (wb_print w (identity_json i))\<rparr>"
    using assms(1) by (auto simp: persist_identity_def Let_def split: if_splits)
  then show ?thesis using assms(2) by (simp add: load_identity_def reads_back_text_def identity_wire.reads_back)
qed

text \<open>
  A registration survives a restart. When registering succeeds, for an organisation's gateway or for a
  platform gateway, the identity is the one the control plane's answer named, with no organisation for a
  platform gateway; a restarted gateway reads that same identity from its state directory and so never
  registers twice, and no other file has changed.
\<close>

theorem registration_survives_restart:
  assumes "reads_back_text w (identity_json i)" "(if platform then register_platform else gateway_register) w d cp token name labels st = (Inr i, st')"
  shows "load_identity w True st' = Inr (Some i) \<and> st' = st\<lparr>gs_identity := gs_identity st'\<rparr> \<and>
    (\<exists>r. wb_send w (if platform then register_platform_call cp token name labels else register_call cp token name labels) = Inr r \<and>
       is_success r \<and>
       (if platform then gi_org_id i = [] \<and>
          Option.bind (wb_parse w (hp_body r)) read_platform_registered = Some \<lparr>pr_gateway_id = gi_gateway_id i, pr_secret = gi_secret i\<rparr>
        else Option.bind (wb_parse w (hp_body r)) read_gateway_identity = Some i))"
proof (cases platform)
  case True
  with assms(2) obtain body where c: "http_call w ''sending the platform registration request'' ''platform registration''
      ''parsing the platform registration response'' read_platform_registered (register_platform_call cp token name labels) = Inr body"
    and p: "persist_identity w d \<lparr>gi_gateway_id = pr_gateway_id body, gi_org_id = [], gi_secret = pr_secret body\<rparr> st = (Inr i, st')"
    by (auto simp: register_platform_def split: sum.splits)
  have i: "i = \<lparr>gi_gateway_id = pr_gateway_id body, gi_org_id = [], gi_secret = pr_secret body\<rparr>"
    using p by (auto simp: persist_identity_def Let_def split: if_splits)
  then show ?thesis using persist_identity_Inr [OF p] assms(1) c True by (auto simp: http_call_Inr)
next
  case False
  with assms(2) obtain body where c: "http_call w ''sending the registration request'' ''registration''
      ''parsing the registration response'' read_gateway_identity (register_call cp token name labels) = Inr body"
    and p: "persist_identity w d body st = (Inr i, st')"
    by (auto simp: gateway_register_def split: sum.splits)
  moreover have "i = body" using p by (auto simp: persist_identity_def Let_def split: if_splits)
  ultimately show ?thesis using persist_identity_Inr [OF p] assms(1) False by (auto simp: http_call_Inr)
qed

lemma write_policy_cache_Inr:
  assumes "write_policy_cache w c v docs st = (Inr u, st')"
  shows "st' = st\<lparr>gs_policies := Some (cache_policy docs), gs_meta := file_after (cs_meta c)
    (wb_print w (meta_json \<lparr>cm_version = v, cm_fetched_at_ms = cs_now_ms c\<rparr>)) (gs_meta st)\<rparr>"
  using assms by (auto simp: write_policy_cache_def Let_def split: if_splits option.splits)

lemma write_policy_cache_Inl:
  assumes "write_policy_cache w c v docs st = (Inl e, st')"
  shows "st' = st \<or> (e = ''swapping in the new policy cache'' \<and> st' = st\<lparr>gs_policies := None\<rparr>)"
  using assms by (auto simp: write_policy_cache_def Let_def split: if_splits option.splits)


text \<open>
  The old cache is removed before the new one is renamed into its place, so a rename that fails, or a stop
  between the two, leaves a gateway with no cached policy to start from.
\<close>

lemma failed_swap_loses_cache:
  assumes "cs_staging c" "cs_bad_document c = None" "cs_removed c" "\<not> cs_renamed c"
  shows "\<not> has_cached_policy (snd (write_policy_cache w c v docs st))"
  using assms by (simp add: write_policy_cache_def has_cached_policy_def)

text \<open>The revocation list is replaced in one rename: a restart reads the new list or the old one.\<close>

lemma revocation_cache_is_whole:
  assumes "fetch_revocations w d cp i platform known wait st = (Inr (Revocations_Updated l), st')"
    and "reads_back_text w (revocations_json l)"
  shows "load_cached_revocations w st' = Some l \<or> st' = st"
  using assms
  by (auto simp: fetch_revocations_def send_request_def cache_revocations_def load_cached_revocations_def
      reads_back_text_def revocations_wire.reads_back split: sum.splits if_splits)

text \<open>
  C29. A refusal is told apart from an outage. A platform mint is refused, with the control plane's own code
  and message, exactly when the answer is a \<^verbatim>\<open>403\<close> or \<^verbatim>\<open>422\<close> that carries a refusal; it yields a credential
  exactly when the answer is a success that carries one, and is otherwise reported as unavailable.
\<close>

theorem platform_refusal_is_exact:
  "(platform_mint_http w cp i req = Inl (Plane_Refused code message) \<longleftrightarrow>
      (\<exists>r. wb_send w (platform_mint_call cp i req) = Inr r \<and> hp_status r \<in> {403, 422} \<and>
         Option.bind (wb_parse w (hp_body r)) read_refusal = Some \<lparr>rf_code = code, rf_message = message\<rparr>)) \<and>
   (platform_mint_http w cp i req = Inr credential \<longleftrightarrow>
      (\<exists>r. wb_send w (platform_mint_call cp i req) = Inr r \<and> is_success r \<and>
         Option.bind (wb_parse w (hp_body r)) read_mint_response = Some credential))"
proof (cases "wb_send w (platform_mint_call cp i req)")
  case (Inl e)
  then show ?thesis by (simp add: platform_mint_http_def send_request_def)
next
  case (Inr r)
  show ?thesis
  proof (cases "hp_status r = 403 \<or> hp_status r = 422")
    case True
    then have "\<not> is_success r" by (auto simp: is_success_def)
    then show ?thesis using True Inr
      by (cases "Option.bind (wb_parse w (hp_body r)) read_refusal") (auto simp: platform_mint_http_def send_request_def)
  next
    case False
    then show ?thesis using Inr
      by (cases "Option.bind (wb_parse w (hp_body r)) read_mint_response")
        (auto simp: platform_mint_http_def send_request_def error_for_status_def answer_body_def ok_or_def)
  qed
qed

subsection \<open>Samples\<close>

definition sample_gateway_identity :: gateway_identity where
  "sample_gateway_identity = \<lparr>gi_gateway_id = ''gw_1'', gi_org_id = ''org_1'', gi_secret = ''s3cret''\<rparr>"

definition sample_meta :: cache_meta where
  "sample_meta = \<lparr>cm_version = 3, cm_fetched_at_ms = 1000\<rparr>"

definition sample_policy_answer :: tenant_policy where
  "sample_policy_answer = \<lparr>tp_version = 3, tp_documents = [\<lparr>pd_name = ''base.toml'', pd_text = ''x''\<rparr>]\<rparr>"

text \<open>A control plane that knows two requests, and the texts of the values it exchanges.\<close>

definition sample_web :: web where
  "sample_web =
     \<lparr>wb_send = (\<lambda>r. if hr_method r = POST then Inr \<lparr>hp_status = 200, hp_body = ''identity''\<rparr>
        else Inr \<lparr>hp_status = 200, hp_body = ''policy''\<rparr>),
      wb_parse = (\<lambda>t. if t = ''identity'' then Some (identity_json sample_gateway_identity)
        else if t = ''meta'' then Some (meta_json sample_meta)
        else if t = ''policy'' then Some (policy_response_json sample_policy_answer) else None),
      wb_print = (\<lambda>j. if j = identity_json sample_gateway_identity then ''identity'' else ''meta''),
      wb_show_status = nat_to_string\<rparr>"

definition sample_plane :: control_plane where
  "sample_plane = \<lparr>cpl_base_url = ''https://control.example'', cpl_state_dir = ''/var/lib/sk''\<rparr>"

definition empty_store :: gateway_store where
  "empty_store = \<lparr>gs_identity = None, gs_policies = None, gs_meta = None, gs_revocations = None\<rparr>"

definition sample_disk :: disk where
  "sample_disk = \<lparr>dk_dir = True, dk_write = Write_Done, dk_rename = True\<rparr>"

definition sample_cache_steps :: cache_steps where
  "sample_cache_steps = \<lparr>cs_staging = True, cs_bad_document = None, cs_removed = True, cs_renamed = True, cs_now_ms = 1000,
     cs_meta = Write_Done\<rparr>"

theorem registration_survives_restart_witness:
  "\<exists>st'. gateway_register sample_web sample_disk sample_plane ''tok'' ''edge'' [] empty_store = (Inr sample_gateway_identity, st') \<and>
     load_identity sample_web True st' = Inr (Some sample_gateway_identity)"
proof -
  let ?st = "empty_store\<lparr>gs_identity := Some ''identity''\<rparr>"
  have "http_call sample_web ''sending the registration request'' ''registration'' ''parsing the registration response''
      read_gateway_identity (register_call sample_plane ''tok'' ''edge'' []) = Inr sample_gateway_identity"
    by (simp add: http_call_Inr sample_web_def register_call_def json_body_def plain_request_def is_success_def
        identity_wire.reads_back)
  then have r: "gateway_register sample_web sample_disk sample_plane ''tok'' ''edge'' [] empty_store = (Inr sample_gateway_identity, ?st)"
    by (simp add: gateway_register_def persist_identity_def sample_disk_def empty_store_def sample_web_def)
  have t: "reads_back_text sample_web (identity_json sample_gateway_identity)" by (simp add: reads_back_text_def sample_web_def)
  have "load_identity sample_web True ?st = Inr (Some sample_gateway_identity)"
    using registration_survives_restart [OF t, of False sample_disk sample_plane "''tok''" "''edge''" "[]" empty_store ?st] r by simp
  with r show ?thesis by blast
qed


end
