(* ===== verification/Tunnel_Client.thy ===== *)
theory Tunnel_Client
  imports Client_Session Capsule_Pump Datagram_Router Relay
begin

text \<open>
  The client side of a gateway session (\<^verbatim>\<open>skimasque/src/client.rs\<close>, and \<^verbatim>\<open>open_session\<close> of
  \<^verbatim>\<open>skimasque-cli/src/session.rs\<close>): dialling the gateway, exchanging a token for a credential, opening
  tunnels with the session's headers, and moving data through them. QUIC, TLS, HTTP/3 and DNS are
  arguments; streams are lists of what is read from them.
\<close>

subsection \<open>A session\<close>

definition server_name_of :: "string \<Rightarrow> string" where
  "server_name_of authority =
     (case rsplit_once_at (CHR '']'') authority of
        Some (before, _) \<Rightarrow> before @ '']''
      | None \<Rightarrow> takeWhile (\<lambda>c. c \<noteq> CHR '':'') authority)"

datatype client_error =
    Dial_Failed string
  | Datagrams_Unavailable
  | Invalid string
  | Exchange_Failed nat "string option"
  | Tunnel_Rejected nat "string option"

text \<open>The connection that was dialled: whether the peer takes datagrams, and how the HTTP/3 handshake went.\<close>

record dialled =
  dl_datagrams :: bool
  dl_handshake :: "string + unit"

record client_session =
  ss_template :: uri_template
  ss_authority :: string
  ss_headers :: "(string \<times> string) list"

definition client_connect ::
  "(socket_addr \<Rightarrow> string \<Rightarrow> string + dialled) \<Rightarrow> socket_addr \<Rightarrow> uri_template \<Rightarrow> client_error + client_session" where
  "client_connect dial proxy template =
     and_then (map_err Dial_Failed (dial proxy (server_name_of (ut_authority template)))) (\<lambda>c.
       if \<not> dl_datagrams c then Inl Datagrams_Unavailable
       else and_then (map_err Dial_Failed (dl_handshake c)) (\<lambda>_.
              Inr \<lparr>ss_template = template, ss_authority = ut_authority template, ss_headers = []\<rparr>))"

definition with_default_headers :: "(string \<times> string) list \<Rightarrow> client_session \<Rightarrow> client_session" where
  "with_default_headers hs s = s\<lparr>ss_headers := hs\<rparr>"

definition set_credential :: "(string \<Rightarrow> bool) \<Rightarrow> string \<Rightarrow> client_session \<Rightarrow> client_error + client_session" where
  "set_credential header_ok token s =
     (if header_ok (''Bearer '' @ token)
      then Inr (s\<lparr>ss_headers := header_insert ''proxy-authorization'' (''Bearer '' @ token) (ss_headers s)\<rparr>)
      else Inl (Invalid ''the credential contains characters a header cannot carry''))"

subsection \<open>Opening a session from flags\<close>

record tls_args =
  ta_authority :: "string option"
  ta_template :: "string option"
  ta_ca :: "string option"
  ta_insecure :: bool

datatype trust = Trust_Ca string | Trust_Anything | Trust_Webpki

record dial_env =
  de_session :: session_env
  de_lookup :: "string \<Rightarrow> string + socket_addr list"
  de_read :: "string \<Rightarrow> string option"
  de_ca_ok :: "string \<Rightarrow> bool"
  de_bind :: "trust \<Rightarrow> bool"
  de_dial :: "trust \<Rightarrow> socket_addr \<Rightarrow> string \<Rightarrow> string + dialled"
  de_header_ok :: "string \<Rightarrow> bool"

definition resolve_proxy :: "(string \<Rightarrow> string + socket_addr list) \<Rightarrow> string \<Rightarrow> string + socket_addr \<times> string" where
  "resolve_proxy lookup spec =
     (let with_port = proxy_with_port spec
      in and_then (map_err (\<lambda>_. ''resolving the gateway address'') (lookup with_port)) (\<lambda>addrs.
           case addrs of
             [] \<Rightarrow> Inl ''did not resolve to any address''
           | addr # _ \<Rightarrow> Inr (addr, with_port)))"

definition client_tls :: "dial_env \<Rightarrow> tls_args \<Rightarrow> string + trust" where
  "client_tls env tls =
     (case ta_ca tls of
        Some path \<Rightarrow>
          and_then (ok_or (''reading '' @ path) (de_read env path)) (\<lambda>pem.
            if de_ca_ok env pem then Inr (Trust_Ca pem) else Inl ''no certificates'')
      | None \<Rightarrow> Inr (if ta_insecure tls then Trust_Anything else Trust_Webpki))"

definition session_template :: "tls_args \<Rightarrow> string \<Rightarrow> string + uri_template" where
  "session_template tls authority =
     and_then
       (case ta_template tls of
          Some raw \<Rightarrow> map_err (\<lambda>_. ''parsing --template'') (template_parse raw)
        | None \<Rightarrow> map_err (\<lambda>_. ''the default template'') (default_connect_udp authority))
       (\<lambda>t. and_then (map_err (\<lambda>_. ''a connect-udp template needs target_host and target_port'')
              (require_variables t CONNECT_UDP_VARIABLES)) (\<lambda>_. Inr t))"

record connected =
  cn_session :: client_session
  cn_trust :: trust
  cn_refresh :: "(refresh_mode \<times> nat) option"
  cn_credential :: "string option"
  cn_login :: "(login_credentials \<times> string) option"

definition open_session ::
  "dial_env \<Rightarrow> string \<Rightarrow> tls_args \<Rightarrow> auth_args \<Rightarrow> (string \<times> string) list \<Rightarrow> string + login_credentials option \<Rightarrow>
     string + connected" where
  "open_session env gateway tls auth headers stored =
     and_then (resolve_proxy (de_lookup env) gateway) (\<lambda>(proxy, proxy_authority).
     and_then (client_tls env tls) (\<lambda>trust.
     let authority = (case ta_authority tls of Some a \<Rightarrow> a | None \<Rightarrow> proxy_authority)
     in and_then (session_template tls authority) (\<lambda>template.
        if \<not> de_bind env trust then Inl ''binding a local port''
        else
          and_then (map_err (\<lambda>_. ''connecting to the gateway'') (client_connect (de_dial env trust) proxy template)) (\<lambda>session.
          and_then (resolve_bearer (de_session env) auth stored) (\<lambda>b.
          and_then
            (case be_header b of
               None \<Rightarrow> Inr headers
             | Some token \<Rightarrow>
                 if de_header_ok env (''Bearer '' @ token)
                 then Inr (header_insert ''proxy-authorization'' (''Bearer '' @ token) headers)
                 else Inl ''the credential contains characters a header cannot carry'')
            (\<lambda>hs.
              Inr \<lparr>cn_session = (if hs = [] then session else with_default_headers hs session), cn_trust = trust,
                cn_refresh = be_refresh b, cn_credential = be_header b, cn_login = be_login b\<rparr>))))))"

subsection \<open>Opening tunnels\<close>

text \<open>
  \<open>uri_ok\<close> is the URI builder's check of an authority and a path. The default headers are appended to the
  request's own, so a lookup finds the request's first.
\<close>

definition connect_udp_request ::
  "(string \<Rightarrow> string \<Rightarrow> bool) \<Rightarrow> client_session \<Rightarrow> target \<Rightarrow> client_error + http_request" where
  "connect_udp_request uri_ok s t =
     and_then (map_err (\<lambda>_. Invalid ''expanding the template'') (target_expand_path t (ss_template s))) (\<lambda>path.
       if \<not> uri_ok (ss_authority s) path then Inl (Invalid ''building request URI'')
       else Inr \<lparr>ht_method = ''CONNECT'', ht_protocol = Some (upgrade_token ConnectUdp), ht_authority = Some (ss_authority s),
         ht_path = Some path, ht_uri_path = takeWhile (\<lambda>c. c \<noteq> CHR ''?'') path,
         ht_header = map_of ((''capsule-protocol'', ''?1'') # ss_headers s)\<rparr>)"

definition connect_tcp_request ::
  "(string \<Rightarrow> string \<Rightarrow> bool) \<Rightarrow> client_session \<Rightarrow> target \<Rightarrow> client_error + http_request" where
  "connect_tcp_request uri_ok s t =
     (let authority = target_display t
      in if \<not> uri_ok authority ''/'' then Inl (Invalid ''building the CONNECT URI'')
         else Inr \<lparr>ht_method = ''CONNECT'', ht_protocol = None, ht_authority = Some authority, ht_path = None,
           ht_uri_path = [], ht_header = map_of (ss_headers s)\<rparr>)"

text \<open>A header value is readable as text when every byte is visible ASCII or a tab.\<close>

definition header_to_str :: "string \<Rightarrow> string option" where
  "header_to_str v = (if list_all (\<lambda>c. 32 \<le> char_code c \<and> char_code c < 127 \<or> char_code c = 9) v then Some v else None)"

definition tunnel_response :: "http_response \<Rightarrow> client_error + unit" where
  "tunnel_response r =
     (if 200 \<le> rs_status r \<and> rs_status r < 300 then Inr ()
      else Inl (Tunnel_Rejected (rs_status r) (Option.bind (map_of (rs_headers r) ''proxy-status'') header_to_str)))"

subsection \<open>The credential exchange\<close>

definition exchange_request ::
  "(string \<Rightarrow> string \<Rightarrow> bool) \<Rightarrow> (string \<Rightarrow> bool) \<Rightarrow> client_session \<Rightarrow> string \<Rightarrow> client_error + http_request" where
  "exchange_request uri_ok header_ok s token =
     (if \<not> uri_ok (ss_authority s) CREDENTIAL_EXCHANGE_PATH then Inl (Invalid ''building the exchange URI'')
      else if \<not> header_ok (''Bearer '' @ token) then Inl (Invalid ''building the exchange request'')
      else Inr \<lparr>ht_method = ''POST'', ht_protocol = None, ht_authority = Some (ss_authority s),
        ht_path = Some CREDENTIAL_EXCHANGE_PATH, ht_uri_path = CREDENTIAL_EXCHANGE_PATH,
        ht_header = map_of [(''authorization'', ''Bearer '' @ token)]\<rparr>)"

definition MAX_EXCHANGE_RESPONSE :: nat where
  "MAX_EXCHANGE_RESPONSE = 64 * 1024"

fun exchange_read :: "string \<Rightarrow> (string + string) list \<Rightarrow> client_error + string" where
  "exchange_read body [] = Inr body"
| "exchange_read body (Inl e # cs) = Inl (Dial_Failed e)"
| "exchange_read body (Inr chunk # cs) =
     (if MAX_EXCHANGE_RESPONSE < length (body @ chunk) then Inl (Invalid ''the exchange response is implausibly large'')
      else exchange_read (body @ chunk) cs)"

text \<open>\<open>read_reply\<close> reads the body's JSON fields \<^verbatim>\<open>credential\<close> and \<^verbatim>\<open>expires_in\<close>; \<open>lossy\<close> is the lossy UTF-8 reading.\<close>

definition exchange_answer ::
  "(string \<Rightarrow> (string \<times> nat) option) \<Rightarrow> (string \<Rightarrow> string) \<Rightarrow> nat \<Rightarrow> (string + string) list \<Rightarrow> client_error + client_credential" where
  "exchange_answer read_reply lossy status chunks =
     and_then (exchange_read [] chunks) (\<lambda>body.
       if \<not> (200 \<le> status \<and> status < 300) then
         (let detail = str_trim (lossy body)
          in Inl (Exchange_Failed status (if detail = [] then None else Some detail)))
       else
         and_then (ok_or (Invalid ''parsing the exchange response'') (read_reply body)) (\<lambda>(token, expires_in).
           Inr \<lparr>cl_token = token, cl_expires_in = secs expires_in\<rparr>))"

subsection \<open>Data through a tunnel\<close>

definition udp_max_payload :: "nat option \<Rightarrow> u64 \<Rightarrow> nat option" where
  "udp_max_payload datagram_size stream =
     Option.bind (max_payload_size datagram_size stream) (\<lambda>n. if 1 \<le> n then Some (n - 1) else None)"

text \<open>
  What a UDP tunnel sees when it is polled: a datagram, the end of the inbound channel, or the end of the
  request stream. Datagrams are drained before the end of the stream is noticed.
\<close>

datatype udp_client_event = Datagram_In bytes | Channel_Closed | Stream_Ended

text \<open>One call of \<^verbatim>\<open>recv\<close>: the payload, the events left, and whether the reader still runs.\<close>

fun udp_recv :: "udp_client_event list \<Rightarrow> bool \<Rightarrow> bytes option \<times> udp_client_event list \<times> bool" where
  "udp_recv es False = (None, es, False)"
| "udp_recv [] True = (None, [], True)"
| "udp_recv (Datagram_In raw # es) True =
     (case udp_decode_payload raw of
        Inr (UdpPayload p) \<Rightarrow> (Some p, es, True)
      | _ \<Rightarrow> udp_recv es True)"
| "udp_recv (Channel_Closed # es) True = (None, es, True)"
| "udp_recv (Stream_Ended # es) True = (None, es, False)"

text \<open>
  Bridging a local socket to a TCP tunnel: two pumps, polled independently. A read of nothing from the
  local side closes the sending direction; the end of the tunnel's stream shuts the local side down. Any
  error ends both. The flag of a data event says whether the bytes could be passed on.
\<close>

datatype bridge_event =
    Local_Read bytes bool
  | Local_Error
  | Tunnel_Data bytes bool
  | Tunnel_Fin bool
  | Tunnel_Error

record bridge =
  br_up :: "bytes list"
  br_down :: "bytes list"
  br_up_done :: bool
  br_down_done :: bool

definition bridge_init :: bridge where
  "bridge_init = \<lparr>br_up = [], br_down = [], br_up_done = False, br_down_done = False\<rparr>"

definition bridge_on :: "bridge \<Rightarrow> bool \<times> bridge" where
  "bridge_on b = (\<not> (br_up_done b \<and> br_down_done b), b)"

definition bridge_step :: "bridge_event \<Rightarrow> bridge \<Rightarrow> bool \<times> bridge" where
  "bridge_step e b =
     (case e of
        Local_Read p ok \<Rightarrow>
          if br_up_done b then (True, b)
          else if \<not> ok then (False, b)
          else if p = [] then bridge_on (b\<lparr>br_up_done := True\<rparr>)
          else (True, b\<lparr>br_up := br_up b @ [p]\<rparr>)
      | Local_Error \<Rightarrow> (br_up_done b, b)
      | Tunnel_Data p ok \<Rightarrow>
          if br_down_done b then (True, b)
          else if \<not> ok then (False, b)
          else (True, b\<lparr>br_down := br_down b @ [p]\<rparr>)
      | Tunnel_Fin ok \<Rightarrow>
          if br_down_done b then (True, b)
          else if \<not> ok then (False, b)
          else bridge_on (b\<lparr>br_down_done := True\<rparr>)
      | Tunnel_Error \<Rightarrow> (br_down_done b, b))"

subsection \<open>A tunnel request arrives as it was meant\<close>

lemma map_of_header_insert:
  "map_of (header_insert n v hs) m = (if m = n then Some v else map_of hs m)"
proof -
  have "m \<noteq> n \<Longrightarrow> map_of (filter (\<lambda>(k, _). k \<noteq> n) hs) m = map_of hs m" by (induction hs) auto
  then show ?thesis by (simp add: header_insert_def)
qed

lemma resolve_proxy_authority: "resolve_proxy lookup spec = Inr (proxy, pa) \<Longrightarrow> pa = proxy_with_port spec"
  by (cases "lookup (proxy_with_port spec)") (auto simp: resolve_proxy_def Let_def split: list.splits)

lemma open_session_Inr:
  assumes "open_session env gateway tls auth headers stored = Inr c"
  obtains proxy pa trust template b token where
    "resolve_proxy (de_lookup env) gateway = Inr (proxy, pa)" "client_tls env tls = Inr trust" "cn_trust c = trust"
    "session_template tls (case ta_authority tls of Some a \<Rightarrow> a | None \<Rightarrow> pa) = Inr template"
    "resolve_bearer (de_session env) auth stored = Inr b" "be_header b = Some token" "cn_credential c = Some token"
    "cn_session c = \<lparr>ss_template = template, ss_authority = ut_authority template,
       ss_headers = header_insert ''proxy-authorization'' (''Bearer '' @ token) headers\<rparr>"
proof -
  obtain proxy pa where p: "resolve_proxy (de_lookup env) gateway = Inr (proxy, pa)"
    using assms by (auto simp: open_session_def and_then_Inr_iff)
  obtain trust where t: "client_tls env tls = Inr trust"
    using assms p by (auto simp: open_session_def and_then_Inr_iff Let_def)
  let ?a = "case ta_authority tls of Some a \<Rightarrow> a | None \<Rightarrow> pa"
  obtain template where m: "session_template tls ?a = Inr template" "de_bind env trust"
    using assms p t by (auto simp: open_session_def and_then_Inr_iff Let_def split: if_splits)
  obtain session b where s: "client_connect (de_dial env trust) proxy template = Inr session"
      "resolve_bearer (de_session env) auth stored = Inr b"
    using assms p t m by (auto simp: open_session_def and_then_Inr_iff Let_def)
  obtain token where k: "be_header b = Some token" using resolve_bearer_Inr [OF s(2)] by blast
  have ss: "session = \<lparr>ss_template = template, ss_authority = ut_authority template, ss_headers = []\<rparr>"
    using s(1) by (auto simp: client_connect_def and_then_Inr_iff split: if_splits)
  have "de_header_ok env (''Bearer '' @ token) \<and> c = \<lparr>cn_session = with_default_headers
      (header_insert ''proxy-authorization'' (''Bearer '' @ token) headers) session,
      cn_trust = trust, cn_refresh = be_refresh b, cn_credential = be_header b, cn_login = be_login b\<rparr>"
    using assms p t m s k by (auto simp: open_session_def and_then_Inr_iff Let_def header_insert_def split: if_splits)
  then show ?thesis using that [OF p t _ m(1) s(2) k] k ss by (simp add: with_default_headers_def)
qed

text \<open>
  C10. A tunnel request arrives as the user meant it. Every session that opens has a credential, and each
  tunnel opened from it reaches the gateway, whatever kind of tunnel it is, as a request for exactly that
  target, whose \<^verbatim>\<open>Proxy-Authorization\<close> is that credential and whose other fields, the application and the
  policy pin among them, are the ones the command was given. The gateway serves the default template of the
  authority the session presents, which is the one given on the command line or the gateway's own address.
\<close>

theorem tunnel_request_arrives_as_meant:
  assumes "open_session env gateway tls auth headers stored = Inr c" "ta_template tls = None"
    and "a = (case ta_authority tls of Some a \<Rightarrow> a | None \<Rightarrow> proxy_with_port gateway)" "list_all authority_char a" "a \<noteq> []"
    and "host_ok (tg_host t)" "tg_port t \<noteq> 0"
    and "connect_udp_request uri_ok (cn_session c) t = Inr udp" "connect_tcp_request uri_ok (cn_session c) t = Inr tcp"
  shows "\<exists>template token. default_template ConnectUdp a = Inr template \<and> cn_credential c = Some token \<and>
    parse_request describe udp template client = Inr (request_new ConnectUdp (DestUdp t) client (ht_header udp)) \<and>
    parse_request describe tcp template client = Inr (request_new ConnectTcp (DestTcp t) client (ht_header tcp)) \<and>
    ht_header udp ''proxy-authorization'' = Some (''Bearer '' @ token) \<and>
    ht_header tcp ''proxy-authorization'' = Some (''Bearer '' @ token) \<and>
    (\<forall>n. n \<noteq> ''proxy-authorization'' \<longrightarrow> ht_header tcp n = map_of headers n \<and>
       (n \<noteq> ''capsule-protocol'' \<longrightarrow> ht_header udp n = map_of headers n))"
proof -
  obtain proxy pa template token where s: "resolve_proxy (de_lookup env) gateway = Inr (proxy, pa)"
      "session_template tls (case ta_authority tls of Some a \<Rightarrow> a | None \<Rightarrow> pa) = Inr template"
      "cn_credential c = Some token"
      "cn_session c = \<lparr>ss_template = template, ss_authority = ut_authority template,
         ss_headers = header_insert ''proxy-authorization'' (''Bearer '' @ token) headers\<rparr>"
    using assms(1) by (rule open_session_Inr)
  have "pa = proxy_with_port gateway" using s(1) by (rule resolve_proxy_authority)
  then have d: "default_connect_udp a = Inr template"
    using s(2) assms(2,3) by (auto simp: session_template_def and_then_Inr_iff)
  obtain t' path where r: "default_template ConnectUdp a = Inr t'" "target_expand_path t t' = Inr path" "target_from_path t' path = Inr t"
    using target_path_roundtrip [OF _ assms(4-7), of ConnectUdp] by blast
  have t': "t' = template" using r(1) d by (simp add: default_template_def)
  have u: "udp = \<lparr>ht_method = ''CONNECT'', ht_protocol = Some (upgrade_token ConnectUdp), ht_authority = Some (ut_authority template),
      ht_path = Some path, ht_uri_path = takeWhile (\<lambda>c. c \<noteq> CHR ''?'') path,
      ht_header = map_of ((''capsule-protocol'', ''?1'') # header_insert ''proxy-authorization'' (''Bearer '' @ token) headers)\<rparr>"
    using assms(8) r(2) t' s(4) by (auto simp: connect_udp_request_def and_then_Inr_iff split: if_splits)
  have v: "tcp = \<lparr>ht_method = ''CONNECT'', ht_protocol = None, ht_authority = Some (target_display t), ht_path = None,
      ht_uri_path = [], ht_header = map_of (header_insert ''proxy-authorization'' (''Bearer '' @ token) headers)\<rparr>"
    using assms(9) s(4) by (auto simp: connect_tcp_request_def Let_def split: if_splits)
  have "target_parse (target_display t) = Inr t" using assms(6,7) by (rule target_display_roundtrip)
  then show ?thesis
    using r t' s(3)
    by (intro exI [of _ template] exI [of _ token])
      (simp add: u v parse_request_def parse_classic_def protocol_from_str_def upgrade_token_def map_of_header_insert)
qed

subsection \<open>The exchange, from end to end\<close>

lemma exchange_read_chunks:
  "length (body @ concat chunks) \<le> MAX_EXCHANGE_RESPONSE \<Longrightarrow> exchange_read body (map Inr chunks) = Inr (body @ concat chunks)"
  by (induction chunks arbitrary: body) auto

text \<open>
  C25. A credential exchange means the same on both ends. The client's request carries its token, the
  gateway mints for exactly that token, and the client ends up with the credential and the lifetime that were
  minted, however the response body was cut into chunks; a refused token is reported as a \<^verbatim>\<open>403\<close> and an
  unreachable issuer as a \<^verbatim>\<open>502\<close>. The JSON library reads what it printed, and the body is below the client's
  ceiling of 64 KiB.
\<close>

theorem exchange_end_to_end:
  assumes "exchange_request uri_ok header_ok s token = Inr req"
    and "mint token w = (r, w1)" "serve_exchange (Some mint) clock now req client None w = (reply, limiter, w2)"
    and "concat chunks = print_body (jr_body reply)" "length (concat chunks) \<le> MAX_EXCHANGE_RESPONSE"
    and "r = Inr m \<longrightarrow> read_reply (print_body (Credential_Body (mc_credential m) ''Bearer'' (mc_expires_in m))) =
      Some (mc_credential m, mc_expires_in m)"
  shows "w2 = w1 \<and> is_exchange req \<and>
    (case r of
       Inr m' \<Rightarrow> m' = m \<longrightarrow> exchange_answer read_reply lossy (jr_status reply) (map Inr chunks) =
         Inr \<lparr>cl_token = mc_credential m, cl_expires_in = secs (mc_expires_in m)\<rparr>
     | Inl (Mint_Unavailable _) \<Rightarrow>
         \<exists>detail. exchange_answer read_reply lossy (jr_status reply) (map Inr chunks) = Inl (Exchange_Failed 502 detail)
     | Inl _ \<Rightarrow> \<exists>detail. exchange_answer read_reply lossy (jr_status reply) (map Inr chunks) = Inl (Exchange_Failed 403 detail))"
proof -
  have q: "req = \<lparr>ht_method = ''POST'', ht_protocol = None, ht_authority = Some (ss_authority s),
      ht_path = Some CREDENTIAL_EXCHANGE_PATH, ht_uri_path = CREDENTIAL_EXCHANGE_PATH,
      ht_header = map_of [(''authorization'', ''Bearer '' @ token)]\<rparr>"
    using assms(1) by (auto simp: exchange_request_def split: if_splits)
  have "strip_prefix ''Bearer '' (''Bearer '' @ token) = Some token" by (rule strip_prefix_append)
  then have p: "reply = mint_reply r" "w2 = w1"
    using assms(2,3) by (auto simp: serve_exchange_def q)
  have b: "exchange_read [] (map Inr chunks) = Inr (print_body (jr_body reply))"
    using exchange_read_chunks [of "[]" chunks] assms(4,5) by simp
  have e: "is_exchange req" by (simp add: is_exchange_def q)
  show ?thesis
  proof (cases r)
    case (Inl err)
    then show ?thesis using p(2) b e by (cases err) (simp_all add: p(1) exchange_answer_def mint_reply_def finish_json_def Let_def)
  next
    case (Inr m')
    then show ?thesis using p b e assms(6) by (simp add: exchange_answer_def mint_reply_def finish_json_def)
  qed
qed

subsection \<open>Data arrives in order\<close>

text \<open>Calling \<^verbatim>\<open>recv\<close> until it returns nothing.\<close>

function udp_drain :: "udp_client_event list \<Rightarrow> bool \<Rightarrow> bytes list" where
  "udp_drain es reading =
     (case udp_recv es reading of
        (Some p, es', reading') \<Rightarrow> if length es' < length es then p # udp_drain es' reading' else [p]
      | (None, _) \<Rightarrow> [])"
  by pat_completeness auto
termination by (relation "measure (\<lambda>(es, _). length es)") auto

definition payload_of :: "bytes \<Rightarrow> bytes option" where
  "payload_of raw = (case udp_decode_payload raw of Inr (UdpPayload p) \<Rightarrow> Some p | _ \<Rightarrow> None)"

lemma udp_recv_next:
  "udp_recv (map Datagram_In raws @ Stream_Ended # es) True =
     (case List.map_filter payload_of raws of
        [] \<Rightarrow> (None, es, False)
      | p # _ \<Rightarrow> (Some p, map Datagram_In (tl (dropWhile (\<lambda>r. payload_of r = None) raws)) @ Stream_Ended # es, True))"
  by (induction raws) (auto simp: payload_of_def List.map_filter_def split: sum.splits incoming.splits list.splits)

text \<open>Every payload that arrived before the stream ended is received, in order, and nothing else.\<close>

lemma recv_drains_before_the_end:
  "udp_drain (map Datagram_In raws @ Stream_Ended # es) True = List.map_filter payload_of raws"
proof (induction raws rule: length_induct)
  case (1 raws)
  show ?case
  proof (cases "dropWhile (\<lambda>r. payload_of r = None) raws")
    case Nil
    then have "List.map_filter payload_of raws = []"
      by (auto simp: List.map_filter_def dropWhile_eq_Nil_conv filter_empty_conv)
    then show ?thesis by (simp add: udp_recv_next)
  next
    case (Cons r rest)
    have r: "payload_of r \<noteq> None" using Cons by (metis (mono_tags, lifting) hd_dropWhile list.distinct(1) list.sel(1))
    then obtain p where p: "payload_of r = Some p" by blast
    have raws: "raws = takeWhile (\<lambda>r. payload_of r = None) raws @ r # rest" using Cons by (metis takeWhile_dropWhile_id)
    have f: "List.map_filter payload_of raws = p # List.map_filter payload_of rest"
    proof -
      have "filter (\<lambda>r. payload_of r \<noteq> None) (takeWhile (\<lambda>r. payload_of r = None) raws) = []"
        by (auto simp: filter_empty_conv dest: set_takeWhileD)
      then show ?thesis by (subst raws) (simp add: List.map_filter_def p)
    qed
    have l: "length rest < length raws" by (subst raws) simp
    show ?thesis using 1 [rule_format, OF l] l by (simp add: udp_recv_next f Cons)
  qed
qed

text \<open>What the events of a bridge carry in each direction, up to the end of that direction.\<close>

fun bridge_up :: "bridge_event list \<Rightarrow> bytes list" where
  "bridge_up [] = []"
| "bridge_up (Local_Read p ok # es) = (if \<not> ok \<or> p = [] then [] else p # bridge_up es)"
| "bridge_up (_ # es) = bridge_up es"

fun bridge_down :: "bridge_event list \<Rightarrow> bytes list" where
  "bridge_down [] = []"
| "bridge_down (Tunnel_Data p ok # es) = (if ok then p # bridge_down es else [])"
| "bridge_down (Tunnel_Fin _ # es) = []"
| "bridge_down (_ # es) = bridge_down es"

text \<open>
  A bridge passes on what each side wrote, in order, and stops at an error or when both directions have
  ended: the bytes sent up are those the local side read before its end, the bytes written down those of the
  tunnel before its end, of the events handled so far.
\<close>

lemma bridge_carries_streams:
  "run_loop bridge_step es b = (on, b') \<Longrightarrow>
     \<exists>us ws. es = us @ ws \<and> (on \<longrightarrow> ws = []) \<and>
       br_up b' = br_up b @ (if br_up_done b then [] else bridge_up us) \<and>
       br_down b' = br_down b @ (if br_down_done b then [] else bridge_down us)"
proof (induction es arbitrary: b)
  case (Cons e es)
  obtain k b1 where st: "bridge_step e b = (k, b1)" by fastforce
  show ?case
  proof (cases k)
    case True
    then obtain us ws where u: "es = us @ ws" "on \<longrightarrow> ws = []"
      "br_up b' = br_up b1 @ (if br_up_done b1 then [] else bridge_up us)"
      "br_down b' = br_down b1 @ (if br_down_done b1 then [] else bridge_down us)"
      using Cons.IH [of b1] Cons.prems st by auto
    show ?thesis
      by (rule exI [of _ "e # us"], rule exI [of _ ws])
        (use u st True in \<open>auto simp: bridge_step_def bridge_on_def split: bridge_event.splits if_splits\<close>)
  next
    case False
    then have "b' = b1" "\<not> on" using Cons.prems st by auto
    then show ?thesis
      by (intro exI [of _ "[e]"] exI [of _ es])
        (use st False in \<open>auto simp: bridge_step_def bridge_on_def split: bridge_event.splits if_splits\<close>)
  qed
qed simp

text \<open>Once both directions have ended the bridge is over, and it never waits for a third.\<close>

lemma bridge_ends_with_both:
  assumes "bridge_step e b = (True, b')" "\<not> (br_up_done b \<and> br_down_done b)"
  shows "\<not> (br_up_done b' \<and> br_down_done b')"
  using assms by (auto simp: bridge_step_def bridge_on_def split: bridge_event.splits if_splits)

subsection \<open>Samples\<close>

definition sample_dial :: dial_env where
  "sample_dial = \<lparr>de_session = sample_session_env, de_lookup = (\<lambda>_. Inr [SocketAddr (V4 1) 443]), de_read = (\<lambda>_. None),
     de_ca_ok = (\<lambda>_. True), de_bind = (\<lambda>_. True), de_dial = (\<lambda>_ _ _. Inr \<lparr>dl_datagrams = True, dl_handshake = Inr ()\<rparr>),
     de_header_ok = (\<lambda>_. True)\<rparr>"

definition sample_tls :: tls_args where
  "sample_tls = \<lparr>ta_authority = None, ta_template = None, ta_ca = None, ta_insecure = False\<rparr>"

definition sample_dest :: target where
  "sample_dest = \<lparr>tg_host = Ip (V6 0x20010db8000000000000000000000042), tg_port = 443\<rparr>"

lemma sample_default_udp: "\<exists>t. default_connect_udp ''gw.example:443'' = Inr t \<and> require_variables t CONNECT_UDP_VARIABLES = Inr ()"
proof -
  have "case default_connect_udp ''gw.example:443'' of Inl _ \<Rightarrow> False | Inr t \<Rightarrow> require_variables t CONNECT_UDP_VARIABLES = Inr ()"
    by code_simp
  then show ?thesis by (auto split: sum.splits)
qed

theorem tunnel_request_arrives_as_meant_witness:
  "\<exists>c udp tcp token. open_session sample_dial ''gw.example'' sample_tls sample_auth [(''x-masque-application'', ''psql'')] (Inr None) = Inr c \<and>
     connect_udp_request (\<lambda>_ _. True) (cn_session c) sample_dest = Inr udp \<and> cn_credential c = Some token \<and>
     connect_tcp_request (\<lambda>_ _. True) (cn_session c) sample_dest = Inr tcp \<and>
     ht_header udp ''proxy-authorization'' = Some (''Bearer '' @ token) \<and>
     ht_header tcp ''x-masque-application'' = Some ''psql''"
proof -
  let ?hs = "[(''x-masque-application'', ''psql'')]" and ?u = "\<lambda>_ _. True"
  have pp: "proxy_with_port ''gw.example'' = ''gw.example:443''" by code_simp
  obtain t where t: "default_connect_udp ''gw.example:443'' = Inr t" "require_variables t CONNECT_UDP_VARIABLES = Inr ()"
    using sample_default_udp by blast
  have rb: "resolve_bearer sample_session_env sample_auth (Inr None) =
      Inr \<lparr>be_header = Some ''c'', be_refresh = Some (Refresh_Oidc ''g'' None, secs 3600), be_login = None\<rparr>"
    by (simp add: resolve_bearer_def auth_mode_of_def sample_auth_def sample_session_env_def refresh_run_def map_err_def)
  obtain c where c: "open_session sample_dial ''gw.example'' sample_tls sample_auth ?hs (Inr None) = Inr c"
    "cn_session c = \<lparr>ss_template = t, ss_authority = ut_authority t, ss_headers = header_insert ''proxy-authorization'' ''Bearer c'' ?hs\<rparr>"
    by (simp add: open_session_def resolve_proxy_def sample_dial_def pp client_tls_def sample_tls_def session_template_def t
        client_connect_def rb with_default_headers_def header_insert_def)
  have h: "host_ok (tg_host sample_dest)"
  proof -
    have "target_host_parse ''2001:db8::42'' = Inr (Ip (V6 0x20010db8000000000000000000000042))"
      "str_valid ''2001:db8::42''" by code_simp+
    then show ?thesis unfolding host_ok_def by (auto simp: sample_dest_def)
  qed
  have a: "list_all authority_char ''gw.example:443''" by code_simp
  have "default_template ConnectUdp ''gw.example:443'' = Inr t" using t(1) by (simp add: default_template_def)
  moreover have p: "tg_port sample_dest \<noteq> 0" by (simp add: sample_dest_def)
  ultimately obtain path where path: "target_expand_path sample_dest t = Inr path"
    using target_path_roundtrip [OF _ a _ h p, of ConnectUdp] by auto
  obtain udp where u: "connect_udp_request ?u (cn_session c) sample_dest = Inr udp" by (simp add: connect_udp_request_def c(2) path)
  obtain tcp where v: "connect_tcp_request ?u (cn_session c) sample_dest = Inr tcp" by (simp add: connect_tcp_request_def Let_def)
  have eq: "''gw.example:443'' = (case ta_authority sample_tls of Some a \<Rightarrow> a | None \<Rightarrow> proxy_with_port ''gw.example'')"
    by (simp add: sample_tls_def pp)
  have nt: "ta_template sample_tls = None" by (simp add: sample_tls_def)
  have ne: "''gw.example:443'' \<noteq> []" by simp
  from tunnel_request_arrives_as_meant [OF c(1) nt eq a ne h p u v, of "\<lambda>_. []" "SocketAddr (V4 1) 1"]
  obtain token where k: "cn_credential c = Some token" "ht_header udp ''proxy-authorization'' = Some (''Bearer '' @ token)"
      "\<forall>n. n \<noteq> ''proxy-authorization'' \<longrightarrow> ht_header tcp n = map_of ?hs n \<and>
        (n \<noteq> ''capsule-protocol'' \<longrightarrow> ht_header udp n = map_of ?hs n)"
    by (elim exE conjE) (rule that; assumption)
  have "ht_header tcp ''x-masque-application'' = Some ''psql''"
    using spec [OF k(3), of "''x-masque-application''"] by simp
  then show ?thesis using c(1) u v k(1,2) by (intro exI conjI)
qed

theorem exchange_end_to_end_witness:
  "exchange_answer (\<lambda>b. if b = ''ok'' then Some (''cred'', 3600) else None) (\<lambda>s. s) 200 [Inr ''o'', Inr ''k''] =
     Inr \<lparr>cl_token = ''cred'', cl_expires_in = secs 3600\<rparr>"
proof -
  let ?m = "\<lparr>mc_credential = ''cred'', mc_expires_in = 3600\<rparr> :: minted_credential"
  let ?s = "\<lparr>ss_template = undefined, ss_authority = ''gw'', ss_headers = []\<rparr> :: client_session"
  obtain req where r: "exchange_request (\<lambda>_ _. True) (\<lambda>_. True) ?s ''jwt'' = Inr req" "ht_header req = map_of [(''authorization'', ''Bearer jwt'')]"
    by (simp add: exchange_request_def)
  let ?mint = "\<lambda>(token :: string) (w :: unit). (Inr ?m :: mint_error + minted_credential, w)"
  have sp: "strip_prefix ''Bearer '' ''Bearer jwt'' = Some ''jwt''" by code_simp
  have sv: "serve_exchange (Some ?mint) (\<lambda>_. 0) 0 req (V4 1) None () = (mint_reply (Inr ?m), None, ())"
    using sp by (simp add: serve_exchange_def r(2))
  show ?thesis
    using exchange_end_to_end [OF r(1) _ sv, of "Inr ?m" "()" "[''o'', ''k'']" "\<lambda>_. ''ok''" ?m
        "\<lambda>b. if b = ''ok'' then Some (''cred'', 3600) else None" "\<lambda>s. s"]
    by (simp add: mint_reply_def finish_json_def MAX_EXCHANGE_RESPONSE_def)
qed

end
