(* ===== verification/Account.thy ===== *)
theory Account
  imports Control_Http
begin

text \<open>
  The developer's side of the control plane (\<^verbatim>\<open>skimasque-cli/src/account.rs\<close>): the credential file of
  \<^verbatim>\<open>skimasque login\<close>, the requests of the management API and the reading of its answers, the device flow and
  the paging of the audit trail. The HTTP and JSON libraries are the \<open>web\<close> argument; a file has contents and
  permission bits.
\<close>

subsection \<open>Files\<close>

type_synonym login_files = "string \<rightharpoonup> string \<times> nat"

definition join_path :: "string \<Rightarrow> string \<Rightarrow> string" where
  "join_path dir name = dir @ ''/'' @ name"

text \<open>\<open>env_var\<close> reads an environment variable; paths are those of Unix.\<close>

definition credentials_path :: "(string \<Rightarrow> string option) \<Rightarrow> string + string" where
  "credentials_path env_var =
     (case env_var ''SKIMASQUE_CONFIG_HOME'' of
        Some dir \<Rightarrow> Inr (join_path dir ''credentials.json'')
      | None \<Rightarrow>
          (case env_var ''XDG_CONFIG_HOME'' of
             Some dir \<Rightarrow> Inr (join_path (join_path dir ''skimasque'') ''credentials.json'')
           | None \<Rightarrow>
               and_then (ok_or ''no home directory (set SKIMASQUE_CONFIG_HOME)''
                   (map_option (\<lambda>h. join_path h ''.config'') (env_var ''HOME''))) (\<lambda>base.
                 Inr (join_path (join_path base ''skimasque'') ''credentials.json''))))"

text \<open>Opening with a mode sets it only on a file that is created; an existing one keeps its own.\<close>

definition write_private :: "string \<Rightarrow> string \<Rightarrow> login_files \<Rightarrow> login_files" where
  "write_private path bytes fs =
     fs(path \<mapsto> (bytes, case fs path of None \<Rightarrow> 384 | Some (_, mode) \<Rightarrow> mode))"

definition login_json :: "login_credentials \<Rightarrow> json" where
  "login_json c = JObject [(''control_plane'', JString (lc_control_plane c)), (''session_token'', JString (lc_session_token c)),
     (''github_login'', JString (lc_github_login c)), (''user_id'', JString (lc_user_id c))]"

definition read_login :: "json \<Rightarrow> login_credentials option" where
  "read_login j =
     Option.bind (struct_fields [(''control_plane'', False), (''session_token'', False), (''github_login'', False),
       (''user_id'', False)] j) (\<lambda>ms.
     Option.bind (field json_as_str ms ''control_plane'') (\<lambda>plane.
     Option.bind (field json_as_str ms ''session_token'') (\<lambda>token.
     Option.bind (field json_as_str ms ''github_login'') (\<lambda>login.
     Option.bind (field json_as_str ms ''user_id'') (\<lambda>user.
       Some \<lparr>lc_control_plane = plane, lc_session_token = token, lc_github_login = login, lc_user_id = user\<rparr>)))))"

text \<open>\<open>readable\<close> and \<open>removable\<close> say whether reading or removing a file that is there succeeds.\<close>

definition load_login :: "web \<Rightarrow> string + string \<Rightarrow> bool \<Rightarrow> login_files \<Rightarrow> string + login_credentials option" where
  "load_login w path readable fs =
     and_then path (\<lambda>p.
       case fs p of
         None \<Rightarrow> Inr None
       | Some (bytes, _) \<Rightarrow>
           if \<not> readable then Inl ''reading the stored credentials''
           else and_then (ok_or ''parsing the stored credentials'' (Option.bind (wb_parse w bytes) read_login)) (\<lambda>c. Inr (Some c)))"

definition require_login :: "web \<Rightarrow> string + string \<Rightarrow> bool \<Rightarrow> login_files \<Rightarrow> string + login_credentials" where
  "require_login w path readable fs =
     and_then (load_login w path readable fs) (ok_or ''not signed in -- run `skimasque login` first'')"

definition save_login :: "web \<Rightarrow> string + string \<Rightarrow> bool \<Rightarrow> bool \<Rightarrow> login_credentials \<Rightarrow> login_files \<Rightarrow> string + login_files" where
  "save_login w path dir_ok write_ok c fs =
     and_then path (\<lambda>p.
       if \<not> dir_ok then Inl ''creating the directory''
       else if \<not> write_ok then Inl (''writing '' @ p)
       else Inr (write_private p (wb_print w (login_json c)) fs))"

definition clear_login :: "string + string \<Rightarrow> bool \<Rightarrow> login_files \<Rightarrow> string + login_files" where
  "clear_login path removable fs =
     and_then path (\<lambda>p. if fs p \<noteq> None \<and> \<not> removable then Inl ''removing the stored credentials'' else Inr (fs(p := None)))"

definition write_secret_file :: "bool \<Rightarrow> bool \<Rightarrow> string \<Rightarrow> string \<Rightarrow> bool \<Rightarrow> login_files \<Rightarrow> string + login_files" where
  "write_secret_file open_ok write_ok path bytes overwrite fs =
     (if \<not> overwrite \<and> fs path \<noteq> None then Inl (path @ '' already exists (pass --force to replace it)'')
      else if \<not> open_ok then Inl (''creating '' @ path)
      else if \<not> write_ok then Inl (''writing '' @ path)
      else Inr (write_private path bytes fs))"

subsection \<open>Messages of the management API\<close>

record device_start =
  ds_device_code :: string
  ds_user_code :: string
  ds_verification_uri :: string
  ds_interval :: nat
  ds_expires_in :: nat

definition read_device_start :: "json \<Rightarrow> device_start option" where
  "read_device_start j =
     Option.bind (struct_fields [(''device_code'', False), (''user_code'', False), (''verification_uri'', False),
       (''interval'', False), (''expires_in'', False)] j) (\<lambda>ms.
     Option.bind (field json_as_str ms ''device_code'') (\<lambda>device.
     Option.bind (field json_as_str ms ''user_code'') (\<lambda>user.
     Option.bind (field json_as_str ms ''verification_uri'') (\<lambda>uri.
     Option.bind (field json_secs ms ''interval'') (\<lambda>interval.
     Option.bind (field json_secs ms ''expires_in'') (\<lambda>expires.
       Some \<lparr>ds_device_code = device, ds_user_code = user, ds_verification_uri = uri, ds_interval = interval,
         ds_expires_in = expires\<rparr>))))))"

record user_view =
  uv_id :: string
  uv_github_id :: u64
  uv_github_login :: string
  uv_email :: "string option"

definition read_user :: "json \<Rightarrow> user_view option" where
  "read_user j =
     Option.bind (struct_fields [(''id'', False), (''github_id'', False), (''github_login'', False), (''email'', False)] j) (\<lambda>ms.
     Option.bind (field json_as_str ms ''id'') (\<lambda>uid.
     Option.bind (field json_u64 ms ''github_id'') (\<lambda>gid.
     Option.bind (field json_as_str ms ''github_login'') (\<lambda>login.
     Option.bind (field_opt json_as_str ms ''email'') (\<lambda>email.
       Some \<lparr>uv_id = uid, uv_github_id = gid, uv_github_login = login, uv_email = email\<rparr>)))))"

datatype device_poll = Poll_Pending bool | Poll_Complete string user_view | Poll_Failed string

definition json_bool :: "json \<Rightarrow> bool option" where
  "json_bool j = (case j of JBool b \<Rightarrow> Some b | _ \<Rightarrow> None)"

text \<open>An internally tagged enumeration, from an object; the tag may not be repeated.\<close>

definition read_device_poll :: "json \<Rightarrow> device_poll option" where
  "read_device_poll j =
     Option.bind (struct_fields [(''status'', False)] j) (\<lambda>ms.
     Option.bind (field json_as_str ms ''status'') (\<lambda>tag.
       if tag = ''pending'' then
         Option.bind (struct_fields [(''slow_down'', True)] j) (\<lambda>ms. map_option Poll_Pending (field_or False json_bool ms ''slow_down''))
       else if tag = ''complete'' then
         Option.bind (struct_fields [(''session_token'', False), (''user'', False)] j) (\<lambda>ms.
         Option.bind (field json_as_str ms ''session_token'') (\<lambda>token.
         Option.bind (field read_user ms ''user'') (\<lambda>user. Some (Poll_Complete token user))))
       else if tag = ''failed'' then
         Option.bind (struct_fields [(''reason'', False)] j) (\<lambda>ms. map_option Poll_Failed (field json_as_str ms ''reason''))
       else None))"

definition read_org :: "json \<Rightarrow> org_view option" where
  "read_org j =
     Option.bind (struct_fields [(''id'', False), (''name'', False)] j) (\<lambda>ms.
     Option.bind (field json_as_str ms ''id'') (\<lambda>oid.
     Option.bind (field json_as_str ms ''name'') (\<lambda>name. Some \<lparr>ov_id = oid, ov_name = name\<rparr>)))"

record registration_token =
  rt_token :: string
  rt_expires_at_ms :: u64

definition read_registration_token :: "json \<Rightarrow> registration_token option" where
  "read_registration_token j =
     Option.bind (struct_fields [(''registration_token'', False), (''expires_at_ms'', False)] j) (\<lambda>ms.
     Option.bind (field json_as_str ms ''registration_token'') (\<lambda>token.
     Option.bind (field json_u64 ms ''expires_at_ms'') (\<lambda>at_ms. Some \<lparr>rt_token = token, rt_expires_at_ms = at_ms\<rparr>)))"

record member_view =
  mv_user_id :: string
  mv_github_login :: "string option"
  mv_role :: string
  mv_added_at_ms :: u64

definition read_member :: "json \<Rightarrow> member_view option" where
  "read_member j =
     Option.bind (struct_fields [(''user_id'', False), (''github_login'', False), (''role'', False), (''added_at_ms'', False)] j) (\<lambda>ms.
     Option.bind (field json_as_str ms ''user_id'') (\<lambda>uid.
     Option.bind (field_opt json_as_str ms ''github_login'') (\<lambda>login.
     Option.bind (field json_as_str ms ''role'') (\<lambda>role.
     Option.bind (field json_u64 ms ''added_at_ms'') (\<lambda>at_ms.
       Some \<lparr>mv_user_id = uid, mv_github_login = login, mv_role = role, mv_added_at_ms = at_ms\<rparr>)))))"

definition read_created_org :: "json \<Rightarrow> (org_view \<times> string) option" where
  "read_created_org j =
     Option.bind (struct_fields [(''org'', False), (''registration_token'', False)] j) (\<lambda>ms.
     Option.bind (field read_org ms ''org'') (\<lambda>org.
     Option.bind (field json_as_str ms ''registration_token'') (\<lambda>token. Some (org, token))))"

record usage_view =
  us_tunnels_total :: u64
  us_bytes_total :: u64
  us_active_gateways :: u64
  us_updated_at_ms :: u64

definition read_usage_view :: "json \<Rightarrow> usage_view option" where
  "read_usage_view j =
     Option.bind (struct_fields [(''tunnels_total'', False), (''bytes_total'', False), (''active_gateways'', False),
       (''updated_at_ms'', False)] j) (\<lambda>ms.
     Option.bind (field json_u64 ms ''tunnels_total'') (\<lambda>tunnels.
     Option.bind (field json_u64 ms ''bytes_total'') (\<lambda>nbytes.
     Option.bind (field json_u64 ms ''active_gateways'') (\<lambda>active.
     Option.bind (field json_u64 ms ''updated_at_ms'') (\<lambda>at_ms.
       Some \<lparr>us_tunnels_total = tunnels, us_bytes_total = nbytes, us_active_gateways = active, us_updated_at_ms = at_ms\<rparr>)))))"

record audit_view =
  adv_gateway_id :: string
  adv_seq :: u64
  adv_received_at_ms :: u64
  adv_event :: "json option"

definition read_audit_view :: "json \<Rightarrow> audit_view option" where
  "read_audit_view j =
     Option.bind (struct_fields [(''gateway_id'', False), (''seq'', False), (''received_at_ms'', False), (''event'', False)] j) (\<lambda>ms.
     Option.bind (field json_as_str ms ''gateway_id'') (\<lambda>gid.
     Option.bind (field json_u64 ms ''seq'') (\<lambda>sq.
     Option.bind (field json_u64 ms ''received_at_ms'') (\<lambda>at_ms.
     Option.bind (field_opt Some ms ''event'') (\<lambda>event.
       Some \<lparr>adv_gateway_id = gid, adv_seq = sq, adv_received_at_ms = at_ms, adv_event = event\<rparr>)))))"

record audit_page =
  ap_events :: "audit_view list"
  ap_next_cursor :: "string option"

definition read_audit_page :: "json \<Rightarrow> audit_page option" where
  "read_audit_page j =
     Option.bind (struct_fields [(''events'', False), (''next_cursor'', True)] j) (\<lambda>ms.
     Option.bind (field (json_list read_audit_view) ms ''events'') (\<lambda>events.
     Option.bind (field_opt json_as_str ms ''next_cursor'') (\<lambda>nxt.
       Some \<lparr>ap_events = events, ap_next_cursor = nxt\<rparr>)))"

record sim_step =
  st_ok :: bool
  st_text :: string

record sim_limit =
  li_label :: string
  li_value :: string

record simulate_result =
  sr_against :: string
  sr_outcome :: string
  sr_policy :: "string option"
  sr_rule :: "string option"
  sr_steps :: "sim_step list"
  sr_suggested_rule :: "string option"
  sr_closest :: "string list"
  sr_limits :: "sim_limit list"

definition read_sim_step :: "json \<Rightarrow> sim_step option" where
  "read_sim_step j =
     Option.bind (struct_fields [(''ok'', False), (''text'', False)] j) (\<lambda>ms.
     Option.bind (field json_bool ms ''ok'') (\<lambda>ok.
     Option.bind (field json_as_str ms ''text'') (\<lambda>txt. Some \<lparr>st_ok = ok, st_text = txt\<rparr>)))"

definition read_sim_limit :: "json \<Rightarrow> sim_limit option" where
  "read_sim_limit j =
     Option.bind (struct_fields [(''label'', False), (''value'', False)] j) (\<lambda>ms.
     Option.bind (field json_as_str ms ''label'') (\<lambda>label.
     Option.bind (field json_as_str ms ''value'') (\<lambda>v. Some \<lparr>li_label = label, li_value = v\<rparr>)))"

definition read_simulate_result :: "json \<Rightarrow> simulate_result option" where
  "read_simulate_result j =
     Option.bind (struct_fields [(''against'', False), (''outcome'', False), (''policy'', True), (''rule'', True),
       (''steps'', True), (''suggested_rule'', True), (''closest'', True), (''limits'', True)] j) (\<lambda>ms.
     Option.bind (field json_as_str ms ''against'') (\<lambda>against.
     Option.bind (field json_as_str ms ''outcome'') (\<lambda>outcome.
     Option.bind (field_opt json_as_str ms ''policy'') (\<lambda>policy.
     Option.bind (field_opt json_as_str ms ''rule'') (\<lambda>rule.
     Option.bind (field_or [] (json_list read_sim_step) ms ''steps'') (\<lambda>steps.
     Option.bind (field_opt json_as_str ms ''suggested_rule'') (\<lambda>suggested.
     Option.bind (field_or [] (json_list json_as_str) ms ''closest'') (\<lambda>closest.
     Option.bind (field_or [] (json_list read_sim_limit) ms ''limits'') (\<lambda>limits.
       Some \<lparr>sr_against = against, sr_outcome = outcome, sr_policy = policy, sr_rule = rule, sr_steps = steps,
         sr_suggested_rule = suggested, sr_closest = closest, sr_limits = limits\<rparr>)))))))))"

record gateway_view =
  gv_id :: string
  gv_name :: string
  gv_status :: string
  gv_last_seen_ms :: "u64 option"
  gv_acked_policy_version :: "u64 option"
  gv_labels :: "(string \<times> string) list"

definition read_gateway_view :: "json \<Rightarrow> gateway_view option" where
  "read_gateway_view j =
     Option.bind (struct_fields [(''id'', False), (''name'', False), (''status'', False), (''last_seen_ms'', False),
       (''acked_policy_version'', False), (''labels'', True)] j) (\<lambda>ms.
     Option.bind (field json_as_str ms ''id'') (\<lambda>gid.
     Option.bind (field json_as_str ms ''name'') (\<lambda>name.
     Option.bind (field json_as_str ms ''status'') (\<lambda>status.
     Option.bind (field_opt json_u64 ms ''last_seen_ms'') (\<lambda>seen.
     Option.bind (field_opt json_u64 ms ''acked_policy_version'') (\<lambda>acked.
     Option.bind (field_or [] (json_map json_as_str) ms ''labels'') (\<lambda>labels.
       Some \<lparr>gv_id = gid, gv_name = name, gv_status = status, gv_last_seen_ms = seen, gv_acked_policy_version = acked,
         gv_labels = labels\<rparr>)))))))"

subsection \<open>Requests\<close>

definition api_error_for_status :: "web \<Rightarrow> string \<Rightarrow> web_response \<Rightarrow> string + web_response" where
  "api_error_for_status w what r =
     (if is_success r then Inr r
      else
        (let detail = (case Option.bind (wb_parse w (hp_body r))
                 (\<lambda>v. case v of JObject ms \<Rightarrow> Option.bind (object_map ms ''detail'') json_as_str | _ \<Rightarrow> None) of
               Some d \<Rightarrow> d
             | None \<Rightarrow> str_trim (hp_body r))
         in Inl (what @ '' failed: '' @ wb_show_status w (hp_status r) @ '' '' @ detail)))"

definition api_call ::
  "web \<Rightarrow> string \<Rightarrow> string \<Rightarrow> string \<Rightarrow> (json \<Rightarrow> 'a option) \<Rightarrow> web_request \<Rightarrow> string + 'a" where
  "api_call w ctx what parsing dec req =
     and_then (send_request w ctx req) (\<lambda>r. and_then (api_error_for_status w what r) (answer_body w parsing dec))"

definition api_call_unit :: "web \<Rightarrow> string \<Rightarrow> string \<Rightarrow> web_request \<Rightarrow> string + unit" where
  "api_call_unit w ctx what req =
     and_then (send_request w ctx req) (\<lambda>r. and_then (api_error_for_status w what r) (\<lambda>_. Inr ()))"

definition session_request :: "web_method \<Rightarrow> api \<Rightarrow> string \<Rightarrow> string \<Rightarrow> web_request" where
  "session_request m api session path = bearer_auth session (plain_request m (api_base_url api @ path))"

definition device_start_call :: "api \<Rightarrow> web_request" where
  "device_start_call api = plain_request POST (api_base_url api @ ''/v1/auth/device'')"

definition device_poll_call :: "api \<Rightarrow> string \<Rightarrow> web_request" where
  "device_poll_call api code =
     json_body (JObject [(''device_code'', JString code)]) (plain_request POST (api_base_url api @ ''/v1/auth/device/poll''))"

definition me_call :: "api \<Rightarrow> string \<Rightarrow> web_request" where
  "me_call api session = session_request GET api session ''/v1/me''"

definition api_me :: "web \<Rightarrow> api \<Rightarrow> string \<Rightarrow> string + user_view" where
  "api_me w api session = api_call w ''requesting /v1/me'' ''identity check'' ''parsing /v1/me'' read_user (me_call api session)"

definition logout_call :: "api \<Rightarrow> string \<Rightarrow> web_request" where
  "logout_call api session = session_request POST api session ''/v1/auth/logout''"

definition api_logout :: "web \<Rightarrow> api \<Rightarrow> string \<Rightarrow> string + unit" where
  "api_logout w api session = and_then (send_request w ''sending logout'' (logout_call api session)) (\<lambda>_. Inr ())"

definition simulate_call ::
  "api \<Rightarrow> string \<Rightarrow> string \<Rightarrow> u64 option \<Rightarrow> bool \<Rightarrow> string option \<Rightarrow> json \<Rightarrow> web_request" where
  "simulate_call api session org version draft gateway body =
     (let r = json_body body (session_request POST api session (''/v1/orgs/'' @ org @ ''/policy/simulate''));
          r1 = (case version of None \<Rightarrow> r | Some v \<Rightarrow> query_param ''version'' (nat_to_string (unat v)) r);
          r2 = (if draft then query_param ''draft'' ''true'' r1 else r1)
      in case gateway of None \<Rightarrow> r2 | Some g \<Rightarrow> query_param ''gateway'' g r2)"

definition api_simulate ::
  "web \<Rightarrow> api \<Rightarrow> string \<Rightarrow> string \<Rightarrow> u64 option \<Rightarrow> bool \<Rightarrow> string option \<Rightarrow> json \<Rightarrow> string + simulate_result" where
  "api_simulate w api session org version draft gateway body =
     api_call w ''simulating the request'' ''simulating the request'' ''parsing the simulation result'' read_simulate_result
       (simulate_call api session org version draft gateway body)"

definition list_orgs_call :: "api \<Rightarrow> string \<Rightarrow> web_request" where
  "list_orgs_call api session = session_request GET api session ''/v1/orgs''"

definition api_list_orgs :: "web \<Rightarrow> api \<Rightarrow> string \<Rightarrow> string + org_view list" where
  "api_list_orgs w api session =
     api_call w ''listing organisations'' ''listing organisations'' ''parsing the organisations'' (json_list read_org)
       (list_orgs_call api session)"

definition registration_token_call :: "api \<Rightarrow> string \<Rightarrow> string \<Rightarrow> web_request" where
  "registration_token_call api session org =
     json_body (JObject []) (session_request POST api session (''/v1/orgs/'' @ org @ ''/registration-tokens''))"

definition api_mint_registration_token :: "web \<Rightarrow> api \<Rightarrow> string \<Rightarrow> string \<Rightarrow> string + registration_token" where
  "api_mint_registration_token w api session org =
     api_call w ''minting a registration token'' ''minting a registration token'' ''parsing the registration token''
       read_registration_token (registration_token_call api session org)"

definition developer_mint_call :: "api \<Rightarrow> string \<Rightarrow> string \<Rightarrow> nat option \<Rightarrow> web_request" where
  "developer_mint_call api session org ttl =
     json_body (developer_credential_json ttl) (session_request POST api session (''/v1/orgs/'' @ org @ ''/credentials''))"

definition api_mint_credential :: "web \<Rightarrow> api \<Rightarrow> string \<Rightarrow> string \<Rightarrow> nat option \<Rightarrow> string + issued" where
  "api_mint_credential w api session org ttl =
     api_call w ''minting a credential'' ''minting a credential'' ''parsing the minted credential'' read_mint_response
       (developer_mint_call api session org ttl)"

definition create_org_call :: "api \<Rightarrow> string \<Rightarrow> string \<Rightarrow> web_request" where
  "create_org_call api session name =
     json_body (JObject [(''name'', JString name)]) (session_request POST api session ''/v1/orgs'')"

definition api_create_org :: "web \<Rightarrow> api \<Rightarrow> string \<Rightarrow> string \<Rightarrow> string + org_view \<times> string" where
  "api_create_org w api session name =
     api_call w ''creating an organisation'' ''creating an organisation'' ''parsing the created organisation'' read_created_org
       (create_org_call api session name)"

definition list_members_call :: "api \<Rightarrow> string \<Rightarrow> string \<Rightarrow> web_request" where
  "list_members_call api session org = session_request GET api session (''/v1/orgs/'' @ org @ ''/members'')"

definition api_list_members :: "web \<Rightarrow> api \<Rightarrow> string \<Rightarrow> string \<Rightarrow> string + member_view list" where
  "api_list_members w api session org =
     api_call w ''listing members'' ''listing members'' ''parsing the members'' (json_list read_member) (list_members_call api session org)"

definition add_member_call :: "api \<Rightarrow> string \<Rightarrow> string \<Rightarrow> string \<Rightarrow> web_request" where
  "add_member_call api session org login =
     json_body (JObject [(''github_login'', JString login)]) (session_request POST api session (''/v1/orgs/'' @ org @ ''/members''))"

definition api_add_member :: "web \<Rightarrow> api \<Rightarrow> string \<Rightarrow> string \<Rightarrow> string \<Rightarrow> string + member_view" where
  "api_add_member w api session org login =
     api_call w ''adding a member'' ''adding a member'' ''parsing the added member'' read_member (add_member_call api session org login)"

definition member_role_call :: "api \<Rightarrow> string \<Rightarrow> string \<Rightarrow> string \<Rightarrow> string \<Rightarrow> web_request" where
  "member_role_call api session org user role =
     json_body (JObject [(''role'', JString role)])
       (session_request PUT api session (''/v1/orgs/'' @ org @ ''/members/'' @ user @ ''/role''))"

definition api_set_member_role :: "web \<Rightarrow> api \<Rightarrow> string \<Rightarrow> string \<Rightarrow> string \<Rightarrow> string \<Rightarrow> string + member_view" where
  "api_set_member_role w api session org user role =
     api_call w ''setting a member role'' ''setting a member role'' ''parsing the updated member'' read_member
       (member_role_call api session org user role)"

definition remove_member_call :: "api \<Rightarrow> string \<Rightarrow> string \<Rightarrow> string \<Rightarrow> web_request" where
  "remove_member_call api session org user = session_request DELETE api session (''/v1/orgs/'' @ org @ ''/members/'' @ user)"

definition api_remove_member :: "web \<Rightarrow> api \<Rightarrow> string \<Rightarrow> string \<Rightarrow> string \<Rightarrow> string + unit" where
  "api_remove_member w api session org user =
     api_call_unit w ''removing a member'' ''removing a member'' (remove_member_call api session org user)"

definition usage_call :: "api \<Rightarrow> string \<Rightarrow> string \<Rightarrow> web_request" where
  "usage_call api session org = session_request GET api session (''/v1/orgs/'' @ org @ ''/usage'')"

definition api_usage :: "web \<Rightarrow> api \<Rightarrow> string \<Rightarrow> string \<Rightarrow> string + usage_view" where
  "api_usage w api session org =
     api_call w ''fetching usage'' ''fetching usage'' ''parsing usage'' read_usage_view (usage_call api session org)"

definition list_gateways_call :: "api \<Rightarrow> string \<Rightarrow> string \<Rightarrow> web_request" where
  "list_gateways_call api session org = session_request GET api session (''/v1/orgs/'' @ org @ ''/gateways'')"

definition api_list_gateways :: "web \<Rightarrow> api \<Rightarrow> string \<Rightarrow> string \<Rightarrow> string + gateway_view list" where
  "api_list_gateways w api session org =
     api_call w ''listing gateways'' ''listing gateways'' ''parsing the gateways'' (json_list read_gateway_view)
       (list_gateways_call api session org)"

definition start_agent_session_call :: "api \<Rightarrow> string \<Rightarrow> string \<Rightarrow> agent_session_request \<Rightarrow> web_request" where
  "start_agent_session_call api session org req =
     json_body (agent_session_json req) (session_request POST api session (org_agent_sessions_path org))"

definition api_start_agent_session ::
  "web \<Rightarrow> api \<Rightarrow> string \<Rightarrow> string \<Rightarrow> agent_session_request \<Rightarrow> string + agent_session" where
  "api_start_agent_session w api session org req =
     api_call w ''starting an agent session'' ''starting an agent session'' ''parsing the agent session'' read_agent_session
       (start_agent_session_call api session org req)"

definition end_agent_session_call :: "api \<Rightarrow> string \<Rightarrow> string \<Rightarrow> string \<Rightarrow> web_request" where
  "end_agent_session_call api session org sid =
     json_body (JObject []) (session_request POST api session (org_agent_session_end_path org sid))"

definition api_end_agent_session :: "web \<Rightarrow> api \<Rightarrow> string \<Rightarrow> string \<Rightarrow> string \<Rightarrow> string + ended_session" where
  "api_end_agent_session w api session org sid =
     api_call w ''ending an agent session'' ''ending an agent session'' ''parsing the result'' read_ended_session
       (end_agent_session_call api session org sid)"

definition list_agent_sessions_call :: "api \<Rightarrow> string \<Rightarrow> string \<Rightarrow> web_request" where
  "list_agent_sessions_call api session org = session_request GET api session (org_agent_sessions_path org)"

definition api_list_agent_sessions :: "web \<Rightarrow> api \<Rightarrow> string \<Rightarrow> string \<Rightarrow> string + agent_session_view list" where
  "api_list_agent_sessions w api session org =
     api_call w ''listing agent sessions'' ''listing agent sessions'' ''parsing the agent sessions''
       (json_list read_agent_session_view) (list_agent_sessions_call api session org)"

definition agent_session_state :: "agent_session_view \<Rightarrow> u64 \<Rightarrow> string" where
  "agent_session_state v now_ms =
     (if av_ended_at_ms v \<noteq> None then ''ended'' else if av_expires_at_ms v \<le> now_ms then ''expired'' else ''active'')"

subsection \<open>The audit trail, page by page\<close>

record audit_filter =
  af_gateway :: "string option"
  af_decision :: "string option"
  af_since :: "string option"
  af_limit :: "nat option"

definition AUDIT_PAGE :: nat where
  "AUDIT_PAGE = 500"

definition opt_param :: "string \<Rightarrow> string option \<Rightarrow> web_request \<Rightarrow> web_request" where
  "opt_param k v r = (case v of None \<Rightarrow> r | Some x \<Rightarrow> query_param k x r)"

definition audit_page_call :: "api \<Rightarrow> string \<Rightarrow> string \<Rightarrow> audit_filter \<Rightarrow> nat \<Rightarrow> string option \<Rightarrow> web_request" where
  "audit_page_call api session org f limit cursor =
     opt_param ''cursor'' cursor (opt_param ''since'' (af_since f) (opt_param ''decision'' (af_decision f)
       (opt_param ''gateway'' (af_gateway f) (query_param ''limit'' (nat_to_string limit)
         (session_request GET api session (''/v1/orgs/'' @ org @ ''/audit''))))))"

text \<open>\<open>fetch\<close> asks for one page; the loop goes on while there is a cursor and events are wanted.\<close>

partial_function (option) audit_pages ::
  "(nat \<Rightarrow> string option \<Rightarrow> string + audit_page) \<Rightarrow> nat \<Rightarrow> audit_view list \<Rightarrow> string option \<Rightarrow> (string + audit_view list) option" where
  "audit_pages fetch want out cursor =
     (case fetch (min (want - length out) AUDIT_PAGE) cursor of
        Inl e \<Rightarrow> Some (Inl e)
      | Inr page \<Rightarrow>
          (case ap_next_cursor page of
             None \<Rightarrow> Some (Inr (out @ ap_events page))
           | Some c \<Rightarrow>
               if length (out @ ap_events page) < want then audit_pages fetch want (out @ ap_events page) (Some c)
               else Some (Inr (out @ ap_events page))))"

definition audit_want :: "audit_filter \<Rightarrow> nat" where
  "audit_want f = max (case af_limit f of None \<Rightarrow> 50 | Some n \<Rightarrow> n) 1"

definition query_audit :: "web \<Rightarrow> api \<Rightarrow> string \<Rightarrow> string \<Rightarrow> audit_filter \<Rightarrow> (string + audit_view list) option" where
  "query_audit w api session org f =
     audit_pages (\<lambda>limit cursor. api_call w ''querying the audit trail'' ''querying the audit trail'' ''parsing the audit trail''
       read_audit_page (audit_page_call api session org f limit cursor)) (audit_want f) [] None"

subsection \<open>The device flow\<close>

text \<open>
  A poll's answer and the clock after it, in nanoseconds. The loop waits an interval between polls and gives
  up when the next poll would come at or after the deadline.
\<close>

datatype login_outcome = Logged_In string user_view | Login_Error string | Login_Waiting

fun login_loop :: "nat \<Rightarrow> nat \<Rightarrow> ((string + device_poll) \<times> nat) list \<Rightarrow> login_outcome" where
  "login_loop deadline interval [] = Login_Waiting"
| "login_loop deadline interval ((answer, now) # polls) =
     (case answer of
        Inl e \<Rightarrow> Login_Error e
      | Inr (Poll_Complete token user) \<Rightarrow> Logged_In token user
      | Inr (Poll_Failed reason) \<Rightarrow> Login_Error (''authorization failed: '' @ reason)
      | Inr (Poll_Pending slow_down) \<Rightarrow>
          (let interval' = (if slow_down then interval + secs 5 else interval)
           in if deadline \<le> now + interval' then Login_Error ''timed out waiting for authorization''
              else login_loop deadline interval' polls))"

definition login_deadline :: "nat \<Rightarrow> device_start \<Rightarrow> nat" where
  "login_deadline now start = now + secs (min (ds_expires_in start) 900)"

definition login_interval :: "device_start \<Rightarrow> nat" where
  "login_interval start = secs (max (ds_interval start) 1)"

definition api_login ::
  "web \<Rightarrow> api \<Rightarrow> nat \<Rightarrow> (device_start \<Rightarrow> ((string + device_poll) \<times> nat) list) \<Rightarrow> login_outcome" where
  "api_login w api now polls =
     (case api_call w ''starting the device flow'' ''device authorization'' ''parsing the device response'' read_device_start
             (device_start_call api) of
        Inl e \<Rightarrow> Login_Error e
      | Inr start \<Rightarrow> login_loop (login_deadline now start) (login_interval start) (polls start))"

subsection \<open>The session never travels in the clear\<close>

text \<open>The requests the methods send; a session token rides on all but those of the device flow.\<close>

inductive api_sends :: "api \<Rightarrow> string \<Rightarrow> web_request \<Rightarrow> bool" for api session where
  sends_device: "api_sends api session (device_start_call api)"
| sends_poll: "api_sends api session (device_poll_call api code)"
| sends_me: "api_sends api session (me_call api session)"
| sends_logout: "api_sends api session (logout_call api session)"
| sends_simulate: "api_sends api session (simulate_call api session org version draft gateway body)"
| sends_list_orgs: "api_sends api session (list_orgs_call api session)"
| sends_registration: "api_sends api session (registration_token_call api session org)"
| sends_mint: "api_sends api session (developer_mint_call api session org ttl)"
| sends_create_org: "api_sends api session (create_org_call api session name)"
| sends_members: "api_sends api session (list_members_call api session org)"
| sends_add_member: "api_sends api session (add_member_call api session org login)"
| sends_role: "api_sends api session (member_role_call api session org user role)"
| sends_remove: "api_sends api session (remove_member_call api session org user)"
| sends_audit: "api_sends api session (audit_page_call api session org f limit cursor)"
| sends_usage: "api_sends api session (usage_call api session org)"
| sends_gateways: "api_sends api session (list_gateways_call api session org)"
| sends_start_agent: "api_sends api session (start_agent_session_call api session org req)"
| sends_end_agent: "api_sends api session (end_agent_session_call api session org sid)"
| sends_agents: "api_sends api session (list_agent_sessions_call api session org)"

lemmas request_builders = plain_request_def bearer_auth_def json_body_def query_param_def session_request_def

lemma api_sends_url:
  assumes "api_sends api session r"
  shows "\<exists>path. hr_url r = api_base_url api @ ''/'' @ path"
  using assms
proof cases
  case (sends_simulate org version draft gateway body)
  then show ?thesis by (auto simp: simulate_call_def request_builders Let_def split: option.splits)
next
  case (sends_audit org f limit cursor)
  then show ?thesis by (auto simp: audit_page_call_def opt_param_def request_builders split: option.splits)
qed (auto simp: device_start_call_def device_poll_call_def me_call_def logout_call_def list_orgs_call_def
    registration_token_call_def developer_mint_call_def create_org_call_def list_members_call_def add_member_call_def
    member_role_call_def remove_member_call_def usage_call_def list_gateways_call_def start_agent_session_call_def
    end_agent_session_call_def list_agent_sessions_call_def org_agent_sessions_path_def org_agent_session_end_path_def
    request_builders)

lemma url_host_path: "url_host (rest @ ''/'' @ path) = url_host rest"
proof -
  have "takeWhile (\<lambda>c. c \<notin> set ''/?#'') (rest @ ''/'' @ path) = takeWhile (\<lambda>c. c \<notin> set ''/?#'') rest"
    by (induction rest) auto
  then show ?thesis by (simp only: url_host_def)
qed

lemma str_contains_iff: "str_contains p s \<longleftrightarrow> (\<exists>a b. s = a @ p @ b)"
proof
  assume "str_contains p s"
  then obtain n where "starts_with (drop n s) p" unfolding str_contains_def list_ex_iff by blast
  then obtain b where "drop n s = p @ b" by (auto simp: starts_with_iff)
  then show "\<exists>a b. s = a @ p @ b" by (metis append_take_drop_id)
next
  assume "\<exists>a b. s = a @ p @ b"
  then obtain a b where s: "s = a @ p @ b" by blast
  have "starts_with (drop (length a) s) p" by (simp add: s starts_with_iff)
  then show "str_contains p s" by (auto simp: str_contains_def list_ex_iff s intro!: bexI [of _ "length a"])
qed

lemma normalized_has_scheme: "str_contains ''://'' (normalize_base_url a)"
proof -
  let ?x = "rev (dropWhile (\<lambda>c. c = CHR ''/'') (rev (str_trim a)))"
  have "str_contains ''://'' (''https'' @ ''://'' @ ?x)" unfolding str_contains_iff by blast
  then show ?thesis by (simp add: normalize_base_url_def Let_def)
qed

lemma plain_http_base:
  assumes "str_contains ''://'' b" "strip_prefix ''http://'' (b @ ''/'' @ path) = Some rest'"
  shows "\<exists>rest. strip_prefix ''http://'' b = Some rest \<and> rest' = rest @ ''/'' @ path"
proof (cases "7 \<le> length b")
  case True
  have e: "b @ ''/'' @ path = ''http://'' @ rest'" using strip_prefix_SomeD [OF assms(2)] .
  have "take 7 b = take 7 (b @ ''/'' @ path)" using True by simp
  then have "take 7 b = ''http://''" unfolding e by simp
  then have b: "b = ''http://'' @ drop 7 b" by (metis append_take_drop_id)
  then have "strip_prefix ''http://'' b = Some (drop 7 b)" using strip_prefix_append by metis
  moreover have "rest' = drop 7 b @ ''/'' @ path" using e b by (metis append.assoc same_append_eq)
  ultimately show ?thesis by blast
next
  case False
  have e: "b @ ''/'' @ path = ''http://'' @ rest'" using strip_prefix_SomeD [OF assms(2)] .
  have "b = take (length b) (b @ ''/'' @ path)" by simp
  then have "b = take (length b) (''http://'' @ rest')" unfolding e .
  moreover have "take (length b) (''http://'' @ rest') = take (length b) ''http://''" using False by (subst take_append) simp
  ultimately have e7: "b = take (length b) ''http://''" by (rule trans)
  have n: "length b \<in> set [0..<7]" using False by simp
  have "list_all (\<lambda>n. \<not> str_contains ''://'' (take n ''http://'')) [0..<7]" by code_simp
  then have "\<not> str_contains ''://'' (take (length b) ''http://'')" unfolding list_all_iff using n by (rule bspec)
  then show ?thesis using arg_cong [OF e7, of "str_contains ''://''"] assms(1) by blast
qed


text \<open>The guard compares the scheme as written, and an HTTP client does not: an upper-case scheme passes it.\<close>

lemma upper_case_scheme_passes:
  "api_new True ''HTTP://control.example'' = Inr \<lparr>api_base_url = ''HTTP://control.example''\<rparr> \<and>
   \<not> loopback_host ''control.example''"
  by code_simp

subsection \<open>Signing in ends\<close>

text \<open>The clock after each poll, when every wait lasts at least the interval it was given.\<close>

fun polls_spaced :: "nat \<Rightarrow> nat \<Rightarrow> ((string + device_poll) \<times> nat) list \<Rightarrow> bool" where
  "polls_spaced earliest interval [] \<longleftrightarrow> True"
| "polls_spaced earliest interval ((answer, now) # polls) \<longleftrightarrow>
     earliest \<le> now \<and>
     (case answer of
        Inr (Poll_Pending slow) \<Rightarrow>
          (let interval' = (if slow then interval + secs 5 else interval) in polls_spaced (now + interval') interval' polls)
      | _ \<Rightarrow> True)"

lemma login_loop_bounded:
  assumes "polls_spaced earliest interval polls" "secs 1 \<le> interval" "deadline \<le> earliest + secs k" "k < length polls"
  shows "login_loop deadline interval (take (Suc k) polls) \<noteq> Login_Waiting"
  using assms
proof (induction polls arbitrary: earliest interval k)
  case (Cons x polls)
  obtain answer now where x: "x = (answer, now)" by (cases x)
  show ?case
  proof (cases "\<exists>slow. answer = Inr (Poll_Pending slow)")
    case True
    then obtain slow where a: "answer = Inr (Poll_Pending slow)" by blast
    let ?i = "if slow then interval + secs 5 else interval"
    have i: "secs 1 \<le> ?i" using Cons.prems(2) by simp
    have p: "earliest \<le> now" "polls_spaced (now + ?i) ?i polls" using Cons.prems(1) by (simp_all add: x a Let_def)
    show ?thesis
    proof (cases "deadline \<le> now + ?i")
      case True
      then show ?thesis by (simp add: x a Let_def)
    next
      case False
      have k: "k \<noteq> 0" using False Cons.prems(3) p(1) by (intro notI) (simp add: secs_def)
      then obtain j where j: "k = Suc j" by (cases k) simp_all
      have "deadline \<le> now + ?i + secs j" using Cons.prems(3) p(1) i by (simp add: j secs_def)
      moreover have "j < length polls" using Cons.prems(4) j by simp
      ultimately have "login_loop deadline ?i (take (Suc j) polls) \<noteq> Login_Waiting" by (rule Cons.IH [OF p(2) i])
      then show ?thesis using False by (simp add: x a j Let_def)
    qed
  next
    case False
    then show ?thesis by (cases answer) (auto simp: x split: device_poll.split)
  qed
qed simp


subsection \<open>Paging returns the trail\<close>

text \<open>
  What the paging relies on: from the position a cursor stands for, a page holds the next events of the trail,
  no more than asked for; a next cursor stands for the position after them and comes only with a page that
  is not empty; without one the page reached the end.
\<close>

definition pages_trail :: "(nat \<Rightarrow> string option \<Rightarrow> string + audit_page) \<Rightarrow> (string option \<Rightarrow> nat) \<Rightarrow> audit_view list \<Rightarrow> bool" where
  "pages_trail fetch pos trail \<longleftrightarrow> pos None = 0 \<and>
     (\<forall>limit cursor. 0 < limit \<longrightarrow> pos cursor \<le> length trail \<longrightarrow>
        (\<exists>n page. fetch limit cursor = Inr page \<and> n \<le> limit \<and> pos cursor + n \<le> length trail \<and>
           ap_events page = take n (drop (pos cursor) trail) \<and>
           (case ap_next_cursor page of
              None \<Rightarrow> pos cursor + n = length trail
            | Some c \<Rightarrow> 0 < n \<and> pos (Some c) = pos cursor + n)))"

lemma audit_pages_take:
  assumes "pages_trail fetch pos trail"
  shows "pos cursor \<le> length trail \<Longrightarrow> out = take (pos cursor) trail \<Longrightarrow> length out < want \<Longrightarrow>
    audit_pages fetch want out cursor = Some (Inr (take want trail))"
proof (induction "want - length out" arbitrary: out cursor rule: less_induct)
  case less
  let ?k = "min (want - length out) AUDIT_PAGE"
  have k: "0 < ?k" using less.prems by (simp add: AUDIT_PAGE_def)
  have l: "length out = pos cursor" using less.prems by simp
  obtain n page where p: "fetch ?k cursor = Inr page" "n \<le> ?k" "pos cursor + n \<le> length trail"
      "ap_events page = take n (drop (pos cursor) trail)"
      "case ap_next_cursor page of None \<Rightarrow> pos cursor + n = length trail | Some c \<Rightarrow> 0 < n \<and> pos (Some c) = pos cursor + n"
    using assms k less.prems(1) unfolding pages_trail_def by blast
  have o: "out @ ap_events page = take (pos cursor + n) trail" using less.prems(2) p(4) by (simp add: take_add)
  have "n \<le> want - length out" using p(2) by simp
  then have w: "pos cursor + n \<le> want" using l less.prems(3) by linarith
  show ?case
  proof (cases "ap_next_cursor page")
    case None
    then have "take want trail = take (pos cursor + n) trail" using p(5) w by simp
    then show ?thesis by (subst audit_pages.simps) (simp add: p(1) None o)
  next
    case (Some c)
    then have c: "0 < n" "pos (Some c) = pos cursor + n" using p(5) by simp_all
    show ?thesis
    proof (cases "pos cursor + n < want")
      case True
      have len: "length (take (pos cursor + n) trail) = pos cursor + n" using p(3) by simp
      have d: "want - length (take (pos cursor + n) trail) < want - length out" using len l c(1) less.prems(3) by linarith
      have q: "pos (Some c) \<le> length trail" "take (pos cursor + n) trail = take (pos (Some c)) trail"
          "length (take (pos cursor + n) trail) < want"
        using c(2) p(3) True len by (simp_all only:)
      have "audit_pages fetch want (take (pos cursor + n) trail) (Some c) = Some (Inr (take want trail))"
        by (rule less.hyps [OF d q])
      then show ?thesis using True len by (subst audit_pages.simps) (simp add: p(1) Some o)
    next
      case False
      then have "pos cursor + n = want" using w by simp
      then show ?thesis using p(3) by (subst audit_pages.simps) (simp add: p(1) Some o)
    qed
  qed
qed


subsection \<open>Files\<close>

interpretation login_wire: json_message login_json read_login any_message
  by unfold_locales (simp add: login_json_def read_login_def readers)

text \<open>What a login saved is what the next command loads, in a private file unless a wider one was there.\<close>

lemma saved_login_loads:
  assumes "save_login w (Inr p) dir_ok write_ok c fs = Inr fs'" "reads_back_text w (login_json c)"
  shows "load_login w (Inr p) True fs' = Inr (Some c)" "fs p = None \<Longrightarrow> map_option snd (fs' p) = Some 384"
  using assms by (auto simp: save_login_def load_login_def write_private_def reads_back_text_def login_wire.reads_back
      split: if_splits)

lemma secret_file_is_new_or_forced:
  assumes "write_secret_file open_ok write_ok p bytes overwrite fs = Inr fs'"
  shows "fs' = fs(p \<mapsto> (bytes, snd (the (fs' p)))) \<and> (overwrite \<or> fs p = None \<and> snd (the (fs' p)) = 384)"
  using assms by (auto simp: write_secret_file_def write_private_def split: if_splits option.splits)

text \<open>Forcing a secret over a file that everyone may read leaves the secret readable by everyone.\<close>

lemma forced_secret_keeps_wide_mode:
  assumes "fs p = Some (contents, 420)"
  shows "write_secret_file True True p bytes True fs = Inr (fs(p \<mapsto> (bytes, 420)))"
  using assms by (simp add: write_secret_file_def write_private_def)

subsection \<open>Samples\<close>



definition sample_audit_event :: audit_view where
  "sample_audit_event = \<lparr>adv_gateway_id = ''gw_1'', adv_seq = 1, adv_received_at_ms = 10, adv_event = None\<rparr>"

definition sample_audit_web :: web where
  "sample_audit_web = \<lparr>wb_send = (\<lambda>_. Inr \<lparr>hp_status = 200, hp_body = ''page''\<rparr>),
     wb_parse = (\<lambda>_. Some (JObject [(''events'', JArray [JObject [(''gateway_id'', JString ''gw_1''), (''seq'', u64_json 1),
       (''received_at_ms'', u64_json 10), (''event'', JNull)]]), (''next_cursor'', JNull)])),
     wb_print = (\<lambda>_. []), wb_show_status = nat_to_string\<rparr>"


end
