(* ===== verification/Sandbox.thy ===== *)
theory Sandbox
  imports Account "HOL-Library.AList"
begin

text \<open>
  What \<^verbatim>\<open>skimasque exec\<close> gives a sandbox runtime (\<^verbatim>\<open>skimasque-cli/src/sandbox.rs\<close>) and its forwards
  (\<^verbatim>\<open>skimasque-cli/src/forward.rs\<close>): the settings document, the command line, the judgement of the check
  that a direct connection is blocked, and the parsing of \<^verbatim>\<open>--forward\<close>. A JSON object is the association list
  of its members; sockets and the file system are arguments.
\<close>

subsection \<open>The environment and the allowed domains\<close>

definition SCRUBBED_ENV :: "string list" where
  "SCRUBBED_ENV = [''HTTP_PROXY'', ''http_proxy'', ''HTTPS_PROXY'', ''https_proxy'', ''ALL_PROXY'', ''all_proxy'', ''NO_PROXY'',
     ''no_proxy'', ''SKIMASQUE_TOKEN'', ''SKIMASQUE_TOKEN_FILE'', ''SKIMASQUE_OIDC_TOKEN'']"

definition PROBE_ESCAPED :: string where "PROBE_ESCAPED = ''connected''"

definition PROBE_BLOCKED :: string where "PROBE_BLOCKED = ''blocked''"

definition too_broad :: "string \<Rightarrow> bool" where
  "too_broad d \<longleftrightarrow> d = ''*'' \<or> (starts_with d ''*.'' \<and> CHR ''.'' \<notin> set (drop 2 d))"

definition check_allow_domain :: "string \<Rightarrow> string + string" where
  "check_allow_domain raw =
     (let domain = str_trim raw
      in if domain = [] then Inl ''an allowed domain cannot be empty''
         else if too_broad domain then Inl (quoted domain @ '' is too broad: the sandbox runtime refuses a bare '' @ quoted ''*'' @
           '' or a whole top-level domain. Name the domains the agent needs, e.g. '' @ quoted ''*.acme.dev'' @
           ''; the gateway's policy still decides each connection'')
         else if str_contains ''://'' domain \<or> CHR ''/'' \<in> set domain \<or> list_ex char_is_whitespace (str_chars domain) then
           Inl (quoted domain @ '' is not a host pattern: give a host such as '' @ quoted ''api.acme.dev'' @ '', '' @
             quoted ''*.acme.dev'' @ '' or '' @ quoted ''api.acme.dev:443'' @ '', without a scheme or path'')
         else Inr domain)"

subsection \<open>Settings\<close>

definition NEEDS_DOMAIN :: string where
  "NEEDS_DOMAIN = ''--sandbox needs at least one --allow-domain: the sandbox runtime allows no '' @
     ''network access until domains are named, and it will not accept '' @ quoted ''*''"

definition entry_or :: "string \<Rightarrow> json \<Rightarrow> (string \<times> json) list \<Rightarrow> (string \<times> json) list" where
  "entry_or k v ms = (if map_of ms k = None then ms @ [(k, v)] else ms)"

definition add_denied :: "string \<Rightarrow> json list \<Rightarrow> json list" where
  "add_denied path denied = (if list_ex (\<lambda>p. json_as_str p = Some path) denied then denied else denied @ [JString path])"

definition filesystem_settings :: "string list \<Rightarrow> (string \<times> json) list \<Rightarrow> string + (string \<times> json) list" where
  "filesystem_settings deny_read f =
     (let f1 = entry_or ''denyRead'' (JArray []) (entry_or ''denyWrite'' (JArray []) (entry_or ''allowWrite'' (JArray [JString ''.'']) f))
      in case map_of f1 ''denyRead'' of
           Some (JArray denied) \<Rightarrow> Inr (AList.update ''denyRead'' (JArray (fold add_denied deny_read denied)) f1)
         | _ \<Rightarrow> Inl (quoted ''filesystem.denyRead'' @ '' must be a list''))"

definition network_settings :: "string list \<Rightarrow> socket_addr \<Rightarrow> (string \<times> json) list \<Rightarrow> (string \<times> json) list" where
  "network_settings allow parent n =
     (let url = JString (''http://'' @ display_socket_addr parent)
      in AList.update ''parentProxy'' (JObject [(''http'', url), (''https'', url)])
           (AList.update ''allowedDomains'' (JArray (map JString allow)) (entry_or ''deniedDomains'' (JArray []) n)))"

text \<open>The last part of the construction: the network section.\<close>

definition network_step :: "string list \<Rightarrow> socket_addr \<Rightarrow> (string \<times> json) list \<Rightarrow> string + json" where
  "network_step allow parent obj1 =
     (case map_of (entry_or ''network'' (JObject []) obj1) ''network'' of
        Some (JObject n) \<Rightarrow>
          Inr (JObject (AList.update ''network'' (JObject (network_settings allow parent n)) (entry_or ''network'' (JObject []) obj1)))
      | _ \<Rightarrow> Inl (quoted ''network'' @ '' in the sandbox settings must be an object''))"

definition settings :: "json option \<Rightarrow> string list \<Rightarrow> socket_addr \<Rightarrow> string list \<Rightarrow> string + json" where
  "settings base allow parent deny_read =
     and_then
       (case base of
          None \<Rightarrow> Inr []
        | Some (JObject ms) \<Rightarrow> Inr ms
        | Some _ \<Rightarrow> Inl ''the sandbox settings file must be a JSON object'')
       (\<lambda>obj.
         if allow = [] then Inl NEEDS_DOMAIN
         else
           (case map_of (entry_or ''filesystem'' (JObject []) obj) ''filesystem'' of
              Some (JObject f) \<Rightarrow>
                and_then (filesystem_settings deny_read f) (\<lambda>f'.
                  network_step allow parent (AList.update ''filesystem'' (JObject f') (entry_or ''filesystem'' (JObject []) obj)))
            | _ \<Rightarrow> Inl (quoted ''filesystem'' @ '' in the sandbox settings must be an object'')))"

definition argv :: "string \<Rightarrow> string list \<Rightarrow> string list" where
  "argv settings_file command = [''--settings'', settings_file, ''--''] @ command"

subsection \<open>The check\<close>

definition outside_address :: "string + ip_addr \<Rightarrow> string + ip_addr" where
  "outside_address local_ip =
     and_then local_ip (\<lambda>ip.
       if ip_is_loopback ip \<or> (case ip of V4 a \<Rightarrow> v4_is_unspecified a | V6 a \<Rightarrow> v6_is_unspecified a)
       then Inl ''no non-loopback address'' else Inr ip)"

definition probe_target :: "string + ip_addr \<Rightarrow> (ip_addr \<Rightarrow> string + socket_addr) \<Rightarrow> string + socket_addr" where
  "probe_target local_ip bind = and_then (outside_address local_ip) bind"

definition probe_connect :: "bool \<Rightarrow> string" where
  "probe_connect reached = (if reached then PROBE_ESCAPED else PROBE_BLOCKED)"

definition judge_probe :: "string \<Rightarrow> bool \<Rightarrow> string + unit" where
  "judge_probe stdout success =
     (if str_trim stdout = PROBE_BLOCKED \<and> success then Inr ()
      else if str_trim stdout = PROBE_ESCAPED then
        Inl (''the sandbox did not stop a direct connection to this host's own network address, '' @
          ''so it is not confining the command. Refusing to start the agent'')
      else
        Inl (''could not confirm that the sandbox blocks direct connections (the check did not '' @
          ''run to completion inside it). Refusing to start the agent''))"

text \<open>Unix paths: the components of a path, the extension and the stem of its file name.\<close>

definition program_components :: "string \<Rightarrow> string list" where
  "program_components p =
     (let parts = split_on (CHR ''/'') p
      in (if starts_with p ''/'' then [''/''] else if hd parts = ''.'' then [''.''] else []) @
         filter (\<lambda>c. c \<noteq> [] \<and> c \<noteq> ''.'') parts)"

definition file_name :: "string \<Rightarrow> string option" where
  "file_name p =
     (case rev (program_components p) of
        [] \<Rightarrow> None
      | c # _ \<Rightarrow> if c = ''/'' \<or> c = ''.'' \<or> c = ''..'' then None else Some c)"

definition split_name :: "string \<Rightarrow> string \<times> string option" where
  "split_name name =
     (case rsplit_once_at (CHR ''.'') name of
        Some (stem, ext) \<Rightarrow> if stem = [] then (name, None) else (stem, Some ext)
      | None \<Rightarrow> (name, None))"

definition resolve_program ::
  "string \<Rightarrow> string option \<Rightarrow> string option \<Rightarrow> (string \<Rightarrow> bool) \<Rightarrow> string option" where
  "resolve_program program path pathext is_file =
     (if length (program_components program) \<noteq> 1 \<or> Option.bind (file_name program) (snd \<circ> split_name) \<noteq> None then None
      else
        (let exts = filter (\<lambda>e. e \<noteq> []) (split_on (CHR '';'') (case pathext of None \<Rightarrow> ''.COM;.EXE;.BAT;.CMD'' | Some e \<Rightarrow> e))
         in Option.bind path (\<lambda>p.
              find_first is_file (concat (map (\<lambda>dir. map (\<lambda>ext. join_path dir (program @ ext)) exts)
                (filter (\<lambda>d. d \<noteq> []) (split_on (CHR '':'') p)))))))"

definition locate :: "string \<Rightarrow> string option \<Rightarrow> string option \<Rightarrow> (string \<Rightarrow> bool) \<Rightarrow> string option" where
  "locate program path pathext is_file =
     (if 1 < length (program_components program) then (if is_file program then Some program else None)
      else
        (case resolve_program program path pathext is_file of
           Some found \<Rightarrow> Some found
         | None \<Rightarrow>
             Option.bind path (\<lambda>p. find_first is_file (map (\<lambda>dir. join_path dir program) (split_on (CHR '':'') p)))))"

subsection \<open>Forwards\<close>

record forward_spec =
  fw_local_port :: u16
  fw_target :: target

text \<open>\<open>debug\<close> prints a string for an error, \<open>describe\<close> an error of a target.\<close>

definition forward_parse :: "(string \<Rightarrow> string) \<Rightarrow> (target_error \<Rightarrow> string) \<Rightarrow> string \<Rightarrow> string + forward_spec" where
  "forward_parse debug describe spec =
     and_then
       (case split_once_at (CHR '':'') spec of
          Some (head, rest) \<Rightarrow>
            if head \<noteq> [] \<and> list_all is_ascii_digit head \<and> CHR '':'' \<in> set rest then
              and_then (ok_or (debug head @ '' is not a local port (1-65535)'') (parse_u16 head)) (\<lambda>port. Inr (port, rest))
            else Inr (0, spec)
        | None \<Rightarrow> Inr (0, spec))
       (\<lambda>(port, destination).
         and_then (map_err (\<lambda>e. debug destination @ '' is not HOST:PORT ('' @ describe e @ '')'') (target_parse destination)) (\<lambda>t.
           Inr \<lparr>fw_local_port = port, fw_target = t\<rparr>))"

definition ascii_upper_char :: "char \<Rightarrow> char" where
  "ascii_upper_char c = (if is_ascii_lowercase c then char_of (char_code c - 32) else c)"

text \<open>Every character that is not an ASCII letter or digit becomes one underscore.\<close>

definition env_name :: "forward_spec \<Rightarrow> string" where
  "env_name f =
     (let host = (case tg_host (fw_target f) of Name n \<Rightarrow> n | Ip ip \<Rightarrow> display_ip ip)
      in ''SKIMASQUE_FORWARD_'' @
         map (\<lambda>cs. case cs of [c] \<Rightarrow> if is_ascii_alphanumeric c then ascii_upper_char c else CHR ''_'' | _ \<Rightarrow> CHR ''_'') (str_chars host) @
         ''_'' @ nat_to_string (unat (tg_port (fw_target f))))"

subsection \<open>The settings confine the command\<close>

lemma map_of_entry_or: "map_of (entry_or k v ms) = (if map_of ms k = None then (map_of ms)(k \<mapsto> v) else map_of ms)"
proof (cases "map_of ms k = None")
  case True
  have "map_of (ms @ [(k, v)]) x = ((map_of ms)(k \<mapsto> v)) x" for x
    using True by (cases "map_of ms x") (auto simp: map_add_def)
  then show ?thesis using True by (auto simp: entry_or_def)
next
  case False
  then show ?thesis unfolding entry_or_def by (simp only: if_False)
qed

lemma add_denied_members:
  "\<exists>new. fold add_denied ps denied = denied @ map JString new \<and> JString ` set ps \<subseteq> set (denied @ map JString new)"
proof (induction ps arbitrary: denied)
  case (Cons p ps)
  obtain more where m: "add_denied p denied = denied @ map JString more" "JString p \<in> set (denied @ map JString more)"
  proof (cases "list_ex (\<lambda>q. json_as_str q = Some p) denied")
    case True
    then have "JString p \<in> set denied"
      by (auto simp: list_ex_iff elim!: json_as_str.elims)
    then show ?thesis using that [of "[]"] True by (simp add: add_denied_def)
  next
    case False
    then show ?thesis using that [of "[p]"] by (simp add: add_denied_def)
  qed
  obtain new where "fold add_denied ps (denied @ map JString more) = (denied @ map JString more) @ map JString new"
    "JString ` set ps \<subseteq> set ((denied @ map JString more) @ map JString new)"
    using Cons.IH by blast
  then show ?case using m by (intro exI [of _ "more @ new"]) auto
qed simp

lemma filesystem_settings_Inr:
  assumes "filesystem_settings deny f = Inr f'"
  shows "\<exists>denied new. map_of f' ''denyRead'' = Some (JArray (denied @ map JString new)) \<and>
    (case map_of f ''denyRead'' of None \<Rightarrow> denied = [] | Some v \<Rightarrow> v = JArray denied) \<and>
    JString ` set deny \<subseteq> set (denied @ map JString new) \<and>
    (\<forall>k. k \<noteq> ''denyRead'' \<longrightarrow> map_of f k \<noteq> None \<longrightarrow> map_of f' k = map_of f k) \<and>
    map_of f' ''allowWrite'' = Some (case map_of f ''allowWrite'' of None \<Rightarrow> JArray [JString ''.''] | Some v \<Rightarrow> v)"
proof -
  let ?f = "entry_or ''denyRead'' (JArray []) (entry_or ''denyWrite'' (JArray []) (entry_or ''allowWrite'' (JArray [JString ''.'']) f))"
  obtain denied where d: "map_of ?f ''denyRead'' = Some (JArray denied)"
      "f' = AList.update ''denyRead'' (JArray (fold add_denied deny denied)) ?f"
    using assms by (auto simp: filesystem_settings_def Let_def split: option.splits json.splits)
  obtain new where n: "fold add_denied deny denied = denied @ map JString new" "JString ` set deny \<subseteq> set (denied @ map JString new)"
    using add_denied_members by blast
  have "map_of f' ''denyRead'' = Some (JArray (denied @ map JString new))" unfolding d(2) n(1) by (simp add: update_conv')
  moreover have "case map_of f ''denyRead'' of None \<Rightarrow> denied = [] | Some v \<Rightarrow> v = JArray denied"
    using d(1) by (auto simp: map_of_entry_or split: option.splits if_splits)
  moreover have "\<forall>k. k \<noteq> ''denyRead'' \<longrightarrow> map_of f k \<noteq> None \<longrightarrow> map_of f' k = map_of f k"
    unfolding d(2) by (auto simp: update_conv' map_of_entry_or)
  moreover have "map_of f' ''allowWrite'' = Some (case map_of f ''allowWrite'' of None \<Rightarrow> JArray [JString ''.''] | Some v \<Rightarrow> v)"
    unfolding d(2) by (auto simp: update_conv' map_of_entry_or split: option.splits)
  ultimately show ?thesis using n(2) by blast
qed

definition members_of :: "json option \<Rightarrow> (string \<times> json) list" where
  "members_of base = (case base of Some (JObject ms) \<Rightarrow> ms | _ \<Rightarrow> [])"

lemma network_step_Inr:
  assumes "network_step allow parent o1 = Inr doc"
  shows "\<exists>n. map_of (entry_or ''network'' (JObject []) o1) ''network'' = Some (JObject n) \<and>
    doc = JObject (AList.update ''network'' (JObject (network_settings allow parent n)) (entry_or ''network'' (JObject []) o1))"
proof (cases "map_of (entry_or ''network'' (JObject []) o1) ''network''")
  case None
  then show ?thesis using assms by (simp add: network_step_def)
next
  case (Some v)
  then show ?thesis using assms by (cases v) (simp_all add: network_step_def)
qed

text \<open>
  C23. The sandbox has one way out. Whatever the user's own settings say, the document handed to the sandbox
  runtime sends both kinds of proxied traffic to the session's own proxy and nowhere else, allows exactly the
  domains of the command line, and forbids reading every path that was named, the directory of the login
  among them; paths the user already forbade stay forbidden, and every other part of the user's settings is
  kept as it was.
\<close>

theorem sandbox_has_one_way_out:
  assumes "settings base allow parent deny_read = Inr doc"
  shows "\<exists>obj net fs denied new. doc = JObject obj \<and> allow \<noteq> [] \<and>
    map_of obj ''network'' = Some (JObject net) \<and> map_of obj ''filesystem'' = Some (JObject fs) \<and>
    map_of net ''parentProxy'' = Some (JObject [(''http'', JString (''http://'' @ display_socket_addr parent)),
      (''https'', JString (''http://'' @ display_socket_addr parent))]) \<and>
    map_of net ''allowedDomains'' = Some (JArray (map JString allow)) \<and>
    map_of fs ''denyRead'' = Some (JArray (denied @ map JString new)) \<and> JString ` set deny_read \<subseteq> set (denied @ map JString new) \<and>
    (\<forall>k. k \<noteq> ''network'' \<longrightarrow> k \<noteq> ''filesystem'' \<longrightarrow> map_of obj k = map_of (members_of base) k) \<and>
    (\<forall>ms. map_of (members_of base) ''network'' = Some (JObject ms) \<longrightarrow>
       (\<forall>k v. k \<noteq> ''parentProxy'' \<longrightarrow> k \<noteq> ''allowedDomains'' \<longrightarrow> map_of ms k = Some v \<longrightarrow> map_of net k = Some v)) \<and>
    (\<forall>ms. map_of (members_of base) ''filesystem'' = Some (JObject ms) \<longrightarrow>
       (\<forall>k v. k \<noteq> ''denyRead'' \<longrightarrow> map_of ms k = Some v \<longrightarrow> map_of fs k = Some v) \<and>
       (\<forall>v. map_of ms ''denyRead'' = Some v \<longrightarrow> v = JArray denied))"
proof -
  let ?m = "members_of base"
  let ?o = "entry_or ''filesystem'' (JObject []) ?m"
  have a: "allow \<noteq> []" using assms by (cases base) (auto simp: settings_def and_then_Inr_iff split: if_splits)
  have b: "(case base of None \<Rightarrow> Inr [] | Some (JObject ms) \<Rightarrow> Inr ms
      | Some _ \<Rightarrow> Inl ''the sandbox settings file must be a JSON object'') = (Inr ?m :: string + (string \<times> json) list)"
    using assms by (cases base) (auto simp: settings_def members_of_def split: json.splits)
  have s: "settings base allow parent deny_read =
      (case map_of ?o ''filesystem'' of
         Some (JObject f) \<Rightarrow> and_then (filesystem_settings deny_read f) (\<lambda>f'. network_step allow parent (AList.update ''filesystem'' (JObject f') ?o))
       | _ \<Rightarrow> Inl (quoted ''filesystem'' @ '' in the sandbox settings must be an object''))"
    unfolding settings_def b using a by simp
  obtain f where f0: "map_of ?o ''filesystem'' = Some (JObject f)"
    using assms unfolding s by (cases "map_of ?o ''filesystem''") (simp_all split: json.splits)
  obtain f' where f1: "filesystem_settings deny_read f = Inr f'"
      "network_step allow parent (AList.update ''filesystem'' (JObject f') ?o) = Inr doc"
    using assms unfolding s f0 by (simp add: and_then_Inr_iff) blast
  note f = f0 f1(1)
  let ?o1 = "AList.update ''filesystem'' (JObject f') ?o"
  let ?o2 = "entry_or ''network'' (JObject []) ?o1"
  obtain n where n: "map_of ?o2 ''network'' = Some (JObject n)"
      "doc = JObject (AList.update ''network'' (JObject (network_settings allow parent n)) ?o2)"
    using network_step_Inr [OF f1(2)] by blast
  let ?obj = "AList.update ''network'' (JObject (network_settings allow parent n)) ?o2"
  let ?net = "network_settings allow parent n"
  obtain denied new where d: "map_of f' ''denyRead'' = Some (JArray (denied @ map JString new))"
      "case map_of f ''denyRead'' of None \<Rightarrow> denied = [] | Some v \<Rightarrow> v = JArray denied"
      "JString ` set deny_read \<subseteq> set (denied @ map JString new)"
      "\<forall>k. k \<noteq> ''denyRead'' \<longrightarrow> map_of f k \<noteq> None \<longrightarrow> map_of f' k = map_of f k"
    using filesystem_settings_Inr [OF f(2)] by (elim exE conjE) (rule that; assumption)
  have o: "map_of ?obj ''network'' = Some (JObject ?net)" "map_of ?obj ''filesystem'' = Some (JObject f')"
    by (auto simp: update_conv' map_of_entry_or)
  have k: "\<forall>k. k \<noteq> ''network'' \<longrightarrow> k \<noteq> ''filesystem'' \<longrightarrow> map_of ?obj k = map_of ?m k"
    by (auto simp: update_conv' map_of_entry_or)
  have p: "map_of ?net ''parentProxy'' = Some (JObject [(''http'', JString (''http://'' @ display_socket_addr parent)),
      (''https'', JString (''http://'' @ display_socket_addr parent))])"
    "map_of ?net ''allowedDomains'' = Some (JArray (map JString allow))"
    by (simp_all add: network_settings_def Let_def update_conv')
  have nk: "\<forall>ms. map_of ?m ''network'' = Some (JObject ms) \<longrightarrow> (\<forall>k v. k \<noteq> ''parentProxy'' \<longrightarrow> k \<noteq> ''allowedDomains'' \<longrightarrow>
      map_of ms k = Some v \<longrightarrow> map_of ?net k = Some v)"
    using n(1) by (auto simp: network_settings_def Let_def update_conv' map_of_entry_or split: if_splits)
  have fk: "\<forall>ms. map_of ?m ''filesystem'' = Some (JObject ms) \<longrightarrow> (\<forall>k v. k \<noteq> ''denyRead'' \<longrightarrow>
      map_of ms k = Some v \<longrightarrow> map_of f' k = Some v) \<and> (\<forall>v. map_of ms ''denyRead'' = Some v \<longrightarrow> v = JArray denied)"
    using f(1) d(2,4) by (auto simp: map_of_entry_or split: if_splits)
  show ?thesis
    by (intro exI [of _ ?obj] exI [of _ ?net] exI [of _ f'] exI [of _ denied] exI [of _ new] conjI)
      (fact n(2) a o(1) o(2) p(1) p(2) d(1) d(3) k nk fk)+
qed

text \<open>The guard against a bare star does not see one with a port.\<close>

lemma star_with_port_is_accepted: "check_allow_domain ''*:443'' = Inr ''*:443''"
  by code_simp

subsection \<open>Forwards read back\<close>

lemma target_display_parts:
  assumes "host_ok (tg_host t)"
  shows "\<exists>host. target_display t = host @ '':'' @ nat_to_string (unat (tg_port t)) \<and> host \<noteq> []"
proof -
  have "target_host_display (tg_host t) \<noteq> []"
    using host_ok_variable(3) [OF assms] by (cases "tg_host t") (auto simp: target_host_display_def to_variable_def split: ip_addr.splits)
  then show ?thesis by (auto simp: target_display_def)
qed

lemma dotted_colon_free: "CHR '':'' \<notin> set (join_with ''.'' (map (nat_to_string \<circ> unat) (ws :: bytes)))"
proof -
  have "CHR '':'' \<notin> set (nat_to_string n)" for n using port_digits_plain [of _ n] by auto
  then show ?thesis by (induction ws rule: induct_list012) auto
qed

lemma host_display_colon_free:
  assumes "host_ok h" "\<not> (\<exists>w. h = Ip (V6 w))"
  shows "CHR '':'' \<notin> set (target_host_display h)"
proof (cases h)
  case (Name n)
  obtain s where s: "str_valid s" "target_host_parse s = Inr (Name n)" using assms(1) by (auto simp: host_ok_def Name)
  then show ?thesis using target_host_parse_Name [OF s(2,1)] legal_name_chars by (fastforce simp: Name target_host_display_def)
next
  case (Ip ip)
  then obtain w where "ip = V4 w" using assms(2) by (cases ip) auto
  then show ?thesis using dotted_colon_free by (simp add: Ip target_host_display_def display_ipv4_def)
qed

text \<open>
  A forward is read as it was meant. A destination printed by the program is read back with a free local
  port, and with a local port in front of it is read back with that port; no destination is ever mistaken
  for a local port, whether it is a name of digits, an IPv4 or a bracketed IPv6 address.
\<close>

theorem forward_reads_back:
  assumes "host_ok (tg_host t)" "tg_port t \<noteq> 0"
  shows "forward_parse debug describe (target_display t) = Inr \<lparr>fw_local_port = 0, fw_target = t\<rparr> \<and>
    forward_parse debug describe (nat_to_string (unat p) @ '':'' @ target_display t) = Inr \<lparr>fw_local_port = p, fw_target = t\<rparr>"
proof
  have r: "target_parse (target_display t) = Inr t" using assms by (rule target_display_roundtrip)
  have n: "CHR '':'' \<notin> set (nat_to_string k)" for k using port_digits_plain [of _ k] by auto
  have d: "target_display t = target_host_display (tg_host t) @ CHR '':'' # nat_to_string (unat (tg_port t))"
    by (simp add: target_display_def)
  show "forward_parse debug describe (target_display t) = Inr \<lparr>fw_local_port = 0, fw_target = t\<rparr>"
  proof (cases "\<exists>w. tg_host t = Ip (V6 w)")
    case True
    then obtain rest where "target_display t = CHR ''['' # rest" by (auto simp: d target_host_display_def)
    then obtain h where "split_once_at (CHR '':'') (target_display t) = None \<or>
        (\<exists>b. split_once_at (CHR '':'') (target_display t) = Some (CHR ''['' # h, b))"
      by (cases "split_once_at (CHR '':'') rest") (auto simp: split_once_at_def split: list.splits)
    moreover have "\<not> is_ascii_digit (CHR ''['')" by code_simp
    ultimately show ?thesis using r by (auto simp: forward_parse_def)
  next
    case False
    then have "split_once_at (CHR '':'') (target_display t) = Some (target_host_display (tg_host t), nat_to_string (unat (tg_port t)))"
      unfolding d using host_display_colon_free [OF assms(1)] by (intro split_once_at_append) simp
    then show ?thesis using r n by (simp add: forward_parse_def)
  qed
  have "split_once_at (CHR '':'') (nat_to_string (unat p) @ CHR '':'' # target_display t) = Some (nat_to_string (unat p), target_display t)"
    using n by (rule split_once_at_append)
  moreover have "CHR '':'' \<in> set (target_display t)" by (simp add: d)
  ultimately show "forward_parse debug describe (nat_to_string (unat p) @ '':'' @ target_display t) = Inr \<lparr>fw_local_port = p, fw_target = t\<rparr>"
    using r nat_to_string_digits [of "unat p"] by (simp add: forward_parse_def)
qed

theorem sandbox_has_one_way_out_witness:
  "\<exists>obj net. settings (Some (JObject [(''network'', JObject [(''parentProxy'', JString ''http://evil'')])])) [''*.acme.dev'']
       (SocketAddr (V4 0x7F000001) 8080) [''/home/u/.config/skimasque''] = Inr (JObject obj) \<and>
     map_of obj ''network'' = Some (JObject net) \<and>
     map_of net ''parentProxy'' = Some (JObject [(''http'', JString (''http://'' @ display_socket_addr (SocketAddr (V4 0x7F000001) 8080))),
       (''https'', JString (''http://'' @ display_socket_addr (SocketAddr (V4 0x7F000001) 8080)))])"
proof -
  let ?p = "SocketAddr (V4 0x7F000001) 8080"
  let ?b = "Some (JObject [(''network'', JObject [(''parentProxy'', JString ''http://evil'')])])"
  obtain doc where d: "settings ?b [''*.acme.dev''] ?p [''/home/u/.config/skimasque''] = Inr doc"
    by (simp add: settings_def filesystem_settings_def network_step_def entry_or_def add_denied_def Let_def)
  from sandbox_has_one_way_out [OF d] obtain obj net where "doc = JObject obj" "map_of obj ''network'' = Some (JObject net)"
      "map_of net ''parentProxy'' = Some (JObject [(''http'', JString (''http://'' @ display_socket_addr ?p)),
        (''https'', JString (''http://'' @ display_socket_addr ?p))])"
    by (elim exE conjE) (rule that; assumption)
  with d show ?thesis by (intro exI conjI) (simp only:)+
qed

theorem forward_reads_back_witness:
  "forward_parse (\<lambda>s. s) (\<lambda>_. []) (nat_to_string (unat (5432 :: u16)) @ '':'' @
     target_display \<lparr>tg_host = Ip (V6 0x20010db8000000000000000000000042), tg_port = 443\<rparr>) =
   Inr \<lparr>fw_local_port = 5432, fw_target = \<lparr>tg_host = Ip (V6 0x20010db8000000000000000000000042), tg_port = 443\<rparr>\<rparr>"
proof -
  have "target_host_parse ''2001:db8::42'' = Inr (Ip (V6 0x20010db8000000000000000000000042))" "str_valid ''2001:db8::42''"
    by code_simp+
  then have h: "host_ok (tg_host \<lparr>tg_host = Ip (V6 0x20010db8000000000000000000000042), tg_port = 443\<rparr>)"
    unfolding host_ok_def by auto
  have "tg_port \<lparr>tg_host = Ip (V6 0x20010db8000000000000000000000042), tg_port = 443\<rparr> \<noteq> 0" by simp
  then show ?thesis by (rule conjunct2 [OF forward_reads_back [OF h]])
qed

end
