(* ===== verification/Exec_Command.thy ===== *)
theory Exec_Command
  imports Sandbox Tunnel_Client
begin

text \<open>
  \<^verbatim>\<open>skimasque exec\<close> (\<^verbatim>\<open>skimasque-cli/src/exec.rs\<close>): the checks of its flags, the preflight, the agent
  session it leases, the sandbox it proves, the command it starts and how it ends. A run is a function of what
  the world answers, a record of the outcomes of its calls, to the exit status and the effects in order: agent
  sessions started and ended, the sandbox check, the command spawned with the environment it gets, signals
  passed on.
\<close>

subsection \<open>Arguments\<close>

definition CLOUD_CONTROL_PLANE :: string where "CLOUD_CONTROL_PLANE = ''https://control.skimasque.com''"

definition CLOUD_GATEWAY :: string where "CLOUD_GATEWAY = ''gateway.skimasque.com''"

definition PREFLIGHT_PLACEHOLDER :: string where "PREFLIGHT_PLACEHOLDER = ''preflight.invalid:1''"

definition EXIT_FAILED :: nat where "EXIT_FAILED = 125"

definition EXIT_NOT_EXECUTABLE :: nat where "EXIT_NOT_EXECUTABLE = 126"

definition EXIT_NOT_FOUND :: nat where "EXIT_NOT_FOUND = 127"

datatype sandbox_runtime = Srt

record exec_args =
  ea_policy :: "string option"
  ea_app :: "string option"
  ea_gateway :: "string option"
  ea_control_plane :: "string option"
  ea_forwards :: "forward_spec list"
  ea_agent :: bool
  ea_ttl :: "string option"
  ea_runtime :: "string option"
  ea_run_id :: "string option"
  ea_parent :: "string option"
  ea_sandbox :: "sandbox_runtime option"
  ea_allow_domains :: "string list"
  ea_sandbox_settings :: "string option"
  ea_unsandboxed :: bool
  ea_quiet :: bool
  ea_tls :: tls_args
  ea_auth :: auth_args
  ea_command :: "string list"

definition exec_validate :: "exec_args \<Rightarrow> string + unit" where
  "exec_validate args =
     (if ea_agent args \<and> ea_sandbox args = None \<and> \<not> ea_unsandboxed args then
        Inl (''an agent needs a sandbox: pass --sandbox srt (with --allow-domain), or '' @
          ''--unsandboxed to run it with nothing stopping direct connections'')
      else if ea_sandbox args \<noteq> None \<and> ea_allow_domains args = [] then Inl NEEDS_DOMAIN
      else if ea_sandbox args \<noteq> None \<and> ea_forwards args \<noteq> [] then
        Inl (''--forward cannot be combined with --sandbox: the sandboxed command cannot '' @
          ''reach loopback listeners outside the sandbox'')
      else Inr ())"

definition resolve_control_plane :: "string option \<Rightarrow> login_credentials option \<Rightarrow> string" where
  "resolve_control_plane explicit login =
     normalize_base_url
       (case explicit of
          Some u \<Rightarrow> u
        | None \<Rightarrow> (case login of Some c \<Rightarrow> lc_control_plane c | None \<Rightarrow> CLOUD_CONTROL_PLANE))"

definition resolve_gateway :: "string option \<Rightarrow> string \<Rightarrow> string + string" where
  "resolve_gateway explicit control_plane =
     (case explicit of
        Some g \<Rightarrow> Inr g
      | None \<Rightarrow>
          if control_plane = CLOUD_CONTROL_PLANE then Inr CLOUD_GATEWAY
          else Inl (''No gateway is configured for '' @ control_plane @ ''. Pass --gateway or set SKIMASQUE_GATEWAY.''))"

definition default_app :: "string \<Rightarrow> string" where
  "default_app command = (case file_name command of None \<Rightarrow> command | Some name \<Rightarrow> fst (split_name name))"

definition child_env :: "socket_addr \<Rightarrow> socket_addr \<Rightarrow> (forward_spec \<times> socket_addr) list \<Rightarrow> (string \<times> string) list" where
  "child_env http socks forwards =
     map (\<lambda>n. (n, ''http://'' @ display_socket_addr http)) [''HTTPS_PROXY'', ''https_proxy'', ''HTTP_PROXY'', ''http_proxy''] @
     map (\<lambda>n. (n, ''socks5h://'' @ display_socket_addr socks)) [''ALL_PROXY'', ''all_proxy''] @
     map (\<lambda>n. (n, ''localhost,127.0.0.1,::1'')) [''NO_PROXY'', ''no_proxy''] @
     [(''SKIMASQUE_PROXY_HTTP'', display_socket_addr http), (''SKIMASQUE_PROXY_SOCKS5'', display_socket_addr socks)] @
     map (\<lambda>(spec, local). (env_name spec, display_socket_addr local)) forwards"

definition identity_label :: "workload_identity option \<Rightarrow> string" where
  "identity_label i =
     (case Option.bind i (\<lambda>w. case wi_actor w of
               Some a \<Rightarrow> Some a
             | None \<Rightarrow> (case wi_repository w of Some r \<Rightarrow> Some r | None \<Rightarrow> wi_organization w)) of
        Some s \<Rightarrow> s
      | None \<Rightarrow> ''unknown'')"

subsection \<open>The preflight\<close>

record checked =
  ck_selected :: "string option"
  ck_allowed :: "bool list"
  ck_session :: "string option"

definition newline :: string where "newline = [char_of (10 :: nat)]"

definition denied_line :: "string \<times> simulate_result \<Rightarrow> string" where
  "denied_line p =
     newline @ ''  '' @ fst p @ '': denied.'' @
     (case sr_suggested_rule (snd p) of None \<Rightarrow> [] | Some rule \<Rightarrow> '' To allow it: '' @ rule)"

definition judge :: "string option \<Rightarrow> string \<Rightarrow> (string \<times> simulate_result) list \<Rightarrow> nat \<Rightarrow> string + checked" where
  "judge pin who probes forwards =
     (let selected = (case probes of [] \<Rightarrow> None | (_, r) # _ \<Rightarrow> sr_policy r)
      in if pin \<noteq> None \<and> selected \<noteq> pin then
           Inl (''Policy '' @ quoted (the pin) @ '' does not apply to you ('' @ who @ ''). SkiMasque selected '' @
             (case selected of Some s \<Rightarrow> quoted s | None \<Rightarrow> ''no policy'') @ '' for this identity.'')
         else if forwards = 0 then Inr \<lparr>ck_selected = selected, ck_allowed = [], ck_session = None\<rparr>
         else
           (let allowed = map (\<lambda>(_, r). sr_outcome r = ''allow'') probes
            in if \<not> list_ex (\<lambda>a. a) allowed then
                 Inl (''Every destination would be denied:'' @ concat (map denied_line probes))
               else
                 Inr \<lparr>ck_selected = selected, ck_allowed = allowed,
                   ck_session = Option.bind (find_first (\<lambda>(_, r). sr_outcome r = ''allow'') probes)
                     (\<lambda>(_, r). map_option li_value (find_first (\<lambda>l. li_label l = ''duration'') (sr_limits r)))\<rparr>))"

definition simulate_body :: "workload_identity \<Rightarrow> string \<Rightarrow> string \<Rightarrow> json" where
  "simulate_body identity app destination =
     JObject [(''identity'', JObject (identity_members identity)), (''application'', JString app),
       (''destination'', JString destination), (''transport'', JString ''tcp'')]"

definition preflight ::
  "web \<Rightarrow> bool \<Rightarrow> login_credentials \<Rightarrow> string \<Rightarrow> workload_identity \<Rightarrow> string \<Rightarrow> string list \<Rightarrow>
     string + (string \<times> simulate_result) list" where
  "preflight w client_ok creds org identity app destinations =
     and_then (api_new client_ok (lc_control_plane creds)) (\<lambda>api.
       try_map (\<lambda>d. and_then (api_simulate w api (lc_session_token creds) org None False None (simulate_body identity app d))
         (\<lambda>r. Inr (d, r))) destinations)"

subsection \<open>The header\<close>

record access_line =
  acl_destination :: string
  acl_allowed :: "bool option"
  acl_local :: socket_addr

record header_view =
  hv_identity :: string
  hv_policy :: string
  hv_application :: string
  hv_gateway :: string
  hv_access :: "access_line list"
  hv_session :: "string option"

text \<open>Padding on the right to a number of characters; the arrow, the tick_mark and the cross in UTF-8.\<close>

definition pad_right :: "nat \<Rightarrow> string \<Rightarrow> string" where
  "pad_right n s = s @ replicate (n - length (str_chars s)) CHR '' ''"

definition arrow :: string where "arrow = map char_of [0xE2, 0x86, 0x92 :: nat]"

definition tick_mark :: "bool \<Rightarrow> string" where
  "tick_mark ok = map char_of [0xE2, 0x9C, if ok then 0x93 else 0x97 :: nat]"

definition access_text :: "access_line \<Rightarrow> string" where
  "access_text l =
     ''  '' @ pad_right 16 (acl_destination l) @ '' '' @
     (case acl_allowed l of Some ok \<Rightarrow> tick_mark ok @ ''  '' | None \<Rightarrow> []) @ arrow @ '' '' @ display_socket_addr (acl_local l) @ newline"

definition render_header :: "header_view \<Rightarrow> string" where
  "render_header v =
     ''SkiMasque'' @ newline @ newline @
     concat (map (\<lambda>(label, value). pad_right 13 label @ value @ newline)
       [(''Identity'', hv_identity v), (''Policy'', hv_policy v), (''Application'', hv_application v), (''Gateway'', hv_gateway v)]) @
     (if hv_access v = [] then [] else newline @ ''Access'' @ newline @ concat (map access_text (hv_access v))) @
     (case hv_session v of None \<Rightarrow> [] | Some s \<Rightarrow> newline @ ''Session'' @ newline @ ''  '' @ s @ newline) @
     newline @ ''Connected.'' @ newline"

subsection \<open>Exit statuses\<close>

datatype spawn_result = Spawned | Spawn_Not_Found | Spawn_Failed

definition spawn_error_code :: "spawn_result \<Rightarrow> nat" where
  "spawn_error_code e = (if e = Spawn_Not_Found then EXIT_NOT_FOUND else EXIT_NOT_EXECUTABLE)"

datatype child_status = Exited nat | Signalled nat | Status_Unknown

definition status_code :: "child_status \<Rightarrow> nat" where
  "status_code s = (case s of Exited code \<Rightarrow> code | Signalled n \<Rightarrow> 128 + n | Status_Unknown \<Rightarrow> EXIT_FAILED)"

definition SIGINT :: nat where "SIGINT = 2"

datatype exec_effect =
    Agent_Started string
  | Agent_Ended string
  | Sandbox_Checked "string list"
  | Command_Spawned "string list" "string list" "(string \<times> string) list" "string option"
  | Signal_Passed nat
  | Command_Killed

text \<open>
  What happens while the command runs: it ends, waiting for it fails, or a signal arrives. An interrupt is
  the terminal's business and is not passed on.
\<close>

datatype child_event = Child_Ends child_status | Wait_Fails | Child_Signal nat

fun supervise :: "child_event list \<Rightarrow> nat option \<times> exec_effect list" where
  "supervise [] = (None, [])"
| "supervise (Child_Ends s # es) = (Some (status_code s), [])"
| "supervise (Wait_Fails # es) = (Some EXIT_FAILED, [Command_Killed])"
| "supervise (Child_Signal n # es) =
     (case supervise es of (r, effects) \<Rightarrow> (r, if n \<noteq> SIGINT then Signal_Passed n # effects else effects))"

subsection \<open>The world of a run\<close>

text \<open>
  The check of the sandbox ends with its output and whether it succeeded, or it cannot run, or it takes too
  long. \<open>ew_start_signal\<close> is a signal that wins the race against starting the agent session, with whether the
  control plane had already started it; \<open>ew_prepare_signal\<close> one that wins against the setup; signals that come
  during the sandbox check wait for the command.
\<close>

datatype check_outcome = Check_Timeout | Check_Failed | Check_Output string bool

record exec_world =
  ew_signals :: "string + unit"
  ew_login :: "string + login_credentials option"
  ew_web :: web
  ew_client :: bool
  ew_dial :: dial_env
  ew_peek :: "string \<Rightarrow> workload_identity option"
  ew_bind :: "u16 \<Rightarrow> nat \<Rightarrow> string + socket_addr"
  ew_start_signal :: "(nat \<times> bool) option"
  ew_prepare_signal :: "nat option"
  ew_locate :: "string option"
  ew_read :: "string \<Rightarrow> string option"
  ew_login_dir :: "string list"
  ew_settings_file :: "json \<Rightarrow> string + string"
  ew_probe_target :: "string + socket_addr"
  ew_current_exe :: "string + string"
  ew_check :: "string list \<Rightarrow> check_outcome"
  ew_check_signals :: "nat list"
  ew_spawn :: "string list \<Rightarrow> spawn_result"
  ew_child :: "child_event list"

record agent_lease =
  al_api :: api
  al_login_token :: string
  al_org :: string
  al_session_id :: string
  al_credential :: string

definition agent_start :: "exec_world \<Rightarrow> exec_args \<Rightarrow> string + agent_lease" where
  "agent_start w args =
     and_then (ew_login w) (\<lambda>stored.
     and_then (ok_or ''--agent needs a SkiMasque login to start the session: run `skimasque login`'' stored) (\<lambda>creds.
     and_then (api_new (ew_client w) (lc_control_plane creds)) (\<lambda>api.
     and_then (resolve_org_arg (api_list_orgs (ew_web w) api) creds (aa_org (ea_auth args))) (\<lambda>org.
     and_then (transpose_map (\<lambda>t. map_err (\<lambda>_. ''--ttl'') (parse_duration t)) (ea_ttl args)) (\<lambda>ttl.
     let request = \<lparr>as_ttl_seconds = map_option (\<lambda>d. d div 10 ^ 9) ttl, as_run_id = ea_run_id args,
           as_runtime = Some (case ea_runtime args of Some r \<Rightarrow> r | None \<Rightarrow> default_app (hd (ea_command args))),
           as_parent = ea_parent args\<rparr>
     in and_then (map_err (\<lambda>_. ''starting the agent session'')
            (api_start_agent_session (ew_web w) api (lc_session_token creds) org request)) (\<lambda>started.
          Inr \<lparr>al_api = api, al_login_token = lc_session_token creds, al_org = org, al_session_id = ag_session_id started,
            al_credential = ag_credential started\<rparr>))))))"

text \<open>An agent presents its session's credential and nothing else.\<close>

definition session_auth :: "exec_args \<Rightarrow> string option \<Rightarrow> auth_args" where
  "session_auth args credential =
     (case credential of
        Some c \<Rightarrow> \<lparr>aa_auth_token = Some c, aa_auth_token_file = None, aa_github_oidc = False, aa_oidc_token = None,
          aa_oidc_audience = None, aa_org = aa_org (ea_auth args)\<rparr>
      | None \<Rightarrow> ea_auth args)"

definition exec_headers :: "(string \<Rightarrow> bool) \<Rightarrow> string \<Rightarrow> string option \<Rightarrow> string + (string \<times> string) list" where
  "exec_headers header_ok app pin =
     (if \<not> header_ok app then Inl ''the application name contains characters a header cannot carry''
      else
        (let hs = header_insert ''x-masque-application'' app []
         in case pin of
              None \<Rightarrow> Inr hs
            | Some p \<Rightarrow>
                if header_ok p then Inr (header_insert ''x-masque-policy'' p hs)
                else Inl ''the policy name contains characters a header cannot carry''))"

fun bind_forwards :: "exec_world \<Rightarrow> nat \<Rightarrow> forward_spec list \<Rightarrow> string + (forward_spec \<times> socket_addr) list" where
  "bind_forwards w n [] = Inr []"
| "bind_forwards w n (spec # specs) =
     and_then (map_err (\<lambda>_. ''could not listen on 127.0.0.1:'' @ nat_to_string (unat (fw_local_port spec)) @ '' for '' @ target_display (fw_target spec))
          (ew_bind w (fw_local_port spec) n))
       (\<lambda>addr. and_then (bind_forwards w (Suc n) specs) (\<lambda>rest. Inr ((spec, addr) # rest)))"

record prepared =
  pp_env :: "(string \<times> string) list"
  pp_http_addr :: socket_addr
  pp_credential :: "string option"
  pp_header :: "header_view option"

text \<open>The check in advance: only with a login on this control plane, and without effect when it cannot be made.\<close>

definition exec_check ::
  "exec_world \<Rightarrow> exec_args \<Rightarrow> string \<Rightarrow> string \<Rightarrow> connected \<Rightarrow> string + checked option" where
  "exec_check w args control_plane app c =
     (case cn_login c of
        None \<Rightarrow> Inr None
      | Some (creds, org) \<Rightarrow>
          if normalize_base_url (lc_control_plane creds) \<noteq> control_plane then Inr None
          else
            (let identity = Option.bind (cn_credential c) (ew_peek w);
                 destinations = (if ea_forwards args = [] then [PREFLIGHT_PLACEHOLDER]
                   else map (\<lambda>f. target_display (fw_target f)) (ea_forwards args))
             in case preflight (ew_web w) (ew_client w) creds org
                       (case identity of Some i \<Rightarrow> i | None \<Rightarrow> identity_default) app destinations of
                  Inl _ \<Rightarrow> Inr None
                | Inr probes \<Rightarrow>
                    and_then (judge (ea_policy args) (identity_label identity) probes (length (ea_forwards args))) (\<lambda>k. Inr (Some k))))"

definition header_of ::
  "exec_args \<Rightarrow> string \<Rightarrow> string \<Rightarrow> string \<Rightarrow> checked option \<Rightarrow> (forward_spec \<times> socket_addr) list \<Rightarrow> header_view" where
  "header_of args who app gateway k forwards =
     \<lparr>hv_identity = who,
      hv_policy = (case ea_policy args of
          Some p \<Rightarrow> p
        | None \<Rightarrow> (case Option.bind k ck_selected of Some p \<Rightarrow> p | None \<Rightarrow> ''(selected by the gateway)'')),
      hv_application = app, hv_gateway = gateway,
      hv_access = map (\<lambda>(i, (spec, local)). \<lparr>acl_destination = target_display (fw_target spec),
          acl_allowed = Option.bind k (\<lambda>c. if i < length (ck_allowed c) then Some (ck_allowed c ! i) else None), acl_local = local\<rparr>)
        (enumerate 0 forwards),
      hv_session = Option.bind k ck_session\<rparr>"

definition exec_prepare :: "exec_world \<Rightarrow> exec_args \<Rightarrow> string option \<Rightarrow> string + prepared" where
  "exec_prepare w args credential =
     and_then (ew_login w) (\<lambda>login.
     let control_plane = resolve_control_plane (ea_control_plane args) login;
         app = (case ea_app args of Some a \<Rightarrow> a | None \<Rightarrow> default_app (hd (ea_command args)))
     in and_then (resolve_gateway (ea_gateway args) control_plane) (\<lambda>gateway.
        and_then (exec_headers (de_header_ok (ew_dial w)) app (ea_policy args)) (\<lambda>headers.
        and_then (open_session (ew_dial w) gateway (ea_tls args) (session_auth args credential) headers (ew_login w)) (\<lambda>c.
        and_then (exec_check w args control_plane app c) (\<lambda>k.
        and_then (map_err (\<lambda>_. ''listening on loopback'') (ew_bind w 0 0)) (\<lambda>http.
        and_then (map_err (\<lambda>_. ''listening on loopback'') (ew_bind w 0 1)) (\<lambda>socks.
        and_then (bind_forwards w 2 (ea_forwards args)) (\<lambda>forwards.
          Inr \<lparr>pp_env = (if ea_sandbox args \<noteq> None then [] else child_env http socks forwards), pp_http_addr = http,
            pp_credential = cn_credential c,
            pp_header = (if ea_quiet args then None
              else Some (header_of args (identity_label (Option.bind (cn_credential c) (ew_peek w))) app gateway k forwards))\<rparr>))))))))"

text \<open>The verdict is the last line of the check's output that is not blank.\<close>

definition probe_verdict :: "string \<Rightarrow> string" where
  "probe_verdict stdout =
     (case find_first (\<lambda>l. str_trim l \<noteq> []) (rev (split_on (CHR 0x0A) stdout)) of None \<Rightarrow> [] | Some l \<Rightarrow> l)"

definition srt_command_line :: "exec_world \<Rightarrow> exec_args \<Rightarrow> socket_addr \<Rightarrow> (string + string list) \<times> exec_effect list" where
  "srt_command_line w args http_addr =
     (case and_then (ok_or (''--sandbox srt needs the sandbox runtime on PATH: npm install -g @anthropic-ai/sandbox-runtime'') (ew_locate w))
        (\<lambda>srt.
          and_then (transpose_map (\<lambda>path. and_then (ok_or (''reading '' @ path) (ew_read w path))
              (\<lambda>t. ok_or (path @ '' is not valid JSON'') (wb_parse (ew_web w) t))) (ea_sandbox_settings args)) (\<lambda>base.
          and_then (settings base (ea_allow_domains args) http_addr (ew_login_dir w)) (\<lambda>doc.
          and_then (map_err (\<lambda>_. ''writing the sandbox settings'') (ew_settings_file w doc)) (\<lambda>file.
          and_then (map_err (\<lambda>_. ''cannot check the sandbox: this host has no non-loopback address to test against'')
            (ew_probe_target w)) (\<lambda>target.
          and_then (map_err (\<lambda>_. ''locating skimasque'') (ew_current_exe w)) (\<lambda>me.
            Inr (srt, file, srt # argv file [me, ''sandbox-probe'', display_socket_addr target]))))))) of
        Inl e \<Rightarrow> (Inl e, [])
      | Inr (srt, file, check) \<Rightarrow>
          (and_then
             (case ew_check w check of
                Check_Timeout \<Rightarrow> Inl ''the sandbox check timed out; refusing to start the agent''
              | Check_Failed \<Rightarrow> Inl (''running '' @ srt)
              | Check_Output stdout success \<Rightarrow> judge_probe (probe_verdict stdout) success)
             (\<lambda>_. Inr (srt # argv file (ea_command args))),
           [Sandbox_Checked check]))"

definition spawn_command ::
  "exec_world \<Rightarrow> exec_args \<Rightarrow> prepared \<Rightarrow> string list \<Rightarrow> nat option \<times> exec_effect list" where
  "spawn_command w args p line =
     (let removed = (if ea_agent args \<or> ea_sandbox args \<noteq> None then SCRUBBED_ENV else [])
      in case ew_spawn w line of
           Spawned \<Rightarrow>
             (case supervise (map Child_Signal (ew_check_signals w) @ ew_child w) of
                (code, effects) \<Rightarrow> (code, Command_Spawned line removed (pp_env p) (pp_credential p) # effects))
         | e \<Rightarrow> (Some (spawn_error_code e), []))"

definition launch :: "exec_world \<Rightarrow> exec_args \<Rightarrow> string option \<Rightarrow> nat option \<times> exec_effect list" where
  "launch w args credential =
     (case ew_prepare_signal w of
        Some n \<Rightarrow> (Some (128 + n), [])
      | None \<Rightarrow>
          (case exec_prepare w args credential of
             Inl _ \<Rightarrow> (Some EXIT_FAILED, [])
           | Inr p \<Rightarrow>
               (case ea_sandbox args of
                  None \<Rightarrow> spawn_command w args p (ea_command args)
                | Some Srt \<Rightarrow>
                    (case srt_command_line w args (pp_http_addr p) of
                       (Inl _, effects) \<Rightarrow> (Some EXIT_FAILED, effects)
                     | (Inr line, effects) \<Rightarrow> apsnd ((@) effects) (spawn_command w args p line)))))"

text \<open>A run that has not ended yet has no status, and its session is still open.\<close>

definition exec_run :: "exec_world \<Rightarrow> exec_args \<Rightarrow> nat option \<times> exec_effect list" where
  "exec_run w args =
     (case exec_validate args of
        Inl _ \<Rightarrow> (Some EXIT_FAILED, [])
      | Inr _ \<Rightarrow>
          (case ew_signals w of
             Inl _ \<Rightarrow> (Some EXIT_FAILED, [])
           | Inr _ \<Rightarrow>
               if \<not> ea_agent args then launch w args None
               else
                 (case ew_start_signal w of
                    Some (n, started) \<Rightarrow>
                      (Some (128 + n),
                       case agent_start w args of Inr l \<Rightarrow> if started then [Agent_Started (al_session_id l)] else [] | Inl _ \<Rightarrow> [])
                  | None \<Rightarrow>
                      (case agent_start w args of
                         Inl _ \<Rightarrow> (Some EXIT_FAILED, [])
                       | Inr l \<Rightarrow>
                           (case launch w args (Some (al_credential l)) of
                              (None, effects) \<Rightarrow> (None, Agent_Started (al_session_id l) # effects)
                            | (Some code, effects) \<Rightarrow>
                                (Some code, Agent_Started (al_session_id l) # effects @ [Agent_Ended (al_session_id l)]))))))"

subsection \<open>An agent runs confined and with its own credential only\<close>

text \<open>What the command's environment holds: the variables added, else the inherited ones that were not removed.\<close>

definition child_environment :: "(string \<Rightarrow> string option) \<Rightarrow> string list \<Rightarrow> (string \<times> string) list \<Rightarrow> string \<Rightarrow> string option" where
  "child_environment inherited removed added k =
     (case map_of (rev added) k of Some v \<Rightarrow> Some v | None \<Rightarrow> if k \<in> set removed then None else inherited k)"

definition CREDENTIAL_VARS :: "string list" where
  "CREDENTIAL_VARS = [''SKIMASQUE_TOKEN'', ''SKIMASQUE_TOKEN_FILE'', ''SKIMASQUE_OIDC_TOKEN'']"

lemma supervise_effects: "Command_Spawned line removed added c \<notin> set (snd (supervise es))"
  by (induction es rule: supervise.induct) (auto split: prod.splits)

lemma spawn_command_effects:
  "snd (spawn_command w args p l) = [] \<or>
   (\<exists>rest. snd (spawn_command w args p l) =
      Command_Spawned l (if ea_agent args \<or> ea_sandbox args \<noteq> None then SCRUBBED_ENV else []) (pp_env p) (pp_credential p) # rest \<and>
      (\<forall>e \<in> set rest. \<exists>es. e \<in> set (snd (supervise es))))"
proof (cases "ew_spawn w l")
  case Spawned
  obtain r effects where s: "supervise (map Child_Signal (ew_check_signals w) @ ew_child w) = (r, effects)" by fastforce
  then have "\<forall>e \<in> set effects. \<exists>es. e \<in> set (snd (supervise es))" by (metis snd_conv)
  then show ?thesis using Spawned s by (auto simp: spawn_command_def Let_def)
qed (auto simp: spawn_command_def Let_def)

lemma spawn_command_spawned:
  assumes "Command_Spawned line removed added c \<in> set (snd (spawn_command w args p l))"
  shows "line = l \<and> added = pp_env p \<and> c = pp_credential p \<and> (ea_agent args \<or> ea_sandbox args \<noteq> None \<longrightarrow> removed = SCRUBBED_ENV) \<and>
    (\<exists>rest. snd (spawn_command w args p l) = Command_Spawned line removed added c # rest)"
  using spawn_command_effects [of w args p l] assms supervise_effects by fastforce

lemma agent_bearer:
  "resolve_bearer env (session_auth args (Some c)) (Inr stored) =
     Inr \<lparr>be_header = Some c, be_refresh = None, be_login = None\<rparr>"
  by (simp add: resolve_bearer_def session_auth_def auth_mode_of_def static_token_def)

lemma exec_prepare_agent:
  assumes "exec_prepare w args (Some c) = Inr p"
  shows "pp_credential p = Some c"
proof -
  obtain login where l: "ew_login w = Inr login" using assms by (auto simp: exec_prepare_def and_then_Inr_iff)
  obtain gateway headers cn where "open_session (ew_dial w) gateway (ea_tls args) (session_auth args (Some c)) headers (ew_login w) = Inr cn"
      "pp_credential p = cn_credential cn"
    using assms by (auto simp: exec_prepare_def and_then_Inr_iff Let_def)
  moreover from this obtain b token where "resolve_bearer (de_session (ew_dial w)) (session_auth args (Some c)) (ew_login w) = Inr b"
      "be_header b = Some token" "cn_credential cn = Some token"
    by (elim open_session_Inr)
  ultimately show ?thesis using agent_bearer l by auto
qed

lemma exec_prepare_env:
  assumes "exec_prepare w args credential = Inr p"
  shows "if ea_sandbox args \<noteq> None then pp_env p = [] else \<exists>http socks forwards. pp_env p = child_env http socks forwards"
proof (cases "ea_sandbox args")
  case None
  then obtain http socks forwards where "pp_env p = child_env http socks forwards"
    using assms by (auto simp: exec_prepare_def and_then_Inr_iff Let_def)
  then show ?thesis using None by auto
next
  case Some
  then show ?thesis using assms by (auto simp: exec_prepare_def and_then_Inr_iff Let_def)
qed

lemma srt_command_line_Inr:
  assumes "srt_command_line w args addr = (Inr line, effects)"
  shows "\<exists>srt file base doc me target stdout. line = srt # argv file (ea_command args) \<and>
    settings base (ea_allow_domains args) addr (ew_login_dir w) = Inr doc \<and> ew_settings_file w doc = Inr file \<and>
    effects = [Sandbox_Checked (srt # argv file [me, ''sandbox-probe'', display_socket_addr target])] \<and>
    ew_check w (srt # argv file [me, ''sandbox-probe'', display_socket_addr target]) = Check_Output stdout True \<and>
    str_trim (probe_verdict stdout) = PROBE_BLOCKED"
proof -
  obtain srt base doc sf target me where s: "settings base (ea_allow_domains args) addr (ew_login_dir w) = Inr doc"
      "map_err (\<lambda>_. ''writing the sandbox settings'') (ew_settings_file w doc) = Inr sf"
      "and_then (case ew_check w (srt # argv sf [me, ''sandbox-probe'', display_socket_addr target]) of
          Check_Timeout \<Rightarrow> Inl ''the sandbox check timed out; refusing to start the agent''
        | Check_Failed \<Rightarrow> Inl (''running '' @ srt)
        | Check_Output stdout success \<Rightarrow> judge_probe (probe_verdict stdout) success)
        (\<lambda>_. Inr (srt # argv sf (ea_command args))) = Inr line"
      "effects = [Sandbox_Checked (srt # argv sf [me, ''sandbox-probe'', display_socket_addr target])]"
    using assms unfolding srt_command_line_def
    by (clarsimp simp: and_then_Inr_iff split: sum.splits)
  have f: "ew_settings_file w doc = Inr sf" using s(2) by (cases "ew_settings_file w doc") (auto simp: map_err_def)
  obtain stdout where c: "ew_check w (srt # argv sf [me, ''sandbox-probe'', display_socket_addr target]) = Check_Output stdout True"
      "str_trim (probe_verdict stdout) = PROBE_BLOCKED"
    using s(3) by (cases "ew_check w (srt # argv sf [me, ''sandbox-probe'', display_socket_addr target])")
      (auto simp: judge_probe_def and_then_Inr_iff split: if_splits)
  have l: "line = srt # argv sf (ea_command args)" using s(3) c by (simp add: and_then_Inr_iff)
  show ?thesis
    by (rule exI [of _ srt], rule exI [of _ sf], rule exI [of _ base], rule exI [of _ doc], rule exI [of _ me],
        rule exI [of _ target], rule exI [of _ stdout]) (intro conjI l s(1) f s(4) c)
qed

lemma srt_command_line_effects:
  "Command_Spawned line removed added c \<notin> set (snd (srt_command_line w args addr))"
  by (auto simp: srt_command_line_def split: sum.splits prod.splits)

text \<open>How a command that was spawned came to be.\<close>

lemma launch_spawned:
  assumes "Command_Spawned line removed added c \<in> set (snd (launch w args credential))"
  shows "\<exists>p before rest. exec_prepare w args credential = Inr p \<and> added = pp_env p \<and> c = pp_credential p \<and>
    snd (launch w args credential) = before @ Command_Spawned line removed added c # rest \<and>
    (ea_agent args \<or> ea_sandbox args \<noteq> None \<longrightarrow> removed = SCRUBBED_ENV) \<and>
    (if ea_sandbox args = None then line = ea_command args
     else srt_command_line w args (pp_http_addr p) = (Inr line, before))"
proof -
  obtain p where p: "exec_prepare w args credential = Inr p" "ew_prepare_signal w = None"
    using assms by (auto simp: launch_def split: option.splits sum.splits)
  show ?thesis
  proof (cases "ea_sandbox args")
    case None
    then have e: "snd (launch w args credential) = snd (spawn_command w args p (ea_command args))"
      using p by (simp add: launch_def)
    then have "Command_Spawned line removed added c \<in> set (snd (spawn_command w args p (ea_command args)))"
      using assms by simp
    from spawn_command_spawned [OF this] obtain rest where q: "line = ea_command args" "added = pp_env p" "c = pp_credential p"
        "ea_agent args \<or> ea_sandbox args \<noteq> None \<longrightarrow> removed = SCRUBBED_ENV"
        "snd (spawn_command w args p (ea_command args)) = Command_Spawned line removed added c # rest"
      by (elim conjE exE) (rule that; assumption)
    have "snd (launch w args credential) = [] @ Command_Spawned line removed added c # rest" unfolding e q(5) by simp
    then show ?thesis using p(1) q(1-4) None
      by (intro exI [of _ p] exI [of _ "[]"] exI [of _ rest] conjI) (assumption | simp)+
  next
    case (Some s)
    then have s: "ea_sandbox args = Some Srt" by (cases s) simp
    obtain r effects where k: "srt_command_line w args (pp_http_addr p) = (r, effects)" by fastforce
    have n: "Command_Spawned line removed added c \<notin> set effects"
      using srt_command_line_effects [of line removed added c w args "pp_http_addr p"] k by simp
    obtain l where l: "r = Inr l"
      using assms p s k n by (cases r) (auto simp: launch_def)
    have e: "snd (launch w args credential) = effects @ snd (spawn_command w args p l)"
      using p s k l by (simp add: launch_def)
    then have "Command_Spawned line removed added c \<in> set (snd (spawn_command w args p l))" using assms n by simp
    from spawn_command_spawned [OF this] obtain rest where q: "line = l" "added = pp_env p" "c = pp_credential p"
        "ea_agent args \<or> ea_sandbox args \<noteq> None \<longrightarrow> removed = SCRUBBED_ENV"
        "snd (spawn_command w args p l) = Command_Spawned line removed added c # rest"
      by (elim conjE exE) (rule that; assumption)
    have "snd (launch w args credential) = effects @ Command_Spawned line removed added c # rest" unfolding e q(5) by (rule refl)
    moreover have "if ea_sandbox args = None then line = ea_command args
        else srt_command_line w args (pp_http_addr p) = (Inr line, effects)" using s l k q(1) by simp
    ultimately show ?thesis using p(1) q(2-4)
      by (intro exI [of _ p] exI [of _ effects] exI [of _ rest] conjI) assumption+
  qed
qed

lemma exec_run_spawned:
  assumes "Command_Spawned line removed added c \<in> set (snd (exec_run w args))" "ea_agent args"
  shows "exec_validate args = Inr () \<and> (\<exists>l after. agent_start w args = Inr l \<and>
    Command_Spawned line removed added c \<in> set (snd (launch w args (Some (al_credential l)))) \<and>
    snd (exec_run w args) = Agent_Started (al_session_id l) # snd (launch w args (Some (al_credential l))) @ after)"
proof -
  have v: "exec_validate args = Inr ()" using assms by (auto simp: exec_run_def split: sum.splits)
  have s: "\<exists>u. ew_signals w = Inr u" using assms v by (auto simp: exec_run_def split: sum.splits)
  have n: "ew_start_signal w = None"
    using assms v s by (cases "ew_start_signal w") (auto simp: exec_run_def split: sum.splits if_splits)
  obtain l where l: "agent_start w args = Inr l"
    using assms v s n by (cases "agent_start w args") (auto simp: exec_run_def)
  obtain code effects where c: "launch w args (Some (al_credential l)) = (code, effects)" by fastforce
  have "\<exists>after. snd (exec_run w args) = Agent_Started (al_session_id l) # effects @ after \<and> set after \<subseteq> {Agent_Ended (al_session_id l)}"
    using assms(2) v s n l c by (cases code) (auto simp: exec_run_def)
  then obtain after where a: "snd (exec_run w args) = Agent_Started (al_session_id l) # effects @ after"
    "set after \<subseteq> {Agent_Ended (al_session_id l)}" by blast
  have "Command_Spawned line removed added c \<in> set effects" using assms(1) a by auto
  then show ?thesis using v l a(1) c by auto
qed

lemma scrubbed_credentials: "set CREDENTIAL_VARS \<subseteq> set SCRUBBED_ENV"
  by (auto simp: CREDENTIAL_VARS_def SCRUBBED_ENV_def)

lemma child_env_names:
  assumes "k \<in> set CREDENTIAL_VARS"
  shows "map_of (rev (child_env http socks forwards)) k = None"
proof -
  have "k \<notin> fst ` set (child_env http socks forwards)"
    using assms by (auto simp: child_env_def CREDENTIAL_VARS_def env_name_def Let_def)
  then show ?thesis by (simp add: map_of_eq_None_iff)
qed

subsection \<open>Every way out ends the session\<close>

lemma status_of_wait: "fst (supervise es) \<noteq> None \<longleftrightarrow> (\<exists>e \<in> set es. \<forall>n. e \<noteq> Child_Signal n)"
  by (induction es rule: supervise.induct) (auto split: prod.splits)

lemma launch_returns:
  assumes "\<exists>e \<in> set (ew_child w). \<forall>n. e \<noteq> Child_Signal n"
  shows "fst (launch w args credential) \<noteq> None"
proof -
  have "fst (spawn_command w args p line) \<noteq> None" for p line
  proof (cases "ew_spawn w line")
    case Spawned
    have "fst (supervise (map Child_Signal (ew_check_signals w) @ ew_child w)) \<noteq> None"
      unfolding status_of_wait using assms by auto
    then show ?thesis using Spawned by (auto simp: spawn_command_def Let_def split: prod.splits)
  qed (simp_all add: spawn_command_def Let_def)
  then show ?thesis
    by (auto simp: launch_def split: option.splits sum.splits sandbox_runtime.splits prod.splits)
qed

lemma supervise_effects_kind: "e \<in> set (snd (supervise es)) \<Longrightarrow> \<exists>n. e = Signal_Passed n \<or> e = Command_Killed"
  by (induction es rule: supervise.induct) (auto split: prod.splits if_splits)

lemma launch_effects_kind:
  "e \<in> set (snd (launch w args credential)) \<Longrightarrow> e \<noteq> Agent_Started sid \<and> e \<noteq> Agent_Ended sid"
proof -
  have sp: "e \<in> set (snd (spawn_command w args p line)) \<Longrightarrow> e \<noteq> Agent_Started sid \<and> e \<noteq> Agent_Ended sid" for p line
    using supervise_effects_kind [of e]
    by (auto simp: spawn_command_def Let_def split: spawn_result.splits prod.splits) (metis exec_effect.distinct snd_conv)+
  have sr: "e \<in> set (snd (srt_command_line w args addr)) \<Longrightarrow> e \<noteq> Agent_Started sid \<and> e \<noteq> Agent_Ended sid" for addr
    by (auto simp: srt_command_line_def split: sum.splits prod.splits)
  show "e \<in> set (snd (launch w args credential)) \<Longrightarrow> e \<noteq> Agent_Started sid \<and> e \<noteq> Agent_Ended sid"
    using sp sr
    by (auto simp: launch_def split: option.splits sum.splits sandbox_runtime.splits prod.splits) (metis snd_conv)+
qed


text \<open>
  The exception: a signal that arrives while the answer to the start of the session is still on its way drops
  the call, and a session the control plane had already started is left running.
\<close>

lemma interrupted_start_leaks_session:
  assumes "ea_agent args" "exec_validate args = Inr ()" "ew_signals w = Inr ()"
    and "ew_start_signal w = Some (n, True)" "agent_start w args = Inr l"
  shows "exec_run w args = (Some (128 + n), [Agent_Started (al_session_id l)])"
  using assms by (simp add: exec_run_def)

text \<open>
  An interrupt during the check of the sandbox is not acted on: the command is started all the same, and the
  interrupt is not passed on to it.
\<close>

lemma interrupt_during_check_is_lost:
  assumes "ew_check_signals w = [SIGINT]"
  shows "spawn_command w args p line = spawn_command (w\<lparr>ew_check_signals := []\<rparr>) args p line"
  using assms by (simp add: spawn_command_def split: prod.splits spawn_result.splits)

subsection \<open>Samples\<close>

definition sample_exec_web :: web where
  "sample_exec_web = \<lparr>wb_send = (\<lambda>_. Inr \<lparr>hp_status = 200, hp_body = ''session''\<rparr>),
     wb_parse = (\<lambda>_. Some (JObject [(''session_id'', JString ''as_1''), (''credential'', JString ''agent-token''),
       (''expires_in'', u64_json 3600), (''expires_at_ms'', u64_json 1000)])),
     wb_print = (\<lambda>_. []), wb_show_status = nat_to_string\<rparr>"

definition sample_login :: login_credentials where
  "sample_login = \<lparr>lc_control_plane = ''https://control.example'', lc_session_token = ''login-token'', lc_github_login = ''u'', lc_user_id = ''u1''\<rparr>"

definition sample_world :: exec_world where
  "sample_world = \<lparr>ew_signals = Inr (), ew_login = Inr (Some sample_login), ew_web = sample_exec_web, ew_client = True,
     ew_dial = sample_dial, ew_peek = (\<lambda>_. None), ew_bind = (\<lambda>_ n. Inr (SocketAddr (V4 1) (of_nat (8080 + n)))),
     ew_start_signal = None, ew_prepare_signal = None, ew_locate = Some ''/usr/bin/srt'', ew_read = (\<lambda>_. None),
     ew_login_dir = [''/home/u/.config/skimasque''], ew_settings_file = (\<lambda>_. Inr ''/tmp/srt.json''),
     ew_probe_target = Inr (SocketAddr (V4 2) 9), ew_current_exe = Inr ''/usr/bin/skimasque'',
     ew_check = (\<lambda>_. Check_Output PROBE_BLOCKED True), ew_check_signals = [SIGINT], ew_spawn = (\<lambda>_. Spawned),
     ew_child = [Child_Signal 15, Child_Ends (Exited 3)]\<rparr>"

definition sample_args :: exec_args where
  "sample_args = \<lparr>ea_policy = None, ea_app = None, ea_gateway = Some ''gw.example'', ea_control_plane = None, ea_forwards = [],
     ea_agent = True, ea_ttl = None, ea_runtime = None, ea_run_id = None, ea_parent = None, ea_sandbox = Some Srt,
     ea_allow_domains = [''*.acme.dev''], ea_sandbox_settings = None, ea_unsandboxed = False, ea_quiet = False, ea_tls = sample_tls,
     ea_auth = \<lparr>aa_auth_token = None, aa_auth_token_file = None, aa_github_oidc = False, aa_oidc_token = None,
       aa_oidc_audience = None, aa_org = Some ''org_1''\<rparr>,
     ea_command = [''claude'']\<rparr>"

definition sample_lease :: agent_lease where
  "sample_lease = \<lparr>al_api = \<lparr>api_base_url = ''https://control.example''\<rparr>, al_login_token = ''login-token'', al_org = ''org_1'',
     al_session_id = ''as_1'', al_credential = ''agent-token''\<rparr>"

lemma sample_agent_start: "agent_start sample_world sample_args = Inr sample_lease"
proof -
  have a: "api_new True ''https://control.example'' = Inr \<lparr>api_base_url = ''https://control.example''\<rparr>" by code_simp
  have s: "api_start_agent_session sample_exec_web api t org req =
      Inr \<lparr>ag_session_id = ''as_1'', ag_credential = ''agent-token'', ag_expires_in = 3600, ag_expires_at_ms = 1000\<rparr>" for api t org req
    by (simp add: api_start_agent_session_def api_call_def send_request_def sample_exec_web_def api_error_for_status_def
        is_success_def answer_body_def read_agent_session_def readers json_secs_def ok_or_def)
  show ?thesis
    by (simp add: agent_start_def sample_world_def sample_args_def sample_login_def a s resolve_org_arg_def ok_or_def
        transpose_map_def sample_lease_def)
qed

lemma sample_open_session:
  "\<exists>c. open_session sample_dial ''gw.example'' sample_tls (session_auth sample_args (Some ''agent-token'')) headers (Inr (Some sample_login)) = Inr c \<and>
     cn_credential c = Some ''agent-token'' \<and> cn_login c = None"
proof -
  have pp: "proxy_with_port ''gw.example'' = ''gw.example:443''" by code_simp
  obtain t where t: "default_connect_udp ''gw.example:443'' = Inr t" "require_variables t CONNECT_UDP_VARIABLES = Inr ()"
    using sample_default_udp by blast
  show ?thesis
    by (simp add: open_session_def resolve_proxy_def sample_dial_def pp client_tls_def sample_tls_def session_template_def t
        client_connect_def agent_bearer)
qed

definition sample_front :: socket_addr where
  "sample_front = SocketAddr (V4 1) 8080"

lemma sample_prepare:
  "\<exists>p. exec_prepare sample_world sample_args (Some ''agent-token'') = Inr p \<and> pp_env p = [] \<and> pp_http_addr p = sample_front"
proof -
  obtain headers where h: "exec_headers (\<lambda>_. True) (default_app ''claude'') None = Inr headers" by (simp add: exec_headers_def Let_def)
  obtain c where c: "open_session sample_dial ''gw.example'' sample_tls (session_auth sample_args (Some ''agent-token'')) headers
      (Inr (Some sample_login)) = Inr c" "cn_login c = None"
    using sample_open_session by blast
  have k: "exec_check w args cp app c = Inr None" for w args cp app using c(2) by (simp add: exec_check_def)
  have a: "ea_gateway sample_args = Some ''gw.example''" "ea_tls sample_args = sample_tls" "ea_app sample_args = None"
    "ea_command sample_args = [''claude'']" "ea_policy sample_args = None" "ea_forwards sample_args = []" "ea_sandbox sample_args = Some Srt"
    by (simp_all add: sample_args_def)
  have w: "ew_dial sample_world = sample_dial" "ew_login sample_world = Inr (Some sample_login)"
    "ew_bind sample_world = (\<lambda>_ n. Inr (SocketAddr (V4 1) (of_nat (8080 + n))))" "de_header_ok sample_dial = (\<lambda>_. True)"
    by (simp_all add: sample_world_def sample_dial_def)
  show ?thesis
    by (simp add: exec_prepare_def a w h c(1) k resolve_gateway_def Let_def sample_front_def)
qed

lemma sample_spawned:
  "\<exists>line c. Command_Spawned line SCRUBBED_ENV [] c \<in> set (snd (exec_run sample_world sample_args))"
proof -
  obtain p where p: "exec_prepare sample_world sample_args (Some ''agent-token'') = Inr p" "pp_env p = []" "pp_http_addr p = sample_front"
    using sample_prepare by blast
  obtain doc where d: "settings None [''*.acme.dev''] sample_front [''/home/u/.config/skimasque''] = Inr doc"
    by (simp add: settings_def filesystem_settings_def network_step_def entry_or_def add_denied_def Let_def sample_front_def)
  have v: "judge_probe (probe_verdict PROBE_BLOCKED) True = Inr ()" by code_simp
  have a: "ea_agent sample_args" "ea_sandbox sample_args = Some Srt" "ea_allow_domains sample_args = [''*.acme.dev'']"
    "ea_sandbox_settings sample_args = None" "ea_command sample_args = [''claude'']" "ea_forwards sample_args = []"
    by (simp_all add: sample_args_def)
  have w: "ew_signals sample_world = Inr ()" "ew_start_signal sample_world = None" "ew_prepare_signal sample_world = None"
    "ew_locate sample_world = Some ''/usr/bin/srt''" "ew_login_dir sample_world = [''/home/u/.config/skimasque'']"
    "ew_settings_file sample_world = (\<lambda>_. Inr ''/tmp/srt.json'')" "ew_probe_target sample_world = Inr (SocketAddr (V4 2) 9)"
    "ew_current_exe sample_world = Inr ''/usr/bin/skimasque''" "ew_check sample_world = (\<lambda>_. Check_Output PROBE_BLOCKED True)"
    "ew_spawn sample_world = (\<lambda>_. Spawned)"
    by (simp_all add: sample_world_def)
  obtain line effects where s: "srt_command_line sample_world sample_args sample_front = (Inr line, effects)"
    by (simp add: srt_command_line_def a w d v ok_or_def transpose_map_def)
  have "snd (spawn_command sample_world sample_args p line) =
      Command_Spawned line SCRUBBED_ENV [] (pp_credential p) # snd (supervise (map Child_Signal (ew_check_signals sample_world) @ ew_child sample_world))"
    by (simp add: spawn_command_def a w p(2) split: prod.splits)
  then have "Command_Spawned line SCRUBBED_ENV [] (pp_credential p) \<in> set (snd (launch sample_world sample_args (Some ''agent-token'')))"
    by (simp add: launch_def a w p(1,3) s)
  then have "Command_Spawned line SCRUBBED_ENV [] (pp_credential p) \<in> set (snd (exec_run sample_world sample_args))"
    by (cases "launch sample_world sample_args (Some ''agent-token'')"; cases "fst (launch sample_world sample_args (Some ''agent-token''))")
      (simp_all add: exec_run_def exec_validate_def a w sample_agent_start sample_lease_def)
  then show ?thesis by blast
qed



end
