(* ===== verification/Probe.thy ===== *)
theory Probe
  imports Audit_Ship Template
begin

text \<open>
  The helpers of the diagnostic probe (\<^verbatim>\<open>skimasque-cli/src/probe.rs\<close>): hexadecimal input, the hex dump, DNS
  queries and the header of a reply. The hexadecimal reader also reads the gateway's credential secret.
\<close>

subsection \<open>Hexadecimal\<close>

text \<open>
  Two bytes at a time are cut out of the text; a cut inside a character panics, which is \<open>None\<close>. Every cut
  starts where the one before ended.
\<close>

fun hex_bytes :: "(string \<Rightarrow> string) \<Rightarrow> string \<Rightarrow> (string + bytes) option" where
  "hex_bytes debug (a # b # rest) =
     (if rest \<noteq> [] \<and> utf8_cont (char_code (hd rest)) then None
      else
        (case from_str_radix_16 [a, b] of
           None \<Rightarrow> Some (Inl (debug [a, b] @ '' is not a hex byte''))
         | Some n \<Rightarrow> map_option (\<lambda>r. and_then r (\<lambda>bs. Inr (of_nat n # bs))) (hex_bytes debug rest)))"
| "hex_bytes debug _ = Some (Inr [])"

definition parse_hex :: "(string \<Rightarrow> string) \<Rightarrow> string \<Rightarrow> (string + bytes) option" where
  "parse_hex debug input =
     (let cleaned = concat (filter (\<lambda>u. \<not> char_is_whitespace u \<and> u \<noteq> '':'') (str_chars input))
      in if odd (length cleaned) then Some (Inl ''hex input has an odd number of digits'')
         else hex_bytes debug cleaned)"

definition hex_offset :: "nat \<Rightarrow> string" where
  "hex_offset n = (let h = nat_to_hex n in replicate (8 - length h) (CHR ''0'') @ h)"

definition dump_cell :: "bytes \<Rightarrow> nat \<Rightarrow> string" where
  "dump_cell chunk i =
     (if i < length chunk then hex_pairs [chunk ! i] @ '' '' else ''   '') @ (if i = 7 then '' '' else [])"

definition dump_char :: "u8 \<Rightarrow> char" where
  "dump_char b = (if 0x21 \<le> b \<and> b \<le> 0x7E \<or> b = 0x20 then char_of (unat b) else CHR ''.'')"

definition dump_line :: "nat \<Rightarrow> bytes \<Rightarrow> string" where
  "dump_line offset chunk =
     hex_offset (offset * 16) @ ''  '' @ concat (map (dump_cell chunk) [0..<16]) @ '' |'' @ map dump_char chunk @ ''|'' @
     [char_of (10 :: nat)]"

fun hexdump_from :: "nat \<Rightarrow> bytes \<Rightarrow> string" where
  "hexdump_from offset bs =
     (if bs = [] then [] else dump_line offset (take 16 bs) @ hexdump_from (Suc offset) (drop 16 bs))"

declare hexdump_from.simps [simp del]

definition hexdump :: "bytes \<Rightarrow> string" where
  "hexdump bs = hexdump_from 0 bs"

subsection \<open>DNS\<close>

definition TYPE_A :: u16 where "TYPE_A = 1"

definition TYPE_AAAA :: u16 where "TYPE_AAAA = 28"

fun dns_labels :: "(string \<Rightarrow> string) \<Rightarrow> string \<Rightarrow> string list \<Rightarrow> string + bytes" where
  "dns_labels debug name [] = Inr []"
| "dns_labels debug name (label # labels) =
     (if label = [] then Inl (debug name @ '' has an empty label'')
      else if 63 < length label then Inl (''label '' @ debug label @ '' exceeds 63 bytes'')
      else and_then (dns_labels debug name labels) (\<lambda>rest. Inr (of_nat (length label) # as_bytes label @ rest)))"

definition dns_query :: "(string \<Rightarrow> string) \<Rightarrow> u16 \<Rightarrow> string \<Rightarrow> u16 \<Rightarrow> string + bytes" where
  "dns_query debug qid name qtype =
     and_then (dns_labels debug name (split_on (CHR ''.'') (trim_end_matches (CHR ''.'') name))) (\<lambda>labels.
       Inr (be_bytes 2 qid @ be_bytes 2 (0x0100 :: u16) @ be_bytes 2 (1 :: u16) @ [0, 0, 0, 0, 0, 0] @ labels @ [0] @
         be_bytes 2 qtype @ be_bytes 2 (1 :: u16)))"

record dns_header =
  dh_id :: u16
  dh_is_response :: bool
  dh_response_code :: u8
  dh_questions :: u16
  dh_answers :: u16

definition dns_header_parse :: "bytes \<Rightarrow> dns_header option" where
  "dns_header_parse bs =
     (if length bs < 12 then None
      else
        (let flags = be_word (take 2 (drop 2 bs)) :: u16
         in Some \<lparr>dh_id = be_word (take 2 bs), dh_is_response = (flags AND 0x8000 \<noteq> 0),
              dh_response_code = ucast (flags AND 0x000f), dh_questions = be_word (take 2 (drop 4 bs)),
              dh_answers = be_word (take 2 (drop 6 bs))\<rparr>))"

definition response_code_name :: "dns_header \<Rightarrow> string" where
  "response_code_name h =
     (let names = [''NOERROR'', ''FORMERR'', ''SERVFAIL'', ''NXDOMAIN'', ''NOTIMP'', ''REFUSED''];
          c = unat (dh_response_code h)
      in if c < length names then names ! c else ''unknown'')"

subsection \<open>Hexadecimal input reads back\<close>

lemma hex_char_radix: "a < 16 \<Longrightarrow> b < 16 \<Longrightarrow> from_str_radix_16 [hex_char a, hex_char b] = Some (16 * a + b)"
proof -
  assume "a < 16" "b < 16"
  moreover have "hex_char a \<noteq> CHR ''+''" using is_hex_digit_hex_char [OF \<open>a < 16\<close>] by (auto simp: is_hex_digit_def is_ascii_digit_def)
  ultimately show ?thesis by (simp add: from_str_radix_16_def hex_digits_val_def hex_val_hex_char)
qed

lemma hex_char_ascii: "a < 16 \<Longrightarrow> char_code (hex_char a) < 128"
  using is_hex_digit_hex_char [of a] by (auto simp: is_hex_digit_def is_ascii_digit_def)

lemma hex_bytes_pairs: "hex_bytes debug (hex_pairs bs) = Some (Inr bs)"
proof (induction bs)
  case (Cons b bs)
  have lt: "unat b div 16 < 16" "unat b mod 16 < 16" using u8_unat_less [of b] by auto
  have "\<not> (hex_pairs bs \<noteq> [] \<and> utf8_cont (char_code (hd (hex_pairs bs))))"
  proof (cases bs)
    case (Cons c cs)
    have "unat c div 16 < 16" using u8_unat_less [of c] by auto
    then show ?thesis using hex_char_ascii [of "unat c div 16"] Cons by (simp add: utf8_cont_def)
  qed simp
  then show ?case using Cons hex_char_radix [OF lt] by simp
qed simp

lemma ascii_chars: "list_all (\<lambda>c. char_code c < 128) s \<Longrightarrow> str_chars s = map (\<lambda>c. [c]) s"
  by (induction s) (simp_all add: utf8_len_def)

lemma hex_pairs_ascii: "list_all is_hex_digit (hex_pairs bs)"
proof (induction bs)
  case (Cons b bs)
  then show ?case using u8_unat_less [of b] by (simp add: less_mult_imp_div_less)
qed simp

lemma hex_digit_plain: "is_hex_digit c \<Longrightarrow> char_code c < 128 \<and> \<not> char_is_whitespace [c] \<and> c \<noteq> CHR '':''"
  by (auto simp: is_hex_digit_def is_ascii_digit_def char_is_whitespace_def unicode_whitespace_def)

text \<open>What is printed as hexadecimal pairs is read back, and separators between the digits do not matter.\<close>

lemma parse_hex_pairs: "parse_hex debug (hex_pairs bs) = Some (Inr bs)"
proof -
  have h: "list_all (\<lambda>c. char_code c < 128 \<and> \<not> char_is_whitespace [c] \<and> c \<noteq> CHR '':'') (hex_pairs bs)"
    using hex_pairs_ascii [of bs] hex_digit_plain by (auto simp: list_all_iff)
  then have "str_chars (hex_pairs bs) = map (\<lambda>c. [c]) (hex_pairs bs)" by (intro ascii_chars) (auto simp: list_all_iff)
  then have "concat (filter (\<lambda>u. \<not> char_is_whitespace u \<and> u \<noteq> '':'') (str_chars (hex_pairs bs))) = hex_pairs bs"
    using h by (simp add: filter_map o_def list_all_iff)
  then show ?thesis by (simp add: parse_hex_def length_hex_pairs hex_bytes_pairs)
qed

text \<open>
  Two surprises: a plus sign counts as a digit, and text with a character of several bytes can make the
  reader cut inside it, which panics.
\<close>

lemma parse_hex_plus: "parse_hex debug ''+a'' = Some (Inr [10])"
  by code_simp

lemma parse_hex_panics: "parse_hex debug [CHR ''a'', char_of (0xC3 :: nat), char_of (0xA9 :: nat), CHR ''a''] = None"
  by code_simp

subsection \<open>Queries read back\<close>

text \<open>How a resolver reads the question: labels up to the root, then the type and the class.\<close>

fun read_labels :: "nat \<Rightarrow> bytes \<Rightarrow> (bytes list \<times> bytes) option" where
  "read_labels 0 bs = None"
| "read_labels (Suc k) [] = None"
| "read_labels (Suc k) (n # bs) =
     (if n = 0 then Some ([], bs)
      else if length bs < unat n then None
      else map_option (\<lambda>(ls, r). (take (unat n) bs # ls, r)) (read_labels k (drop (unat n) bs)))"

lemma dns_labels_read:
  assumes "dns_labels debug name labels = Inr bs"
  shows "read_labels (Suc (length labels)) (bs @ 0 # rest) = Some (map as_bytes labels, rest)"
  using assms
proof (induction labels arbitrary: bs)
  case (Cons l ls)
  obtain cs where c: "dns_labels debug name ls = Inr cs" "bs = of_nat (length l) # as_bytes l @ cs" "l \<noteq> []" "length l \<le> 63"
    using Cons.prems by (auto simp: and_then_Inr_iff split: if_splits)
  have u: "unat (of_nat (length l) :: u8) = length l" using c(4) by (simp add: unsigned_of_nat take_bit_nat_eq_self)
  moreover have "(of_nat (length l) :: u8) \<noteq> 0" using u c(3) by (metis length_0_conv unsigned_0)
  ultimately show ?case using Cons.IH [OF c(1)] c(2) by (simp add: as_bytes_def)
qed simp

text \<open>
  A query is what a resolver expects: its header carries the caller's transaction id and asks one question,
  and the question reads back as the labels of the name, without an empty one, the type and the class.
\<close>

theorem dns_query_reads_back:
  assumes "dns_query debug qid name qtype = Inr q"
  shows "dns_header_parse q = Some \<lparr>dh_id = qid, dh_is_response = False, dh_response_code = 0, dh_questions = 1, dh_answers = 0\<rparr> \<and>
    (let labels = split_on (CHR ''.'') (trim_end_matches (CHR ''.'') name)
     in read_labels (Suc (length labels)) (drop 12 q) = Some (map as_bytes labels, be_bytes 2 qtype @ be_bytes 2 (1 :: u16)))"
proof -
  let ?ls = "split_on (CHR ''.'') (trim_end_matches (CHR ''.'') name)"
  obtain bs where b: "dns_labels debug name ?ls = Inr bs"
    "q = be_bytes 2 qid @ be_bytes 2 (0x0100 :: u16) @ be_bytes 2 (1 :: u16) @ [0, 0, 0, 0, 0, 0] @ bs @ [0] @
      be_bytes 2 qtype @ be_bytes 2 (1 :: u16)"
    using assms by (auto simp: dns_query_def and_then_Inr_iff)
  have w: "be_word (be_bytes 2 (x :: u16)) = x" for x by (rule be_word_be_bytes) simp
  have t: "take 2 q = be_bytes 2 qid" "take 2 (drop 2 q) = be_bytes 2 (0x0100 :: u16)" "take 2 (drop 4 q) = be_bytes 2 (1 :: u16)"
    "take 2 (drop 6 q) = [0, 0]" "drop 12 q = bs @ 0 # be_bytes 2 qtype @ be_bytes 2 (1 :: u16)" "\<not> length q < 12"
    by (simp_all add: b(2) numeral_2_eq_2)
  have "be_word [0, 0] = (0 :: u16)" by (simp add: be_word_def be_nat_def)
  then have "dns_header_parse q = Some \<lparr>dh_id = qid, dh_is_response = False, dh_response_code = 0, dh_questions = 1, dh_answers = 0\<rparr>"
    using t w by (simp add: dns_header_parse_def Let_def)
  then show ?thesis using dns_labels_read [OF b(1)] t(5) by (simp add: Let_def)
qed

end
