(* ===== verification/Gateway_Config.thy ===== *)
theory Gateway_Config
  imports Gateway_Safety Accept_Loop Local_Credentials Policy_Files Control_Http Probe
begin

text \<open>
  The start-up of the gateway (\<^verbatim>\<open>skimasque-cli/src/bin/skimasque-server.rs\<close>): the flags, the limits, template,
  address floor, identity provider and labels they give, the warnings, the registration with the control
  plane and the policy a gateway begins with, and the service it then serves. The argument parser's own rules
  (what requires and what excludes what) are \<open>args_accepted\<close>. A network of \<^verbatim>\<open>--allow-cidr\<close> is of type \<open>'n\<close>.
\<close>

subsection \<open>Flags\<close>

record 'n server_args =
  sv_listen :: socket_addr
  sv_hostname :: string
  sv_acme :: bool
  sv_acme_challenge_port :: "u16 option"
  sv_authority :: "string option"
  sv_template :: "string option"
  sv_auth_token :: "string option"
  sv_allow_private :: bool
  sv_allow_cidrs :: "'n list"
  sv_allow_ports :: "u16 list"
  sv_policy_dir :: "string option"
  sv_policy_files :: "string list"
  sv_control_plane :: "string option"
  sv_control_plane_state :: "string option"
  sv_control_plane_token :: "string option"
  sv_control_plane_name :: "string option"
  sv_control_plane_interval :: string
  sv_control_plane_policy_lease :: string
  sv_control_plane_cache_ttl :: string
  sv_control_plane_signing_key_interval :: string
  sv_control_plane_label :: "string list"
  sv_platform :: bool
  sv_policy_observe :: bool
  sv_policy_reload :: bool
  sv_policy_reload_interval :: string
  sv_tls_reload :: bool
  sv_tls_reload_interval :: string
  sv_audit_log :: "string option"
  sv_oidc :: bool
  sv_oidc_provider :: string
  sv_oidc_audiences :: "string list"
  sv_oidc_issuer :: "string option"
  sv_oidc_claims :: "string list"
  sv_credential_secret :: "string option"
  sv_credential_ttl :: string
  sv_no_connect_tcp :: bool
  sv_max_connections :: nat
  sv_max_connection_rate :: u32
  sv_max_connection_burst :: u32
  sv_max_source_connection_rate :: u32
  sv_max_source_connection_burst :: u32
  sv_max_exchange_rate :: u32
  sv_max_exchange_burst :: u32
  sv_max_tunnels_per_connection :: nat
  sv_tunnel_idle_timeout :: string
  sv_shutdown_grace :: string

definition has_policy :: "'n server_args \<Rightarrow> bool" where
  "has_policy args \<longleftrightarrow> sv_policy_dir args \<noteq> None \<or> sv_policy_files args \<noteq> [] \<or> sv_control_plane args \<noteq> None"

definition has_identity :: "'n server_args \<Rightarrow> bool" where
  "has_identity args \<longleftrightarrow> sv_auth_token args \<noteq> None \<or> sv_oidc args"

definition args_accepted :: "'n server_args \<Rightarrow> bool" where
  "args_accepted args \<longleftrightarrow>
     (sv_policy_dir args = None \<or> sv_policy_files args = [] \<and> sv_control_plane args = None) \<and>
     (sv_policy_files args = [] \<or> sv_control_plane args = None) \<and>
     (sv_control_plane args = None \<or> sv_control_plane_state args \<noteq> None) \<and>
     (sv_control_plane_label args = [] \<or> sv_control_plane args \<noteq> None) \<and>
     (\<not> sv_platform args \<or> sv_control_plane args \<noteq> None \<and> sv_oidc args \<and> \<not> sv_policy_observe args \<and> sv_oidc_issuer args = None) \<and>
     (\<not> sv_policy_observe args \<or> has_policy args) \<and>
     (\<not> sv_policy_reload args \<or> has_policy args \<and> sv_control_plane args = None) \<and>
     (sv_acme args \<or> sv_acme_challenge_port args = None) \<and>
     (sv_audit_log args = None \<or> has_policy args \<and> \<not> sv_policy_observe args) \<and>
     (\<not> sv_oidc args \<or> sv_auth_token args = None) \<and>
     (sv_oidc args \<or> sv_oidc_audiences args = [] \<and> sv_oidc_issuer args = None \<and> sv_oidc_claims args = [] \<and> sv_credential_secret args = None)"

subsection \<open>Limits, template and floor\<close>

definition rate_flag :: "u32 \<Rightarrow> u32 \<Rightarrow> connection_rate option" where
  "rate_flag rate burst = (if 0 < rate then Some \<lparr>cr_per_second = rate, cr_burst = max burst 1\<rparr> else None)"

definition build_limits :: "'n server_args \<Rightarrow> string + resource_limits" where
  "build_limits args =
     and_then (map_err (\<lambda>_. ''parsing --tunnel-idle-timeout'') (parse_duration (sv_tunnel_idle_timeout args))) (\<lambda>idle.
       Inr \<lparr>rl_max_connections = (if 0 < sv_max_connections args then Some (sv_max_connections args) else None),
         rl_connection_rate = rate_flag (sv_max_connection_rate args) (sv_max_connection_burst args),
         rl_per_source_rate = rate_flag (sv_max_source_connection_rate args) (sv_max_source_connection_burst args),
         rl_exchange_rate = rate_flag (sv_max_exchange_rate args) (sv_max_exchange_burst args),
         rl_max_tunnels_per_connection =
           (if 0 < sv_max_tunnels_per_connection args then Some (sv_max_tunnels_per_connection args) else None),
         rl_tunnel_idle_timeout = (if idle \<noteq> 0 then Some idle else None)\<rparr>)"

text \<open>The shutdown grace and the intervals at which the policy and the certificate are looked at again.\<close>

definition start_intervals :: "'n server_args \<Rightarrow> string + duration \<times> duration option \<times> duration option" where
  "start_intervals args =
     and_then (map_err (\<lambda>_. ''parsing --shutdown-grace'') (parse_duration (sv_shutdown_grace args))) (\<lambda>grace.
     and_then
       (if sv_policy_reload args then
          and_then (map_err (\<lambda>_. ''parsing --policy-reload-interval'') (parse_duration (sv_policy_reload_interval args))) (\<lambda>d. Inr (Some d))
        else Inr None) (\<lambda>reload.
     and_then
       (if sv_tls_reload args then
          and_then (map_err (\<lambda>_. ''parsing --tls-reload-interval'') (parse_duration (sv_tls_reload_interval args))) (\<lambda>d. Inr (Some d))
        else Inr None) (\<lambda>tls. Inr (grace, reload, tls))))"

definition acme_challenge_port :: "'n server_args \<Rightarrow> u16" where
  "acme_challenge_port args =
     (case sv_acme_challenge_port args of Some p \<Rightarrow> p | None \<Rightarrow> (case sv_listen args of SocketAddr _ p \<Rightarrow> p))"

definition hostname_only :: "string \<Rightarrow> string" where
  "hostname_only hostname =
     (case Option.bind (strip_prefix ''['' hostname) (\<lambda>rest. map_option fst (split_once_at (CHR '']'') rest)) of
        Some h \<Rightarrow> h
      | None \<Rightarrow>
          (case rsplit_once_at (CHR '':'') hostname of
             Some (h, port) \<Rightarrow> if parse_unsigned 65535 port \<noteq> None then h else hostname
           | None \<Rightarrow> hostname))"

definition OPEN_WARNING :: string where
  "OPEN_WARNING = ''no --auth-token or --oidc set; anyone who can reach this port can use it''"

definition NO_POLICY_WARNING :: string where
  "NO_POLICY_WARNING = ''no --policy-dir/--policy-file: authenticated clients may reach any address the '' @
     ''network floor permits; add a policy to authorize per destination''"

definition PRIVATE_WARNING :: string where
  "PRIVATE_WARNING = ''--allow-private lets clients reach loopback and private networks''"

definition CEILING_WARNING :: string where
  "CEILING_WARNING = ''a connection, rate or tunnel ceiling is disabled; one client can exhaust the gateway''"

definition ACME_WARNING :: string where
  "ACME_WARNING = ''ACME challenge port is not 443; Let's Encrypt validates TLS-ALPN-01 only on 443, so '' @
     ''issuance will fail unless something forwards 443 to it''"

definition startup_warnings :: "'n server_args \<Rightarrow> string list" where
  "startup_warnings args =
     (if \<not> has_identity args then [OPEN_WARNING] else []) @
     (if has_identity args \<and> \<not> has_policy args then [NO_POLICY_WARNING] else []) @
     (if sv_allow_private args then [PRIVATE_WARNING] else []) @
     (if sv_max_connections args = 0 \<or> sv_max_tunnels_per_connection args = 0 \<or> sv_max_connection_rate args = 0
      then [CEILING_WARNING] else []) @
     (if sv_acme args \<and> acme_challenge_port args \<noteq> 443 then [ACME_WARNING] else [])"

definition build_template :: "'n server_args \<Rightarrow> string + uri_template" where
  "build_template args =
     and_then
       (case sv_template args of
          Some raw \<Rightarrow> map_err (\<lambda>_. ''parsing --template'') (template_parse raw)
        | None \<Rightarrow> map_err (\<lambda>_. ''the default template'')
            (default_connect_udp (case sv_authority args of Some a \<Rightarrow> a | None \<Rightarrow> sv_hostname args)))
       (\<lambda>t. and_then (map_err (\<lambda>_. ''a connect-udp template needs target_host and target_port'')
              (require_variables t CONNECT_UDP_VARIABLES)) (\<lambda>_. Inr t))"

definition address_floor :: "'n server_args \<Rightarrow> 'n address_policy" where
  "address_floor args =
     (let p = (if sv_allow_private args then address_policy_permissive else address_policy_default);
          p1 = (if sv_allow_ports args \<noteq> [] then with_allowed_ports (sv_allow_ports args) p else p)
      in if sv_allow_cidrs args \<noteq> [] then with_allowed_cidrs (sv_allow_cidrs args) p1 else p1)"

definition build_dispatch :: "'n server_args \<Rightarrow> 'n dispatch" where
  "build_dispatch args =
     dispatch_new\<lparr>dp_udp := Some (address_floor args),
       dp_tcp := (if sv_no_connect_tcp args then None else Some (address_floor args))\<rparr>"

subsection \<open>Identity providers\<close>

definition set_claim :: "string \<Rightarrow> string \<Rightarrow> claim_names \<Rightarrow> claim_names option" where
  "set_claim slot claim n =
     (if slot = ''organization'' then Some (n\<lparr>cn_organization := Some claim\<rparr>)
      else if slot = ''repository'' then Some (n\<lparr>cn_repository := Some claim\<rparr>)
      else if slot = ''workflow'' then Some (n\<lparr>cn_workflow := Some claim\<rparr>)
      else if slot = ''ref'' then Some (n\<lparr>cn_git_ref := Some claim\<rparr>)
      else if slot = ''environment'' then Some (n\<lparr>cn_environment := Some claim\<rparr>)
      else if slot = ''actor'' then Some (n\<lparr>cn_actor := Some claim\<rparr>)
      else None)"

definition claim_names_default :: claim_names where
  "claim_names_default = \<lparr>cn_organization = None, cn_repository = None, cn_workflow = None, cn_git_ref = None,
     cn_environment = None, cn_actor = None\<rparr>"

fun claims_loop :: "(string \<Rightarrow> string) \<Rightarrow> string list \<Rightarrow> claim_names \<Rightarrow> string + claim_names" where
  "claims_loop debug [] names = Inr names"
| "claims_loop debug (spec # specs) names =
     (case split_once_at (CHR ''='') spec of
        None \<Rightarrow> Inl (''--oidc-claim '' @ debug spec @ '' is not FIELD=CLAIM'')
      | Some (slot, claim) \<Rightarrow>
          (case set_claim (str_trim slot) (str_trim claim) names of
             None \<Rightarrow> Inl (''--oidc-claim: unknown field '' @ debug (str_trim slot) @
               '' (use organization/repository/workflow/ref/environment/actor)'')
           | Some names' \<Rightarrow> claims_loop debug specs names'))"

definition build_provider :: "(string \<Rightarrow> string) \<Rightarrow> 'n server_args \<Rightarrow> string + provider" where
  "build_provider debug args =
     (if eq_ignore_ascii_case (sv_oidc_provider args) ''generic'' then
        and_then (claims_loop debug (sv_oidc_claims args) claim_names_default) (\<lambda>names.
          if names = claim_names_default then Inl ''--oidc-provider generic needs at least one --oidc-claim''
          else Inr (Generic names))
      else if sv_oidc_claims args \<noteq> [] then Inl ''--oidc-claim only applies to --oidc-provider generic''
      else ok_or (''unknown --oidc-provider '' @ debug (sv_oidc_provider args) @ '' (github, gitlab, buildkite, generic)'')
             (provider_from_name (sv_oidc_provider args)))"

text \<open>
  What the exchange of a gateway is built from. No secret means one was generated. \<open>hosted_ok\<close>: the OIDC
  library could build its client; reading the secret may panic, which is reported as an error here.
\<close>

record oidc_parts =
  op_provider :: provider
  op_issuer :: string
  op_audiences :: "string list"
  op_ttl :: duration
  op_secret :: "bytes option"

definition read_secret :: "(string \<Rightarrow> string) \<Rightarrow> string option \<Rightarrow> string + bytes option" where
  "read_secret debug secret =
     (case secret of
        None \<Rightarrow> Inr None
      | Some hex \<Rightarrow>
          (case parse_hex debug hex of
             None \<Rightarrow> Inl ''panic''
           | Some r \<Rightarrow>
               and_then (map_err (\<lambda>e. ''parsing --credential-secret: '' @ e) r) (\<lambda>bs.
                 if 16 \<le> length bs then Inr (Some bs)
                 else Inl ''--credential-secret must be at least 16 bytes (32 hex characters)'')))"

definition build_oidc :: "(string \<Rightarrow> string) \<Rightarrow> bool \<Rightarrow> 'n server_args \<Rightarrow> string + oidc_parts option" where
  "build_oidc debug hosted_ok args =
     (if \<not> sv_oidc args then Inr None
      else if sv_oidc_audiences args = [] then
        Inl ''--oidc needs at least one --oidc-audience (the value your pipeline requests)''
      else
        and_then (build_provider debug args) (\<lambda>provider.
        and_then
          (case (sv_oidc_issuer args, default_issuer provider) of
             (Some url, _) \<Rightarrow> Inr url
           | (None, Some hosted) \<Rightarrow> Inr hosted
           | (None, None) \<Rightarrow> Inl ''--oidc-provider generic needs an explicit --oidc-issuer'') (\<lambda>issuer.
        and_then (map_err (\<lambda>_. ''parsing --credential-ttl'') (parse_duration (sv_credential_ttl args))) (\<lambda>ttl.
        and_then (read_secret debug (sv_credential_secret args)) (\<lambda>secret.
          if \<not> hosted_ok then Inl ''building the OIDC verifier''
          else Inr (Some \<lparr>op_provider = provider, op_issuer = issuer, op_audiences = sv_oidc_audiences args, op_ttl = ttl,
                 op_secret = secret\<rparr>))))))"

definition build_platform_oidc :: "(string \<Rightarrow> string) \<Rightarrow> bool \<Rightarrow> 'n server_args \<Rightarrow> string + provider \<times> string" where
  "build_platform_oidc debug hosted_ok args =
     and_then (build_provider debug args) (\<lambda>provider.
       if provider \<noteq> GitHubActions then Inl ''--platform verifies GitHub owners, so it needs --oidc-provider github''
       else
         and_then (ok_or ''the GitHub provider has a hosted issuer'' (default_issuer provider)) (\<lambda>issuer.
           if \<not> hosted_ok then Inl ''building the OIDC verifier'' else Inr (provider, issuer)))"

subsection \<open>Joining a control plane\<close>

definition label_pair :: "(string \<Rightarrow> string) \<Rightarrow> string \<Rightarrow> string + string \<times> string" where
  "label_pair debug spec =
     and_then (ok_or (''--control-plane-label '' @ debug spec @ '' is not KEY=VALUE'') (split_once_at (CHR ''='') spec)) (\<lambda>(key, value).
       if str_trim key = [] \<or> str_trim value = [] then
         Inl (''--control-plane-label '' @ debug spec @ '' has an empty key or value'')
       else Inr (str_trim key, str_trim value))"

fun labels_loop :: "(string \<Rightarrow> string) \<Rightarrow> string list \<Rightarrow> (string \<times> string) list \<Rightarrow> string + (string \<times> string) list" where
  "labels_loop debug [] labels = Inr labels"
| "labels_loop debug (spec # specs) labels =
     and_then (label_pair debug spec) (\<lambda>(key, value).
       if map_of labels key \<noteq> None then Inl (''--control-plane-label '' @ debug key @ '' is set more than once'')
       else labels_loop debug specs (btree_insert key value labels))"

definition parse_labels :: "(string \<Rightarrow> string) \<Rightarrow> string list \<Rightarrow> string + (string \<times> string) list" where
  "parse_labels debug raw = labels_loop debug raw []"

definition control_plane_timings :: "'n server_args \<Rightarrow> string + duration \<times> duration \<times> duration" where
  "control_plane_timings args =
     and_then (map_err (\<lambda>_. ''parsing --control-plane-interval'') (parse_duration (sv_control_plane_interval args))) (\<lambda>interval.
     and_then (map_err (\<lambda>_. ''parsing --control-plane-policy-lease'') (parse_duration (sv_control_plane_policy_lease args))) (\<lambda>lease.
     and_then (map_err (\<lambda>_. ''parsing --control-plane-cache-ttl'') (parse_duration (sv_control_plane_cache_ttl args))) (\<lambda>ttl.
       if ttl < lease then
         Inl (''--control-plane-cache-ttl ('' @ nat_to_string (ttl div 10 ^ 9) @
           ''s) must be at least --control-plane-policy-lease ('' @ nat_to_string (lease div 10 ^ 9) @ ''s)'')
       else Inr (interval, lease, ttl))))"

text \<open>
  What a start meets: the HTTP client, the outcomes of file operations, whether the identity file can be read,
  the clock in milliseconds and as an instant, and the age of the cache directory when it can be told.
\<close>

record boot_world =
  bw_web :: web
  bw_disk :: disk
  bw_steps :: cache_steps
  bw_readable :: bool
  bw_now_ms :: u64
  bw_now :: int
  bw_dir_age :: "nat option"

record cp_bootstrap =
  cb_control :: control_plane
  cb_identity :: gateway_identity
  cb_labels_call :: "web_request option"
  cb_interval :: duration
  cb_initial_version :: "u64 option"
  cb_cache_age :: "duration option"
  cb_policy_lease :: duration
  cb_cache_ttl :: duration

text \<open>The stored identity, with its labels asserted again if any were given, or a new registration.\<close>

definition join_plane ::
  "boot_world \<Rightarrow> control_plane \<Rightarrow> string option \<Rightarrow> string \<Rightarrow> (string \<times> string) list \<Rightarrow> gateway_store \<Rightarrow>
     (string + gateway_identity \<times> web_request option) \<times> gateway_store" where
  "join_plane bw cp token name labels st =
     (case load_identity (bw_web bw) (bw_readable bw) st of
        Inl e \<Rightarrow> (Inl e, st)
      | Inr (Some i) \<Rightarrow> (Inr (i, if labels = [] then None else Some (labels_call cp i labels)), st)
      | Inr None \<Rightarrow>
          (case token of
             None \<Rightarrow> (Inl ''the first --control-plane connection needs --control-plane-token (SKIMASQUE_CONTROL_TOKEN)'', st)
           | Some t \<Rightarrow>
               (case gateway_register (bw_web bw) (bw_disk bw) cp t name labels st of
                  (Inl _, st') \<Rightarrow> (Inl ''registering with the control plane'', st')
                | (Inr i, st') \<Rightarrow> (Inr (i, None), st'))))"

text \<open>The policy to begin with: polled, else cached, else the gateway does not start.\<close>

definition initial_policy ::
  "boot_world \<Rightarrow> control_plane \<Rightarrow> gateway_identity \<Rightarrow> gateway_store \<Rightarrow>
     (string + u64 option \<times> duration option) \<times> gateway_store" where
  "initial_policy bw cp i st =
     (case fetch_policy (bw_web bw) (bw_steps bw) cp i None None st of
        (Inr (Policy_Updated v _), st') \<Rightarrow> (Inr (Some v, Some 0), st')
      | (Inr Policy_None, st') \<Rightarrow> (Inl ''the control plane has no policy for this gateway's organisation yet'', st')
      | (Inr Policy_Unchanged, st') \<Rightarrow> (Inr (None, Some 0), st')
      | (Inl _, st') \<Rightarrow>
          if has_cached_policy st' then
            (Inr (map_option cm_version (load_cache_meta (bw_web bw) st'),
                  map_option (\<lambda>ms. ms * 10 ^ 6) (cached_policy_age (bw_web bw) (bw_now_ms bw) (bw_dir_age bw) st')), st')
          else (Inl ''pulling the initial policy'', st'))"

definition bootstrap_control_plane ::
  "(string \<Rightarrow> string) \<Rightarrow> boot_world \<Rightarrow> 'n server_args \<Rightarrow> gateway_store \<Rightarrow> (string + cp_bootstrap option) \<times> gateway_store" where
  "bootstrap_control_plane debug bw args st =
     (case (sv_control_plane args, sv_control_plane_state args) of
        (None, _) \<Rightarrow> (Inr None, st)
      | (Some _, None) \<Rightarrow> (Inl ''panic'', st)
      | (Some url, Some dir) \<Rightarrow>
          (case and_then (control_plane_timings args) (\<lambda>t. and_then (parse_labels debug (sv_control_plane_label args)) (\<lambda>l. Inr (t, l))) of
             Inl e \<Rightarrow> (Inl e, st)
           | Inr ((interval, lease, ttl), labels) \<Rightarrow>
               (let cp = control_new url dir;
                    name = (case sv_control_plane_name args of Some n \<Rightarrow> n | None \<Rightarrow> display_socket_addr (sv_listen args))
                in case join_plane bw cp (sv_control_plane_token args) name labels st of
                     (Inl e, st1) \<Rightarrow> (Inl e, st1)
                   | (Inr (i, call), st1) \<Rightarrow>
                       (case initial_policy bw cp i st1 of
                          (Inl e, st2) \<Rightarrow> (Inl e, st2)
                        | (Inr (v, age), st2) \<Rightarrow>
                            (Inr (Some \<lparr>cb_control = cp, cb_identity = i, cb_labels_call = call, cb_interval = interval,
                               cb_initial_version = v, cb_cache_age = age, cb_policy_lease = lease, cb_cache_ttl = ttl\<rparr>), st2)))))"

subsection \<open>Joining as a platform gateway\<close>

definition platform_base_url :: "string \<Rightarrow> string" where
  "platform_base_url hostname =
     (let host = trim_end_matches (CHR ''/'') (str_trim hostname)
      in ''https://'' @
         (case strip_suffix '':443'' host of
            Some bare \<Rightarrow> if bare \<noteq> [] \<and> (ends_with bare '']'' \<or> CHR '':'' \<notin> set bare) then bare else host
          | None \<Rightarrow> host))"

definition platform_warnings :: "'n server_args \<Rightarrow> string list" where
  "platform_warnings args =
     (if \<not> sv_platform args then []
      else
        (if sv_credential_secret args \<noteq> None
         then [''--credential-secret is ignored with --platform: every credential is minted by the '' @
               ''control plane with its organisation's key''] else []) @
        (if sv_oidc_audiences args \<noteq> []
         then [''--oidc-audience is ignored with --platform: each organisation's audience is '' @
               tenant_audience (platform_base_url (sv_hostname args)) ''<org-slug>''] else []))"

definition check_platform_identity :: "gateway_identity \<Rightarrow> string + unit" where
  "check_platform_identity i =
     (if gi_org_id i \<noteq> [] then
        Inl (''the identity in --control-plane-state belongs to a single-organisation gateway (org '' @ gi_org_id i @
          '', gateway '' @ gi_gateway_id i @ ''); give the platform gateway its own --control-plane-state'')
      else Inr ())"

definition join_platform ::
  "boot_world \<Rightarrow> control_plane \<Rightarrow> string option \<Rightarrow> string \<Rightarrow> (string \<times> string) list \<Rightarrow> gateway_store \<Rightarrow>
     (string + gateway_identity) \<times> gateway_store" where
  "join_platform bw cp token name labels st =
     (case load_identity (bw_web bw) (bw_readable bw) st of
        Inl e \<Rightarrow> (Inl e, st)
      | Inr (Some i) \<Rightarrow> (and_then (check_platform_identity i) (\<lambda>_. Inr i), st)
      | Inr None \<Rightarrow>
          (case token of
             None \<Rightarrow> (Inl (''the first --platform connection needs --control-plane-token '' @
               ''(SKIMASQUE_CONTROL_TOKEN), a platform registration token''), st)
           | Some t \<Rightarrow>
               (case register_platform (bw_web bw) (bw_disk bw) cp t name labels st of
                  (Inl _, st') \<Rightarrow> (Inl ''registering the platform gateway with the control plane'', st')
                | (Inr i, st') \<Rightarrow> (Inr i, st'))))"

text \<open>
  \<open>cache\<close> is the cached tenant list with its age. The result holds the tenants in force and the state of the
  synchronisation; the cache afterwards is the last component. \<open>audit_ok\<close>: the audit log, if one is named, could
  be opened.
\<close>

record 'k platform_bootstrap =
  pb_control :: control_plane
  pb_identity :: gateway_identity
  pb_interval :: duration
  pb_ttl :: duration
  pb_base_url :: string
  pb_owner_settings_url :: string
  pb_tenants :: "'k platform_tenants"
  pb_state :: sync_state

definition tenant_poll :: "string + tenant_fetch \<Rightarrow> tenant_list poll" where
  "tenant_poll r = (case r of Inr (Tenants_Updated l) \<Rightarrow> Updated l | Inr Tenants_Unchanged \<Rightarrow> Unchanged | Inl _ \<Rightarrow> Failed)"

definition owner_settings_url :: "string \<Rightarrow> string" where
  "owner_settings_url url = normalize_base_url url @ ''/app/settings/identity''"

definition bootstrap_platform ::
  "('f, 'k) platform_env \<Rightarrow> (string \<Rightarrow> string) \<Rightarrow> boot_world \<Rightarrow> bool \<Rightarrow> bool \<Rightarrow> (tenant_list \<Rightarrow> bool) \<Rightarrow> 'n server_args \<Rightarrow>
     tenant_list option \<Rightarrow> nat option \<Rightarrow> gateway_store \<Rightarrow> (string + 'k platform_bootstrap) \<times> gateway_store \<times> tenant_list option" where
  "bootstrap_platform env debug bw hosted_ok audit_ok cache_ok args cache age st =
     (case (sv_control_plane args, sv_control_plane_state args) of
        (Some url, Some dir) \<Rightarrow>
          (case and_then (control_plane_timings args) (\<lambda>t.
                and_then (map_err (\<lambda>_. ''parsing --credential-ttl'') (parse_duration (sv_credential_ttl args))) (\<lambda>ttl.
                and_then (build_platform_oidc debug hosted_ok args) (\<lambda>_.
                and_then (parse_labels debug (sv_control_plane_label args)) (\<lambda>l. Inr (t, ttl, l))))) of
             Inl e \<Rightarrow> (Inl e, st, cache)
           | Inr ((interval, lease, cache_ttl), ttl, labels) \<Rightarrow>
               (let cp = control_new url dir;
                    name = (case sv_control_plane_name args of Some n \<Rightarrow> n | None \<Rightarrow> display_socket_addr (sv_listen args))
                in case join_platform bw cp (sv_control_plane_token args) name labels st of
                     (Inl e, st1) \<Rightarrow> (Inl e, st1, cache)
                   | (Inr i, st1) \<Rightarrow>
                       (case choose_initial_tenants cache_ok (tenant_poll (fetch_tenants (bw_web bw) cp i None None)) cache age of
                          (None, cache') \<Rightarrow>
                            (Inl (''the control plane is unreachable and there is no cached tenant list; a '' @
                               ''platform gateway will not start without a tenant table''), st1, cache')
                        | (Some start, cache') \<Rightarrow>
                            (let (l, a, reachable) = (case start of Fetched l \<Rightarrow> (l, Some 0, True) | Cached l a \<Rightarrow> (l, a, False))
                             in (if sv_audit_log args \<noteq> None \<and> \<not> audit_ok then Inl ''opening the audit log'' else
                                 Inr \<lparr>pb_control = cp, pb_identity = i, pb_interval = interval, pb_ttl = ttl,
                                   pb_base_url = platform_base_url (sv_hostname args),
                                   pb_owner_settings_url = owner_settings_url url,
                                   pb_tenants = apply_tenants env l platform_tenants_new,
                                   pb_state = platform_sync_state (bw_now bw) (tls_version l) a reachable lease cache_ttl\<rparr>,
                                 st1, cache')))))
      | _ \<Rightarrow> (Inl ''panic'', st, cache))"

subsection \<open>Starting\<close>

definition load_policy_layer ::
  "('f, 'k) platform_env \<Rightarrow> file_system \<Rightarrow> bool \<Rightarrow> 'n server_args \<Rightarrow> string option \<Rightarrow> string + (policy_set \<times> policy_layer) option" where
  "load_policy_layer env fs audit_ok args control_dir =
     and_then
       (case (control_dir, sv_policy_dir args, sv_policy_files args) of
          (Some dir, _, _) \<Rightarrow> and_then (load_dir env fs dir) (\<lambda>l. Inr (Some l))
        | (None, Some dir, _) \<Rightarrow> and_then (load_dir env fs dir) (\<lambda>l. Inr (Some l))
        | (None, None, files) \<Rightarrow> if files \<noteq> [] then and_then (load_files env fs files) (\<lambda>l. Inr (Some l)) else Inr None)
       (\<lambda>loaded.
         case loaded of
           None \<Rightarrow> Inr None
         | Some l \<Rightarrow>
             if sv_policy_observe args then Inr (Some (ld_set l, \<lparr>pl_tenants = False, pl_mode = Observe, pl_audit = False\<rparr>))
             else if sv_audit_log args \<noteq> None \<and> \<not> audit_ok then Inl ''opening the audit log''
             else Inr (Some (ld_set l, \<lparr>pl_tenants = False, pl_mode = Enforce, pl_audit = True\<rparr>)))"

definition policy_dir :: "control_plane \<Rightarrow> string" where
  "policy_dir cp = cpl_state_dir cp @ ''/policies''"

definition gateway_new :: "int \<Rightarrow> nat \<Rightarrow> gateway" where
  "gateway_new now clock =
     \<lparr>gw_now = now, gw_mono = clock, gw_revoked = {}, gw_policies = [], gw_tenants = snapshot_default, gw_audit = [],
      gw_permits = Map.empty, gw_bandwidth = Map.empty, gw_packets = Map.empty, gw_usage = []\<rparr>"

text \<open>The sessions known to have ended, from the cache of the last run.\<close>

definition restore_revocations :: "web \<Rightarrow> gateway_store \<Rightarrow> gateway \<Rightarrow> gateway" where
  "restore_revocations w st g =
     (case load_cached_revocations w st of
        None \<Rightarrow> g
      | Some l \<Rightarrow> revocations_replace (map rs_sid (rp_revoked l)) g)"

text \<open>
  What a start also meets: the file system it reads the policy from, given the store, whether the OIDC client
  and the audit log could be made, and the answer to the request for the organisation's key with the cached
  one.
\<close>

record start_world =
  sw_boot :: boot_world
  sw_files :: "gateway_store \<Rightarrow> file_system"
  sw_hosted :: bool
  sw_audit :: bool
  sw_key :: key_answer
  sw_key_cache :: "signing_key option"
  sw_gateway :: gateway

record ('n, 'k) running =
  rn_oidc :: "oidc_parts option"
  rn_keys :: "'k org_keys option"
  rn_auth :: "string option"
  rn_template :: uri_template
  rn_limits :: resource_limits
  rn_dispatch :: "'n dispatch"
  rn_policy :: "policy_layer option"
  rn_gateway :: gateway
  rn_sync :: "sync_state option"
  rn_grace :: duration
  rn_policy_reload :: "duration option"
  rn_tls_reload :: "duration option"
  rn_warnings :: "string list"

definition start_sync :: "int \<Rightarrow> cp_bootstrap option \<Rightarrow> sync_state option" where
  "start_sync now cb =
     map_option (\<lambda>c. sync_state_new now (cb_initial_version c) (cb_cache_age c) (cb_policy_lease c) (cb_cache_ttl c)) cb"

text \<open>Credentials of a gateway that joined a control plane are verified with the organisation's key.\<close>

definition start_keys ::
  "('f, 'k) platform_env \<Rightarrow> start_world \<Rightarrow> 'n server_args \<Rightarrow> oidc_parts option \<Rightarrow> cp_bootstrap option \<Rightarrow> string + 'k org_keys option" where
  "start_keys env sw args oidc cb =
     (if oidc = None \<or> cb = None then Inr None
      else
        and_then (wire_signing_key (pe_base64 env) (pe_ed_key env) (sw_key sw) (sw_key_cache sw)) (\<lambda>k.
        and_then (map_err (\<lambda>_. ''parsing --control-plane-signing-key-interval'')
            (parse_duration (sv_control_plane_signing_key_interval args))) (\<lambda>_. Inr (Some k))))"

text \<open>The start of a gateway of one organisation, that is without \<^verbatim>\<open>--platform\<close>.\<close>

definition server_start ::
  "('f, 'k) platform_env \<Rightarrow> (string \<Rightarrow> string) \<Rightarrow> start_world \<Rightarrow> 'n server_args \<Rightarrow> gateway_store \<Rightarrow>
     (string + ('n, 'k) running) \<times> gateway_store" where
  "server_start env debug sw args st =
     (case and_then (build_oidc debug (sw_hosted sw) args) (\<lambda>oidc. and_then (build_template args) (\<lambda>t.
           and_then (build_limits args) (\<lambda>l. and_then (start_intervals args) (\<lambda>v. Inr (oidc, t, l, v))))) of
        Inl e \<Rightarrow> (Inl e, st)
      | Inr (oidc, template, limits, grace, reload, tls) \<Rightarrow>
          (case bootstrap_control_plane debug (sw_boot sw) args st of
             (Inl e, st1) \<Rightarrow> (Inl e, st1)
           | (Inr cb, st1) \<Rightarrow>
               (and_then (start_keys env sw args oidc cb)
                  (\<lambda>keys.
                    let g = (if cb = None then sw_gateway sw else restore_revocations (bw_web (sw_boot sw)) st1 (sw_gateway sw))
                    in and_then (load_policy_layer env (sw_files sw st1) (sw_audit sw) args (map_option (\<lambda>c. policy_dir (cb_control c)) cb))
                         (\<lambda>policy.
                           Inr \<lparr>rn_oidc = oidc, rn_keys = keys, rn_auth = sv_auth_token args, rn_template = template,
                             rn_limits = limits, rn_dispatch = build_dispatch args, rn_policy = map_option snd policy,
                             rn_gateway = (case policy of None \<Rightarrow> g | Some (ps, _) \<Rightarrow> policy_store ps g),
                             rn_sync = start_sync (bw_now (sw_boot sw)) cb, rn_grace = grace, rn_policy_reload = reload,
                             rn_tls_reload = tls, rn_warnings = startup_warnings args @ platform_warnings args\<rparr>)),
                st1)))"

text \<open>The start of a platform gateway. \<open>cache\<close> and \<open>age\<close> are its cached tenant list.\<close>

record ('n, 'k) platform_running =
  pr_bootstrap :: "'k platform_bootstrap"
  pr_template :: uri_template
  pr_limits :: resource_limits
  pr_dispatch :: "'n dispatch"
  pr_gateway :: gateway
  pr_warnings :: "string list"

definition platform_start ::
  "('f, 'k) platform_env \<Rightarrow> (string \<Rightarrow> string) \<Rightarrow> start_world \<Rightarrow> (tenant_list \<Rightarrow> bool) \<Rightarrow> 'n server_args \<Rightarrow>
     tenant_list option \<Rightarrow> nat option \<Rightarrow> gateway_store \<Rightarrow> (string + ('n, 'k) platform_running) \<times> gateway_store \<times> tenant_list option" where
  "platform_start env debug sw cache_ok args cache age st =
     (case and_then (build_template args) (\<lambda>t. and_then (build_limits args) (\<lambda>l.
           and_then (start_intervals args) (\<lambda>_. Inr (t, l)))) of
        Inl e \<Rightarrow> (Inl e, st, cache)
      | Inr (template, limits) \<Rightarrow>
          (case bootstrap_platform env debug (sw_boot sw) (sw_hosted sw) (sw_audit sw) cache_ok args cache age st of
             (Inl e, st1, cache1) \<Rightarrow> (Inl e, st1, cache1)
           | (Inr pb, st1, cache1) \<Rightarrow>
               (Inr \<lparr>pr_bootstrap = pb, pr_template = template, pr_limits = limits, pr_dispatch = build_dispatch args,
                  pr_gateway = restore_revocations (bw_web (sw_boot sw)) st1
                    ((sw_gateway sw)\<lparr>gw_tenants := pt_table (pb_tenants pb)\<rparr>),
                  pr_warnings = startup_warnings args @ platform_warnings args\<rparr>, st1, cache1)))"

definition running_service ::
  "(string \<Rightarrow> gateway \<Rightarrow> string + workload_identity) \<Rightarrow> (string \<Rightarrow> u64 option) \<Rightarrow> ('n \<Rightarrow> ip_addr \<Rightarrow> bool) \<Rightarrow> 'h network \<Rightarrow>
     ('n, 'k) running \<Rightarrow> (gateway, 'h) service" where
  "running_service verify decode_exp contains net r =
     server_service (map_option (\<lambda>_. verify) (rn_oidc r)) (rn_auth r) decode_exp (rn_policy r)
       (dispatch_call contains net (rn_dispatch r))"

subsection \<open>What a started gateway lets through\<close>

text \<open>A layer that may be absent is a gate too.\<close>

definition option_gate ::
  "('a \<Rightarrow> tunnel_request \<Rightarrow> 'w \<Rightarrow> (tunnel_request \<times> 'w) option) \<Rightarrow> 'a option \<Rightarrow> tunnel_request \<Rightarrow> 'w \<Rightarrow> (tunnel_request \<times> 'w) option" where
  "option_gate gate cfg rq w = (case cfg of None \<Rightarrow> Some (rq, w) | Some c \<Rightarrow> gate c rq w)"

definition option_wrap ::
  "('a \<Rightarrow> tunnel_request \<Rightarrow> 'w \<Rightarrow> 'h accepted \<Rightarrow> 'h accepted) \<Rightarrow> 'a option \<Rightarrow> tunnel_request \<Rightarrow> 'w \<Rightarrow> 'h accepted \<Rightarrow> 'h accepted" where
  "option_wrap wrap cfg rq w a = (case cfg of None \<Rightarrow> a | Some c \<Rightarrow> wrap c rq w a)"

lemma gate_layer_option:
  assumes "\<And>c. gate_layer (layer c) (gate c) (wrap c)"
  shows "gate_layer (option_layer layer cfg) (option_gate gate cfg) (option_wrap wrap cfg)"
proof (cases cfg)
  case None
  then show ?thesis by unfold_locales (simp_all add: option_layer_def option_gate_def option_wrap_def)
next
  case (Some c)
  have "option_layer layer cfg = layer c" "option_gate gate cfg = gate c" "option_wrap wrap cfg = wrap c"
    by (simp_all add: fun_eq_iff Some option_layer_def option_gate_def option_wrap_def)
  then show ?thesis using assms by simp
qed

interpretation opt_ident: gate_layer "option_layer identify_call cfg" "option_gate identify_gate cfg" "option_wrap (\<lambda>_ _ _ a. a) cfg" for cfg
  by (rule gate_layer_option) unfold_locales

interpretation opt_auth: gate_layer "option_layer authorize_call cfg" "option_gate authorize_gate cfg" "option_wrap (\<lambda>_ _ _ a. a) cfg" for cfg
  by (rule gate_layer_option) unfold_locales

interpretation opt_enforce: gate_layer "option_layer enforce_call cfg" "option_gate enforce_gate cfg" "option_wrap (\<lambda>_ _ _ a. a) cfg" for cfg
  by (rule gate_layer_option) unfold_locales

interpretation opt_quota: gate_layer "option_layer (\<lambda>_. meter_call) cfg" "option_gate (\<lambda>_. meter_gate) cfg" "option_wrap (\<lambda>_. meter_wrap) cfg" for cfg
  by (rule gate_layer_option) unfold_locales

text \<open>The layers an opened tunnel of the single-organisation stack has passed.\<close>

definition identified_by ::
  "(string \<Rightarrow> gateway \<Rightarrow> string + workload_identity) option \<Rightarrow> gateway \<Rightarrow> tunnel_request \<Rightarrow> tunnel_request \<Rightarrow> bool" where
  "identified_by identity w rq rq1 =
     (case identity of
        None \<Rightarrow> rq1 = rq
      | Some verify \<Rightarrow>
          \<exists>token i. bearer_token rq = Some token \<and> verify token w = Inr i \<and> rq1 = rq\<lparr>rq_identity := Some i\<rparr>)"

lemma option_identify_gate:
  assumes "option_gate identify_gate identity rq w = Some (rq1, w1)"
  shows "identified_by identity w rq rq1" "w1 = w"
proof -
  have "identified_by identity w rq rq1 \<and> w1 = w"
  proof (cases identity)
    case (Some verify)
    then obtain token where t: "bearer_token rq = Some token" "identify_gate verify rq w = Some (rq1, w1)"
      using assms by (auto simp: option_gate_def identify_gate_def bind_eq_Some_conv)
    then obtain i where "verify token w = Inr i" by (cases "verify token w") (simp_all add: identify_gate_def)
    with t Some show ?thesis by (auto simp: identified_by_def identify_gate_def)
  qed (use assms in \<open>simp add: option_gate_def identified_by_def\<close>)
  then show "identified_by identity w rq rq1" "w1 = w" by blast+
qed

lemma enforce_gate_passes:
  assumes "enforce_gate cfg rq w \<noteq> None" "\<not> pl_tenants cfg" "pl_mode cfg \<noteq> Observe"
  shows "\<exists>t allowed. request_target rq = Some t \<and> set_evaluate (gw_policies w) (enforce_context rq t) = Allow allowed"
proof -
  obtain t where t: "request_target rq = Some t" using assms(1) by (cases "request_target rq") (simp_all add: enforce_gate_def)
  show ?thesis
    using assms t by (cases "set_evaluate (gw_policies w) (enforce_context rq t)") (auto simp: enforce_gate_def policy_source_def Let_def)
qed

lemma server_service_opened:
  assumes "server_service identity auth decode_exp policy disp rq w = (Opened a, w')"
  obtains rq1 rq2 w1 b where "identified_by identity w rq rq1" "\<forall>expected. auth = Some expected \<longrightarrow> bearer_token rq1 = Some expected"
    "\<forall>sid. Option.bind (rq_identity rq1) wi_sid = Some sid \<longrightarrow> \<not> is_revoked sid w"
    "\<forall>cfg. policy = Some cfg \<longrightarrow> enforce_gate cfg rq1 w \<noteq> None"
    "disp rq2 w1 = (Opened b, w')" "accepted_peer a = accepted_peer b"
proof -
  let ?quota = "option_layer (\<lambda>_. meter_call)
      (case policy of Some cfg \<Rightarrow> if pl_mode cfg = Observe then None else Some () | None \<Rightarrow> None) disp"
  obtain rq1 v1 a1 where 1: "option_gate identify_gate identity rq w = Some (rq1, v1)"
      "option_layer authorize_call auth (revoked_call decode_exp (option_layer enforce_call policy ?quota)) rq1 v1 = (Opened a1, w')"
      "accepted_peer a = accepted_peer a1"
    using assms unfolding server_service_def by (rule opt_ident.opened)
  obtain rq2 v2 a2 where 2: "option_gate authorize_gate auth rq1 v1 = Some (rq2, v2)"
      "revoked_call decode_exp (option_layer enforce_call policy ?quota) rq2 v2 = (Opened a2, w')" "accepted_peer a1 = accepted_peer a2"
    using 1(2) by (rule opt_auth.opened)
  obtain rq3 v3 a3 where 3: "revoked_gate decode_exp rq2 v2 = Some (rq3, v3)"
      "option_layer enforce_call policy ?quota rq3 v3 = (Opened a3, w')" "accepted_peer a2 = accepted_peer a3"
    using 2(2) by (rule revocation.opened)
  obtain rq4 v4 a4 where 4: "option_gate enforce_gate policy rq3 v3 = Some (rq4, v4)" "?quota rq4 v4 = (Opened a4, w')"
      "accepted_peer a3 = accepted_peer a4"
    using 3(2) by (rule opt_enforce.opened)
  obtain rq5 v5 b where 5: "option_gate (\<lambda>_. meter_gate)
      (case policy of Some cfg \<Rightarrow> if pl_mode cfg = Observe then None else Some () | None \<Rightarrow> None) rq4 v4 = Some (rq5, v5)"
      "disp rq5 v5 = (Opened b, w')" "accepted_peer a4 = accepted_peer b"
    using 4(2) by (rule opt_quota.opened)
  note i = option_identify_gate [OF 1(1)]
  have t: "\<forall>expected. auth = Some expected \<longrightarrow> bearer_token rq1 = Some expected" "rq2 = rq1" "v2 = v1"
    using 2(1) by (auto simp: option_gate_def authorize_gate_def split: option.splits if_splits)
  have r: "\<forall>sid. Option.bind (rq_identity rq2) wi_sid = Some sid \<longrightarrow> \<not> is_revoked sid v2" "rq3 = rq2" "v3 = v2"
    using 3(1) by (auto simp: revoked_gate_def session_end_def split: option.splits if_splits)
  have e: "\<forall>cfg. policy = Some cfg \<longrightarrow> enforce_gate cfg rq3 v3 \<noteq> None" using 4(1) by (auto simp: option_gate_def)
  show ?thesis
    using that [OF i(1) t(1) _ _ 5(2)] i t r e 1(3) 2(3) 3(3) 4(3) 5(3) by simp
qed

lemma server_start_Inr:
  assumes "server_start env debug sw args st = (Inr r, st')"
  obtains oidc cb where "build_oidc debug (sw_hosted sw) args = Inr oidc" "rn_oidc r = oidc"
    "bootstrap_control_plane debug (sw_boot sw) args st = (Inr cb, st')" "rn_auth r = sv_auth_token args"
    "build_limits args = Inr (rn_limits r)" "rn_dispatch r = build_dispatch args"
    "\<exists>policy. load_policy_layer env (sw_files sw st') (sw_audit sw) args (map_option (\<lambda>c. policy_dir (cb_control c)) cb) = Inr policy \<and>
       rn_policy r = map_option snd policy \<and>
       rn_gateway r = (let g = (if cb = None then sw_gateway sw else restore_revocations (bw_web (sw_boot sw)) st' (sw_gateway sw))
         in case policy of None \<Rightarrow> g | Some (ps, _) \<Rightarrow> policy_store ps g)"
    "rn_sync r = start_sync (bw_now (sw_boot sw)) cb" "rn_warnings r = startup_warnings args @ platform_warnings args"
proof -
  obtain oidc where o: "build_oidc debug (sw_hosted sw) args = Inr oidc"
    using assms by (cases "build_oidc debug (sw_hosted sw) args") (simp_all add: server_start_def)
  obtain t where t: "build_template args = Inr t" using assms o by (cases "build_template args") (simp_all add: server_start_def)
  obtain l where l: "build_limits args = Inr l" using assms o t by (cases "build_limits args") (simp_all add: server_start_def)
  obtain grace reload tls where v: "start_intervals args = Inr (grace, reload, tls)"
    using assms o t l by (cases "start_intervals args") (auto simp: server_start_def)
  obtain b st1 where b: "bootstrap_control_plane debug (sw_boot sw) args st = (b, st1)" by fastforce
  obtain cb where cb: "b = Inr cb" using assms o t l v b by (cases b) (simp_all add: server_start_def)
  have st1: "st1 = st'" using assms o t l v b cb by (simp add: server_start_def)
  obtain keys policy where
      "load_policy_layer env (sw_files sw st1) (sw_audit sw) args (map_option (\<lambda>c. policy_dir (cb_control c)) cb) = Inr policy"
      "r = \<lparr>rn_oidc = oidc, rn_keys = keys, rn_auth = sv_auth_token args, rn_template = t, rn_limits = l,
         rn_dispatch = build_dispatch args, rn_policy = map_option snd policy,
         rn_gateway = (let g = (if cb = None then sw_gateway sw else restore_revocations (bw_web (sw_boot sw)) st1 (sw_gateway sw))
           in case policy of None \<Rightarrow> g | Some (ps, _) \<Rightarrow> policy_store ps g),
         rn_sync = start_sync (bw_now (sw_boot sw)) cb, rn_grace = grace, rn_policy_reload = reload, rn_tls_reload = tls,
         rn_warnings = startup_warnings args @ platform_warnings args\<rparr>"
    using assms o t l v b cb by (auto simp: server_start_def and_then_Inr_iff Let_def)
  then show ?thesis using that [OF o _ b [unfolded cb st1]] l st1 by simp
qed

lemma load_policy_layer_Inr:
  assumes "load_policy_layer env fs audit_ok args control_dir = Inr policy"
  shows "(policy = None \<longleftrightarrow> control_dir = None \<and> sv_policy_dir args = None \<and> sv_policy_files args = []) \<and>
    (\<forall>ps cfg. policy = Some (ps, cfg) \<longrightarrow> \<not> pl_tenants cfg \<and> (pl_mode cfg = Observe \<longleftrightarrow> sv_policy_observe args) \<and>
       (\<forall>dir. control_dir = Some dir \<longrightarrow> (\<exists>l. load_dir env fs dir = Inr l \<and> ps = ld_set l)))"
  using assms
  by (cases control_dir; cases "sv_policy_dir args"; cases "sv_policy_files args")
    (auto simp: load_policy_layer_def and_then_Inr_iff split: if_splits)

lemma bootstrap_none:
  "bootstrap_control_plane debug bw args st = (Inr None, st') \<Longrightarrow> sv_control_plane args = None"
  by (auto simp: bootstrap_control_plane_def Let_def split: option.splits sum.splits prod.splits)


subsection \<open>What a start begins with\<close>

lemma initial_policy_Inr:
  assumes "initial_policy bw cp i st = (Inr (v, age), st')"
  shows "(\<exists>n docs. fetch_policy (bw_web bw) (bw_steps bw) cp i None None st = (Inr (Policy_Updated n docs), st') \<and>
      v = Some n \<and> age = Some 0) \<or>
    (fetch_policy (bw_web bw) (bw_steps bw) cp i None None st = (Inr Policy_Unchanged, st') \<and> v = None \<and> age = Some 0) \<or>
    (\<exists>e. fetch_policy (bw_web bw) (bw_steps bw) cp i None None st = (Inl e, st') \<and> has_cached_policy st' \<and>
      v = map_option cm_version (load_cache_meta (bw_web bw) st') \<and>
      age = map_option (\<lambda>ms. ms * 10 ^ 6) (cached_policy_age (bw_web bw) (bw_now_ms bw) (bw_dir_age bw) st'))"
  using assms by (auto simp: initial_policy_def split: prod.splits sum.splits policy_fetch.splits if_splits)

lemma bootstrap_Inr:
  assumes "bootstrap_control_plane debug bw args st = (Inr (Some cb), st')"
  obtains url dir i call st1 where "sv_control_plane args = Some url" "cb_control cb = control_new url dir"
    "join_plane bw (cb_control cb) (sv_control_plane_token args)
       (case sv_control_plane_name args of Some n \<Rightarrow> n | None \<Rightarrow> display_socket_addr (sv_listen args))
       (case parse_labels debug (sv_control_plane_label args) of Inr l \<Rightarrow> l | Inl _ \<Rightarrow> []) st = (Inr (i, call), st1)"
    "cb_identity cb = i" "initial_policy bw (cb_control cb) i st1 = (Inr (cb_initial_version cb, cb_cache_age cb), st')"
    "cb_policy_lease cb \<le> cb_cache_ttl cb"
proof -
  obtain url dir where u: "sv_control_plane args = Some url" "sv_control_plane_state args = Some dir"
    using assms by (auto simp: bootstrap_control_plane_def split: option.splits)
  obtain interval lease ttl where t: "control_plane_timings args = Inr (interval, lease, ttl)"
    using assms u by (cases "control_plane_timings args") (auto simp: bootstrap_control_plane_def)
  obtain labels where l: "parse_labels debug (sv_control_plane_label args) = Inr labels"
    using assms u t by (cases "parse_labels debug (sv_control_plane_label args)") (auto simp: bootstrap_control_plane_def)
  let ?name = "case sv_control_plane_name args of Some n \<Rightarrow> n | None \<Rightarrow> display_socket_addr (sv_listen args)"
  obtain j st1 where j: "join_plane bw (control_new url dir) (sv_control_plane_token args) ?name labels st = (j, st1)" by fastforce
  obtain i call where i: "j = Inr (i, call)" using assms u t l j by (cases j) (auto simp: bootstrap_control_plane_def Let_def)
  obtain p st2 where p: "initial_policy bw (control_new url dir) i st1 = (p, st2)" by fastforce
  obtain v age where v: "p = Inr (v, age)" using assms u t l j i p by (cases p) (auto simp: bootstrap_control_plane_def Let_def)
  have "lease \<le> ttl" using t by (auto simp: control_plane_timings_def and_then_Inr_iff split: if_splits)
  moreover have "cb = \<lparr>cb_control = control_new url dir, cb_identity = i, cb_labels_call = call, cb_interval = interval,
      cb_initial_version = v, cb_cache_age = age, cb_policy_lease = lease, cb_cache_ttl = ttl\<rparr> \<and> st2 = st'"
    using assms u t l j i p v by (simp add: bootstrap_control_plane_def Let_def)
  ultimately show ?thesis using that [of url dir i call st1] u l j i p v by simp
qed

lemma join_plane_keeps:
  assumes "join_plane bw cp token name labels st = (Inr (i, call), st')"
  shows "gs_policies st' = gs_policies st" "gs_revocations st' = gs_revocations st" "gs_meta st' = gs_meta st"
  using assms
  by (auto simp: join_plane_def gateway_register_def persist_identity_def Let_def
      split: sum.splits option.splits prod.splits if_splits)

lemma fetch_policy_keeps_revocations:
  assumes "fetch_policy w c cp i known wait st = (r, st')"
  shows "gs_revocations st' = gs_revocations st"
  using assms
  by (auto simp: fetch_policy_def write_policy_cache_def Let_def split: sum.splits if_splits prod.splits option.splits)

lemma bootstrap_keeps_revocations:
  assumes "bootstrap_control_plane debug bw args st = (Inr (Some cb), st')"
  shows "gs_revocations st' = gs_revocations st"
proof -
  obtain i call st1 where j: "join_plane bw (cb_control cb) (sv_control_plane_token args)
       (case sv_control_plane_name args of Some n \<Rightarrow> n | None \<Rightarrow> display_socket_addr (sv_listen args))
       (case parse_labels debug (sv_control_plane_label args) of Inr l \<Rightarrow> l | Inl _ \<Rightarrow> []) st = (Inr (i, call), st1)"
    "initial_policy bw (cb_control cb) i st1 = (Inr (cb_initial_version cb, cb_cache_age cb), st')"
    using bootstrap_Inr [OF assms] by metis
  obtain p where "fetch_policy (bw_web bw) (bw_steps bw) (cb_control cb) i None None st1 = (p, st')"
    using initial_policy_Inr [OF j(2)] by metis
  then show ?thesis using fetch_policy_keeps_revocations join_plane_keeps(2) [OF j(1)] by metis
qed

lemma restore_revocations_gives:
  "load_cached_revocations w st = Some l \<Longrightarrow> gw_revoked (restore_revocations w st g) = set (map rs_sid (rp_revoked l))"
  by (simp add: restore_revocations_def revocations_replace_def)

lemma gw_revoked_policy_store [simp]: "gw_revoked (policy_store ps g) = gw_revoked g"
  by (simp add: policy_store_def)

lemma start_restores_revocations:
  assumes "server_start env debug sw args st = (Inr r, st')" "sv_control_plane args \<noteq> None"
    and "load_cached_revocations (bw_web (sw_boot sw)) st = Some l"
  shows "gw_revoked (rn_gateway r) = set (map rs_sid (rp_revoked l))"
proof -
  obtain cb where s: "bootstrap_control_plane debug (sw_boot sw) args st = (Inr cb, st')"
    "\<exists>policy. load_policy_layer env (sw_files sw st') (sw_audit sw) args (map_option (\<lambda>c. policy_dir (cb_control c)) cb) = Inr policy \<and>
       rn_policy r = map_option snd policy \<and>
       rn_gateway r = (let g = (if cb = None then sw_gateway sw else restore_revocations (bw_web (sw_boot sw)) st' (sw_gateway sw))
         in case policy of None \<Rightarrow> g | Some (ps, _) \<Rightarrow> policy_store ps g)"
    by (rule server_start_Inr [OF assms(1)])
  have "cb \<noteq> None" using bootstrap_none [of debug "sw_boot sw" args st st'] s(1) assms(2) by auto
  then obtain c where c: "cb = Some c" by blast
  have "load_cached_revocations (bw_web (sw_boot sw)) st' = Some l"
    using assms(3) bootstrap_keeps_revocations s(1) c by (metis load_cached_revocations_def)
  then show ?thesis using s(2) c restore_revocations_gives by (auto simp: Let_def split: option.splits)
qed


subsection \<open>A gateway that starts\<close>

definition sample_args :: "unit server_args" where
  "sample_args = \<lparr>sv_listen = SocketAddr (V4 0) 4433, sv_hostname = ''gw.example:443'', sv_acme = False, sv_acme_challenge_port = None,
     sv_authority = None, sv_template = None, sv_auth_token = Some ''t'', sv_allow_private = False, sv_allow_cidrs = [],
     sv_allow_ports = [], sv_policy_dir = Some ''p'', sv_policy_files = [], sv_control_plane = None, sv_control_plane_state = None,
     sv_control_plane_token = None, sv_control_plane_name = None, sv_control_plane_interval = ''30s'',
     sv_control_plane_policy_lease = ''15m'', sv_control_plane_cache_ttl = ''30m'', sv_control_plane_signing_key_interval = ''1h'',
     sv_control_plane_label = [], sv_platform = False, sv_policy_observe = False, sv_policy_reload = False,
     sv_policy_reload_interval = ''5s'', sv_tls_reload = False, sv_tls_reload_interval = ''5s'', sv_audit_log = None, sv_oidc = False,
     sv_oidc_provider = ''github'', sv_oidc_audiences = [], sv_oidc_issuer = None, sv_oidc_claims = [], sv_credential_secret = None,
     sv_credential_ttl = ''1h'', sv_no_connect_tcp = False, sv_max_connections = 1024, sv_max_connection_rate = 50,
     sv_max_connection_burst = 200, sv_max_source_connection_rate = 20, sv_max_source_connection_burst = 60,
     sv_max_exchange_rate = 10, sv_max_exchange_burst = 30, sv_max_tunnels_per_connection = 256, sv_tunnel_idle_timeout = ''120s'',
     sv_shutdown_grace = ''10s''\<rparr>"

definition sample_start :: start_world where
  "sample_start = \<lparr>sw_boot = \<lparr>bw_web = sample_web, bw_disk = sample_disk, bw_steps = sample_cache_steps, bw_readable = True,
       bw_now_ms = 1000, bw_now = 1, bw_dir_age = None\<rparr>,
     sw_files = (\<lambda>_. sample_files (Some ''x'') 1), sw_hosted = True, sw_audit = True,
     sw_key = \<lparr>ka_answer = Inl ''down'', ka_dir = True, ka_writes = True\<rparr>, sw_key_cache = None, sw_gateway = gateway_new 0 0\<rparr>"

lemma sample_template: "\<exists>t. build_template sample_args = Inr t"
proof -
  have "case default_connect_udp ''gw.example:443'' of Inl _ \<Rightarrow> False | Inr t \<Rightarrow> require_variables t CONNECT_UDP_VARIABLES = Inr ()"
    by code_simp
  then obtain t where t: "default_connect_udp ''gw.example:443'' = Inr t" "require_variables t CONNECT_UDP_VARIABLES = Inr ()"
    by (cases "default_connect_udp ''gw.example:443''") simp_all
  have f: "sv_template sample_args = None" "sv_authority sample_args = None" "sv_hostname sample_args = ''gw.example:443''"
    by (simp_all add: sample_args_def)
  show ?thesis unfolding build_template_def f option.case t(1) map_err_def sum.case and_then_def t(2) by blast
qed

lemma parse_seconds:
  assumes "ds \<noteq> []" "list_all is_ascii_digit ds" "digits_val ds < 2 ^ 64" "str_trim (ds @ ''s'') = ds @ ''s''"
  shows "parse_duration (ds @ ''s'') = Inr (digits_val ds * 1000000000)"
proof -
  have c: "\<not> is_ascii_digit (CHR ''s'')" "is_ascii_alphabetic (CHR ''s'')" by code_simp+
  have s: "takeWhile is_ascii_digit (ds @ ''s'') = ds" "dropWhile is_ascii_digit (ds @ ''s'') = ''s''" "\<not> list_all is_ascii_digit (ds @ ''s'')"
    "takeWhile is_ascii_alphabetic ''s'' = ''s''" "dropWhile is_ascii_alphabetic ''s'' = []"
    using assms(2) c by (simp_all add: list_all_iff)
  obtain d ds' where d: "ds = d # ds'" "is_ascii_digit d" using assms(1,2) by (cases ds) auto
  then have "d \<noteq> CHR ''+''" by (auto simp: is_ascii_digit_def)
  then have u: "parse_unsigned (2 ^ 64 - 1) ds = Some (digits_val ds)"
    using assms(2,3) d by (simp add: parse_unsigned_def Let_def)
  have a: "unit_duration i ''s'' n = Inr (from_secs n)" for i n by (simp add: unit_duration_def)
  have t: "duration_checked_add 0 (from_secs (digits_val ds)) = Some (digits_val ds * 1000000000)"
    using assms(3) by (simp add: duration_checked_add_def DURATION_MAX_def from_secs_def)
  have z: "duration_loop i n True [] = Inr (n, True)" for i n by (simp add: duration_loop.simps)
  have "duration_loop i 0 False (ds @ ''s'') = Inr (digits_val ds * 1000000000, True)" for i
    by (subst duration_loop.simps; simp only: s u a t z assms(1) append_is_Nil_conv Let_def if_False list.simps option.case sum.case simp_thms)
  then show ?thesis using assms(1) by (simp add: parse_duration_def assms(4))
qed

lemma sample_durations: "parse_duration ''120s'' = Inr (120 * 1000000000)" "parse_duration ''10s'' = Inr (10 * 1000000000)" "parse_duration ''0s'' = Inr 0"
proof -
  have t: "str_trim (''120'' @ ''s'') = ''120'' @ ''s''" "str_trim (''10'' @ ''s'') = ''10'' @ ''s''" "str_trim (''0'' @ ''s'') = ''0'' @ ''s''"
    by code_simp+
  have v: "digits_val ''120'' = 120" "digits_val ''10'' = 10" "digits_val ''0'' = 0" by code_simp+
  have l: "list_all is_ascii_digit ''120''" "list_all is_ascii_digit ''10''" "list_all is_ascii_digit ''0''" by code_simp+
  show "parse_duration ''120s'' = Inr (120 * 1000000000)" "parse_duration ''10s'' = Inr (10 * 1000000000)" "parse_duration ''0s'' = Inr 0"
    using parse_seconds [OF _ l(1) _ t(1)] parse_seconds [OF _ l(2) _ t(2)] parse_seconds [OF _ l(3) _ t(3)] v by simp_all
qed

text \<open>An interval of zero is accepted, for the control plane as for the reloads; the ticker made from it panics.\<close>

lemma zero_interval_accepted:
  "control_plane_timings (sample_args\<lparr>sv_control_plane_interval := ''0s'', sv_control_plane_policy_lease := ''10s'',
     sv_control_plane_cache_ttl := ''10s''\<rparr>) = Inr (0, 10 * 1000000000, 10 * 1000000000)"
  by (simp add: control_plane_timings_def sample_durations)

lemma sample_starts:
  "\<exists>r. server_start sample_env (\<lambda>s. s) sample_start sample_args empty_store = (Inr r, empty_store) \<and>
     rn_oidc r = None \<and> rn_auth r = Some ''t'' \<and> rn_dispatch r = build_dispatch sample_args \<and> rn_warnings r = [] \<and>
     rn_policy r = Some \<lparr>pl_tenants = False, pl_mode = Enforce, pl_audit = True\<rparr> \<and>
     rn_gateway r = policy_store [sample_policy ''open'' False Action_Allow HP_Any] (gateway_new 0 0)"
proof -
  obtain t where t: "build_template sample_args = Inr t" using sample_template by blast
  obtain l where l: "build_limits sample_args = Inr l" by (simp add: sample_durations build_limits_def sample_args_def and_then_simps map_err_def)
  have v: "start_intervals sample_args = Inr (10 * 1000000000, None, None)" by (simp add: sample_durations start_intervals_def sample_args_def and_then_simps map_err_def)
  have b: "build_oidc (\<lambda>s. s) True sample_args = Inr None" "bootstrap_control_plane (\<lambda>s. s) w sample_args st = (Inr None, st)" for w st
    by (simp_all add: build_oidc_def bootstrap_control_plane_def sample_args_def)
  have p: "load_policy_layer sample_env (sample_files (Some ''x'') 1) True sample_args None =
      Inr (Some ([sample_policy ''open'' False Action_Allow HP_Any], \<lparr>pl_tenants = False, pl_mode = Enforce, pl_audit = True\<rparr>))"
    using sample_source_load(1) [of "''x''" 1] by (simp add: load_policy_layer_def sample_args_def and_then_simps source_load_def)
  have w: "startup_warnings sample_args @ platform_warnings sample_args = []"
    by (simp add: startup_warnings_def platform_warnings_def has_identity_def has_policy_def sample_args_def)
  show ?thesis using t l v b p w
    by (simp add: server_start_def sample_start_def and_then_simps start_keys_def Let_def) (simp add: sample_args_def)
qed

lemma sample_floor_opens:
  assumes "rq_protocol rq = ConnectTcp" "rq_destination rq = DestTcp \<lparr>tg_host = Name ''a'', tg_port = 443\<rparr>"
    "rq_authorized rq = Some (authorized_from_decision \<lparr>tg_host = Name ''a'', tg_port = 443\<rparr> al)"
  shows "dispatch_call (\<lambda>_ _. False) sample_network (build_dispatch sample_args) rq w
     = (Opened (accepted_tcp 1 (SocketAddr (V4 0xC6336401) 443)), w)"
proof -
  have "dp_tcp (build_dispatch sample_args) = dp_tcp sample_dispatch"
    by (simp add: build_dispatch_def address_floor_def sample_args_def sample_dispatch_def dispatch_new_def)
  then have "dispatch_call (\<lambda>_ _. False) sample_network (build_dispatch sample_args) rq w =
      dispatch_call (\<lambda>_ _. False) sample_network sample_dispatch rq w"
    using assms(1) by (simp add: dispatch_call_def)
  then show ?thesis using sample_dispatch_opens [OF assms] by simp
qed

lemma sample_server_opens:
  assumes "rn_oidc r = None" "rn_auth r = Some ''t''" "rn_dispatch r = build_dispatch sample_args"
    "rn_policy r = Some \<lparr>pl_tenants = False, pl_mode = Enforce, pl_audit = True\<rparr>"
    "gw_policies w = [sample_policy ''open'' False Action_Allow HP_Any]"
  shows "\<exists>a w'. running_service verify (\<lambda>_. None) (\<lambda>_ _. False) sample_network r sample_credential w = (Opened a, w')"
proof -
  let ?t = "\<lparr>tg_host = Name ''a'', tg_port = 443\<rparr>"
  have q: "request_target sample_credential = Some ?t" "rq_protocol sample_credential = ConnectTcp"
    "rq_destination sample_credential = DestTcp ?t" "rq_identity sample_credential = None" "bearer_token sample_credential = Some ''t''"
    by code_simp+
  have d: "set_evaluate [sample_policy ''open'' False Action_Allow HP_Any] (enforce_context sample_credential ?t) = Allow sample_allowed"
    by code_simp
  have m: "\<exists>b w'. meter_call (dispatch_call (\<lambda>_ _. False) sample_network (build_dispatch sample_args))
     (authorize (authorized_from_decision ?t sample_allowed) sample_credential) v = (Opened b, w')" for v
    using q
    by (simp add: meter_call_def meter_begin_def meter_limits_def meter_permit_def request_decision_def
        authorize_def authorized_from_decision_def sample_allowed_def limits_default_def sample_floor_opens Let_def)
  have e: "\<exists>b w'. enforce_call \<lparr>pl_tenants = False, pl_mode = Enforce, pl_audit = True\<rparr>
     (meter_call (dispatch_call (\<lambda>_ _. False) sample_network (build_dispatch sample_args))) sample_credential w = (Opened b, w')"
    using m by (simp add: enforce_call_def q(1) d policy_source_def assms(5) Let_def)
  have x: "credential_expiry (\<lambda>_. None) sample_credential = None"
    using q(5) by (simp add: credential_expiry_def bearer_token_def split: list.split)
  have "\<exists>b w'. revoked_call (\<lambda>_. None) (enforce_call \<lparr>pl_tenants = False, pl_mode = Enforce, pl_audit = True\<rparr>
     (meter_call (dispatch_call (\<lambda>_ _. False) sample_network (build_dispatch sample_args)))) sample_credential w = (Opened b, w')"
    using e x q(4) by (auto simp: revoked_call_def attach_end_def is_revoked_def)
  then show ?thesis
    using q(5) by (simp add: running_service_def server_service_def assms(1-4) option_layer_def authorize_call_def constant_time_eq_iff)
qed


text \<open>The same gateway joined to a control plane that is down when it restarts.\<close>

definition sample_joined :: "unit server_args" where
  "sample_joined = sample_args\<lparr>sv_auth_token := None, sv_policy_dir := None, sv_control_plane := Some ''https://control.example'',
     sv_control_plane_state := Some ''s'', sv_control_plane_interval := ''10s'', sv_control_plane_policy_lease := ''10s'',
     sv_control_plane_cache_ttl := ''120s'', sv_control_plane_signing_key_interval := ''120s'', sv_oidc := True,
     sv_oidc_audiences := [''aud''], sv_credential_ttl := ''120s''\<rparr>"

definition sample_ended :: revocations_response where
  "sample_ended = \<lparr>rp_generation = 2, rp_revoked = [\<lparr>rs_sid = ''x'', rs_expires_at_ms = 9\<rparr>]\<rparr>"

definition sample_outage :: start_world where
  "sample_outage = sample_start\<lparr>sw_boot := (sw_boot sample_start)\<lparr>bw_web := \<lparr>wb_send = (\<lambda>_. Inl ''down''),
       wb_parse = (\<lambda>t. if t = ''identity'' then Some (identity_json sample_gateway_identity)
         else if t = ''ended'' then Some (revocations_json sample_ended) else None),
       wb_print = (\<lambda>_. []), wb_show_status = nat_to_string\<rparr>\<rparr>,
     sw_key_cache := Some \<lparr>sk_org_id = ''org_1'', sk_algorithm = ''Ed25519'', sk_public_key_b64 = ''AQ=='', sk_previous_public_key_b64 = None\<rparr>\<rparr>"

definition sample_store :: gateway_store where
  "sample_store = \<lparr>gs_identity = Some ''identity'', gs_policies = Some [''a.TOML'' \<mapsto> ''x''], gs_meta = None, gs_revocations = Some ''ended''\<rparr>"

lemma sample_joined_oidc: "\<exists>parts. build_oidc (\<lambda>s. s) True sample_joined = Inr (Some parts)"
proof -
  have p: "build_provider (\<lambda>s. s) sample_joined = Inr GitHubActions" by code_simp
  obtain u where i: "default_issuer GitHubActions = Some u" by simp
  show ?thesis
    using sample_durations(1) i
    by (simp add: build_oidc_def p read_secret_def) (simp add: sample_joined_def sample_args_def)
qed

lemma sample_joins:
  "\<exists>c. bootstrap_control_plane (\<lambda>s. s) (sw_boot sample_outage) sample_joined sample_store = (Inr (Some c), sample_store)"
proof -
  have t: "control_plane_timings sample_joined = Inr (10 * 1000000000, 10 * 1000000000, 120 * 1000000000)"
    using sample_durations by (simp add: control_plane_timings_def sample_joined_def)
  have i: "load_identity (bw_web (sw_boot sample_outage)) (bw_readable (sw_boot sample_outage)) sample_store = Inr (Some sample_gateway_identity)"
    by (simp add: load_identity_def sample_store_def sample_outage_def sample_start_def identity_wire.reads_back ok_or_def)
  have f: "fetch_policy (bw_web (sw_boot sample_outage)) c cp g None None sample_store = (Inl ''polling for policy'', sample_store)" for c cp g
    by (simp add: fetch_policy_def send_request_def sample_outage_def)
  have h: "has_cached_policy sample_store" by (simp add: has_cached_policy_def sample_store_def)
  have a: "sv_control_plane sample_joined = Some ''https://control.example''" "sv_control_plane_state sample_joined = Some ''s''"
    "sv_control_plane_label sample_joined = []" by (simp_all add: sample_joined_def sample_args_def)
  show ?thesis
    by (simp add: bootstrap_control_plane_def a t parse_labels_def join_plane_def i initial_policy_def f h Let_def)
qed

lemma sample_restarts:
  "\<exists>r. server_start sample_env (\<lambda>s. s) sample_outage sample_joined sample_store = (Inr r, sample_store) \<and>
     rn_oidc r \<noteq> None \<and> rn_auth r = None \<and> rn_dispatch r = build_dispatch sample_joined \<and>
     rn_policy r = Some \<lparr>pl_tenants = False, pl_mode = Enforce, pl_audit = True\<rparr> \<and>
     gw_policies (rn_gateway r) = [sample_policy ''open'' False Action_Allow HP_Any]"
proof -
  obtain oidc where o: "build_oidc (\<lambda>s. s) True sample_joined = Inr (Some oidc)" using sample_joined_oidc by blast
  have same: "sv_template sample_joined = sv_template sample_args" "sv_authority sample_joined = sv_authority sample_args"
    "sv_hostname sample_joined = sv_hostname sample_args" by (simp_all add: sample_joined_def sample_args_def)
  have "build_template sample_joined = build_template sample_args" unfolding build_template_def same ..
  then obtain t where t: "build_template sample_joined = Inr t" using sample_template by auto
  obtain l where l: "build_limits sample_joined = Inr l" by (simp add: sample_durations build_limits_def sample_joined_def sample_args_def)
  have v: "start_intervals sample_joined = Inr (10 * 1000000000, None, None)"
    by (simp add: sample_durations start_intervals_def sample_joined_def sample_args_def)
  obtain c where b: "bootstrap_control_plane (\<lambda>s. s) (sw_boot sample_outage) sample_joined sample_store = (Inr (Some c), sample_store)"
    using sample_joins by blast
  obtain k where k: "start_keys sample_env sample_outage sample_joined (Some oidc) (Some c) = Inr (Some k)"
    by (simp add: start_keys_def wire_signing_key_def fetch_signing_key_def all_public_key_bytes_def sample_env_def
        sample_outage_def sample_start_def sample_joined_def sample_durations ok_or_def)
  have "is_policy_file ''p/a.TOML''" by code_simp
  then have "load_dir sample_env (sample_files (Some ''x'') 1) d = load_dir sample_env (sample_files (Some ''x'') 1) ''p''" for d
    by (simp add: load_dir_def sample_files_def)
  then have p: "load_policy_layer sample_env (sample_files (Some ''x'') 1) True sample_joined (Some d) =
      Inr (Some ([sample_policy ''open'' False Action_Allow HP_Any], \<lparr>pl_tenants = False, pl_mode = Enforce, pl_audit = True\<rparr>))" for d
    using sample_source_load(1) [of "''x''" 1]
    by (simp add: load_policy_layer_def source_load_def) (simp add: sample_joined_def sample_args_def)
  have w: "sw_files sample_outage sample_store = sample_files (Some ''x'') 1" "sw_hosted sample_outage" "sw_audit sample_outage"
    by (simp_all add: sample_outage_def sample_start_def)
  have a: "sv_auth_token sample_joined = None" by (simp add: sample_joined_def)
  show ?thesis using o
    by (simp add: server_start_def w t l v b k p a policy_store_def Let_def)
qed

lemma sample_joined_opens:
  assumes "rn_oidc r \<noteq> None" "rn_auth r = None" "rn_dispatch r = build_dispatch sample_joined"
    "rn_policy r = Some \<lparr>pl_tenants = False, pl_mode = Enforce, pl_audit = True\<rparr>"
    "gw_policies w = [sample_policy ''open'' False Action_Allow HP_Any]" "gw_revoked w = {''x''}"
  shows "\<exists>a w'. running_service (\<lambda>_ _. Inr (identity_default\<lparr>wi_sid := Some ''s''\<rparr>)) (\<lambda>_. None) (\<lambda>_ _. False) sample_network r
     sample_credential w = (Opened a, w')"
proof -
  let ?t = "\<lparr>tg_host = Name ''a'', tg_port = 443\<rparr>"
  let ?rq = "sample_credential\<lparr>rq_identity := Some (identity_default\<lparr>wi_sid := Some ''s''\<rparr>)\<rparr>"
  have q: "request_target ?rq = Some ?t" "rq_protocol ?rq = ConnectTcp" "rq_destination ?rq = DestTcp ?t" "bearer_token sample_credential = Some ''t''"
    "bearer_token ?rq = Some ''t''" by code_simp+
  have d: "set_evaluate [sample_policy ''open'' False Action_Allow HP_Any] (enforce_context ?rq ?t) = Allow sample_allowed" by code_simp
  have "build_dispatch sample_joined = build_dispatch sample_args"
    by (simp add: build_dispatch_def address_floor_def sample_joined_def sample_args_def)
  then have f: "dispatch_call (\<lambda>_ _. False) sample_network (build_dispatch sample_joined) = dispatch_call (\<lambda>_ _. False) sample_network (build_dispatch sample_args)"
    by simp
  have m: "\<exists>b w'. meter_call (dispatch_call (\<lambda>_ _. False) sample_network (build_dispatch sample_joined))
     (authorize (authorized_from_decision ?t sample_allowed) ?rq) v = (Opened b, w')" for v
    using q(2,3)
    by (simp add: f meter_call_def meter_begin_def meter_limits_def meter_permit_def request_decision_def
        authorize_def authorized_from_decision_def sample_allowed_def limits_default_def sample_floor_opens Let_def)
  have e: "\<exists>b w'. enforce_call \<lparr>pl_tenants = False, pl_mode = Enforce, pl_audit = True\<rparr>
     (meter_call (dispatch_call (\<lambda>_ _. False) sample_network (build_dispatch sample_joined))) ?rq w = (Opened b, w')"
    using m by (simp add: enforce_call_def q(1) d policy_source_def assms(5) Let_def)
  have x: "credential_expiry (\<lambda>_. None) ?rq = None"
    using q(5) by (simp add: credential_expiry_def bearer_token_def split: list.split)
  have r: "\<exists>b w'. revoked_call (\<lambda>_. None) (enforce_call \<lparr>pl_tenants = False, pl_mode = Enforce, pl_audit = True\<rparr>
     (meter_call (dispatch_call (\<lambda>_ _. False) sample_network (build_dispatch sample_joined)))) ?rq w = (Opened b, w')"
    using e x assms(6) by (auto simp: revoked_call_def attach_end_def is_revoked_def)
  obtain parts where "rn_oidc r = Some parts" using assms(1) by blast
  then show ?thesis
    using r q(4) by (simp add: running_service_def server_service_def assms(2-4) option_layer_def identify_call_def)
qed


subsection \<open>A platform gateway\<close>

lemma platform_start_Inr:
  assumes "platform_start env debug sw cache_ok args cache age st = (Inr r, st', cache')"
  shows "bootstrap_platform env debug (sw_boot sw) (sw_hosted sw) (sw_audit sw) cache_ok args cache age st = (Inr (pr_bootstrap r), st', cache') \<and>
    pr_gateway r = restore_revocations (bw_web (sw_boot sw)) st' ((sw_gateway sw)\<lparr>gw_tenants := pt_table (pb_tenants (pr_bootstrap r))\<rparr>)"
  using assms by (auto simp: platform_start_def split: sum.splits prod.splits)

lemma bootstrap_platform_Inr:
  assumes "bootstrap_platform env debug bw hosted_ok audit_ok cache_ok args cache age st = (Inr pb, st', cache')"
  obtains url i start where "sv_control_plane args = Some url" "pb_identity pb = i"
    "join_platform bw (pb_control pb) (sv_control_plane_token args)
       (case sv_control_plane_name args of Some n \<Rightarrow> n | None \<Rightarrow> display_socket_addr (sv_listen args))
       (case parse_labels debug (sv_control_plane_label args) of Inr l \<Rightarrow> l | Inl _ \<Rightarrow> []) st = (Inr i, st')"
    "choose_initial_tenants cache_ok (tenant_poll (fetch_tenants (bw_web bw) (pb_control pb) i None None)) cache age = (Some start, cache')"
    "pb_tenants pb = apply_tenants env (case start of Fetched l \<Rightarrow> l | Cached l _ \<Rightarrow> l) platform_tenants_new"
proof -
  obtain url dir where u: "sv_control_plane args = Some url" "sv_control_plane_state args = Some dir"
    using assms by (auto simp: bootstrap_platform_def split: option.splits)
  obtain interval lease cttl where t: "control_plane_timings args = Inr (interval, lease, cttl)"
    using assms u by (cases "control_plane_timings args") (auto simp: bootstrap_platform_def)
  obtain ttl where d: "parse_duration (sv_credential_ttl args) = Inr ttl"
    using assms u t by (cases "parse_duration (sv_credential_ttl args)") (auto simp: bootstrap_platform_def)
  obtain oidc where o: "build_platform_oidc debug hosted_ok args = Inr oidc"
    using assms u t d by (cases "build_platform_oidc debug hosted_ok args") (auto simp: bootstrap_platform_def)
  obtain labels where l: "parse_labels debug (sv_control_plane_label args) = Inr labels"
    using assms u t d o by (cases "parse_labels debug (sv_control_plane_label args)") (auto simp: bootstrap_platform_def)
  note parsed = u t d o l
  let ?name = "case sv_control_plane_name args of Some n \<Rightarrow> n | None \<Rightarrow> display_socket_addr (sv_listen args)"
  let ?cp = "control_new url dir"
  obtain j st1 where j: "join_platform bw ?cp (sv_control_plane_token args) ?name labels st = (j, st1)" by fastforce
  obtain i where i: "j = Inr i" using assms parsed j by (cases j) (auto simp: bootstrap_platform_def Let_def)
  obtain s c where c: "choose_initial_tenants cache_ok (tenant_poll (fetch_tenants (bw_web bw) ?cp i None None)) cache age = (s, c)" by fastforce
  obtain start where s: "s = Some start" using assms parsed j i c by (cases s) (auto simp: bootstrap_platform_def Let_def)
  have "pb_control pb = ?cp \<and> pb_identity pb = i \<and> st1 = st' \<and> c = cache' \<and>
      pb_tenants pb = apply_tenants env (case start of Fetched l \<Rightarrow> l | Cached l _ \<Rightarrow> l) platform_tenants_new"
    using assms parsed j i c s
    by (cases start) (auto simp: bootstrap_platform_def Let_def split: if_splits)
  then show ?thesis using that [of url i start] u l j i c s by simp
qed

lemma join_platform_Inr:
  assumes "join_platform bw cp token name labels st = (Inr i, st')"
  shows "gs_revocations st' = gs_revocations st" "load_identity (bw_web bw) (bw_readable bw) st = Inr (Some i') \<Longrightarrow> i' = i \<and> gi_org_id i = []"
  using assms
  by (auto simp: join_platform_def register_platform_def persist_identity_def check_platform_identity_def and_then_Inr_iff Let_def
      split: sum.splits option.splits prod.splits if_splits)

text \<open>
  A platform gateway serves only with a tenant table in force and its ended sessions refused. The table it
  starts with is the one the control plane's list gives, or the cached list's when the control plane does not
  answer, and without either it does not start; a stored identity is never that of a single organisation's
  gateway; and the sessions the cache names as ended are refused from the first request on.
\<close>

theorem platform_starts_with_its_tenants:
  assumes "platform_start env debug sw cache_ok args cache age st = (Inr r, st', cache')"
  shows "(\<exists>l. gw_tenants (pr_gateway r) = pt_table (apply_tenants env l platform_tenants_new) \<and>
      (fetch_tenants (bw_web (sw_boot sw)) (pb_control (pr_bootstrap r)) (pb_identity (pr_bootstrap r)) None None = Inr (Tenants_Updated l) \<or>
       cache = Some l)) \<and>
    (\<forall>i. load_identity (bw_web (sw_boot sw)) (bw_readable (sw_boot sw)) st = Inr (Some i) \<longrightarrow> pb_identity (pr_bootstrap r) = i \<and> gi_org_id i = []) \<and>
    (\<forall>l. load_cached_revocations (bw_web (sw_boot sw)) st = Some l \<longrightarrow> gw_revoked (pr_gateway r) = set (map rs_sid (rp_revoked l)))"
proof -
  let ?w = "bw_web (sw_boot sw)" and ?pb = "pr_bootstrap r"
  note p = platform_start_Inr [OF assms]
  obtain i start where b: "pb_identity ?pb = i"
    "join_platform (sw_boot sw) (pb_control ?pb) (sv_control_plane_token args)
       (case sv_control_plane_name args of Some n \<Rightarrow> n | None \<Rightarrow> display_socket_addr (sv_listen args))
       (case parse_labels debug (sv_control_plane_label args) of Inr l \<Rightarrow> l | Inl _ \<Rightarrow> []) st = (Inr i, st')"
    "choose_initial_tenants cache_ok (tenant_poll (fetch_tenants ?w (pb_control ?pb) i None None)) cache age = (Some start, cache')"
    "pb_tenants ?pb = apply_tenants env (case start of Fetched l \<Rightarrow> l | Cached l _ \<Rightarrow> l) platform_tenants_new"
    by (rule bootstrap_platform_Inr [OF conjunct1 [OF p]])
  have t: "gw_tenants (pr_gateway r) = pt_table (pb_tenants ?pb)"
    by (simp add: conjunct2 [OF p] restore_revocations_def revocations_replace_def split: option.split)
  have "case start of Fetched l \<Rightarrow> fetch_tenants ?w (pb_control ?pb) i None None = Inr (Tenants_Updated l) | Cached l _ \<Rightarrow> cache = Some l"
    using b(3) by (auto simp: choose_initial_tenants_def tenant_poll_def split: sum.splits tenant_fetch.splits)
  then have 1: "\<exists>l. gw_tenants (pr_gateway r) = pt_table (apply_tenants env l platform_tenants_new) \<and>
      (fetch_tenants ?w (pb_control ?pb) (pb_identity ?pb) None None = Inr (Tenants_Updated l) \<or> cache = Some l)"
    using t b(1,4) by (cases start) auto
  have "load_cached_revocations ?w st' = load_cached_revocations ?w st"
    using join_platform_Inr(1) [OF b(2)] by (simp add: load_cached_revocations_def)
  then have 2: "gw_revoked (pr_gateway r) = set (map rs_sid (rp_revoked l))" if "load_cached_revocations ?w st = Some l" for l
    using that by (simp add: conjunct2 [OF p] restore_revocations_gives)
  show ?thesis using 1 2 join_platform_Inr(2) [OF b(2)] b(1) by blast
qed

end
